(* ===== verification/Prelude.thy ===== *)
theory Prelude
  imports Complex_Main "HOL-Library.Product_Lexorder" "HOL-Library.List_Lexorder"
    "HOL-Library.Char_ord"
begin

text \<open>
  What every component theory shares: the names of the model's scalar types, the named
  collections of hints, and the generic lemmas on tables (lists of rows with a key) that
  carry the proofs about the bridge's SQLite repositories.

  A table is the list of its rows in rowid order. The repositories only ever insert at the
  end, rewrite rows in place and delete rows, so the three operations below, with their
  lemmas, are all the SQL the model needs.
\<close>

section \<open>Scalars\<close>

type_synonym zats = int
type_synonym seconds = int
type_synonym millis = int

text \<open>\<open>Math.floor(Date.now() / 1000)\<close>: the clock every repository stamps rows with.\<close>

definition now_s :: "millis \<Rightarrow> seconds" where
  "now_s ms = ms div 1000"

text \<open>
  JavaScript's \<open>Math.round\<close>, \<open>Math.floor\<close> and \<open>Math.ceil\<close> on the rationals that stand
  for the numbers of the source.
\<close>

definition math_round :: "rat \<Rightarrow> int" where
  "math_round x = \<lfloor>x + 1 / 2\<rfloor>"

definition math_ceil_div :: "int \<Rightarrow> int \<Rightarrow> int" where
  "math_ceil_div a b = - ((- a) div b)"

section \<open>Collections of hints\<close>

named_theorems repo_simps "equations of the repository operations"
named_theorems table_simps "facts about tables: update, insert, delete, keys"

section \<open>Tables\<close>

definition update_where :: "('r \<Rightarrow> bool) \<Rightarrow> ('r \<Rightarrow> 'r) \<Rightarrow> 'r list \<Rightarrow> 'r list" where
  "update_where P f rs = map (\<lambda>r. if P r then f r else r) rs"

definition delete_where :: "('r \<Rightarrow> bool) \<Rightarrow> 'r list \<Rightarrow> 'r list" where
  "delete_where P rs = filter (\<lambda>r. \<not> P r) rs"

text \<open>\<open>INTEGER PRIMARY KEY\<close>: a fresh rowid is one more than the largest in use.\<close>

definition next_rowid :: "nat list \<Rightarrow> nat" where
  "next_rowid ids = Suc (fold max ids 0)"

definition has_key :: "('r \<Rightarrow> 'k) \<Rightarrow> 'k \<Rightarrow> 'r list \<Rightarrow> bool" where
  "has_key key k rs \<longleftrightarrow> (\<exists>r\<in>set rs. key r = k)"

definition unique_key :: "('r \<Rightarrow> 'k) \<Rightarrow> 'r list \<Rightarrow> bool" where
  "unique_key key rs \<longleftrightarrow> distinct (map key rs)"

lemma fold_max_ge: "(a :: nat) \<le> fold max xs a"
  by (induction xs arbitrary: a) (auto intro: le_trans [OF max.cobounded2])

lemma fold_max_mem: "x \<in> set xs \<Longrightarrow> (x :: nat) \<le> fold max xs a"
  by (induction xs arbitrary: a) (auto intro: le_trans [OF max.cobounded1 fold_max_ge])

lemma next_rowid_fresh: "i \<in> set ids \<Longrightarrow> i < next_rowid ids"
  by (simp add: next_rowid_def fold_max_mem less_Suc_eq_le)

lemma next_rowid_notin [table_simps]: "next_rowid ids \<notin> set ids"
  using next_rowid_fresh by blast

lemma not_has_next_rowid [table_simps]: "\<not> has_key key (next_rowid (map key rs)) rs"
  using next_rowid_notin [of "map key rs"] by (force simp: has_key_def)

lemma has_key_update [table_simps]:
  assumes "\<And>r. key (f r) = key r"
  shows "has_key key k (update_where P f rs) = has_key key k rs"
  using assms by (auto simp: has_key_def update_where_def)

lemma map_key_update:
  assumes "\<And>r. r \<in> set rs \<Longrightarrow> P r \<Longrightarrow> key (f r) = key r"
  shows "map key (update_where P f rs) = map key rs"
  using assms by (auto simp: update_where_def)

lemma unique_key_update [table_simps]:
  assumes "\<And>r. key (f r) = key r"
  shows "unique_key key (update_where P f rs) = unique_key key rs"
  using assms by (simp add: unique_key_def map_key_update)

lemma unique_key_append1 [table_simps]:
  "unique_key key (rs @ [r]) \<longleftrightarrow> unique_key key rs \<and> \<not> has_key key (key r) rs"
  by (auto simp: unique_key_def has_key_def image_iff)

lemma unique_key_Nil [simp]: "unique_key key []"
  by (simp add: unique_key_def)

lemma unique_key_Cons:
  "unique_key key (r # rs) \<longleftrightarrow> unique_key key rs \<and> \<not> has_key key (key r) rs"
  by (auto simp: unique_key_def has_key_def image_iff)

lemma unique_key_delete [table_simps]: "unique_key key rs \<Longrightarrow> unique_key key (delete_where P rs)"
  by (simp add: unique_key_def delete_where_def distinct_map_filter)

lemma unique_key_once:
  assumes "unique_key key rs"
  shows "length (filter (\<lambda>r. key r = k) rs) \<le> 1"
  using assms by (induction rs) (auto simp: unique_key_Cons has_key_def filter_empty_conv)

lemma unique_keyD:
  "unique_key key rs \<Longrightarrow> r \<in> set rs \<Longrightarrow> s \<in> set rs \<Longrightarrow> key r = key s \<Longrightarrow> r = s"
  by (auto simp: unique_key_def distinct_map dest: inj_onD)

lemma set_update_where:
  "set (update_where P f rs) = f ` {r \<in> set rs. P r} \<union> {r \<in> set rs. \<not> P r}"
  by (auto simp: update_where_def)

lemma in_update_whereE:
  assumes "r \<in> set (update_where P f rs)"
  obtains "r \<in> set rs" "\<not> P r" | s where "s \<in> set rs" "P s" "r = f s"
  using assms by (auto simp: update_where_def split: if_splits)

lemma set_delete_where [table_simps]: "set (delete_where P rs) = {r \<in> set rs. \<not> P r}"
  by (auto simp: delete_where_def)

lemma length_update_where [table_simps]: "length (update_where P f rs) = length rs"
  by (simp add: update_where_def)

lemma find_key_None: "find (\<lambda>r. key r = k) rs = None \<longleftrightarrow> \<not> has_key key k rs"
  by (auto simp: find_None_iff has_key_def)

lemma find_key_Some: "find (\<lambda>r. key r = k) rs = Some r \<Longrightarrow> r \<in> set rs \<and> key r = k"
  by (auto simp: find_Some_iff)

lemma find_key_unique:
  assumes "unique_key key rs" and "r \<in> set rs"
  shows "find (\<lambda>s. key s = key r) rs = Some r"
proof -
  have "has_key key (key r) rs" using assms(2) by (auto simp: has_key_def)
  then obtain s where s: "find (\<lambda>s. key s = key r) rs = Some s"
    using find_key_None [of key "key r" rs] by auto
  with assms show ?thesis using find_key_Some [OF s] unique_keyD [OF assms(1)] by blast
qed

lemma find_update_other:
  assumes "\<And>r. key (f r) = key r" and "\<And>r. P r \<Longrightarrow> key r \<noteq> k"
  shows "find (\<lambda>r. key r = k) (update_where P f rs) = find (\<lambda>r. key r = k) rs"
  using assms by (induction rs) (auto simp: update_where_def)

lemma find_update_same:
  assumes "\<And>r. key (f r) = key r"
  shows "find (\<lambda>r. key r = k) (update_where (\<lambda>r. key r = k) f rs)
    = map_option f (find (\<lambda>r. key r = k) rs)"
  using assms by (induction rs) (auto simp: update_where_def)

lemma find_append: "find P (xs @ ys) = (case find P xs of None \<Rightarrow> find P ys | Some x \<Rightarrow> Some x)"
  by (induction xs) auto

lemma find_Some_mem: "find P xs = Some x \<Longrightarrow> x \<in> set xs \<and> P x"
  by (auto simp: find_Some_iff)

section \<open>Sorting\<close>

text \<open>
  \<open>Array.prototype.sort\<close> is stable, as is \<^const>\<open>sort_key\<close>. The head of a sorted list
  is a least element, which is what every ``least loaded first'' rule rests on.
\<close>

lemma sort_key_eq_Nil [simp]: "sort_key k xs = [] \<longleftrightarrow> xs = []"
  using length_sort [of k xs] by (cases "sort_key k xs"; cases xs) simp_all

lemma sort_key_hd_least:
  fixes k :: "'a \<Rightarrow> 'b :: linorder"
  assumes "sort_key k xs = y # ys" and "x \<in> set xs"
  shows "k y \<le> k x"
proof -
  have "sorted (map k (y # ys))" using sorted_sort_key [of k xs] assms(1) by simp
  moreover have "x \<in> set (y # ys)" using assms set_sort [of k xs] by metis
  ultimately show ?thesis by (auto simp: sorted_simps)
qed

lemma sorted_filter_map: "sorted (map k xs) \<Longrightarrow> sorted (map k (filter P xs))"
  by (rule sorted_filter)

lemma find_sorted_least:
  fixes k :: "'a \<Rightarrow> 'b :: linorder"
  assumes "sorted (map k xs)" and "find P xs = Some x" and "y \<in> set xs" and "P y"
  shows "k x \<le> k y"
  using assms by (induction xs) (auto split: if_splits)

lemma find_hd_filter: "find P xs = (case filter P xs of [] \<Rightarrow> None | x # _ \<Rightarrow> Some x)"
  by (induction xs) auto

section \<open>Least and greatest elements\<close>

lemma Min_insert_min: "finite A \<Longrightarrow> Min (insert (min p q) A) = Min (insert p (insert q A))"
  by (cases "A = {}") (auto simp: min.assoc)

lemma Max_insert_max: "finite A \<Longrightarrow> Max (insert (max p q) A) = Max (insert p (insert q A))"
  by (cases "A = {}") (auto simp: max.assoc)

section \<open>Rounding\<close>

lemma math_round_of_int [simp]: "math_round (of_int n) = n"
  by (simp add: math_round_def floor_eq_iff)

lemma math_round_mono: "x \<le> y \<Longrightarrow> math_round x \<le> math_round y"
  by (simp add: math_round_def floor_mono)

lemma math_round_bounds: "of_int a \<le> x \<Longrightarrow> x \<le> of_int b \<Longrightarrow> a \<le> math_round x \<and> math_round x \<le> b"
  using math_round_mono [of "of_int a" x] math_round_mono [of x "of_int b"] by simp

lemma math_ceil_div_eq: "0 < b \<Longrightarrow> math_ceil_div a b = (a + b - 1) div b"
proof -
  assume "0 < b"
  have "(- a) div b = - ((a + b - 1) div b)"
  proof -
    have "a + b - 1 = b * ((a + b - 1) div b) + (a + b - 1) mod b"
      by (simp add: algebra_simps)
    moreover have "0 \<le> (a + b - 1) mod b" "(a + b - 1) mod b < b"
      using \<open>0 < b\<close> by simp_all
    ultimately have "- a = b * (- ((a + b - 1) div b)) + (b - 1 - (a + b - 1) mod b)"
      by (simp add: algebra_simps)
    then show ?thesis
      using \<open>(a + b - 1) mod b < b\<close> \<open>0 \<le> (a + b - 1) mod b\<close>
      by (intro int_div_pos_eq [of _ b _ "b - 1 - (a + b - 1) mod b"]) auto
  qed
  then show ?thesis by (simp add: math_ceil_div_def)
qed

lemma math_ceil_div_bounds:
  assumes "0 < b"
  shows "a \<le> b * math_ceil_div a b" and "b * math_ceil_div a b < a + b"
proof -
  have *: "a + b - 1 = b * math_ceil_div a b + (a + b - 1) mod b"
    using assms by (simp add: math_ceil_div_eq algebra_simps)
  have m: "0 \<le> (a + b - 1) mod b" "(a + b - 1) mod b < b" using assms by simp_all
  show "a \<le> b * math_ceil_div a b" using * m(2) by linarith
  show "b * math_ceil_div a b < a + b" using * m(1) by linarith
qed

lemma math_ceil_div_pos: "0 < b \<Longrightarrow> 0 < a \<Longrightarrow> 0 < math_ceil_div a b"
  using math_ceil_div_bounds(1) [of b a] by (metis less_le_trans zero_less_mult_pos)

lemma math_ceil_div_mono: "0 < b \<Longrightarrow> a \<le> a' \<Longrightarrow> math_ceil_div a b \<le> math_ceil_div a' b"
  by (simp add: math_ceil_div_eq zdiv_mono1)

text \<open>\<open>x ?? d\<close>.\<close>

definition the_default :: "'a \<Rightarrow> 'a option \<Rightarrow> 'a" where
  "the_default d x = (case x of Some v \<Rightarrow> v | None \<Rightarrow> d)"

lemma the_default_simps [simp]: "the_default d None = d" "the_default d (Some v) = v"
  by (simp_all add: the_default_def)

end
