(* ===== verification/JsString.thy ===== *)
theory JsString
  imports Prelude
begin

text \<open>
  The string operations of the source, on Isabelle strings: a \<^typ>\<open>char\<close> stands for one
  UTF-16 code unit below 256, and case mapping and white space are those of ASCII. The
  second half proves what the encoders of the program rest on: printing a number and
  reading it back, joining and splitting, and that a printed number contains no separator.
\<close>

section \<open>Characters\<close>

definition is_digit :: "char \<Rightarrow> bool" where
  "is_digit c \<longleftrightarrow> (48 :: nat) \<le> of_char c \<and> of_char c \<le> (57 :: nat)"

definition is_lower :: "char \<Rightarrow> bool" where
  "is_lower c \<longleftrightarrow> (97 :: nat) \<le> of_char c \<and> of_char c \<le> (122 :: nat)"

definition is_upper :: "char \<Rightarrow> bool" where
  "is_upper c \<longleftrightarrow> (65 :: nat) \<le> of_char c \<and> of_char c \<le> (90 :: nat)"

definition is_space :: "char \<Rightarrow> bool" where
  "is_space c \<longleftrightarrow> (of_char c :: nat) \<in> {9, 10, 11, 12, 13, 32, 160}"

definition to_upper :: "char \<Rightarrow> char" where
  "to_upper c = (if is_lower c then char_of (of_char c - 32 :: nat) else c)"

definition to_lower :: "char \<Rightarrow> char" where
  "to_lower c = (if is_upper c then char_of (of_char c + 32 :: nat) else c)"

abbreviation upper_str :: "string \<Rightarrow> string" where
  "upper_str s \<equiv> map to_upper s"

abbreviation lower_str :: "string \<Rightarrow> string" where
  "lower_str s \<equiv> map to_lower s"

section \<open>Absent and empty strings\<close>

text \<open>\<open>x || y\<close> on strings: the first that is present and not empty.\<close>

definition or_else :: "string option \<Rightarrow> string option \<Rightarrow> string option" where
  "or_else x y = (case x of Some s \<Rightarrow> if s \<noteq> [] then x else y | None \<Rightarrow> y)"

definition truthy :: "string option \<Rightarrow> bool" where
  "truthy x \<longleftrightarrow> (case x of None \<Rightarrow> False | Some s \<Rightarrow> s \<noteq> [])"

section \<open>Searching, trimming, splitting, joining\<close>

definition starts_with :: "string \<Rightarrow> string \<Rightarrow> bool" where
  "starts_with p s \<longleftrightarrow> take (length p) s = p"

definition ends_with :: "string \<Rightarrow> string \<Rightarrow> bool" where
  "ends_with p s \<longleftrightarrow> starts_with (rev p) (rev s)"

fun str_includes :: "string \<Rightarrow> string \<Rightarrow> bool" where
  "str_includes p [] = (p = [])"
| "str_includes p (c # s) = (starts_with p (c # s) \<or> str_includes p s)"

definition trim :: "string \<Rightarrow> string" where
  "trim s = rev (dropWhile is_space (rev (dropWhile is_space s)))"

fun split_on :: "char \<Rightarrow> string \<Rightarrow> string list" where
  "split_on d [] = [[]]"
| "split_on d (c # s) =
     (if c = d then [] # split_on d s
      else (case split_on d s of [] \<Rightarrow> [[c]] | w # ws \<Rightarrow> (c # w) # ws))"

fun join :: "string \<Rightarrow> string list \<Rightarrow> string" where
  "join sep [] = []"
| "join sep [w] = w"
| "join sep (w # ws) = w @ sep @ join sep ws"

text \<open>The part of a string before the first occurrence of a character, and the rest after it.\<close>

definition before :: "char \<Rightarrow> string \<Rightarrow> string" where
  "before d s = takeWhile (\<lambda>c. c \<noteq> d) s"

definition after :: "char \<Rightarrow> string \<Rightarrow> string" where
  "after d s = drop 1 (dropWhile (\<lambda>c. c \<noteq> d) s)"

section \<open>Numbers as text\<close>

definition digit_char :: "nat \<Rightarrow> char" where
  "digit_char d = (if d < 10 then char_of (48 + d) else char_of (87 + d))"

definition digit_value :: "char \<Rightarrow> nat" where
  "digit_value c =
     (if is_digit c then of_char c - 48
      else if is_lower c then of_char c - 87
      else if is_upper c then of_char c - 55 else 0)"

fun show_base :: "nat \<Rightarrow> nat \<Rightarrow> string" where
  "show_base b n =
     (if b < 2 \<or> n < b then [digit_char n] else show_base b (n div b) @ [digit_char (n mod b)])"

declare show_base.simps [simp del]

definition read_base :: "nat \<Rightarrow> string \<Rightarrow> nat" where
  "read_base b s = foldl (\<lambda>a c. b * a + digit_value c) 0 s"

abbreviation show_nat :: "nat \<Rightarrow> string" where
  "show_nat \<equiv> show_base 10"

abbreviation read_nat :: "string \<Rightarrow> nat" where
  "read_nat \<equiv> read_base 10"

definition show_int :: "int \<Rightarrow> string" where
  "show_int i = (if i < 0 then CHR ''-'' # show_nat (nat (- i)) else show_nat (nat i))"

definition is_hex_digit :: "char \<Rightarrow> bool" where
  "is_hex_digit c \<longleftrightarrow> is_digit c \<or> ((97 :: nat) \<le> of_char c \<and> of_char c \<le> (102 :: nat))
     \<or> ((65 :: nat) \<le> of_char c \<and> of_char c \<le> (70 :: nat))"

section \<open>Printing and reading numbers\<close>

lemma of_char_digit_char: "d < 36 \<Longrightarrow> (of_char (digit_char d) :: nat) = (if d < 10 then 48 + d else 87 + d)"
  by (simp add: digit_char_def)

lemma digit_value_digit_char [simp]: "d < 36 \<Longrightarrow> digit_value (digit_char d) = d"
  by (simp add: digit_value_def is_digit_def is_lower_def of_char_digit_char)

lemma is_digit_digit_char [simp]: "d < 10 \<Longrightarrow> is_digit (digit_char d)"
  by (simp add: is_digit_def of_char_digit_char)

lemma is_hex_digit_char [simp]: "d < 16 \<Longrightarrow> is_hex_digit (digit_char d)"
  by (simp add: is_hex_digit_def is_digit_def of_char_digit_char)

lemma read_base_snoc: "read_base b (s @ [c]) = b * read_base b s + digit_value c"
  by (simp add: read_base_def)

lemma read_base_Nil [simp]: "read_base b [] = 0"
  by (simp add: read_base_def)

lemma read_show_base: "2 \<le> b \<Longrightarrow> b \<le> 36 \<Longrightarrow> read_base b (show_base b n) = n"
proof (induction b n rule: show_base.induct)
  case (1 b n)
  show ?case
  proof (cases "n < b")
    case True
    with 1 show ?thesis by (simp add: show_base.simps read_base_def)
  next
    case False
    have "read_base b (show_base b n) = b * (n div b) + n mod b"
      using False 1
      by (subst show_base.simps) (simp add: read_base_snoc less_le_trans [OF mod_less_divisor])
    then show ?thesis by simp
  qed
qed

lemma show_base_inject: "2 \<le> b \<Longrightarrow> b \<le> 36 \<Longrightarrow> show_base b m = show_base b n \<longleftrightarrow> m = n"
  by (metis read_show_base)

lemma show_base_digits:
  assumes "2 \<le> b" "c \<in> set (show_base b n)"
  shows "\<exists>d < b. c = digit_char d"
  using assms
proof (induction b n rule: show_base.induct)
  case (1 b n)
  have "\<exists>d < b. digit_char (n mod b) = digit_char d"
    using "1.prems" by (intro exI [of _ "n mod b"]) simp
  with 1 show ?case by (cases "n < b") (auto simp: show_base.simps [of b n])
qed

lemma show_base_not_Nil [simp]: "show_base b n \<noteq> []"
  by (subst show_base.simps) simp

lemma show_nat_is_digit: "c \<in> set (show_nat n) \<Longrightarrow> is_digit c"
  using show_base_digits [of 10 c n] by auto

lemma show_hex_is_hex: "c \<in> set (show_base 16 n) \<Longrightarrow> is_hex_digit c"
  using show_base_digits [of 16 c n] by auto

lemma show_nat_no_sep: "\<not> is_digit c \<Longrightarrow> c \<notin> set (show_nat n)"
  using show_nat_is_digit by blast

lemma show_base_length: "2 \<le> b \<Longrightarrow> n < b ^ k \<Longrightarrow> 0 < k \<Longrightarrow> length (show_base b n) \<le> k"
proof (induction k arbitrary: n)
  case 0
  then show ?case by simp
next
  case (Suc k)
  show ?case
  proof (cases "n < b")
    case True
    then show ?thesis by (simp add: show_base.simps)
  next
    case False
    have "n div b < b ^ k" using Suc.prems
      by (simp add: less_mult_imp_div_less mult.commute)
    moreover have "0 < k" using False Suc.prems by (cases k) auto
    ultimately have "length (show_base b (n div b)) \<le> k" using Suc by simp
    then show ?thesis using False by (subst show_base.simps) simp
  qed
qed

lemma hd_show_base: "2 \<le> b \<Longrightarrow> b \<le> 36 \<Longrightarrow> hd (show_base b n) = CHR ''0'' \<Longrightarrow> n = 0"
proof (induction b n rule: show_base.induct)
  case (1 b n)
  show ?case
  proof (cases "n < b")
    case True
    then have "digit_char n = CHR ''0''" using 1 by (simp add: show_base.simps)
    then have "digit_value (digit_char n) = digit_value CHR ''0''" by simp
    also have "\<dots> = 0" by (simp add: digit_value_def is_digit_def)
    finally show ?thesis using True 1 by simp
  next
    case False
    then have "hd (show_base b (n div b)) = CHR ''0''"
      using 1 by (simp add: show_base.simps [of b n])
    then have "n div b = 0" using 1 False by simp
    then show ?thesis using False 1 by (simp add: div_eq_0_iff)
  qed
qed

lemma show_int_inject [simp]: "show_int i = show_int j \<longleftrightarrow> i = j"
proof -
  have no_minus: "CHR ''-'' \<notin> set (show_nat n)" for n
    by (rule show_nat_no_sep) (simp add: is_digit_def)
  have *: "CHR ''-'' # s \<noteq> show_nat n" for s n
    using no_minus [of n] by (metis list.set_intros(1))
  show ?thesis
    by (auto simp: show_int_def show_base_inject * * [symmetric])
qed

lemma show_int_no_sep: "\<not> is_digit c \<Longrightarrow> c \<noteq> CHR ''-'' \<Longrightarrow> c \<notin> set (show_int i)"
  by (auto simp: show_int_def dest: show_nat_is_digit)

section \<open>Splitting and joining\<close>

lemma split_on_not_Nil [simp]: "split_on d s \<noteq> []"
  by (induction s) (auto split: list.splits)

lemma split_on_no_sep: "d \<notin> set s \<Longrightarrow> split_on d s = [s]"
  by (induction s) auto

lemma split_on_append: "d \<notin> set s \<Longrightarrow> split_on d (s @ d # t) = s # split_on d t"
  by (induction s) auto

lemma split_on_join:
  "ws \<noteq> [] \<Longrightarrow> (\<And>w. w \<in> set ws \<Longrightarrow> d \<notin> set w) \<Longrightarrow> split_on d (join [d] ws) = ws"
  by (induction "[d]" ws rule: join.induct) (auto simp: split_on_no_sep split_on_append)

lemma join_split_on: "join [d] (split_on d s) = s"
proof (induction s)
  case (Cons c s)
  then show ?case
    by (cases "split_on d s" rule: remdups_adj.cases) auto
qed simp

lemma split_on_no_sep_parts: "w \<in> set (split_on d s) \<Longrightarrow> d \<notin> set w"
  by (induction s arbitrary: w) (auto split: if_splits list.splits)

lemma set_join: "set (join sep ws) \<subseteq> set sep \<union> (\<Union>w\<in>set ws. set w)"
  by (induction sep ws rule: join.induct) auto

lemma join_eq_Nil: "ws \<noteq> [] \<Longrightarrow> hd ws \<noteq> [] \<Longrightarrow> join sep ws \<noteq> []"
  by (cases "(sep, ws)" rule: join.cases) auto

text \<open>A separator that the right part does not contain splits a string in one way only.\<close>

lemma append_sep_inject_right:
  assumes "a @ d # b = a' @ d # b'" and "d \<notin> set b" and "d \<notin> set b'"
  shows "a = a' \<and> b = b'"
proof -
  have "rev b @ d # rev a = rev b' @ d # rev a'"
    using assms(1) by (metis append.assoc append_Cons append_Nil rev.simps(2) rev_append rev_rev_ident)
  then have "takeWhile (\<lambda>c. c \<noteq> d) (rev b @ d # rev a) = takeWhile (\<lambda>c. c \<noteq> d) (rev b' @ d # rev a')"
    by simp
  moreover have "takeWhile (\<lambda>c. c \<noteq> d) (rev x @ d # y) = rev x" if "d \<notin> set x" for x y
    using that by (subst takeWhile_append2) auto
  ultimately show ?thesis using assms by simp
qed

lemma append_sep_inject_left:
  assumes "a @ d # b = a' @ d # b'" and "d \<notin> set a" and "d \<notin> set a'"
  shows "a = a' \<and> b = b'"
proof -
  have "takeWhile (\<lambda>c. c \<noteq> d) (x @ d # y) = x" if "d \<notin> set x" for x y
    using that by (subst takeWhile_append2) auto
  then show ?thesis using assms by (metis append_eq_append_conv list.inject)
qed

lemma before_append: "d \<notin> set s \<Longrightarrow> before d (s @ d # t) = s"
  unfolding before_def by (subst takeWhile_append2) auto

lemma after_append: "d \<notin> set s \<Longrightarrow> after d (s @ d # t) = t"
  unfolding after_def by (subst dropWhile_append2) auto

lemma before_no_sep: "d \<notin> set s \<Longrightarrow> before d s = s"
  unfolding before_def by (auto simp: takeWhile_eq_all_conv)

lemma trim_id:
  assumes "\<forall>c\<in>set s. \<not> is_space c"
  shows "trim s = s"
proof -
  have *: "dropWhile is_space t = t" if "\<forall>c\<in>set t. \<not> is_space c" for t
    using that by (cases t) auto
  show ?thesis using * [of s] * [of "rev s"] assms by (simp add: trim_def)
qed

lemma trim_trim: "trim (trim s) = trim s"
proof -
  define t where "t = dropWhile is_space s"
  let ?u = "rev (dropWhile is_space (rev t))"
  have "dropWhile is_space ?u = ?u"
  proof (cases "?u = []")
    case True
    show ?thesis unfolding True by simp
  next
    case False
    then obtain c u where Cons: "?u = c # u" by (cases ?u) auto
    then have "t = ?u @ rev (takeWhile is_space (rev t))"
      by (metis rev_append rev_rev_ident takeWhile_dropWhile_id)
    with Cons have "hd t = c" "t \<noteq> []" by (metis append_Cons list.sel(1), auto)
    then have "\<not> is_space c" using hd_dropWhile [of is_space s] by (simp add: t_def)
    with Cons show ?thesis by simp
  qed
  then show ?thesis by (simp add: trim_def t_def)
qed

lemma starts_with_append [simp]: "starts_with p (p @ s)"
  by (simp add: starts_with_def)

lemma starts_with_iff: "starts_with p s \<longleftrightarrow> (\<exists>t. s = p @ t)"
  by (auto simp: starts_with_def) (metis append_take_drop_id)

lemma is_digit_not_space: "is_digit c \<Longrightarrow> \<not> is_space c"
  by (auto simp: is_digit_def is_space_def)

end
