(* ===== verification/Intervals.thy ===== *)
theory Intervals
  imports JsString
begin

text \<open>
  The route arithmetic of split tunnelling (the middle of clients/core-ts/src/split.ts):
  merging and subtracting inclusive address intervals, and covering an interval with
  power-of-two blocks. A bigint is an \<^typ>\<open>int\<close>. The meaning of a list of intervals is the
  set of its points, \<open>area\<close>; every operation is proved to be the set operation.
\<close>

unbundle bit_operations_syntax

section \<open>The code\<close>

record interval =
  i_start :: int
  i_end :: int

definition interval :: "int \<Rightarrow> int \<Rightarrow> interval" where
  "interval s e = \<lparr>i_start = s, i_end = e\<rparr>"

definition merge_step :: "interval list \<Rightarrow> interval \<Rightarrow> interval list" where
  "merge_step out iv =
     (if out \<noteq> [] \<and> i_start iv \<le> i_end (last out) + 1
      then (if i_end (last out) < i_end iv
            then butlast out @ [interval (i_start (last out)) (i_end iv)] else out)
      else out @ [iv])"

definition mergeIntervals :: "interval list \<Rightarrow> interval list" where
  "mergeIntervals ivs = foldl merge_step [] (sort_key i_start ivs)"

text \<open>One interval against the cuts: what is kept before the last cut, and where to go on.\<close>

fun cut_loop :: "interval \<Rightarrow> interval list \<Rightarrow> interval list \<Rightarrow> int \<Rightarrow> interval list \<times> int" where
  "cut_loop iv [] out cursor = (out, cursor)"
| "cut_loop iv (c # cs) out cursor =
     (if i_end c < cursor \<or> i_end iv < i_start c then cut_loop iv cs out cursor
      else
        (let out' = (if cursor < i_start c then out @ [interval cursor (i_start c - 1)] else out);
             cursor' = i_end c + 1
         in if i_end iv < cursor' then (out', cursor') else cut_loop iv cs out' cursor'))"

definition subtract_step :: "interval list \<Rightarrow> interval list \<Rightarrow> interval \<Rightarrow> interval list" where
  "subtract_step b out iv =
     (let (out', cursor) = cut_loop iv b out (i_start iv)
      in if cursor \<le> i_end iv then out' @ [interval cursor (i_end iv)] else out')"

definition subtractIntervals :: "interval list \<Rightarrow> interval list \<Rightarrow> interval list" where
  "subtractIntervals a b = foldl (subtract_step b) [] a"

text \<open>
  \<open>while (size > span) size >>= 1\<close>. The remainder of an interval has at least one address, so a
  block of one address always fits, and the loop never gets past it.
\<close>

function shrink :: "int \<Rightarrow> int \<Rightarrow> int" where
  "shrink sz room = (if sz \<le> room \<or> sz \<le> 1 then sz else shrink (drop_bit 1 sz) room)"
  by auto
termination
  by (relation "measure (\<lambda>(sz, room). nat sz)") (auto simp: drop_bit_eq_div)

declare shrink.simps [simp del]

definition block_size :: "nat \<Rightarrow> int \<Rightarrow> int \<Rightarrow> int" where
  "block_size bits start e =
     (let sz = (if start = 0 then push_bit bits 1 else start AND - start)
      in shrink sz (e - start + 1))"

section \<open>The lowest set bit\<close>

lemma low_bit_even: "even x \<Longrightarrow> (x :: int) AND - x = 2 * ((x div 2) AND - (x div 2))"
  by (subst and_rec) (auto elim!: evenE simp flip: mult_minus_right)

lemma low_bit_odd:
  assumes "odd (x :: int)"
  shows "x AND - x = 1"
proof -
  have "- x div 2 = NOT (x div 2)" using assms by (simp add: not_int_def) presburger
  then have "x div 2 AND - x div 2 = 0" by simp
  with assms show ?thesis by (subst and_rec) simp
qed

lemma low_bit:
  assumes "(x :: int) \<noteq> 0"
  shows "\<exists>k m. x AND - x = 2 ^ k \<and> x = 2 ^ k * m \<and> odd m"
  using assms
proof (induction "nat \<bar>x\<bar>" arbitrary: x rule: less_induct)
  case less
  show ?case
  proof (cases "even x")
    case True
    then obtain y where y: "x = 2 * y" by auto
    with less.prems have "nat \<bar>y\<bar> < nat \<bar>x\<bar>" "y \<noteq> 0" by auto
    from less.hyps [OF this] obtain k m where "y AND - y = 2 ^ k" "y = 2 ^ k * m" "odd m" by auto
    then show ?thesis using low_bit_even [OF True] y
      by (intro exI [of _ "Suc k"] exI [of _ m]) simp
  next
    case False
    then show ?thesis by (intro exI [of _ 0] exI [of _ x]) (simp add: low_bit_odd)
  qed
qed

lemma low_bit_dvd_iff:
  assumes "(x :: int) \<noteq> 0"
  shows "2 ^ j dvd x \<longleftrightarrow> 2 ^ j \<le> x AND - x"
proof -
  obtain k m where k: "x AND - x = 2 ^ k" "x = 2 ^ k * m" "odd m" using low_bit [OF assms] by auto
  have "2 ^ j dvd x \<longleftrightarrow> j \<le> k"
  proof
    assume "2 ^ j dvd x"
    show "j \<le> k"
    proof (rule ccontr)
      assume "\<not> j \<le> k"
      then obtain d where "j = Suc (k + d)" using less_iff_Suc_add by (metis not_le)
      then have "2 ^ j = 2 ^ k * (2 * 2 ^ d :: int)" by (simp add: power_add)
      with \<open>2 ^ j dvd x\<close> k(2) have "2 ^ k * (2 * 2 ^ d) dvd 2 ^ k * m" by simp
      then have "2 * 2 ^ d dvd m" by (subst (asm) dvd_mult_cancel_left) simp
      with k(3) show False by (metis dvd_mult_left)
    qed
  next
    assume "j \<le> k"
    then show "2 ^ j dvd x" using k(2) by (simp add: le_imp_power_dvd dvd_mult2)
  qed
  then show ?thesis using k(1) by (simp add: power_increasing_iff)
qed

section \<open>The block at the start of an interval\<close>

lemma shrink_power:
  assumes "sz = 2 ^ k" and "1 \<le> room"
  shows "\<exists>j\<le>k. shrink sz room = 2 ^ j \<and> 2 ^ j \<le> room \<and> (\<forall>i. i \<le> k \<longrightarrow> 2 ^ i \<le> room \<longrightarrow> i \<le> j)"
  using assms
proof (induction k arbitrary: sz)
  case 0
  then show ?case by (intro exI [of _ 0]) (simp add: shrink.simps)
next
  case (Suc k)
  show ?case
  proof (cases "sz \<le> room")
    case True
    with Suc.prems show ?thesis by (intro exI [of _ "Suc k"]) (simp add: shrink.simps)
  next
    case False
    have "drop_bit 1 sz = 2 ^ k" using Suc.prems by (simp add: drop_bit_eq_div)
    moreover have "\<not> sz \<le> 1" using Suc.prems False by simp
    ultimately have "shrink sz room = shrink (2 ^ k) room" using False by (subst shrink.simps) simp
    moreover obtain j where "j \<le> k" "shrink (2 ^ k) room = 2 ^ j" "2 ^ j \<le> room"
      "\<forall>i. i \<le> k \<longrightarrow> 2 ^ i \<le> room \<longrightarrow> i \<le> j"
      using Suc.IH [OF refl Suc.prems(2)] by blast
    ultimately show ?thesis using False Suc.prems(1) by (intro exI [of _ j]) (auto simp: le_Suc_eq)
  qed
qed

text \<open>It is the largest block that is aligned at the start and fits.\<close>

lemma block_size:
  assumes "0 \<le> s" and "s \<le> e" and "e < 2 ^ bits"
  obtains j where "block_size bits s e = 2 ^ j" and "j \<le> bits" and "2 ^ j dvd s" and "2 ^ j \<le> e - s + 1"
    and "\<And>i. i \<le> bits \<Longrightarrow> 2 ^ i dvd s \<Longrightarrow> 2 ^ i \<le> e - s + 1 \<Longrightarrow> i \<le> j"
proof (cases "s = 0")
  case True
  have "1 \<le> e - s + 1" using assms by simp
  from shrink_power [OF refl this, of bits] obtain j where
    "j \<le> bits" "shrink (2 ^ bits) (e - s + 1) = 2 ^ j" "2 ^ j \<le> e - s + 1"
    "\<forall>i. i \<le> bits \<longrightarrow> 2 ^ i \<le> e - s + 1 \<longrightarrow> i \<le> j" by blast
  then show ?thesis using True by (intro that [of j]) (auto simp: block_size_def push_bit_eq_mult)
next
  case False
  from low_bit [OF False] obtain k m where k: "s AND - s = 2 ^ k" "s = 2 ^ k * m" by auto
  have "1 \<le> e - s + 1" using assms by simp
  from shrink_power [OF k(1) this] obtain j where
    j: "j \<le> k" "shrink (s AND - s) (e - s + 1) = 2 ^ j" "2 ^ j \<le> e - s + 1"
    "\<forall>i. i \<le> k \<longrightarrow> 2 ^ i \<le> e - s + 1 \<longrightarrow> i \<le> j" by blast
  have "2 ^ j dvd s" using k(2) j(1) by (simp add: le_imp_power_dvd dvd_mult2)
  moreover have "j \<le> bits"
  proof -
    have "(2 :: int) ^ j \<le> s" using \<open>2 ^ j dvd s\<close> False assms(1) by (intro zdvd_imp_le) auto
    then have "(2 :: int) ^ j < 2 ^ bits" using assms by linarith
    then show ?thesis by (simp add: power_strict_increasing_iff)
  qed
  moreover have "i \<le> j" if "2 ^ i dvd s" "2 ^ i \<le> e - s + 1" for i
    using j(4) that low_bit_dvd_iff [OF False, of i] k(1) by (simp add: power_increasing_iff)
  ultimately show ?thesis using j False by (intro that [of j]) (auto simp: block_size_def)
qed

section \<open>Blocks\<close>

datatype family = V4 | V6

definition familyBits :: "family \<Rightarrow> nat" where
  "familyBits f = (if f = V4 then 32 else 128)"

record cidr =
  c_family :: family
  c_net :: int
  c_prefix :: nat

definition cidrToInterval :: "cidr \<Rightarrow> interval" where
  "cidrToInterval c =
     (let sz = push_bit (familyBits (c_family c) - c_prefix c) 1
      in interval (c_net c) (c_net c + sz - 1))"

lemma shrink_ge_1: "1 \<le> sz \<Longrightarrow> 1 \<le> shrink sz room"
proof (induction sz room rule: shrink.induct)
  case (1 sz room)
  then show ?case by (subst shrink.simps) (auto simp: drop_bit_eq_div)
qed

lemma block_size_ge_1: "1 \<le> block_size bits s e"
proof -
  have "1 \<le> s AND - s" if "s \<noteq> 0" using low_bit [OF that] by auto
  then show ?thesis by (auto simp: block_size_def push_bit_eq_mult intro!: shrink_ge_1)
qed

text \<open>The loop of \<open>intervalToCidrs\<close>, from \<open>start\<close> on.\<close>

function cover_loop :: "family \<Rightarrow> int \<Rightarrow> int \<Rightarrow> cidr list" where
  "cover_loop f s e =
     (if s \<le> e then
        (let bits = familyBits f; sz = block_size bits s e
         in \<lparr>c_family = f, c_net = s, c_prefix = bits - (length (show_base 2 (nat sz)) - 1)\<rparr>
              # cover_loop f (s + sz) e)
      else [])"
  by auto
termination
proof (relation "measure (\<lambda>(f, s, e). nat (e - s + 1))")
  fix f s e b sz
  assume "s \<le> e" "sz = block_size b s e"
  then show "((f, s + sz, e), f, s, e) \<in> measure (\<lambda>(f, s, e). nat (e - s + 1))"
    using block_size_ge_1 [of b s e] by auto
qed simp

declare cover_loop.simps [simp del]

definition intervalToCidrs :: "interval \<Rightarrow> family \<Rightarrow> cidr list" where
  "intervalToCidrs iv f = cover_loop f (i_start iv) (i_end iv)"

section \<open>What they mean\<close>

definition pts :: "interval \<Rightarrow> int set" where
  "pts iv = {i_start iv .. i_end iv}"

definition area :: "interval list \<Rightarrow> int set" where
  "area ivs = (\<Union>iv\<in>set ivs. pts iv)"

definition valid_interval :: "family \<Rightarrow> interval \<Rightarrow> bool" where
  "valid_interval f iv \<longleftrightarrow> 0 \<le> i_start iv \<and> i_start iv \<le> i_end iv \<and> i_end iv < 2 ^ familyBits f"

definition cidr_ok :: "cidr \<Rightarrow> bool" where
  "cidr_ok c \<longleftrightarrow> c_prefix c \<le> familyBits (c_family c) \<and> 0 \<le> c_net c
     \<and> c_net c < 2 ^ familyBits (c_family c) \<and> 2 ^ (familyBits (c_family c) - c_prefix c) dvd c_net c"

definition cpts :: "cidr \<Rightarrow> int set" where
  "cpts c = pts (cidrToInterval c)"

lemma interval_simps [simp]: "i_start (interval s e) = s" "i_end (interval s e) = e"
  by (simp_all add: interval_def)

lemma area_simps [simp]: "area [] = {}" "area (iv # ivs) = pts iv \<union> area ivs"
  "area (xs @ ys) = area xs \<union> area ys"
  by (simp_all add: area_def)

lemma cpts_eq: "cpts c = {c_net c ..< c_net c + 2 ^ (familyBits (c_family c) - c_prefix c)}"
  by (auto simp: cpts_def pts_def cidrToInterval_def push_bit_eq_mult)

lemma length_show_power: "length (show_base 2 (2 ^ k)) = Suc k"
proof (induction k)
  case 0
  then show ?case by (simp add: show_base.simps)
next
  case (Suc k)
  have "\<not> (2 :: nat) ^ Suc k < 2" by simp
  then have "show_base 2 (2 ^ Suc k) = show_base 2 (2 ^ k) @ [digit_char (2 ^ Suc k mod 2)]"
    by (subst show_base.simps) simp
  with Suc show ?case by simp
qed

lemma cover_step:
  assumes "0 \<le> s" and "s \<le> e" and "e < 2 ^ familyBits f"
  obtains j where "cover_loop f s e = \<lparr>c_family = f, c_net = s, c_prefix = familyBits f - j\<rparr> # cover_loop f (s + 2 ^ j) e"
    and "block_size (familyBits f) s e = 2 ^ j"
    and "j \<le> familyBits f" and "2 ^ j dvd s" and "s + 2 ^ j \<le> e + 1"
    and "\<And>i. i \<le> familyBits f \<Longrightarrow> 2 ^ i dvd s \<Longrightarrow> 2 ^ i \<le> e - s + 1 \<Longrightarrow> i \<le> j"
proof -
  obtain j where j: "block_size (familyBits f) s e = 2 ^ j" "j \<le> familyBits f"
    "2 ^ j dvd s" "2 ^ j \<le> e - s + 1" "\<And>i. i \<le> familyBits f \<Longrightarrow> 2 ^ i dvd s \<Longrightarrow> 2 ^ i \<le> e - s + 1 \<Longrightarrow> i \<le> j"
    by (rule block_size [OF assms], rule that) assumption+
  have "nat (2 ^ j) = 2 ^ j" by (simp add: nat_power_eq)
  then have "length (show_base 2 (nat (block_size (familyBits f) s e))) = Suc j"
    by (simp only: j(1) length_show_power)
  then have "cover_loop f s e = \<lparr>c_family = f, c_net = s, c_prefix = familyBits f - j\<rparr> # cover_loop f (s + 2 ^ j) e"
    using assms(2) j(1) by (subst cover_loop.simps) (simp add: Let_def)
  with j show ?thesis by (intro that [of j]) auto
qed

lemma cover_correct:
  assumes "0 \<le> s" and "e < 2 ^ familyBits f"
  shows "(\<forall>c\<in>set (cover_loop f s e). cidr_ok c \<and> c_family c = f) \<and> (\<Union>c\<in>set (cover_loop f s e). cpts c) = {s..e}"
  using assms
proof (induction f s e rule: cover_loop.induct)
  case (1 f s e)
  show ?case
  proof (cases "s \<le> e")
    case False
    then show ?thesis by (simp add: cover_loop.simps)
  next
    case True
    obtain j where j: "cover_loop f s e = \<lparr>c_family = f, c_net = s, c_prefix = familyBits f - j\<rparr> # cover_loop f (s + 2 ^ j) e"
      "block_size (familyBits f) s e = 2 ^ j" "j \<le> familyBits f" "2 ^ j dvd s" "s + 2 ^ j \<le> e + 1"
      using cover_step [OF "1.prems"(1) True "1.prems"(2)] by metis
    let ?c = "\<lparr>c_family = f, c_net = s, c_prefix = familyBits f - j\<rparr>"
    have IH: "(\<forall>c\<in>set (cover_loop f (s + 2 ^ j) e). cidr_ok c \<and> c_family c = f)
      \<and> (\<Union>c\<in>set (cover_loop f (s + 2 ^ j) e). cpts c) = {s + 2 ^ j..e}"
      using "1.IH" [OF True refl refl] "1.prems" j(2) by simp
    have "cidr_ok ?c" using True "1.prems" j by (simp add: cidr_ok_def)
    moreover have "cpts ?c = {s ..< s + 2 ^ j}" using j(3) by (simp add: cpts_eq)
    moreover have "{s ..< s + q} \<union> {s + q .. e} = {s .. e}" if "0 < q" "s + q \<le> e + 1" for q :: int
      using that by auto
    then have "{s ..< s + 2 ^ j} \<union> {s + 2 ^ j .. e} = {s .. e}" using j(5) by simp
    ultimately show ?thesis unfolding j(1) using IH by simp
  qed
qed

text \<open>Blocks of two sizes are nested or disjoint.\<close>

lemma block_nest:
  assumes "(2 :: int) ^ i dvd a" and "2 ^ j dvd b" and "i \<le> j"
    and "{a ..< a + 2 ^ i} \<inter> {b ..< b + 2 ^ j} \<noteq> {}"
  shows "{a ..< a + 2 ^ i} \<subseteq> {b ..< b + 2 ^ j}"
proof -
  obtain x where x: "a = 2 ^ i * x" using assms(1) by auto
  have "(2 :: int) ^ i dvd 2 ^ j" using assms(3) by (rule le_imp_power_dvd)
  then obtain z where z: "(2 :: int) ^ j = 2 ^ i * z" by auto
  then obtain y where y: "b = 2 ^ i * y" using assms(2) by (metis dvd_def mult.assoc)
  have p: "(0 :: int) < 2 ^ i" by simp
  from assms(4) have "a < b + 2 ^ j" "b < a + 2 ^ i" by auto
  then have "2 ^ i * x < 2 ^ i * (y + z)" "2 ^ i * y < 2 ^ i * (x + 1)"
    by (simp_all add: x y z algebra_simps)
  then have "x < y + z" "y < x + 1" using p by (simp_all only: mult_less_cancel_left_pos)
  then have "2 ^ i * y \<le> 2 ^ i * x" "2 ^ i * (x + 1) \<le> 2 ^ i * (y + z)"
    using p by (simp_all only: mult_le_cancel_left_pos)
  then have "b \<le> a" "a + 2 ^ i \<le> b + 2 ^ j" by (simp_all add: x y z algebra_simps)
  then show ?thesis by auto
qed

text \<open>No other family of blocks covers the interval with fewer of them.\<close>

lemma cover_minimal:
  assumes "0 \<le> s" and "e < 2 ^ familyBits f"
    and "finite C" and "\<And>c. c \<in> C \<Longrightarrow> cidr_ok c \<and> c_family c = f" and "(\<Union>c\<in>C. cpts c) = {s..e}"
  shows "length (cover_loop f s e) \<le> card C"
  using assms
proof (induction f s e arbitrary: C rule: cover_loop.induct)
  case (1 f s e)
  show ?case
  proof (cases "s \<le> e")
    case False
    then show ?thesis by (simp add: cover_loop.simps)
  next
    case True
    let ?B = "familyBits f"
    obtain j where j: "cover_loop f s e = \<lparr>c_family = f, c_net = s, c_prefix = ?B - j\<rparr> # cover_loop f (s + 2 ^ j) e"
      "block_size ?B s e = 2 ^ j" "j \<le> ?B" "2 ^ j dvd s" "s + 2 ^ j \<le> e + 1"
      and max: "\<And>i. i \<le> ?B \<Longrightarrow> 2 ^ i dvd s \<Longrightarrow> 2 ^ i \<le> e - s + 1 \<Longrightarrow> i \<le> j"
      by (rule cover_step [OF "1.prems"(1) True "1.prems"(2)], rule that) assumption+
    let ?G = "{s ..< s + 2 ^ j}"
    define C1 where "C1 = {c \<in> C. cpts c \<subseteq> ?G}"
    define C2 where "C2 = C - C1"
    have sub: "cpts c \<subseteq> {s..e}" if "c \<in> C" for c using "1.prems"(5) that by blast
    have disj: "cpts c \<inter> ?G = {}" if "c \<in> C2" for c
    proof (rule ccontr)
      assume meet: "cpts c \<inter> ?G \<noteq> {}"
      have c: "c \<in> C" "\<not> cpts c \<subseteq> ?G" using that by (auto simp: C1_def C2_def)
      let ?i = "?B - c_prefix c"
      have ok: "2 ^ ?i dvd c_net c" "cpts c = {c_net c ..< c_net c + 2 ^ ?i}"
        using "1.prems"(4) [OF c(1)] by (auto simp: cidr_ok_def cpts_eq)
      have "\<not> ?i \<le> j" using block_nest [OF ok(1) j(4)] meet c(2) ok(2) by auto
      then have "?G \<subseteq> cpts c" using block_nest [OF j(4) ok(1)] meet ok(2) by (auto simp: Int_commute)
      moreover have "s \<in> ?G" by simp
      ultimately have "c_net c \<le> s" using ok(2) by auto
      moreover have "c_net c \<in> cpts c" "c_net c + 2 ^ ?i - 1 \<in> cpts c" by (simp_all add: ok(2))
      ultimately have "c_net c = s" "c_net c + 2 ^ ?i - 1 \<le> e" using sub [OF c(1)] by (auto dest: subsetD)
      then have "c_net c = s" "2 ^ ?i \<le> e - s + 1" by simp_all
      then have "?i \<le> j" using ok(1) by (intro max) auto
      with \<open>\<not> ?i \<le> j\<close> show False by simp
    qed
    have "(\<Union>c\<in>C2. cpts c) = {s + 2 ^ j .. e}"
    proof (intro equalityI subsetI)
      fix x
      assume "x \<in> (\<Union>c\<in>C2. cpts c)"
      then obtain c where c: "c \<in> C2" "x \<in> cpts c" by auto
      then have "x \<in> {s..e}" "x \<notin> ?G" using sub [of c] disj [of c] by (auto simp: C2_def)
      then show "x \<in> {s + 2 ^ j .. e}" by auto
    next
      fix x
      assume "x \<in> {s + 2 ^ j .. e}"
      then have x: "s + 2 ^ j \<le> x" "x \<le> e" by auto
      have "(0 :: int) < 2 ^ j" by simp
      with x(1) have "s \<le> x" by linarith
      with x have "x \<in> {s..e}" "x \<notin> ?G" by auto
      then obtain c where c: "c \<in> C" "x \<in> cpts c" using "1.prems"(5) by (metis UN_E)
      with \<open>x \<notin> ?G\<close> have "c \<in> C2" by (auto simp: C1_def C2_def)
      with c show "x \<in> (\<Union>c\<in>C2. cpts c)" by blast
    qed
    moreover have "0 \<le> s + 2 ^ j" using "1.prems"(1) by simp
    ultimately have rest: "length (cover_loop f (s + 2 ^ j) e) \<le> card C2"
      using "1.IH" [OF True refl refl, of C2] "1.prems" j(2) by (simp add: C2_def)
    have "s \<in> {s..e}" using True by simp
    then obtain c where c: "c \<in> C" "s \<in> cpts c" using "1.prems"(5) by blast
    have "s \<in> ?G" by simp
    have "c \<in> C1"
    proof (rule ccontr)
      assume "c \<notin> C1"
      with c(1) have "c \<in> C2" by (simp add: C2_def)
      from disj [OF this] c(2) \<open>s \<in> ?G\<close> show False by blast
    qed
    then have "C1 \<noteq> {}" "finite C1" using "1.prems"(3) by (auto simp: C1_def)
    then have "1 \<le> card C1" by (simp add: Suc_le_eq card_gt_0_iff)
    moreover have "card C = card C1 + card C2"
      using \<open>finite C1\<close> card_mono [OF "1.prems"(3), of C1]
      unfolding C2_def by (subst card_Diff_subset) (auto simp: C1_def)
    ultimately show ?thesis unfolding j(1) using rest by simp
  qed
qed

section \<open>Merging\<close>

text \<open>Disjoint, in order, and with a gap of at least one address between neighbours.\<close>

definition nonempty :: "interval \<Rightarrow> bool" where
  "nonempty iv \<longleftrightarrow> i_start iv \<le> i_end iv"

definition merged :: "interval list \<Rightarrow> bool" where
  "merged ivs \<longleftrightarrow> sorted_wrt (\<lambda>a b. i_end a + 1 < i_start b) ivs \<and> list_all nonempty ivs"

lemma merged_simps [simp]:
  "merged []"
  "merged (iv # ivs) \<longleftrightarrow> nonempty iv \<and> (\<forall>x\<in>set ivs. i_end iv + 1 < i_start x) \<and> merged ivs"
  "merged (xs @ ys) \<longleftrightarrow> merged xs \<and> merged ys \<and> (\<forall>x\<in>set xs. \<forall>y\<in>set ys. i_end x + 1 < i_start y)"
  by (auto simp: merged_def sorted_wrt_append)

lemma merge_fold:
  assumes "sorted (map i_start ivs)" and "list_all nonempty ivs" and "merged out"
    and "out \<noteq> [] \<Longrightarrow> \<forall>iv\<in>set ivs. i_start (last out) \<le> i_start iv"
  shows "merged (foldl merge_step out ivs) \<and> area (foldl merge_step out ivs) = area out \<union> area ivs"
  using assms
proof (induction ivs arbitrary: out)
  case (Cons iv ivs)
  have iv: "nonempty iv" using Cons.prems by simp
  show ?case
  proof (cases out rule: rev_cases)
    case Nil
    with Cons iv show ?thesis by (simp add: merge_step_def)
  next
    case (snoc xs l)
    have l: "i_start l \<le> i_start iv" "nonempty l" "merged xs" "\<forall>x\<in>set xs. i_end x + 1 < i_start l"
      using Cons.prems snoc by simp_all
    consider "i_end l + 1 < i_start iv" | "i_start iv \<le> i_end l + 1" "i_end l < i_end iv"
      | "i_start iv \<le> i_end l + 1" "i_end iv \<le> i_end l" by linarith
    then show ?thesis
    proof cases
      case 1
      have "i_end x + 1 < i_start iv" if "x \<in> set xs" for x using l that 1 by (fastforce simp: nonempty_def)
      moreover have "merge_step out iv = out @ [iv]" using 1 snoc by (simp add: merge_step_def)
      ultimately show ?thesis using Cons.IH [of "out @ [iv]"] Cons.prems iv snoc l 1 by auto
    next
      case 2
      then have "pts (interval (i_start l) (i_end iv)) = pts l \<union> pts iv"
        using l(1,2) iv by (auto simp: pts_def nonempty_def)
      moreover have "merge_step out iv = xs @ [interval (i_start l) (i_end iv)]"
        using 2 snoc by (simp add: merge_step_def)
      ultimately show ?thesis
        using Cons.IH [of "xs @ [interval (i_start l) (i_end iv)]"] Cons.prems iv snoc l 2
        by (auto simp: nonempty_def)
    next
      case 3
      then have "pts l \<union> pts iv = pts l" using l(1) by (auto simp: pts_def)
      moreover have "merge_step out iv = out" using 3 snoc by (simp add: merge_step_def)
      ultimately show ?thesis using Cons.IH [of out] Cons.prems snoc l by auto
    qed
  qed
qed simp

lemma area_sort [simp]: "area (sort_key k ivs) = area ivs"
  by (simp add: area_def)

lemma mergeIntervals_correct:
  assumes "list_all nonempty ivs"
  shows "merged (mergeIntervals ivs)" and "area (mergeIntervals ivs) = area ivs"
proof -
  have "sorted (map i_start (sort_key i_start ivs))" by simp
  moreover have "list_all nonempty (sort_key i_start ivs)" using assms by (simp add: list_all_iff)
  ultimately show "merged (mergeIntervals ivs)" "area (mergeIntervals ivs) = area ivs"
    using merge_fold [of "sort_key i_start ivs" "[]"] by (simp_all add: mergeIntervals_def)
qed

section \<open>Subtracting\<close>

lemma cut_loop_correct:
  assumes "merged cs" and "merged out" and "\<forall>x\<in>set out. i_end x + 1 < cursor" and "cursor \<le> i_end iv"
    and "cut_loop iv cs out cursor = (out', cursor')"
  shows "merged out' \<and> (\<forall>x\<in>set out'. i_end x + 1 < cursor') \<and> (\<forall>x\<in>set out'. x \<in> set out \<or> i_end x \<le> i_end iv)
    \<and> area out' \<union> {cursor'..i_end iv} = area out \<union> ({cursor..i_end iv} - area cs)"
  using assms
proof (induction cs arbitrary: out cursor)
  case (Cons c cs)
  have c: "i_start c \<le> i_end c" "\<forall>x\<in>set cs. i_end c + 1 < i_start x" "merged cs"
    using Cons.prems(1) by (simp_all add: nonempty_def)
  show ?case
  proof (cases "i_end c < cursor \<or> i_end iv < i_start c")
    case True
    then have "{cursor..i_end iv} - area (c # cs) = {cursor..i_end iv} - area cs"
      by (auto simp: pts_def)
    with Cons True c show ?thesis by simp
  next
    case False
    let ?out = "if cursor < i_start c then out @ [interval cursor (i_start c - 1)] else out"
    have beyond: "{cursor..i_start c - 1} \<inter> area cs = {}" using c by (fastforce simp: area_def pts_def)
    have split: "area ?out \<union> ({i_end c + 1..i_end iv} - area cs) = area out \<union> ({cursor..i_end iv} - area (c # cs))"
    proof -
      have "{cursor..i_end iv} - area (c # cs) = {cursor..i_start c - 1} \<union> ({i_end c + 1..i_end iv} - area cs)"
        using False beyond c(1) by (auto simp: pts_def)
      moreover have "area ?out = area out \<union> {cursor..i_start c - 1}" by (auto simp: pts_def)
      ultimately show ?thesis by auto
    qed
    have out: "merged ?out" "\<forall>x\<in>set ?out. i_end x + 1 < i_end c + 1" "\<forall>x\<in>set ?out. x \<in> set out \<or> i_end x \<le> i_end iv"
      using Cons.prems(2,3,4) False c(1) by (auto simp: nonempty_def)
    show ?thesis
    proof (cases "i_end iv < i_end c + 1")
      case True
      then have "{i_end c + 1..i_end iv} = {}" by simp
      with True False Cons.prems(5) out split show ?thesis by (simp only: cut_loop.simps Let_def) auto
    next
      case inner: False
      then have "cut_loop iv cs ?out (i_end c + 1) = (out', cursor')" using Cons.prems(5) False by (simp add: Let_def)
      from Cons.IH [OF c(3) out(1,2) _ this] inner out(3) split show ?thesis by auto
    qed
  qed
qed simp

lemma subtract_fold:
  assumes "merged b" and "merged a" and "merged out"
    and "\<forall>x\<in>set out. \<forall>iv\<in>set a. i_end x + 1 < i_start iv"
  shows "merged (foldl (subtract_step b) out a)
    \<and> area (foldl (subtract_step b) out a) = area out \<union> (area a - area b)"
  using assms(2-)
proof (induction a arbitrary: out)
  case (Cons iv a)
  obtain out' cursor where cut: "cut_loop iv b out (i_start iv) = (out', cursor)"
    by (cases "cut_loop iv b out (i_start iv)")
  have iv: "i_start iv \<le> i_end iv" "\<forall>x\<in>set out. i_end x + 1 < i_start iv" "merged a"
    "\<forall>x\<in>set a. i_end iv + 1 < i_start x"
    using Cons.prems by (simp_all add: nonempty_def)
  note c = cut_loop_correct [OF assms(1) Cons.prems(2) iv(2,1) cut]
  let ?out = "if cursor \<le> i_end iv then out' @ [interval cursor (i_end iv)] else out'"
  have "merged ?out" using c by (auto simp: nonempty_def)
  moreover have "i_end x + 1 < i_start y" if "x \<in> set ?out" "y \<in> set a" for x y
    using that c iv(4) Cons.prems(3) by (fastforce split: if_splits)
  moreover have "area ?out = area out' \<union> {cursor..i_end iv}" by (auto simp: pts_def)
  then have "area ?out = area out \<union> (pts iv - area b)" using c by (simp add: pts_def)
  moreover have "subtract_step b out iv = ?out" by (simp add: subtract_step_def cut)
  ultimately show ?case using Cons.IH [OF iv(3), of ?out] by auto
qed simp

lemma subtractIntervals_correct:
  assumes "merged a" and "merged b"
  shows "merged (subtractIntervals a b)" and "area (subtractIntervals a b) = area a - area b"
  using subtract_fold [OF assms(2,1), of "[]"] by (simp_all add: subtractIntervals_def)

section \<open>Covering a list of intervals\<close>

definition cover :: "interval list \<Rightarrow> family \<Rightarrow> cidr list" where
  "cover ivs f = concat (map (\<lambda>iv. intervalToCidrs iv f) ivs)"

lemma valid_area:
  assumes "merged ivs" and "area ivs \<subseteq> {0 ..< 2 ^ familyBits f}" and "iv \<in> set ivs"
  shows "valid_interval f iv"
proof -
  have n: "i_start iv \<le> i_end iv" using assms(1,3) by (auto simp: merged_def list_all_iff nonempty_def)
  then have "i_start iv \<in> area ivs" "i_end iv \<in> area ivs" using assms(3) by (auto simp: area_def pts_def)
  with assms(2) n show ?thesis by (auto simp: valid_interval_def)
qed

lemma cover_list_correct:
  assumes "merged ivs" and "area ivs \<subseteq> {0 ..< 2 ^ familyBits f}"
  shows "\<forall>c\<in>set (cover ivs f). cidr_ok c \<and> c_family c = f"
    and "(\<Union>c\<in>set (cover ivs f). cpts c) = area ivs"
proof -
  have one: "(\<forall>c\<in>set (intervalToCidrs iv f). cidr_ok c \<and> c_family c = f)
      \<and> (\<Union>c\<in>set (intervalToCidrs iv f). cpts c) = pts iv" if "iv \<in> set ivs" for iv
    using valid_area [OF assms that] cover_correct [of "i_start iv" "i_end iv" f]
    by (simp add: valid_interval_def intervalToCidrs_def pts_def)
  then show "\<forall>c\<in>set (cover ivs f). cidr_ok c \<and> c_family c = f" by (simp add: cover_def)
  show "(\<Union>c\<in>set (cover ivs f). cpts c) = area ivs" using one by (simp add: cover_def area_def)
qed

text \<open>A run of consecutive addresses inside disjoint intervals with gaps lies in one of them.\<close>

lemma run_in_one:
  assumes "merged ivs" and "a \<le> b" and "{a..b} \<subseteq> area ivs"
  shows "\<exists>iv\<in>set ivs. {a..b} \<subseteq> pts iv"
  using assms
proof (induction ivs)
  case (Cons iv ivs)
  have n: "i_start iv \<le> i_end iv" "merged ivs" and gap: "\<forall>x\<in>set ivs. i_end iv + 1 < i_start x"
    using Cons.prems(1) by (simp_all add: nonempty_def)
  have out: "i_end iv + 1 \<notin> area (iv # ivs)" using gap by (auto simp: area_def pts_def)
  have high: "i_end iv + 1 < x" if "x \<in> area ivs" for x using gap that by (auto simp: area_def pts_def)
  have "a \<in> area (iv # ivs)" "b \<in> area (iv # ivs)" using Cons.prems(2,3) by auto
  then consider "a \<in> pts iv" "b \<in> pts iv" | "a \<in> pts iv" "i_end iv + 1 < b" | "a \<in> area ivs"
    using high by (auto simp: pts_def)
  then show ?case
  proof cases
    case 1
    then have "{a..b} \<subseteq> pts iv" by (auto simp: pts_def)
    then show ?thesis by simp
  next
    case 2
    then have "i_end iv + 1 \<in> {a..b}" by (auto simp: pts_def)
    with Cons.prems(3) out show ?thesis by blast
  next
    case 3
    then have "i_end iv + 1 < a" by (rule high)
    then have "{a..b} \<subseteq> area ivs" using Cons.prems(3) by (fastforce simp: pts_def)
    from Cons.IH [OF n(2) Cons.prems(2) this] show ?thesis by auto
  qed
qed simp

lemma merged_disjoint:
  "merged (iv # ivs) \<Longrightarrow> pts iv \<inter> area ivs = {}"
  by (fastforce simp: area_def pts_def nonempty_def)

text \<open>The cover of a merged list is the smallest there is.\<close>

lemma cover_list_minimal:
  assumes "merged ivs" and "area ivs \<subseteq> {0 ..< 2 ^ familyBits f}"
    and "finite C" and "\<And>c. c \<in> C \<Longrightarrow> cidr_ok c \<and> c_family c = f" and "(\<Union>c\<in>C. cpts c) = area ivs"
  shows "length (cover ivs f) \<le> card C"
  using assms
proof (induction ivs arbitrary: C)
  case (Cons iv ivs)
  define C1 where "C1 = {c \<in> C. cpts c \<subseteq> pts iv}"
  have v: "valid_interval f iv" by (rule valid_area [OF Cons.prems(1,2)]) simp
  have one: "cpts c \<subseteq> pts iv \<or> cpts c \<subseteq> area ivs" if "c \<in> C" for c
  proof -
    let ?b = "c_net c + 2 ^ (familyBits (c_family c) - c_prefix c) - 1"
    have "(0 :: int) < 2 ^ (familyBits (c_family c) - c_prefix c)" by simp
    then have e: "cpts c = {c_net c..?b}" "c_net c \<le> ?b" by (auto simp: cpts_eq)
    have "cpts c \<subseteq> area (iv # ivs)" using Cons.prems(5) that by blast
    with run_in_one [OF Cons.prems(1) e(2)] e(1) obtain x where "x \<in> set (iv # ivs)" "cpts c \<subseteq> pts x" by auto
    then show "cpts c \<subseteq> pts iv \<or> cpts c \<subseteq> area ivs" by (auto simp: area_def)
  qed
  have dis: "pts iv \<inter> area ivs = {}" by (rule merged_disjoint [OF Cons.prems(1)])
  have mem: "\<exists>c\<in>C. x \<in> cpts c" if "x \<in> area (iv # ivs)" for x using Cons.prems(5) that by blast
  have "(\<Union>c\<in>C1. cpts c) = pts iv"
  proof (intro equalityI subsetI)
    fix x
    assume x: "x \<in> pts iv"
    with mem obtain c where c: "c \<in> C" "x \<in> cpts c" by auto
    with one [OF c(1)] dis x have "c \<in> C1" by (auto simp: C1_def)
    with c show "x \<in> (\<Union>c\<in>C1. cpts c)" by blast
  qed (auto simp: C1_def)
  moreover have "(\<Union>c\<in>C - C1. cpts c) = area ivs"
  proof (intro equalityI subsetI)
    fix x
    assume "x \<in> (\<Union>c\<in>C - C1. cpts c)"
    then obtain c where c: "c \<in> C" "c \<notin> C1" "x \<in> cpts c" by blast
    with one [OF c(1)] show "x \<in> area ivs" by (auto simp: C1_def)
  next
    fix x
    assume x: "x \<in> area ivs"
    with mem obtain c where c: "c \<in> C" "x \<in> cpts c" by auto
    with dis x have "c \<notin> C1" by (auto simp: C1_def)
    with c show "x \<in> (\<Union>c\<in>C - C1. cpts c)" by blast
  qed
  ultimately have "length (intervalToCidrs iv f) \<le> card C1" "length (cover ivs f) \<le> card (C - C1)"
    using cover_minimal [of "i_start iv" "i_end iv" f C1] Cons.IH [of "C - C1"] Cons.prems v
    by (auto simp: intervalToCidrs_def pts_def valid_interval_def C1_def)
  moreover have "card C = card C1 + card (C - C1)"
    using Cons.prems(3) card_mono [of C C1] by (subst card_Diff_subset) (auto simp: C1_def)
  ultimately show ?case by (simp add: cover_def)
qed (simp add: cover_def)

end
