(* ===== verification/IpText.thy ===== *)
theory IpText
  imports Intervals
begin

text \<open>
  Addresses and prefixes as text (the first part of clients/core-ts/src/split.ts): strict
  dotted quads, RFC 4291 parsing and RFC 5952 printing of IPv6, CIDR notation. Every parse
  is canonical and in range, and parsing what was printed gives it back.
\<close>

section \<open>Parsing\<close>

definition decimal_field :: "string \<Rightarrow> bool" where
  "decimal_field s \<longleftrightarrow> 1 \<le> length s \<and> length s \<le> 3 \<and> list_all is_digit s"

fun parse_octets :: "string list \<Rightarrow> int \<Rightarrow> int option" where
  "parse_octets [] out = Some out"
| "parse_octets (part # parts) out =
     (if \<not> decimal_field part \<or> (1 < length part \<and> starts_with ''0'' part) then None
      else
        (let octet = int (read_nat part)
         in if 255 < octet then None else parse_octets parts (push_bit 8 out OR octet)))"

definition parseIpv4 :: "string \<Rightarrow> int option" where
  "parseIpv4 s =
     (let parts = split_on CHR ''.'' s in if length parts \<noteq> 4 then None else parse_octets parts 0)"

text \<open>\<open>s.split('::')\<close>.\<close>

fun split_dcolon :: "string \<Rightarrow> string list" where
  "split_dcolon [] = [[]]"
| "split_dcolon [c] = [[c]]"
| "split_dcolon (c # d # s) =
     (if c = CHR '':'' \<and> d = CHR '':'' then [] # split_dcolon s
      else (case split_dcolon (d # s) of [] \<Rightarrow> [[c]] | w # ws \<Rightarrow> (c # w) # ws))"

definition hex_group :: "string \<Rightarrow> bool" where
  "hex_group g \<longleftrightarrow> 1 \<le> length g \<and> length g \<le> 4 \<and> list_all is_hex_digit g"

fun parse_groups :: "string list \<Rightarrow> int list option" where
  "parse_groups [] = Some []"
| "parse_groups (g # gs) =
     (if hex_group g then map_option (\<lambda>r. int (read_base 16 g) # r) (parse_groups gs)
      else if CHR ''.'' \<in> set g \<and> gs = [] then
        (case parseIpv4 g of None \<Rightarrow> None | Some v4 \<Rightarrow> Some [drop_bit 16 v4, v4 AND 0xffff])
      else None)"

definition parseGroups :: "string \<Rightarrow> int list option" where
  "parseGroups part = (if part = [] then Some [] else parse_groups (split_on CHR '':'' part))"

definition parseIpv6 :: "string \<Rightarrow> int option" where
  "parseIpv6 s =
     (if CHR '':'' \<notin> set s then None
      else
        (let halves = split_dcolon s
         in if 2 < length halves then None
            else (case (parseGroups (halves ! 0), if length halves = 2 then parseGroups (halves ! 1) else Some []) of
                    (Some hd6, Some tl6) \<Rightarrow>
                      (let groupCount = length hd6 + length tl6
                       in if (if length halves = 2 then 7 < groupCount else groupCount \<noteq> 8) then None
                          else Some (foldl (\<lambda>acc g. push_bit 16 acc OR g) 0
                                 (hd6 @ replicate (8 - groupCount) 0 @ tl6)))
                  | _ \<Rightarrow> None)))"

definition parse_addr :: "string \<Rightarrow> (family \<times> int) option" where
  "parse_addr s =
     (case parseIpv4 s of
        Some v \<Rightarrow> Some (V4, v)
      | None \<Rightarrow> map_option (\<lambda>v. (V6, v)) (parseIpv6 s))"

definition parseCidr :: "string \<Rightarrow> cidr option" where
  "parseCidr value =
     (let trimmed = trim value;
          addrPart = before CHR ''/'' trimmed;
          prefixPart = (if CHR ''/'' \<in> set trimmed then Some (after CHR ''/'' trimmed) else None)
      in case parse_addr addrPart of
           None \<Rightarrow> None
         | Some (f, addr) \<Rightarrow>
             (let bits = familyBits f
              in case (case prefixPart of
                         None \<Rightarrow> Some bits
                       | Some p \<Rightarrow> if \<not> decimal_field p \<or> bits < read_nat p then None else Some (read_nat p)) of
                   None \<Rightarrow> None
                 | Some prefix \<Rightarrow>
                     (let hostBits = bits - prefix
                      in Some \<lparr>c_family = f, c_net = push_bit hostBits (drop_bit hostBits addr),
                               c_prefix = prefix\<rparr>)))"

section \<open>Printing\<close>

definition formatIpv4 :: "int \<Rightarrow> string" where
  "formatIpv4 v = join ''.'' (map show_int
     [drop_bit 24 v AND 0xff, drop_bit 16 v AND 0xff, drop_bit 8 v AND 0xff, v AND 0xff])"

text \<open>The longest run of zero groups of length at least two, the leftmost on a tie.\<close>

function best_run :: "nat \<Rightarrow> int list \<Rightarrow> nat option \<Rightarrow> nat \<Rightarrow> nat option \<times> nat" where
  "best_run i [] bestStart bestLen = (bestStart, bestLen)"
| "best_run i (g # gs) bestStart bestLen =
     (if g \<noteq> 0 then best_run (i + 1) gs bestStart bestLen
      else
        (let n = length (takeWhile (\<lambda>x. x = 0) (g # gs))
         in if bestLen < n then best_run (i + n) (drop n (g # gs)) (Some i) n
            else best_run (i + n) (drop n (g # gs)) bestStart bestLen))"
  by pat_completeness auto
termination
  by (relation "measure (\<lambda>(i, gs, s, l). length gs)") auto

definition ipv6_groups :: "int \<Rightarrow> int list" where
  "ipv6_groups v = map (\<lambda>i. drop_bit (i * 16) v AND 0xffff) (rev [0..<8])"

definition formatIpv6 :: "int \<Rightarrow> string" where
  "formatIpv6 v =
     (let groups = ipv6_groups v;
          hex = map (\<lambda>g. show_base 16 (nat g)) groups
      in case best_run 0 groups None 1 of
           (None, _) \<Rightarrow> join '':'' hex
         | (Some bestStart, bestLen) \<Rightarrow>
             join '':'' (take bestStart hex) @ ''::'' @ join '':'' (drop (bestStart + bestLen) hex))"

definition formatCidr :: "cidr \<Rightarrow> string" where
  "formatCidr c =
     (if c_family c = V4 then formatIpv4 (c_net c) else formatIpv6 (c_net c))
       @ CHR ''/'' # show_nat (c_prefix c)"

section \<open>Digits of a fixed width\<close>

text \<open>The base \<open>2 ^ w\<close> digits of a number, most significant first, and reading them back.\<close>

definition be_digits :: "nat \<Rightarrow> nat \<Rightarrow> int \<Rightarrow> int list" where
  "be_digits w n v = map (\<lambda>i. take_bit w (drop_bit (i * w) v)) (rev [0..<n])"

lemma push_or_add:
  assumes "0 \<le> y" and "(y :: int) < 2 ^ n"
  shows "push_bit n x OR y = x * 2 ^ n + y"
proof -
  have "take_bit n y = y" using assms by (simp add: take_bit_int_eq_self)
  then have "push_bit n x AND y = 0"
    by (intro bit_eqI) (metis bit_0_eq bit_and_iff bit_push_bit_iff bit_take_bit_iff bot_apply bot_bool_def not_le)
  then show ?thesis by (simp add: disjunctive_add_eq_or [symmetric] push_bit_eq_mult)
qed

lemma be_digits_horner:
  "foldl (\<lambda>acc g. push_bit w acc OR g) acc (be_digits w n v) = push_bit (w * n) acc OR take_bit (w * n) v"
proof (induction n arbitrary: acc)
  case 0
  then show ?case by (simp add: be_digits_def)
next
  case (Suc n)
  have "be_digits w (Suc n) v = take_bit w (drop_bit (n * w) v) # be_digits w n v"
    by (simp add: be_digits_def)
  then show ?case
    unfolding Suc.IH [symmetric]
    by (simp add: Suc.IH) (intro bit_eqI, auto simp: bit_simps algebra_simps)
qed

lemma be_digits_bounds: "d \<in> set (be_digits w n v) \<Longrightarrow> 0 \<le> d \<and> d < 2 ^ w"
  by (auto simp: be_digits_def)

lemma horner_bound:
  assumes "0 \<le> (acc :: int)" and "acc < 2 ^ (w * k)" and "\<forall>g\<in>set gs. 0 \<le> g \<and> g < 2 ^ w"
  shows "0 \<le> foldl (\<lambda>acc g. push_bit w acc OR g) acc gs
    \<and> foldl (\<lambda>acc g. push_bit w acc OR g) acc gs < 2 ^ (w * (k + length gs))"
  using assms
proof (induction gs arbitrary: acc k)
  case (Cons g gs)
  have g: "0 \<le> g" "g < 2 ^ w" using Cons.prems(3) by simp_all
  have "acc + 1 \<le> 2 ^ (w * k)" using Cons.prems(2) by simp
  then have "(acc + 1) * 2 ^ w \<le> 2 ^ (w * k) * 2 ^ w" by (intro mult_right_mono) auto
  then have "acc * 2 ^ w + g < 2 ^ (w * (k + 1))" using g by (simp add: power_add algebra_simps)
  moreover have "0 \<le> acc * 2 ^ w + g" using Cons.prems(1) g by simp
  ultimately show ?case
    using Cons.IH [of "acc * 2 ^ w + g" "k + 1"] Cons.prems(3) push_or_add [OF g, of acc] by simp
qed simp

section \<open>IPv4\<close>

lemma show_nat_length_3: "n < 1000 \<Longrightarrow> length (show_nat n) \<le> 3"
  by (rule show_base_length) auto

lemma decimal_field_show: "n < 1000 \<Longrightarrow> decimal_field (show_nat n)"
  by (simp add: decimal_field_def show_nat_length_3 list_all_iff show_nat_is_digit Suc_le_eq)

lemma no_leading_zero: "\<not> (1 < length (show_nat n) \<and> starts_with ''0'' (show_nat n))"
proof (rule notI, elim conjE)
  assume len: "1 < length (show_nat n)" and z: "starts_with ''0'' (show_nat n)"
  have "hd (show_nat n) = CHR ''0''" using z len by (cases "show_nat n") (auto simp: starts_with_def)
  then have "n = 0" using hd_show_base [of 10 n] by simp
  with len show False by (simp add: show_base.simps)
qed

lemma parse_octets_show:
  assumes "\<forall>d\<in>set ds. 0 \<le> d \<and> d < 256"
  shows "parse_octets (map show_int ds) acc = Some (foldl (\<lambda>acc g. push_bit 8 acc OR g) acc ds)"
  using assms
proof (induction ds arbitrary: acc)
  case (Cons d ds)
  then have d: "0 \<le> d" "d < 256" by auto
  then have s: "show_int d = show_nat (nat d)" by (simp add: show_int_def)
  have "int (read_nat (show_nat (nat d))) = d" using d by (simp add: read_show_base)
  moreover have "decimal_field (show_nat (nat d))" using d by (intro decimal_field_show) simp
  ultimately show ?case using Cons d no_leading_zero [of "nat d"] by (simp add: s)
qed simp

lemma ipv4_digits:
  "[drop_bit 24 v AND 0xff, drop_bit 16 v AND 0xff, drop_bit 8 v AND 0xff, v AND 0xff] = be_digits 8 4 v"
proof -
  have "x AND 0xff = take_bit 8 x" for x :: int by (simp add: take_bit_eq_mask mask_eq_exp_minus_1)
  then show ?thesis by (simp add: be_digits_def numeral_eq_Suc)
qed

lemma formatIpv4_digits: "formatIpv4 v = join ''.'' (map show_int (be_digits 8 4 v))"
  by (simp add: formatIpv4_def ipv4_digits)

lemma show_int_no_dot: "c \<notin> {CHR ''-''} \<Longrightarrow> \<not> is_digit c \<Longrightarrow> c \<notin> set (show_int i)"
  by (rule show_int_no_sep) auto

lemma parse_format_ipv4:
  assumes "0 \<le> v" and "v < 2 ^ 32"
  shows "parseIpv4 (formatIpv4 v) = Some v"
proof -
  have "split_on CHR ''.'' (formatIpv4 v) = map show_int (be_digits 8 4 v)"
    unfolding formatIpv4_digits
    by (rule split_on_join) (auto simp: be_digits_def is_digit_def dest!: show_int_no_dot [THEN notE, rotated 2])
  moreover have "foldl (\<lambda>acc g. push_bit 8 acc OR g) 0 (be_digits 8 4 v) = v"
    using assms by (simp add: be_digits_horner take_bit_int_eq_self)
  ultimately show ?thesis
    using parse_octets_show [of "be_digits 8 4 v" 0] be_digits_bounds [of _ 8 4 v]
    by (simp add: parseIpv4_def Let_def) (simp add: be_digits_def)
qed

lemma parse_octets_bound:
  "parse_octets ps acc = Some v \<Longrightarrow> 0 \<le> acc \<Longrightarrow> acc < 2 ^ (8 * k) \<Longrightarrow> 0 \<le> v \<and> v < 2 ^ (8 * (k + length ps))"
proof (induction ps acc arbitrary: k rule: parse_octets.induct)
  case (2 p ps acc)
  let ?o = "int (read_nat p)"
  have o: "?o < 2 ^ 8" "parse_octets ps (push_bit 8 acc OR ?o) = Some v"
    "decimal_field p" "\<not> (1 < length p \<and> starts_with ''0'' p)"
    using "2.prems"(1) by (auto split: if_splits simp: Let_def)
  have "0 \<le> push_bit 8 acc OR ?o \<and> push_bit 8 acc OR ?o < 2 ^ (8 * (k + 1))"
    using horner_bound [of acc 8 k "[?o]"] o(1) "2.prems"(2,3) by simp
  then show ?case using "2.IH" [of ?o "k + 1"] o by (simp add: not_less)
qed simp

lemma parseIpv4_bound: "parseIpv4 s = Some v \<Longrightarrow> 0 \<le> v \<and> v < 2 ^ 32"
  using parse_octets_bound [of "split_on CHR ''.'' s" 0 v 0]
  by (auto simp: parseIpv4_def Let_def split: if_splits)

section \<open>IPv6\<close>

lemma ipv6_groups_digits: "ipv6_groups v = be_digits 16 8 v"
proof -
  have "x AND 0xffff = take_bit 16 x" for x :: int by (simp add: take_bit_eq_mask mask_eq_exp_minus_1)
  then show ?thesis by (simp add: be_digits_def ipv6_groups_def)
qed

text \<open>Splitting at \<open>::\<close>.\<close>

definition glue :: "string \<Rightarrow> string list \<Rightarrow> string list" where
  "glue w ws = (w @ hd ws) # tl ws"

lemma split_dcolon_not_Nil [simp]: "split_dcolon s \<noteq> []"
  by (induction s rule: split_dcolon.induct) (auto split: list.splits)

lemma split_dcolon_cons: "c \<noteq> CHR '':'' \<Longrightarrow> split_dcolon (c # s) = glue [c] (split_dcolon s)"
  by (cases s) (auto simp: glue_def split: list.splits)

lemma split_dcolon_word: "CHR '':'' \<notin> set w \<Longrightarrow> split_dcolon (w @ s) = glue w (split_dcolon s)"
proof (induction w)
  case Nil
  then show ?case by (cases "split_dcolon s") (auto simp: glue_def)
next
  case (Cons c w)
  then have "c \<noteq> CHR '':''" by auto
  with Cons show ?case using split_dcolon_cons [of c "w @ s"] by (simp add: glue_def)
qed

lemma split_dcolon_colon: "c \<noteq> CHR '':'' \<Longrightarrow> split_dcolon (CHR '':'' # c # s) = glue '':'' (split_dcolon (c # s))"
  by (auto simp: glue_def split: list.splits)

definition words_ok :: "string list \<Rightarrow> bool" where
  "words_ok ws \<longleftrightarrow> (\<forall>w\<in>set ws. w \<noteq> [] \<and> CHR '':'' \<notin> set w)"

lemma split_dcolon_join:
  "words_ok ws \<Longrightarrow> split_dcolon (join '':'' ws @ s) = glue (join '':'' ws) (split_dcolon s)"
proof (induction "'':''" ws rule: join.induct)
  case 1
  then show ?case by (cases "split_dcolon s") (auto simp: glue_def)
next
  case (2 w)
  then show ?case by (simp add: words_ok_def split_dcolon_word)
next
  case (3 w w' ws)
  have ok: "words_ok (w' # ws)" "CHR '':'' \<notin> set w" "w' \<noteq> []" "CHR '':'' \<notin> set w'"
    using 3 by (auto simp: words_ok_def)
  then obtain c r where j: "join '':'' (w' # ws) = c # r" "c \<noteq> CHR '':''"
    by (cases w'; cases ws) auto
  have "split_dcolon (CHR '':'' # join '':'' (w' # ws) @ s) = glue '':'' (split_dcolon (join '':'' (w' # ws) @ s))"
    using j by (simp add: split_dcolon_colon del: split_dcolon.simps)
  with 3 ok show ?case by (simp add: split_dcolon_word) (simp add: glue_def)
qed

lemma split_dcolon_join_all: "words_ok ws \<Longrightarrow> split_dcolon (join '':'' ws) = [join '':'' ws]"
  using split_dcolon_join [of ws "[]"] by (simp add: glue_def)

lemma split_dcolon_two:
  "words_ok ws \<Longrightarrow> words_ok us \<Longrightarrow>
     split_dcolon (join '':'' ws @ ''::'' @ join '':'' us) = [join '':'' ws, join '':'' us]"
  using split_dcolon_join [of ws "''::'' @ join '':'' us"] by (simp add: glue_def split_dcolon_join_all)

text \<open>Groups print and read back.\<close>

abbreviation hex_str :: "int \<Rightarrow> string" where
  "hex_str g \<equiv> show_base 16 (nat g)"

lemma hex_str_ok:
  assumes "0 \<le> g" and "g < 2 ^ 16"
  shows "hex_group (hex_str g)" and "int (read_base 16 (hex_str g)) = g"
    and "CHR '':'' \<notin> set (hex_str g)" and "hex_str g \<noteq> []"
proof -
  have "length (hex_str g) \<le> 4" using assms by (intro show_base_length) auto
  then show "hex_group (hex_str g)" by (simp add: hex_group_def list_all_iff show_hex_is_hex Suc_le_eq)
  show "int (read_base 16 (hex_str g)) = g" using assms by (simp add: read_show_base)
  have "\<not> is_hex_digit CHR '':''" by (simp add: is_hex_digit_def is_digit_def)
  then show "CHR '':'' \<notin> set (hex_str g)" using show_hex_is_hex by blast
qed simp

lemma parse_groups_hex:
  "\<forall>g\<in>set gs. 0 \<le> g \<and> g < 2 ^ 16 \<Longrightarrow> parse_groups (map hex_str gs) = Some gs"
proof (induction gs)
  case (Cons g gs)
  then show ?case using hex_str_ok [of g] by simp
qed simp

lemma words_ok_hex: "\<forall>g\<in>set gs. 0 \<le> g \<and> g < 2 ^ 16 \<Longrightarrow> words_ok (map hex_str gs)"
  using hex_str_ok(3) by (auto simp: words_ok_def)

lemma parseGroups_hex:
  assumes "\<forall>g\<in>set gs. 0 \<le> g \<and> g < 2 ^ 16"
  shows "parseGroups (join '':'' (map hex_str gs)) = Some gs"
proof (cases "gs = []")
  case False
  have "join '':'' (map hex_str gs) \<noteq> []" using False by (intro join_eq_Nil) (auto simp: hd_map)
  moreover have "split_on CHR '':'' (join '':'' (map hex_str gs)) = map hex_str gs"
    using False hex_str_ok(3) assms by (intro split_on_join) auto
  ultimately show ?thesis using parse_groups_hex [OF assms] by (simp add: parseGroups_def)
qed (simp add: parseGroups_def)

text \<open>The run that is compressed consists of zeros, at least two of them, and none is longer.\<close>

lemma best_run_cases:
  assumes "best_run i gs b l = (r, n)"
  shows "r = b \<and> n = l \<or> (\<exists>k. r = Some (i + k) \<and> l < n \<and> k + n \<le> length gs \<and> (\<forall>j. k \<le> j \<longrightarrow> j < k + n \<longrightarrow> gs ! j = 0))"
  using assms
proof (induction i gs b l rule: best_run.induct)
  case (2 i g gs b l)
  show ?case
  proof (cases "g = 0")
    case False
    from "2.IH"(1) [OF False] "2.prems" False
    consider "r = b" "n = l" | k where "r = Some (i + Suc k)" "l < n" "k + n \<le> length gs"
        "\<forall>j. k \<le> j \<longrightarrow> j < k + n \<longrightarrow> gs ! j = 0" by auto
    then show ?thesis
    proof cases
      case (2 k)
      then show ?thesis by (intro disjI2 exI [of _ "Suc k"]) (auto simp: nth_Cons')
    qed simp
  next
    case True
    let ?n = "length (takeWhile (\<lambda>x. x = 0) (g # gs))"
    let ?rest = "drop ?n (g # gs)"
    have le: "?n \<le> length (g # gs)" by (rule length_takeWhile_le)
    have zeros: "(g # gs) ! j = 0" if "j < ?n" for j
      using nth_mem [of j "takeWhile (\<lambda>x. x = 0) (g # gs)"] takeWhile_nth [of j "\<lambda>x. x = 0" "g # gs"] that
      by (metis set_takeWhileD)
    have shift: "\<exists>k. r = Some (i + k) \<and> l' < n \<and> k + n \<le> length (g # gs) \<and> (\<forall>j. k \<le> j \<longrightarrow> j < k + n \<longrightarrow> (g # gs) ! j = 0)"
      if "\<exists>k. r = Some (i + ?n + k) \<and> l' < n \<and> k + n \<le> length ?rest \<and> (\<forall>j. k \<le> j \<longrightarrow> j < k + n \<longrightarrow> ?rest ! j = 0)" for l'
    proof -
      from that obtain k where k: "r = Some (i + ?n + k)" "l' < n" "k + n \<le> length ?rest"
        "\<forall>j. k \<le> j \<longrightarrow> j < k + n \<longrightarrow> ?rest ! j = 0" by blast
      have "(g # gs) ! j = 0" if "?n + k \<le> j" "j < ?n + k + n" for j
        using k(4) [rule_format, of "j - ?n"] that le by (simp add: nth_drop)
      with k le show ?thesis by (intro exI [of _ "?n + k"]) (auto simp: add.assoc simp del: takeWhile.simps)
    qed
    show ?thesis
    proof (cases "l < ?n")
      case better: True
      have "best_run (i + ?n) ?rest (Some i) ?n = (r, n)" using "2.prems" True better by (simp add: Let_def)
      from "2.IH"(2) [OF _ refl better this] True
      consider "r = Some i" "n = ?n"
        | "\<exists>k. r = Some (i + ?n + k) \<and> ?n < n \<and> k + n \<le> length ?rest \<and> (\<forall>j. k \<le> j \<longrightarrow> j < k + n \<longrightarrow> ?rest ! j = 0)"
        by auto
      then show ?thesis
      proof cases
        case 1
        then show ?thesis using better le zeros by (intro disjI2 exI [of _ 0]) auto
      next
        case 2
        from shift [OF this] obtain k where k: "r = Some (i + k)" "?n < n" "k + n \<le> length (g # gs)"
          "\<forall>j. k \<le> j \<longrightarrow> j < k + n \<longrightarrow> (g # gs) ! j = 0" by blast
        from better k(2) have "l < n" by (rule less_trans)
        with k show ?thesis by blast
      qed
    next
      case worse: False
      have "best_run (i + ?n) ?rest b l = (r, n)" using "2.prems" True worse by (simp add: Let_def)
      from "2.IH"(3) [OF _ refl worse this] True shift [of l] show ?thesis by blast
    qed
  qed
qed simp

lemma zero_run_restored:
  assumes "k + n \<le> length gs" and "\<forall>j. k \<le> j \<longrightarrow> j < k + n \<longrightarrow> gs ! j = (0 :: int)"
  shows "take k gs @ replicate n 0 @ drop (k + n) gs = gs"
proof (rule nth_equalityI)
  fix j
  assume "j < length (take k gs @ replicate n 0 @ drop (k + n) gs)"
  then have "j < length gs" using assms(1) by simp
  then show "(take k gs @ replicate n 0 @ drop (k + n) gs) ! j = gs ! j"
    using assms by (auto simp: nth_append)
qed (use assms(1) in simp)

lemma parse_format_ipv6:
  assumes "0 \<le> v" and "v < 2 ^ 128"
  shows "parseIpv6 (formatIpv6 v) = Some v"
proof -
  let ?gs = "ipv6_groups v"
  have gs: "\<forall>g\<in>set ?gs. 0 \<le> g \<and> g < 2 ^ 16" and len: "length ?gs = 8"
    by (auto simp: ipv6_groups_digits dest!: be_digits_bounds) (simp add: be_digits_def)
  have horner: "foldl (\<lambda>acc g. push_bit 16 acc OR g) 0 ?gs = v"
    using assms by (simp add: ipv6_groups_digits be_digits_horner take_bit_int_eq_self)
  obtain r n where run: "best_run 0 ?gs None 1 = (r, n)" by (cases "best_run 0 ?gs None 1")
  show ?thesis
  proof (cases r)
    case None
    let ?s = "join '':'' (map hex_str ?gs)"
    have f: "formatIpv6 v = ?s" by (simp add: formatIpv6_def run [unfolded One_nat_def] None Let_def)
    obtain a b gs' where "?gs = a # b # gs'" using len by (cases ?gs; cases "tl ?gs") auto
    then have colon: "CHR '':'' \<in> set ?s" by (cases gs') auto
    have halves: "split_dcolon ?s = [?s]" using gs by (intro split_dcolon_join_all words_ok_hex)
    show ?thesis using parseGroups_hex [OF gs] len horner colon
      by (simp add: f parseIpv6_def halves Let_def)
  next
    case (Some k)
    from best_run_cases [OF run] Some have k: "1 < n" "k + n \<le> length ?gs"
      "\<forall>j. k \<le> j \<longrightarrow> j < k + n \<longrightarrow> ?gs ! j = 0" by auto
    let ?h = "take k ?gs" and ?t = "drop (k + n) ?gs"
    have b: "\<forall>g\<in>set ?h. 0 \<le> g \<and> g < 2 ^ 16" "\<forall>g\<in>set ?t. 0 \<le> g \<and> g < 2 ^ 16"
      using gs by (meson in_set_takeD, meson in_set_dropD)
    have f: "formatIpv6 v = join '':'' (map hex_str ?h) @ ''::'' @ join '':'' (map hex_str ?t)"
      by (simp add: formatIpv6_def run [unfolded One_nat_def] Some Let_def take_map drop_map)
    have halves: "split_dcolon (formatIpv6 v) = [join '':'' (map hex_str ?h), join '':'' (map hex_str ?t)]"
      unfolding f using b by (intro split_dcolon_two words_ok_hex)
    have count: "length ?h + length ?t = 8 - n" "n \<le> 8" using k(2) len by simp_all
    then have "8 - (length ?h + length ?t) = n" by simp
    then have "?h @ replicate (8 - (length ?h + length ?t)) 0 @ ?t = ?gs"
      using zero_run_restored [OF k(2,3)] by simp
    moreover have "CHR '':'' \<in> set (formatIpv6 v)" by (simp add: f)
    moreover have "\<not> 7 < length ?h + length ?t" using count k(1) by simp
    ultimately show ?thesis using parseGroups_hex [OF b(1)] parseGroups_hex [OF b(2)] horner
      by (simp add: parseIpv6_def halves Let_def del: length_take length_drop)
  qed
qed

lemma parse_groups_bound: "parse_groups ws = Some gs \<Longrightarrow> \<forall>g\<in>set gs. 0 \<le> g \<and> g < 2 ^ 16"
proof (induction ws arbitrary: gs rule: parse_groups.induct)
  case (2 w ws)
  have hex: "read_base 16 w < 16 ^ length w" if "list_all is_hex_digit w" for w
    using that
  proof (induction w rule: rev_induct)
    case (snoc c w)
    have "digit_value c < 16" using snoc.prems
      by (auto simp: digit_value_def is_hex_digit_def is_digit_def is_lower_def is_upper_def)
    with snoc show ?case by (simp add: read_base_snoc)
  qed simp
  show ?case
  proof (cases "hex_group w")
    case True
    then have "read_base 16 w < 16 ^ length w" "length w \<le> 4" using hex [of w] by (simp_all add: hex_group_def)
    then have "read_base 16 w < 16 ^ 4" by (meson less_le_trans one_le_numeral power_increasing)
    then have "int (read_base 16 w) < 65536" by simp
    with 2 True show ?thesis by auto
  next
    case False
    with "2.prems" obtain v where v: "parseIpv4 w = Some v" "gs = [drop_bit 16 v, v AND 0xffff]"
      by (auto split: if_splits option.splits)
    have "v AND 0xffff = take_bit 16 v" by (simp add: take_bit_eq_mask mask_eq_exp_minus_1)
    moreover have "0 \<le> take_bit 16 v" "take_bit 16 v < 2 ^ 16"
      by (simp, rule take_bit_int_less_exp)
    moreover have "0 \<le> drop_bit 16 v" "drop_bit 16 v < 2 ^ 16"
      using parseIpv4_bound [OF v(1)] by (auto simp: drop_bit_eq_div)
    ultimately show ?thesis using v(2) by simp
  qed
qed auto

lemma parseIpv6_bound:
  assumes "parseIpv6 s = Some v"
  shows "0 \<le> v \<and> v < 2 ^ 128"
proof -
  from assms obtain h t where ht: "parseGroups (split_dcolon s ! 0) = Some h"
    "(if length (split_dcolon s) = 2 then parseGroups (split_dcolon s ! 1) else Some []) = Some t"
    "length h + length t \<le> 8"
    "v = foldl (\<lambda>acc g. push_bit 16 acc OR g) 0 (h @ replicate (8 - (length h + length t)) 0 @ t)"
    by (auto simp: parseIpv6_def Let_def split: if_splits option.splits)
  have p: "\<forall>g\<in>set gs. 0 \<le> g \<and> g < 2 ^ 16" if "parseGroups x = Some gs" for x gs
    using that parse_groups_bound by (auto simp: parseGroups_def split: if_splits)
  have "\<forall>g\<in>set t. 0 \<le> g \<and> g < 2 ^ 16" using ht(2) p by (auto split: if_splits)
  then have "\<forall>g\<in>set (h @ replicate (8 - (length h + length t)) 0 @ t). 0 \<le> g \<and> g < 2 ^ 16"
    using p [OF ht(1)] by auto
  from horner_bound [of 0 16 0, OF _ _ this] ht(3) show ?thesis unfolding ht(4) by simp
qed

section \<open>Prefixes\<close>

lemma formatIpv6_chars: "c \<in> set (formatIpv6 v) \<Longrightarrow> is_hex_digit c \<or> c = CHR '':''"
proof -
  assume c: "c \<in> set (formatIpv6 v)"
  let ?hex = "map hex_str (ipv6_groups v)"
  have j: "is_hex_digit c \<or> c = CHR '':''" if "c \<in> set (join '':'' ws)" "set ws \<subseteq> set ?hex" for ws
    using that set_join [of "'':''" ws] show_hex_is_hex by fastforce
  obtain r n where run: "best_run 0 (ipv6_groups v) None (Suc 0) = (r, n)"
    by (cases "best_run 0 (ipv6_groups v) None (Suc 0)")
  show ?thesis
  proof (cases r)
    case None
    with c j [of ?hex] show ?thesis by (simp add: formatIpv6_def run Let_def)
  next
    case (Some k)
    then have "c \<in> set (join '':'' (take k ?hex)) \<or> c = CHR '':'' \<or> c \<in> set (join '':'' (drop (k + n) ?hex))"
      using c by (auto simp: formatIpv6_def run Let_def)
    then show ?thesis using j [OF _ set_take_subset] j [OF _ set_drop_subset] by blast
  qed
qed

lemma formatIpv4_chars:
  assumes "c \<in> set (formatIpv4 v)"
  shows "is_digit c \<or> c = CHR ''.''"
proof -
  have "c \<in> {CHR ''.''} \<union> (\<Union>w\<in>set (map show_int (be_digits 8 4 v)). set w)"
    using assms set_join [of "''.''" "map show_int (be_digits 8 4 v)"] by (auto simp: formatIpv4_digits)
  then consider "c = CHR ''.''" | d where "d \<in> set (be_digits 8 4 v)" "c \<in> set (show_int d)" by auto
  then show ?thesis
  proof cases
    case (2 d)
    then have "c \<in> set (show_nat (nat d))" using be_digits_bounds [of d 8 4 v] by (simp add: show_int_def)
    then show ?thesis by (simp add: show_nat_is_digit)
  qed simp
qed

lemma parse_addr_format:
  assumes "0 \<le> v" and "v < 2 ^ familyBits f"
  shows "parse_addr (if f = V4 then formatIpv4 v else formatIpv6 v) = Some (f, v)"
proof (cases f)
  case V4
  then show ?thesis using assms parse_format_ipv4 by (simp add: parse_addr_def familyBits_def)
next
  case V6
  have "CHR ''.'' \<notin> set (formatIpv6 v)"
    using formatIpv6_chars [of "CHR ''.''" v] by (auto simp: is_hex_digit_def is_digit_def)
  then have "parseIpv4 (formatIpv6 v) = None" by (simp add: parseIpv4_def split_on_no_sep)
  then show ?thesis using V6 assms parse_format_ipv6 [of v] by (simp add: parse_addr_def familyBits_def)
qed

lemma parse_format_cidr:
  assumes "cidr_ok c"
  shows "parseCidr (formatCidr c) = Some c"
proof -
  let ?f = "c_family c" and ?a = "if c_family c = V4 then formatIpv4 (c_net c) else formatIpv6 (c_net c)"
  let ?h = "familyBits ?f - c_prefix c"
  have ok: "c_prefix c \<le> familyBits ?f" "0 \<le> c_net c" "c_net c < 2 ^ familyBits ?f" "2 ^ ?h dvd c_net c"
    using assms by (simp_all add: cidr_ok_def)
  then have p: "c_prefix c < 1000" by (simp add: familyBits_def split: if_splits)
  have ac: "is_hex_digit x \<or> x \<in> {CHR '':'', CHR ''.''}" if "x \<in> set ?a" for x
    using that formatIpv4_chars [of x] formatIpv6_chars [of x] by (auto simp: is_hex_digit_def split: if_splits)
  have sl: "CHR ''/'' \<notin> set ?a" using ac [of "CHR ''/''"] by (auto simp: is_hex_digit_def is_digit_def)
  have sp: "\<not> is_space x" if "x \<in> set (formatCidr c)" for x
  proof -
    from that have "x \<in> set ?a \<or> x = CHR ''/'' \<or> x \<in> set (show_nat (c_prefix c))"
      by (auto simp: formatCidr_def split: if_splits)
    then have "is_hex_digit x \<or> x \<in> {CHR '':'', CHR ''.'', CHR ''/''}"
      using ac show_nat_is_digit [of x] by (auto simp: is_hex_digit_def)
    then show ?thesis by (auto simp: is_hex_digit_def is_digit_def is_space_def)
  qed
  have t: "trim (formatCidr c) = ?a @ CHR ''/'' # show_nat (c_prefix c)"
    using trim_id [of "formatCidr c"] sp by (simp add: formatCidr_def)
  have net: "push_bit ?h (drop_bit ?h (c_net c)) = c_net c"
    using ok(4) by (simp add: push_bit_eq_mult drop_bit_eq_div)
  have dp: "decimal_field (show_nat (c_prefix c))" "read_nat (show_nat (c_prefix c)) = c_prefix c"
    using p by (simp_all add: decimal_field_show read_show_base)
  show ?thesis
    unfolding parseCidr_def Let_def t before_append [OF sl] after_append [OF sl] parse_addr_format [OF ok(2,3)]
    using ok(1) dp net by simp
qed

lemma parse_addr_bound: "parse_addr s = Some (f, v) \<Longrightarrow> 0 \<le> v \<and> v < 2 ^ familyBits f"
  using parseIpv4_bound [of s] parseIpv6_bound [of s]
  by (auto simp: parse_addr_def familyBits_def split: option.splits)

text \<open>Whatever parses is canonical: in range, with its host bits zero.\<close>

lemma parseCidr_ok:
  assumes "parseCidr s = Some c"
  shows "cidr_ok c"
proof -
  from assms obtain f v p where a: "parse_addr (before CHR ''/'' (trim s)) = Some (f, v)" "p \<le> familyBits f"
    "c = \<lparr>c_family = f, c_net = push_bit (familyBits f - p) (drop_bit (familyBits f - p) v), c_prefix = p\<rparr>"
    by (auto simp: parseCidr_def Let_def split: option.splits if_splits)
  let ?h = "familyBits f - p"
  have b: "0 \<le> v" "v < 2 ^ familyBits f" using parse_addr_bound [OF a(1)] by auto
  have e: "push_bit ?h (drop_bit ?h v) = v - v mod 2 ^ ?h"
    by (simp add: push_bit_eq_mult drop_bit_eq_div minus_mod_eq_div_mult)
  have "0 \<le> v - v mod 2 ^ ?h" using b(1) by (simp add: zmod_le_nonneg_dividend)
  moreover have "0 \<le> v mod 2 ^ ?h" by simp
  then have "v - v mod 2 ^ ?h < 2 ^ familyBits f" using b(2) by linarith
  ultimately show ?thesis using a(2) e by (simp add: a(3) cidr_ok_def push_bit_eq_mult)
qed

lemma cidr_printed_inject:
  assumes "cidr_ok c" and "cidr_ok d" and "formatCidr c = formatCidr d"
  shows "c = d"
proof -
  have "Some c = parseCidr (formatCidr c)" by (rule parse_format_cidr [OF assms(1), symmetric])
  also have "\<dots> = Some d" unfolding assms(3) by (rule parse_format_cidr [OF assms(2)])
  finally show ?thesis by simp
qed

text \<open>An embedded IPv4 address is accepted before the \<open>::\<close> too, where RFC 4291 has none.\<close>

lemma embedded_head_accepted: "parseIpv6 ''1.2.3.4::'' = Some (foldl (\<lambda>a g. push_bit 16 a OR g) 0 ([0x102, 0x304] @ replicate 6 0))"
proof -
  have "split_dcolon ''1.2.3.4::'' = [''1.2.3.4'', []]" by code_simp
  moreover have "parseGroups ''1.2.3.4'' = Some [0x102, 0x304]" by code_simp
  moreover have "parseGroups [] = Some []" by (simp add: parseGroups_def)
  ultimately show ?thesis by (simp add: parseIpv6_def)
qed

end
