(* ===== verification/JsValue.thy ===== *)
theory JsValue
  imports JsString
begin

text \<open>
  The values and conversions of the source's language that the configuration, the HTTP
  surface and the policy loader use: JSON values, \<open>Number(x)\<close> on a string and on a JSON
  value, and \<open>Date.prototype.toISOString\<close>. A finite number is the rational it denotes
  (the source rounds it to a double); a magnitude that rounds past the largest double is
  infinite.
\<close>

section \<open>JSON\<close>

datatype json =
    J_null
  | J_bool bool
  | J_num rat
  | J_str string
  | J_arr "json list"
  | J_obj "(string \<times> json) list"

text \<open>A property of a value: \<open>undefined\<close> unless it is an object that has it.\<close>

fun jget :: "string \<Rightarrow> json \<Rightarrow> json option" where
  "jget k (J_obj kvs) = map_of kvs k"
| "jget k _ = None"

text \<open>An object as \<open>JSON.stringify\<close> writes it: a property that is \<open>undefined\<close> is left out.\<close>

definition jobj :: "(string \<times> json option) list \<Rightarrow> json" where
  "jobj kvs = J_obj (List.map_filter (\<lambda>(k, v). map_option (Pair k) v) kvs)"

definition jint :: "int \<Rightarrow> json" where
  "jint i = J_num (of_int i)"

definition jnullable :: "('a \<Rightarrow> json) \<Rightarrow> 'a option \<Rightarrow> json" where
  "jnullable f x = (case x of None \<Rightarrow> J_null | Some y \<Rightarrow> f y)"

section \<open>Numbers\<close>

datatype jsnum = NaN | Infinity bool | Fin rat

text \<open>The least magnitude that rounds to an infinity: the largest double and half an ulp.\<close>

definition DOUBLE_OVERFLOW :: rat where
  "DOUBLE_OVERFLOW = 2 ^ 1024 - 2 ^ 970"

definition to_double :: "rat \<Rightarrow> jsnum" where
  "to_double x = (if DOUBLE_OVERFLOW \<le> \<bar>x\<bar> then Infinity (0 < x) else Fin x)"

definition is_whole :: "rat \<Rightarrow> bool" where
  "is_whole x \<longleftrightarrow> snd (quotient_of x) = 1"

fun isInteger :: "jsnum \<Rightarrow> bool" where
  "isInteger (Fin x) = is_whole x"
| "isInteger _ = False"

text \<open>\<open>x || d\<close> on numbers.\<close>

fun num_or :: "jsnum \<Rightarrow> rat \<Rightarrow> jsnum" where
  "num_or (Fin x) d = Fin (if x = 0 then d else x)"
| "num_or NaN d = Fin d"
| "num_or (Infinity p) d = Infinity p"

text \<open>
  The decimal literals of \<open>Number\<close>: digits with an optional dot, at least one digit in all,
  and an optional exponent.
\<close>

definition split_exponent :: "string \<Rightarrow> string \<times> string option" where
  "split_exponent s =
     (let m = takeWhile (\<lambda>c. to_lower c \<noteq> CHR ''e'') s;
          r = drop (length m) s
      in (m, case r of [] \<Rightarrow> None | _ # e \<Rightarrow> Some e))"

fun unsign :: "string \<Rightarrow> bool \<times> string" where
  "unsign (c # s) = (if c = CHR ''-'' then (True, s) else if c = CHR ''+'' then (False, s) else (False, c # s))"
| "unsign [] = (False, [])"

definition read_exponent :: "string \<Rightarrow> int option" where
  "read_exponent s =
     (let (neg, d) = unsign s
      in if d = [] \<or> \<not> list_all is_digit d then None
         else Some (if neg then - int (read_nat d) else int (read_nat d)))"

definition read_mantissa :: "string \<Rightarrow> rat option" where
  "read_mantissa s =
     (let i = before CHR ''.'' s; f = after CHR ''.'' s
      in if (i = [] \<and> f = []) \<or> \<not> list_all is_digit i \<or> \<not> list_all is_digit f then None
         else Some (of_nat (read_nat i) + of_nat (read_nat f) / 10 ^ length f))"

definition scale10 :: "rat \<Rightarrow> int \<Rightarrow> rat" where
  "scale10 m e = (if 0 \<le> e then m * 10 ^ nat e else m / 10 ^ nat (- e))"

definition read_decimal :: "string \<Rightarrow> rat option" where
  "read_decimal s =
     (case split_exponent s of
        (m, None) \<Rightarrow> read_mantissa m
      | (m, Some e) \<Rightarrow>
          (case (read_mantissa m, read_exponent e) of
             (Some x, Some k) \<Rightarrow> Some (scale10 x k)
           | _ \<Rightarrow> None))"

definition is_digit_in :: "nat \<Rightarrow> char \<Rightarrow> bool" where
  "is_digit_in b c \<longleftrightarrow> (is_digit c \<or> is_lower c \<or> is_upper c) \<and> digit_value c < b"

definition read_radix :: "nat \<Rightarrow> string \<Rightarrow> jsnum" where
  "read_radix b d = (if d \<noteq> [] \<and> list_all (is_digit_in b) d then to_double (of_nat (read_base b d)) else NaN)"

definition js_number :: "string \<Rightarrow> jsnum" where
  "js_number raw =
     (let s = trim raw; p = lower_str (take 2 s)
      in if s = [] then Fin 0
         else if p = ''0x'' then read_radix 16 (drop 2 s)
         else if p = ''0o'' then read_radix 8 (drop 2 s)
         else if p = ''0b'' then read_radix 2 (drop 2 s)
         else
           (let (neg, u) = unsign s
            in if u = ''Infinity'' then Infinity (\<not> neg)
               else (case read_decimal u of
                       None \<Rightarrow> NaN
                     | Some x \<Rightarrow> to_double (if neg then - x else x))))"

text \<open>
  \<open>Number(x)\<close> of a JSON value: an array converts by its text, which denotes a number only
  when it has at most one element (two are separated by a comma).
\<close>

fun json_number :: "json \<Rightarrow> jsnum" where
  "json_number J_null = Fin 0"
| "json_number (J_bool b) = Fin (if b then 1 else 0)"
| "json_number (J_num x) = Fin x"
| "json_number (J_str s) = js_number s"
| "json_number (J_arr []) = Fin 0"
| "json_number (J_arr [J_bool b]) = NaN"
| "json_number (J_arr [x]) = json_number x"
| "json_number (J_arr (x # y # zs)) = NaN"
| "json_number (J_obj kvs) = NaN"

definition opt_number :: "json option \<Rightarrow> jsnum" where
  "opt_number x = (case x of None \<Rightarrow> NaN | Some j \<Rightarrow> json_number j)"

fun json_truthy :: "json option \<Rightarrow> bool" where
  "json_truthy None = False"
| "json_truthy (Some J_null) = False"
| "json_truthy (Some (J_bool b)) = b"
| "json_truthy (Some (J_num x)) = (x \<noteq> 0)"
| "json_truthy (Some (J_str s)) = (s \<noteq> [])"
| "json_truthy (Some (J_arr xs)) = True"
| "json_truthy (Some (J_obj kvs)) = True"

section \<open>Dates\<close>

text \<open>The civil date of a day counted from 1970-01-01, in the proleptic Gregorian calendar.\<close>

definition civil_of_day :: "int \<Rightarrow> int \<times> int \<times> int" where
  "civil_of_day z0 =
     (let z = z0 + 719468;
          era = z div 146097;
          doe = z mod 146097;
          yoe = (doe - doe div 1460 + doe div 36524 - doe div 146096) div 365;
          doy = doe - (365 * yoe + yoe div 4 - yoe div 100);
          mp = (5 * doy + 2) div 153;
          d = doy - (153 * mp + 2) div 5 + 1;
          m = (if mp < 10 then mp + 3 else mp - 9)
      in (yoe + era * 400 + (if m \<le> 2 then 1 else 0), m, d))"

definition pad0 :: "nat \<Rightarrow> int \<Rightarrow> string" where
  "pad0 n i = (let s = show_nat (nat i) in replicate (n - length s) CHR ''0'' @ s)"

definition iso_year :: "int \<Rightarrow> string" where
  "iso_year y =
     (if 0 \<le> y \<and> y \<le> 9999 then pad0 4 y
      else (if y < 0 then ''-'' else ''+'') @ pad0 6 \<bar>y\<bar>)"

definition toISOString :: "millis \<Rightarrow> string" where
  "toISOString ms =
     (let (y, m, d) = civil_of_day (ms div 86400000);
          t = ms mod 86400000
      in iso_year y @ ''-'' @ pad0 2 m @ ''-'' @ pad0 2 d @ ''T'' @ pad0 2 (t div 3600000)
           @ '':'' @ pad0 2 (t div 60000 mod 60) @ '':'' @ pad0 2 (t div 1000 mod 60)
           @ ''.'' @ pad0 3 (t mod 1000) @ ''Z'')"

section \<open>Facts\<close>

lemma is_whole_iff: "is_whole x \<longleftrightarrow> (\<exists>i. x = of_int i)"
proof
  assume "is_whole x"
  then obtain i where "quotient_of x = (i, 1)" by (metis is_whole_def prod.collapse)
  then show "\<exists>i. x = of_int i" by (auto dest: quotient_of_div)
next
  assume "\<exists>i. x = of_int i"
  then show "is_whole x" by (auto simp: is_whole_def)
qed

lemma is_whole_numbers [simp]: "is_whole (of_int i)" "is_whole 1"
  using is_whole_iff [of 1] by (auto simp: is_whole_iff intro: exI [of _ 1])

lemma is_whole_floor: "is_whole x \<Longrightarrow> of_int \<lfloor>x\<rfloor> = x"
  by (auto simp: is_whole_iff)

lemma isInteger_Fin: "isInteger n \<longleftrightarrow> (\<exists>i. n = Fin (of_int i))"
  by (cases n) (auto simp: is_whole_iff)

end
