(* ===== verification/Split.thy ===== *)
theory Split
  imports IpText JsValue
begin

text \<open>
  Split tunnelling (the rest of clients/core-ts/src/split.ts): the complement of a list of
  prefixes, the normalisation of rules, the compiler of a policy into routes, and the
  defensive load of a stored policy. A thrown \<open>Error\<close> is the left of a sum, named by its
  cause. Strings are Latin-1, on which NFC is the identity and lower-casing stays inside.
\<close>

section \<open>Data\<close>

datatype split_mode = Off | Exclude | Include

datatype rule_kind = App_rule | Domain_rule | Cidr_rule

datatype excluded_dns = Dns_tunnel | Dns_system

record split_rule =
  sr_kind :: rule_kind
  sr_value :: string
  sr_label :: "json option"
  sr_platform :: "string option"
  sr_enabled :: bool

record split_policy =
  po_mode :: split_mode
  po_rules :: "split_rule list"
  po_lanBypass :: bool
  po_excludedDns :: excluded_dns

definition EMPTY_POLICY :: split_policy where
  "EMPTY_POLICY = \<lparr>po_mode = Off, po_rules = [], po_lanBypass = False, po_excludedDns = Dns_tunnel\<rparr>"

record domain_matcher =
  dm_suffix :: string
  dm_wildcard :: bool

record compiled_split =
  co_tunnelRoutes :: "string list"
  co_bypassRoutes :: "string list"
  co_appsIncluded :: "string list"
  co_appsExcluded :: "string list"
  co_domainsIncluded :: "domain_matcher list"
  co_domainsExcluded :: "domain_matcher list"
  co_isNoop :: bool

datatype split_error =
    Not_a_cidr | Whole_internet | Contains_gateway
  | Not_a_domain | Ip_as_domain | Bare_tld | Domain_too_long
  | No_identity | No_platform | Own_app
  | Unknown_kind | Value_not_string | Unknown_platform | Type_error

definition LAN_BYPASS_CIDRS :: "string list" where
  "LAN_BYPASS_CIDRS =
     [''10.0.0.0/8'', ''172.16.0.0/12'', ''192.168.0.0/16'', ''169.254.0.0/16'', ''224.0.0.0/4'',
      ''255.255.255.255/32'', ''fe80::/10'', ''fc00::/7'', ''ff00::/8'']"

section \<open>Routes\<close>

definition toMergedIntervals :: "string list \<Rightarrow> family \<Rightarrow> split_error + interval list" where
  "toMergedIntervals cidrs f =
     (case those (map parseCidr cidrs) of
        None \<Rightarrow> Inl Not_a_cidr
      | Some cs \<Rightarrow> Inr (mergeIntervals (map cidrToInterval (filter (\<lambda>c. c_family c = f) cs))))"

definition intervalsToStrings :: "interval list \<Rightarrow> family \<Rightarrow> string list" where
  "intervalsToStrings ivs f = map formatCidr (cover ivs f)"

definition full_interval :: "family \<Rightarrow> interval" where
  "full_interval f = interval 0 (push_bit (familyBits f) 1 - 1)"

text \<open>One family after the other; the first error is thrown.\<close>

fun each_family :: "(family \<Rightarrow> split_error + string list) \<Rightarrow> family list \<Rightarrow> split_error + string list" where
  "each_family g [] = Inr []"
| "each_family g (f # fs) =
     (case g f of
        Inl e \<Rightarrow> Inl e
      | Inr xs \<Rightarrow> (case each_family g fs of Inl e \<Rightarrow> Inl e | Inr ys \<Rightarrow> Inr (xs @ ys)))"

definition complementRoutes :: "string list \<Rightarrow> family list \<Rightarrow> split_error + string list" where
  "complementRoutes excluded fs =
     each_family (\<lambda>f. case toMergedIntervals excluded f of
        Inl e \<Rightarrow> Inl e
      | Inr holes \<Rightarrow> Inr (intervalsToStrings (subtractIntervals [full_interval f] holes) f)) fs"

definition mergedCidrStrings :: "string list \<Rightarrow> split_error + string list" where
  "mergedCidrStrings cidrs =
     each_family (\<lambda>f. case toMergedIntervals cidrs f of
        Inl e \<Rightarrow> Inl e
      | Inr ivs \<Rightarrow> Inr (intervalsToStrings ivs f)) [V4, V6]"

definition subtractCidrStrings :: "string list \<Rightarrow> string list \<Rightarrow> split_error + string list" where
  "subtractCidrStrings a b =
     each_family (\<lambda>f. case toMergedIntervals a f of
        Inl e \<Rightarrow> Inl e
      | Inr x \<Rightarrow> (case toMergedIntervals b f of
            Inl e \<Rightarrow> Inl e
          | Inr y \<Rightarrow> Inr (intervalsToStrings (subtractIntervals x y) f))) [V4, V6]"

section \<open>Punycode\<close>

definition puny_digit :: "nat \<Rightarrow> char" where
  "puny_digit d = char_of (if d < 26 then d + 97 else d - 26 + 48)"

function adapt_loop :: "nat \<Rightarrow> nat \<Rightarrow> nat \<times> nat" where
  "adapt_loop d k = (if d > ((36 - 1) * 26) div 2 then adapt_loop (d div (36 - 1)) (k + 36) else (d, k))"
  by pat_completeness auto
termination
  by (relation "measure fst") auto

declare adapt_loop.simps [simp del]

definition adapt :: "nat \<Rightarrow> nat \<Rightarrow> bool \<Rightarrow> nat" where
  "adapt delta numPoints firstTime =
     (let d0 = (if firstTime then delta div 700 else delta div 2);
          d1 = d0 + d0 div numPoints;
          (d, k) = adapt_loop d1 0
      in k + ((36 - 1 + 1) * d) div (d + 38))"

definition puny_threshold :: "nat \<Rightarrow> nat \<Rightarrow> nat" where
  "puny_threshold bias k = (if k \<le> bias then 1 else if bias + 26 \<le> k then 26 else k - bias)"

text \<open>The variable-length integer; the digits are appended to the text.\<close>

function puny_int :: "nat \<Rightarrow> nat \<Rightarrow> nat \<Rightarrow> string" where
  "puny_int bias k q =
     (let t = puny_threshold bias k
      in if q < t then [puny_digit q]
         else puny_digit (t + (q - t) mod (36 - t)) # puny_int bias (k + 36) ((q - t) div (36 - t)))"
  by pat_completeness auto

lemma puny_threshold_bounds: "1 \<le> puny_threshold bias k \<and> puny_threshold bias k \<le> 26"
  by (auto simp: puny_threshold_def)

termination puny_int
proof (relation "measure (\<lambda>(bias, k, q). q)", simp, clarsimp)
  fix bias k q
  assume "\<not> q < puny_threshold bias k"
  then have "(q - puny_threshold bias k) div (36 - puny_threshold bias k) \<le> q - puny_threshold bias k"
    "q - puny_threshold bias k < q"
    using puny_threshold_bounds [of bias k] by auto
  then show "(q - puny_threshold bias k) div (36 - puny_threshold bias k) < q" by linarith
qed

declare puny_int.simps [simp del]

record puny_state =
  pu_delta :: nat
  pu_bias :: nat
  pu_handled :: nat
  pu_output :: string

definition puny_char :: "nat \<Rightarrow> nat \<Rightarrow> nat \<Rightarrow> puny_state \<Rightarrow> puny_state" where
  "puny_char n firstNonBasicAt c st =
     (if c < n then st\<lparr>pu_delta := pu_delta st + 1\<rparr>
      else if c = n then
        \<lparr>pu_delta = 0,
         pu_bias = adapt (pu_delta st) (pu_handled st + 1) (pu_handled st = firstNonBasicAt),
         pu_handled = pu_handled st + 1,
         pu_output = pu_output st @ puny_int (pu_bias st) 36 (pu_delta st)\<rparr>
      else st)"

text \<open>The next code point to handle is the least that is left.\<close>

definition next_point :: "nat \<Rightarrow> nat list \<Rightarrow> nat option" where
  "next_point n cps = (case filter (\<lambda>c. n \<le> c) cps of [] \<Rightarrow> None | c # cs \<Rightarrow> Some (fold min cs c))"

lemma fold_min_mem: "fold min cs (c :: nat) \<in> set (c # cs)"
proof (induction cs arbitrary: c)
  case (Cons a cs)
  then show ?case using Cons.IH [of "min a c"] by (auto simp: min_def split: if_splits)
qed simp

lemma next_point_mem: "next_point n cps = Some m \<Longrightarrow> m \<in> set cps \<and> n \<le> m"
proof (cases "filter (\<lambda>c. n \<le> c) cps")
  case (Cons c cs)
  assume "next_point n cps = Some m"
  then have "m \<in> set (filter (\<lambda>c. n \<le> c) cps)"
    using Cons fold_min_mem [of cs c] by (simp add: next_point_def)
  then show ?thesis by simp
qed (simp add: next_point_def)

function puny_loop :: "nat list \<Rightarrow> nat \<Rightarrow> nat \<Rightarrow> puny_state \<Rightarrow> puny_state" where
  "puny_loop cps firstNonBasicAt n st =
     (if length cps \<le> pu_handled st then st
      else (case next_point n cps of
              None \<Rightarrow> st
            | Some m \<Rightarrow>
                (let st1 = st\<lparr>pu_delta := pu_delta st + (m - n) * (pu_handled st + 1)\<rparr>;
                     st2 = fold (puny_char m firstNonBasicAt) cps st1
                 in puny_loop cps firstNonBasicAt (m + 1) (st2\<lparr>pu_delta := pu_delta st2 + 1\<rparr>))))"
  by pat_completeness auto
termination
proof (relation "measure (\<lambda>(cps, b, n, st). length (filter (\<lambda>c. n \<le> c) cps))", simp, clarsimp)
  fix cps :: "nat list" and n m
  assume "next_point n cps = Some m"
  then have m: "m \<in> set cps" "n \<le> m" using next_point_mem by auto
  have "length (filter (\<lambda>c. Suc m \<le> c) xs) \<le> length (filter (\<lambda>c. n \<le> c) xs)" for xs
    using m(2) by (induction xs) auto
  moreover have "length (filter (\<lambda>c. Suc m \<le> c) xs) < length (filter (\<lambda>c. n \<le> c) xs)" if "m \<in> set xs" for xs
    using that
  proof (induction xs)
    case (Cons x xs)
    then show ?case using m(2) calculation [of xs] by (cases "x = m") auto
  qed simp
  ultimately show "length (filter (\<lambda>c. Suc m \<le> c) cps) < length (filter (\<lambda>c. n \<le> c) cps)" using m(1) by blast
qed

declare puny_loop.simps [simp del]

definition punycodeEncode :: "string \<Rightarrow> string" where
  "punycodeEncode label =
     (let cps = map of_char label;
          basic = filter (\<lambda>c. c < 0x80) cps;
          output = map char_of basic @ (if basic \<noteq> [] then ''-'' else [])
      in pu_output (puny_loop cps (length basic) 128
           \<lparr>pu_delta = 0, pu_bias = 72, pu_handled = length basic, pu_output = output\<rparr>))"

section \<open>Rules\<close>

definition lower_latin1 :: "char \<Rightarrow> char" where
  "lower_latin1 c =
     (let n = of_char c :: nat
      in if is_upper c \<or> (192 \<le> n \<and> n \<le> 222 \<and> n \<noteq> 215) then char_of (n + 32) else c)"

definition isIpLiteral :: "string \<Rightarrow> bool" where
  "isIpLiteral s \<longleftrightarrow> parseIpv4 s \<noteq> None \<or> parseIpv6 s \<noteq> None"

definition label_edge :: "char \<Rightarrow> bool" where
  "label_edge c \<longleftrightarrow> is_lower c \<or> is_digit c \<or> c = CHR ''_''"

text \<open>\<open>/^[a-z0-9_]([a-z0-9_-]*[a-z0-9_])?$/\<close>, at most 63 characters.\<close>

definition label_ok :: "string \<Rightarrow> bool" where
  "label_ok s \<longleftrightarrow> s \<noteq> [] \<and> label_edge (hd s) \<and> label_edge (last s)
     \<and> list_all (\<lambda>c. label_edge c \<or> c = CHR ''-'') s \<and> length s \<le> 63"

definition printable :: "char \<Rightarrow> bool" where
  "printable c \<longleftrightarrow> (0x20 :: nat) \<le> of_char c \<and> of_char c \<le> (0x7e :: nat)"

definition ascii_label :: "string \<Rightarrow> string" where
  "ascii_label label = (if list_all printable label then label else ''xn--'' @ punycodeEncode label)"

definition strip_dots :: "string \<Rightarrow> string" where
  "strip_dots s = rev (dropWhile (\<lambda>c. c = CHR ''.'') (rev s))"

definition normalizeDomainValue :: "string \<Rightarrow> split_error + string" where
  "normalizeDomainValue raw =
     (let v0 = strip_dots (map lower_latin1 (trim raw));
          wildcard = starts_with ''*.'' v0;
          v = (if wildcard then drop 2 v0 else v0)
      in if v = [] \<or> CHR ''*'' \<in> set v then Inl Not_a_domain
         else if isIpLiteral v then Inl Ip_as_domain
         else
           (let labels = map ascii_label (split_on CHR ''.'' v)
            in if \<not> list_all label_ok labels then Inl Not_a_domain
               else if length labels < 2 then Inl Bare_tld
               else
                 (let joined = join ''.'' labels
                  in if 253 < length joined then Inl Domain_too_long
                     else Inr ((if wildcard then ''*.'' else []) @ joined))))"

definition endpoint_in :: "cidr \<Rightarrow> string \<Rightarrow> bool" where
  "endpoint_in c endpoint =
     (case parseCidr endpoint of
        None \<Rightarrow> False
      | Some ep \<Rightarrow> c_family ep = c_family c \<and> i_start (cidrToInterval c) \<le> c_net ep
          \<and> c_net ep \<le> i_end (cidrToInterval c))"

definition normalizeCidrValue :: "string \<Rightarrow> string list \<Rightarrow> split_error + string" where
  "normalizeCidrValue raw endpointIps =
     (case parseCidr raw of
        None \<Rightarrow> Inl Not_a_cidr
      | Some c \<Rightarrow>
          if c_prefix c = 0 then Inl Whole_internet
          else if list_ex (endpoint_in c) endpointIps then Inl Contains_gateway
          else Inr (formatCidr c))"

definition normalizeAppValue :: "string \<Rightarrow> json option \<Rightarrow> split_error + string" where
  "normalizeAppValue raw platform =
     (let v = trim raw
      in if v = [] then Inl No_identity
         else if platform = None then Inl No_platform
         else if str_includes ''cumulusvpn'' (map lower_latin1 v) then Inl Own_app
         else Inr v)"

definition SPLIT_PLATFORMS :: "string list" where
  "SPLIT_PLATFORMS = [''android'', ''ios'', ''macos'', ''windows'', ''linux'']"

section \<open>The single gate for rules\<close>

text \<open>A property of a value from disk: \<open>undefined\<close> unless it is an object that has it.\<close>

definition rule_kind_of :: "json option \<Rightarrow> rule_kind option" where
  "rule_kind_of k =
     (if k = Some (J_str ''app'') then Some App_rule
      else if k = Some (J_str ''domain'') then Some Domain_rule
      else if k = Some (J_str ''cidr'') then Some Cidr_rule
      else None)"

definition platform_known :: "json \<Rightarrow> bool" where
  "platform_known p \<longleftrightarrow> (case p of J_str s \<Rightarrow> s \<in> set SPLIT_PLATFORMS | _ \<Rightarrow> False)"

definition normalizeSplitRule :: "json \<Rightarrow> string list \<Rightarrow> split_error + split_rule" where
  "normalizeSplitRule rule endpointIps =
     (if rule = J_null then Inl Type_error
      else case rule_kind_of (jget ''kind'' rule) of
        None \<Rightarrow> Inl Unknown_kind
      | Some kind \<Rightarrow>
          (case jget ''value'' rule of
             Some (J_str raw) \<Rightarrow>
               if kind = App_rule \<and> (case jget ''platform'' rule of None \<Rightarrow> False | Some p \<Rightarrow> \<not> platform_known p)
               then Inl Unknown_platform
               else (case (case kind of
                             Cidr_rule \<Rightarrow> normalizeCidrValue raw endpointIps
                           | Domain_rule \<Rightarrow> normalizeDomainValue raw
                           | App_rule \<Rightarrow> normalizeAppValue raw (jget ''platform'' rule)) of
                       Inl e \<Rightarrow> Inl e
                     | Inr v \<Rightarrow>
                         Inr \<lparr>sr_kind = kind, sr_value = v, sr_label = jget ''label'' rule,
                              sr_platform = (if kind = App_rule
                                then (case jget ''platform'' rule of Some (J_str p) \<Rightarrow> Some p | _ \<Rightarrow> None)
                                else None),
                              sr_enabled = (jget ''enabled'' rule \<noteq> Some (J_bool False))\<rparr>)
           | _ \<Rightarrow> Inl Value_not_string))"

section \<open>The compiler\<close>

record compile_ctx =
  cc_platform :: string
  cc_supportsExcludeRoute :: bool
  cc_endpointIps :: "string list"

definition containsAnyEndpoint :: "string \<Rightarrow> string list \<Rightarrow> bool" where
  "containsAnyEndpoint value endpointIps =
     (case parseCidr value of None \<Rightarrow> False | Some c \<Rightarrow> list_ex (endpoint_in c) endpointIps)"

text \<open>\<open>[...new Set(xs)]\<close>: the first occurrences, in order.\<close>

definition uniq :: "'a list \<Rightarrow> 'a list" where
  "uniq xs = rev (remdups (rev xs))"

definition matcher_of :: "string \<Rightarrow> domain_matcher" where
  "matcher_of v =
     (if starts_with ''*.'' v then \<lparr>dm_suffix = drop 2 v, dm_wildcard = True\<rparr>
      else \<lparr>dm_suffix = v, dm_wildcard = False\<rparr>)"

definition toMatchers :: "string list \<Rightarrow> domain_matcher list" where
  "toMatchers values = sort_key dm_suffix (map matcher_of values)"

definition NOOP_SPLIT :: compiled_split where
  "NOOP_SPLIT = \<lparr>co_tunnelRoutes = [], co_bypassRoutes = [], co_appsIncluded = [], co_appsExcluded = [],
     co_domainsIncluded = [], co_domainsExcluded = [], co_isNoop = True\<rparr>"

definition active_rules :: "split_policy \<Rightarrow> split_rule list" where
  "active_rules p = filter sr_enabled (po_rules p)"

definition rule_cidrs :: "split_policy \<Rightarrow> compile_ctx \<Rightarrow> string list" where
  "rule_cidrs p ctx =
     filter (\<lambda>v. \<not> containsAnyEndpoint v (cc_endpointIps ctx))
       (map sr_value (filter (\<lambda>r. sr_kind r = Cidr_rule) (active_rules p)))"

definition rule_apps :: "split_policy \<Rightarrow> compile_ctx \<Rightarrow> string list" where
  "rule_apps p ctx = sort (uniq (map sr_value
     (filter (\<lambda>r. sr_kind r = App_rule \<and> sr_platform r = Some (cc_platform ctx)) (active_rules p))))"

definition rule_domains :: "split_policy \<Rightarrow> string list" where
  "rule_domains p = uniq (map sr_value (filter (\<lambda>r. sr_kind r = Domain_rule) (active_rules p)))"

definition compile_include :: "split_policy \<Rightarrow> compile_ctx \<Rightarrow> split_error + compiled_split" where
  "compile_include p ctx =
     (case (if po_lanBypass p then subtractCidrStrings (rule_cidrs p ctx) LAN_BYPASS_CIDRS
            else mergedCidrStrings (rule_cidrs p ctx)) of
        Inl e \<Rightarrow> Inl e
      | Inr included \<Rightarrow>
          Inr \<lparr>co_tunnelRoutes = included, co_bypassRoutes = [], co_appsIncluded = rule_apps p ctx,
               co_appsExcluded = [], co_domainsIncluded = toMatchers (rule_domains p),
               co_domainsExcluded = [], co_isNoop = False\<rparr>)"

definition bypass_cidrs :: "split_policy \<Rightarrow> compile_ctx \<Rightarrow> string list" where
  "bypass_cidrs p ctx =
     (if po_mode p = Exclude then rule_cidrs p ctx else [])
       @ (if po_lanBypass p then LAN_BYPASS_CIDRS else [])"

definition compile_exclude :: "split_policy \<Rightarrow> compile_ctx \<Rightarrow> split_error + compiled_split" where
  "compile_exclude p ctx =
     (case mergedCidrStrings (bypass_cidrs p ctx) of
        Inl e \<Rightarrow> Inl e
      | Inr bypass \<Rightarrow>
          (case (if cc_supportsExcludeRoute ctx then Inr [] else complementRoutes bypass [V4, V6]) of
             Inl e \<Rightarrow> Inl e
           | Inr tunnel \<Rightarrow>
               Inr \<lparr>co_tunnelRoutes = tunnel,
                    co_bypassRoutes = (if cc_supportsExcludeRoute ctx then bypass else []),
                    co_appsIncluded = [],
                    co_appsExcluded = (if po_mode p = Exclude then rule_apps p ctx else []),
                    co_domainsIncluded = [],
                    co_domainsExcluded = toMatchers (if po_mode p = Exclude then rule_domains p else []),
                    co_isNoop = False\<rparr>))"

definition compileSplitPolicy :: "split_policy \<Rightarrow> compile_ctx \<Rightarrow> split_error + compiled_split" where
  "compileSplitPolicy p ctx =
     (if po_mode p = Off \<and> \<not> po_lanBypass p then Inr NOOP_SPLIT
      else if po_mode p = Include then compile_include p ctx
      else compile_exclude p ctx)"

section \<open>The defensive load\<close>

definition mode_of :: "json option \<Rightarrow> split_mode option" where
  "mode_of m =
     (if m = Some (J_str ''off'') then Some Off
      else if m = Some (J_str ''exclude'') then Some Exclude
      else if m = Some (J_str ''include'') then Some Include
      else None)"

definition dns_of :: "json option \<Rightarrow> excluded_dns option" where
  "dns_of d =
     (if d = Some (J_str ''tunnel'') then Some Dns_tunnel
      else if d = Some (J_str ''system'') then Some Dns_system
      else None)"

fun normalize_all :: "json list \<Rightarrow> split_error + split_rule list" where
  "normalize_all [] = Inr []"
| "normalize_all (r # rs) =
     (case normalizeSplitRule r [] of
        Inl e \<Rightarrow> Inl e
      | Inr x \<Rightarrow> (case normalize_all rs of Inl e \<Rightarrow> Inl e | Inr xs \<Rightarrow> Inr (x # xs)))"

definition sanitizeSplitPolicy :: "json \<Rightarrow> split_policy" where
  "sanitizeSplitPolicy v =
     (if jget ''version'' v \<noteq> Some (J_num 1) then EMPTY_POLICY
      else case (mode_of (jget ''mode'' v), jget ''lanBypass'' v, dns_of (jget ''excludedDns'' v), jget ''rules'' v) of
        (Some mode, Some (J_bool lan), Some dns, Some (J_arr rules)) \<Rightarrow>
          (case normalize_all rules of
             Inl e \<Rightarrow> EMPTY_POLICY
           | Inr rs \<Rightarrow> \<lparr>po_mode = mode, po_rules = rs, po_lanBypass = lan, po_excludedDns = dns\<rparr>)
      | _ \<Rightarrow> EMPTY_POLICY)"

section \<open>Routes as sets of addresses\<close>

definition routes :: "family \<Rightarrow> string list \<Rightarrow> int set" where
  "routes f ss = (\<Union>s\<in>set ss. \<Union>c\<in>set_option (parseCidr s). if c_family c = f then cpts c else {})"

definition all_addrs :: "family \<Rightarrow> int set" where
  "all_addrs f = {0 ..< 2 ^ familyBits f}"

definition cidr_text :: "string \<Rightarrow> bool" where
  "cidr_text s \<longleftrightarrow> parseCidr s \<noteq> None"

lemma routes_simps [simp]:
  "routes f [] = {}" "routes f (xs @ ys) = routes f xs \<union> routes f ys"
  by (auto simp: routes_def)

lemma those_map: "those (map g xs) = (if \<forall>x\<in>set xs. g x \<noteq> None then Some (map (\<lambda>x. the (g x)) xs) else None)"
  by (induction xs) (auto split: option.split)

lemma cidr_interval_valid: "cidr_ok c \<Longrightarrow> valid_interval (c_family c) (cidrToInterval c)"
proof -
  assume ok: "cidr_ok c"
  let ?B = "familyBits (c_family c)" and ?h = "familyBits (c_family c) - c_prefix c"
  obtain m where m: "c_net c = 2 ^ ?h * m" using ok by (auto simp: cidr_ok_def)
  have B: "(2 :: int) ^ ?B = 2 ^ ?h * 2 ^ c_prefix c" using ok by (simp add: cidr_ok_def flip: power_add)
  have "2 ^ ?h * m < 2 ^ ?h * 2 ^ c_prefix c" using ok m B by (simp add: cidr_ok_def)
  then have "m < 2 ^ c_prefix c" by (simp only: mult_less_cancel_left_pos zero_less_power zero_less_numeral)
  then have "2 ^ ?h * (m + 1) \<le> 2 ^ ?h * 2 ^ c_prefix c" by (intro mult_left_mono) auto
  then have "c_net c + 2 ^ ?h \<le> 2 ^ ?B" by (simp add: m B algebra_simps)
  then show ?thesis using ok
    by (auto simp: valid_interval_def cidrToInterval_def push_bit_eq_mult Let_def cidr_ok_def)
qed

lemma cpts_sub: "cidr_ok c \<Longrightarrow> cpts c \<subseteq> all_addrs (c_family c)"
  using cidr_interval_valid [of c] by (auto simp: cpts_def pts_def valid_interval_def all_addrs_def)

lemma routes_sub: "routes f ss \<subseteq> all_addrs f"
  using cpts_sub parseCidr_ok by (fastforce simp: routes_def)

lemma toMerged_cases:
  assumes "toMergedIntervals ss f = r"
  shows "(r = Inl Not_a_cidr \<and> \<not> (\<forall>s\<in>set ss. cidr_text s))
   \<or> (\<exists>ivs. r = Inr ivs \<and> (\<forall>s\<in>set ss. cidr_text s) \<and> merged ivs \<and> area ivs = routes f ss)"
proof (cases "\<forall>s\<in>set ss. parseCidr s \<noteq> None")
  case True
  let ?cs = "map (\<lambda>s. the (parseCidr s)) ss"
  let ?ivs = "map cidrToInterval (filter (\<lambda>c. c_family c = f) ?cs)"
  have ok: "cidr_ok c" if "c \<in> set ?cs" for c using that True parseCidr_ok by fastforce
  have "list_all nonempty ?ivs"
    using ok cidr_interval_valid by (fastforce simp: list_all_iff valid_interval_def nonempty_def)
  moreover have "area ?ivs = routes f ss"
    using True by (force simp: area_def routes_def cpts_def)
  moreover have "r = Inr (mergeIntervals ?ivs)"
    using assms True by (simp add: toMergedIntervals_def those_map)
  ultimately show ?thesis using True mergeIntervals_correct [of ?ivs] by (auto simp: cidr_text_def)
next
  case False
  then show ?thesis using assms by (auto simp: toMergedIntervals_def those_map cidr_text_def)
qed

text \<open>Printing a list of intervals denotes exactly its points, in its family only.\<close>

lemma strings_routes:
  assumes "merged ivs" and "area ivs \<subseteq> all_addrs f"
  shows "routes g (intervalsToStrings ivs f) = (if g = f then area ivs else {})"
    and "\<forall>s\<in>set (intervalsToStrings ivs f). cidr_text s"
proof -
  note c = cover_list_correct [OF assms(1) assms(2) [unfolded all_addrs_def]]
  have p: "parseCidr (formatCidr c) = Some c" if "c \<in> set (cover ivs f)" for c
    using c(1) that by (intro parse_format_cidr) blast
  then show "\<forall>s\<in>set (intervalsToStrings ivs f). cidr_text s"
    by (simp add: intervalsToStrings_def cidr_text_def)
  have "routes g (intervalsToStrings ivs f) = (\<Union>c\<in>set (cover ivs f). if c_family c = g then cpts c else {})"
    using p by (auto simp: routes_def intervalsToStrings_def)
  then show "routes g (intervalsToStrings ivs f) = (if g = f then area ivs else {})"
    using c by auto
qed

lemma each_family_ok:
  assumes "\<And>f. f \<in> set fs \<Longrightarrow> g f = Inr (h f)"
  shows "each_family g fs = Inr (concat (map h fs))"
  using assms by (induction fs) auto

lemma each_family_error:
  assumes "\<And>f. g f = Inl e" and "fs \<noteq> []"
  shows "each_family g fs = Inl e"
  using assms by (cases fs) auto

text \<open>A function of one family that denotes the set \<open>A f\<close>, in that family only.\<close>

definition denotes :: "(family \<Rightarrow> split_error + string list) \<Rightarrow> (family \<Rightarrow> int set) \<Rightarrow> bool" where
  "denotes g A \<longleftrightarrow> (\<forall>f. \<exists>out. g f = Inr out \<and> (\<forall>s\<in>set out. cidr_text s)
     \<and> (\<forall>f'. routes f' out = (if f' = f then A f else {})))"

lemma denotesI:
  assumes "\<And>f. \<exists>ivs. g f = Inr (intervalsToStrings ivs f) \<and> merged ivs \<and> area ivs = A f \<and> A f \<subseteq> all_addrs f"
  shows "denotes g A"
  unfolding denotes_def
proof
  fix f
  from assms [of f] obtain ivs where "g f = Inr (intervalsToStrings ivs f)" "merged ivs" "area ivs = A f"
    "area ivs \<subseteq> all_addrs f" by auto
  with strings_routes [of ivs f] show "\<exists>out. g f = Inr out \<and> (\<forall>s\<in>set out. cidr_text s)
     \<and> (\<forall>f'. routes f' out = (if f' = f then A f else {}))" by auto
qed

lemma each_family_denotes:
  assumes "denotes g A"
  shows "\<exists>out. each_family g fs = Inr out \<and> (\<forall>s\<in>set out. cidr_text s)
    \<and> (\<forall>f. routes f out = (if f \<in> set fs then A f else {}))"
proof (induction fs)
  case (Cons f fs)
  from Cons.IH obtain out where o: "each_family g fs = Inr out" "\<forall>s\<in>set out. cidr_text s"
    "\<forall>f. routes f out = (if f \<in> set fs then A f else {})" by blast
  from assms obtain o1 where o1: "g f = Inr o1" "\<forall>s\<in>set o1. cidr_text s"
    "\<forall>f'. routes f' o1 = (if f' = f then A f else {})" unfolding denotes_def by blast
  show ?case using o o1 by (intro exI [of _ "o1 @ out"]) auto
qed simp

lemma full_interval: "merged [full_interval f]" "area [full_interval f] = all_addrs f"
  by (auto simp: full_interval_def nonempty_def pts_def all_addrs_def push_bit_eq_mult)

text \<open>The complement is exact: an address is routed into the tunnel iff no prefix excludes it.\<close>

lemma complement_exact:
  assumes "\<forall>s\<in>set excluded. cidr_text s"
  shows "\<exists>out. complementRoutes excluded fs = Inr out \<and> (\<forall>s\<in>set out. cidr_text s)
    \<and> (\<forall>f. routes f out = (if f \<in> set fs then all_addrs f - routes f excluded else {}))"
  unfolding complementRoutes_def
proof (rule each_family_denotes, rule denotesI)
  fix f
  from toMerged_cases [of excluded f] assms obtain holes where
    h: "toMergedIntervals excluded f = Inr holes" "merged holes" "area holes = routes f excluded" by blast
  let ?ivs = "subtractIntervals [full_interval f] holes"
  have "merged ?ivs" "area ?ivs = all_addrs f - routes f excluded"
    using subtractIntervals_correct [OF full_interval(1) h(2)] full_interval(2) h(3) by simp_all
  then show "\<exists>ivs. (case toMergedIntervals excluded f of Inl e \<Rightarrow> Inl e
        | Inr holes \<Rightarrow> Inr (intervalsToStrings (subtractIntervals [full_interval f] holes) f)) = Inr (intervalsToStrings ivs f)
      \<and> merged ivs \<and> area ivs = all_addrs f - routes f excluded \<and> all_addrs f - routes f excluded \<subseteq> all_addrs f"
    using h(1) by auto
qed

lemma complement_throws:
  assumes "\<not> (\<forall>s\<in>set excluded. cidr_text s)" and "fs \<noteq> []"
  shows "complementRoutes excluded fs = Inl Not_a_cidr"
proof -
  have "toMergedIntervals excluded f = Inl Not_a_cidr" for f
    using toMerged_cases [OF refl, of excluded f] assms(1) by blast
  then show ?thesis unfolding complementRoutes_def using assms(2) by (intro each_family_error) auto
qed

lemma mergedCidrStrings_exact:
  assumes "\<forall>s\<in>set cidrs. cidr_text s"
  shows "\<exists>out. mergedCidrStrings cidrs = Inr out \<and> (\<forall>s\<in>set out. cidr_text s)
    \<and> (\<forall>f. routes f out = routes f cidrs)"
proof -
  have "denotes (\<lambda>f. case toMergedIntervals cidrs f of Inl e \<Rightarrow> Inl e
      | Inr ivs \<Rightarrow> Inr (intervalsToStrings ivs f)) (\<lambda>f. routes f cidrs)"
  proof (rule denotesI)
    fix f
    from toMerged_cases [of cidrs f] assms obtain ivs where
      "toMergedIntervals cidrs f = Inr ivs" "merged ivs" "area ivs = routes f cidrs" by blast
    then show "\<exists>ivs. (case toMergedIntervals cidrs f of Inl e \<Rightarrow> Inl e
        | Inr ivs \<Rightarrow> Inr (intervalsToStrings ivs f)) = Inr (intervalsToStrings ivs f)
      \<and> merged ivs \<and> area ivs = routes f cidrs \<and> routes f cidrs \<subseteq> all_addrs f" using routes_sub by auto
  qed
  from each_family_denotes [OF this, of "[V4, V6]"] show ?thesis
    unfolding mergedCidrStrings_def by (auto intro: family.exhaust)
qed

lemma subtractCidrStrings_exact:
  assumes "\<forall>s\<in>set a. cidr_text s" and "\<forall>s\<in>set b. cidr_text s"
  shows "\<exists>out. subtractCidrStrings a b = Inr out \<and> (\<forall>s\<in>set out. cidr_text s)
    \<and> (\<forall>f. routes f out = routes f a - routes f b)"
proof -
  have "denotes (\<lambda>f. case toMergedIntervals a f of
        Inl e \<Rightarrow> Inl e
      | Inr x \<Rightarrow> (case toMergedIntervals b f of
            Inl e \<Rightarrow> Inl e
          | Inr y \<Rightarrow> Inr (intervalsToStrings (subtractIntervals x y) f))) (\<lambda>f. routes f a - routes f b)"
  proof (rule denotesI)
    fix f
    from toMerged_cases [of a f] assms obtain x where
      x: "toMergedIntervals a f = Inr x" "merged x" "area x = routes f a" by blast
    from toMerged_cases [of b f] assms obtain y where
      y: "toMergedIntervals b f = Inr y" "merged y" "area y = routes f b" by blast
    have "routes f a - routes f b \<subseteq> all_addrs f" using routes_sub [of f a] by blast
    with subtractIntervals_correct [OF x(2) y(2)] x y show "\<exists>ivs. (case toMergedIntervals a f of
        Inl e \<Rightarrow> Inl e
      | Inr x \<Rightarrow> (case toMergedIntervals b f of
            Inl e \<Rightarrow> Inl e
          | Inr y \<Rightarrow> Inr (intervalsToStrings (subtractIntervals x y) f))) = Inr (intervalsToStrings ivs f)
      \<and> merged ivs \<and> area ivs = routes f a - routes f b \<and> routes f a - routes f b \<subseteq> all_addrs f" by auto
  qed
  from each_family_denotes [OF this, of "[V4, V6]"] show ?thesis
    unfolding subtractCidrStrings_def by (auto intro: family.exhaust)
qed

text \<open>No list of prefixes of the family with the same meaning is shorter.\<close>

lemma complement_minimal:
  assumes "complementRoutes excluded [f] = Inr out"
    and "\<forall>s\<in>set rs. \<exists>c. parseCidr s = Some c \<and> c_family c = f"
    and "routes f rs = all_addrs f - routes f excluded"
  shows "length out \<le> length rs"
proof -
  have ex: "\<forall>s\<in>set excluded. cidr_text s"
    using assms(1) complement_throws [of excluded "[f]"] by fastforce
  from toMerged_cases [of excluded f] ex obtain holes where
    h: "toMergedIntervals excluded f = Inr holes" "merged holes" "area holes = routes f excluded" by blast
  let ?ivs = "subtractIntervals [full_interval f] holes"
  have iv: "merged ?ivs" "area ?ivs = all_addrs f - routes f excluded"
    using subtractIntervals_correct [OF full_interval(1) h(2)] full_interval(2) h(3) by simp_all
  have out: "out = map formatCidr (cover ?ivs f)"
    using assms(1) h(1) by (simp add: complementRoutes_def intervalsToStrings_def)
  let ?C = "set (map (\<lambda>s. the (parseCidr s)) rs)"
  have "cidr_ok c \<and> c_family c = f" if "c \<in> ?C" for c using that assms(2) parseCidr_ok by fastforce
  moreover have "routes f rs = (\<Union>s\<in>set rs. cpts (the (parseCidr s)))"
    unfolding routes_def using assms(2) by (intro SUP_cong refl) auto
  then have "(\<Union>c\<in>?C. cpts c) = area ?ivs" using assms(3) iv(2) by simp
  ultimately have "length (cover ?ivs f) \<le> card ?C"
    using iv cover_list_minimal [of ?ivs f ?C] by (auto simp: all_addrs_def)
  also have "\<dots> \<le> length rs" using card_length [of "map (\<lambda>s. the (parseCidr s)) rs"] by simp
  finally show ?thesis by (simp add: out)
qed

section \<open>What a compiled policy routes\<close>

lemmas cidr_eval = parseCidr_def trim_def is_space_def before_def after_def parse_addr_def parseIpv4_def
  parseIpv6_def parseGroups_def hex_group_def is_hex_digit_def Let_def decimal_field_def is_digit_def
  starts_with_def read_base_def digit_value_def familyBits_def

lemma LAN_text: "\<forall>s\<in>set LAN_BYPASS_CIDRS. cidr_text s"
  by (simp add: LAN_BYPASS_CIDRS_def cidr_text_def cidr_eval)

text \<open>A policy whose prefixes parse; \<open>sanitizeSplitPolicy\<close> yields no other.\<close>

definition policy_wf :: "split_policy \<Rightarrow> bool" where
  "policy_wf p \<longleftrightarrow> (\<forall>r\<in>set (po_rules p). sr_kind r = Cidr_rule \<longrightarrow> cidr_text (sr_value r))"

lemma rule_cidrs_text: "policy_wf p \<Longrightarrow> \<forall>s\<in>set (rule_cidrs p ctx). cidr_text s"
  by (auto simp: policy_wf_def rule_cidrs_def active_rules_def)

definition lan_routes :: "family \<Rightarrow> split_policy \<Rightarrow> int set" where
  "lan_routes f p = (if po_lanBypass p then routes f LAN_BYPASS_CIDRS else {})"

lemma compile_include_exact:
  assumes "policy_wf p" and "po_mode p = Include"
  shows "\<exists>co. compileSplitPolicy p ctx = Inr co \<and> co_bypassRoutes co = []
    \<and> (\<forall>f. routes f (co_tunnelRoutes co) = routes f (rule_cidrs p ctx) - lan_routes f p)"
  using mergedCidrStrings_exact [OF rule_cidrs_text [OF assms(1)], of ctx]
    subtractCidrStrings_exact [OF rule_cidrs_text [OF assms(1)] LAN_text, of ctx] assms(2)
  by (auto simp: compileSplitPolicy_def compile_include_def lan_routes_def)

text \<open>
  Otherwise what bypasses the tunnel is the rules' prefixes (in \<open>exclude\<close> mode) and the LAN.
  A platform that cannot exclude routes gets the exact complement as tunnel routes.
\<close>

definition bypass_area :: "family \<Rightarrow> split_policy \<Rightarrow> compile_ctx \<Rightarrow> int set" where
  "bypass_area f p ctx =
     (if po_mode p = Exclude then routes f (rule_cidrs p ctx) else {}) \<union> lan_routes f p"

lemma compile_exclude_exact:
  assumes "policy_wf p" and "po_mode p = Exclude \<or> po_mode p = Off \<and> po_lanBypass p"
  shows "\<exists>co. compileSplitPolicy p ctx = Inr co
    \<and> (\<forall>f. routes f (co_bypassRoutes co) = (if cc_supportsExcludeRoute ctx then bypass_area f p ctx else {})
         \<and> routes f (co_tunnelRoutes co)
             = (if cc_supportsExcludeRoute ctx then {} else all_addrs f - bypass_area f p ctx))"
proof -
  have "\<forall>s\<in>set (bypass_cidrs p ctx). cidr_text s"
    using rule_cidrs_text [OF assms(1), of ctx] LAN_text by (auto simp: bypass_cidrs_def)
  from mergedCidrStrings_exact [OF this] obtain bypass where
    b: "mergedCidrStrings (bypass_cidrs p ctx) = Inr bypass" "\<forall>s\<in>set bypass. cidr_text s"
    "\<forall>f. routes f bypass = routes f (bypass_cidrs p ctx)" by blast
  from complement_exact [OF b(2), of "[V4, V6]"] obtain tunnel where
    t: "complementRoutes bypass [V4, V6] = Inr tunnel"
    "\<forall>f. routes f tunnel = (if f \<in> set [V4, V6] then all_addrs f - routes f bypass else {})" by blast
  have fam: "f \<in> set [V4, V6]" for f by (cases f) auto
  have area: "routes f (bypass_cidrs p ctx) = bypass_area f p ctx" for f
    by (simp add: bypass_cidrs_def bypass_area_def lan_routes_def)
  have c: "compileSplitPolicy p ctx = compile_exclude p ctx"
    using assms(2) by (auto simp: compileSplitPolicy_def)
  show ?thesis unfolding c compile_exclude_def b(1) using t b(3) fam area by auto
qed

text \<open>The compiler never fails on a policy whose prefixes parse.\<close>

lemma compile_total: "policy_wf p \<Longrightarrow> \<exists>co. compileSplitPolicy p ctx = Inr co"
  using compile_include_exact [of p ctx] compile_exclude_exact [of p ctx]
  by (cases "po_mode p"; cases "po_lanBypass p") (auto simp: compileSplitPolicy_def)

text \<open>An endpoint of the session is in no rule's prefix, whatever the rules say.\<close>

lemma endpoint_kept_out:
  assumes "ep \<in> set (cc_endpointIps ctx)" and "parseCidr ep = Some e"
  shows "c_net e \<notin> routes (c_family e) (rule_cidrs p ctx)"
proof
  assume "c_net e \<in> routes (c_family e) (rule_cidrs p ctx)"
  then obtain s c where s: "s \<in> set (rule_cidrs p ctx)" "parseCidr s = Some c" "c_family c = c_family e"
    "c_net e \<in> cpts c" by (auto simp: routes_def split: if_splits)
  then have "endpoint_in c ep" using assms(2) by (simp add: endpoint_in_def cpts_def pts_def)
  then have "containsAnyEndpoint s (cc_endpointIps ctx)"
    using s(2) assms(1) by (auto simp: containsAnyEndpoint_def list_ex_iff)
  with s(1) show False by (simp add: rule_cidrs_def)
qed

section \<open>Normalised rules\<close>

lemma normalizeCidr_canonical:
  assumes "normalizeCidrValue raw eps = Inr v"
  shows "\<exists>c. parseCidr raw = Some c \<and> parseCidr v = Some c \<and> v = formatCidr c \<and> c_prefix c \<noteq> 0"
  using assms parse_format_cidr parseCidr_ok
  by (auto simp: normalizeCidrValue_def split: option.splits if_splits)

lemma normalizeCidr_idem:
  assumes "normalizeCidrValue raw eps = Inr v"
  shows "normalizeCidrValue v eps = Inr v"
proof -
  from normalizeCidr_canonical [OF assms] obtain c where
    "parseCidr raw = Some c" "parseCidr v = Some c" "v = formatCidr c" by blast
  with assms show ?thesis by (simp add: normalizeCidrValue_def split: if_splits)
qed

lemma normalizeSplitRule_Inr:
  assumes "normalizeSplitRule j eps = Inr r"
  shows "(sr_kind r = Cidr_rule \<longrightarrow> (\<exists>raw. normalizeCidrValue raw eps = Inr (sr_value r)))
    \<and> (sr_kind r = Domain_rule \<longrightarrow> (\<exists>raw. normalizeDomainValue raw = Inr (sr_value r)))
    \<and> (sr_kind r = App_rule \<longrightarrow> (\<exists>p\<in>set SPLIT_PLATFORMS. sr_platform r = Some p) \<and> sr_value r \<noteq> [])"
  using assms
  by (auto simp: normalizeSplitRule_def normalizeAppValue_def platform_known_def Let_def
      split: if_splits option.splits json.splits rule_kind.splits sum.splits)

lemma normalize_all_Inr: "normalize_all js = Inr rs \<Longrightarrow> r \<in> set rs \<Longrightarrow> \<exists>j\<in>set js. normalizeSplitRule j [] = Inr r"
  by (induction js arbitrary: rs) (auto split: sum.splits)

lemma normalize_all_Inl: "(\<exists>j\<in>set js. \<exists>e. normalizeSplitRule j [] = Inl e) \<Longrightarrow> \<exists>e. normalize_all js = Inl e"
proof (induction js)
  case (Cons a js)
  then show ?case by (cases "normalizeSplitRule a []"; cases "normalize_all js") auto
qed simp

text \<open>The load is fail-closed: one bad rule and the policy is the empty one, the full tunnel.\<close>

lemma sanitize_fail_closed:
  assumes "jget ''rules'' v = Some (J_arr js)" and "j \<in> set js" and "normalizeSplitRule j [] = Inl e"
  shows "sanitizeSplitPolicy v = EMPTY_POLICY"
proof -
  from assms normalize_all_Inl [of js] obtain e' where "normalize_all js = Inl e'" by blast
  with assms(1) show ?thesis
    by (simp add: sanitizeSplitPolicy_def split: option.split json.split)
qed

lemma sanitize_rules:
  "r \<in> set (po_rules (sanitizeSplitPolicy v)) \<Longrightarrow> \<exists>j. normalizeSplitRule j [] = Inr r"
  by (auto simp: sanitizeSplitPolicy_def EMPTY_POLICY_def
      split: if_splits option.splits json.splits sum.splits dest: normalize_all_Inr)

lemma sanitize_wf: "policy_wf (sanitizeSplitPolicy v)"
  unfolding policy_wf_def cidr_text_def
proof (intro ballI impI)
  fix r
  assume "r \<in> set (po_rules (sanitizeSplitPolicy v))" and k: "sr_kind r = Cidr_rule"
  from sanitize_rules [OF this(1)] obtain j where "normalizeSplitRule j [] = Inr r" by blast
  from normalizeSplitRule_Inr [OF this] k obtain raw where "normalizeCidrValue raw [] = Inr (sr_value r)" by blast
  from normalizeCidr_canonical [OF this] show "parseCidr (sr_value r) \<noteq> None" by auto
qed

section \<open>A stored policy is loaded unchanged\<close>

lemma label_char: "label_edge c \<or> c = CHR ''-'' \<Longrightarrow>
    printable c \<and> \<not> is_space c \<and> lower_latin1 c = c \<and> c \<noteq> CHR ''.'' \<and> c \<noteq> CHR ''*'' \<and> c \<noteq> CHR '':''"
  by (auto simp: label_edge_def printable_def is_space_def lower_latin1_def is_upper_def is_lower_def
      is_digit_def Let_def)

lemma label_ok_chars: "label_ok w \<Longrightarrow> c \<in> set w \<Longrightarrow> label_edge c \<or> c = CHR ''-''"
  by (auto simp: label_ok_def list_all_iff)

lemma last_join: "ws \<noteq> [] \<Longrightarrow> last ws \<noteq> [] \<Longrightarrow> last (join sep ws) = last (last ws) \<and> join sep ws \<noteq> []"
  by (induction sep ws rule: join.induct) auto

lemma hd_join: "ws \<noteq> [] \<Longrightarrow> hd ws \<noteq> [] \<Longrightarrow> hd (join sep ws) = hd (hd ws) \<and> join sep ws \<noteq> []"
  by (cases "(sep, ws)" rule: join.cases) auto

lemma strip_dots_id: "s \<noteq> [] \<Longrightarrow> last s \<noteq> CHR ''.'' \<Longrightarrow> strip_dots s = s"
  by (cases s rule: rev_cases) (auto simp: strip_dots_def)

lemma not_ip_if: "w \<in> set (split_on CHR ''.'' v) \<Longrightarrow> \<not> list_all is_digit w \<Longrightarrow> parseIpv4 v = None"
proof -
  assume w: "w \<in> set (split_on CHR ''.'' v)" "\<not> list_all is_digit w"
  have "parse_octets ps acc = None" if "w \<in> set ps" for ps acc
    using that w(2) by (induction ps arbitrary: acc) (auto simp: decimal_field_def Let_def)
  with w show ?thesis by (simp add: parseIpv4_def Let_def)
qed

lemma normalizeDomain_labels:
  assumes "normalizeDomainValue raw = Inr v"
  obtains ls wild where "v = (if wild then ''*.'' else []) @ join ''.'' ls" and "list_all label_ok ls"
    and "2 \<le> length ls" and "length (join ''.'' ls) \<le> 253" and "parseIpv4 (join ''.'' ls) = None"
proof -
  define v0 where "v0 = strip_dots (map lower_latin1 (trim raw))"
  define w where "w = starts_with ''*.'' v0"
  define u where "u = (if w then drop 2 v0 else v0)"
  define ls where "ls = map ascii_label (split_on CHR ''.'' u)"
  have eq: "normalizeDomainValue raw =
      (if u = [] \<or> CHR ''*'' \<in> set u then Inl Not_a_domain
       else if isIpLiteral u then Inl Ip_as_domain
       else if \<not> list_all label_ok ls then Inl Not_a_domain
       else if length ls < 2 then Inl Bare_tld
       else if 253 < length (join ''.'' ls) then Inl Domain_too_long
       else Inr ((if w then ''*.'' else []) @ join ''.'' ls))"
    unfolding normalizeDomainValue_def Let_def v0_def w_def u_def ls_def by (rule refl)
  have n: "\<not> isIpLiteral u" "list_all label_ok ls" "2 \<le> length ls" "length (join ''.'' ls) \<le> 253"
    "v = (if w then ''*.'' else []) @ join ''.'' ls"
    using assms unfolding eq by (simp_all split: if_split_asm)
  have no_dot: "CHR ''.'' \<notin> set x" if "x \<in> set ls" for x
    using that n(2) label_ok_chars [of x "CHR ''.''"] label_char [of "CHR ''.''"] by (auto simp: list_all_iff)
  have split: "split_on CHR ''.'' (join ''.'' ls) = ls"
    using no_dot n(3) by (intro split_on_join) auto
  have "parseIpv4 (join ''.'' ls) = None"
  proof (cases "\<forall>l\<in>set (split_on CHR ''.'' u). list_all printable l")
    case True
    then have "ls = split_on CHR ''.'' u" unfolding ls_def by (intro map_idI) (simp add: ascii_label_def)
    then have "join ''.'' ls = u" by (simp add: join_split_on)
    then show ?thesis using n(1) by (simp add: isIpLiteral_def)
  next
    case False
    then obtain l where l: "l \<in> set (split_on CHR ''.'' u)" "\<not> list_all printable l" by blast
    then have a: "ascii_label l = ''xn--'' @ punycodeEncode l" by (simp add: ascii_label_def)
    have "ascii_label l \<in> set ls" unfolding ls_def using l(1) by simp
    then have "ascii_label l \<in> set (split_on CHR ''.'' (join ''.'' ls))" unfolding split .
    moreover have "\<not> list_all is_digit (ascii_label l)" unfolding a by (simp add: is_digit_def)
    ultimately show ?thesis by (rule not_ip_if)
  qed
  with n show ?thesis by (intro that [of w ls])
qed

lemma normalizeDomain_idem:
  assumes "normalizeDomainValue raw = Inr v"
  shows "normalizeDomainValue v = Inr v"
proof -
  obtain ls wild where v: "v = (if wild then ''*.'' else []) @ join ''.'' ls" and ls: "list_all label_ok ls"
    "2 \<le> length ls" "length (join ''.'' ls) \<le> 253" "parseIpv4 (join ''.'' ls) = None"
    by (rule normalizeDomain_labels [OF assms])
  define j where "j = join ''.'' ls"
  have "ls \<noteq> []" using ls(2) by auto
  then have "label_ok (hd ls)" "label_ok (last ls)" using ls(1) by (simp_all add: list_all_iff)
  with \<open>ls \<noteq> []\<close> have ne: "ls \<noteq> []" "hd ls \<noteq> []" "last ls \<noteq> []" "label_edge (hd (hd ls))" "label_edge (last (last ls))"
    by (simp_all add: label_ok_def)
  have wc: "label_edge c \<or> c = CHR ''-''" if "w \<in> set ls" "c \<in> set w" for w c
    using ls(1) that label_ok_chars [of w c] by (auto simp: list_all_iff)
  have jc: "label_edge c \<or> c = CHR ''-'' \<or> c = CHR ''.''" if "c \<in> set j" for c
  proof -
    from that have "c \<in> {CHR ''.''} \<union> (\<Union>w\<in>set ls. set w)" using set_join [of "''.''" ls] by (auto simp: j_def)
    with wc show ?thesis by blast
  qed
  have "\<not> is_space c \<and> lower_latin1 c = c" if "c \<in> set v" for c
  proof -
    from that jc have "label_edge c \<or> c = CHR ''-'' \<or> c \<in> {CHR ''.'', CHR ''*''}"
      unfolding v j_def [symmetric] by (auto split: if_splits)
    then show ?thesis using label_char [of c]
      by (auto simp: is_space_def lower_latin1_def is_upper_def Let_def)
  qed
  then have t: "trim v = v" "map lower_latin1 v = v" by (auto intro: trim_id map_idI)
  have j: "hd j = hd (hd ls)" "last j = last (last ls)" "j \<noteq> []"
    unfolding j_def using hd_join [of ls] last_join [of ls] ne by auto
  have "last j \<noteq> CHR ''.''" using label_char [of "last j"] ne(5) j(2) by auto
  then have "last v \<noteq> CHR ''.''" "v \<noteq> []" using j(3) unfolding v j_def [symmetric] by auto
  then have s: "strip_dots v = v" by (intro strip_dots_id)
  have star: "CHR ''*'' \<notin> set j" using jc [of "CHR ''*''"] label_char [of "CHR ''*''"] by auto
  have w: "starts_with ''*.'' v = wild"
    using star j(3) unfolding v j_def [symmetric] by (cases j) (auto simp: starts_with_def)
  have drop: "(if wild then drop 2 v else v) = j" unfolding v j_def by simp
  have "CHR ''.'' \<notin> set x" if "x \<in> set ls" for x
    using wc [OF that, of "CHR ''.''"] label_char [of "CHR ''.''"] by blast
  then have split: "split_on CHR ''.'' j = ls" unfolding j_def using ne(1) by (intro split_on_join)
  have "printable c" if "l \<in> set ls" "c \<in> set l" for l c
    using label_char [OF wc [OF that]] by blast
  then have "ascii_label l = l" if "l \<in> set ls" for l
    using that by (simp add: ascii_label_def list_all_iff)
  then have asc: "map ascii_label ls = ls" by (intro map_idI)
  have "CHR '':'' \<notin> set j" using jc [of "CHR '':''"] label_char [of "CHR '':''"] by auto
  then have ip: "\<not> isIpLiteral j" using ls(4) by (simp add: isIpLiteral_def parseIpv6_def j_def)
  have "normalizeDomainValue v =
      (if j = [] \<or> CHR ''*'' \<in> set j then Inl Not_a_domain
       else if isIpLiteral j then Inl Ip_as_domain
       else if \<not> list_all label_ok ls then Inl Not_a_domain
       else if length ls < 2 then Inl Bare_tld
       else if 253 < length j then Inl Domain_too_long
       else Inr ((if wild then ''*.'' else []) @ j))"
    unfolding normalizeDomainValue_def Let_def t s w drop split asc
    unfolding j_def by (rule refl)
  also have "\<dots> = Inr v" using j(3) star ip ls unfolding v j_def [symmetric] by simp
  finally show ?thesis .
qed

lemma normalizeApp_idem:
  assumes "normalizeAppValue raw p = Inr v" and "p' \<noteq> None"
  shows "normalizeAppValue v p' = Inr v"
  using assms by (auto simp: normalizeAppValue_def Let_def trim_trim split: if_splits)

text \<open>What is written to disk: the object \<open>JSON.stringify\<close> makes of a rule and of a policy.\<close>

definition rule_json :: "split_rule \<Rightarrow> json" where
  "rule_json r = J_obj
     ([(''kind'', J_str (case sr_kind r of App_rule \<Rightarrow> ''app'' | Domain_rule \<Rightarrow> ''domain'' | Cidr_rule \<Rightarrow> ''cidr'')),
       (''value'', J_str (sr_value r))]
      @ (case sr_label r of None \<Rightarrow> [] | Some l \<Rightarrow> [(''label'', l)])
      @ (case sr_platform r of None \<Rightarrow> [] | Some p \<Rightarrow> [(''platform'', J_str p)])
      @ [(''enabled'', J_bool (sr_enabled r))])"

definition policy_json :: "split_policy \<Rightarrow> json" where
  "policy_json p = J_obj
     [(''version'', J_num 1),
      (''mode'', J_str (case po_mode p of Off \<Rightarrow> ''off'' | Exclude \<Rightarrow> ''exclude'' | Include \<Rightarrow> ''include'')),
      (''rules'', J_arr (map rule_json (po_rules p))),
      (''lanBypass'', J_bool (po_lanBypass p)),
      (''excludedDns'', J_str (case po_excludedDns p of Dns_tunnel \<Rightarrow> ''tunnel'' | Dns_system \<Rightarrow> ''system''))]"

lemma rule_json_get:
  "jget ''kind'' (rule_json r) = Some (J_str (case sr_kind r of App_rule \<Rightarrow> ''app'' | Domain_rule \<Rightarrow> ''domain'' | Cidr_rule \<Rightarrow> ''cidr''))"
  "jget ''value'' (rule_json r) = Some (J_str (sr_value r))"
  "jget ''label'' (rule_json r) = sr_label r"
  "jget ''platform'' (rule_json r) = map_option J_str (sr_platform r)"
  "jget ''enabled'' (rule_json r) = Some (J_bool (sr_enabled r))"
  by (auto simp: rule_json_def split: option.split)

lemma rule_kind_of_json:
  "rule_kind_of (Some (J_str (case k of App_rule \<Rightarrow> ''app'' | Domain_rule \<Rightarrow> ''domain'' | Cidr_rule \<Rightarrow> ''cidr''))) = Some k"
  by (cases k) (simp_all add: rule_kind_of_def)

definition rule_normal :: "split_rule \<Rightarrow> bool" where
  "rule_normal r \<longleftrightarrow> (case sr_kind r of
     Cidr_rule \<Rightarrow> normalizeCidrValue (sr_value r) [] = Inr (sr_value r) \<and> sr_platform r = None
   | Domain_rule \<Rightarrow> normalizeDomainValue (sr_value r) = Inr (sr_value r) \<and> sr_platform r = None
   | App_rule \<Rightarrow> normalizeAppValue (sr_value r) (Some J_null) = Inr (sr_value r)
       \<and> (\<exists>p\<in>set SPLIT_PLATFORMS. sr_platform r = Some p))"

lemma normalized_normal:
  assumes "normalizeSplitRule j [] = Inr r"
  shows "rule_normal r"
proof -
  obtain kind raw where k: "rule_kind_of (jget ''kind'' j) = Some kind" "jget ''value'' j = Some (J_str raw)"
    using assms by (auto simp: normalizeSplitRule_def split: if_splits option.splits json.splits)
  show ?thesis
  proof (cases kind)
    case Cidr_rule
    then show ?thesis using assms k
      by (auto simp: normalizeSplitRule_def rule_normal_def split: if_splits sum.splits intro: normalizeCidr_idem)
  next
    case Domain_rule
    then show ?thesis using assms k
      by (auto simp: normalizeSplitRule_def rule_normal_def split: if_splits sum.splits intro: normalizeDomain_idem)
  next
    case App_rule
    obtain p where p: "jget ''platform'' j = Some p"
      using assms k App_rule by (cases "jget ''platform'' j")
        (auto simp: normalizeSplitRule_def normalizeAppValue_def Let_def split: if_splits)
    then obtain q where "p = J_str q" "q \<in> set SPLIT_PLATFORMS"
      using assms k App_rule by (auto simp: normalizeSplitRule_def platform_known_def split: if_splits json.splits)
    then show ?thesis using assms k App_rule p
      by (auto simp: normalizeSplitRule_def rule_normal_def split: if_splits sum.splits
          intro: normalizeApp_idem [where p' = "Some J_null", simplified])
  qed
qed

lemma normal_roundtrip:
  assumes "rule_normal r"
  shows "normalizeSplitRule (rule_json r) [] = Inr r"
proof (cases "sr_kind r")
  case App_rule
  then obtain p where p: "sr_platform r = Some p" "p \<in> set SPLIT_PLATFORMS"
    and n: "normalizeAppValue (sr_value r) (Some J_null) = Inr (sr_value r)"
    using assms by (auto simp: rule_normal_def)
  from n have "normalizeAppValue (sr_value r) (Some (J_str p)) = Inr (sr_value r)"
    by (rule normalizeApp_idem) simp
  moreover have "rule_json r \<noteq> J_null" by (simp add: rule_json_def)
  ultimately show ?thesis using App_rule p
    by (simp add: normalizeSplitRule_def rule_json_get rule_kind_of_json [of App_rule, simplified] platform_known_def)
next
  case Domain_rule
  moreover have "rule_json r \<noteq> J_null" by (simp add: rule_json_def)
  ultimately show ?thesis using assms
    by (simp add: normalizeSplitRule_def rule_json_get rule_kind_of_json [of Domain_rule, simplified] rule_normal_def)
next
  case Cidr_rule
  moreover have "rule_json r \<noteq> J_null" by (simp add: rule_json_def)
  ultimately show ?thesis using assms
    by (simp add: normalizeSplitRule_def rule_json_get rule_kind_of_json [of Cidr_rule, simplified] rule_normal_def)
qed

lemma normalize_all_roundtrip:
  "\<forall>r\<in>set rs. rule_normal r \<Longrightarrow> normalize_all (map rule_json rs) = Inr rs"
  by (induction rs) (auto simp: normal_roundtrip)

lemma sanitize_roundtrip:
  assumes "\<forall>r\<in>set (po_rules p). rule_normal r"
  shows "sanitizeSplitPolicy (policy_json p) = p"
proof -
  have "mode_of (jget ''mode'' (policy_json p)) = Some (po_mode p)"
    by (simp add: policy_json_def mode_of_def split: split_mode.split)
  moreover have "dns_of (jget ''excludedDns'' (policy_json p)) = Some (po_excludedDns p)"
    by (simp add: policy_json_def dns_of_def split: excluded_dns.split)
  moreover have "jget ''version'' (policy_json p) = Some (J_num 1)"
    "jget ''lanBypass'' (policy_json p) = Some (J_bool (po_lanBypass p))"
    "jget ''rules'' (policy_json p) = Some (J_arr (map rule_json (po_rules p)))"
    by (simp_all add: policy_json_def)
  ultimately show ?thesis using normalize_all_roundtrip [OF assms] by (simp add: sanitizeSplitPolicy_def)
qed

lemma sanitize_stable: "sanitizeSplitPolicy (policy_json (sanitizeSplitPolicy v)) = sanitizeSplitPolicy v"
  by (intro sanitize_roundtrip ballI) (auto dest: sanitize_rules intro: normalized_normal)

end
