(* ===== verification/ClientProperties.thy ===== *)
theory ClientProperties
  imports Split
begin

text \<open>
  The properties of the client core: what a split-tunnelling policy routes, how a stored policy
  is loaded, and the texts of addresses and domains.
\<close>

section \<open>Example policies\<close>

definition ex_ctx :: "bool \<Rightarrow> compile_ctx" where
  "ex_ctx ex = \<lparr>cc_platform = ''linux'', cc_supportsExcludeRoute = ex, cc_endpointIps = [''198.51.100.7'']\<rparr>"

definition ex_rule :: "string \<Rightarrow> split_rule" where
  "ex_rule s = \<lparr>sr_kind = Cidr_rule, sr_value = s, sr_label = None, sr_platform = None, sr_enabled = True\<rparr>"

definition ex_policy :: "split_mode \<Rightarrow> split_policy" where
  "ex_policy m = \<lparr>po_mode = m, po_rules = [ex_rule ''192.0.2.0/24''], po_lanBypass = False, po_excludedDns = Dns_tunnel\<rparr>"

lemma ex_policy_wf: "policy_wf (ex_policy m)"
  by (simp add: policy_wf_def ex_policy_def ex_rule_def cidr_text_def cidr_eval)

section \<open>Routes\<close>

text \<open>
  C22. Whatever is stored as the policy, loading and compiling it yields a routing: the tunnel
  never fails to start for a policy.
\<close>

theorem any_stored_policy_compiles: "\<exists>co. compileSplitPolicy (sanitizeSplitPolicy v) ctx = Inr co"
  by (rule compile_total [OF sanitize_wf])

text \<open>
  C23. In \<open>exclude\<close> mode, and when only the LAN bypasses, exactly the addresses of the rules and
  of the LAN leave the tunnel; where the platform cannot exclude routes, the tunnel routes are
  exactly all the others.
\<close>

theorem exclude_routes_exactly:
  assumes "policy_wf p" and "po_mode p = Exclude \<or> po_mode p = Off \<and> po_lanBypass p"
  shows "\<exists>co. compileSplitPolicy p ctx = Inr co
    \<and> (\<forall>f. routes f (co_bypassRoutes co) = (if cc_supportsExcludeRoute ctx then bypass_area f p ctx else {})
         \<and> routes f (co_tunnelRoutes co)
             = (if cc_supportsExcludeRoute ctx then {} else all_addrs f - bypass_area f p ctx))"
  using assms by (rule compile_exclude_exact)

lemma ex_rules: "rule_cidrs (ex_policy m) (ex_ctx b) = [''192.0.2.0/24'']"
  by code_simp

lemma ex_area: "0xC0000205 \<in> routes V4 [''192.0.2.0/24'']" "0xC0000305 \<notin> routes V4 [''192.0.2.0/24'']"
  by (simp_all add: routes_def cidr_eval cpts_eq)

theorem exclude_routes_exactly_witness:
  "\<exists>co. compileSplitPolicy (ex_policy Exclude) (ex_ctx False) = Inr co
    \<and> 0xC0000205 \<notin> routes V4 (co_tunnelRoutes co) \<and> 0xC0000305 \<in> routes V4 (co_tunnelRoutes co)"
proof -
  have "bypass_area V4 (ex_policy Exclude) (ex_ctx False) = routes V4 [''192.0.2.0/24'']"
    unfolding bypass_area_def ex_rules by (simp add: ex_policy_def lan_routes_def)
  with exclude_routes_exactly [OF ex_policy_wf, of Exclude "ex_ctx False"] ex_area show ?thesis
    by (auto simp: ex_policy_def ex_ctx_def all_addrs_def familyBits_def)
qed

text \<open>
  C24. In \<open>include\<close> mode exactly the addresses of the rules enter the tunnel, less those of the
  LAN when the LAN bypasses it.
\<close>

theorem include_routes_exactly:
  assumes "policy_wf p" and "po_mode p = Include"
  shows "\<exists>co. compileSplitPolicy p ctx = Inr co \<and> co_bypassRoutes co = []
    \<and> (\<forall>f. routes f (co_tunnelRoutes co) = routes f (rule_cidrs p ctx) - lan_routes f p)"
  using assms by (rule compile_include_exact)

theorem include_routes_exactly_witness:
  "\<exists>co. compileSplitPolicy (ex_policy Include) (ex_ctx True) = Inr co
    \<and> 0xC0000205 \<in> routes V4 (co_tunnelRoutes co) \<and> 0xC0000305 \<notin> routes V4 (co_tunnelRoutes co)"
proof -
  have "po_mode (ex_policy Include) = Include" by (simp add: ex_policy_def)
  from include_routes_exactly [OF ex_policy_wf this, of "ex_ctx True"] ex_area show ?thesis
    unfolding ex_rules by (auto simp: ex_policy_def lan_routes_def)
qed

text \<open>
  C25. The routes computed for the rest of the address space are the fewest there are: no list
  of prefixes covers exactly those addresses with fewer.
\<close>

theorem complement_is_shortest:
  assumes "complementRoutes excluded [f] = Inr out"
    and "\<forall>s\<in>set rs. \<exists>c. parseCidr s = Some c \<and> c_family c = f"
    and "routes f rs = all_addrs f - routes f excluded"
  shows "length out \<le> length rs"
  using assms by (rule complement_minimal)

theorem complement_is_shortest_witness:
  "\<exists>out. complementRoutes [''0.0.0.0/1''] [V4] = Inr out \<and> length out \<le> 1"
proof -
  obtain out where "complementRoutes [''0.0.0.0/1''] [V4] = Inr out"
    using complement_exact [of "[''0.0.0.0/1'']" "[V4]"] by (auto simp: cidr_text_def cidr_eval)
  moreover have "\<forall>s\<in>set [''128.0.0.0/1'']. \<exists>c. parseCidr s = Some c \<and> c_family c = V4"
    by (simp add: cidr_eval)
  moreover have "routes V4 [''128.0.0.0/1''] = all_addrs V4 - routes V4 [''0.0.0.0/1'']"
    by (auto simp: routes_def cidr_eval cpts_eq all_addrs_def)
  ultimately show ?thesis using complement_is_shortest [of "[''0.0.0.0/1'']" V4 out "[''128.0.0.0/1'']"] by auto
qed



section \<open>The stored policy\<close>

text \<open>
  C27. A policy one rule of which is bad is dropped as a whole, and the full tunnel is used: a
  load never keeps the rules around a bad one.
\<close>

theorem bad_rule_drops_the_policy:
  assumes "jget ''rules'' v = Some (J_arr js)" and "j \<in> set js" and "normalizeSplitRule j [] = Inl e"
  shows "sanitizeSplitPolicy v = EMPTY_POLICY \<and> compileSplitPolicy (sanitizeSplitPolicy v) ctx = Inr NOOP_SPLIT"
  using sanitize_fail_closed [OF assms] by (simp add: compileSplitPolicy_def EMPTY_POLICY_def)

theorem bad_rule_drops_the_policy_witness:
  "sanitizeSplitPolicy (J_obj [(''version'', J_num 1), (''mode'', J_str ''include''),
     (''rules'', J_arr [J_obj [(''kind'', J_str ''cidr''), (''value'', J_str ''0.0.0.0/0'')]])]) = EMPTY_POLICY"
proof -
  have "normalizeSplitRule (J_obj [(''kind'', J_str ''cidr''), (''value'', J_str ''0.0.0.0/0'')]) [] = Inl Whole_internet"
    by (simp add: normalizeSplitRule_def rule_kind_of_def normalizeCidrValue_def cidr_eval platform_known_def)
  from bad_rule_drops_the_policy [OF _ _ this] show ?thesis by simp
qed

text \<open>
  Loading normalises once and for all: a loaded policy that is stored and loaded again is
  the same.
\<close>

theorem stored_policy_reloads: "sanitizeSplitPolicy (policy_json (sanitizeSplitPolicy v)) = sanitizeSplitPolicy v"
  by (rule sanitize_stable)

section \<open>Texts\<close>

text \<open>
  A prefix that is printed, with the zero run of an IPv6 address compressed, reads back as
  the same prefix.
\<close>

theorem printed_prefix_reads_back:
  assumes "cidr_ok c"
  shows "parseCidr (formatCidr c) = Some c"
  using assms by (rule parse_format_cidr)

theorem printed_prefix_reads_back_witness:
  "parseCidr (formatCidr \<lparr>c_family = V6, c_net = 0x20010db8 * 2 ^ 96, c_prefix = 32\<rparr>)
    = Some \<lparr>c_family = V6, c_net = 0x20010db8 * 2 ^ 96, c_prefix = 32\<rparr>"
proof (rule printed_prefix_reads_back)
  have "(2 :: int) ^ 96 dvd 0x20010db8 * 2 ^ 96" by simp
  then show "cidr_ok \<lparr>c_family = V6, c_net = 0x20010db8 * 2 ^ 96, c_prefix = 32\<rparr>"
    by (simp add: cidr_ok_def familyBits_def)
qed

text \<open>
  A domain the editor accepts is a fixed point: what is stored is accepted again, as itself.
\<close>

theorem accepted_domain_is_stable:
  assumes "normalizeDomainValue raw = Inr v"
  shows "normalizeDomainValue v = Inr v"
  using assms by (rule normalizeDomain_idem)

theorem accepted_domain_is_stable_witness: "normalizeDomainValue ''example.com'' = Inr ''example.com''"
proof -
  have "map lower_latin1 (trim ''Example.com.'') = ''example.com.''" "strip_dots ''example.com.'' = ''example.com''"
    by code_simp+
  moreover have "\<not> isIpLiteral ''example.com''" by (simp add: isIpLiteral_def cidr_eval)
  moreover have "split_on CHR ''.'' ''example.com'' = [''example'', ''com'']" "ascii_label ''example'' = ''example''"
    "ascii_label ''com'' = ''com''" "label_ok ''example''" "label_ok ''com''" "join ''.'' [''example'', ''com''] = ''example.com''"
    by code_simp+
  ultimately have "normalizeDomainValue ''Example.com.'' = Inr ''example.com''"
    by (simp add: normalizeDomainValue_def starts_with_def Let_def)
  then show ?thesis by (rule accepted_domain_is_stable)
qed

end
