(* ===== verification/Codes.thy ===== *)
theory Codes
  imports JsString "HOL-Library.Word"
begin

text \<open>
  Payment codes in the bridge (bridge/src/codes.ts). The base58 decoder (@scure/base) and
  SHA-256 (@noble/hashes) are third-party: \<open>b58\<close> is the decoder, \<open>None\<close> where it throws,
  and \<open>sha\<close> the digest. What is relied on is only that a digest has 32 bytes.
\<close>

unbundle bit_operations_syntax

type_synonym u8 = "8 word"
type_synonym bytes = "u8 list"

section \<open>Validation and the memo\<close>

definition MEMO_PREFIX :: string where
  "MEMO_PREFIX = ''CVPN1:''"

definition APP_ACCOUNT_DOMAIN :: string where
  "APP_ACCOUNT_DOMAIN = ''cvpn-appaccount:''"

definition isValidPaymentCode :: "(string \<Rightarrow> bytes option) \<Rightarrow> string \<Rightarrow> bool" where
  "isValidPaymentCode b58 code =
     (if length code < 20 \<or> 40 < length code then False
      else (case b58 code of None \<Rightarrow> False | Some b \<Rightarrow> length b = 20))"

text \<open>\<open>None\<close> is the \<open>Error\<close> the source throws.\<close>

definition memoForCode :: "(string \<Rightarrow> bytes option) \<Rightarrow> string \<Rightarrow> string option" where
  "memoForCode b58 code =
     (if \<not> isValidPaymentCode b58 code then None else Some (MEMO_PREFIX @ code))"

section \<open>The Apple account token of a code\<close>

text \<open>\<open>TextEncoder\<close>: a code unit below 128 is one byte, one below 256 two.\<close>

definition utf8_char :: "char \<Rightarrow> bytes" where
  "utf8_char c =
     (let n = of_char c :: nat
      in if n < 128 then [of_nat n] else [of_nat (192 + n div 64), of_nat (128 + n mod 64)])"

definition utf8 :: "string \<Rightarrow> bytes" where
  "utf8 s = concat (map utf8_char s)"

definition hex_byte :: "u8 \<Rightarrow> string" where
  "hex_byte x = (let h = show_base 16 (unat x) in replicate (2 - length h) CHR ''0'' @ h)"

definition slice :: "nat \<Rightarrow> nat \<Rightarrow> 'a list \<Rightarrow> 'a list" where
  "slice i j xs = take (j - i) (drop i xs)"

definition uuid_of_hex :: "string \<Rightarrow> string" where
  "uuid_of_hex h =
     slice 0 8 h @ ''-'' @ slice 8 12 h @ ''-'' @ slice 12 16 h @ ''-'' @ slice 16 20 h
       @ ''-'' @ drop 20 h"

definition uuidForCode :: "(bytes \<Rightarrow> bytes) \<Rightarrow> string \<Rightarrow> string" where
  "uuidForCode sha code =
     (let digest = sha (utf8 (APP_ACCOUNT_DOMAIN @ code));
          b0 = take 16 digest;
          b1 = b0[6 := (b0 ! 6 AND 0x0f) OR 0x40];
          b = b1[8 := (b1 ! 8 AND 0x3f) OR 0x80]
      in uuid_of_hex (concat (map hex_byte b)))"

section \<open>Facts\<close>

lemma memoForCode_Some: "memoForCode b58 code = Some m \<longleftrightarrow> isValidPaymentCode b58 code \<and> m = MEMO_PREFIX @ code"
  by (auto simp: memoForCode_def)

lemma length_hex_byte [simp]: "length (hex_byte x) = 2"
proof -
  have "unat x < 16 ^ 2" using unsigned_less [of x] by simp
  then have "length (show_base 16 (unat x)) \<le> 2" by (intro show_base_length) auto
  then show ?thesis by (simp add: hex_byte_def Let_def)
qed

lemma length_concat_hex [simp]: "length (concat (map hex_byte bs)) = 2 * length bs"
  by (induction bs) auto

lemma hex_byte_hex: "c \<in> set (hex_byte x) \<Longrightarrow> is_hex_digit c"
  by (auto simp: hex_byte_def Let_def is_hex_digit_def is_digit_def dest!: show_hex_is_hex split: if_splits)

lemma hd_hex_byte: "hd (hex_byte x) = digit_char (unat x div 16)"
proof (cases "unat x < 16")
  case True
  moreover have "digit_char 0 = CHR ''0''" by code_simp
  ultimately show ?thesis by (simp add: hex_byte_def Let_def show_base.simps)
next
  case False
  have "unat x < 256" using unsigned_less [of x] by simp
  then have "unat x div 16 < 16" by (simp add: less_mult_imp_div_less)
  then have "show_base 16 (unat x) = [digit_char (unat x div 16), digit_char (unat x mod 16)]"
    using False by (simp add: show_base.simps)
  then show ?thesis by (simp add: hex_byte_def Let_def)
qed

lemma concat_hex_nth_even:
  "i < length bs \<Longrightarrow> concat (map hex_byte bs) ! (2 * i) = hd (hex_byte (bs ! i))"
proof (induction bs arbitrary: i)
  case (Cons b bs)
  have "hex_byte b \<noteq> []" using length_hex_byte [of b] by (metis list.size(3) zero_neq_numeral)
  with Cons show ?case
    by (cases i) (auto simp: nth_append hd_conv_nth)
qed simp

text \<open>Forcing the version and variant bits of a byte.\<close>

lemma version_nibble: "unat ((x AND 0x0f) OR 0x40 :: u8) div 16 = 4"
proof -
  have "(x AND 0x0f) OR 0x40 = 0x40 + (x AND 0x0f :: u8)"
    using disjunctive_add_eq_or [of "x AND 0x0f" "0x40"] by (simp add: and.assoc add.commute)
  moreover have "unat (x AND 0x0f :: u8) \<le> 15"
    using word_and_le1 [of x 15] by (simp add: word_le_nat_alt)
  ultimately show ?thesis by (simp add: unat_plus_if')
qed

lemma variant_nibble: "unat ((x AND 0x3f) OR 0x80 :: u8) div 16 \<in> {8, 9, 10, 11}"
proof -
  have "(x AND 0x3f) OR 0x80 = 0x80 + (x AND 0x3f :: u8)"
    using disjunctive_add_eq_or [of "x AND 0x3f" "0x80"] by (simp add: and.assoc add.commute)
  moreover have "unat (x AND 0x3f :: u8) \<le> 63"
    using word_and_le1 [of x 63] by (simp add: word_le_nat_alt)
  ultimately have "unat ((x AND 0x3f) OR 0x80 :: u8) = 128 + unat (x AND 0x3f :: u8)"
    "unat (x AND 0x3f :: u8) \<le> 63" by (simp_all add: unat_plus_if')
  then show ?thesis by auto
qed

end
