(* ===== verification/Price.thy ===== *)
theory Price
  imports JsString
begin

text \<open>
  The FLUX price schedule (bridge/src/price.ts). A schedule is the list of its entries, in
  order; the constructor is private in the source, so every schedule comes from
  \<open>flat\<close> or \<open>parse\<close>, which establish \<open>wf_schedule\<close>. A price is a rational number; the
  heights are integers.

  The lemmas give the two lookups the meaning their comments claim: the effective price is
  the least price in force in the grace window, and the maximum over a range of heights,
  which the code computes from the boundaries only, is the maximum over every height.
\<close>

section \<open>Data\<close>

record price_entry =
  pe_from :: int
  pe_flux :: rat

type_synonym schedule = "price_entry list"

definition GRACE_BLOCKS :: int where
  "GRACE_BLOCKS = 8640"

definition MAX_ENTRIES :: nat where
  "MAX_ENTRIES = 256"

definition MAX_SAFE_INTEGER :: nat where
  "MAX_SAFE_INTEGER = 2 ^ 53 - 1"

datatype price_error =
    Empty_schedule
  | Too_many_entries nat
  | Bad_price nat string
  | Bad_height nat string
  | Needs_height nat string
  | First_not_zero string
  | Not_increasing nat string
  | Not_positive

section \<open>Construction\<close>

definition flat :: "rat \<Rightarrow> price_error + schedule" where
  "flat flux =
     (if \<not> 0 < flux then Inl Not_positive
      else Inr [\<lparr>pe_from = 0, pe_flux = flux\<rparr>])"

definition all_digits :: "nat \<Rightarrow> nat \<Rightarrow> string \<Rightarrow> bool" where
  "all_digits lo hi s \<longleftrightarrow> lo \<le> length s \<and> length s \<le> hi \<and> list_all is_digit s"

text \<open>The pattern \<open>d{1,9}(.d{1,8})?\<close> and the number such a string denotes.\<close>

definition parse_flux :: "string \<Rightarrow> rat option" where
  "parse_flux s =
     (if CHR ''.'' \<in> set s then
        (let i = before CHR ''.'' s; f = after CHR ''.'' s in
         if all_digits 1 9 i \<and> all_digits 1 8 f
         then Some (of_nat (read_nat i) + of_nat (read_nat f) / 10 ^ length f) else None)
      else if all_digits 1 9 s then Some (of_nat (read_nat s)) else None)"

definition parse_height :: "string \<Rightarrow> int option" where
  "parse_height s =
     (if all_digits 1 16 s \<and> read_nat s \<le> MAX_SAFE_INTEGER then Some (int (read_nat s)) else None)"

text \<open>One round of the loop of \<open>parse\<close>: entry number \<open>i\<close>, after the entry \<open>prev\<close> if any.\<close>

definition parse_entry :: "nat \<Rightarrow> price_entry option \<Rightarrow> string \<Rightarrow> price_error + price_entry" where
  "parse_entry i prev part =
     (let entry = trim part;
          has_at = CHR ''@'' \<in> set entry;
          flux_str = trim (before CHR ''@'' entry)
      in case parse_flux flux_str of
           None \<Rightarrow> Inl (Bad_price (Suc i) entry)
         | Some flux \<Rightarrow>
           (if \<not> 0 < flux then Inl (Bad_price (Suc i) entry)
            else case (if has_at then map_option Inr (parse_height (trim (after CHR ''@'' entry)))
                       else Some (if 0 < i then Inl () else Inr 0)) of
                   None \<Rightarrow> Inl (Bad_height (Suc i) entry)
                 | Some (Inl _) \<Rightarrow> Inl (Needs_height (Suc i) entry)
                 | Some (Inr from) \<Rightarrow>
                   (if i = 0 \<and> from \<noteq> 0 then Inl (First_not_zero entry)
                    else if (case prev of None \<Rightarrow> False | Some p \<Rightarrow> from \<le> pe_from p)
                    then Inl (Not_increasing (Suc i) entry)
                    else Inr \<lparr>pe_from = from, pe_flux = flux\<rparr>)))"

fun parse_entries :: "nat \<Rightarrow> price_entry option \<Rightarrow> string list \<Rightarrow> price_error + schedule" where
  "parse_entries i prev [] = Inr []"
| "parse_entries i prev (part # parts) =
     (case parse_entry i prev part of
        Inl e \<Rightarrow> Inl e
      | Inr x \<Rightarrow> (case parse_entries (Suc i) (Some x) parts of
                   Inl e \<Rightarrow> Inl e
                 | Inr xs \<Rightarrow> Inr (x # xs)))"

definition parse :: "string \<Rightarrow> price_error + schedule" where
  "parse raw =
     (let s = trim raw in
      if s = [] then Inl Empty_schedule
      else let parts = split_on CHR '','' s in
        if MAX_ENTRIES < length parts then Inl (Too_many_entries (length parts))
        else parse_entries 0 None parts)"

section \<open>Printing\<close>

text \<open>\<open>flux.toFixed(8)\<close> with the trailing zeros, and a dot left bare, stripped.\<close>

fun pad_left :: "nat \<Rightarrow> string \<Rightarrow> string" where
  "pad_left n s = replicate (n - length s) CHR ''0'' @ s"

definition strip_zeros :: "string \<Rightarrow> string" where
  "strip_zeros s = rev (dropWhile (\<lambda>c. c = CHR ''0'') (rev s))"

definition formatFlux :: "rat \<Rightarrow> string" where
  "formatFlux flux =
     (let n = math_round (flux * 10 ^ 8);
          ip = show_int (n div 10 ^ 8);
          fp = strip_zeros (pad_left 8 (show_nat (nat (n mod 10 ^ 8))))
      in if fp = [] then ip else ip @ CHR ''.'' # fp)"

definition schedule_toString :: "schedule \<Rightarrow> string" where
  "schedule_toString es =
     join '','' (map (\<lambda>e. formatFlux (pe_flux e) @ CHR ''@'' # show_int (pe_from e)) es)"

section \<open>Lookup\<close>

definition latest :: "schedule \<Rightarrow> rat" where
  "latest es = pe_flux (last es)"

fun index_from :: "schedule \<Rightarrow> int \<Rightarrow> nat \<Rightarrow> nat" where
  "index_from es h 0 = 0"
| "index_from es h (Suc i) = (if h < pe_from (es ! Suc i) then index_from es h i else Suc i)"

definition price_index :: "schedule \<Rightarrow> int \<Rightarrow> nat" where
  "price_index es h = index_from es h (length es - 1)"

definition price_at :: "schedule \<Rightarrow> int \<Rightarrow> rat" where
  "price_at es h = pe_flux (es ! price_index es h)"

text \<open>The loop of \<open>effective\<close>: \<open>j\<close> counts the entries below the current one still to visit.\<close>

fun grace_loop :: "schedule \<Rightarrow> int \<Rightarrow> rat \<Rightarrow> nat \<Rightarrow> rat" where
  "grace_loop es lo p 0 = p"
| "grace_loop es lo p (Suc j) =
     (if lo < pe_from (es ! Suc j) then grace_loop es lo (min p (pe_flux (es ! j))) j else p)"

definition effective :: "schedule \<Rightarrow> int \<Rightarrow> rat" where
  "effective es h =
     (let i = price_index es h in grace_loop es (h - GRACE_BLOCKS) (pe_flux (es ! i)) i)"

definition boundaries :: "price_entry \<Rightarrow> int list" where
  "boundaries e = [pe_from e, pe_from e + GRACE_BLOCKS]"

definition maxEffective :: "schedule \<Rightarrow> int \<Rightarrow> int \<Rightarrow> rat" where
  "maxEffective es lo hi =
     fold (\<lambda>b p. if lo < b \<and> b \<le> hi then max p (effective es b) else p)
       (concat (map boundaries es)) (effective es lo)"

definition fluxToZats :: "rat \<Rightarrow> zats" where
  "fluxToZats flux = math_round (flux * 10 ^ 8)"

section \<open>Well-formed schedules\<close>

definition wf_schedule :: "schedule \<Rightarrow> bool" where
  "wf_schedule es \<longleftrightarrow>
     es \<noteq> [] \<and> pe_from (hd es) = 0 \<and> sorted_wrt (<) (map pe_from es) \<and> (\<forall>e\<in>set es. 0 < pe_flux e)"

lemma wf_schedule_increasing:
  "wf_schedule es \<Longrightarrow> i < j \<Longrightarrow> j < length es \<Longrightarrow> pe_from (es ! i) < pe_from (es ! j)"
  by (auto simp: wf_schedule_def sorted_wrt_iff_nth_less)

lemma flat_wf: "flat f = Inr es \<Longrightarrow> wf_schedule es"
  by (auto simp: flat_def wf_schedule_def split: if_splits)

lemma parse_entry_ok:
  assumes "parse_entry i prev part = Inr x"
  shows "0 < pe_flux x" and "i = 0 \<Longrightarrow> pe_from x = 0"
    and "prev = Some p \<Longrightarrow> pe_from p < pe_from x"
  using assms by (auto simp: parse_entry_def Let_def split: option.splits if_splits sum.splits)

lemma parse_entries_ok:
  assumes "parse_entries i prev parts = Inr es"
  shows "(\<forall>e\<in>set es. 0 < pe_flux e) \<and> sorted_wrt (<) (map pe_from es)
    \<and> (\<forall>p. prev = Some p \<longrightarrow> (\<forall>e\<in>set es. pe_from p < pe_from e))
    \<and> (i = 0 \<and> es \<noteq> [] \<longrightarrow> pe_from (hd es) = 0) \<and> length es = length parts"
  using assms
proof (induction i prev parts arbitrary: es rule: parse_entries.induct)
  case (2 i prev part parts)
  then obtain x xs where x: "parse_entry i prev part = Inr x"
    and xs: "parse_entries (Suc i) (Some x) parts = Inr xs" and es: "es = x # xs"
    by (auto split: sum.splits)
  from "2.IH" [OF x xs] parse_entry_ok [OF x] es show ?case
    by (force intro: less_trans)
qed simp

lemma parse_wf: "parse raw = Inr es \<Longrightarrow> wf_schedule es"
  using parse_entries_ok [of 0 None "split_on CHR '','' (trim raw)" es]
  by (auto simp: parse_def wf_schedule_def Let_def split: if_splits)

section \<open>The price in force\<close>

lemma index_from_le: "index_from es h n \<le> n"
  by (induction n) auto

lemma index_from_reached: "0 < index_from es h n \<Longrightarrow> pe_from (es ! index_from es h n) \<le> h"
  by (induction n) (auto split: if_splits)

lemma index_from_above: "index_from es h n < k \<Longrightarrow> k \<le> n \<Longrightarrow> h < pe_from (es ! k)"
  by (induction n) (auto simp: le_Suc_eq split: if_splits)

lemma price_index_less: "es \<noteq> [] \<Longrightarrow> price_index es h < length es"
  using index_from_le [of es h "length es - 1"] by (cases es) (auto simp: price_index_def)

lemma price_index_above: "price_index es h < k \<Longrightarrow> k < length es \<Longrightarrow> h < pe_from (es ! k)"
  using index_from_above [of es h "length es - 1" k] by (simp add: price_index_def)

lemma price_index_reached: "0 < price_index es h \<Longrightarrow> pe_from (es ! price_index es h) \<le> h"
  unfolding price_index_def by (rule index_from_reached)

lemma price_index_eqI:
  assumes wf: "wf_schedule es" and k: "k < length es"
    and "0 < k \<Longrightarrow> pe_from (es ! k) \<le> h"
    and "Suc k < length es \<Longrightarrow> h < pe_from (es ! Suc k)"
  shows "price_index es h = k"
proof (rule linorder_cases [of "price_index es h" k])
  assume "price_index es h < k"
  then show ?thesis using price_index_above [of es h k] assms by auto
next
  assume less: "k < price_index es h"
  have "price_index es h < length es" using k price_index_less [of es h] by fastforce
  with less have "pe_from (es ! Suc k) \<le> pe_from (es ! price_index es h)"
    using wf_schedule_increasing [OF wf, of "Suc k" "price_index es h"]
    by (cases "Suc k = price_index es h") auto
  also have "\<dots> \<le> h" using less by (intro price_index_reached) simp
  finally show ?thesis using assms(4) less \<open>price_index es h < length es\<close> by simp
qed simp

lemma price_index_mono:
  assumes "wf_schedule es" and "h \<le> h'"
  shows "price_index es h \<le> price_index es h'"
proof (rule ccontr)
  assume "\<not> ?thesis"
  then have less: "price_index es h' < price_index es h" by simp
  have ne: "es \<noteq> []" using assms by (simp add: wf_schedule_def)
  have "h' < pe_from (es ! price_index es h)"
    using less price_index_less [OF ne] by (intro price_index_above)
  moreover have "pe_from (es ! price_index es h) \<le> h"
    using less by (intro price_index_reached) simp
  ultimately show False using assms by simp
qed

lemma price_at_step:
  assumes wf: "wf_schedule es" and no: "\<forall>e\<in>set es. pe_from e \<noteq> h + 1"
  shows "price_at es (h + 1) = price_at es h"
proof -
  have ne: "es \<noteq> []" using wf by (simp add: wf_schedule_def)
  define k where "k = price_index es h"
  have k: "k < length es" using price_index_less [OF ne] by (simp add: k_def)
  have "price_index es (h + 1) = k"
  proof (rule price_index_eqI [OF wf k])
    show "pe_from (es ! k) \<le> h + 1" if "0 < k"
      using that price_index_reached [of es h] by (simp add: k_def)
    show "h + 1 < pe_from (es ! Suc k)" if "Suc k < length es"
      using that price_index_above [of es h "Suc k"] no nth_mem [of "Suc k" es]
      by (fastforce simp: k_def)
  qed
  then show ?thesis by (simp add: price_at_def k_def)
qed

section \<open>The effective price is the least one of the grace window\<close>

lemma grace_loop_Min:
  assumes wf: "wf_schedule es" and "j < length es"
  shows "grace_loop es lo p j
    = Min (insert p ((\<lambda>k. pe_flux (es ! k)) ` {k. k < j \<and> lo < pe_from (es ! Suc k)}))"
  using assms(2)
proof (induction j arbitrary: p)
  case (Suc j)
  let ?f = "\<lambda>k. pe_flux (es ! k)"
  show ?case
  proof (cases "lo < pe_from (es ! Suc j)")
    case True
    have "{k. k < Suc j \<and> lo < pe_from (es ! Suc k)} = insert j {k. k < j \<and> lo < pe_from (es ! Suc k)}"
      using True by (auto simp: less_Suc_eq)
    with Suc True show ?thesis by (simp add: Min_insert_min del: Min_insert)
  next
    case False
    have none: "{k. k < Suc j \<and> lo < pe_from (es ! Suc k)} = {}"
    proof -
      have "\<not> lo < pe_from (es ! Suc k)" if "k < Suc j" for k
      proof (cases "k = j")
        case True then show ?thesis using False by simp
      next
        case False': False
        then have "pe_from (es ! Suc k) < pe_from (es ! Suc j)"
          using that Suc.prems by (intro wf_schedule_increasing [OF wf]) auto
        then show ?thesis using False by simp
      qed
      then show ?thesis by auto
    qed
    show ?thesis unfolding none using False by simp
  qed
qed simp

lemma window_prices:
  assumes wf: "wf_schedule es" and "lo \<le> h"
  defines "i \<equiv> price_index es h"
  shows "price_at es ` {lo..h}
    = insert (pe_flux (es ! i)) ((\<lambda>k. pe_flux (es ! k)) ` {k. k < i \<and> lo < pe_from (es ! Suc k)})"
    (is "?L = ?R")
proof
  have ne: "es \<noteq> []" using wf by (simp add: wf_schedule_def)
  have i: "i < length es" using price_index_less [OF ne] by (simp add: i_def)
  show "?L \<subseteq> ?R"
  proof
    fix x assume "x \<in> ?L"
    then obtain h' where h': "lo \<le> h'" "h' \<le> h" and x: "x = price_at es h'" by auto
    let ?k = "price_index es h'"
    have "?k \<le> i" unfolding i_def using h' by (intro price_index_mono [OF wf])
    moreover have "lo < pe_from (es ! Suc ?k)" if "?k < i"
      using price_index_above [of es h' "Suc ?k"] that i h' by simp
    ultimately show "x \<in> ?R" using x by (auto simp: price_at_def le_less)
  qed
  show "?R \<subseteq> ?L"
  proof
    fix x assume "x \<in> ?R"
    then consider "x = pe_flux (es ! i)"
      | k where "k < i" "lo < pe_from (es ! Suc k)" "x = pe_flux (es ! k)" by auto
    then show "x \<in> ?L"
    proof cases
      case 1
      then have "x = price_at es h" by (simp add: price_at_def i_def)
      then show ?thesis using assms(2) by auto
    next
      case (2 k)
      let ?h = "pe_from (es ! Suc k) - 1"
      have "pe_from (es ! Suc k) \<le> pe_from (es ! i)"
        using 2 i wf_schedule_increasing [OF wf, of "Suc k" i] by (cases "Suc k = i") auto
      also have "\<dots> \<le> h" using 2 price_index_reached [of es h] by (simp add: i_def)
      finally have "?h \<le> h" "lo \<le> ?h" using 2 by auto
      moreover have "price_index es ?h = k"
      proof (rule price_index_eqI [OF wf])
        show "k < length es" using 2 i by simp
        show "pe_from (es ! k) \<le> ?h"
          using wf_schedule_increasing [OF wf, of k "Suc k"] 2 i by simp
      qed simp
      ultimately have "x = price_at es ?h" "?h \<in> {lo..h}" using 2 by (auto simp: price_at_def)
      then show ?thesis by blast
    qed
  qed
qed

lemma effective_Min:
  assumes "wf_schedule es"
  shows "effective es h = Min (price_at es ` {h - GRACE_BLOCKS..h})"
proof -
  have "es \<noteq> []" using assms by (simp add: wf_schedule_def)
  then show ?thesis
    using grace_loop_Min [OF assms price_index_less [of es h]]
      window_prices [OF assms, of "h - GRACE_BLOCKS" h]
    by (simp add: effective_def Let_def GRACE_BLOCKS_def)
qed

lemma effective_step:
  assumes wf: "wf_schedule es"
    and no: "\<forall>e\<in>set es. h + 1 \<notin> set (boundaries e)"
  shows "effective es (h + 1) = effective es h"
proof -
  let ?G = GRACE_BLOCKS
  have hi: "price_at es (h + 1) = price_at es h"
    using no by (intro price_at_step [OF wf]) (auto simp: boundaries_def)
  have lo: "price_at es (h - ?G + 1) = price_at es (h - ?G)"
    using no by (intro price_at_step [OF wf]) (fastforce simp: boundaries_def)
  have "{h - ?G..h} = insert (h - ?G) {h - ?G + 1..h}"
    "{h + 1 - ?G..h + 1} = insert (h + 1) {h - ?G + 1..h}"
    by (auto simp: GRACE_BLOCKS_def)
  moreover have "h - ?G + 1 \<in> {h - ?G + 1..h}" "h \<in> {h - ?G + 1..h}"
    by (auto simp: GRACE_BLOCKS_def)
  ultimately have "price_at es ` {h + 1 - ?G..h + 1} = price_at es ` {h - ?G..h}"
    using hi lo by (metis image_insert insert_absorb imageI)
  then show ?thesis by (simp add: effective_Min [OF wf])
qed

section \<open>The maximum over a range of heights\<close>

lemma fold_max_if:
  fixes f :: "int \<Rightarrow> 'a :: linorder"
  shows "fold (\<lambda>b p. if Q b then max p (f b) else p) bs p = Max (insert p (f ` {b \<in> set bs. Q b}))"
proof (induction bs arbitrary: p)
  case (Cons b bs)
  have "{x. (x = b \<or> x \<in> set bs) \<and> Q x} = (if Q b then insert b {x \<in> set bs. Q x} else {x \<in> set bs. Q x})"
    by auto
  then show ?case using Cons by (auto simp: Max_insert_max simp del: Max_insert)
qed simp

lemma maxEffective_Max:
  assumes wf: "wf_schedule es" and "lo \<le> hi"
  shows "maxEffective es lo hi = Max (effective es ` {lo..hi})"
proof -
  let ?B = "{b \<in> set (concat (map boundaries es)). lo < b \<and> b \<le> hi}"
  let ?M = "Max (insert (effective es lo) (effective es ` ?B))"
  have fin: "finite (insert (effective es lo) (effective es ` ?B))" by simp
  have le: "effective es h \<le> ?M" if "lo \<le> h" "h \<le> hi" for h
    using that
  proof (induction h rule: int_ge_induct)
    case base
    then show ?case by (intro Max_ge) auto
  next
    case (step h)
    show ?case
    proof (cases "h + 1 \<in> set (concat (map boundaries es))")
      case True
      then show ?thesis using step by (intro Max_ge) auto
    next
      case False
      then show ?thesis using effective_step [OF wf, of h] step by auto
    qed
  qed
  have "maxEffective es lo hi = ?M"
    unfolding maxEffective_def by (rule fold_max_if)
  also have "\<dots> = Max (effective es ` {lo..hi})"
  proof (rule antisym)
    show "?M \<le> Max (effective es ` {lo..hi})"
      using assms by (intro Max_mono) auto
    show "Max (effective es ` {lo..hi}) \<le> ?M"
      using le assms by (subst Max_le_iff) auto
  qed
  finally show ?thesis .
qed

lemma effective_le_max: "wf_schedule es \<Longrightarrow> lo \<le> h \<Longrightarrow> h \<le> hi \<Longrightarrow> effective es h \<le> maxEffective es lo hi"
  by (subst maxEffective_Max) auto

lemma price_at_pos:
  assumes "wf_schedule es" shows "0 < price_at es h"
proof -
  have "es ! price_index es h \<in> set es"
    using assms price_index_less [of es h] by (auto simp: wf_schedule_def)
  then show ?thesis using assms by (simp add: price_at_def wf_schedule_def)
qed

lemma effective_pos: "wf_schedule es \<Longrightarrow> 0 < effective es h"
  by (subst effective_Min, assumption, subst Min_gr_iff) (auto simp: GRACE_BLOCKS_def price_at_pos)

section \<open>Prices in whole zats\<close>

text \<open>A parsed schedule has at most eight decimals, so its prices convert without rounding.\<close>

definition whole_zats :: "rat \<Rightarrow> bool" where
  "whole_zats f \<longleftrightarrow> of_int (fluxToZats f) = f * 10 ^ 8"

definition in_zats :: "schedule \<Rightarrow> bool" where
  "in_zats es \<longleftrightarrow> list_all (\<lambda>e. whole_zats (pe_flux e)) es"

lemma whole_zatsI: "f * 10 ^ 8 = of_int n \<Longrightarrow> whole_zats f"
  unfolding whole_zats_def fluxToZats_def by (simp only: math_round_of_int)

lemma parse_flux_whole: "parse_flux s = Some f \<Longrightarrow> whole_zats f"
proof -
  assume p: "parse_flux s = Some f"
  show ?thesis
  proof (cases "CHR ''.'' \<in> set s")
    case True
    let ?i = "read_nat (before CHR ''.'' s)" and ?g = "after CHR ''.'' s"
    from p True have f: "f = of_nat ?i + of_nat (read_nat ?g) / 10 ^ length ?g" and len: "length ?g \<le> 8"
      by (auto simp: parse_flux_def Let_def all_digits_def split: if_splits)
    have ten: "(10 :: rat) ^ 8 = 10 ^ length ?g * 10 ^ (8 - length ?g)"
      using len by (simp flip: power_add)
    have "of_nat (read_nat ?g) / 10 ^ length ?g * 10 ^ 8
        = (of_nat (read_nat ?g) * 10 ^ (8 - length ?g) :: rat)"
      unfolding ten by simp
    then have "f * 10 ^ 8 = of_int (int ?i * 10 ^ 8 + int (read_nat ?g) * 10 ^ (8 - length ?g))"
      by (simp add: f distrib_right)
    then show ?thesis by (rule whole_zatsI)
  next
    case False
    with p have "f = of_nat (read_nat s)" by (auto simp: parse_flux_def split: if_splits)
    then have "f * 10 ^ 8 = of_int (int (read_nat s) * 10 ^ 8)" by simp
    then show ?thesis by (rule whole_zatsI)
  qed
qed

lemma parse_entry_whole: "parse_entry i prev part = Inr x \<Longrightarrow> whole_zats (pe_flux x)"
  by (auto simp: parse_entry_def Let_def intro: parse_flux_whole
      split: option.splits if_splits sum.splits)

lemma parse_entries_whole: "parse_entries i prev parts = Inr es \<Longrightarrow> in_zats es"
  by (induction i prev parts arbitrary: es rule: parse_entries.induct)
    (auto simp: in_zats_def intro: parse_entry_whole split: sum.splits)

lemma parse_in_zats: "parse raw = Inr es \<Longrightarrow> in_zats es"
  by (auto simp: parse_def Let_def intro: parse_entries_whole split: if_splits)

lemma price_at_mem: "wf_schedule es \<Longrightarrow> \<exists>e\<in>set es. price_at es h = pe_flux e"
  using price_index_less [of es h] nth_mem by (fastforce simp: wf_schedule_def price_at_def)

lemma effective_mem: assumes "wf_schedule es" shows "\<exists>e\<in>set es. effective es h = pe_flux e"
proof -
  have "effective es h \<in> price_at es ` {h - GRACE_BLOCKS..h}"
    unfolding effective_Min [OF assms] by (rule Min_in) (auto simp: GRACE_BLOCKS_def)
  then show ?thesis using price_at_mem [OF assms] by fastforce
qed

lemma maxEffective_mem:
  assumes "wf_schedule es" and "lo \<le> hi"
  shows "\<exists>e\<in>set es. maxEffective es lo hi = pe_flux e"
proof -
  have "maxEffective es lo hi \<in> effective es ` {lo..hi}"
    unfolding maxEffective_Max [OF assms] using assms(2) by (intro Max_in) auto
  then show ?thesis using effective_mem [OF assms(1)] by fastforce
qed

lemma maxEffective_zats:
  assumes "wf_schedule es" and "in_zats es" and "lo \<le> hi"
  shows "of_int (fluxToZats (maxEffective es lo hi)) = maxEffective es lo hi * 10 ^ 8"
  using maxEffective_mem [OF assms(1,3)] assms(2) by (auto simp: in_zats_def list_all_iff whole_zats_def)

end
