(* ===== verification/Db.thy ===== *)
theory Db
  imports JsString
begin

text \<open>
  The SQLite schema of the bridge (bridge/src/db/migrations.ts and the row interfaces of
  bridge/src/db/*.ts). A column that may be NULL is an \<open>option\<close>. The state \<open>db\<close> has one
  list of rows per table, in rowid order, and, last, the calls a handler has made to a
  provider's API (Stripe, Play): those change no row here but are effects of the handler.

  The schema's constraints are the predicate \<open>db_wf\<close>: primary keys, UNIQUE columns,
  CHECKs and the two foreign keys. Every repository operation keeps it.
\<close>

section \<open>Rows\<close>

datatype rail = Stripe | Apple | Google | Voucher

datatype payment_status = Pending | Broadcast | Confirmed | Failed

record payment_row =
  p_id :: nat
  p_rail :: rail
  p_event_key :: string
  p_external_ref :: string
  p_payment_code :: string
  p_days :: int
  p_flux_zats :: zats
  p_status :: payment_status
  p_txid :: "string option"
  p_raw_hex :: "string option"
  p_expiry_height :: "int option"
  p_attempts :: nat
  p_next_retry_at :: seconds
  p_last_error :: "string option"
  p_created_at :: seconds
  p_broadcast_at :: "seconds option"
  p_confirmed_at :: "seconds option"

record new_payment =
  n_rail :: rail
  n_eventKey :: string
  n_externalRef :: string
  n_paymentCode :: string
  n_days :: int
  n_fluxZats :: zats

record outpoint =
  o_txid :: string
  o_vout :: nat

record spent_row =
  sp_out :: outpoint
  sp_spent_by :: string
  sp_created_at :: seconds

datatype plan = Monthly | Annual

datatype sub_status = Active | Canceled | Refunded | On_hold

record sub_row =
  s_rail :: rail
  s_external_id :: string
  s_payment_code :: string
  s_plan :: plan
  s_status :: sub_status
  s_created_at :: seconds
  s_updated_at :: seconds
  s_stripe_customer_id :: "string option"
  s_transferred_at :: "seconds option"
  s_apple_expires_ms :: "millis option"
  s_apple_sandbox :: "int option"

datatype actor = User | Admin

record transfer_row =
  t_id :: nat
  t_rail :: rail
  t_external_id :: string
  t_from_code :: "string option"
  t_to_code :: string
  t_actor :: actor
  t_days :: int
  t_created_at :: seconds

datatype voucher_type = Grant_days | Stripe_discount

datatype voucher_status = V_active | V_revoked

record voucher_row =
  v_id :: nat
  v_code :: string
  v_type :: voucher_type
  v_value :: int
  v_campaign :: string
  v_max_redemptions :: int
  v_redemption_count :: int
  v_per_code_limit :: int
  v_expires_at :: "seconds option"
  v_status :: voucher_status
  v_stripe_coupon_id :: "string option"
  v_stripe_promo_id :: "string option"
  v_created_at :: seconds

record redemption_row =
  d_id :: nat
  d_voucher_id :: nat
  d_payment_code :: string
  d_payment_id :: "nat option"
  d_redeemed_at :: seconds

section \<open>Errors and calls\<close>

datatype redeem_reason = Invalid | Expired | Exhausted | Already_redeemed

datatype exn =
    Sqlite_constraint
  | Redeem_error redeem_reason
  | Insufficient_funds zats zats
  | Js_error string

datatype api_call =
    Stripe_update_metadata string string
  | Stripe_cancel string
  | Stripe_deactivate_promo string
  | Stripe_create_coupon int string string
  | Stripe_create_promo string string int "seconds option"
  | Play_acknowledge string string

section \<open>The database\<close>

record db =
  db_payments :: "payment_row list"
  db_spent :: "spent_row list"
  db_subs :: "sub_row list"
  db_apple_map :: "(string \<times> string) list"
  db_transfers :: "transfer_row list"
  db_vouchers :: "voucher_row list"
  db_redemptions :: "redemption_row list"
  db_calls :: "api_call list"

definition empty_db :: db where
  "empty_db = \<lparr>db_payments = [], db_spent = [], db_subs = [], db_apple_map = [],
     db_transfers = [], db_vouchers = [], db_redemptions = [], db_calls = []\<rparr>"

definition add_call :: "api_call \<Rightarrow> db \<Rightarrow> db" where
  "add_call c s = s\<lparr>db_calls := db_calls s @ [c]\<rparr>"

section \<open>Constraints\<close>

definition payment_key :: "payment_row \<Rightarrow> rail \<times> string" where
  "payment_key r = (p_rail r, p_event_key r)"

definition sub_key :: "sub_row \<Rightarrow> rail \<times> string" where
  "sub_key r = (s_rail r, s_external_id r)"

definition redemption_key :: "redemption_row \<Rightarrow> nat \<times> string" where
  "redemption_key r = (d_voucher_id r, d_payment_code r)"

definition payment_check :: "payment_row \<Rightarrow> bool" where
  "payment_check r \<longleftrightarrow> 1 \<le> p_days r \<and> 0 < p_flux_zats r"

definition voucher_check :: "voucher_row \<Rightarrow> bool" where
  "voucher_check v \<longleftrightarrow> 1 \<le> v_value v \<and> 1 \<le> v_max_redemptions v"

definition payments_wf :: "payment_row list \<Rightarrow> bool" where
  "payments_wf rs \<longleftrightarrow> unique_key p_id rs \<and> unique_key payment_key rs \<and> list_all payment_check rs"

definition vouchers_wf :: "voucher_row list \<Rightarrow> bool" where
  "vouchers_wf vs \<longleftrightarrow> unique_key v_id vs \<and> unique_key v_code vs \<and> list_all voucher_check vs"

definition redemptions_wf :: "voucher_row list \<Rightarrow> payment_row list \<Rightarrow> redemption_row list \<Rightarrow> bool" where
  "redemptions_wf vs ps ds \<longleftrightarrow>
     unique_key d_id ds \<and> unique_key redemption_key ds
     \<and> (\<forall>d\<in>set ds. has_key v_id (d_voucher_id d) vs)
     \<and> (\<forall>d\<in>set ds. \<forall>i. d_payment_id d = Some i \<longrightarrow> has_key p_id i ps)"

definition db_wf :: "db \<Rightarrow> bool" where
  "db_wf s \<longleftrightarrow>
     payments_wf (db_payments s)
     \<and> unique_key sp_out (db_spent s)
     \<and> unique_key sub_key (db_subs s)
     \<and> unique_key fst (db_apple_map s)
     \<and> unique_key t_id (db_transfers s)
     \<and> vouchers_wf (db_vouchers s)
     \<and> redemptions_wf (db_vouchers s) (db_payments s) (db_redemptions s)"

lemma db_wf_empty: "db_wf empty_db"
  by (simp add: db_wf_def empty_db_def payments_wf_def vouchers_wf_def redemptions_wf_def)

lemma add_call_simps [simp]:
  "db_payments (add_call c s) = db_payments s" "db_spent (add_call c s) = db_spent s"
  "db_subs (add_call c s) = db_subs s" "db_apple_map (add_call c s) = db_apple_map s"
  "db_transfers (add_call c s) = db_transfers s" "db_vouchers (add_call c s) = db_vouchers s"
  "db_redemptions (add_call c s) = db_redemptions s" "db_calls (add_call c s) = db_calls s @ [c]"
  by (simp_all add: add_call_def)

lemma db_wf_add_call [simp]: "db_wf (add_call c s) = db_wf s"
  by (simp add: db_wf_def)

text \<open>A payment table may be replaced by one with the same ids and keys.\<close>

lemma db_wf_payments_update:
  assumes "db_wf s" and "payments_wf ps"
    and "\<And>i. has_key p_id i (db_payments s) \<Longrightarrow> has_key p_id i ps"
  shows "db_wf (s\<lparr>db_payments := ps\<rparr>)"
  using assms by (auto simp: db_wf_def redemptions_wf_def)

lemma db_wf_spent_update: "db_wf s \<Longrightarrow> unique_key sp_out xs \<Longrightarrow> db_wf (s\<lparr>db_spent := xs\<rparr>)"
  by (simp add: db_wf_def)

lemma db_wf_subs_update: "db_wf s \<Longrightarrow> unique_key sub_key xs \<Longrightarrow> db_wf (s\<lparr>db_subs := xs\<rparr>)"
  by (simp add: db_wf_def)

lemma db_wf_transfers_update: "db_wf s \<Longrightarrow> unique_key t_id xs \<Longrightarrow> db_wf (s\<lparr>db_transfers := xs\<rparr>)"
  by (simp add: db_wf_def)

lemma db_wf_apple_update: "db_wf s \<Longrightarrow> unique_key fst xs \<Longrightarrow> db_wf (s\<lparr>db_apple_map := xs\<rparr>)"
  by (simp add: db_wf_def)

end
