(* ===== verification/PaymentsRepo.thy ===== *)
theory PaymentsRepo
  imports Db
begin

text \<open>
  The repository over \<open>payments\<close> and \<open>spent_outpoints\<close> (bridge/src/db/payments.ts). Each
  definition is one method; the SQL of the method is its body. \<open>now\<close> is the clock reading
  the method takes. A method that can raise returns \<open>Inl\<close> and leaves the tables alone, as
  SQLite does for a failed statement or a rolled-back transaction.
\<close>

section \<open>Inserting\<close>

definition insertIdempotent :: "seconds \<Rightarrow> new_payment \<Rightarrow> db \<Rightarrow> (exn + nat option) \<times> db" where
  "insertIdempotent now p s =
     (if \<not> (1 \<le> n_days p \<and> 0 < n_fluxZats p) then (Inl Sqlite_constraint, s)
      else if has_key payment_key (n_rail p, n_eventKey p) (db_payments s) then (Inr None, s)
      else
        let i = next_rowid (map p_id (db_payments s));
            r = \<lparr>p_id = i, p_rail = n_rail p, p_event_key = n_eventKey p,
                 p_external_ref = n_externalRef p, p_payment_code = n_paymentCode p,
                 p_days = n_days p, p_flux_zats = n_fluxZats p, p_status = Pending,
                 p_txid = None, p_raw_hex = None, p_expiry_height = None, p_attempts = 0,
                 p_next_retry_at = 0, p_last_error = None, p_created_at = now,
                 p_broadcast_at = None, p_confirmed_at = None\<rparr>
        in (Inr (Some i), s\<lparr>db_payments := db_payments s @ [r]\<rparr>))"

section \<open>Queries\<close>

definition nextPending :: "seconds \<Rightarrow> db \<Rightarrow> payment_row option" where
  "nextPending now s =
     (case sort_key p_id (filter (\<lambda>r. p_status r = Pending \<and> p_next_retry_at r \<le> now) (db_payments s)) of
        [] \<Rightarrow> None
      | r # _ \<Rightarrow> Some r)"

definition allBroadcast :: "db \<Rightarrow> payment_row list" where
  "allBroadcast s = sort_key p_id (filter (\<lambda>r. p_status r = Broadcast) (db_payments s))"

definition payment_by_id :: "nat \<Rightarrow> db \<Rightarrow> payment_row option" where
  "payment_by_id i s = find (\<lambda>r. p_id r = i) (db_payments s)"

definition byCode :: "string \<Rightarrow> nat \<Rightarrow> db \<Rightarrow> payment_row list" where
  "byCode code limit s =
     take limit (sort_key (\<lambda>r. (- p_created_at r, - int (p_id r)))
       (filter (\<lambda>r. p_payment_code r = code) (db_payments s)))"

definition outpoint_key :: "outpoint \<Rightarrow> string" where
  "outpoint_key x = o_txid x @ CHR '':'' # show_nat (o_vout x)"

definition spentOutpoints :: "db \<Rightarrow> string set" where
  "spentOutpoints s = set (map (\<lambda>r. outpoint_key (sp_out r)) (db_spent s))"

record queue_stats =
  qs_pending :: nat
  qs_broadcast :: nat
  qs_pendingZats :: zats
  qs_oldestUnsettledAge :: "seconds option"

definition queueStats :: "seconds \<Rightarrow> db \<Rightarrow> queue_stats" where
  "queueStats now s =
     (let rs = db_payments s;
          unsettled = filter (\<lambda>r. p_status r = Pending \<or> p_status r = Broadcast) rs
      in \<lparr>qs_pending = length (filter (\<lambda>r. p_status r = Pending) rs),
          qs_broadcast = length (filter (\<lambda>r. p_status r = Broadcast) rs),
          qs_pendingZats = sum_list (map p_flux_zats (filter (\<lambda>r. p_status r = Pending) rs)),
          qs_oldestUnsettledAge =
            (if unsettled = [] then None else Some (now - Min (set (map p_created_at unsettled))))\<rparr>)"

section \<open>State changes\<close>

definition insert_outpoint :: "seconds \<Rightarrow> string \<Rightarrow> outpoint \<Rightarrow> spent_row list \<Rightarrow> spent_row list" where
  "insert_outpoint now txid x rs =
     (if has_key sp_out x rs then rs
      else rs @ [\<lparr>sp_out = x, sp_spent_by = txid, sp_created_at = now\<rparr>])"

definition markBroadcast ::
  "seconds \<Rightarrow> nat \<Rightarrow> string \<Rightarrow> string \<Rightarrow> int \<Rightarrow> outpoint list \<Rightarrow> zats option \<Rightarrow> db \<Rightarrow> (exn + unit) \<times> db" where
  "markBroadcast now i txid raw_hex expiry spent flux_zats s =
     (if has_key p_id i (db_payments s) \<and> (case flux_zats of None \<Rightarrow> False | Some z \<Rightarrow> z \<le> 0)
      then (Inl Sqlite_constraint, s)
      else (Inr (), s\<lparr>
        db_payments := update_where (\<lambda>r. p_id r = i)
          (\<lambda>r. r\<lparr>p_status := Broadcast, p_txid := Some txid, p_raw_hex := Some raw_hex,
                 p_expiry_height := Some expiry, p_broadcast_at := Some now, p_last_error := None,
                 p_flux_zats := (case flux_zats of None \<Rightarrow> p_flux_zats r | Some z \<Rightarrow> z)\<rparr>)
          (db_payments s),
        db_spent := fold (insert_outpoint now txid) spent (db_spent s)\<rparr>))"

definition markConfirmed :: "seconds \<Rightarrow> nat \<Rightarrow> db \<Rightarrow> db" where
  "markConfirmed now i s =
     (let txid = Option.bind (payment_by_id i s) p_txid in
      s\<lparr>db_payments := update_where (\<lambda>r. p_id r = i)
          (\<lambda>r. r\<lparr>p_status := Confirmed, p_raw_hex := None, p_confirmed_at := Some now\<rparr>)
          (db_payments s),
        db_spent := (case txid of
            None \<Rightarrow> db_spent s
          | Some t \<Rightarrow> if t = [] then db_spent s
                       else delete_where (\<lambda>r. sp_spent_by r = t) (db_spent s))\<rparr>)"

definition resetExpired :: "nat \<Rightarrow> string \<Rightarrow> db \<Rightarrow> db" where
  "resetExpired i stale s =
     s\<lparr>db_payments := update_where (\<lambda>r. p_id r = i)
         (\<lambda>r. r\<lparr>p_status := Pending, p_txid := None, p_raw_hex := None, p_expiry_height := None,
                p_broadcast_at := None, p_next_retry_at := 0,
                p_last_error := Some ''tx expired unmined''\<rparr>)
         (db_payments s),
       db_spent := delete_where (\<lambda>r. sp_spent_by r = stale) (db_spent s)\<rparr>"

definition retry_delay :: "nat \<Rightarrow> seconds" where
  "retry_delay attempts = min (60 * 2 ^ attempts) (6 * 3600)"

definition recordFailure :: "seconds \<Rightarrow> nat \<Rightarrow> nat \<Rightarrow> string \<Rightarrow> db \<Rightarrow> db" where
  "recordFailure now i attempts err s =
     s\<lparr>db_payments := update_where (\<lambda>r. p_id r = i)
         (\<lambda>r. r\<lparr>p_attempts := attempts + 1, p_next_retry_at := now + retry_delay attempts,
                p_last_error := Some (take 500 err)\<rparr>)
         (db_payments s)\<rparr>"

section \<open>The queue as an interface\<close>

text \<open>
  What the rails rely on when they enqueue a grant: inserting an event whose key is already
  recorded changes nothing, a new one is appended once, an unacceptable one raises. Every
  delivery order and every number of redeliveries then gives each key exactly one entry,
  the first one delivered.
\<close>

locale idempotent_queue =
  fixes insert_ev :: "'e \<Rightarrow> 's \<Rightarrow> (exn + nat option) \<times> 's"
    and ev_key :: "'e \<Rightarrow> 'k"
    and ledger :: "'s \<Rightarrow> 'e list"
    and acceptable :: "'e \<Rightarrow> bool"
  assumes refused: "\<not> acceptable e \<Longrightarrow> \<exists>x. insert_ev e s = (Inl x, s)"
    and duplicate: "acceptable e \<Longrightarrow> ev_key e \<in> ev_key ` set (ledger s) \<Longrightarrow> insert_ev e s = (Inr None, s)"
    and fresh: "acceptable e \<Longrightarrow> ev_key e \<notin> ev_key ` set (ledger s) \<Longrightarrow>
      \<exists>i s'. insert_ev e s = (Inr (Some i), s') \<and> ledger s' = ledger s @ [e]"
begin

abbreviation deliver :: "'e list \<Rightarrow> 's \<Rightarrow> 's" where
  "deliver es s \<equiv> fold (\<lambda>e s. snd (insert_ev e s)) es s"

lemma ledger_insert:
  "ledger (snd (insert_ev e s))
    = (if acceptable e \<and> ev_key e \<notin> ev_key ` set (ledger s) then ledger s @ [e] else ledger s)"
  using refused [of e s] duplicate [of e s] fresh [of e s] by fastforce

lemma keys_distinct:
  "distinct (map ev_key (ledger s)) \<Longrightarrow> distinct (map ev_key (ledger (deliver es s)))"
proof (induction es arbitrary: s)
  case (Cons e es)
  have "distinct (map ev_key (ledger (snd (insert_ev e s))))"
    using Cons.prems by (simp add: ledger_insert)
  from Cons.IH [OF this] show ?case by simp
qed simp

lemma ledger_grows: "\<exists>ys. ledger (deliver es s) = ledger s @ ys"
proof (induction es arbitrary: s)
  case (Cons e es)
  from Cons.IH [of "snd (insert_ev e s)"] show ?case
    by (auto simp: ledger_insert split: if_splits)
qed simp

lemma keys_delivered:
  "ev_key ` set (ledger (deliver es s))
    = ev_key ` set (ledger s) \<union> ev_key ` {e \<in> set es. acceptable e}"
proof (induction es arbitrary: s)
  case (Cons e es)
  have "ev_key ` set (ledger (snd (insert_ev e s)))
    = ev_key ` set (ledger s) \<union> (if acceptable e then {ev_key e} else {})"
    by (auto simp: ledger_insert)
  with Cons.IH [of "snd (insert_ev e s)"] show ?case by auto
qed simp

lemma redelivery_ignored:
  assumes "e \<in> set es" and "acceptable e"
  shows "insert_ev e (deliver es s) = (Inr None, deliver es s)"
  using assms keys_delivered [of es s] by (intro duplicate) auto

lemma recorded_once:
  assumes "distinct (map ev_key (ledger s))"
  shows "length (filter (\<lambda>x. ev_key x = k) (ledger (deliver es s))) \<le> 1"
proof -
  have *: "length (filter (\<lambda>x. ev_key x = k) xs) \<le> 1" if "distinct (map ev_key xs)" for xs
    using that
  proof (induction xs)
    case (Cons x xs)
    then show ?case by (cases "ev_key x = k") (auto simp: filter_empty_conv image_iff)
  qed simp
  show ?thesis using keys_distinct [OF assms] by (rule *)
qed

end

section \<open>The payments table provides it\<close>

definition to_new :: "payment_row \<Rightarrow> new_payment" where
  "to_new r = \<lparr>n_rail = p_rail r, n_eventKey = p_event_key r, n_externalRef = p_external_ref r,
     n_paymentCode = p_payment_code r, n_days = p_days r, n_fluxZats = p_flux_zats r\<rparr>"

definition new_key :: "new_payment \<Rightarrow> rail \<times> string" where
  "new_key p = (n_rail p, n_eventKey p)"

definition new_ok :: "new_payment \<Rightarrow> bool" where
  "new_ok p \<longleftrightarrow> 1 \<le> n_days p \<and> 0 < n_fluxZats p"

definition payment_ledger :: "db \<Rightarrow> new_payment list" where
  "payment_ledger s = map to_new (db_payments s)"

lemma new_key_to_new [simp]: "new_key (to_new r) = payment_key r"
  by (simp add: new_key_def to_new_def payment_key_def)

lemma payment_ledger_keys: "new_key ` set (payment_ledger s) = payment_key ` set (db_payments s)"
  by (simp add: payment_ledger_def image_image)

lemma has_payment_key: "has_key payment_key k ps \<longleftrightarrow> k \<in> payment_key ` set ps"
  by (auto simp: has_key_def)

interpretation pq: idempotent_queue "insertIdempotent now" new_key payment_ledger new_ok for now
proof unfold_locales
  fix e :: new_payment and s :: db
  show "\<not> new_ok e \<Longrightarrow> \<exists>x. insertIdempotent now e s = (Inl x, s)"
    by (simp add: new_ok_def insertIdempotent_def)
  show "new_ok e \<Longrightarrow> new_key e \<in> new_key ` set (payment_ledger s)
    \<Longrightarrow> insertIdempotent now e s = (Inr None, s)"
    unfolding payment_ledger_keys
    by (simp add: new_ok_def new_key_def insertIdempotent_def has_payment_key)
  show "new_ok e \<Longrightarrow> new_key e \<notin> new_key ` set (payment_ledger s)
    \<Longrightarrow> \<exists>i s'. insertIdempotent now e s = (Inr (Some i), s') \<and> payment_ledger s' = payment_ledger s @ [e]"
    unfolding payment_ledger_keys
    by (simp add: new_ok_def new_key_def insertIdempotent_def has_payment_key Let_def
        payment_ledger_def to_new_def)
qed

section \<open>What each operation keeps\<close>

lemma insertIdempotent_wf:
  assumes "db_wf s"
  shows "db_wf (snd (insertIdempotent now p s))"
proof -
  have "payments_wf (db_payments s)" using assms by (simp add: db_wf_def)
  then show ?thesis
    using assms
    by (auto simp: insertIdempotent_def Let_def payments_wf_def payment_check_def payment_key_def
        table_simps intro!: db_wf_payments_update) (auto simp: has_key_def)
qed

lemma insertIdempotent_frame:
  "db_subs (snd (insertIdempotent now p s)) = db_subs s"
  "db_spent (snd (insertIdempotent now p s)) = db_spent s"
  "db_apple_map (snd (insertIdempotent now p s)) = db_apple_map s"
  "db_transfers (snd (insertIdempotent now p s)) = db_transfers s"
  "db_vouchers (snd (insertIdempotent now p s)) = db_vouchers s"
  "db_redemptions (snd (insertIdempotent now p s)) = db_redemptions s"
  "db_calls (snd (insertIdempotent now p s)) = db_calls s"
  by (simp_all add: insertIdempotent_def Let_def)

lemma payments_wf_update:
  assumes "payments_wf ps"
    and "\<And>r. p_id (f r) = p_id r" and "\<And>r. payment_key (f r) = payment_key r"
    and "\<And>r. r \<in> set ps \<Longrightarrow> payment_check r \<Longrightarrow> P r \<Longrightarrow> payment_check (f r)"
  shows "payments_wf (update_where P f ps)"
  using assms by (auto simp: payments_wf_def table_simps list_all_iff elim!: in_update_whereE)

lemma db_wf_update_payments:
  assumes "db_wf s"
    and "\<And>r. p_id (f r) = p_id r" and "\<And>r. payment_key (f r) = payment_key r"
    and "\<And>r. r \<in> set (db_payments s) \<Longrightarrow> payment_check r \<Longrightarrow> P r \<Longrightarrow> payment_check (f r)"
  shows "db_wf (s\<lparr>db_payments := update_where P f (db_payments s)\<rparr>)"
proof (rule db_wf_payments_update [OF assms(1)])
  show "payments_wf (update_where P f (db_payments s))"
    using assms by (intro payments_wf_update) (auto simp: db_wf_def)
  show "has_key p_id i (db_payments s) \<Longrightarrow> has_key p_id i (update_where P f (db_payments s))" for i
    using assms(2) by (simp add: table_simps)
qed

lemma unique_insert_outpoints:
  "unique_key sp_out rs \<Longrightarrow> unique_key sp_out (fold (insert_outpoint now t) xs rs)"
  by (induction xs arbitrary: rs) (auto simp: insert_outpoint_def table_simps)

lemma markBroadcast_wf:
  assumes "db_wf s"
  shows "db_wf (snd (markBroadcast now i t h e sp z s))"
proof (cases "has_key p_id i (db_payments s) \<and> (case z of None \<Rightarrow> False | Some z \<Rightarrow> z \<le> 0)")
  case True
  then show ?thesis using assms by (simp add: markBroadcast_def)
next
  case False
  have u: "unique_key sp_out (db_spent s)" using assms by (simp add: db_wf_def)
  show ?thesis
    unfolding markBroadcast_def if_not_P [OF False] snd_conv
  proof (intro db_wf_spent_update db_wf_update_payments assms)
    show "unique_key sp_out (fold (insert_outpoint now t) sp (db_spent s))"
      using u by (rule unique_insert_outpoints)
  qed (use False in \<open>auto simp: payment_key_def payment_check_def has_key_def split: option.splits\<close>)
qed

lemma markConfirmed_wf:
  assumes "db_wf s"
  shows "db_wf (markConfirmed now i s)"
proof -
  have u: "unique_key sp_out (db_spent s)" using assms by (simp add: db_wf_def)
  show ?thesis
    unfolding markConfirmed_def Let_def
    by (intro db_wf_spent_update db_wf_update_payments assms)
      (use u in \<open>auto simp: payment_key_def payment_check_def table_simps split: option.splits\<close>)
qed

lemma resetExpired_wf:
  assumes "db_wf s"
  shows "db_wf (resetExpired i t s)"
proof -
  have u: "unique_key sp_out (db_spent s)" using assms by (simp add: db_wf_def)
  show ?thesis
    unfolding resetExpired_def
    by (intro db_wf_spent_update db_wf_update_payments assms)
      (use u in \<open>auto simp: payment_key_def payment_check_def table_simps\<close>)
qed

lemma recordFailure_wf: "db_wf s \<Longrightarrow> db_wf (recordFailure now i n e s)"
  unfolding recordFailure_def
  by (rule db_wf_update_payments) (simp_all add: payment_key_def payment_check_def)

section \<open>Queries\<close>

lemma nextPending_Some:
  assumes "nextPending now s = Some r"
  shows "r \<in> set (db_payments s)" and "p_status r = Pending" and "p_next_retry_at r \<le> now"
    and "\<And>q. q \<in> set (db_payments s) \<Longrightarrow> p_status q = Pending \<Longrightarrow> p_next_retry_at q \<le> now
      \<Longrightarrow> p_id r \<le> p_id q"
proof -
  let ?xs = "filter (\<lambda>r. p_status r = Pending \<and> p_next_retry_at r \<le> now) (db_payments s)"
  obtain rs where rs: "sort_key p_id ?xs = r # rs"
    using assms by (auto simp: nextPending_def split: list.splits)
  then have "r \<in> set ?xs" by (metis list.set_intros(1) set_sort)
  then show "r \<in> set (db_payments s)" "p_status r = Pending" "p_next_retry_at r \<le> now" by auto
  show "p_id r \<le> p_id q"
    if "q \<in> set (db_payments s)" "p_status q = Pending" "p_next_retry_at q \<le> now" for q
    using sort_key_hd_least [OF rs, of q] that by auto
qed

lemma nextPending_None:
  "nextPending now s = None \<longleftrightarrow>
     (\<forall>r\<in>set (db_payments s). p_status r = Pending \<longrightarrow> now < p_next_retry_at r)"
proof -
  let ?xs = "filter (\<lambda>r. p_status r = Pending \<and> p_next_retry_at r \<le> now) (db_payments s)"
  have "nextPending now s = None \<longleftrightarrow> sort_key p_id ?xs = []"
    unfolding nextPending_def by (cases "sort_key p_id ?xs") simp_all
  then show ?thesis by (auto simp: filter_empty_conv not_le)
qed

lemma set_allBroadcast: "set (allBroadcast s) = {r \<in> set (db_payments s). p_status r = Broadcast}"
  by (auto simp: allBroadcast_def)

lemma payment_by_id_Some: "payment_by_id i s = Some r \<Longrightarrow> r \<in> set (db_payments s) \<and> p_id r = i"
  unfolding payment_by_id_def by (rule find_key_Some)

lemma payment_by_id_mem: "db_wf s \<Longrightarrow> r \<in> set (db_payments s) \<Longrightarrow> payment_by_id (p_id r) s = Some r"
  unfolding payment_by_id_def by (rule find_key_unique) (auto simp: db_wf_def payments_wf_def)

lemma outpoint_key_inject: "outpoint_key x = outpoint_key y \<longleftrightarrow> x = y"
proof
  assume "outpoint_key x = outpoint_key y"
  then have "o_txid x = o_txid y \<and> show_nat (o_vout x) = show_nat (o_vout y)"
    unfolding outpoint_key_def
    by (rule append_sep_inject_right) (simp_all add: show_nat_no_sep is_digit_def)
  then show "x = y" by (simp add: show_base_inject)
qed simp

lemma mem_spentOutpoints: "outpoint_key x \<in> spentOutpoints s \<longleftrightarrow> has_key sp_out x (db_spent s)"
  by (auto simp: spentOutpoints_def has_key_def outpoint_key_inject)

lemma has_key_insert_outpoints:
  "has_key sp_out x (fold (insert_outpoint now t) xs rs) \<longleftrightarrow> x \<in> set xs \<or> has_key sp_out x rs"
  by (induction xs arbitrary: rs) (auto simp: insert_outpoint_def has_key_def)

section \<open>Retry backoff\<close>

lemma retry_delay_bounds: "60 \<le> retry_delay n" "retry_delay n \<le> 6 * 3600"
  by (auto simp: retry_delay_def)

lemma retry_delay_mono: "m \<le> n \<Longrightarrow> retry_delay m \<le> retry_delay n"
  unfolding retry_delay_def by (intro min.mono mult_left_mono power_increasing) auto

lemma recordFailure_parks:
  assumes "db_wf s" and "r \<in> set (db_payments s)"
  shows "payment_by_id (p_id r) (recordFailure now (p_id r) n e s)
    = Some (r\<lparr>p_attempts := n + 1, p_next_retry_at := now + retry_delay n,
             p_last_error := Some (take 500 e)\<rparr>)"
  using payment_by_id_mem [OF assms]
  by (simp add: recordFailure_def payment_by_id_def find_update_same)

end
