(* ===== verification/Grants.thy ===== *)
theory Grants
  imports Codes Price PaymentsRepo
begin

text \<open>
  The funnel every verified payment event goes through (bridge/src/grants.ts): validate the
  code, size the payout, enqueue it idempotently. The gateway's side of the contract, the
  days a payment buys (gateway/internal/entitle/entitle.go), is modelled too, because the
  payout is sized for it.
\<close>

section \<open>Sizing\<close>

definition zatsForDays :: "zats \<Rightarrow> int \<Rightarrow> zats" where
  "zatsForDays priceZats days = math_ceil_div (priceZats * days) 30"

text \<open>The gateway: \<open>int(30 * (AmountTo + 1e-9) / p)\<close>, amounts in FLUX.\<close>

definition gateway_days :: "zats \<Rightarrow> rat \<Rightarrow> int" where
  "gateway_days amount p = \<lfloor>30 * (of_int amount / 10 ^ 8 + 1 / 10 ^ 9) / p\<rfloor>"

section \<open>Recording\<close>

record grant_event =
  g_rail :: rail
  g_eventKey :: string
  g_externalRef :: string
  g_paymentCode :: string
  g_days :: int

datatype grant_result = Queued | Duplicate | Invalid_code

definition grant_payment :: "zats \<Rightarrow> grant_event \<Rightarrow> new_payment" where
  "grant_payment priceZats ev =
     \<lparr>n_rail = g_rail ev, n_eventKey = g_eventKey ev, n_externalRef = g_externalRef ev,
      n_paymentCode = g_paymentCode ev, n_days = g_days ev,
      n_fluxZats = zatsForDays priceZats (g_days ev)\<rparr>"

definition recordGrant ::
  "(string \<Rightarrow> bytes option) \<Rightarrow> zats \<Rightarrow> seconds \<Rightarrow> grant_event \<Rightarrow> db \<Rightarrow> (exn + grant_result) \<times> db" where
  "recordGrant b58 priceZats now ev s =
     (if \<not> isValidPaymentCode b58 (g_paymentCode ev) then (Inr Invalid_code, s)
      else case insertIdempotent now (grant_payment priceZats ev) s of
             (Inl e, s') \<Rightarrow> (Inl e, s')
           | (Inr None, s') \<Rightarrow> (Inr Duplicate, s')
           | (Inr (Some _), s') \<Rightarrow> (Inr Queued, s'))"

section \<open>The payout covers the days, and no more\<close>

lemma zatsForDays_pos: "0 < pz \<Longrightarrow> 1 \<le> d \<Longrightarrow> 0 < zatsForDays pz d"
  by (simp add: zatsForDays_def math_ceil_div_pos)

lemma zatsForDays_bounds: "pz * d \<le> 30 * zatsForDays pz d" "30 * zatsForDays pz d < pz * d + 30"
  using math_ceil_div_bounds [of 30 "pz * d"] by (simp_all add: zatsForDays_def)

lemma zatsForDays_months: "30 dvd d \<Longrightarrow> zatsForDays pz d = pz * (d div 30)"
proof -
  assume "30 dvd d"
  then obtain m where "d = 30 * m" by auto
  then show ?thesis
    by (simp add: zatsForDays_def math_ceil_div_eq)
qed

lemma zatsForDays_mono: "pz \<le> pz' \<Longrightarrow> 0 \<le> d \<Longrightarrow> zatsForDays pz d \<le> zatsForDays pz' d"
  unfolding zatsForDays_def by (intro math_ceil_div_mono mult_right_mono) auto

lemma fluxToZats_exact: "p = of_int n / 10 ^ 8 \<Longrightarrow> fluxToZats p = n"
  by (simp add: fluxToZats_def math_round_def floor_eq_iff)

text \<open>A payout sized at a price at least the one it is judged by buys every day.\<close>

lemma gateway_days_at_least:
  assumes "0 < p" and "p \<le> of_int pz / 10 ^ 8" and "0 \<le> d"
  shows "d \<le> gateway_days (zatsForDays pz d) p"
proof -
  let ?a = "zatsForDays pz d"
  have "of_int (pz * d) \<le> (of_int (30 * ?a) :: rat)"
    using zatsForDays_bounds(1) by (subst of_int_le_iff)
  then have "of_int pz / 10 ^ 8 * of_int d \<le> (30 * (of_int ?a / 10 ^ 8) :: rat)"
    by (simp add: field_simps)
  moreover have "p * of_int d \<le> of_int pz / 10 ^ 8 * of_int d"
    using assms by (intro mult_right_mono) auto
  ultimately have "p * of_int d \<le> 30 * (of_int ?a / 10 ^ 8)" by (rule order_trans [rotated])
  also have "\<dots> \<le> 30 * (of_int ?a / 10 ^ 8 + 1 / 10 ^ 9)" by simp
  finally have "p * of_int d \<le> 30 * (of_int ?a / 10 ^ 8 + 1 / 10 ^ 9)" .
  then have "of_int d \<le> 30 * (of_int ?a / 10 ^ 8 + 1 / 10 ^ 9) / p"
    using assms(1) by (simp add: pos_le_divide_eq mult.commute)
  then show ?thesis by (simp add: gateway_days_def le_floor_iff)
qed

lemma gateway_days_exact:
  assumes "p = of_int pz / 10 ^ 8" and "32 < pz" and "0 \<le> d"
  shows "gateway_days (zatsForDays pz d) p = d"
proof -
  let ?a = "zatsForDays pz d"
  have p: "0 < p" using assms by simp
  have lower: "d \<le> gateway_days ?a p" using p assms by (intro gateway_days_at_least) auto
  have "of_int (30 * ?a) + 1 \<le> (of_int (pz * d) + 30 :: rat)"
    using zatsForDays_bounds(2) [of pz d]
    by (metis (mono_tags, lifting) add1_zle_eq of_int_1 of_int_add of_int_le_iff of_int_numeral)
  moreover have "(32 :: rat) < of_int pz" using assms(2) by simp
  ultimately have "30 * (of_int ?a / 10 ^ 8 + 1 / 10 ^ 9) < p * (of_int d + 1)"
    by (simp add: assms(1) field_simps)
  then have "30 * (of_int ?a / 10 ^ 8 + 1 / 10 ^ 9) / p < of_int d + 1"
    using p by (simp add: pos_divide_less_eq mult.commute)
  then have "gateway_days ?a p \<le> d" by (simp add: gateway_days_def floor_le_iff)
  with lower show ?thesis by simp
qed

section \<open>Recording\<close>

lemma recordGrant_wf: "db_wf s \<Longrightarrow> db_wf (snd (recordGrant b58 pz now ev s))"
  using insertIdempotent_wf [of s now "grant_payment pz ev"]
  by (auto simp: recordGrant_def split: sum.splits option.splits prod.splits)

lemma recordGrant_snd:
  "snd (recordGrant b58 pz now ev s)
    = (if isValidPaymentCode b58 (g_paymentCode ev)
       then snd (insertIdempotent now (grant_payment pz ev) s) else s)"
  by (auto simp: recordGrant_def split: sum.splits option.splits prod.splits)

lemma recordGrant_frame [repo_simps]:
  "db_subs (snd (recordGrant b58 pz now ev s)) = db_subs s"
  "db_spent (snd (recordGrant b58 pz now ev s)) = db_spent s"
  "db_apple_map (snd (recordGrant b58 pz now ev s)) = db_apple_map s"
  "db_transfers (snd (recordGrant b58 pz now ev s)) = db_transfers s"
  "db_vouchers (snd (recordGrant b58 pz now ev s)) = db_vouchers s"
  "db_redemptions (snd (recordGrant b58 pz now ev s)) = db_redemptions s"
  "db_calls (snd (recordGrant b58 pz now ev s)) = db_calls s"
  by (simp_all add: recordGrant_snd insertIdempotent_frame)

lemma grant_payment_ok [simp]: "0 < pz \<Longrightarrow> 1 \<le> g_days ev \<Longrightarrow> new_ok (grant_payment pz ev)"
  by (simp add: new_ok_def grant_payment_def zatsForDays_pos)

lemma new_key_grant [simp]: "new_key (grant_payment pz ev) = (g_rail ev, g_eventKey ev)"
  by (simp add: new_key_def grant_payment_def)

definition ledger_has :: "rail \<Rightarrow> string \<Rightarrow> db \<Rightarrow> bool" where
  "ledger_has rl k s \<longleftrightarrow> has_key payment_key (rl, k) (db_payments s)"

lemma ledger_has_keys: "ledger_has rl k s \<longleftrightarrow> (rl, k) \<in> new_key ` set (payment_ledger s)"
  by (simp add: ledger_has_def has_payment_key payment_ledger_keys)

text \<open>The three outcomes, and the exception that a payout the schema refuses raises.\<close>

lemma recordGrant_cases:
  assumes "0 < pz" and "1 \<le> g_days ev"
  shows "recordGrant b58 pz now ev s =
    (if \<not> isValidPaymentCode b58 (g_paymentCode ev) then (Inr Invalid_code, s)
     else if ledger_has (g_rail ev) (g_eventKey ev) s then (Inr Duplicate, s)
     else (Inr Queued, snd (insertIdempotent now (grant_payment pz ev) s)))"
proof (cases "isValidPaymentCode b58 (g_paymentCode ev)")
  case True
  have ok: "new_ok (grant_payment pz ev)" using assms by simp
  show ?thesis
  proof (cases "ledger_has (g_rail ev) (g_eventKey ev) s")
    case True': True
    then show ?thesis using True pq.duplicate [OF ok, of s now]
      by (simp add: recordGrant_def ledger_has_keys)
  next
    case False
    then obtain i s' where "insertIdempotent now (grant_payment pz ev) s = (Inr (Some i), s')"
      using pq.fresh [OF ok, of s now] by (auto simp: ledger_has_keys)
    with True False show ?thesis by (simp add: recordGrant_def)
  qed
qed (simp add: recordGrant_def)

lemma recordGrant_ledger:
  assumes "0 < pz" and "1 \<le> g_days ev"
  shows "payment_ledger (snd (recordGrant b58 pz now ev s))
    = (if isValidPaymentCode b58 (g_paymentCode ev) \<and> \<not> ledger_has (g_rail ev) (g_eventKey ev) s
       then payment_ledger s @ [grant_payment pz ev] else payment_ledger s)"
  using assms pq.ledger_insert [of now "grant_payment pz ev" s]
  by (auto simp: recordGrant_snd ledger_has_keys)

lemma recordGrant_raises:
  assumes "isValidPaymentCode b58 (g_paymentCode ev)" and "\<not> (1 \<le> g_days ev \<and> 0 < zatsForDays pz (g_days ev))"
  shows "recordGrant b58 pz now ev s = (Inl Sqlite_constraint, s)"
  using assms by (simp add: recordGrant_def insertIdempotent_def grant_payment_def)

end
