(* ===== verification/Flux.thy ===== *)
theory Flux
  imports Grants "HOL-Library.Multiset"
begin

text \<open>
  Treasury spends: selecting the inputs (bridge/src/flux/utxo.ts), the shape of a payment
  transaction (bridge/src/flux/tx.ts) and what the bridge reads off the explorer and the
  daemon (bridge/src/flux/chain.ts). Signing and serialising is \<open>@runonflux/utxo-lib\<close>: a
  parameter \<open>ulib\<close> from the transaction handed to the builder to its bytes and its id. A
  request to a server is a parameter too, the value of type \<open>fetched\<close> it came back with.
\<close>

section \<open>Selecting inputs\<close>

record utxo =
  u_out :: outpoint
  u_satoshis :: zats
  u_confirmations :: int

record selection =
  sel_inputs :: "utxo list"
  sel_totalZats :: zats

fun take_until :: "zats \<Rightarrow> utxo list \<Rightarrow> utxo list \<Rightarrow> zats \<Rightarrow> exn + selection" where
  "take_until needed [] inputs tot = Inl (Insufficient_funds needed tot)"
| "take_until needed (u # us) inputs tot =
     (let inputs' = inputs @ [u]; tot' = tot + u_satoshis u
      in if needed \<le> tot' then Inr \<lparr>sel_inputs = inputs', sel_totalZats = tot'\<rparr>
         else take_until needed us inputs' tot')"

definition usable :: "utxo list \<Rightarrow> string set \<Rightarrow> utxo list" where
  "usable available excluded =
     sort_key (\<lambda>u. - u_satoshis u) (filter (\<lambda>u. outpoint_key (u_out u) \<notin> excluded) available)"

definition selectUtxos :: "utxo list \<Rightarrow> string set \<Rightarrow> zats \<Rightarrow> exn + selection" where
  "selectUtxos available excluded needed = take_until needed (usable available excluded) [] 0"

section \<open>The payment transaction\<close>

definition EXPIRY_DELTA :: int where
  "EXPIRY_DELTA = 40"

definition DUST_ZATS :: zats where
  "DUST_ZATS = 1000"

definition SAPLING_VERSION_GROUP_ID :: int where
  "SAPLING_VERSION_GROUP_ID = 0x892f2085"

datatype tx_out = Pay string zats | Null_data string

record unsigned_tx =
  x_version :: int
  x_groupId :: int
  x_expiryHeight :: int
  x_inputs :: "(outpoint \<times> zats) list"
  x_outputs :: "tx_out list"

record built_tx =
  b_hex :: string
  b_txid :: string
  b_expiryHeight :: int
  b_spent :: "outpoint list"

record build_params =
  bp_key_address :: string
  bp_inputs :: "utxo list"
  bp_inputTotalZats :: zats
  bp_paymentAddress :: string
  bp_amountZats :: zats
  bp_memo :: string
  bp_feeZats :: zats
  bp_tipHeight :: int

definition payment_tx :: "build_params \<Rightarrow> unsigned_tx" where
  "payment_tx p =
     (let change = bp_inputTotalZats p - bp_amountZats p - bp_feeZats p
      in \<lparr>x_version = 4, x_groupId = SAPLING_VERSION_GROUP_ID,
          x_expiryHeight = bp_tipHeight p + EXPIRY_DELTA,
          x_inputs = map (\<lambda>u. (u_out u, u_satoshis u)) (bp_inputs p),
          x_outputs =
            [Pay (bp_paymentAddress p) (bp_amountZats p), Null_data (bp_memo p)]
            @ (if DUST_ZATS \<le> change then [Pay (bp_key_address p) change] else [])\<rparr>)"

definition buildPaymentTx :: "(unsigned_tx \<Rightarrow> string \<times> string) \<Rightarrow> build_params \<Rightarrow> exn + built_tx" where
  "buildPaymentTx ulib p =
     (let change = bp_inputTotalZats p - bp_amountZats p - bp_feeZats p
      in if change < 0 then Inl (Js_error ''buildPaymentTx: inputs do not cover amount + fee'')
         else let (hex, txid) = ulib (payment_tx p)
              in Inr \<lparr>b_hex = hex, b_txid = txid, b_expiryHeight = bp_tipHeight p + EXPIRY_DELTA,
                      b_spent = map u_out (bp_inputs p)\<rparr>)"

section \<open>Reading the chain\<close>

text \<open>
  A request either fails, comes back with a status that is not 2xx, with a body that does
  not parse, or with a body. \<open>get\<close> throws for all but the last.
\<close>

datatype 'a fetched = Fetch_error | Bad_status int | Bad_body | Body 'a

definition get_json :: "'a fetched \<Rightarrow> exn + 'a" where
  "get_json r = (case r of Body a \<Rightarrow> Inr a | Bad_status _ \<Rightarrow> Inl (Js_error ''chain: GET'') | _ \<Rightarrow> Inl (Js_error ''fetch''))"

text \<open>What a FluxOS daemon answers: the status, and the data if it is of the kind asked for.\<close>

record 'a daemon_reply =
  dr_success :: bool
  dr_error :: bool
  dr_data :: "'a option"

text \<open>The pass-through's value, where the reply is a success of the right kind.\<close>

definition daemon_value :: "string \<Rightarrow> 'a daemon_reply fetched \<Rightarrow> exn + 'a" where
  "daemon_value err daemon =
     (case get_json daemon of
        Inl e \<Rightarrow> Inl e
      | Inr res \<Rightarrow>
          (case dr_data res of
             None \<Rightarrow> Inl (Js_error err)
           | Some a \<Rightarrow> if dr_success res then Inr a else Inl (Js_error err)))"

definition tipHeight :: "int option fetched \<Rightarrow> int daemon_reply fetched \<Rightarrow> exn + int" where
  "tipHeight explorer daemon =
     (let fallback = daemon_value ''chain: getblockcount fallback failed'' daemon
      in case get_json explorer of
           Inr (Some blocks) \<Rightarrow> if 0 < blocks then Inr blocks else fallback
         | Inr None \<Rightarrow> fallback
         | Inl _ \<Rightarrow> fallback)"

datatype tx_answer = Found int | Not_found

record tx_data =
  td_confirmations :: "int option"
  td_code :: "int option"

definition chain_tx :: "int option fetched \<Rightarrow> tx_data daemon_reply fetched \<Rightarrow> exn + tx_answer" where
  "chain_tx explorer daemon =
     (case explorer of
        Body confs \<Rightarrow> Inr (Found (case confs of Some c \<Rightarrow> c | None \<Rightarrow> 0))
      | _ \<Rightarrow>
         (case get_json daemon of
            Inl e \<Rightarrow> Inl e
          | Inr res \<Rightarrow>
              (case dr_data res of
                 None \<Rightarrow> Inl (Js_error ''chain: tx lookup'')
               | Some d \<Rightarrow>
                   if dr_success res then Inr (Found (case td_confirmations d of Some c \<Rightarrow> c | None \<Rightarrow> 0))
                   else if dr_error res \<and> td_code d = Some (- 5) then Inr Not_found
                   else Inl (Js_error ''chain: tx lookup''))))"

definition chain_broadcast :: "string option fetched \<Rightarrow> string daemon_reply fetched \<Rightarrow> exn + string" where
  "chain_broadcast explorer daemon =
     (let fallback = daemon_value ''chain: tx/send'' daemon
      in case explorer of
           Body (Some txid) \<Rightarrow> if txid \<noteq> [] then Inr txid else fallback
         | _ \<Rightarrow> fallback)"

definition balanceZats :: "zats fetched \<Rightarrow> zats fetched \<Rightarrow> exn + zats" where
  "balanceZats confirmed unconfirmed =
     (case get_json confirmed of
        Inl e \<Rightarrow> Inl e
      | Inr c \<Rightarrow> (case get_json unconfirmed of Inl e \<Rightarrow> Inl e | Inr u \<Rightarrow> Inr (c + u)))"

section \<open>Selection: sound, complete, and as few inputs as possible\<close>

abbreviation sats :: "utxo list \<Rightarrow> zats" where
  "sats us \<equiv> sum_list (map u_satoshis us)"

lemma take_until_Inr:
  "take_until needed us inputs tot = Inr sel \<Longrightarrow>
     \<exists>n. 0 < n \<and> n \<le> length us \<and> sel_inputs sel = inputs @ take n us
       \<and> sel_totalZats sel = tot + sats (take n us) \<and> needed \<le> sel_totalZats sel
       \<and> (\<forall>m. 0 < m \<longrightarrow> m < n \<longrightarrow> tot + sats (take m us) < needed)"
proof (induction needed us inputs tot rule: take_until.induct)
  case (2 needed u us inputs tot)
  show ?case
  proof (cases "needed \<le> tot + u_satoshis u")
    case True
    with "2.prems" show ?thesis by (intro exI [of _ 1]) auto
  next
    case False
    with "2.prems" have r: "take_until needed us (inputs @ [u]) (tot + u_satoshis u) = Inr sel"
      by (simp add: Let_def)
    obtain n where n: "0 < n" "n \<le> length us" "sel_inputs sel = (inputs @ [u]) @ take n us"
      "sel_totalZats sel = tot + u_satoshis u + sats (take n us)" "needed \<le> sel_totalZats sel"
      and less: "\<forall>m. 0 < m \<longrightarrow> m < n \<longrightarrow> tot + u_satoshis u + sats (take m us) < needed"
      using "2.IH" [OF refl refl False r] by blast
    have "tot + sats (take m (u # us)) < needed" if "0 < m" "m < Suc n" for m
      using that less False by (cases m; cases "m - 1") (auto simp: add.assoc)
    with n show ?thesis by (intro exI [of _ "Suc n"]) auto
  qed
qed simp

lemma take_until_Inl:
  "take_until needed us inputs tot = Inl e \<Longrightarrow>
     e = Insufficient_funds needed (tot + sats us) \<and> (us \<noteq> [] \<longrightarrow> tot + sats us < needed)"
proof (induction needed us inputs tot rule: take_until.induct)
  case (2 needed u us inputs tot)
  then show ?case by (cases "us = []") (auto simp: Let_def add.assoc split: if_splits)
qed simp

lemma set_usable: "u \<in> set (usable av ex) \<longleftrightarrow> u \<in> set av \<and> outpoint_key (u_out u) \<notin> ex"
  by (auto simp: usable_def)

lemma mset_usable: "mset (usable av ex) = mset (filter (\<lambda>u. outpoint_key (u_out u) \<notin> ex) av)"
  by (simp add: usable_def)

lemma selectUtxos_Inr:
  assumes "selectUtxos av ex needed = Inr sel"
  shows "sel_inputs sel \<noteq> []" and "sel_totalZats sel = sats (sel_inputs sel)"
    and "needed \<le> sel_totalZats sel"
    and "u \<in> set (sel_inputs sel) \<Longrightarrow> u \<in> set av \<and> outpoint_key (u_out u) \<notin> ex"
proof -
  obtain n where n: "0 < n" "n \<le> length (usable av ex)" "sel_inputs sel = take n (usable av ex)"
    "sel_totalZats sel = sats (take n (usable av ex))" "needed \<le> sel_totalZats sel"
    using take_until_Inr [OF assms [unfolded selectUtxos_def]] by auto
  then show "sel_inputs sel \<noteq> []" "sel_totalZats sel = sats (sel_inputs sel)" "needed \<le> sel_totalZats sel"
    by auto
  show "u \<in> set (sel_inputs sel) \<Longrightarrow> u \<in> set av \<and> outpoint_key (u_out u) \<notin> ex"
    using n(3) set_usable by (metis in_set_takeD)
qed

lemma selectUtxos_Inl:
  assumes "selectUtxos av ex needed = Inl e" and "0 < needed"
  shows "e = Insufficient_funds needed (sats (usable av ex)) \<and> sats (usable av ex) < needed"
  using take_until_Inl [OF assms(1) [unfolded selectUtxos_def]] assms(2) by (cases "usable av ex = []") auto

text \<open>Largest first: no choice of as many or fewer inputs has a larger sum.\<close>

lemma sats_take_shift:
  assumes "sorted (map (\<lambda>u. - u_satoshis u) (x # xs))" and "\<And>u. u \<in> set (x # xs) \<Longrightarrow> 0 \<le> u_satoshis u"
  shows "sats (take n xs) \<le> sats (take n (x # xs))"
  using assms
proof (induction xs arbitrary: x n)
  case Nil
  then show ?case by (cases n) simp_all
next
  case (Cons y ys)
  have "sats (take m ys) \<le> sats (take m (y # ys))" for m
    using Cons.prems by (intro Cons.IH) auto
  moreover have "u_satoshis y \<le> u_satoshis x" using Cons.prems(1) by simp
  ultimately show ?case by (cases n) (auto intro: add_mono)
qed

lemma sats_remove1: "x \<in> set ys \<Longrightarrow> sats ys = u_satoshis x + sats (remove1 x ys)"
  by (induction ys) auto

lemma sats_take_max:
  assumes "sorted (map (\<lambda>u. - u_satoshis u) xs)" and "\<And>x. x \<in> set xs \<Longrightarrow> 0 \<le> u_satoshis x"
    and "mset ys \<subseteq># mset xs"
  shows "sats ys \<le> sats (take (length ys) xs)"
  using assms
proof (induction xs arbitrary: ys)
  case (Cons x xs)
  have IH: "sats zs \<le> sats (take (length zs) xs)" if "mset zs \<subseteq># mset xs" for zs
    using that Cons.prems(1,2) by (intro Cons.IH) auto
  show ?case
  proof (cases "x \<in> set ys")
    case True
    have "mset (remove1 x ys) \<subseteq># mset xs"
      using Cons.prems(3) by (simp add: subset_eq_diff_conv)
    then have "sats (remove1 x ys) \<le> sats (take (length (remove1 x ys)) xs)" by (rule IH)
    moreover have "length ys = Suc (length (remove1 x ys))"
      using True length_pos_if_in_set [OF True] by (simp add: length_remove1)
    ultimately show ?thesis using sats_remove1 [OF True] by simp
  next
    case False
    then have "mset ys - {#x#} = mset ys" by (intro diff_single_trivial) simp
    moreover have "mset ys - {#x#} \<subseteq># mset xs"
      using Cons.prems(3) by (simp add: subset_eq_diff_conv)
    ultimately have "mset ys \<subseteq># mset xs" by simp
    then have "sats ys \<le> sats (take (length ys) xs)" by (rule IH)
    also have "\<dots> \<le> sats (take (length ys) (x # xs))"
      using Cons.prems(1,2) by (intro sats_take_shift) auto
    finally show ?thesis .
  qed
qed simp

lemma selectUtxos_fewest:
  assumes sel: "selectUtxos av ex needed = Inr sel"
    and nonneg: "\<And>u. u \<in> set av \<Longrightarrow> 0 \<le> u_satoshis u"
    and other: "mset us \<subseteq># mset (filter (\<lambda>u. outpoint_key (u_out u) \<notin> ex) av)"
    and enough: "needed \<le> sats us" "us \<noteq> []"
  shows "length (sel_inputs sel) \<le> length us"
proof (rule ccontr)
  let ?us = "usable av ex"
  assume "\<not> ?thesis"
  moreover obtain n where n: "0 < n" "n \<le> length ?us" "sel_inputs sel = take n ?us"
    and least: "\<And>m. 0 < m \<Longrightarrow> m < n \<Longrightarrow> sats (take m ?us) < needed"
    using take_until_Inr [OF sel [unfolded selectUtxos_def]] by auto
  ultimately have "sats (take (length us) ?us) < needed" using enough(2) by (intro least) auto
  moreover have "sats us \<le> sats (take (length us) ?us)"
  proof (rule sats_take_max)
    show "sorted (map (\<lambda>u. - u_satoshis u) ?us)" by (simp add: usable_def)
    show "0 \<le> u_satoshis x" if "x \<in> set ?us" for x using that nonneg by (simp add: set_usable)
    show "mset us \<subseteq># mset ?us" using other by (simp add: mset_usable)
  qed
  ultimately show False using enough(1) by simp
qed

section \<open>The transaction balances and reads the chain safely\<close>

definition out_zats :: "tx_out \<Rightarrow> zats" where
  "out_zats x = (case x of Pay a z \<Rightarrow> z | Null_data m \<Rightarrow> 0)"

text \<open>What the miner gets: the fee, or the fee and change too small to be worth an output.\<close>

lemma payment_tx_fee:
  assumes "buildPaymentTx ulib p = Inr b" and "bp_inputTotalZats p = sats (bp_inputs p)"
  defines "paid \<equiv> sum_list (map snd (x_inputs (payment_tx p))) - sum_list (map out_zats (x_outputs (payment_tx p)))"
  shows "bp_feeZats p \<le> paid" and "paid < bp_feeZats p + DUST_ZATS"
  using assms by (auto simp: buildPaymentTx_def payment_tx_def Let_def out_zats_def comp_def
      DUST_ZATS_def split: if_splits prod.splits)

lemma buildPaymentTx_Inr:
  "buildPaymentTx ulib p = Inr b \<Longrightarrow>
     b_hex b = fst (ulib (payment_tx p)) \<and> b_txid b = snd (ulib (payment_tx p))
     \<and> b_expiryHeight b = bp_tipHeight p + EXPIRY_DELTA \<and> b_spent b = map u_out (bp_inputs p)
     \<and> bp_amountZats p + bp_feeZats p \<le> bp_inputTotalZats p"
  by (auto simp: buildPaymentTx_def Let_def split: if_splits prod.splits)

text \<open>
  \<open>Not_found\<close> is only ever the daemon's own answer: never an explorer's 404, a failed
  request, or any other error of the daemon.
\<close>

lemma chain_tx_Not_found:
  "chain_tx ex da = Inr Not_found \<longleftrightarrow>
     (\<forall>c. ex \<noteq> Body c) \<and> (\<exists>r d. da = Body r \<and> \<not> dr_success r \<and> dr_error r
        \<and> dr_data r = Some d \<and> td_code d = Some (- 5))"
  by (cases ex; cases da) (auto simp: chain_tx_def get_json_def split: option.splits)

lemma chain_tx_Found:
  "chain_tx ex da = Inr (Found c) \<longleftrightarrow>
     (\<exists>o'. ex = Body o' \<and> c = (case o' of Some c \<Rightarrow> c | None \<Rightarrow> 0))
     \<or> (\<forall>c. ex \<noteq> Body c) \<and> (\<exists>r d. da = Body r \<and> dr_success r \<and> dr_data r = Some d
        \<and> c = (case td_confirmations d of Some c \<Rightarrow> c | None \<Rightarrow> 0))"
  by (cases ex; cases da) (auto simp: chain_tx_def get_json_def split: option.splits)

lemma tipHeight_Inr:
  "tipHeight ex da = Inr h \<longleftrightarrow>
     ex = Body (Some h) \<and> 0 < h
     \<or> (\<forall>b. ex = Body (Some b) \<longrightarrow> b \<le> 0) \<and> (\<exists>r. da = Body r \<and> dr_success r \<and> dr_data r = Some h)"
  by (cases ex; cases da)
    (auto simp: tipHeight_def daemon_value_def get_json_def Let_def split: option.splits)

end
