(* ===== verification/Workers.thy ===== *)
theory Workers
  imports Flux
begin

text \<open>
  The two workers that settle payments, as what they do between two awaits: the broadcaster
  (bridge/src/worker/broadcaster.ts) sizes, builds and records one transaction per tick, the
  confirmer (bridge/src/worker/confirmer.ts) decides about one broadcast row per lookup. The
  throttle of the alerter (bridge/src/worker/alerts.ts) and the breaker on invalid voucher
  attempts (bridge/src/breaker.ts) are here too. Log lines are left out.
\<close>

section \<open>Broadcaster\<close>

record settle_env =
  e_ulib :: "unsigned_tx \<Rightarrow> string \<times> string"
  e_b58 :: "string \<Rightarrow> bytes option"
  e_keyAddress :: string
  e_paymentAddress :: string
  e_priceSchedule :: schedule
  e_feeZats :: zats

definition payout_zats :: "schedule \<Rightarrow> int \<Rightarrow> int \<Rightarrow> zats" where
  "payout_zats sched tip days = zatsForDays (fluxToZats (maxEffective sched tip (tip + EXPIRY_DELTA))) days"

definition payment_params ::
  "settle_env \<Rightarrow> payment_row \<Rightarrow> int \<Rightarrow> utxo list \<Rightarrow> db \<Rightarrow> exn + build_params" where
  "payment_params env row tip utxos s =
     (let amountZats = payout_zats (e_priceSchedule env) tip (p_days row)
      in case selectUtxos utxos (spentOutpoints s) (amountZats + e_feeZats env) of
           Inl e \<Rightarrow> Inl e
         | Inr sel \<Rightarrow>
             (case memoForCode (e_b58 env) (p_payment_code row) of
                None \<Rightarrow> Inl (Js_error ''invalid payment code'')
              | Some memo \<Rightarrow>
                  Inr \<lparr>bp_key_address = e_keyAddress env, bp_inputs = sel_inputs sel,
                       bp_inputTotalZats = sel_totalZats sel,
                       bp_paymentAddress = e_paymentAddress env, bp_amountZats = amountZats,
                       bp_memo = memo, bp_feeZats = e_feeZats env, bp_tipHeight = tip\<rparr>))"

definition exn_message :: "exn \<Rightarrow> string" where
  "exn_message e =
     (case e of
        Insufficient_funds needed available \<Rightarrow>
          ''treasury has '' @ show_int available @ '' zats, need '' @ show_int needed
      | Js_error m \<Rightarrow> m
      | Sqlite_constraint \<Rightarrow> ''constraint failed''
      | Redeem_error r \<Rightarrow> ''redeem'')"

text \<open>
  The body of a tick once the two reads have settled (\<open>Inl\<close> if either threw): the bytes to
  broadcast, if any, and the kind of alert raised.
\<close>

definition broadcaster_build ::
  "settle_env \<Rightarrow> seconds \<Rightarrow> payment_row \<Rightarrow> exn + (int \<times> utxo list) \<Rightarrow> db \<Rightarrow>
   string option \<times> string option \<times> db" where
  "broadcaster_build env now row reads s =
     (let park = (\<lambda>e. (None,
            (case e of Insufficient_funds _ _ \<Rightarrow> Some ''treasury-empty'' | _ \<Rightarrow> None),
            recordFailure now (p_id row) (p_attempts row) (exn_message e) s))
      in case reads of
           Inl e \<Rightarrow> park e
         | Inr (tip, utxos) \<Rightarrow>
             (case payment_params env row tip utxos s of
                Inl e \<Rightarrow> park e
              | Inr p \<Rightarrow>
                  (case buildPaymentTx (e_ulib env) p of
                     Inl e \<Rightarrow> park e
                   | Inr b \<Rightarrow>
                       (case markBroadcast now (p_id row) (b_txid b) (b_hex b) (b_expiryHeight b)
                               (b_spent b) (Some (bp_amountZats p)) s of
                          (Inl e, _) \<Rightarrow> park e
                        | (Inr _, s') \<Rightarrow> (Some (b_hex b), None, s')))))"

section \<open>Confirmer\<close>

definition EXPIRY_SLACK :: int where
  "EXPIRY_SLACK = 20"

text \<open>One turn of the loop, with the answer to its lookup: the bytes to broadcast again.\<close>

definition confirmer_row ::
  "seconds \<Rightarrow> int \<Rightarrow> payment_row \<Rightarrow> exn + tx_answer \<Rightarrow> db \<Rightarrow> string option \<times> db" where
  "confirmer_row now tip row answer s =
     (case p_txid row of
        None \<Rightarrow> (None, s)
      | Some txid \<Rightarrow>
          if txid = [] then (None, s)
          else (case answer of
             Inl _ \<Rightarrow> (None, s)
           | Inr (Found confirmations) \<Rightarrow>
               if 1 \<le> confirmations then (None, markConfirmed now (p_id row) s) else (None, s)
           | Inr Not_found \<Rightarrow>
               if (case p_expiry_height row of None \<Rightarrow> False | Some x \<Rightarrow> x + EXPIRY_SLACK < tip)
               then (None, resetExpired (p_id row) txid s)
               else (case p_raw_hex row of
                       None \<Rightarrow> (None, s)
                     | Some hex \<Rightarrow> if hex = [] then (None, s) else (Some hex, s))))"

section \<open>Alerts\<close>

definition THROTTLE_MS :: millis where
  "THROTTLE_MS = 6 * 3600 * 1000"

text \<open>Whether the webhook is called, and the time it was last called per kind.\<close>

definition alert ::
  "string option \<Rightarrow> millis \<Rightarrow> string \<Rightarrow> (string \<rightharpoonup> millis) \<Rightarrow> bool \<times> (string \<rightharpoonup> millis)" where
  "alert webhookUrl nowMs kind lastSent =
     (case webhookUrl of
        None \<Rightarrow> (False, lastSent)
      | Some url \<Rightarrow>
          if url = [] then (False, lastSent)
          else if nowMs - (case lastSent kind of None \<Rightarrow> 0 | Some t \<Rightarrow> t) < THROTTLE_MS then (False, lastSent)
          else (True, lastSent(kind \<mapsto> nowMs)))"

section \<open>Breaker\<close>

record breaker =
  k_attempts :: "millis list"
  k_openUntil :: millis

record breaker_conf =
  kc_maxAttempts :: nat
  kc_windowMs :: millis
  kc_cooldownMs :: millis

definition new_breaker :: breaker where
  "new_breaker = \<lparr>k_attempts = [], k_openUntil = 0\<rparr>"

definition isOpen :: "millis \<Rightarrow> breaker \<Rightarrow> bool" where
  "isOpen now k \<longleftrightarrow> now < k_openUntil k"

text \<open>The flag is whether \<open>onTrip\<close> is called.\<close>

definition recordInvalid :: "breaker_conf \<Rightarrow> millis \<Rightarrow> breaker \<Rightarrow> bool \<times> breaker" where
  "recordInvalid c now k =
     (let attempts = filter (\<lambda>t. now - kc_windowMs c < t) (k_attempts k) @ [now]
      in if kc_maxAttempts c < length attempts \<and> \<not> isOpen now k
         then (True, \<lparr>k_attempts = [], k_openUntil = now + kc_cooldownMs c\<rparr>)
         else (False, k\<lparr>k_attempts := attempts\<rparr>))"

section \<open>What the workers do to a row\<close>

lemma payment_params_Inr:
  assumes "payment_params env row tip us s = Inr p"
  shows "bp_amountZats p = payout_zats (e_priceSchedule env) tip (p_days row)"
    and "bp_memo p = MEMO_PREFIX @ p_payment_code row"
    and "isValidPaymentCode (e_b58 env) (p_payment_code row)"
    and "bp_paymentAddress p = e_paymentAddress env" and "bp_tipHeight p = tip"
    and "bp_key_address p = e_keyAddress env" and "bp_feeZats p = e_feeZats env"
    and "bp_inputTotalZats p = sats (bp_inputs p)"
    and "bp_inputs p \<noteq> []"
    and "\<And>u. u \<in> set (bp_inputs p) \<Longrightarrow> u \<in> set us \<and> \<not> has_key sp_out (u_out u) (db_spent s)"
  using assms
  by (auto simp: payment_params_def Let_def memoForCode_Some mem_spentOutpoints [symmetric]
      dest: selectUtxos_Inr(1,2,4) split: sum.splits option.splits)

lemma broadcaster_build_None:
  assumes "broadcaster_build env now row reads s = (None, al, s')"
  obtains e where "s' = recordFailure now (p_id row) (p_attempts row) (exn_message e) s"
    and "al = (case e of Insufficient_funds _ _ \<Rightarrow> Some ''treasury-empty'' | _ \<Rightarrow> None)"
  using assms by (auto simp: broadcaster_build_def Let_def split: sum.splits prod.splits)

lemma broadcaster_build_Some:
  assumes "broadcaster_build env now row (Inr (tip, us)) s = (Some hex, al, s')"
    and params: "payment_params env row tip us s = Inr p"
  shows "hex = fst (e_ulib env (payment_tx p))"
    and "markBroadcast now (p_id row) (snd (e_ulib env (payment_tx p))) hex (tip + EXPIRY_DELTA)
      (map u_out (bp_inputs p)) (Some (bp_amountZats p)) s = (Inr (), s')"
proof -
  obtain b where b: "buildPaymentTx (e_ulib env) p = Inr b" and h: "hex = b_hex b"
    and m: "markBroadcast now (p_id row) (b_txid b) (b_hex b) (b_expiryHeight b)
              (b_spent b) (Some (bp_amountZats p)) s = (Inr (), s')"
    using assms by (auto simp: broadcaster_build_def Let_def split: sum.splits prod.splits)
  note * = buildPaymentTx_Inr [OF b] payment_params_Inr(5) [OF params]
  show "hex = fst (e_ulib env (payment_tx p))" using * h by simp
  show "markBroadcast now (p_id row) (snd (e_ulib env (payment_tx p))) hex (tip + EXPIRY_DELTA)
      (map u_out (bp_inputs p)) (Some (bp_amountZats p)) s = (Inr (), s')"
    using m unfolding h by (simp only: * conjunct1 conjunct2)
qed

section \<open>The alerter and the breaker\<close>

text \<open>At most one call per kind in any throttle window.\<close>

lemma alert_throttled:
  assumes "alert url t kind m = (True, m')" and "t' - t < THROTTLE_MS"
  shows "alert url t' kind m' = (False, m')"
  using assms by (auto simp: alert_def split: option.splits if_splits)

lemma alert_other_kind: "kind' \<noteq> kind \<Longrightarrow> snd (alert url t kind m) kind' = m kind'"
  by (auto simp: alert_def split: option.splits)

text \<open>
  The breaker holds at most \<open>maxAttempts\<close> attempts while it is closed, so that many invalid
  codes and one more inside a window trip it.
\<close>

definition recent :: "breaker_conf \<Rightarrow> millis \<Rightarrow> breaker \<Rightarrow> nat" where
  "recent c now k = length (filter (\<lambda>t. now - kc_windowMs c < t) (k_attempts k))"

lemma recordInvalid_trips:
  "fst (recordInvalid c now k) \<longleftrightarrow> \<not> isOpen now k \<and> kc_maxAttempts c \<le> recent c now k"
  by (auto simp: recordInvalid_def Let_def recent_def less_Suc_eq_le)

lemma recordInvalid_opens:
  assumes "fst (recordInvalid c now k)"
  shows "isOpen t (snd (recordInvalid c now k)) \<longleftrightarrow> t < now + kc_cooldownMs c"
    and "recent c t (snd (recordInvalid c now k)) = 0"
  using assms by (auto simp: recordInvalid_def Let_def isOpen_def recent_def split: if_splits)

lemma recordInvalid_keeps_open:
  "\<not> fst (recordInvalid c now k) \<Longrightarrow> k_openUntil (snd (recordInvalid c now k)) = k_openUntil k"
  by (auto simp: recordInvalid_def Let_def)

lemma recordInvalid_counts:
  assumes "\<not> fst (recordInvalid c now k)" and "0 < kc_windowMs c"
  shows "recent c now (snd (recordInvalid c now k)) = Suc (recent c now k)"
  using assms by (auto simp: recordInvalid_def Let_def recent_def comp_def split: if_splits)

text \<open>However the attempts arrive, a run of trips is separated by the cooldown.\<close>

lemma recordInvalid_spaced:
  assumes "fst (recordInvalid c t k)" and "t' < t + kc_cooldownMs c"
  shows "\<not> fst (recordInvalid c t' (snd (recordInvalid c t k)))"
  using assms recordInvalid_opens(1) [OF assms(1), of t'] by (simp add: recordInvalid_trips)

end
