(* ===== verification/Settlement.thy ===== *)
theory Settlement
  imports Workers
begin

text \<open>
  The settlement of payments as a transition system: the broadcaster, the confirmer, the
  webhooks that enqueue grants and the chain, interleaved at every await of the two workers
  (bridge/src/worker/broadcaster.ts, bridge/src/worker/confirmer.ts, bridge/src/db/payments.ts).
  A worker's local variables are part of the state while it waits; a crash forgets them and
  keeps the database.

  The chain is the environment. It mines a transaction that was relayed, not past its expiry
  height, and never two that spend one output. What the servers answer is only constrained
  by \<open>honest\<close>: a tip is not above the real one, a confirmation means the transaction was
  mined, and the daemon's ``no information available'' is at most \<open>EXPIRY_SLACK\<close> blocks
  behind, which is what the confirmer's constant is chosen for. The list of unspent outputs
  is constrained by the parameter \<open>view\<close> alone.
\<close>

section \<open>State\<close>

datatype bc_local = Bc_idle | Bc_reading payment_row | Bc_sending string

datatype cf_local =
    Cf_idle
  | Cf_reading "payment_row list"
  | Cf_rows int "payment_row list"
  | Cf_pushing string int "payment_row list"

text \<open>\<open>w_built\<close> records, for the statements only, which transaction was built for which row.\<close>

record world =
  w_db :: db
  w_tip :: int
  w_relayed :: "unsigned_tx list"
  w_mined :: "(unsigned_tx \<times> int) list"
  w_bc :: bc_local
  w_cf :: cf_local
  w_built :: "(nat \<times> unsigned_tx) list"

definition init_world :: "int \<Rightarrow> world" where
  "init_world tip =
     \<lparr>w_db = empty_db, w_tip = tip, w_relayed = [], w_mined = [], w_bc = Bc_idle, w_cf = Cf_idle,
      w_built = []\<rparr>"

definition tx_hex :: "settle_env \<Rightarrow> unsigned_tx \<Rightarrow> string" where
  "tx_hex env u = fst (e_ulib env u)"

definition tx_id :: "settle_env \<Rightarrow> unsigned_tx \<Rightarrow> string" where
  "tx_id env u = snd (e_ulib env u)"

definition tx_spends :: "unsigned_tx \<Rightarrow> outpoint set" where
  "tx_spends u = set (map fst (x_inputs u))"

definition mined_txs :: "world \<Rightarrow> unsigned_tx set" where
  "mined_txs w = fst ` set (w_mined w)"

definition txs_of :: "nat \<Rightarrow> world \<Rightarrow> unsigned_tx list" where
  "txs_of i w = map snd (filter (\<lambda>b. fst b = i) (w_built w))"

section \<open>Steps\<close>

definition honest :: "settle_env \<Rightarrow> world \<Rightarrow> string \<Rightarrow> exn + tx_answer \<Rightarrow> bool" where
  "honest env w txid answer =
     (case answer of
        Inl _ \<Rightarrow> True
      | Inr (Found c) \<Rightarrow> 1 \<le> c \<longrightarrow> (\<exists>u\<in>mined_txs w. tx_id env u = txid)
      | Inr Not_found \<Rightarrow> (\<forall>(u, h)\<in>set (w_mined w). tx_id env u = txid \<longrightarrow> w_tip w - EXPIRY_SLACK < h))"

definition block_ok :: "world \<Rightarrow> unsigned_tx list \<Rightarrow> bool" where
  "block_ok w us \<longleftrightarrow>
     distinct us \<and> set us \<subseteq> set (w_relayed w)
     \<and> (\<forall>u\<in>set us. w_tip w + 1 \<le> x_expiryHeight u \<and> u \<notin> mined_txs w)
     \<and> (\<forall>u\<in>set us. \<forall>v\<in>set us \<union> mined_txs w. u \<noteq> v \<longrightarrow> tx_spends u \<inter> tx_spends v = {})"

inductive settle_step :: "settle_env \<Rightarrow> (world \<Rightarrow> utxo list \<Rightarrow> bool) \<Rightarrow> world \<Rightarrow> world \<Rightarrow> bool"
  for env view where
  enqueue: "settle_step env view w (w\<lparr>w_db := snd (insertIdempotent now p (w_db w))\<rparr>)"
| b_start: "w_bc w = Bc_idle \<Longrightarrow> nextPending now (w_db w) = Some row \<Longrightarrow>
    settle_step env view w (w\<lparr>w_bc := Bc_reading row\<rparr>)"
| b_park: "w_bc w = Bc_reading row \<Longrightarrow> broadcaster_build env now row reads (w_db w) = (None, al, s') \<Longrightarrow>
    settle_step env view w (w\<lparr>w_db := s', w_bc := Bc_idle\<rparr>)"
| b_build: "w_bc w = Bc_reading row \<Longrightarrow> tip \<le> w_tip w \<Longrightarrow> view w us \<Longrightarrow>
    broadcaster_build env now row (Inr (tip, us)) (w_db w) = (Some hex, al, s') \<Longrightarrow>
    payment_params env row tip us (w_db w) = Inr p \<Longrightarrow>
    settle_step env view w
      (w\<lparr>w_built := w_built w @ [(p_id row, payment_tx p)], w_db := s', w_bc := Bc_sending hex\<rparr>)"
| b_sent: "w_bc w = Bc_sending hex \<Longrightarrow> (i, u) \<in> set (w_built w) \<Longrightarrow> tx_hex env u = hex \<Longrightarrow>
    settle_step env view w (w\<lparr>w_relayed := u # w_relayed w, w_bc := Bc_idle\<rparr>)"
| b_lost: "w_bc w = Bc_sending hex \<Longrightarrow> settle_step env view w (w\<lparr>w_bc := Bc_idle\<rparr>)"
| c_start: "w_cf w = Cf_idle \<Longrightarrow> allBroadcast (w_db w) \<noteq> [] \<Longrightarrow>
    settle_step env view w (w\<lparr>w_cf := Cf_reading (allBroadcast (w_db w))\<rparr>)"
| c_tip: "w_cf w = Cf_reading rows \<Longrightarrow> tip \<le> w_tip w \<Longrightarrow>
    settle_step env view w (w\<lparr>w_cf := Cf_rows tip rows\<rparr>)"
| c_fail: "w_cf w = Cf_reading rows \<Longrightarrow> settle_step env view w (w\<lparr>w_cf := Cf_idle\<rparr>)"
| c_row: "w_cf w = Cf_rows tip (row # rows) \<Longrightarrow>
    (\<And>txid. p_txid row = Some txid \<Longrightarrow> honest env w txid answer) \<Longrightarrow>
    confirmer_row now tip row answer (w_db w) = (again, s') \<Longrightarrow>
    settle_step env view w
      (w\<lparr>w_db := s', w_cf := (case again of None \<Rightarrow> Cf_rows tip rows | Some hex \<Rightarrow> Cf_pushing hex tip rows)\<rparr>)"
| c_pushed: "w_cf w = Cf_pushing hex tip rows \<Longrightarrow> (i, u) \<in> set (w_built w) \<Longrightarrow> tx_hex env u = hex \<Longrightarrow>
    settle_step env view w (w\<lparr>w_relayed := u # w_relayed w, w_cf := Cf_rows tip rows\<rparr>)"
| c_lost: "w_cf w = Cf_pushing hex tip rows \<Longrightarrow> settle_step env view w (w\<lparr>w_cf := Cf_rows tip rows\<rparr>)"
| c_done: "w_cf w = Cf_rows tip [] \<Longrightarrow> settle_step env view w (w\<lparr>w_cf := Cf_idle\<rparr>)"
| block: "block_ok w us \<Longrightarrow>
    settle_step env view w
      (w\<lparr>w_tip := w_tip w + 1, w_mined := w_mined w @ map (\<lambda>u. (u, w_tip w + 1)) us\<rparr>)"
| crash: "settle_step env view w (w\<lparr>w_bc := Bc_idle, w_cf := Cf_idle\<rparr>)"

abbreviation settle_reachable :: "settle_env \<Rightarrow> (world \<Rightarrow> utxo list \<Rightarrow> bool) \<Rightarrow> int \<Rightarrow> world \<Rightarrow> bool" where
  "settle_reachable env view tip w \<equiv> (settle_step env view)\<^sup>*\<^sup>* (init_world tip) w"

text \<open>A current list of unspent outputs: none that a mined transaction has spent.\<close>

definition fresh_view :: "world \<Rightarrow> utxo list \<Rightarrow> bool" where
  "fresh_view w us \<longleftrightarrow> (\<forall>u\<in>set us. \<forall>x\<in>mined_txs w. u_out u \<notin> tx_spends x)"

section \<open>The invariant\<close>

text \<open>A transaction that can never be mined any more.\<close>

definition dead :: "world \<Rightarrow> unsigned_tx \<Rightarrow> bool" where
  "dead w u \<longleftrightarrow> x_expiryHeight u \<le> w_tip w \<and> u \<notin> mined_txs w"

text \<open>
  A pending row has only dead transactions; a broadcast or confirmed one has exactly its
  last transaction alive or mined, and carries its id.
\<close>

definition row_ok :: "settle_env \<Rightarrow> world \<Rightarrow> payment_row \<Rightarrow> bool" where
  "row_ok env w r =
     (case p_status r of
        Pending \<Rightarrow> list_all (dead w) (txs_of (p_id r) w)
      | Broadcast \<Rightarrow> txs_of (p_id r) w \<noteq> [] \<and> list_all (dead w) (butlast (txs_of (p_id r) w))
          \<and> p_txid r = Some (tx_id env (last (txs_of (p_id r) w)))
          \<and> p_expiry_height r = Some (x_expiryHeight (last (txs_of (p_id r) w)))
      | Confirmed \<Rightarrow> txs_of (p_id r) w \<noteq> [] \<and> list_all (dead w) (butlast (txs_of (p_id r) w))
          \<and> p_txid r = Some (tx_id env (last (txs_of (p_id r) w)))
          \<and> (\<exists>u\<in>mined_txs w. tx_id env u = tx_id env (last (txs_of (p_id r) w)))
      | Failed \<Rightarrow> False)"

text \<open>What a transaction built for a row pays and says, and when it can be mined.\<close>

definition pays_for :: "settle_env \<Rightarrow> int \<Rightarrow> string \<Rightarrow> unsigned_tx \<Rightarrow> bool" where
  "pays_for env days code u \<longleftrightarrow>
     take 2 (x_outputs u) =
       [Pay (e_paymentAddress env) (payout_zats (e_priceSchedule env) (x_expiryHeight u - EXPIRY_DELTA) days),
        Null_data (MEMO_PREFIX @ code)]"

definition built_ok :: "settle_env \<Rightarrow> world \<Rightarrow> nat \<times> unsigned_tx \<Rightarrow> bool" where
  "built_ok env w b \<longleftrightarrow>
     (\<exists>r\<in>set (db_payments (w_db w)). p_id r = fst b \<and> pays_for env (p_days r) (p_payment_code r) (snd b))
     \<and> x_expiryHeight (snd b) - EXPIRY_DELTA \<le> w_tip w \<and> tx_spends (snd b) \<noteq> {}"

definition net_ok :: "world \<Rightarrow> bool" where
  "net_ok w \<longleftrightarrow>
     set (w_relayed w) \<subseteq> snd ` set (w_built w) \<and> mined_txs w \<subseteq> snd ` set (w_built w)
     \<and> (\<forall>(u, h)\<in>set (w_mined w). x_expiryHeight u - EXPIRY_DELTA < h \<and> h \<le> x_expiryHeight u \<and> h \<le> w_tip w)"

definition bc_ok :: "world \<Rightarrow> bool" where
  "bc_ok w = (case w_bc w of
     Bc_reading row \<Rightarrow> row \<in> set (db_payments (w_db w)) \<and> p_status row = Pending | _ \<Rightarrow> True)"

definition rows_ok :: "world \<Rightarrow> payment_row list \<Rightarrow> bool" where
  "rows_ok w rows \<longleftrightarrow> distinct (map p_id rows)
     \<and> (\<forall>r\<in>set rows. r \<in> set (db_payments (w_db w)) \<and> p_status r = Broadcast)"

definition cf_ok :: "world \<Rightarrow> bool" where
  "cf_ok w = (case w_cf w of
     Cf_idle \<Rightarrow> True
   | Cf_reading rows \<Rightarrow> rows_ok w rows
   | Cf_rows tip rows \<Rightarrow> tip \<le> w_tip w \<and> rows_ok w rows
   | Cf_pushing hex tip rows \<Rightarrow> tip \<le> w_tip w \<and> rows_ok w rows)"

definition core_inv :: "settle_env \<Rightarrow> world \<Rightarrow> bool" where
  "core_inv env w \<longleftrightarrow>
     db_wf (w_db w) \<and> (\<forall>r\<in>set (db_payments (w_db w)). row_ok env w r)
     \<and> (\<forall>b\<in>set (w_built w). built_ok env w b) \<and> net_ok w"

definition settle_inv :: "settle_env \<Rightarrow> world \<Rightarrow> bool" where
  "settle_inv env w \<longleftrightarrow> core_inv env w \<and> bc_ok w \<and> cf_ok w"

lemmas settle_inv_defs = settle_inv_def core_inv_def net_ok_def bc_ok_def cf_ok_def

lemma settle_inv_init: "settle_inv env (init_world tip)"
proof -
  have "db_payments empty_db = []" by (simp add: empty_db_def)
  then show ?thesis
    by (simp add: settle_inv_defs init_world_def db_wf_empty mined_txs_def)
qed

section \<open>Frames\<close>

lemma chain_frame [simp]:
  "mined_txs (w\<lparr>w_db := s\<rparr>) = mined_txs w" "mined_txs (w\<lparr>w_bc := b\<rparr>) = mined_txs w"
  "mined_txs (w\<lparr>w_cf := c\<rparr>) = mined_txs w" "mined_txs (w\<lparr>w_relayed := x\<rparr>) = mined_txs w"
  "mined_txs (w\<lparr>w_built := y\<rparr>) = mined_txs w"
  "txs_of i (w\<lparr>w_db := s\<rparr>) = txs_of i w" "txs_of i (w\<lparr>w_bc := b\<rparr>) = txs_of i w"
  "txs_of i (w\<lparr>w_cf := c\<rparr>) = txs_of i w" "txs_of i (w\<lparr>w_relayed := x\<rparr>) = txs_of i w"
  "dead (w\<lparr>w_db := s\<rparr>) = dead w" "dead (w\<lparr>w_bc := b\<rparr>) = dead w" "dead (w\<lparr>w_cf := c\<rparr>) = dead w"
  "dead (w\<lparr>w_relayed := x\<rparr>) = dead w" "dead (w\<lparr>w_built := y\<rparr>) = dead w"
  by (simp_all add: mined_txs_def txs_of_def dead_def fun_eq_iff)

lemma row_frame [simp]:
  "row_ok env (w\<lparr>w_db := s\<rparr>) = row_ok env w" "row_ok env (w\<lparr>w_bc := b\<rparr>) = row_ok env w"
  "row_ok env (w\<lparr>w_cf := c\<rparr>) = row_ok env w" "row_ok env (w\<lparr>w_relayed := x\<rparr>) = row_ok env w"
  by (simp_all add: row_ok_def fun_eq_iff split: payment_status.split)

lemma built_frame [simp]:
  "built_ok env (w\<lparr>w_bc := b\<rparr>) = built_ok env w" "built_ok env (w\<lparr>w_cf := c\<rparr>) = built_ok env w"
  "built_ok env (w\<lparr>w_relayed := x\<rparr>) = built_ok env w"
  "built_ok env (w\<lparr>w_built := y\<rparr>) = built_ok env w"
  by (simp_all add: built_ok_def fun_eq_iff)

lemma net_frame [simp]:
  "net_ok (w\<lparr>w_db := s\<rparr>) = net_ok w" "net_ok (w\<lparr>w_bc := b\<rparr>) = net_ok w" "net_ok (w\<lparr>w_cf := c\<rparr>) = net_ok w"
  by (simp_all add: net_ok_def)

lemma core_frame [simp]:
  "core_inv env (w\<lparr>w_bc := b\<rparr>) = core_inv env w" "core_inv env (w\<lparr>w_cf := c\<rparr>) = core_inv env w"
  by (simp_all add: core_inv_def)

lemma locals_frame [simp]:
  "bc_ok (w\<lparr>w_cf := c\<rparr>) = bc_ok w" "cf_ok (w\<lparr>w_bc := b\<rparr>) = cf_ok w"
  "bc_ok (w\<lparr>w_relayed := x\<rparr>) = bc_ok w" "cf_ok (w\<lparr>w_relayed := x\<rparr>) = cf_ok w"
  "rows_ok (w\<lparr>w_cf := c\<rparr>) = rows_ok w" "rows_ok (w\<lparr>w_bc := b\<rparr>) = rows_ok w"
  "rows_ok (w\<lparr>w_relayed := x\<rparr>) = rows_ok w"
  by (simp_all add: bc_ok_def cf_ok_def rows_ok_def fun_eq_iff split: bc_local.split cf_local.split)

text \<open>Replacing the database: every row in order, every row still there.\<close>

definition kept :: "payment_row list \<Rightarrow> payment_row list \<Rightarrow> bool" where
  "kept ps ps' \<longleftrightarrow> (\<forall>r\<in>set ps. \<exists>r'\<in>set ps'. p_id r' = p_id r \<and> p_days r' = p_days r
     \<and> p_payment_code r' = p_payment_code r)"

lemma built_ok_db:
  assumes "built_ok env w b" and "kept (db_payments (w_db w)) (db_payments s')"
  shows "built_ok env (w\<lparr>w_db := s'\<rparr>) b"
  using assms by (fastforce simp: built_ok_def kept_def)

lemma core_inv_db:
  assumes "core_inv env w" and "db_wf s'" and "kept (db_payments (w_db w)) (db_payments s')"
    and "\<And>r. r \<in> set (db_payments s') \<Longrightarrow> row_ok env w r"
  shows "core_inv env (w\<lparr>w_db := s'\<rparr>)"
  using assms by (auto simp: core_inv_def intro: built_ok_db)

lemma kept_update:
  assumes "\<And>r. p_id (f r) = p_id r \<and> p_days (f r) = p_days r \<and> p_payment_code (f r) = p_payment_code r"
  shows "kept ps (update_where P f ps)"
  using assms by (auto simp: kept_def update_where_def)

lemma in_update_other: "r \<in> set rs \<Longrightarrow> \<not> P r \<Longrightarrow> r \<in> set (update_where P f rs)"
  by (auto simp: update_where_def)

text \<open>The core after one row, found by its id, is rewritten.\<close>

lemma core_inv_update:
  assumes inv: "core_inv env w" and r: "r \<in> set (db_payments (w_db w))"
    and s': "db_payments s' = update_where (\<lambda>x. p_id x = p_id r) f (db_payments (w_db w))" "db_wf s'"
    and f: "\<And>x. p_id (f x) = p_id x \<and> p_days (f x) = p_days x \<and> p_payment_code (f x) = p_payment_code x"
    and ok: "row_ok env w (f r)"
  shows "core_inv env (w\<lparr>w_db := s'\<rparr>)"
proof (rule core_inv_db [OF inv s'(2)])
  show "kept (db_payments (w_db w)) (db_payments s')" unfolding s'(1) using f by (rule kept_update)
  fix x assume "x \<in> set (db_payments s')"
  then show "row_ok env w x"
    unfolding s'(1)
  proof (rule in_update_whereE)
    fix y assume "y \<in> set (db_payments (w_db w))" "p_id y = p_id r" "x = f y"
    moreover have "unique_key p_id (db_payments (w_db w))"
      using inv by (simp add: core_inv_def db_wf_def payments_wf_def)
    ultimately show "row_ok env w x" using ok r unique_keyD by metis
  qed (use inv in \<open>simp add: core_inv_def\<close>)
qed

text \<open>The workers' snapshots survive a rewrite of another row.\<close>

lemma rows_ok_update:
  assumes "rows_ok w rows" and "i \<notin> p_id ` set rows"
    and "db_payments s' = update_where (\<lambda>x. p_id x = i) f (db_payments (w_db w))"
  shows "rows_ok (w\<lparr>w_db := s'\<rparr>) rows"
  using assms by (auto simp: rows_ok_def intro!: in_update_other)

lemma status_ids:
  assumes "core_inv env w" and "r \<in> set (db_payments (w_db w))" and "x \<in> set (db_payments (w_db w))"
    and "p_status r \<noteq> p_status x"
  shows "p_id r \<noteq> p_id x"
  using assms unique_keyD [of p_id "db_payments (w_db w)" r x]
  by (auto simp: core_inv_def db_wf_def payments_wf_def)

definition cf_rows :: "cf_local \<Rightarrow> payment_row list" where
  "cf_rows c = (case c of Cf_idle \<Rightarrow> [] | Cf_reading rows \<Rightarrow> rows | Cf_rows tip rows \<Rightarrow> rows
     | Cf_pushing hex tip rows \<Rightarrow> rows)"

definition cf_tip_ok :: "world \<Rightarrow> bool" where
  "cf_tip_ok w = (case w_cf w of Cf_rows tip rows \<Rightarrow> tip \<le> w_tip w
     | Cf_pushing hex tip rows \<Rightarrow> tip \<le> w_tip w | _ \<Rightarrow> True)"

lemma cf_ok_alt: "cf_ok w \<longleftrightarrow> rows_ok w (cf_rows (w_cf w)) \<and> cf_tip_ok w"
  by (auto simp: cf_ok_def cf_rows_def cf_tip_ok_def rows_ok_def split: cf_local.splits)

lemma cf_ok_pending_update:
  assumes "settle_inv env w" and "r \<in> set (db_payments (w_db w))" and "p_status r = Pending"
    and "db_payments s' = update_where (\<lambda>x. p_id x = p_id r) f (db_payments (w_db w))"
  shows "cf_ok (w\<lparr>w_db := s'\<rparr>)"
proof -
  have core: "core_inv env w" and cf: "cf_ok w" using assms(1) by (simp_all add: settle_inv_def)
  have rows: "rows_ok w (cf_rows (w_cf w))" using cf by (simp add: cf_ok_alt)
  have "p_id r \<notin> p_id ` set (cf_rows (w_cf w))"
    using status_ids [OF core assms(2)] rows assms(3) by (fastforce simp: rows_ok_def)
  from rows_ok_update [OF rows this assms(4)] cf show ?thesis
    by (simp add: cf_ok_alt cf_tip_ok_def split: cf_local.splits)
qed

section \<open>Each step keeps the invariant\<close>

lemma step_enqueue:
  assumes inv: "settle_inv env w"
  shows "settle_inv env (w\<lparr>w_db := snd (insertIdempotent now p (w_db w))\<rparr>)"
proof -
  let ?ps = "db_payments (w_db w)" and ?s = "snd (insertIdempotent now p (w_db w))"
  have core: "core_inv env w" using inv by (simp add: settle_inv_def)
  have new: "db_payments ?s = ?ps \<or> (\<exists>r. db_payments ?s = ?ps @ [r] \<and> p_status r = Pending
      \<and> p_id r = next_rowid (map p_id ?ps))"
    by (auto simp: insertIdempotent_def Let_def)
  have "txs_of (next_rowid (map p_id ?ps)) w = []"
  proof -
    have "fst b \<noteq> next_rowid (map p_id ?ps)" if "b \<in> set (w_built w)" for b
    proof -
      from core that obtain r where "r \<in> set ?ps" "p_id r = fst b"
        by (auto simp: core_inv_def built_ok_def)
      then have "fst b \<in> set (map p_id ?ps)" by (metis image_eqI list.set_map)
      then show ?thesis using next_rowid_notin [of "map p_id ?ps"] by metis
    qed
    then show ?thesis by (simp add: txs_of_def filter_empty_conv)
  qed
  then have "row_ok env w r" if "r \<in> set (db_payments ?s)" for r
    using new that core by (auto simp: core_inv_def) (simp add: row_ok_def)
  moreover have "kept ?ps (db_payments ?s)" using new by (auto simp: kept_def)
  moreover have "db_wf ?s" using core insertIdempotent_wf by (simp add: core_inv_def)
  ultimately have "core_inv env (w\<lparr>w_db := ?s\<rparr>)" using core_inv_db [OF core] by simp
  moreover have "set ?ps \<subseteq> set (db_payments ?s)" using new by auto
  then have "bc_ok (w\<lparr>w_db := ?s\<rparr>)" "cf_ok (w\<lparr>w_db := ?s\<rparr>)"
    using inv by (auto simp: settle_inv_def bc_ok_def cf_ok_def rows_ok_def
        split: bc_local.splits cf_local.splits)
  ultimately show ?thesis by (simp add: settle_inv_def)
qed

lemma step_b_park:
  assumes inv: "settle_inv env w" and bc: "w_bc w = Bc_reading row"
    and build: "broadcaster_build env now row reads (w_db w) = (None, al, s')"
  shows "settle_inv env (w\<lparr>w_db := s', w_bc := Bc_idle\<rparr>)"
proof -
  have core: "core_inv env w" and row: "row \<in> set (db_payments (w_db w))" "p_status row = Pending"
    using inv bc by (simp_all add: settle_inv_def bc_ok_def)
  from build obtain e where s': "s' = recordFailure now (p_id row) (p_attempts row) e (w_db w)"
    by (rule broadcaster_build_None) simp
  let ?f = "\<lambda>r. r\<lparr>p_attempts := p_attempts row + 1, p_next_retry_at := now + retry_delay (p_attempts row),
    p_last_error := Some (take 500 e)\<rparr>"
  have ps: "db_payments s' = update_where (\<lambda>r. p_id r = p_id row) ?f (db_payments (w_db w))"
    by (simp add: s' recordFailure_def)
  have "row_ok env w row" using core row by (simp add: core_inv_def)
  then have "row_ok env w (?f row)" by (simp add: row_ok_def split: payment_status.splits)
  moreover have "db_wf s'" using core recordFailure_wf by (simp add: s' core_inv_def)
  ultimately have "core_inv env (w\<lparr>w_db := s'\<rparr>)"
    using core_inv_update [OF core row(1) ps] by simp
  moreover have "cf_ok (w\<lparr>w_db := s'\<rparr>)" by (rule cf_ok_pending_update [OF inv row ps])
  ultimately show ?thesis by (simp add: settle_inv_def bc_ok_def)
qed

lemma txs_of_snoc: "txs_of i (w\<lparr>w_built := w_built w @ [(j, u)]\<rparr>) = txs_of i w @ (if j = i then [u] else [])"
  by (simp add: txs_of_def)

lemma row_ok_snoc:
  "p_id r \<noteq> j \<Longrightarrow> row_ok env (w\<lparr>w_built := w_built w @ [(j, u)]\<rparr>) r = row_ok env w r"
  by (simp add: row_ok_def txs_of_snoc split: payment_status.splits)

lemma markBroadcast_payments:
  assumes "markBroadcast now i t h e sp (Some z) s = (Inr (), s')"
  shows "db_payments s' = update_where (\<lambda>r. p_id r = i)
        (\<lambda>r. r\<lparr>p_status := Broadcast, p_txid := Some t, p_raw_hex := Some h,
               p_expiry_height := Some e, p_broadcast_at := Some now, p_last_error := None,
               p_flux_zats := z\<rparr>) (db_payments s)"
    and "db_spent s' = fold (insert_outpoint now t) sp (db_spent s)"
  using assms by (auto simp: markBroadcast_def split: if_splits)

lemma payment_tx_simps [simp]:
  "x_expiryHeight (payment_tx p) = bp_tipHeight p + EXPIRY_DELTA"
  "map fst (x_inputs (payment_tx p)) = map u_out (bp_inputs p)"
  "take 2 (x_outputs (payment_tx p)) = [Pay (bp_paymentAddress p) (bp_amountZats p), Null_data (bp_memo p)]"
  by (simp_all add: payment_tx_def Let_def comp_def)

lemma tx_spends_payment: "tx_spends (payment_tx p) = u_out ` set (bp_inputs p)"
  unfolding tx_spends_def payment_tx_simps(2) by simp

lemma step_b_build:
  assumes inv: "settle_inv env w" and bc: "w_bc w = Bc_reading row" and tip: "tip \<le> w_tip w"
    and build: "broadcaster_build env now row (Inr (tip, us)) (w_db w) = (Some hex, al, s')"
    and params: "payment_params env row tip us (w_db w) = Inr p"
  shows "settle_inv env (w\<lparr>w_built := w_built w @ [(p_id row, payment_tx p)], w_db := s', w_bc := Bc_sending hex\<rparr>)"
proof -
  let ?u = "payment_tx p" and ?ps = "db_payments (w_db w)"
  let ?w = "w\<lparr>w_built := w_built w @ [(p_id row, ?u)]\<rparr>"
  have core: "core_inv env w" and row: "row \<in> set ?ps" "p_status row = Pending"
    using inv bc by (simp_all add: settle_inv_def bc_ok_def)
  note pp = payment_params_Inr [OF params]
  note mb = broadcaster_build_Some(2) [OF build params]
  let ?f = "\<lambda>r. r\<lparr>p_status := Broadcast, p_txid := Some (tx_id env ?u), p_raw_hex := Some hex,
      p_expiry_height := Some (tip + EXPIRY_DELTA), p_broadcast_at := Some now, p_last_error := None,
      p_flux_zats := bp_amountZats p\<rparr>"
  have ps: "db_payments s' = update_where (\<lambda>r. p_id r = p_id row) ?f ?ps"
    using markBroadcast_payments(1) [OF mb] by (simp add: tx_id_def)
  have kept: "kept ?ps (db_payments s')" unfolding ps by (rule kept_update) simp
  have wf: "db_wf s'" using core markBroadcast_wf [of "w_db w"] mb by (metis core_inv_def snd_conv)
  have uniq: "unique_key p_id ?ps" using core by (simp add: core_inv_def db_wf_def payments_wf_def)
  have "list_all (dead w) (txs_of (p_id row) w)"
    using core row by (auto simp: core_inv_def row_ok_def)
  then have fr: "row_ok env ?w (?f row)"
    by (simp add: row_ok_def txs_of_snoc pp(5))
  have rows: "row_ok env ?w r" if "r \<in> set (db_payments s')" for r
    using that unfolding ps
  proof (rule in_update_whereE)
    fix y assume y: "y \<in> set ?ps" "p_id y = p_id row" "r = ?f y"
    then have "y = row" using unique_keyD [OF uniq y(1) row(1) y(2)] by simp
    then show ?thesis unfolding y(3) using fr by simp
  next
    assume "r \<in> set ?ps" "p_id r \<noteq> p_id row"
    then show ?thesis using core by (simp add: row_ok_snoc core_inv_def)
  qed
  have "built_ok env ?w b" if "b \<in> set (w_built w)" for b
    using core that by (simp add: core_inv_def)
  moreover have "built_ok env ?w (p_id row, ?u)"
    unfolding built_ok_def
  proof (intro conjI bexI)
    show "pays_for env (p_days row) (p_payment_code row) (snd (p_id row, ?u))"
      by (simp add: pays_for_def pp(1,2,4,5))
    show "tx_spends (snd (p_id row, ?u)) \<noteq> {}" using pp(9) by (simp add: tx_spends_payment)
  qed (use row(1) tip pp(5) in simp_all)
  ultimately have "built_ok env ?w b" if "b \<in> set (w_built ?w)" for b
    using that by (cases b) auto
  then have "built_ok env (?w\<lparr>w_db := s'\<rparr>) b" if "b \<in> set (w_built ?w)" for b
    using that kept by (intro built_ok_db) simp_all
  moreover have "net_ok ?w" using core by (auto simp: core_inv_def net_ok_def)
  ultimately have "core_inv env (?w\<lparr>w_db := s'\<rparr>)" using rows wf by (simp add: core_inv_def)
  moreover have "cf_ok (w\<lparr>w_db := s'\<rparr>)" by (rule cf_ok_pending_update [OF inv row ps])
  then have "cf_ok (?w\<lparr>w_db := s'\<rparr>)" by (simp add: cf_ok_def rows_ok_def split: cf_local.splits)
  ultimately have "settle_inv env (?w\<lparr>w_db := s'\<rparr>\<lparr>w_bc := Bc_sending hex\<rparr>)"
    by (simp add: settle_inv_def) (simp add: bc_ok_def)
  then show ?thesis by simp
qed

text \<open>A lookup that finds the transaction, or establishes that it is gone for good.\<close>

lemma not_found_dead:
  assumes net: "net_ok w" and u: "u \<in> snd ` set (w_built w)"
    and tip: "tip \<le> w_tip w" "x_expiryHeight u + EXPIRY_SLACK < tip"
    and ans: "honest env w (tx_id env u) (Inr Not_found)"
  shows "dead w u"
proof -
  have "u \<notin> mined_txs w"
  proof
    assume "u \<in> mined_txs w"
    then obtain h where "(u, h) \<in> set (w_mined w)" by (auto simp: mined_txs_def)
    then have "h \<le> x_expiryHeight u" "w_tip w - EXPIRY_SLACK < h"
      using net ans by (auto simp: net_ok_def honest_def)
    with tip show False by simp
  qed
  moreover have "0 \<le> EXPIRY_SLACK" by (simp add: EXPIRY_SLACK_def)
  ultimately show ?thesis using tip by (simp add: dead_def)
qed

lemma confirmer_row_cases:
  assumes "confirmer_row now tip row answer s = (again, s')"
  obtains "s' = s"
  | txid c where "again = None" "p_txid row = Some txid" "answer = Inr (Found c)" "1 \<le> c"
      "s' = markConfirmed now (p_id row) s"
  | txid x where "again = None" "p_txid row = Some txid" "answer = Inr Not_found"
      "p_expiry_height row = Some x" "x + EXPIRY_SLACK < tip" "s' = resetExpired (p_id row) txid s"
  using assms by (auto simp: confirmer_row_def split: option.splits if_splits sum.splits tx_answer.splits)

lemma step_c_row:
  assumes inv: "settle_inv env w" and cf: "w_cf w = Cf_rows tip (row # rows)"
    and ans: "\<And>txid. p_txid row = Some txid \<Longrightarrow> honest env w txid answer"
    and step: "confirmer_row now tip row answer (w_db w) = (again, s')"
  shows "settle_inv env (w\<lparr>w_db := s',
    w_cf := (case again of None \<Rightarrow> Cf_rows tip rows | Some hex \<Rightarrow> Cf_pushing hex tip rows)\<rparr>)"
proof -
  have core: "core_inv env w" and bc: "bc_ok w" and tip: "tip \<le> w_tip w"
    and rows: "rows_ok w (row # rows)"
    using inv cf by (simp_all add: settle_inv_def cf_ok_def)
  have row: "row \<in> set (db_payments (w_db w))" "p_status row = Broadcast"
    and rest: "rows_ok w rows" "p_id row \<notin> p_id ` set rows"
    using rows by (auto simp: rows_ok_def)
  have net: "net_ok w" and wf: "db_wf (w_db w)" using core by (simp_all add: core_inv_def)
  define u where "u = last (txs_of (p_id row) w)"
  have r: "txs_of (p_id row) w \<noteq> []" "list_all (dead w) (butlast (txs_of (p_id row) w))"
    "p_txid row = Some (tx_id env u)" "p_expiry_height row = Some (x_expiryHeight u)"
    using core row by (auto simp: core_inv_def row_ok_def u_def)
  then have u: "u \<in> set (txs_of (p_id row) w)" by (simp add: u_def)
  have ub: "u \<in> snd ` set (w_built w)" using u by (auto simp: txs_of_def)
  have fin: "settle_inv env (w\<lparr>w_db := s', w_cf := c\<rparr>)"
    if "core_inv env (w\<lparr>w_db := s'\<rparr>)" "cf_rows c = rows" "cf_tip_ok (w\<lparr>w_cf := c\<rparr>)"
      "db_payments s' = db_payments (w_db w)
       \<or> db_payments s' = update_where (\<lambda>x. p_id x = p_id row) f (db_payments (w_db w))" for c f
  proof -
    have "rows_ok (w\<lparr>w_db := s'\<rparr>) rows"
      using that(4) rest rows_ok_update [OF rest] by (auto simp: rows_ok_def)
    moreover have "bc_ok (w\<lparr>w_db := s'\<rparr>)"
    proof (cases "w_bc w")
      case (Bc_reading q)
      then have "q \<in> set (db_payments (w_db w))" "p_status q = Pending" using bc by (simp_all add: bc_ok_def)
      moreover from this have "p_id q \<noteq> p_id row" using status_ids [OF core _ row(1)] row(2) by simp
      ultimately show ?thesis using that(4) Bc_reading by (auto simp: bc_ok_def intro!: in_update_other)
    qed (simp_all add: bc_ok_def)
    ultimately show ?thesis using that(1-3)
      by (simp add: settle_inv_def cf_ok_alt) (simp add: cf_tip_ok_def rows_ok_def bc_ok_def split: cf_local.splits)
  qed
  let ?c = "case again of None \<Rightarrow> Cf_rows tip rows | Some hex \<Rightarrow> Cf_pushing hex tip rows"
  have c: "cf_rows ?c = rows" "cf_tip_ok (w\<lparr>w_cf := ?c\<rparr>)"
    using tip by (simp_all add: cf_rows_def cf_tip_ok_def split: option.splits)
  from step show ?thesis
  proof (cases rule: confirmer_row_cases)
    case 1
    then show ?thesis using core c by (intro fin) simp_all
  next
    case (2 txid conf)
    let ?f = "\<lambda>x. x\<lparr>p_status := Confirmed, p_raw_hex := None, p_confirmed_at := Some now\<rparr>"
    have ps: "db_payments s' = update_where (\<lambda>x. p_id x = p_id row) ?f (db_payments (w_db w))"
      by (simp add: 2 markConfirmed_def)
    have "\<exists>x\<in>mined_txs w. tx_id env x = tx_id env u"
      using ans [of "tx_id env u"] r(3) 2 by (simp add: honest_def)
    then have "row_ok env w (?f row)" using r by (simp add: row_ok_def u_def)
    moreover have "db_wf s'" using wf markConfirmed_wf by (simp add: 2)
    ultimately have "core_inv env (w\<lparr>w_db := s'\<rparr>)"
      using core_inv_update [OF core row(1) ps] by simp
    then show ?thesis by (rule fin [OF _ c disjI2 [OF ps]])
  next
    case (3 txid x)
    let ?f = "\<lambda>x. x\<lparr>p_status := Pending, p_txid := None, p_raw_hex := None, p_expiry_height := None,
                p_broadcast_at := None, p_next_retry_at := 0,
                p_last_error := Some ''tx expired unmined''\<rparr>"
    have ps: "db_payments s' = update_where (\<lambda>x. p_id x = p_id row) ?f (db_payments (w_db w))"
      by (simp add: 3 resetExpired_def)
    have "dead w u" using not_found_dead [OF net ub tip] ans [of "tx_id env u"] r(3,4) 3 by simp
    then have "list_all (dead w) (butlast (txs_of (p_id row) w) @ [u])" using r(2) by simp
    then have "list_all (dead w) (txs_of (p_id row) w)" using r(1) by (simp add: u_def)
    then have "row_ok env w (?f row)" by (simp add: row_ok_def)
    moreover have "db_wf s'" using wf resetExpired_wf by (simp add: 3)
    ultimately have "core_inv env (w\<lparr>w_db := s'\<rparr>)"
      using core_inv_update [OF core row(1) ps] by simp
    then show ?thesis by (rule fin [OF _ c disjI2 [OF ps]])
  qed
qed

lemma step_block:
  assumes inv: "settle_inv env w" and b: "block_ok w us"
  shows "settle_inv env (w\<lparr>w_tip := w_tip w + 1, w_mined := w_mined w @ map (\<lambda>u. (u, w_tip w + 1)) us\<rparr>)"
    (is "settle_inv env ?w")
proof -
  have core: "core_inv env w" using inv by (simp add: settle_inv_def)
  have mined: "mined_txs ?w = mined_txs w \<union> set us" by (force simp: mined_txs_def)
  have dead: "dead ?w u" if "dead w u" for u
    using that b by (auto simp: dead_def mined block_ok_def)
  have txs: "txs_of i ?w = txs_of i w" for i by (simp add: txs_of_def)
  have "row_ok env ?w r" if "row_ok env w r" for r
    using that dead by (auto simp: row_ok_def txs mined list_all_iff split: payment_status.splits)
  moreover have "built_ok env ?w x" if "built_ok env w x" for x
    using that by (auto simp: built_ok_def)
  moreover have "net_ok ?w"
  proof -
    have us: "u \<in> snd ` set (w_built w)" "w_tip w + 1 \<le> x_expiryHeight u" if "u \<in> set us" for u
      using that b core by (auto simp: block_ok_def core_inv_def net_ok_def)
    have "x_expiryHeight u - EXPIRY_DELTA \<le> w_tip w" if "u \<in> set us" for u
      using us(1) [OF that] core by (auto simp: core_inv_def built_ok_def)
    with us core show ?thesis unfolding net_ok_def mined by (auto simp: core_inv_def net_ok_def)
  qed
  ultimately have "core_inv env ?w" using core by (simp add: core_inv_def)
  moreover have "bc_ok ?w" "cf_ok ?w"
    using inv by (auto simp: settle_inv_def bc_ok_def cf_ok_def rows_ok_def split: bc_local.splits cf_local.splits)
  ultimately show ?thesis by (simp add: settle_inv_def)
qed

lemma step_relay:
  assumes "settle_inv env w" and "(i, u) \<in> set (w_built w)"
  shows "settle_inv env (w\<lparr>w_relayed := u # w_relayed w\<rparr>)"
proof -
  have "u \<in> snd ` set (w_built w)" using assms(2) by (rule image_eqI [rotated]) simp
  then have "net_ok w \<Longrightarrow> net_ok (w\<lparr>w_relayed := u # w_relayed w\<rparr>)" by (simp add: net_ok_def)
  with assms(1) show ?thesis by (simp add: settle_inv_def core_inv_def)
qed

lemma step_bc:
  assumes "settle_inv env w" and "bc_ok (w\<lparr>w_bc := b\<rparr>)"
  shows "settle_inv env (w\<lparr>w_bc := b\<rparr>)"
  using assms by (simp add: settle_inv_def)

lemma step_cf:
  assumes "settle_inv env w" and "rows_ok w (cf_rows c)" and "cf_tip_ok (w\<lparr>w_cf := c\<rparr>)"
  shows "settle_inv env (w\<lparr>w_cf := c\<rparr>)"
  using assms by (simp add: settle_inv_def cf_ok_alt)

lemma cf_simps [simp]:
  "cf_rows Cf_idle = []" "cf_rows (Cf_reading rows) = rows" "cf_rows (Cf_rows tip rows) = rows"
  "cf_rows (Cf_pushing hex tip rows) = rows"
  "cf_tip_ok (w\<lparr>w_cf := Cf_idle\<rparr>)" "cf_tip_ok (w\<lparr>w_cf := Cf_reading rows\<rparr>)"
  "cf_tip_ok (w\<lparr>w_cf := Cf_rows tip rows\<rparr>) = (tip \<le> w_tip w)"
  "cf_tip_ok (w\<lparr>w_cf := Cf_pushing hex tip rows\<rparr>) = (tip \<le> w_tip w)"
  "rows_ok w []"
  by (simp_all add: cf_rows_def cf_tip_ok_def rows_ok_def)

lemma cf_invs:
  assumes "settle_inv env w"
  shows "rows_ok w (cf_rows (w_cf w))"
    and "w_cf w = Cf_rows tip rows \<Longrightarrow> tip \<le> w_tip w"
    and "w_cf w = Cf_pushing hex tip rows \<Longrightarrow> tip \<le> w_tip w"
  using assms by (auto simp: settle_inv_def cf_ok_alt cf_tip_ok_def)

lemma allBroadcast_rows_ok:
  assumes "settle_inv env w"
  shows "rows_ok w (allBroadcast (w_db w))"
proof -
  have "distinct (map p_id (db_payments (w_db w)))"
    using assms by (simp add: settle_inv_def core_inv_def db_wf_def payments_wf_def unique_key_def)
  then have "distinct (map p_id (allBroadcast (w_db w)))"
    by (auto simp: allBroadcast_def distinct_map elim!: inj_on_subset)
  then show ?thesis by (simp add: rows_ok_def set_allBroadcast)
qed

lemma settle_step_inv:
  assumes "settle_step env view w w'" and "settle_inv env w"
  shows "settle_inv env w'"
  using assms
proof (induction rule: settle_step.induct)
  case (enqueue w now p)
  then show ?case by (rule step_enqueue)
next
  case (b_start w now row)
  then show ?case using nextPending_Some [of now "w_db w" row] by (intro step_bc) (simp_all add: bc_ok_def)
next
  case (b_park w row now reads al s')
  show ?case by (rule step_b_park) fact+
next
  case (b_build w row tip us now hex al s' p)
  show ?case by (rule step_b_build) fact+
next
  case (b_sent w hex i u)
  from step_bc [OF step_relay [OF b_sent(4,2)], of Bc_idle] show ?case by (simp add: bc_ok_def)
next
  case (b_lost w hex)
  then show ?case by (intro step_bc) (simp_all add: bc_ok_def)
next
  case (c_start w)
  then show ?case by (intro step_cf) (simp_all add: allBroadcast_rows_ok)
next
  case (c_tip w rows tip)
  then show ?case using cf_invs(1) [OF c_tip(3)] by (intro step_cf) simp_all
next
  case (c_fail w rows)
  then show ?case by (intro step_cf) simp_all
next
  case (c_row w tip row rows answer now again s')
  show ?case by (rule step_c_row) fact+
next
  case (c_pushed w hex tip rows i u)
  note inv = step_relay [OF c_pushed(4,2)]
  have "rows_ok w rows" "tip \<le> w_tip w"
    using cf_invs(1) [OF c_pushed(4)] cf_invs(3) [OF c_pushed(4,1)] c_pushed(1) by simp_all
  then show ?case using step_cf [OF inv, of "Cf_rows tip rows"] by simp
next
  case (c_lost w hex tip rows)
  then show ?case
    using cf_invs(1) [OF c_lost(2)] cf_invs(3) [OF c_lost(2,1)] by (intro step_cf) simp_all
next
  case (c_done w tip)
  then show ?case by (intro step_cf) simp_all
next
  case (block w us)
  show ?case by (rule step_block) fact+
next
  case (crash w)
  then have "settle_inv env (w\<lparr>w_bc := Bc_idle\<rparr>)" by (intro step_bc) (simp_all add: bc_ok_def)
  then have "settle_inv env (w\<lparr>w_bc := Bc_idle\<rparr>\<lparr>w_cf := Cf_idle\<rparr>)" by (intro step_cf) simp_all
  then show ?case by simp
qed

lemma settle_reachable_inv: "settle_reachable env view tip w \<Longrightarrow> settle_inv env w"
  by (induction rule: rtranclp_induct) (auto intro: settle_inv_init settle_step_inv)

section \<open>What the invariant gives\<close>

text \<open>At most one of the transactions ever built for a payment is mined.\<close>

lemma mined_once:
  assumes "settle_inv env w"
  shows "length (filter (\<lambda>u. u \<in> mined_txs w) (txs_of i w)) \<le> 1"
proof (cases "txs_of i w = []")
  case False
  have core: "core_inv env w" using assms by (simp add: settle_inv_def)
  obtain b where "b \<in> set (w_built w)" "fst b = i"
    using False by (auto simp: txs_of_def filter_empty_conv)
  then obtain r where r: "r \<in> set (db_payments (w_db w))" "p_id r = i"
    using core by (auto simp: core_inv_def built_ok_def)
  then have "row_ok env w r" using core by (simp add: core_inv_def)
  then have "list_all (dead w) (butlast (txs_of i w))"
    using r(2) by (auto simp: row_ok_def list_all_iff dest: in_set_butlastD split: payment_status.splits)
  then have "filter (\<lambda>u. u \<in> mined_txs w) (butlast (txs_of i w)) = []"
    by (auto simp: filter_empty_conv list_all_iff dead_def)
  moreover have "txs_of i w = butlast (txs_of i w) @ [last (txs_of i w)]" using False by simp
  ultimately have "filter (\<lambda>u. u \<in> mined_txs w) (txs_of i w)
      = filter (\<lambda>u. u \<in> mined_txs w) [last (txs_of i w)]"
    by (metis append_Nil filter_append)
  then show ?thesis by simp
qed simp

text \<open>The transaction ids of what was built do not collide.\<close>

definition ids_distinct :: "settle_env \<Rightarrow> world \<Rightarrow> bool" where
  "ids_distinct env w \<longleftrightarrow> inj_on (tx_id env) (snd ` set (w_built w))"

lemma txs_of_built: "u \<in> set (txs_of i w) \<longleftrightarrow> (i, u) \<in> set (w_built w)"
  by (force simp: txs_of_def)

lemma confirmed_mined:
  assumes "settle_inv env w" and "ids_distinct env w"
    and r: "r \<in> set (db_payments (w_db w))" "p_status r = Confirmed"
  obtains u where "(p_id r, u) \<in> set (w_built w)" "u \<in> mined_txs w" "p_txid r = Some (tx_id env u)"
proof -
  have core: "core_inv env w" using assms by (simp add: settle_inv_def)
  let ?u = "last (txs_of (p_id r) w)"
  have "row_ok env w r" using core r by (simp add: core_inv_def)
  then have ne: "txs_of (p_id r) w \<noteq> []" and id: "p_txid r = Some (tx_id env ?u)"
    and "\<exists>u\<in>mined_txs w. tx_id env u = tx_id env ?u"
    using r(2) by (simp_all add: row_ok_def)
  then obtain v where v: "v \<in> mined_txs w" "tx_id env v = tx_id env ?u" by blast
  have b: "(p_id r, ?u) \<in> set (w_built w)" using ne by (simp flip: txs_of_built)
  then have "?u \<in> snd ` set (w_built w)" by force
  moreover have "v \<in> snd ` set (w_built w)" using v(1) core by (auto simp: core_inv_def net_ok_def)
  ultimately have "v = ?u" using v(2) assms(2) by (auto simp: ids_distinct_def dest: inj_onD)
  with v b id show ?thesis using that by blast
qed

text \<open>
  A transaction that pays for a row buys, at the price of any height it can be mined at, at
  least the days of the row.
\<close>

definition first_pay :: "unsigned_tx \<Rightarrow> zats" where
  "first_pay u = (case x_outputs u of Pay a z # _ \<Rightarrow> z | _ \<Rightarrow> 0)"

lemma pays_for_first:
  "pays_for env days code u \<Longrightarrow>
     first_pay u = payout_zats (e_priceSchedule env) (x_expiryHeight u - EXPIRY_DELTA) days"
  by (cases "x_outputs u") (auto simp: pays_for_def first_pay_def)

lemma payout_covers:
  assumes "wf_schedule sched" and "in_zats sched" and "0 \<le> days"
    and "tip \<le> h" "h \<le> tip + EXPIRY_DELTA"
  shows "days \<le> gateway_days (payout_zats sched tip days) (effective sched h)"
  unfolding payout_zats_def
proof (rule gateway_days_at_least)
  have "tip \<le> tip + EXPIRY_DELTA" by (simp add: EXPIRY_DELTA_def)
  from maxEffective_zats [OF assms(1,2) this] have "of_int (fluxToZats (maxEffective sched tip (tip + EXPIRY_DELTA))) / 10 ^ 8
      = maxEffective sched tip (tip + EXPIRY_DELTA)" by simp
  then show "effective sched h \<le> of_int (fluxToZats (maxEffective sched tip (tip + EXPIRY_DELTA))) / 10 ^ 8"
    using effective_le_max [OF assms(1,4,5)] by simp
qed (use assms effective_pos in auto)

lemma mined_covers:
  assumes inv: "settle_inv env w" and sched: "wf_schedule (e_priceSchedule env)" "in_zats (e_priceSchedule env)"
    and b: "(i, u) \<in> set (w_built w)" and m: "(u, h) \<in> set (w_mined w)"
  obtains r where "r \<in> set (db_payments (w_db w))" "p_id r = i"
    "pays_for env (p_days r) (p_payment_code r) u"
    "p_days r \<le> gateway_days (first_pay u) (effective (e_priceSchedule env) h)"
proof -
  have core: "core_inv env w" using inv by (simp add: settle_inv_def)
  obtain r where r: "r \<in> set (db_payments (w_db w))" "p_id r = i" "pays_for env (p_days r) (p_payment_code r) u"
    using core b by (fastforce simp: core_inv_def built_ok_def)
  have "1 \<le> p_days r" using core r(1) by (simp add: core_inv_def db_wf_def payments_wf_def list_all_iff payment_check_def)
  moreover have "x_expiryHeight u - EXPIRY_DELTA < h" "h \<le> x_expiryHeight u"
    using core m by (auto simp: core_inv_def net_ok_def)
  ultimately have "p_days r \<le> gateway_days (first_pay u) (effective (e_priceSchedule env) h)"
    unfolding pays_for_first [OF r(3)] by (intro payout_covers sched) simp_all
  with r show ?thesis using that by blast
qed

end
