(* ===== verification/Exclusive.thy ===== *)
theory Exclusive
  imports Settlement
begin

text \<open>
  Two payments are never settled by one transaction, provided the list of unspent outputs
  the broadcaster builds on is current (\<^const>\<open>fresh_view\<close>) and transaction ids do not
  collide. The ledger of spent outpoints (bridge/src/db/payments.ts, \<open>spent_outpoints\<close>)
  holds the inputs of every broadcast transaction until it is mined or dead, which is what
  keeps the inputs of different payments apart. The last section shows that the premise on
  the list is needed: with a list and a tip that lag behind the chain, the same transaction
  is built for a second payment and confirms both.
\<close>

section \<open>Held inputs\<close>

definition holds_inputs :: "settle_env \<Rightarrow> db \<Rightarrow> unsigned_tx \<Rightarrow> bool" where
  "holds_inputs env s u \<longleftrightarrow>
     (\<forall>x\<in>tx_spends u. \<exists>sp\<in>set (db_spent s). sp_out sp = x \<and> sp_spent_by sp = tx_id env u)"

definition held :: "settle_env \<Rightarrow> world \<Rightarrow> bool" where
  "held env w \<longleftrightarrow>
     (\<forall>r\<in>set (db_payments (w_db w)). p_status r = Broadcast \<longrightarrow>
        dead w (last (txs_of (p_id r) w)) \<or> holds_inputs env (w_db w) (last (txs_of (p_id r) w)))"

definition exclusive :: "world \<Rightarrow> bool" where
  "exclusive w \<longleftrightarrow>
     (\<forall>(i, u)\<in>set (w_built w). \<forall>(j, v)\<in>set (w_built w). i \<noteq> j \<longrightarrow> u = v \<longrightarrow> dead w u)"

lemma held_frame [simp]:
  "held env (w\<lparr>w_bc := b\<rparr>) = held env w" "held env (w\<lparr>w_cf := c\<rparr>) = held env w"
  "held env (w\<lparr>w_relayed := x\<rparr>) = held env w"
  by (simp_all add: held_def)

lemma exclusive_frame [simp]:
  "exclusive (w\<lparr>w_bc := b\<rparr>) = exclusive w" "exclusive (w\<lparr>w_cf := c\<rparr>) = exclusive w"
  "exclusive (w\<lparr>w_relayed := x\<rparr>) = exclusive w" "exclusive (w\<lparr>w_db := s\<rparr>) = exclusive w"
  by (simp_all add: exclusive_def)

lemma holds_inputs_mono:
  "holds_inputs env s u \<Longrightarrow> set (db_spent s) \<subseteq> set (db_spent s') \<Longrightarrow> holds_inputs env s' u"
  unfolding holds_inputs_def by blast

lemma insert_outpoints_mono: "set rs \<subseteq> set (fold (insert_outpoint now t) xs rs)"
proof (induction xs arbitrary: rs)
  case (Cons x xs)
  have "set rs \<subseteq> set (insert_outpoint now t x rs)" by (auto simp: insert_outpoint_def)
  with Cons.IH [of "insert_outpoint now t x rs"] show ?case by simp
qed simp

lemma insert_outpoints_by:
  assumes "x \<in> set xs" and "\<not> has_key sp_out x rs"
  shows "\<exists>sp\<in>set (fold (insert_outpoint now t) xs rs). sp_out sp = x \<and> sp_spent_by sp = t"
  using assms
proof (induction xs arbitrary: rs)
  case (Cons y xs)
  show ?case
  proof (cases "x = y")
    case True
    have "\<exists>sp\<in>set (insert_outpoint now t y rs). sp_out sp = x \<and> sp_spent_by sp = t"
      using Cons.prems(2) True by (simp add: insert_outpoint_def)
    then show ?thesis using insert_outpoints_mono [of "insert_outpoint now t y rs" now t xs] by auto
  next
    case False
    then have "\<not> has_key sp_out x (insert_outpoint now t y rs)"
      using Cons.prems(2) by (auto simp: insert_outpoint_def has_key_def)
    with Cons False show ?thesis by simp
  qed
qed simp

lemma held_db:
  assumes "held env w"
    and "\<And>r. r \<in> set (db_payments s') \<Longrightarrow> p_status r = Broadcast \<Longrightarrow>
      r \<in> set (db_payments (w_db w))
      \<and> (dead w (last (txs_of (p_id r) w)) \<or> (holds_inputs env (w_db w) (last (txs_of (p_id r) w))
            \<longrightarrow> holds_inputs env s' (last (txs_of (p_id r) w))))"
  shows "held env (w\<lparr>w_db := s'\<rparr>)"
  using assms unfolding held_def by fastforce

section \<open>Steps\<close>

lemma step_dead:
  assumes "settle_step env view w w'" and "dead w u"
  shows "dead w' u"
  using assms
proof (induction rule: settle_step.induct)
  case (block w us)
  then show ?case by (auto simp: dead_def block_ok_def mined_txs_def)
qed simp_all

lemma step_built:
  assumes "settle_step env view w w'"
  shows "set (w_built w) \<subseteq> set (w_built w')"
  using assms by (induction rule: settle_step.induct) auto

lemma live_tx:
  assumes inv: "settle_inv env w" and b: "(i, u) \<in> set (w_built w)" and nd: "\<not> dead w u"
  obtains r where "r \<in> set (db_payments (w_db w))" "p_id r = i" "u = last (txs_of i w)"
    "p_status r = Broadcast \<or> p_status r = Confirmed"
proof -
  have core: "core_inv env w" using inv by (simp add: settle_inv_def)
  obtain r where r: "r \<in> set (db_payments (w_db w))" "p_id r = i"
    using core b by (fastforce simp: core_inv_def built_ok_def)
  have u: "u \<in> set (txs_of i w)" using b by (simp add: txs_of_built)
  have ok: "row_ok env w r" using core r by (simp add: core_inv_def)
  have st: "p_status r = Broadcast \<or> p_status r = Confirmed"
  proof (cases "p_status r")
    case Pending
    with ok r(2) have "list_all (dead w) (txs_of i w)" by (simp add: row_ok_def)
    with u nd show ?thesis by (simp add: list_all_iff)
  next
    case Failed
    with ok show ?thesis by (simp add: row_ok_def)
  qed simp_all
  then have "list_all (dead w) (butlast (txs_of i w))" using ok r(2) by (auto simp: row_ok_def)
  then have "u \<notin> set (butlast (txs_of i w))" using nd by (auto simp: list_all_iff)
  moreover have "txs_of i w = butlast (txs_of i w) @ [last (txs_of i w)]" using u by (cases "txs_of i w") simp_all
  ultimately have "u = last (txs_of i w)" using u by (metis Un_iff empty_iff insert_iff list.set set_append)
  with r st show ?thesis using that by blast
qed

lemma build_distinct:
  assumes inv: "settle_inv env w" and held: "held env w" and ids: "ids_distinct env w"
    and params: "payment_params env row tip us (w_db w) = Inr p" and fresh: "fresh_view w us"
    and b: "(i, payment_tx p) \<in> set (w_built w)"
  shows "dead w (payment_tx p)"
proof (rule ccontr)
  let ?u = "payment_tx p"
  assume nd: "\<not> dead w ?u"
  have core: "core_inv env w" using inv by (simp add: settle_inv_def)
  note pp = payment_params_Inr [OF params]
  have "tx_spends ?u \<noteq> {}" using core b by (fastforce simp: core_inv_def built_ok_def)
  then obtain x where x: "x \<in> tx_spends ?u" by blast
  then obtain y where y: "y \<in> set us" "u_out y = x" "\<not> has_key sp_out x (db_spent (w_db w))"
    using pp(10) by (auto simp: tx_spends_payment)
  obtain r where r: "r \<in> set (db_payments (w_db w))" "p_id r = i" "?u = last (txs_of i w)"
    and st: "p_status r = Broadcast \<or> p_status r = Confirmed"
    using live_tx [OF inv b nd] by blast
  show False
  proof (cases "p_status r = Broadcast")
    case True
    then have "holds_inputs env (w_db w) ?u" using held r nd by (auto simp: held_def)
    with x y(3) show False by (auto simp: holds_inputs_def has_key_def)
  next
    case False
    with st have c: "p_status r = Confirmed" by simp
    obtain v where v: "(p_id r, v) \<in> set (w_built w)" "v \<in> mined_txs w" "p_txid r = Some (tx_id env v)"
      using confirmed_mined [OF inv ids r(1) c] by blast
    have "p_txid r = Some (tx_id env ?u)" using core r c by (auto simp: core_inv_def row_ok_def)
    then have "tx_id env v = tx_id env ?u" using v by simp
    then have "v = ?u"
      using ids v(1) b unfolding ids_distinct_def by (elim inj_onD) force+
    with v(2) x y(1,2) fresh show False by (auto simp: fresh_view_def)
  qed
qed

lemma exclusive_build:
  assumes inv: "settle_inv env w" and held: "held env w" and ids: "ids_distinct env w" and ex: "exclusive w"
    and params: "payment_params env row tip us (w_db w) = Inr p" and fresh: "fresh_view w us"
  shows "exclusive (w\<lparr>w_built := w_built w @ [(i, payment_tx p)]\<rparr>)"
  using ex build_distinct [OF inv held ids params fresh] by (fastforce simp: exclusive_def)

lemma held_build:
  assumes inv: "settle_inv env w" and held: "held env w" and bc: "w_bc w = Bc_reading row"
    and build: "broadcaster_build env now row (Inr (tip, us)) (w_db w) = (Some hex, al, s')"
    and params: "payment_params env row tip us (w_db w) = Inr p"
  shows "held env (w\<lparr>w_built := w_built w @ [(p_id row, payment_tx p)], w_db := s'\<rparr>)"
proof -
  let ?u = "payment_tx p" and ?ps = "db_payments (w_db w)"
  let ?w = "w\<lparr>w_built := w_built w @ [(p_id row, ?u)]\<rparr>"
  have row: "row \<in> set ?ps" "p_status row = Pending"
    using inv bc by (simp_all add: settle_inv_def bc_ok_def)
  note pp = payment_params_Inr [OF params]
  note mb = markBroadcast_payments [OF broadcaster_build_Some(2) [OF build params], folded tx_id_def]
  have new: "holds_inputs env s' ?u"
    using pp(10) by (auto simp: holds_inputs_def tx_spends_payment mb(2) intro!: insert_outpoints_by)
  have mono: "set (db_spent (w_db w)) \<subseteq> set (db_spent s')"
    unfolding mb(2) by (rule insert_outpoints_mono)
  have "dead w (last (txs_of (p_id r) ?w)) \<or> holds_inputs env s' (last (txs_of (p_id r) ?w))"
    if "r \<in> set (db_payments s')" "p_status r = Broadcast" for r
    using that(1) unfolding mb(1)
  proof (rule in_update_whereE)
    assume r: "r \<in> set ?ps" "p_id r \<noteq> p_id row"
    then have "txs_of (p_id r) ?w = txs_of (p_id r) w" by (simp add: txs_of_snoc)
    then show ?thesis using held r(1) that(2) holds_inputs_mono [OF _ mono] by (auto simp: held_def)
  qed (use new in \<open>simp add: txs_of_snoc\<close>)
  then show ?thesis by (simp add: held_def)
qed

text \<open>Releasing the inputs of one row leaves those of the others held.\<close>

lemma held_release:
  assumes inv: "settle_inv env w" and held: "held env w" and ids: "ids_distinct env w" and ex: "exclusive w"
    and row: "row \<in> set (db_payments (w_db w))" "p_status row = Broadcast" "p_txid row = Some txid"
    and ps: "db_payments s' = update_where (\<lambda>x. p_id x = p_id row) f (db_payments (w_db w))"
    and f: "\<And>x. p_status (f x) \<noteq> Broadcast"
    and sp: "set (db_spent s') \<supseteq> {x \<in> set (db_spent (w_db w)). sp_spent_by x \<noteq> txid}"
  shows "held env (w\<lparr>w_db := s'\<rparr>)"
proof (rule held_db [OF held])
  fix r assume "r \<in> set (db_payments s')" and st: "p_status r = Broadcast"
  then have r: "r \<in> set (db_payments (w_db w))" "p_id r \<noteq> p_id row"
    using f by (auto simp: ps elim!: in_update_whereE)
  let ?u = "last (txs_of (p_id r) w)" and ?v = "last (txs_of (p_id row) w)"
  have core: "core_inv env w" using inv by (simp add: settle_inv_def)
  have b: "(p_id r, ?u) \<in> set (w_built w)" "(p_id row, ?v) \<in> set (w_built w)" and id: "txid = tx_id env ?v"
    using core r(1) st row by (auto simp: core_inv_def row_ok_def simp flip: txs_of_built)
  have "dead w ?u \<or> tx_id env ?u \<noteq> txid"
  proof (cases "tx_id env ?u = txid")
    case True
    then have "?u = ?v" using b ids id unfolding ids_distinct_def by (elim inj_onD) force+
    then show ?thesis using ex b r(2) by (fastforce simp: exclusive_def)
  qed simp
  moreover have "holds_inputs env s' ?u" if "holds_inputs env (w_db w) ?u" "tx_id env ?u \<noteq> txid"
    using that sp by (fastforce simp: holds_inputs_def)
  ultimately show "r \<in> set (db_payments (w_db w)) \<and> (dead w ?u \<or> (holds_inputs env (w_db w) ?u
      \<longrightarrow> holds_inputs env s' ?u))" using r(1) by blast
qed

lemma markConfirmed_spent:
  assumes "db_wf s" and "row \<in> set (db_payments s)" and "p_txid row = Some txid"
  shows "set (db_spent (markConfirmed now (p_id row) s)) \<supseteq> {x \<in> set (db_spent s). sp_spent_by x \<noteq> txid}"
  using payment_by_id_mem [OF assms(1,2)] assms(3)
  by (auto simp: markConfirmed_def set_delete_where)

lemma held_c_row:
  assumes inv: "settle_inv env w" and held: "held env w" and ids: "ids_distinct env w" and ex: "exclusive w"
    and cf: "w_cf w = Cf_rows tip (row # rows)"
    and step: "confirmer_row now tip row answer (w_db w) = (again, s')"
  shows "held env (w\<lparr>w_db := s'\<rparr>)"
proof -
  have row: "row \<in> set (db_payments (w_db w))" "p_status row = Broadcast"
    using inv cf by (simp_all add: settle_inv_def cf_ok_def rows_ok_def)
  have wf: "db_wf (w_db w)" using inv by (simp add: settle_inv_def core_inv_def)
  from step show ?thesis
  proof (cases rule: confirmer_row_cases)
    case 1
    then show ?thesis using held by simp
  next
    case (2 txid c)
    show ?thesis unfolding 2
    proof (rule held_release [OF inv held ids ex row 2(2)])
      show "db_payments (markConfirmed now (p_id row) (w_db w)) = update_where (\<lambda>x. p_id x = p_id row)
        (\<lambda>r. r\<lparr>p_status := Confirmed, p_raw_hex := None, p_confirmed_at := Some now\<rparr>) (db_payments (w_db w))"
        by (simp add: markConfirmed_def)
    qed (use markConfirmed_spent [OF wf row(1) 2(2)] in simp_all)
  next
    case (3 txid x)
    show ?thesis unfolding 3
    proof (rule held_release [OF inv held ids ex row 3(2)])
      show "db_payments (resetExpired (p_id row) txid (w_db w)) = update_where (\<lambda>x. p_id x = p_id row)
        (\<lambda>r. r\<lparr>p_status := Pending, p_txid := None, p_raw_hex := None, p_expiry_height := None,
                p_broadcast_at := None, p_next_retry_at := 0,
                p_last_error := Some ''tx expired unmined''\<rparr>) (db_payments (w_db w))"
        by (simp add: resetExpired_def)
    qed (auto simp: resetExpired_def set_delete_where)
  qed
qed

lemma fresh_step:
  assumes step: "settle_step env fresh_view w w'" and inv: "settle_inv env w" and ids: "ids_distinct env w'"
    and "held env w" "exclusive w"
  shows "held env w' \<and> exclusive w'"
  using step inv ids assms(4,5)
proof (induction rule: settle_step.induct)
  case (enqueue w now p)
  have "held env (w\<lparr>w_db := snd (insertIdempotent now p (w_db w))\<rparr>)"
  proof (rule held_db [OF enqueue(3)])
    fix r assume "r \<in> set (db_payments (snd (insertIdempotent now p (w_db w))))" "p_status r = Broadcast"
    then have "r \<in> set (db_payments (w_db w))" by (auto simp: insertIdempotent_def Let_def split: if_splits)
    then show "r \<in> set (db_payments (w_db w)) \<and> (dead w (last (txs_of (p_id r) w))
      \<or> (holds_inputs env (w_db w) (last (txs_of (p_id r) w))
         \<longrightarrow> holds_inputs env (snd (insertIdempotent now p (w_db w))) (last (txs_of (p_id r) w))))"
      by (simp add: holds_inputs_def insertIdempotent_frame)
  qed
  with enqueue show ?case by simp
next
  case (b_park w row now reads al s')
  obtain e where s': "s' = recordFailure now (p_id row) (p_attempts row) e (w_db w)"
    using b_park(2) by (rule broadcaster_build_None) simp
  have row: "row \<in> set (db_payments (w_db w))" "p_status row = Pending"
    using b_park(1,3) by (simp_all add: settle_inv_def bc_ok_def)
  have uniq: "unique_key p_id (db_payments (w_db w))"
    using b_park(3) by (simp add: settle_inv_def core_inv_def db_wf_def payments_wf_def)
  have "held env (w\<lparr>w_db := s'\<rparr>)"
  proof (rule held_db [OF b_park(5)])
    fix r assume r: "r \<in> set (db_payments s')" "p_status r = Broadcast"
    have ps: "db_payments s' = update_where (\<lambda>x. p_id x = p_id row)
        (\<lambda>y. y\<lparr>p_attempts := p_attempts row + 1, p_next_retry_at := now + retry_delay (p_attempts row),
          p_last_error := Some (take 500 e)\<rparr>) (db_payments (w_db w))"
      by (simp add: s' recordFailure_def)
    have "r \<in> set (db_payments (w_db w))"
      using r(1) unfolding ps
    proof (rule in_update_whereE)
      fix y assume y: "y \<in> set (db_payments (w_db w))" "p_id y = p_id row"
        "r = y\<lparr>p_attempts := p_attempts row + 1, p_next_retry_at := now + retry_delay (p_attempts row),
          p_last_error := Some (take 500 e)\<rparr>"
      then show ?thesis using unique_keyD [OF uniq y(1) row(1) y(2)] row(2) r(2) by simp
    qed
    then show "r \<in> set (db_payments (w_db w)) \<and> (dead w (last (txs_of (p_id r) w))
      \<or> (holds_inputs env (w_db w) (last (txs_of (p_id r) w)) \<longrightarrow> holds_inputs env s' (last (txs_of (p_id r) w))))"
      by (simp add: holds_inputs_def s' recordFailure_def)
  qed
  with b_park show ?case by simp
next
  case (b_build w row tip us now hex al s' p)
  have "ids_distinct env w" using b_build(7)
    by (auto simp: ids_distinct_def intro: inj_on_subset)
  then have "exclusive (w\<lparr>w_built := w_built w @ [(p_id row, payment_tx p)]\<rparr>)"
    using b_build by (intro exclusive_build)
  then show ?case using held_build [OF b_build(6,8,1,4,5)] by simp
next
  case (c_row w tip row rows answer now again s')
  have "ids_distinct env w" using c_row(5) by (simp add: ids_distinct_def)
  then show ?case using held_c_row [OF c_row(4,6) _ c_row(7,1,3)] c_row(7) by simp
next
  case (block w us)
  have step: "settle_step env fresh_view w (w\<lparr>w_tip := w_tip w + 1, w_mined := w_mined w @ map (\<lambda>u. (u, w_tip w + 1)) us\<rparr>)"
    (is "settle_step _ _ _ ?w") by (rule settle_step.block) fact
  have "txs_of i ?w = txs_of i w" for i by (simp add: txs_of_def)
  then have "held env ?w" using block(4) step_dead [OF step] by (auto simp: held_def)
  moreover have "exclusive ?w" using block(5) step_dead [OF step] by (fastforce simp: exclusive_def)
  ultimately show ?case ..
qed (simp_all add: held_def)

lemma fresh_reachable:
  assumes "settle_reachable env fresh_view tip w" and "ids_distinct env w"
  shows "held env w \<and> exclusive w"
  using assms
proof (induction rule: rtranclp_induct)
  case base
  have "db_payments empty_db = []" by (simp add: empty_db_def)
  then show ?case by (simp add: held_def exclusive_def init_world_def)
next
  case (step v w)
  have "ids_distinct env v"
    using step(4) step_built [OF step(2)] by (auto simp: ids_distinct_def intro: inj_on_subset)
  with step show ?case using fresh_step [OF step(2) settle_reachable_inv [OF step(1)]] by simp
qed

text \<open>Two confirmed payments are settled by different transactions.\<close>

lemma confirmed_exclusive:
  assumes reach: "settle_reachable env fresh_view tip w" and ids: "ids_distinct env w"
    and r: "r \<in> set (db_payments (w_db w))" "p_status r = Confirmed"
    and q: "q \<in> set (db_payments (w_db w))" "p_status q = Confirmed"
    and "p_id r \<noteq> p_id q"
  shows "p_txid r \<noteq> p_txid q"
proof
  assume eq: "p_txid r = p_txid q"
  note inv = settle_reachable_inv [OF reach]
  obtain u where u: "(p_id r, u) \<in> set (w_built w)" "u \<in> mined_txs w" "p_txid r = Some (tx_id env u)"
    using confirmed_mined [OF inv ids r] by blast
  obtain v where v: "(p_id q, v) \<in> set (w_built w)" "v \<in> mined_txs w" "p_txid q = Some (tx_id env v)"
    using confirmed_mined [OF inv ids q] by blast
  have "u = v" using eq u v ids unfolding ids_distinct_def by (elim inj_onD) force+
  then have "dead w u" using fresh_reachable [OF reach ids] u v assms(7) by (fastforce simp: exclusive_def)
  with u(2) show False by (simp add: dead_def)
qed

end
