(* ===== verification/Runs.thy ===== *)
theory Runs
  imports Exclusive
begin

text \<open>
  Concrete runs of the settlement system, evaluated. In both, two grants of the same days for
  the same code are queued, as two renewals are. In the first run the broadcaster always
  sees the current unspent outputs, and each payment gets a transaction of its own.

  In the second the explorer serves, for the second payment, the outputs and the tip it
  served for the first, as an indexer that has stalled does. By then the first payment is
  confirmed and the ledger of spent outpoints has forgotten its inputs, so the transaction
  built is the first one again, which the daemon reports as confirmed. Every answer is
  \<^const>\<open>honest\<close>.
\<close>

section \<open>Driving the workers\<close>

definition world_at :: "db \<Rightarrow> int \<Rightarrow> unsigned_tx list \<Rightarrow> (unsigned_tx \<times> int) list \<Rightarrow> (nat \<times> unsigned_tx) list \<Rightarrow>
    bc_local \<Rightarrow> cf_local \<Rightarrow> world" where
  "world_at s tip relayed mined built bc cf =
     \<lparr>w_db = s, w_tip = tip, w_relayed = relayed, w_mined = mined, w_bc = bc, w_cf = cf,
      w_built = built\<rparr>"

text \<open>One tick of the confirmer over one broadcast row whose transaction it finds.\<close>

lemma run_confirm:
  assumes "settle_reachable env view t0 (world_at s tip rel m b Bc_idle Cf_idle)"
    and bs: "allBroadcast s = [row]" and row: "p_txid row = Some txid" "txid \<in> tx_id env ` fst ` set m"
    and step: "confirmer_row 0 tip row (Inr (Found 1)) s = (None, s')"
  shows "settle_reachable env view t0 (world_at s' tip rel m b Bc_idle Cf_idle)"
proof -
  let ?W = "\<lambda>s c. world_at s tip rel m b Bc_idle c"
  have "settle_step env view (?W s Cf_idle) (?W s (Cf_reading [row]))"
    using settle_step.c_start [of "?W s Cf_idle" env view] bs by (simp add: world_at_def)
  moreover have "settle_step env view (?W s (Cf_reading [row])) (?W s (Cf_rows tip [row]))"
    using settle_step.c_tip [of "?W s (Cf_reading [row])" "[row]" tip env view] by (simp add: world_at_def)
  moreover have "honest env (?W s (Cf_rows tip [row])) txid (Inr (Found 1))"
    using row(2) by (auto simp: honest_def world_at_def mined_txs_def)
  then have "settle_step env view (?W s (Cf_rows tip [row])) (?W s' (Cf_rows tip []))"
    using settle_step.c_row [of "?W s (Cf_rows tip [row])" tip row "[]" env "Inr (Found 1)" 0 None s' view]
      step row by (simp add: world_at_def)
  moreover have "settle_step env view (?W s' (Cf_rows tip [])) (?W s' Cf_idle)"
    using settle_step.c_done [of "?W s' (Cf_rows tip [])" tip env view] by (simp add: world_at_def)
  ultimately show ?thesis using assms(1) by (meson rtranclp.rtrancl_into_rtrancl)
qed

text \<open>A tick of the broadcaster, up to the broadcast.\<close>

lemma run_build:
  assumes "settle_reachable env view t0 (world_at s tip rel m b Bc_idle Cf_idle)" and "t \<le> tip"
    and pend: "nextPending 0 s = Some row"
    and fresh: "view (world_at s tip rel m b (Bc_reading row) Cf_idle) us"
    and params: "payment_params env row t us s = Inr p"
    and build: "broadcaster_build env 0 row (Inr (t, us)) s = (Some hex, al, s')"
  shows "settle_reachable env view t0 (world_at s' tip rel m (b @ [(p_id row, payment_tx p)]) (Bc_sending hex) Cf_idle)"
proof -
  have "settle_step env view (world_at s tip rel m b Bc_idle Cf_idle) (world_at s tip rel m b (Bc_reading row) Cf_idle)"
    using settle_step.b_start [of "world_at s tip rel m b Bc_idle Cf_idle" 0 row env view] pend
    by (simp add: world_at_def)
  moreover have "settle_step env view (world_at s tip rel m b (Bc_reading row) Cf_idle)
      (world_at s' tip rel m (b @ [(p_id row, payment_tx p)]) (Bc_sending hex) Cf_idle)"
    using settle_step.b_build [of "world_at s tip rel m b (Bc_reading row) Cf_idle" row t view us env 0 hex al s' p] assms
    by (simp add: world_at_def)
  ultimately show ?thesis using assms(1) by (meson rtranclp.rtrancl_into_rtrancl)
qed

text \<open>The broadcast arrives and the next block mines the transaction.\<close>

lemma run_mine:
  assumes "settle_reachable env view t0 (world_at s tip rel m b (Bc_sending hex) Cf_idle)"
    and u: "(i, u) \<in> set b" "tx_hex env u = hex"
    and ok: "block_ok (world_at s tip (u # rel) m b Bc_idle Cf_idle) [u]"
  shows "settle_reachable env view t0 (world_at s (tip + 1) (u # rel) (m @ [(u, tip + 1)]) b Bc_idle Cf_idle)"
proof -
  have "settle_step env view (world_at s tip rel m b (Bc_sending hex) Cf_idle) (world_at s tip (u # rel) m b Bc_idle Cf_idle)"
    using settle_step.b_sent [of "world_at s tip rel m b (Bc_sending hex) Cf_idle" hex i u env view] u
    by (simp add: world_at_def)
  moreover have "settle_step env view (world_at s tip (u # rel) m b Bc_idle Cf_idle)
      (world_at s (tip + 1) (u # rel) (m @ [(u, tip + 1)]) b Bc_idle Cf_idle)"
    using settle_step.block [OF ok, of env view] by (simp add: world_at_def)
  ultimately show ?thesis using assms(1) by (meson rtranclp.rtrancl_into_rtrancl)
qed

lemma run_refused:
  assumes "settle_reachable env view t0 (world_at s tip rel m b (Bc_sending hex) Cf_idle)"
  shows "settle_reachable env view t0 (world_at s tip rel m b Bc_idle Cf_idle)"
  using assms settle_step.b_lost [of "world_at s tip rel m b (Bc_sending hex) Cf_idle" hex env view]
  by (simp add: world_at_def rtranclp.rtrancl_into_rtrancl)

lemma run_two_grants:
  "settle_reachable env view tip (world_at (snd (insertIdempotent 0 q (snd (insertIdempotent 0 p empty_db)))) tip [] [] [] Bc_idle Cf_idle)"
proof -
  let ?s = "snd (insertIdempotent 0 p empty_db)"
  have "settle_step env view (init_world tip) (world_at ?s tip [] [] [] Bc_idle Cf_idle)"
    using settle_step.enqueue [of env view "init_world tip"] by (simp add: init_world_def world_at_def)
  moreover have "settle_step env view (world_at ?s tip [] [] [] Bc_idle Cf_idle)
      (world_at (snd (insertIdempotent 0 q ?s)) tip [] [] [] Bc_idle Cf_idle)"
    using settle_step.enqueue [of env view "world_at ?s tip [] [] [] Bc_idle Cf_idle"] by (simp add: world_at_def)
  ultimately show ?thesis by (meson rtranclp.rtrancl_into_rtrancl rtranclp.rtrancl_refl)
qed

section \<open>The example\<close>

text \<open>A stand-in for the library whose bytes and ids are those of the first input.\<close>

definition ex_env :: settle_env where
  "ex_env = \<lparr>e_ulib = (\<lambda>u. let k = outpoint_key (fst (hd (x_inputs u))) in (''raw-'' @ k, ''id-'' @ k)),
     e_b58 = (\<lambda>s. Some (replicate 20 0)), e_keyAddress = ''t1treasury'',
     e_paymentAddress = ''t1payment'', e_priceSchedule = [\<lparr>pe_from = 0, pe_flux = 1\<rparr>], e_feeZats = 1000\<rparr>"

definition ex_code :: string where
  "ex_code = ''1111111111111111111111''"

definition ex_grant :: "string \<Rightarrow> new_payment" where
  "ex_grant key = \<lparr>n_rail = Stripe, n_eventKey = key, n_externalRef = key,
     n_paymentCode = ex_code, n_days = 30, n_fluxZats = 100000000\<rparr>"

definition ex_utxos :: "string \<Rightarrow> utxo list" where
  "ex_utxos t = [\<lparr>u_out = \<lparr>o_txid = t, o_vout = 0\<rparr>, u_satoshis = 500000000, u_confirmations = 9\<rparr>]"

definition ex_queue :: db where
  "ex_queue = snd (insertIdempotent 0 (ex_grant ''b'') (snd (insertIdempotent 0 (ex_grant ''a'') empty_db)))"

definition ex_row :: "db \<Rightarrow> payment_row" where
  "ex_row s = the (nextPending 0 s)"

definition ex_params :: "db \<Rightarrow> string \<Rightarrow> build_params" where
  "ex_params s t = (case payment_params ex_env (ex_row s) 100 (ex_utxos t) s of Inr p \<Rightarrow> p)"

definition ex_built :: "db \<Rightarrow> string \<Rightarrow> db" where
  "ex_built s t = snd (snd (broadcaster_build ex_env 0 (ex_row s) (Inr (100, ex_utxos t)) s))"

definition ex_confirmed :: "int \<Rightarrow> db \<Rightarrow> db" where
  "ex_confirmed tip s = snd (confirmer_row 0 tip (hd (allBroadcast s)) (Inr (Found 1)) s)"

definition ex_tx :: "string \<Rightarrow> unsigned_tx" where
  "ex_tx t = payment_tx (ex_params ex_queue t)"

definition ex_db1 :: db where "ex_db1 = ex_built ex_queue ''ff''"
definition ex_db2 :: db where "ex_db2 = ex_confirmed 101 ex_db1"

text \<open>From here the second payment is built on the outputs \<open>t\<close>.\<close>

definition ex_db3 :: "string \<Rightarrow> db" where "ex_db3 t = ex_built ex_db2 t"
definition ex_db4 :: "string \<Rightarrow> int \<Rightarrow> db" where "ex_db4 t tip = ex_confirmed tip (ex_db3 t)"

lemma ex_first:
  "nextPending 0 ex_queue = Some (ex_row ex_queue)"
  "payment_params ex_env (ex_row ex_queue) 100 (ex_utxos ''ff'') ex_queue = Inr (ex_params ex_queue ''ff'')"
  "broadcaster_build ex_env 0 (ex_row ex_queue) (Inr (100, ex_utxos ''ff'')) ex_queue = (Some ''raw-ff:0'', None, ex_db1)"
  "p_id (ex_row ex_queue) = 1"
  "allBroadcast ex_db1 = [hd (allBroadcast ex_db1)]"
  "confirmer_row 0 101 (hd (allBroadcast ex_db1)) (Inr (Found 1)) ex_db1 = (None, ex_db2)"
  "p_txid (hd (allBroadcast ex_db1)) = Some ''id-ff:0''"
  by code_simp+

lemma ex_second:
  "nextPending 0 ex_db2 = Some (ex_row ex_db2)"
  "p_id (ex_row ex_db2) = 2"
  "payment_params ex_env (ex_row ex_db2) 100 (ex_utxos ''ff'') ex_db2 = Inr (ex_params ex_db2 ''ff'')"
  "payment_tx (ex_params ex_db2 ''ff'') = ex_tx ''ff''"
  "broadcaster_build ex_env 0 (ex_row ex_db2) (Inr (100, ex_utxos ''ff'')) ex_db2 = (Some ''raw-ff:0'', None, ex_db3 ''ff'')"
  "allBroadcast (ex_db3 ''ff'') = [hd (allBroadcast (ex_db3 ''ff''))]"
  "confirmer_row 0 101 (hd (allBroadcast (ex_db3 ''ff''))) (Inr (Found 1)) (ex_db3 ''ff'') = (None, ex_db4 ''ff'' 101)"
  "p_txid (hd (allBroadcast (ex_db3 ''ff''))) = Some ''id-ff:0''"
  by code_simp+

lemma ex_fresh:
  "payment_params ex_env (ex_row ex_db2) 100 (ex_utxos ''ee'') ex_db2 = Inr (ex_params ex_db2 ''ee'')"
  "payment_tx (ex_params ex_db2 ''ee'') = ex_tx ''ee''"
  "broadcaster_build ex_env 0 (ex_row ex_db2) (Inr (100, ex_utxos ''ee'')) ex_db2 = (Some ''raw-ee:0'', None, ex_db3 ''ee'')"
  "allBroadcast (ex_db3 ''ee'') = [hd (allBroadcast (ex_db3 ''ee''))]"
  "confirmer_row 0 102 (hd (allBroadcast (ex_db3 ''ee''))) (Inr (Found 1)) (ex_db3 ''ee'') = (None, ex_db4 ''ee'' 102)"
  "p_txid (hd (allBroadcast (ex_db3 ''ee''))) = Some ''id-ee:0''"
  by code_simp+

lemma ex_txs:
  "tx_hex ex_env (ex_tx ''ff'') = ''raw-ff:0''" "tx_id ex_env (ex_tx ''ff'') = ''id-ff:0''"
  "tx_hex ex_env (ex_tx ''ee'') = ''raw-ee:0''" "tx_id ex_env (ex_tx ''ee'') = ''id-ee:0''"
  "ex_tx ''ee'' \<noteq> ex_tx ''ff''"
  "tx_spends (ex_tx ''ff'') = {\<lparr>o_txid = ''ff'', o_vout = 0\<rparr>}"
  "tx_spends (ex_tx ''ee'') = {\<lparr>o_txid = ''ee'', o_vout = 0\<rparr>}"
  "x_expiryHeight (ex_tx ''ff'') = 140" "x_expiryHeight (ex_tx ''ee'') = 140"
  by code_simp+

text \<open>Up to the point where the first payment is confirmed.\<close>

lemma ex_run_first:
  assumes "view (world_at ex_queue 100 [] [] [] (Bc_reading (ex_row ex_queue)) Cf_idle) (ex_utxos ''ff'')"
  shows "settle_reachable ex_env view 100
    (world_at ex_db2 101 [ex_tx ''ff''] [(ex_tx ''ff'', 101)] [(1, ex_tx ''ff'')] Bc_idle Cf_idle)"
proof -
  have "settle_reachable ex_env view 100 (world_at ex_queue 100 [] [] [] Bc_idle Cf_idle)"
    unfolding ex_queue_def by (rule run_two_grants)
  from run_build [where view = view, OF this order_refl ex_first(1) assms ex_first(2,3)]
  have built: "settle_reachable ex_env view 100 (world_at ex_db1 100 [] [] [(1, ex_tx ''ff'')] (Bc_sending ''raw-ff:0'') Cf_idle)"
    by (simp add: ex_first(4) ex_tx_def)
  have "block_ok (world_at ex_db1 100 [ex_tx ''ff''] [] [(1, ex_tx ''ff'')] Bc_idle Cf_idle) [ex_tx ''ff'']"
    by (simp add: block_ok_def world_at_def mined_txs_def ex_txs)
  from run_mine [OF built _ _ this] have
    "settle_reachable ex_env view 100 (world_at ex_db1 101 [ex_tx ''ff''] [(ex_tx ''ff'', 101)] [(1, ex_tx ''ff'')] Bc_idle Cf_idle)"
    by (simp add: ex_txs)
  from run_confirm [OF this ex_first(5,7) _ ex_first(6)] show ?thesis by (simp add: ex_txs)
qed

lemma ex_run_fresh:
  "settle_reachable ex_env fresh_view 100
    (world_at (ex_db4 ''ee'' 102) 102 [ex_tx ''ee'', ex_tx ''ff''] [(ex_tx ''ff'', 101), (ex_tx ''ee'', 102)]
       [(1, ex_tx ''ff''), (2, ex_tx ''ee'')] Bc_idle Cf_idle)"
proof -
  have "settle_reachable ex_env fresh_view 100
      (world_at ex_db2 101 [ex_tx ''ff''] [(ex_tx ''ff'', 101)] [(1, ex_tx ''ff'')] Bc_idle Cf_idle)"
    by (rule ex_run_first) (simp add: fresh_view_def world_at_def mined_txs_def)
  from run_build [where view = fresh_view, OF this _ ex_second(1) _ ex_fresh(1,3)]
  have built: "settle_reachable ex_env fresh_view 100 (world_at (ex_db3 ''ee'') 101 [ex_tx ''ff''] [(ex_tx ''ff'', 101)]
      [(1, ex_tx ''ff''), (2, ex_tx ''ee'')] (Bc_sending ''raw-ee:0'') Cf_idle)"
    by (simp add: ex_second(2) ex_fresh(2) fresh_view_def world_at_def mined_txs_def ex_utxos_def ex_txs)
  have "block_ok (world_at (ex_db3 ''ee'') 101 [ex_tx ''ee'', ex_tx ''ff''] [(ex_tx ''ff'', 101)]
      [(1, ex_tx ''ff''), (2, ex_tx ''ee'')] Bc_idle Cf_idle) [ex_tx ''ee'']"
    by (simp add: block_ok_def world_at_def mined_txs_def ex_txs)
  from run_mine [OF built _ _ this] have
    "settle_reachable ex_env fresh_view 100 (world_at (ex_db3 ''ee'') 102 [ex_tx ''ee'', ex_tx ''ff'']
      [(ex_tx ''ff'', 101), (ex_tx ''ee'', 102)] [(1, ex_tx ''ff''), (2, ex_tx ''ee'')] Bc_idle Cf_idle)"
    by (simp add: ex_txs)
  from run_confirm [OF this ex_fresh(4,6) _ ex_fresh(5)] show ?thesis by (simp add: ex_txs)
qed

abbreviation any_view :: "world \<Rightarrow> utxo list \<Rightarrow> bool" where
  "any_view \<equiv> \<lambda>_ _. True"

lemma ex_run_stale:
  "settle_reachable ex_env any_view 100
    (world_at (ex_db4 ''ff'' 101) 101 [ex_tx ''ff''] [(ex_tx ''ff'', 101)]
       [(1, ex_tx ''ff''), (2, ex_tx ''ff'')] Bc_idle Cf_idle)"
proof -
  have "settle_reachable ex_env any_view 100
      (world_at ex_db2 101 [ex_tx ''ff''] [(ex_tx ''ff'', 101)] [(1, ex_tx ''ff'')] Bc_idle Cf_idle)"
    by (rule ex_run_first) simp
  from run_build [where view = any_view, OF this _ ex_second(1) _ ex_second(3,5)]
  have "settle_reachable ex_env any_view 100 (world_at (ex_db3 ''ff'') 101 [ex_tx ''ff''] [(ex_tx ''ff'', 101)]
      [(1, ex_tx ''ff''), (2, ex_tx ''ff'')] (Bc_sending ''raw-ff:0'') Cf_idle)"
    by (simp add: ex_second(2,4))
  from run_confirm [OF run_refused [OF this] ex_second(6,8) _ ex_second(7)] show ?thesis
    by (simp add: ex_txs)
qed

lemma ex_outcomes:
  "map (\<lambda>r. (p_id r, p_status r, p_txid r)) (db_payments (ex_db4 ''ff'' 101))
     = [(1, Confirmed, Some ''id-ff:0''), (2, Confirmed, Some ''id-ff:0'')]"
  "map (\<lambda>r. (p_id r, p_status r, p_txid r)) (db_payments (ex_db4 ''ee'' 102))
     = [(1, Confirmed, Some ''id-ff:0''), (2, Confirmed, Some ''id-ee:0'')]"
  by code_simp+

lemma ex_ids_fresh:
  "ids_distinct ex_env (world_at s tip rel m [(1, ex_tx ''ff''), (2, ex_tx ''ee'')] bc cf)"
  using ex_txs(2,4) by (simp add: ids_distinct_def world_at_def inj_on_def)

lemma ex_ids_stale:
  "ids_distinct ex_env (world_at s tip rel m [(1, ex_tx ''ff''), (2, ex_tx ''ff'')] bc cf)"
  by (simp add: ids_distinct_def world_at_def)

text \<open>The last world of the first run.\<close>

definition ex_world :: world where
  "ex_world = world_at (ex_db4 ''ee'' 102) 102 [ex_tx ''ee'', ex_tx ''ff'']
     [(ex_tx ''ff'', 101), (ex_tx ''ee'', 102)] [(1, ex_tx ''ff''), (2, ex_tx ''ee'')] Bc_idle Cf_idle"

lemmas ex_world_reachable = ex_run_fresh [folded ex_world_def]

lemma ex_world_ids: "ids_distinct ex_env ex_world"
  unfolding ex_world_def by (rule ex_ids_fresh)

lemma ex_world_db: "w_db ex_world = ex_db4 ''ee'' 102"
  by (simp add: ex_world_def world_at_def)

end
