(* ===== verification/Transfers.thy ===== *)
theory Transfers
  imports Grants
begin

text \<open>
  The arithmetic of moving a subscription (bridge/src/transfers.ts): the rest of a billing
  period in days, the idempotency key of a transfer grant, the thirty-day limit, and the
  outcomes the rails report. A billing period without an end (\<open>NaN\<close> in the source) is
  \<open>None\<close>.
\<close>

section \<open>Arithmetic\<close>

definition TRANSFER_INTERVAL_S :: seconds where
  "TRANSFER_INTERVAL_S = 30 * 86400"

definition DAY_MS :: millis where
  "DAY_MS = 86400000"

definition PLAN_DAYS :: "plan \<Rightarrow> int" where
  "PLAN_DAYS p = (case p of Monthly \<Rightarrow> 30 | Annual \<Rightarrow> 360)"

definition remainingDays :: "millis option \<Rightarrow> millis \<Rightarrow> plan \<Rightarrow> int" where
  "remainingDays periodEndMs nowMs plan =
     (case periodEndMs of
        None \<Rightarrow> 0
      | Some e \<Rightarrow>
          if e \<le> nowMs then 0
          else min (PLAN_DAYS plan) (max 1 (math_ceil_div (e - nowMs) DAY_MS)))"

definition transferEventKey :: "string \<Rightarrow> millis \<Rightarrow> string" where
  "transferEventKey subscriptionKey periodEndMs =
     ''transfer:'' @ subscriptionKey @ CHR '':'' # show_int periodEndMs"

definition transferAvailableAt :: "seconds option \<Rightarrow> seconds \<Rightarrow> seconds option" where
  "transferAvailableAt transferredAt nowS =
     (case transferredAt of
        None \<Rightarrow> None
      | Some t \<Rightarrow>
          let avail = t + TRANSFER_INTERVAL_S in if nowS < avail then Some avail else None)"

section \<open>Outcomes\<close>

record claim_outcome =
  c_accepted :: bool
  c_reason :: string
  c_days :: "int option"
  c_test :: "bool option"
  c_transferred :: "bool option"
  c_availableAt :: "seconds option"

record rebind_outcome =
  r_ok :: bool
  r_reason :: string
  r_previousCode :: "string option"
  r_days :: "int option"
  r_grant :: "string option"
  r_test :: "bool option"

definition grant_slug :: "grant_result option \<Rightarrow> string" where
  "grant_slug g = (case g of None \<Rightarrow> ''none'' | Some Queued \<Rightarrow> ''queued''
     | Some Duplicate \<Rightarrow> ''duplicate'' | Some Invalid_code \<Rightarrow> ''invalid_code'')"

definition claim_refused :: "string \<Rightarrow> seconds option \<Rightarrow> claim_outcome" where
  "claim_refused reason availableAt =
     \<lparr>c_accepted = False, c_reason = reason, c_days = None, c_test = None,
      c_transferred = None, c_availableAt = availableAt\<rparr>"

definition claim_moved :: "grant_result option \<Rightarrow> int \<Rightarrow> bool \<Rightarrow> claim_outcome" where
  "claim_moved g days test =
     \<lparr>c_accepted = True, c_reason = ''transfer:'' @ grant_slug g, c_days = Some days,
      c_test = Some test, c_transferred = Some True, c_availableAt = None\<rparr>"

definition rebind_refused :: "string \<Rightarrow> rebind_outcome" where
  "rebind_refused reason =
     \<lparr>r_ok = False, r_reason = reason, r_previousCode = None, r_days = None, r_grant = None,
      r_test = None\<rparr>"

definition rebind_done :: "string option \<Rightarrow> int \<Rightarrow> grant_result option \<Rightarrow> bool option \<Rightarrow> rebind_outcome" where
  "rebind_done previous days g test =
     \<lparr>r_ok = True, r_reason = ''rebound'', r_previousCode = previous, r_days = Some days,
      r_grant = Some (grant_slug g), r_test = test\<rparr>"

section \<open>Facts\<close>

lemma PLAN_DAYS_bounds: "30 \<le> PLAN_DAYS p" "PLAN_DAYS p \<le> 360"
  by (cases p; simp add: PLAN_DAYS_def)+

lemma remainingDays_bounds: "0 \<le> remainingDays e t p" "remainingDays e t p \<le> PLAN_DAYS p"
  using PLAN_DAYS_bounds [of p] by (auto simp: remainingDays_def split: option.splits)

lemma remainingDays_le_360: "remainingDays e t p \<le> 360"
  using remainingDays_bounds(2) PLAN_DAYS_bounds(2) by (rule order_trans)

lemma remainingDays_pos_iff: "0 < remainingDays e t p \<longleftrightarrow> (\<exists>x. e = Some x \<and> t < x)"
  using PLAN_DAYS_bounds [of p] by (auto simp: remainingDays_def split: option.splits)

lemma remainingDays_antimono: "t \<le> t' \<Longrightarrow> remainingDays e t' p \<le> remainingDays e t p"
proof (cases e)
  case (Some x)
  assume "t \<le> t'"
  then have "math_ceil_div (x - t') DAY_MS \<le> math_ceil_div (x - t) DAY_MS"
    by (intro math_ceil_div_mono) (auto simp: DAY_MS_def)
  with Some \<open>t \<le> t'\<close> show ?thesis
    using PLAN_DAYS_bounds [of p] by (auto simp: remainingDays_def)
qed (simp add: remainingDays_def)

text \<open>The days handed over cover the rest of the period, and overshoot it by less than a day.\<close>

lemma remainingDays_covers:
  assumes "t < e" and "e - t \<le> PLAN_DAYS p * DAY_MS"
  shows "e \<le> t + remainingDays (Some e) t p * DAY_MS"
    and "t + remainingDays (Some e) t p * DAY_MS < e + DAY_MS"
proof -
  let ?c = "math_ceil_div (e - t) DAY_MS"
  have D: "0 < DAY_MS" by (simp add: DAY_MS_def)
  have b: "e - t \<le> DAY_MS * ?c" "DAY_MS * ?c < (e - t) + DAY_MS"
    using math_ceil_div_bounds [OF D, of "e - t"] by auto
  have "1 \<le> ?c" using math_ceil_div_pos [OF D, of "e - t"] assms by simp
  moreover have "?c \<le> PLAN_DAYS p"
  proof (rule ccontr)
    assume "\<not> ?thesis"
    then have "DAY_MS * (PLAN_DAYS p + 1) \<le> DAY_MS * ?c" using D by (intro mult_left_mono) auto
    with b(2) assms(2) show False by (simp add: algebra_simps)
  qed
  ultimately have "remainingDays (Some e) t p = ?c" using assms by (simp add: remainingDays_def)
  with b show "e \<le> t + remainingDays (Some e) t p * DAY_MS"
    "t + remainingDays (Some e) t p * DAY_MS < e + DAY_MS"
    by (simp_all add: mult.commute)
qed

lemma transferEventKey_inject:
  "transferEventKey k e = transferEventKey k' e' \<longleftrightarrow> k = k' \<and> e = e'"
proof
  assume "transferEventKey k e = transferEventKey k' e'"
  then have "k @ CHR '':'' # show_int e = k' @ CHR '':'' # show_int e'"
    by (simp add: transferEventKey_def)
  then have "k = k' \<and> show_int e = show_int e'"
    by (rule append_sep_inject_right) (simp_all add: show_int_no_sep is_digit_def)
  then show "k = k' \<and> e = e'" by simp
qed simp

lemma transferAvailableAt_None:
  "transferAvailableAt m now = None \<longleftrightarrow> (\<forall>t. m = Some t \<longrightarrow> t + TRANSFER_INTERVAL_S \<le> now)"
  by (auto simp: transferAvailableAt_def Let_def split: option.splits)

lemma transferAvailableAt_Some:
  "transferAvailableAt m now = Some a \<Longrightarrow>
     now < a \<and> (\<exists>t. m = Some t \<and> a = t + TRANSFER_INTERVAL_S) \<and> transferAvailableAt m a = None"
  by (auto simp: transferAvailableAt_def Let_def split: option.splits if_splits)

section \<open>One grant per billing period\<close>

text \<open>
  A rail's transfer, as far as the ledger of grants is concerned: it adds nothing, or one
  entry under the key of the billing period, with at least one and at most \<open>cap\<close> days. Then
  however often, by whomever and to whichever codes one period is moved, the days handed
  over for it are at most \<open>cap\<close>: the first move's.
\<close>

definition days_under :: "rail \<Rightarrow> string \<Rightarrow> db \<Rightarrow> int" where
  "days_under rl k s = sum_list (map n_days (filter (\<lambda>p. new_key p = (rl, k)) (payment_ledger s)))"

lemma no_entry:
  assumes "\<not> ledger_has rl k s"
  shows "filter (\<lambda>p. new_key p = (rl, k)) (payment_ledger s) = []"
proof -
  have "new_key p \<noteq> (rl, k)" if "p \<in> set (payment_ledger s)" for p
    using assms imageI [OF that, of new_key] by (auto simp: ledger_has_keys)
  then show ?thesis by (simp add: filter_empty_conv)
qed

locale period_transfer =
  fixes xfer :: "'a \<Rightarrow> db \<Rightarrow> db"
    and rl :: rail
    and period_key :: "'a \<Rightarrow> string"
    and cap :: int
  assumes at_most_one_entry:
    "payment_ledger (xfer a s) = payment_ledger s
     \<or> (\<exists>p. payment_ledger (xfer a s) = payment_ledger s @ [p] \<and> new_key p = (rl, period_key a)
          \<and> \<not> ledger_has rl (period_key a) s \<and> 1 \<le> n_days p \<and> n_days p \<le> cap)"
begin

lemma days_once:
  assumes "ledger_has rl k s"
  shows "days_under rl k (xfer a s) = days_under rl k s"
  using at_most_one_entry [of a s] assms by (auto simp: days_under_def)

lemma entry_kept: "ledger_has r k s \<Longrightarrow> ledger_has r k (xfer a s)"
  using at_most_one_entry [of a s] by (auto simp: ledger_has_keys)

lemma days_step:
  assumes "\<not> ledger_has rl k s" and "0 \<le> cap"
  shows "days_under rl k (xfer a s) \<le> cap"
  using at_most_one_entry [of a s] assms by (auto simp: days_under_def no_entry)

lemma days_kept:
  "ledger_has rl k s \<Longrightarrow> days_under rl k (fold xfer as s) = days_under rl k s"
  by (induction as arbitrary: s) (simp_all add: days_once entry_kept)

lemma days_bounded:
  assumes "\<not> ledger_has rl k s" and "0 \<le> cap"
  shows "days_under rl k (fold xfer as s) \<le> cap"
  using assms(1)
proof (induction as arbitrary: s)
  case Nil
  with assms(2) show ?case by (simp add: days_under_def no_entry)
next
  case (Cons a as)
  show ?case
  proof (cases "ledger_has rl k (xfer a s)")
    case True
    with days_step [OF Cons.prems assms(2)] show ?thesis by (simp add: days_kept)
  next
    case False
    from Cons.IH [OF this] show ?thesis by simp
  qed
qed

end

end
