(* ===== verification/SubscriptionsRepo.thy ===== *)
theory SubscriptionsRepo
  imports Transfers
begin

text \<open>
  The repository over \<open>subscriptions\<close>, \<open>apple_token_map\<close> and \<open>subscription_transfers\<close>
  (bridge/src/db/subscriptions.ts). The callers are the three rails, whose rail is always
  one of the three the table's CHECK admits.
\<close>

section \<open>Operations\<close>

definition get_sub :: "rail \<Rightarrow> string \<Rightarrow> db \<Rightarrow> sub_row option" where
  "get_sub rl ext s = find (\<lambda>r. sub_key r = (rl, ext)) (db_subs s)"

definition upsert ::
  "seconds \<Rightarrow> rail \<Rightarrow> string \<Rightarrow> string \<Rightarrow> plan \<Rightarrow> string option \<Rightarrow> db \<Rightarrow> db" where
  "upsert now rl ext code plan customer s =
     s\<lparr>db_subs :=
       (if has_key sub_key (rl, ext) (db_subs s)
        then update_where (\<lambda>r. sub_key r = (rl, ext))
          (\<lambda>r. r\<lparr>s_payment_code := code, s_plan := plan, s_status := Active, s_updated_at := now,
                 s_stripe_customer_id :=
                   (case customer of Some c \<Rightarrow> Some c | None \<Rightarrow> s_stripe_customer_id r)\<rparr>)
          (db_subs s)
        else db_subs s @
          [\<lparr>s_rail = rl, s_external_id = ext, s_payment_code = code, s_plan = plan,
            s_status = Active, s_created_at = now, s_updated_at = now,
            s_stripe_customer_id = customer, s_transferred_at = None,
            s_apple_expires_ms = None, s_apple_sandbox = None\<rparr>])\<rparr>"

definition listForCode :: "string \<Rightarrow> db \<Rightarrow> sub_row list" where
  "listForCode code s =
     sort_key (\<lambda>r. - s_updated_at r) (filter (\<lambda>r. s_payment_code r = code) (db_subs s))"

text \<open>Moves a subscription and returns the code it was bound to before, if any.\<close>

definition rebind ::
  "seconds \<Rightarrow> rail \<Rightarrow> string \<Rightarrow> string \<Rightarrow> plan \<Rightarrow> actor \<Rightarrow> int \<Rightarrow> db \<Rightarrow> string option \<times> db" where
  "rebind now rl ext code plan who days s =
     (let previous = map_option s_payment_code (get_sub rl ext s);
          subs =
            (if has_key sub_key (rl, ext) (db_subs s)
             then update_where (\<lambda>r. sub_key r = (rl, ext))
               (\<lambda>r. r\<lparr>s_payment_code := code, s_plan := plan, s_updated_at := now,
                      s_transferred_at := Some now\<rparr>)
               (db_subs s)
             else db_subs s @
               [\<lparr>s_rail = rl, s_external_id = ext, s_payment_code = code, s_plan = plan,
                 s_status = Active, s_created_at = now, s_updated_at = now,
                 s_stripe_customer_id = None, s_transferred_at = Some now,
                 s_apple_expires_ms = None, s_apple_sandbox = None\<rparr>]);
          t = \<lparr>t_id = next_rowid (map t_id (db_transfers s)), t_rail = rl, t_external_id = ext,
               t_from_code = previous, t_to_code = code, t_actor = who, t_days = days,
               t_created_at = now\<rparr>
      in (previous, s\<lparr>db_subs := subs, db_transfers := db_transfers s @ [t]\<rparr>))"

definition transfersForCode :: "string \<Rightarrow> nat \<Rightarrow> db \<Rightarrow> transfer_row list" where
  "transfersForCode code limit s =
     take limit (sort_key (\<lambda>t. (- t_created_at t, - int (t_id t)))
       (filter (\<lambda>t. t_from_code t = Some code \<or> t_to_code t = code) (db_transfers s)))"

definition noteAppleExpiry :: "string \<Rightarrow> millis \<Rightarrow> bool \<Rightarrow> db \<Rightarrow> db" where
  "noteAppleExpiry otid expiresMs sandbox s =
     s\<lparr>db_subs := update_where
        (\<lambda>r. sub_key r = (Apple, otid)
             \<and> (case s_apple_expires_ms r of None \<Rightarrow> True | Some e \<Rightarrow> e \<le> expiresMs))
        (\<lambda>r. r\<lparr>s_apple_expires_ms := Some expiresMs, s_apple_sandbox := Some (if sandbox then 1 else 0)\<rparr>)
        (db_subs s)\<rparr>"

definition setStatus :: "seconds \<Rightarrow> rail \<Rightarrow> string \<Rightarrow> sub_status \<Rightarrow> db \<Rightarrow> db" where
  "setStatus now rl ext st s =
     s\<lparr>db_subs := update_where (\<lambda>r. sub_key r = (rl, ext))
        (\<lambda>r. r\<lparr>s_status := st, s_updated_at := now\<rparr>) (db_subs s)\<rparr>"

definition mapAppleToken :: "string \<Rightarrow> string \<Rightarrow> db \<Rightarrow> db" where
  "mapAppleToken token code s =
     (let t = lower_str token in
      s\<lparr>db_apple_map :=
        (if has_key fst t (db_apple_map s)
         then update_where (\<lambda>r. fst r = t) (\<lambda>r. (fst r, code)) (db_apple_map s)
         else db_apple_map s @ [(t, code)])\<rparr>)"

definition codeForAppleToken :: "string \<Rightarrow> db \<Rightarrow> string option" where
  "codeForAppleToken token s =
     map_option snd (find (\<lambda>r. fst r = lower_str token) (db_apple_map s))"

section \<open>The binding of a subscription as an interface\<close>

text \<open>
  What the rails rely on when they bind and move subscriptions: a bind leaves the mark of
  the last move alone, a move sets it, and neither touches another subscription.
\<close>

locale binding_store =
  fixes lookup :: "'k \<Rightarrow> 's \<Rightarrow> 'b option"
    and owner :: "'b \<Rightarrow> string"
    and moved :: "'b \<Rightarrow> seconds option"
    and bind_code :: "'k \<Rightarrow> string \<Rightarrow> 's \<Rightarrow> 's"
    and move :: "seconds \<Rightarrow> 'k \<Rightarrow> string \<Rightarrow> 's \<Rightarrow> 's"
  assumes bind_same: "\<exists>b. lookup k (bind_code k c s) = Some b \<and> owner b = c
      \<and> moved b = Option.bind (lookup k s) moved"
    and bind_other: "k' \<noteq> k \<Longrightarrow> lookup k' (bind_code k c s) = lookup k' s"
    and move_same: "\<exists>b. lookup k (move t k c s) = Some b \<and> owner b = c \<and> moved b = Some t"
    and move_other: "k' \<noteq> k \<Longrightarrow> lookup k' (move t k c s) = lookup k' s"
begin

abbreviation owner_of :: "'k \<Rightarrow> 's \<Rightarrow> string option" where
  "owner_of k s \<equiv> map_option owner (lookup k s)"

abbreviation moved_at :: "'k \<Rightarrow> 's \<Rightarrow> seconds option" where
  "moved_at k s \<equiv> Option.bind (lookup k s) moved"

lemma owner_bind: "owner_of k' (bind_code k c s) = (if k' = k then Some c else owner_of k' s)"
  using bind_same [of k c s] bind_other [of k' k c s] by auto

lemma owner_move: "owner_of k' (move t k c s) = (if k' = k then Some c else owner_of k' s)"
  using move_same [of k t c s] move_other [of k' k t c s] by auto

lemma moved_bind: "moved_at k' (bind_code k c s) = moved_at k' s"
  using bind_same [of k c s] bind_other [of k' k c s] by (cases "k' = k") auto

lemma moved_move: "moved_at k' (move t k c s) = (if k' = k then Some t else moved_at k' s)"
  using move_same [of k t c s] move_other [of k' k t c s] by auto

text \<open>Rebinding, however often and to whatever codes, never restarts or lifts the limit.\<close>

lemma binds_keep_limit:
  "moved_at k (fold (\<lambda>(k', c). bind_code k' c) bs s) = moved_at k s"
proof (induction bs arbitrary: s)
  case (Cons b bs)
  then show ?case using moved_bind [of k "fst b" "snd b" s] by (simp add: case_prod_beta)
qed simp

lemma move_then_limited:
  assumes "now < t + TRANSFER_INTERVAL_S"
  shows "transferAvailableAt (moved_at k (fold (\<lambda>(k', c). bind_code k' c) bs (move t k c s))) now
    = Some (t + TRANSFER_INTERVAL_S)"
  using assms by (simp only: binds_keep_limit) (simp add: moved_move transferAvailableAt_def Let_def)

lemma move_then_free:
  assumes "t + TRANSFER_INTERVAL_S \<le> now"
  shows "transferAvailableAt (moved_at k (move t k c s)) now = None"
  using assms by (simp add: moved_move transferAvailableAt_None)

end

section \<open>The subscriptions table provides it\<close>

lemma get_sub_Some: "get_sub rl ext s = Some r \<Longrightarrow> r \<in> set (db_subs s) \<and> s_rail r = rl \<and> s_external_id r = ext"
  using find_key_Some [of sub_key "(rl, ext)" "db_subs s" r] by (simp add: get_sub_def sub_key_def)

lemma get_sub_None: "get_sub rl ext s = None \<longleftrightarrow> \<not> has_key sub_key (rl, ext) (db_subs s)"
  by (simp add: get_sub_def find_key_None)

lemma find_sub_update:
  assumes "\<And>r. s_rail (f r) = s_rail r" and "\<And>r. s_external_id (f r) = s_external_id r"
  shows "find (\<lambda>r. sub_key r = k') (update_where (\<lambda>r. sub_key r = k) f rs)
    = (if k' = k then map_option f (find (\<lambda>r. sub_key r = k) rs) else find (\<lambda>r. sub_key r = k') rs)"
proof -
  have key: "\<And>r. sub_key (f r) = sub_key r" using assms by (simp add: sub_key_def)
  show ?thesis
    by (auto simp: find_update_same [of sub_key, OF key] intro!: find_update_other [of sub_key, OF key])
qed

lemma sub_key_make [simp]:
  "sub_key \<lparr>s_rail = rl, s_external_id = ext, s_payment_code = c, s_plan = pl, s_status = st,
     s_created_at = t, s_updated_at = t', s_stripe_customer_id = cu, s_transferred_at = m,
     s_apple_expires_ms = e, s_apple_sandbox = b\<rparr> = (rl, ext)"
  by (simp add: sub_key_def)

lemma get_sub_upsert:
  "get_sub rl' ext' (upsert now rl ext code plan cust s) =
    (if (rl', ext') = (rl, ext) then
       Some (case get_sub rl ext s of
         Some r \<Rightarrow> r\<lparr>s_payment_code := code, s_plan := plan, s_status := Active, s_updated_at := now,
           s_stripe_customer_id := (case cust of Some c \<Rightarrow> Some c | None \<Rightarrow> s_stripe_customer_id r)\<rparr>
       | None \<Rightarrow> \<lparr>s_rail = rl, s_external_id = ext, s_payment_code = code, s_plan = plan,
            s_status = Active, s_created_at = now, s_updated_at = now, s_stripe_customer_id = cust,
            s_transferred_at = None, s_apple_expires_ms = None, s_apple_sandbox = None\<rparr>)
     else get_sub rl' ext' s)"
proof (cases "has_key sub_key (rl, ext) (db_subs s)")
  case True
  then obtain r where "get_sub rl ext s = Some r" using get_sub_None by (metis not_None_eq)
  then show ?thesis using True by (auto simp: get_sub_def upsert_def find_sub_update)
next
  case False
  then have "get_sub rl ext s = None" by (simp add: get_sub_None)
  with False show ?thesis
    by (auto simp: get_sub_def upsert_def find_append split: option.splits)
qed

lemma get_sub_rebind:
  "get_sub rl' ext' (snd (rebind now rl ext code plan who days s)) =
    (if (rl', ext') = (rl, ext) then
       Some (case get_sub rl ext s of
         Some r \<Rightarrow> r\<lparr>s_payment_code := code, s_plan := plan, s_updated_at := now, s_transferred_at := Some now\<rparr>
       | None \<Rightarrow> \<lparr>s_rail = rl, s_external_id = ext, s_payment_code = code, s_plan = plan,
            s_status = Active, s_created_at = now, s_updated_at = now, s_stripe_customer_id = None,
            s_transferred_at = Some now, s_apple_expires_ms = None, s_apple_sandbox = None\<rparr>)
     else get_sub rl' ext' s)"
proof (cases "has_key sub_key (rl, ext) (db_subs s)")
  case True
  then obtain r where "get_sub rl ext s = Some r" using get_sub_None by (metis not_None_eq)
  then show ?thesis using True by (auto simp: get_sub_def rebind_def Let_def find_sub_update)
next
  case False
  then have "get_sub rl ext s = None" by (simp add: get_sub_None)
  with False show ?thesis
    by (auto simp: get_sub_def rebind_def Let_def find_append split: option.splits)
qed

interpretation subs: binding_store
  "\<lambda>k s. get_sub (fst k) (snd k) s" s_payment_code s_transferred_at
  "\<lambda>k c s. upsert now (fst k) (snd k) c plan cust s"
  "\<lambda>t k c s. snd (rebind t (fst k) (snd k) c plan who days s)"
  for now plan cust who days
proof unfold_locales
  fix k k' :: "rail \<times> string" and c s t
  show "\<exists>b. get_sub (fst k) (snd k) (upsert now (fst k) (snd k) c plan cust s) = Some b
      \<and> s_payment_code b = c \<and> s_transferred_at b = Option.bind (get_sub (fst k) (snd k) s) s_transferred_at"
    by (auto simp: get_sub_upsert split: option.splits)
  show "\<exists>b. get_sub (fst k) (snd k) (snd (rebind t (fst k) (snd k) c plan who days s)) = Some b
      \<and> s_payment_code b = c \<and> s_transferred_at b = Some t"
    by (auto simp: get_sub_rebind split: option.splits)
  assume "k' \<noteq> k"
  then show "get_sub (fst k') (snd k') (upsert now (fst k) (snd k) c plan cust s) = get_sub (fst k') (snd k') s"
    "get_sub (fst k') (snd k') (snd (rebind t (fst k) (snd k) c plan who days s)) = get_sub (fst k') (snd k') s"
    by (auto simp: get_sub_upsert get_sub_rebind prod_eq_iff)
qed

section \<open>Frames and invariants\<close>

lemma upsert_frame [repo_simps]:
  "db_payments (upsert now rl ext code plan cust s) = db_payments s"
  "db_spent (upsert now rl ext code plan cust s) = db_spent s"
  "db_apple_map (upsert now rl ext code plan cust s) = db_apple_map s"
  "db_transfers (upsert now rl ext code plan cust s) = db_transfers s"
  "db_vouchers (upsert now rl ext code plan cust s) = db_vouchers s"
  "db_redemptions (upsert now rl ext code plan cust s) = db_redemptions s"
  by (simp_all add: upsert_def)

lemma rebind_frame [repo_simps]:
  "db_payments (snd (rebind now rl ext code plan who days s)) = db_payments s"
  "db_spent (snd (rebind now rl ext code plan who days s)) = db_spent s"
  "db_apple_map (snd (rebind now rl ext code plan who days s)) = db_apple_map s"
  "db_vouchers (snd (rebind now rl ext code plan who days s)) = db_vouchers s"
  "db_redemptions (snd (rebind now rl ext code plan who days s)) = db_redemptions s"
  by (simp_all add: rebind_def Let_def)

lemma rebind_previous: "fst (rebind now rl ext code plan who days s) = map_option s_payment_code (get_sub rl ext s)"
  by (simp add: rebind_def Let_def)

lemma noteAppleExpiry_frame [repo_simps]:
  "db_payments (noteAppleExpiry o' e b s) = db_payments s"
  "db_spent (noteAppleExpiry o' e b s) = db_spent s"
  "db_apple_map (noteAppleExpiry o' e b s) = db_apple_map s"
  "db_transfers (noteAppleExpiry o' e b s) = db_transfers s"
  "db_vouchers (noteAppleExpiry o' e b s) = db_vouchers s"
  "db_redemptions (noteAppleExpiry o' e b s) = db_redemptions s"
  by (simp_all add: noteAppleExpiry_def)

lemma setStatus_frame [repo_simps]:
  "db_payments (setStatus now rl ext st s) = db_payments s"
  "db_spent (setStatus now rl ext st s) = db_spent s"
  "db_apple_map (setStatus now rl ext st s) = db_apple_map s"
  "db_transfers (setStatus now rl ext st s) = db_transfers s"
  "db_vouchers (setStatus now rl ext st s) = db_vouchers s"
  "db_redemptions (setStatus now rl ext st s) = db_redemptions s"
  by (simp_all add: setStatus_def)

lemma mapAppleToken_frame [repo_simps]:
  "db_payments (mapAppleToken t c s) = db_payments s"
  "db_spent (mapAppleToken t c s) = db_spent s"
  "db_subs (mapAppleToken t c s) = db_subs s"
  "db_transfers (mapAppleToken t c s) = db_transfers s"
  "db_vouchers (mapAppleToken t c s) = db_vouchers s"
  "db_redemptions (mapAppleToken t c s) = db_redemptions s"
  by (simp_all add: mapAppleToken_def Let_def)

lemma upsert_wf: "db_wf s \<Longrightarrow> db_wf (upsert now rl ext code plan cust s)"
  unfolding upsert_def
  by (rule db_wf_subs_update) (auto simp: db_wf_def sub_key_def table_simps)

lemma rebind_wf: "db_wf s \<Longrightarrow> db_wf (snd (rebind now rl ext code plan who days s))"
  unfolding rebind_def Let_def snd_conv
  by (intro db_wf_transfers_update db_wf_subs_update)
    (auto simp: db_wf_def sub_key_def table_simps)

lemma noteAppleExpiry_wf: "db_wf s \<Longrightarrow> db_wf (noteAppleExpiry o' e b s)"
  unfolding noteAppleExpiry_def
  by (rule db_wf_subs_update) (auto simp: db_wf_def sub_key_def table_simps)

lemma setStatus_wf: "db_wf s \<Longrightarrow> db_wf (setStatus now rl ext st s)"
  unfolding setStatus_def
  by (rule db_wf_subs_update) (auto simp: db_wf_def sub_key_def table_simps)

lemma mapAppleToken_wf: "db_wf s \<Longrightarrow> db_wf (mapAppleToken t c s)"
  unfolding mapAppleToken_def Let_def
  by (rule db_wf_apple_update) (auto simp: db_wf_def table_simps)

lemma get_sub_setStatus:
  "get_sub rl' ext' (setStatus now rl ext st s) =
    (if (rl', ext') = (rl, ext) then map_option (\<lambda>r. r\<lparr>s_status := st, s_updated_at := now\<rparr>) (get_sub rl ext s)
     else get_sub rl' ext' s)"
  by (auto simp: get_sub_def setStatus_def find_sub_update)

lemma codeForAppleToken_map:
  "codeForAppleToken t' (mapAppleToken t c s) = (if lower_str t' = lower_str t then Some c else codeForAppleToken t' s)"
proof (cases "has_key fst (lower_str t) (db_apple_map s)")
  case True
  then have "find (\<lambda>r. fst r = lower_str t) (db_apple_map s) \<noteq> None"
    by (simp add: find_key_None)
  with True show ?thesis
    by (auto simp: codeForAppleToken_def mapAppleToken_def Let_def find_update_same
        intro!: arg_cong [where f = "map_option snd"] find_update_other)
next
  case False
  then have "find (\<lambda>r. fst r = lower_str t) (db_apple_map s) = None"
    by (simp add: find_key_None)
  with False show ?thesis
    by (auto simp: codeForAppleToken_def mapAppleToken_def Let_def find_append split: option.splits)
qed

lemma find_sub_update_where:
  assumes "\<And>r. sub_key (f r) = sub_key r"
  shows "find (\<lambda>r. sub_key r = k) (update_where P f rs)
    = map_option (\<lambda>r. if P r then f r else r) (find (\<lambda>r. sub_key r = k) rs)"
  using assms by (induction rs) (auto simp: update_where_def)

lemma get_sub_noteAppleExpiry:
  "get_sub rl ext (noteAppleExpiry o' x b s)
    = map_option (\<lambda>r. if sub_key r = (Apple, o')
           \<and> (case s_apple_expires_ms r of None \<Rightarrow> True | Some e \<Rightarrow> e \<le> x)
         then r\<lparr>s_apple_expires_ms := Some x, s_apple_sandbox := Some (if b then 1 else 0)\<rparr> else r)
       (get_sub rl ext s)"
proof -
  have "sub_key (r\<lparr>s_apple_expires_ms := Some x, s_apple_sandbox := y\<rparr>) = sub_key r" for r y
    by (simp add: sub_key_def)
  then show ?thesis by (simp add: get_sub_def noteAppleExpiry_def find_sub_update_where)
qed

text \<open>The period noted for an Apple subscription only moves forward.\<close>

lemma noteAppleExpiry_forward:
  assumes "get_sub Apple o' s = Some r" and "s_apple_expires_ms r = Some e"
  shows "\<exists>r' e'. get_sub Apple o' (noteAppleExpiry o' x b s) = Some r'
    \<and> s_apple_expires_ms r' = Some e' \<and> e' = max e x"
  using assms get_sub_Some [OF assms(1)]
  by (auto simp: get_sub_noteAppleExpiry sub_key_def max_def)

end
