(* ===== verification/Moves.thy ===== *)
theory Moves
  imports SubscriptionsRepo
begin

text \<open>
  What the three rails promise about moving a subscription from one device to another
  (bridge/src/transfers.ts, and \<open>claim\<close>, \<open>adminRebind\<close>, \<open>transferTo\<close> in
  bridge/src/rails): every move is logged, and a user's move comes at least thirty days
  after the last. The contract is on one handler call; a locale lifts it to every sequence
  of calls, and each rail interprets it.
\<close>

section \<open>The log and the mark of a subscription\<close>

definition transfers_of :: "rail \<Rightarrow> string \<Rightarrow> db \<Rightarrow> transfer_row list" where
  "transfers_of rl ext s = filter (\<lambda>t. t_rail t = rl \<and> t_external_id t = ext) (db_transfers s)"

definition moved_at :: "rail \<Rightarrow> string \<Rightarrow> db \<Rightarrow> seconds option" where
  "moved_at rl ext s = Option.bind (get_sub rl ext s) s_transferred_at"

definition owner_of :: "rail \<Rightarrow> string \<Rightarrow> db \<Rightarrow> string option" where
  "owner_of rl ext s = map_option s_payment_code (get_sub rl ext s)"

fun spaced :: "transfer_row list \<Rightarrow> bool" where
  "spaced (a # b # ts) \<longleftrightarrow>
     (t_actor b = User \<longrightarrow> t_created_at a + TRANSFER_INTERVAL_S \<le> t_created_at b) \<and> spaced (b # ts)"
| "spaced _ = True"

lemma spaced_snoc:
  "spaced (ts @ [t]) \<longleftrightarrow> spaced ts \<and>
     (ts \<noteq> [] \<longrightarrow> t_actor t = User \<longrightarrow> t_created_at (last ts) + TRANSFER_INTERVAL_S \<le> t_created_at t)"
  by (induction ts rule: spaced.induct) auto

section \<open>The contract of a call\<close>

definition moves_ok :: "db \<Rightarrow> db \<Rightarrow> bool" where
  "moves_ok s s' \<longleftrightarrow> (\<forall>rl ext.
     transfers_of rl ext s' = transfers_of rl ext s \<and> moved_at rl ext s' = moved_at rl ext s
     \<or> (\<exists>t. transfers_of rl ext s' = transfers_of rl ext s @ [t]
          \<and> moved_at rl ext s' = Some (t_created_at t)
          \<and> (t_actor t = User \<longrightarrow> transferAvailableAt (moved_at rl ext s) (t_created_at t) = None)))"

definition limit_inv :: "db \<Rightarrow> bool" where
  "limit_inv s \<longleftrightarrow> (\<forall>rl ext. spaced (transfers_of rl ext s)
     \<and> (transfers_of rl ext s \<noteq> [] \<longrightarrow> moved_at rl ext s = Some (t_created_at (last (transfers_of rl ext s)))))"

lemma limit_inv_empty: "limit_inv empty_db"
  by (simp add: limit_inv_def transfers_of_def empty_db_def)

lemma moves_ok_refl [simp]: "moves_ok s s"
  by (simp add: moves_ok_def)

lemma moves_ok_same:
  "db_transfers s' = db_transfers s \<Longrightarrow> (\<And>rl ext. moved_at rl ext s' = moved_at rl ext s) \<Longrightarrow> moves_ok s s'"
  by (simp add: moves_ok_def transfers_of_def)

lemma limit_inv_step:
  assumes "limit_inv s" and "moves_ok s s'"
  shows "limit_inv s'"
  unfolding limit_inv_def
proof (intro allI)
  fix rl ext
  let ?ts = "transfers_of rl ext"
  have inv: "spaced (?ts s)" "?ts s \<noteq> [] \<Longrightarrow> moved_at rl ext s = Some (t_created_at (last (?ts s)))"
    using assms(1) by (simp_all add: limit_inv_def)
  from assms(2) consider "?ts s' = ?ts s" "moved_at rl ext s' = moved_at rl ext s"
    | t where "?ts s' = ?ts s @ [t]" "moved_at rl ext s' = Some (t_created_at t)"
      "t_actor t = User \<longrightarrow> transferAvailableAt (moved_at rl ext s) (t_created_at t) = None"
    unfolding moves_ok_def by metis
  then show "spaced (?ts s') \<and> (?ts s' \<noteq> [] \<longrightarrow> moved_at rl ext s' = Some (t_created_at (last (?ts s'))))"
  proof cases
    case 1
    then show ?thesis using inv by simp
  next
    case (2 t)
    then show ?thesis using inv by (auto simp: spaced_snoc transferAvailableAt_None)
  qed
qed

locale limited_moves =
  fixes call :: "'a \<Rightarrow> db \<Rightarrow> db"
  assumes call_moves_ok: "moves_ok s (call a s)"
begin

lemma calls_limited: "limit_inv s \<Longrightarrow> limit_inv (fold call as s)"
proof (induction as arbitrary: s)
  case (Cons a as)
  then show ?case using limit_inv_step [OF Cons.prems call_moves_ok] by simp
qed simp

lemma calls_spaced: "spaced (transfers_of rl ext (fold call as empty_db))"
  using calls_limited [OF limit_inv_empty, of as] by (simp add: limit_inv_def)

end

section \<open>The repository's operations\<close>

lemma get_sub_frame [simp]:
  "get_sub rl ext (add_call c s) = get_sub rl ext s"
  "get_sub rl ext (mapAppleToken tok code s) = get_sub rl ext s"
  "get_sub rl ext (snd (recordGrant b58 pz now ev s)) = get_sub rl ext s"
  by (simp_all add: get_sub_def repo_simps)

lemma moved_at_simps [simp]:
  "moved_at rl ext (upsert now rl' ext' code plan cust s) = moved_at rl ext s"
  "moved_at rl ext (snd (rebind now rl' ext' code plan who days s))
     = (if (rl, ext) = (rl', ext') then Some now else moved_at rl ext s)"
  "moved_at rl ext (setStatus now rl' ext' st s) = moved_at rl ext s"
  "moved_at rl ext (add_call c s) = moved_at rl ext s"
  "moved_at rl ext (mapAppleToken t code s) = moved_at rl ext s"
  "moved_at rl ext (snd (recordGrant b58 pz now ev s)) = moved_at rl ext s"
  by (auto simp: moved_at_def get_sub_upsert get_sub_rebind get_sub_setStatus bind_map_option comp_def
      split: option.splits)

lemma owner_of_simps [simp]:
  "owner_of rl ext (upsert now rl' ext' code plan cust s) = (if (rl, ext) = (rl', ext') then Some code else owner_of rl ext s)"
  "owner_of rl ext (snd (rebind now rl' ext' code plan who days s))
     = (if (rl, ext) = (rl', ext') then Some code else owner_of rl ext s)"
  "owner_of rl ext (setStatus now rl' ext' st s) = owner_of rl ext s"
  "owner_of rl ext (add_call c s) = owner_of rl ext s"
  "owner_of rl ext (snd (recordGrant b58 pz now ev s)) = owner_of rl ext s"
  by (auto simp: owner_of_def get_sub_upsert get_sub_rebind get_sub_setStatus comp_def option.map_comp
      split: option.splits)

lemma moves_ok_rebind:
  assumes "who = User \<Longrightarrow> transferAvailableAt (moved_at rl ext s) now = None"
    and "db_transfers s1 = db_transfers s" and "\<And>r e. moved_at r e s1 = moved_at r e s"
  shows "moves_ok s (snd (rebind now rl ext code plan who days s1))"
  unfolding moves_ok_def
proof (intro allI)
  fix r e
  let ?s = "snd (rebind now rl ext code plan who days s1)"
  let ?t = "\<lparr>t_id = next_rowid (map t_id (db_transfers s1)), t_rail = rl, t_external_id = ext,
    t_from_code = map_option s_payment_code (get_sub rl ext s1), t_to_code = code, t_actor = who,
    t_days = days, t_created_at = now\<rparr>"
  have ts: "transfers_of r e ?s = transfers_of r e s @ (if (r, e) = (rl, ext) then [?t] else [])"
    using assms(2) by (auto simp: transfers_of_def rebind_def Let_def)
  have "moved_at r e ?s = (if (r, e) = (rl, ext) then Some now else moved_at r e s)"
    using assms(3) by simp
  with ts assms(1) show "transfers_of r e ?s = transfers_of r e s \<and> moved_at r e ?s = moved_at r e s
     \<or> (\<exists>t. transfers_of r e ?s = transfers_of r e s @ [t] \<and> moved_at r e ?s = Some (t_created_at t)
          \<and> (t_actor t = User \<longrightarrow> transferAvailableAt (moved_at r e s) (t_created_at t) = None))"
    by (cases "(r, e) = (rl, ext)") auto
qed

lemma moves_ok_trans_same:
  assumes "moves_ok s s1" and "db_transfers s2 = db_transfers s1" and "\<And>r e. moved_at r e s2 = moved_at r e s1"
  shows "moves_ok s s2"
  using assms by (simp add: moves_ok_def transfers_of_def)

lemma ledger_frame [simp]:
  "payment_ledger (upsert now rl ext code plan cust s) = payment_ledger s"
  "payment_ledger (snd (rebind now rl ext code plan who days s)) = payment_ledger s"
  "payment_ledger (setStatus now rl ext st s) = payment_ledger s"
  "payment_ledger (noteAppleExpiry ext e b s) = payment_ledger s"
  "payment_ledger (mapAppleToken tok code s) = payment_ledger s"
  "payment_ledger (add_call c s) = payment_ledger s"
  by (simp_all add: payment_ledger_def repo_simps)

lemma note_expiry_simps [simp]:
  "moved_at rl ext (noteAppleExpiry o' x b s) = moved_at rl ext s"
  "owner_of rl ext (noteAppleExpiry o' x b s) = owner_of rl ext s"
  "owner_of rl ext (mapAppleToken tok code s) = owner_of rl ext s"
  by (auto simp: moved_at_def owner_of_def get_sub_noteAppleExpiry split: option.splits
      intro!: option.map_cong0)
    (cases "get_sub rl ext s"; simp)+

section \<open>Granting the rest of a period and moving\<close>

text \<open>
  The part of \<open>transferTo\<close> the three rails share: the grant, if there are days to hand over,
  is recorded before the rebind. An exception of the grant leaves everything as it was.
\<close>

record rail_env =
  re_b58 :: "string \<Rightarrow> bytes option"
  re_priceZats :: zats

record transfer_result =
  tr_days :: int
  tr_grant :: "grant_result option"
  tr_previous :: "string option"

definition rail_grant ::
  "rail_env \<Rightarrow> millis \<Rightarrow> rail \<Rightarrow> string \<Rightarrow> string \<Rightarrow> string \<Rightarrow> int \<Rightarrow> db \<Rightarrow> (exn + grant_result) \<times> db" where
  "rail_grant env ms rl eventKey ref code days s =
     recordGrant (re_b58 env) (re_priceZats env) (now_s ms)
       \<lparr>g_rail = rl, g_eventKey = eventKey, g_externalRef = ref, g_paymentCode = code, g_days = days\<rparr> s"

definition period_grant ::
  "rail_env \<Rightarrow> millis \<Rightarrow> rail \<Rightarrow> string \<Rightarrow> string \<Rightarrow> string \<Rightarrow> int \<Rightarrow> db \<Rightarrow> (exn + grant_result option) \<times> db" where
  "period_grant env ms rl eventKey ref code days s =
     (if 0 < days then
        (case rail_grant env ms rl eventKey ref code days s of
           (Inl e, s') \<Rightarrow> (Inl e, s')
         | (Inr r, s') \<Rightarrow> (Inr (Some r), s'))
      else (Inr None, s))"

definition move_sub ::
  "rail_env \<Rightarrow> millis \<Rightarrow> rail \<Rightarrow> string \<Rightarrow> string \<Rightarrow> plan \<Rightarrow> actor \<Rightarrow> string \<Rightarrow> int \<Rightarrow> db \<Rightarrow>
   (exn + transfer_result) \<times> db" where
  "move_sub env ms rl ext code plan who eventKey days s =
     (case period_grant env ms rl eventKey ext code days s of
        (Inl e, s') \<Rightarrow> (Inl e, s')
      | (Inr g, s') \<Rightarrow>
          (let (previous, s'') = rebind (now_s ms) rl ext code plan who days s'
           in (Inr \<lparr>tr_days = days, tr_grant = g, tr_previous = previous\<rparr>, s'')))"

lemma recordGrant_Inl: "recordGrant b58 pz now ev s = (Inl e, s') \<Longrightarrow> s' = s"
  by (auto simp: recordGrant_def insertIdempotent_def Let_def split: if_splits)

lemma rail_grant_simps [simp]:
  "moved_at r e (snd (rail_grant env ms rl k ref code days s)) = moved_at r e s"
  "owner_of r e (snd (rail_grant env ms rl k ref code days s)) = owner_of r e s"
  "get_sub r e (snd (rail_grant env ms rl k ref code days s)) = get_sub r e s"
  "db_transfers (snd (rail_grant env ms rl k ref code days s)) = db_transfers s"
  "db_subs (snd (rail_grant env ms rl k ref code days s)) = db_subs s"
  "db_apple_map (snd (rail_grant env ms rl k ref code days s)) = db_apple_map s"
  by (simp_all add: rail_grant_def repo_simps)

lemma rail_grant_ledger:
  "payment_ledger (snd (rail_grant env ms rl k ref code days s)) = payment_ledger s
   \<or> (\<exists>p. payment_ledger (snd (rail_grant env ms rl k ref code days s)) = payment_ledger s @ [p]
        \<and> new_key p = (rl, k) \<and> \<not> ledger_has rl k s \<and> 1 \<le> n_days p \<and> n_days p = days
        \<and> n_paymentCode p = code \<and> isValidPaymentCode (re_b58 env) code)"
proof -
  let ?ev = "\<lparr>g_rail = rl, g_eventKey = k, g_externalRef = ref, g_paymentCode = code, g_days = days\<rparr>"
  let ?p = "grant_payment (re_priceZats env) ?ev"
  have "new_key ?p = (rl, k)" "n_days ?p = days" "n_paymentCode ?p = code" "new_ok ?p \<Longrightarrow> 1 \<le> n_days ?p"
    by (simp, simp_all add: grant_payment_def new_ok_def)
  then show ?thesis
    using pq.ledger_insert [of "now_s ms" ?p s]
    by (cases "isValidPaymentCode (re_b58 env) code \<and> new_ok ?p \<and> (rl, k) \<notin> new_key ` set (payment_ledger s)")
      (auto simp: rail_grant_def recordGrant_snd ledger_has_keys)
qed

lemma period_grant_snd:
  "snd (period_grant env ms rl k ref code days s)
     = (if 0 < days then snd (rail_grant env ms rl k ref code days s) else s)"
  by (auto simp: period_grant_def split: prod.splits sum.splits)

lemma period_grant_Inl: "period_grant env ms rl k ref code days s = (Inl e, s') \<Longrightarrow> s' = s"
  by (auto simp: period_grant_def rail_grant_def dest: recordGrant_Inl split: if_splits prod.splits sum.splits)

text \<open>A move either throws and changes nothing, or grants and then rebinds.\<close>

lemma move_sub_snd:
  "snd (move_sub env ms rl ext code plan who k days s) = s
     \<and> (\<exists>e. fst (move_sub env ms rl ext code plan who k days s) = Inl e)
   \<or> (\<exists>g s1. period_grant env ms rl k ext code days s = (Inr g, s1)
        \<and> move_sub env ms rl ext code plan who k days s
           = (Inr \<lparr>tr_days = days, tr_grant = g, tr_previous = owner_of rl ext s\<rparr>,
              snd (rebind (now_s ms) rl ext code plan who days s1)))"
proof (cases "period_grant env ms rl k ext code days s")
  case (Pair r s1)
  show ?thesis
  proof (cases r)
    case (Inl e)
    then show ?thesis using Pair period_grant_Inl [of env ms rl k ext code days s e s1]
      by (simp add: move_sub_def)
  next
    case (Inr g)
    have "get_sub rl ext s1 = get_sub rl ext s"
      using period_grant_snd [of env ms rl k ext code days s] Pair by (auto split: if_splits)
    then have "fst (rebind (now_s ms) rl ext code plan who days s1) = owner_of rl ext s"
      by (simp add: rebind_previous owner_of_def)
    then show ?thesis using Pair Inr by (auto simp: move_sub_def split: prod.splits)
  qed
qed

lemma period_grant_frame [simp]:
  "moved_at r e (snd (period_grant env ms rl k ref code days s)) = moved_at r e s"
  "owner_of r e (snd (period_grant env ms rl k ref code days s)) = owner_of r e s"
  "db_transfers (snd (period_grant env ms rl k ref code days s)) = db_transfers s"
  "db_apple_map (snd (period_grant env ms rl k ref code days s)) = db_apple_map s"
  by (simp_all add: period_grant_snd)

lemma move_sub_moves_ok:
  assumes "who = User \<Longrightarrow> transferAvailableAt (moved_at rl ext s) (now_s ms) = None"
  shows "moves_ok s (snd (move_sub env ms rl ext code plan who k days s))"
  using move_sub_snd [of env ms rl ext code plan who k days s]
proof (elim disjE exE conjE)
  fix g s1
  assume p: "period_grant env ms rl k ext code days s = (Inr g, s1)"
    and m: "move_sub env ms rl ext code plan who k days s
       = (Inr \<lparr>tr_days = days, tr_grant = g, tr_previous = owner_of rl ext s\<rparr>,
          snd (rebind (now_s ms) rl ext code plan who days s1))"
  have "s1 = snd (period_grant env ms rl k ext code days s)" by (simp add: p)
  then have "db_transfers s1 = db_transfers s" "moved_at r e s1 = moved_at r e s" for r e
    by simp_all
  then show ?thesis unfolding m snd_conv using assms by (intro moves_ok_rebind)
qed simp

lemma move_sub_ledger:
  "payment_ledger (snd (move_sub env ms rl ext code plan who k days s)) = payment_ledger s
   \<or> (\<exists>p. payment_ledger (snd (move_sub env ms rl ext code plan who k days s)) = payment_ledger s @ [p]
        \<and> new_key p = (rl, k) \<and> \<not> ledger_has rl k s \<and> 1 \<le> n_days p \<and> n_days p = days
        \<and> n_paymentCode p = code \<and> isValidPaymentCode (re_b58 env) code)"
  using move_sub_snd [of env ms rl ext code plan who k days s]
proof (elim disjE exE conjE)
  fix g s1
  assume p: "period_grant env ms rl k ext code days s = (Inr g, s1)"
    and m: "move_sub env ms rl ext code plan who k days s
       = (Inr \<lparr>tr_days = days, tr_grant = g, tr_previous = owner_of rl ext s\<rparr>,
          snd (rebind (now_s ms) rl ext code plan who days s1))"
  have "s1 = (if 0 < days then snd (rail_grant env ms rl k ext code days s) else s)"
    using period_grant_snd [of env ms rl k ext code days s] p by simp
  then show ?thesis unfolding m snd_conv
    using rail_grant_ledger [of env ms rl k ext code days s] by (auto simp: payment_ledger_def rebind_frame)
qed simp

lemma move_sub_owner:
  assumes "move_sub env ms rl ext code plan who k days s = (Inr m, s')"
  shows "owner_of r e s' = (if (r, e) = (rl, ext) then Some code else owner_of r e s)"
    and "tr_previous m = owner_of rl ext s" and "tr_days m = days"
    and "moved_at rl ext s' = Some (now_s ms)"
  using move_sub_snd [of env ms rl ext code plan who k days s] assms
    period_grant_frame(2) [of r e env ms rl k ext code days s]
  by (auto simp del: period_grant_frame)

lemma rail_grant_wf: "db_wf s \<Longrightarrow> db_wf (snd (rail_grant env ms rl k ref code days s))"
  by (simp add: rail_grant_def recordGrant_wf)

lemma move_sub_wf: "db_wf s \<Longrightarrow> db_wf (snd (move_sub env ms rl ext code plan who k days s))"
  using move_sub_snd [of env ms rl ext code plan who k days s] period_grant_snd [of env ms rl k ext code days s]
  by (auto simp: rebind_wf rail_grant_wf split: if_splits)

end
