(* ===== verification/GoogleRail.thy ===== *)
theory GoogleRail
  imports Moves
begin

text \<open>
  The Google Play rail (bridge/src/rails/google.ts). The answer of the Play Developer API is
  a parameter of the handlers, \<open>Inl\<close> where the request throws; an expiry time is the number
  \<open>Date.parse\<close> gives for it. A handler returns its outcome, or the exception it throws,
  and the database it leaves, in which the calls it makes to Play are recorded. The two
  halves of \<open>settle\<close>, before and after its await, are definitions of their own.
\<close>

section \<open>Configuration and answers\<close>

record google_cfg =
  gc_packageName :: string
  gc_basePlanMonthly :: string
  gc_basePlanAnnual :: string
  gc_testGrants :: bool
  gc_testGrantDays :: int
  gc_rtdnEmail :: string

record line_item =
  li_basePlanId :: "string option"
  li_latestSuccessfulOrderId :: "string option"
  li_productId :: "string option"
  li_expiryMs :: "millis option"

record google_sub =
  gs_subscriptionState :: "string option"
  gs_ackPending :: bool
  gs_obfuscatedAccountId :: "string option"
  gs_lineItems :: "line_item list"
  gs_latestOrderId :: "string option"
  gs_testPurchase :: bool

record period_facts =
  pf_days :: int
  pf_plan :: plan
  pf_orderId :: string
  pf_productId :: "string option"
  pf_expiryMs :: "millis option"
  pf_test :: bool

record verify_outcome =
  vo_accepted :: bool
  vo_reason :: string
  vo_days :: "int option"
  vo_test :: "bool option"

definition refused :: "string \<Rightarrow> verify_outcome" where
  "refused reason = \<lparr>vo_accepted = False, vo_reason = reason, vo_days = None, vo_test = None\<rparr>"

definition verified :: "string \<Rightarrow> int \<Rightarrow> bool \<Rightarrow> verify_outcome" where
  "verified reason days test =
     \<lparr>vo_accepted = True, vo_reason = reason, vo_days = Some days, vo_test = Some test\<rparr>"

section \<open>Reading a subscription\<close>

definition inactiveReason :: "google_sub \<Rightarrow> string option" where
  "inactiveReason sub =
     (if gs_subscriptionState sub \<noteq> Some ''SUBSCRIPTION_STATE_ACTIVE''
         \<and> gs_subscriptionState sub \<noteq> Some ''SUBSCRIPTION_STATE_IN_GRACE_PERIOD''
      then Some (''state:'' @ (case gs_subscriptionState sub of Some st \<Rightarrow> st | None \<Rightarrow> ''unknown''))
      else None)"

definition daysForBasePlan :: "google_cfg \<Rightarrow> string option \<Rightarrow> int option" where
  "daysForBasePlan cfg basePlanId =
     (if basePlanId = Some (gc_basePlanMonthly cfg) then Some 30
      else if basePlanId = Some (gc_basePlanAnnual cfg) then Some 360
      else None)"

definition periodFacts :: "google_cfg \<Rightarrow> google_sub \<Rightarrow> string + period_facts" where
  "periodFacts cfg sub =
     (let line = (case gs_lineItems sub of [] \<Rightarrow> None | l # _ \<Rightarrow> Some l);
          basePlan = Option.bind line li_basePlanId
      in case daysForBasePlan cfg basePlan of
           None \<Rightarrow> Inl (''unknown_base_plan:'' @ (case basePlan of Some p \<Rightarrow> p | None \<Rightarrow> ''none''))
         | Some days \<Rightarrow>
             (let orderId = (case Option.bind line li_latestSuccessfulOrderId of
                               Some i \<Rightarrow> Some i | None \<Rightarrow> gs_latestOrderId sub)
              in case orderId of
                   None \<Rightarrow> Inl ''no_order_id''
                 | Some i \<Rightarrow>
                     if i = [] then Inl ''no_order_id''
                     else Inr \<lparr>pf_days = days, pf_plan = (if days = 360 then Annual else Monthly),
                               pf_orderId = i, pf_productId = Option.bind line li_productId,
                               pf_expiryMs = Option.bind line li_expiryMs,
                               pf_test = gs_testPurchase sub\<rparr>))"

section \<open>Granting, settling, moving\<close>

definition google_testGrant ::
  "rail_env \<Rightarrow> google_cfg \<Rightarrow> millis \<Rightarrow> string \<Rightarrow> string \<Rightarrow> db \<Rightarrow> (exn + verify_outcome) \<times> db" where
  "google_testGrant env cfg ms token code s =
     (let days = gc_testGrantDays cfg
      in if days \<le> 0 then (Inr (verified ''test_verified'' 0 True), s)
         else case rail_grant env ms Google (''test:'' @ token) token code days s of
                (Inl e, s') \<Rightarrow> (Inl e, s')
              | (Inr r, s') \<Rightarrow> (Inr (verified (''test:'' @ grant_slug (Some r)) days True), s'))"

text \<open>\<open>acknowledgeIfNeeded\<close>: its failure is swallowed, so only the attempt is recorded.\<close>

definition acknowledgeIfNeeded :: "google_sub \<Rightarrow> string \<Rightarrow> string option \<Rightarrow> db \<Rightarrow> db" where
  "acknowledgeIfNeeded sub token productId s =
     (case productId of
        None \<Rightarrow> s
      | Some p \<Rightarrow> if \<not> gs_ackPending sub \<or> p = [] then s else add_call (Play_acknowledge p token) s)"

definition settle_bind ::
  "millis \<Rightarrow> string \<Rightarrow> string \<Rightarrow> google_sub \<Rightarrow> period_facts \<Rightarrow> db \<Rightarrow> db" where
  "settle_bind ms code token sub facts s =
     acknowledgeIfNeeded sub token (pf_productId facts)
       (upsert (now_s ms) Google token code (pf_plan facts) None s)"

definition settle_grant ::
  "rail_env \<Rightarrow> google_cfg \<Rightarrow> millis \<Rightarrow> string \<Rightarrow> string \<Rightarrow> period_facts \<Rightarrow> db \<Rightarrow>
   (exn + verify_outcome) \<times> db" where
  "settle_grant env cfg ms code token facts s =
     (if pf_test facts \<and> \<not> gc_testGrants cfg then google_testGrant env cfg ms token code s
      else case rail_grant env ms Google (pf_orderId facts) token code (pf_days facts) s of
             (Inl e, s') \<Rightarrow> (Inl e, s')
           | (Inr r, s') \<Rightarrow> (Inr (verified (grant_slug (Some r)) (pf_days facts) False), s'))"

definition google_settle ::
  "rail_env \<Rightarrow> google_cfg \<Rightarrow> millis \<Rightarrow> string \<Rightarrow> string \<Rightarrow> google_sub \<Rightarrow> period_facts \<Rightarrow> db \<Rightarrow>
   (exn + verify_outcome) \<times> db" where
  "google_settle env cfg ms code token sub facts s =
     settle_grant env cfg ms code token facts (settle_bind ms code token sub facts s)"

definition transfer_days :: "google_cfg \<Rightarrow> millis \<Rightarrow> period_facts \<Rightarrow> int" where
  "transfer_days cfg ms facts =
     (if pf_test facts \<and> \<not> gc_testGrants cfg then gc_testGrantDays cfg
      else remainingDays (pf_expiryMs facts) ms (pf_plan facts))"

definition transfer_key :: "google_cfg \<Rightarrow> string \<Rightarrow> period_facts \<Rightarrow> string" where
  "transfer_key cfg token facts =
     (if pf_test facts \<and> \<not> gc_testGrants cfg then ''test-transfer:'' @ token
      else transferEventKey token (case pf_expiryMs facts of Some e \<Rightarrow> e | None \<Rightarrow> 0))"

definition google_transferTo ::
  "rail_env \<Rightarrow> google_cfg \<Rightarrow> millis \<Rightarrow> string \<Rightarrow> string \<Rightarrow> period_facts \<Rightarrow> actor \<Rightarrow> db \<Rightarrow>
   (exn + transfer_result) \<times> db" where
  "google_transferTo env cfg ms code token facts who s =
     move_sub env ms Google token code (pf_plan facts) who (transfer_key cfg token facts)
       (transfer_days cfg ms facts) s"

section \<open>Handlers\<close>

definition movedOwner :: "string \<Rightarrow> db \<Rightarrow> string option" where
  "movedOwner token s =
     (case get_sub Google token s of
        None \<Rightarrow> None
      | Some r \<Rightarrow> if s_transferred_at r \<noteq> None then Some (s_payment_code r) else None)"

definition verifyPurchase ::
  "rail_env \<Rightarrow> google_cfg \<Rightarrow> millis \<Rightarrow> exn + google_sub \<Rightarrow> string \<Rightarrow> string \<Rightarrow> bool \<Rightarrow> db \<Rightarrow>
   (exn + verify_outcome) \<times> db" where
  "verifyPurchase env cfg ms fetched code token requireAccountMatch s =
     (if \<not> isValidPaymentCode (re_b58 env) code then (Inr (refused ''invalid_code''), s)
      else case fetched of
        Inl e \<Rightarrow> (Inl e, s)
      | Inr sub \<Rightarrow>
          (case inactiveReason sub of
             Some r \<Rightarrow> (Inr (refused r), s)
           | None \<Rightarrow>
               if requireAccountMatch \<and> gs_obfuscatedAccountId sub \<noteq> Some code
               then (Inr (refused (if truthy (gs_obfuscatedAccountId sub)
                                   then ''account_id_mismatch'' else ''account_id_missing'')), s)
               else case periodFacts cfg sub of
                      Inl r \<Rightarrow> (Inr (refused r), s)
                    | Inr facts \<Rightarrow>
                        google_settle env cfg ms (case movedOwner token s of Some c \<Rightarrow> c | None \<Rightarrow> code)
                          token sub facts s))"

definition to_claim :: "verify_outcome \<Rightarrow> claim_outcome" where
  "to_claim v = \<lparr>c_accepted = vo_accepted v, c_reason = vo_reason v, c_days = vo_days v,
     c_test = vo_test v, c_transferred = Some False, c_availableAt = None\<rparr>"

definition claimPurchase ::
  "rail_env \<Rightarrow> google_cfg \<Rightarrow> millis \<Rightarrow> exn + google_sub \<Rightarrow> string \<Rightarrow> string \<Rightarrow> bool \<Rightarrow> db \<Rightarrow>
   (exn + claim_outcome) \<times> db" where
  "claimPurchase env cfg ms fetched code token transfer s =
     (if \<not> isValidPaymentCode (re_b58 env) code then (Inr (claim_refused ''invalid_code'' None), s)
      else case fetched of
        Inl e \<Rightarrow> (Inl e, s)
      | Inr sub \<Rightarrow>
          (case inactiveReason sub of
             Some r \<Rightarrow> (Inr (claim_refused r None), s)
           | None \<Rightarrow>
               (case periodFacts cfg sub of
                  Inl r \<Rightarrow> (Inr (claim_refused r None), s)
                | Inr facts \<Rightarrow>
                    (let known = get_sub Google token s;
                         owner = or_else (map_option s_payment_code known)
                                   (or_else (gs_obfuscatedAccountId sub) None)
                     in if owner = None \<or> owner = Some code then
                          (case google_settle env cfg ms code token sub facts s of
                             (Inl e, s') \<Rightarrow> (Inl e, s')
                           | (Inr v, s') \<Rightarrow> (Inr (to_claim v), s'))
                        else if \<not> transfer then (Inr (claim_refused ''owned_by_other_device'' None), s)
                        else case transferAvailableAt (Option.bind known s_transferred_at) (now_s ms) of
                               Some t \<Rightarrow> (Inr (claim_refused ''transfer_too_soon'' (Some t)), s)
                             | None \<Rightarrow>
                                 (case google_transferTo env cfg ms code token facts User s of
                                    (Inl e, s') \<Rightarrow> (Inl e, s')
                                  | (Inr m, s') \<Rightarrow>
                                      (Inr (claim_moved (tr_grant m) (tr_days m) (pf_test facts)),
                                       acknowledgeIfNeeded sub token (pf_productId facts) s'))))))"

definition google_adminRebind ::
  "rail_env \<Rightarrow> google_cfg \<Rightarrow> millis \<Rightarrow> exn + google_sub \<Rightarrow> string \<Rightarrow> string \<Rightarrow> bool \<Rightarrow> db \<Rightarrow>
   (exn + rebind_outcome) \<times> db" where
  "google_adminRebind env cfg ms fetched token code grantRemaining s =
     (case get_sub Google token s of
        None \<Rightarrow> (Inr (rebind_refused ''not_found''), s)
      | Some known \<Rightarrow>
          if \<not> grantRemaining then
            (let (previous, s') = rebind (now_s ms) Google token code (s_plan known) Admin 0 s
             in (Inr (rebind_done previous 0 None None), s'))
          else case fetched of
            Inl e \<Rightarrow> (Inl e, s)
          | Inr sub \<Rightarrow>
              (case inactiveReason sub of
                 Some _ \<Rightarrow> (Inr (rebind_refused ''not_active''), s)
               | None \<Rightarrow>
                   (case periodFacts cfg sub of
                      Inl r \<Rightarrow> (Inr (rebind_refused r), s)
                    | Inr facts \<Rightarrow>
                        (case google_transferTo env cfg ms code token facts Admin s of
                           (Inl e, s') \<Rightarrow> (Inl e, s')
                         | (Inr m, s') \<Rightarrow>
                             (Inr (rebind_done (tr_previous m) (tr_days m) (tr_grant m) (Some (pf_test facts))), s')))))"

text \<open>The message of a push, decoded: \<open>JSON.parse\<close> may also give \<open>null\<close>.\<close>

record rtdn_note =
  rn_notificationType :: "int option"
  rn_purchaseToken :: "string option"

record rtdn =
  rt_testNotification :: bool
  rt_packageName :: "string option"
  rt_note :: "rtdn_note option"

datatype rtdn_body = Rtdn_malformed | Rtdn_null | Rtdn rtdn

definition GRANT_NOTIFICATIONS :: "int list" where
  "GRANT_NOTIFICATIONS = [1, 2, 4]"

definition REVOKE_NOTIFICATION :: int where
  "REVOKE_NOTIFICATION = 12"

text \<open>
  \<open>known\<close> is what the handler read before its own request to Play; \<open>s\<close> is the database when
  \<open>verifyPurchase\<close>, which asks Play again, runs on.
\<close>

definition rtdn_verify ::
  "rail_env \<Rightarrow> google_cfg \<Rightarrow> millis \<Rightarrow> exn + google_sub \<Rightarrow> exn + google_sub \<Rightarrow> sub_row option \<Rightarrow>
   string \<Rightarrow> db \<Rightarrow> (exn + string) \<times> db" where
  "rtdn_verify env cfg ms fetched1 fetched2 known token s =
     (case fetched1 of
        Inl e \<Rightarrow> (Inl e, s)
      | Inr sub \<Rightarrow>
          (let code = (case known of Some r \<Rightarrow> Some (s_payment_code r) | None \<Rightarrow> gs_obfuscatedAccountId sub)
           in case code of
                None \<Rightarrow> (Inr ''rtdn:code-unknown'', s)
              | Some c \<Rightarrow>
                  if c = [] then (Inr ''rtdn:code-unknown'', s)
                  else (case verifyPurchase env cfg ms fetched2 c token False s of
                          (Inl e, s') \<Rightarrow> (Inl e, s')
                        | (Inr v, s') \<Rightarrow> (Inr (''rtdn:'' @ vo_reason v), s'))))"

definition handleRtdn ::
  "rail_env \<Rightarrow> google_cfg \<Rightarrow> millis \<Rightarrow> exn + google_sub \<Rightarrow> exn + google_sub \<Rightarrow> rtdn_body \<Rightarrow> db \<Rightarrow>
   (exn + string) \<times> db" where
  "handleRtdn env cfg ms fetched1 fetched2 body s =
     (case body of
        Rtdn_malformed \<Rightarrow> (Inr ''rtdn:malformed'', s)
      | Rtdn_null \<Rightarrow> (Inl (Js_error ''TypeError''), s)
      | Rtdn d \<Rightarrow>
          if rt_testNotification d then (Inr ''rtdn:test-notification'', s)
          else if rt_packageName d \<noteq> Some (gc_packageName cfg) then (Inr ''rtdn:wrong-package'', s)
          else (case rt_note d of
            None \<Rightarrow> (Inr ''rtdn:not-subscription'', s)
          | Some note \<Rightarrow>
              (case rn_purchaseToken note of
                 None \<Rightarrow> (Inr ''rtdn:not-subscription'', s)
               | Some token \<Rightarrow>
                   if token = [] then (Inr ''rtdn:not-subscription'', s)
                   else if rn_notificationType note = Some REVOKE_NOTIFICATION
                   then (Inr ''rtdn:revoked'', setStatus (now_s ms) Google token Refunded s)
                   else if (case rn_notificationType note of None \<Rightarrow> - 1 | Some n \<Rightarrow> n) \<notin> set GRANT_NOTIFICATIONS
                   then (Inr (''rtdn:ignored:'' @ (case rn_notificationType note of
                           None \<Rightarrow> ''undefined'' | Some n \<Rightarrow> show_int n)), s)
                   else rtdn_verify env cfg ms fetched1 fetched2 (get_sub Google token s) token s)))"

text \<open>The payload of a verified id token: its \<open>email\<close> and \<open>email_verified\<close>.\<close>

definition verifyOidcToken ::
  "google_cfg \<Rightarrow> exn + (string option \<times> bool option) option \<Rightarrow> bool" where
  "verifyOidcToken cfg ticket =
     (case ticket of
        Inl _ \<Rightarrow> False
      | Inr None \<Rightarrow> False
      | Inr (Some (email, email_verified)) \<Rightarrow>
          email = Some (gc_rtdnEmail cfg) \<and> email_verified = Some True)"

section \<open>Frames\<close>

lemma acknowledge_simps [simp]:
  "moved_at rl ext (acknowledgeIfNeeded sub token p s) = moved_at rl ext s"
  "owner_of rl ext (acknowledgeIfNeeded sub token p s) = owner_of rl ext s"
  "db_transfers (acknowledgeIfNeeded sub token p s) = db_transfers s"
  "db_payments (acknowledgeIfNeeded sub token p s) = db_payments s"
  "payment_ledger (acknowledgeIfNeeded sub token p s) = payment_ledger s"
  "db_wf (acknowledgeIfNeeded sub token p s) = db_wf s"
  by (auto simp: acknowledgeIfNeeded_def payment_ledger_def split: option.splits)

lemma settle_bind_simps [simp]:
  "moved_at rl ext (settle_bind ms code token sub facts s) = moved_at rl ext s"
  "owner_of rl ext (settle_bind ms code token sub facts s)
     = (if (rl, ext) = (Google, token) then Some code else owner_of rl ext s)"
  "db_transfers (settle_bind ms code token sub facts s) = db_transfers s"
  "payment_ledger (settle_bind ms code token sub facts s) = payment_ledger s"
  by (simp_all add: settle_bind_def) (simp_all add: upsert_def)

lemma settle_grant_snd:
  "snd (settle_grant env cfg ms code token facts s) = s
   \<or> (\<exists>k d. snd (settle_grant env cfg ms code token facts s) = snd (rail_grant env ms Google k token code d s))"
  by (auto simp: settle_grant_def google_testGrant_def Let_def split: prod.splits sum.splits if_splits)
    (metis snd_conv)+

lemma settle_grant_simps [simp]:
  "moved_at rl ext (snd (settle_grant env cfg ms code token facts s)) = moved_at rl ext s"
  "owner_of rl ext (snd (settle_grant env cfg ms code token facts s)) = owner_of rl ext s"
  "db_transfers (snd (settle_grant env cfg ms code token facts s)) = db_transfers s"
  using settle_grant_snd [of env cfg ms code token facts s] by auto

lemma google_settle_simps [simp]:
  "moved_at rl ext (snd (google_settle env cfg ms code token sub facts s)) = moved_at rl ext s"
  "owner_of rl ext (snd (google_settle env cfg ms code token sub facts s))
     = (if (rl, ext) = (Google, token) then Some code else owner_of rl ext s)"
  "db_transfers (snd (google_settle env cfg ms code token sub facts s)) = db_transfers s"
  by (simp_all add: google_settle_def)

lemma settle_accepts: "fst (google_settle env cfg ms code token sub facts s) = Inr v \<Longrightarrow> vo_accepted v"
  by (auto simp: google_settle_def settle_grant_def google_testGrant_def verified_def Let_def
      split: prod.splits sum.splits if_splits)

lemma movedOwner_eq:
  "movedOwner token s = (if moved_at Google token s = None then None else owner_of Google token s)"
  by (auto simp: movedOwner_def moved_at_def owner_of_def split: option.splits)

lemma moved_has_owner: "moved_at rl ext s \<noteq> None \<Longrightarrow> \<exists>c. owner_of rl ext s = Some c"
  by (cases "get_sub rl ext s") (auto simp: moved_at_def owner_of_def)

section \<open>Verifying\<close>

lemma verify_cases:
  "snd (verifyPurchase env cfg ms fetched code token strict s) = s
     \<and> (\<forall>v. fst (verifyPurchase env cfg ms fetched code token strict s) = Inr v \<longrightarrow> \<not> vo_accepted v)
   \<or> (\<exists>sub facts. fetched = Inr sub \<and> inactiveReason sub = None \<and> periodFacts cfg sub = Inr facts
        \<and> isValidPaymentCode (re_b58 env) code
        \<and> (strict \<longrightarrow> gs_obfuscatedAccountId sub = Some code)
        \<and> verifyPurchase env cfg ms fetched code token strict s
          = google_settle env cfg ms (case movedOwner token s of Some c \<Rightarrow> c | None \<Rightarrow> code) token sub facts s)"
  by (auto simp: verifyPurchase_def refused_def split: sum.splits option.splits)

lemma verify_accepted:
  assumes "verifyPurchase env cfg ms fetched code token strict s = (Inr v, s')" and "vo_accepted v"
  shows "\<exists>sub. fetched = Inr sub \<and> inactiveReason sub = None \<and> (strict \<longrightarrow> gs_obfuscatedAccountId sub = Some code)"
    and "owner_of Google token s' = (if moved_at Google token s = None then Some code else owner_of Google token s)"
  using verify_cases [of env cfg ms fetched code token strict s] assms moved_has_owner [of Google token s]
  by (auto simp: movedOwner_eq dest!: arg_cong [where f = snd])

text \<open>No verification, by whatever code, takes a moved subscription from its owner.\<close>

lemma verify_keeps_moved:
  assumes "moved_at Google token s \<noteq> None"
  shows "owner_of Google ext (snd (verifyPurchase env cfg ms fetched code token strict s)) = owner_of Google ext s"
  using verify_cases [of env cfg ms fetched code token strict s] moved_has_owner [OF assms] assms
  by (auto simp: movedOwner_eq)

lemma verify_moves_ok: "moves_ok s (snd (verifyPurchase env cfg ms fetched code token strict s))"
  using verify_cases [of env cfg ms fetched code token strict s]
  by (auto intro!: moves_ok_same)

section \<open>Claiming\<close>

definition claim_owner :: "google_sub \<Rightarrow> string \<Rightarrow> db \<Rightarrow> string option" where
  "claim_owner sub token s = or_else (owner_of Google token s) (or_else (gs_obfuscatedAccountId sub) None)"

lemma claim_cases:
  "snd (claimPurchase env cfg ms fetched code token tr s) = s
     \<and> (\<forall>c. fst (claimPurchase env cfg ms fetched code token tr s) = Inr c \<longrightarrow> \<not> c_accepted c)
   \<or> (\<exists>sub facts. fetched = Inr sub \<and> inactiveReason sub = None \<and> periodFacts cfg sub = Inr facts
        \<and> isValidPaymentCode (re_b58 env) code
        \<and> claim_owner sub token s \<in> {None, Some code}
        \<and> claimPurchase env cfg ms fetched code token tr s
          = (case google_settle env cfg ms code token sub facts s of
               (Inl e, s') \<Rightarrow> (Inl e, s') | (Inr v, s') \<Rightarrow> (Inr (to_claim v), s')))
   \<or> (\<exists>sub facts. fetched = Inr sub \<and> inactiveReason sub = None \<and> periodFacts cfg sub = Inr facts
        \<and> isValidPaymentCode (re_b58 env) code
        \<and> claim_owner sub token s \<noteq> None \<and> claim_owner sub token s \<noteq> Some code \<and> tr
        \<and> transferAvailableAt (moved_at Google token s) (now_s ms) = None
        \<and> claimPurchase env cfg ms fetched code token tr s
          = (case google_transferTo env cfg ms code token facts User s of
               (Inl e, s') \<Rightarrow> (Inl e, s')
             | (Inr m, s') \<Rightarrow> (Inr (claim_moved (tr_grant m) (tr_days m) (pf_test facts)),
                   acknowledgeIfNeeded sub token (pf_productId facts) s')))"
  by (simp add: claimPurchase_def claim_refused_def claim_owner_def owner_of_def moved_at_def Let_def
      split: sum.split option.split)

lemma transferTo_simps:
  assumes "google_transferTo env cfg ms code token facts who s = (Inr m, s')"
  shows "owner_of rl ext s' = (if (rl, ext) = (Google, token) then Some code else owner_of rl ext s)"
    and "moved_at Google token s' = Some (now_s ms)"
    and "tr_previous m = owner_of Google token s" and "tr_days m = transfer_days cfg ms facts"
  using move_sub_owner [of env ms Google token code "pf_plan facts" who "transfer_key cfg token facts"
      "transfer_days cfg ms facts" s m s'] assms
  by (simp_all add: google_transferTo_def)

lemma transferTo_moves_ok:
  assumes "who = User \<Longrightarrow> transferAvailableAt (moved_at Google token s) (now_s ms) = None"
  shows "moves_ok s (snd (google_transferTo env cfg ms code token facts who s))"
  unfolding google_transferTo_def using assms by (rule move_sub_moves_ok)

lemma claim_refused_unchanged:
  assumes "claimPurchase env cfg ms fetched code token tr s = (Inr c, s')" and "\<not> c_accepted c"
  shows "s' = s"
  using claim_cases [of env cfg ms fetched code token tr s]
proof (elim disjE exE conjE)
  fix sub facts
  assume "claimPurchase env cfg ms fetched code token tr s
    = (case google_settle env cfg ms code token sub facts s of
         (Inl e, s') \<Rightarrow> (Inl e, s') | (Inr v, s') \<Rightarrow> (Inr (to_claim v), s'))"
  with assms settle_accepts [of env cfg ms code token sub facts s] show ?thesis
    by (auto simp: to_claim_def split: prod.splits sum.splits)
next
  fix sub facts
  assume "claimPurchase env cfg ms fetched code token tr s
    = (case google_transferTo env cfg ms code token facts User s of
         (Inl e, s') \<Rightarrow> (Inl e, s')
       | (Inr m, s') \<Rightarrow> (Inr (claim_moved (tr_grant m) (tr_days m) (pf_test facts)),
             acknowledgeIfNeeded sub token (pf_productId facts) s'))"
  with assms show ?thesis by (auto simp: claim_moved_def split: prod.splits sum.splits)
qed (use assms in auto)

text \<open>An accepted claim gives the subscription to the claimant, and takes it from another
  device only as a move that the thirty-day limit allows.\<close>

lemma claim_accepted:
  assumes "claimPurchase env cfg ms fetched code token tr s = (Inr c, s')" and "c_accepted c"
  shows "owner_of Google token s' = Some code"
    and "\<And>o'. owner_of Google token s = Some o' \<Longrightarrow> o' \<noteq> [] \<Longrightarrow> o' \<noteq> code \<Longrightarrow>
      tr \<and> c_transferred c = Some True \<and> transferAvailableAt (moved_at Google token s) (now_s ms) = None"
    and "isValidPaymentCode (re_b58 env) code"
proof -
  have "owner_of Google token s' = Some code \<and> isValidPaymentCode (re_b58 env) code
    \<and> (\<forall>o'. owner_of Google token s = Some o' \<longrightarrow> o' \<noteq> [] \<longrightarrow> o' \<noteq> code \<longrightarrow>
      tr \<and> c_transferred c = Some True \<and> transferAvailableAt (moved_at Google token s) (now_s ms) = None)"
    using claim_cases [of env cfg ms fetched code token tr s]
  proof (elim disjE exE conjE)
    fix sub facts
    assume eq: "claimPurchase env cfg ms fetched code token tr s
      = (case google_settle env cfg ms code token sub facts s of
           (Inl e, s') \<Rightarrow> (Inl e, s') | (Inr v, s') \<Rightarrow> (Inr (to_claim v), s'))"
      and own: "claim_owner sub token s \<in> {None, Some code}"
      and valid: "isValidPaymentCode (re_b58 env) code"
    from eq assms(1) have "s' = snd (google_settle env cfg ms code token sub facts s)"
      by (auto split: prod.splits sum.splits)
    moreover have "o' = [] \<or> o' = code" if "owner_of Google token s = Some o'" for o'
      using own that by (auto simp: claim_owner_def or_else_def split: if_splits)
    ultimately show ?thesis using valid by auto
  next
    fix sub facts
    assume eq: "claimPurchase env cfg ms fetched code token tr s
      = (case google_transferTo env cfg ms code token facts User s of
           (Inl e, s') \<Rightarrow> (Inl e, s')
         | (Inr m, s') \<Rightarrow> (Inr (claim_moved (tr_grant m) (tr_days m) (pf_test facts)),
               acknowledgeIfNeeded sub token (pf_productId facts) s'))"
      and rest: tr "transferAvailableAt (moved_at Google token s) (now_s ms) = None"
      "isValidPaymentCode (re_b58 env) code"
    from eq assms(1) obtain m s1 where "google_transferTo env cfg ms code token facts User s = (Inr m, s1)"
      "s' = acknowledgeIfNeeded sub token (pf_productId facts) s1" "c_transferred c = Some True"
      by (auto simp: claim_moved_def split: prod.splits sum.splits)
    with rest transferTo_simps(1) show ?thesis by auto
  qed (use assms in auto)
  then show "owner_of Google token s' = Some code" "isValidPaymentCode (re_b58 env) code"
    "\<And>o'. owner_of Google token s = Some o' \<Longrightarrow> o' \<noteq> [] \<Longrightarrow> o' \<noteq> code \<Longrightarrow>
      tr \<and> c_transferred c = Some True \<and> transferAvailableAt (moved_at Google token s) (now_s ms) = None"
    by blast+
qed

lemma claim_moves_ok: "moves_ok s (snd (claimPurchase env cfg ms fetched code token tr s))"
  using claim_cases [of env cfg ms fetched code token tr s]
proof (elim disjE exE conjE)
  fix sub facts
  assume eq: "claimPurchase env cfg ms fetched code token tr s
    = (case google_settle env cfg ms code token sub facts s of
         (Inl e, s') \<Rightarrow> (Inl e, s') | (Inr v, s') \<Rightarrow> (Inr (to_claim v), s'))"
  have "moves_ok s (snd (google_settle env cfg ms code token sub facts s))" by (intro moves_ok_same) simp_all
  then show ?thesis unfolding eq by (auto split: prod.splits sum.splits)
next
  fix sub facts
  assume eq: "claimPurchase env cfg ms fetched code token tr s
    = (case google_transferTo env cfg ms code token facts User s of
         (Inl e, s') \<Rightarrow> (Inl e, s')
       | (Inr m, s') \<Rightarrow> (Inr (claim_moved (tr_grant m) (tr_days m) (pf_test facts)),
             acknowledgeIfNeeded sub token (pf_productId facts) s'))"
    and free: "transferAvailableAt (moved_at Google token s) (now_s ms) = None"
  have "moves_ok s (snd (google_transferTo env cfg ms code token facts User s))"
    using free by (rule transferTo_moves_ok)
  then show ?thesis unfolding eq
    by (auto split: prod.splits sum.splits elim: moves_ok_trans_same)
qed simp

section \<open>Support and notifications\<close>

lemma admin_moves_ok: "moves_ok s (snd (google_adminRebind env cfg ms fetched token code grant s))"
proof -
  have "moves_ok s (snd (google_transferTo env cfg ms code token facts Admin s))" for facts
    by (rule transferTo_moves_ok) simp
  moreover have "moves_ok s (snd (rebind (now_s ms) Google token code p Admin 0 s))" for p
    by (rule moves_ok_rebind) simp_all
  ultimately show ?thesis
    by (auto simp: google_adminRebind_def split: option.splits prod.splits sum.splits) (metis snd_conv)+
qed

lemma rtdn_moves_ok: "moves_ok s (snd (handleRtdn env cfg ms f1 f2 body s))"
proof -
  have "moves_ok s (snd (rtdn_verify env cfg ms f1 f2 known token s))" for known token
    using verify_moves_ok [of s env cfg ms f2 _ token False]
    by (auto simp: rtdn_verify_def Let_def split: option.splits prod.splits sum.splits) (metis snd_conv)+
  moreover have "moves_ok s (setStatus (now_s ms) Google token Refunded s)" for token
    by (rule moves_ok_same) (simp_all add: setStatus_frame)
  ultimately show ?thesis by (auto simp: handleRtdn_def split: rtdn_body.splits option.splits)
qed

text \<open>A push after a move credits the device the subscription was moved to.\<close>

lemma rtdn_keeps_moved:
  assumes "moved_at Google token s \<noteq> None"
  shows "owner_of Google token (snd (handleRtdn env cfg ms f1 f2 body s)) = owner_of Google token s"
proof -
  have "owner_of Google token (snd (rtdn_verify env cfg ms f1 f2 known t s)) = owner_of Google token s" for known t
  proof (cases "t = token")
    case True
    then show ?thesis using verify_keeps_moved [OF assms]
      by (auto simp: rtdn_verify_def Let_def split: option.splits prod.splits sum.splits) (metis snd_conv)+
  next
    case False
    have "owner_of Google token (snd (verifyPurchase env cfg ms f2 c t False s)) = owner_of Google token s" for c
      using verify_cases [of env cfg ms f2 c t False s] False by auto
    then show ?thesis
      by (auto simp: rtdn_verify_def Let_def split: option.splits prod.splits sum.splits) (metis snd_conv)+
  qed
  then show ?thesis by (auto simp: handleRtdn_def split: rtdn_body.splits option.splits)
qed

section \<open>The rail meets the contracts\<close>

text \<open>The calls of the rail, and the two halves of \<open>settle\<close> as calls of their own.\<close>

datatype google_request =
    G_verify millis "exn + google_sub" string string bool
  | G_claim millis "exn + google_sub" string string bool
  | G_admin millis "exn + google_sub" string string bool
  | G_rtdn millis "exn + google_sub" "exn + google_sub" rtdn_body
  | G_bind millis string string google_sub period_facts
  | G_grant millis string string period_facts

fun google_call :: "rail_env \<Rightarrow> google_cfg \<Rightarrow> google_request \<Rightarrow> db \<Rightarrow> db" where
  "google_call env cfg (G_verify ms f code token strict) s = snd (verifyPurchase env cfg ms f code token strict s)"
| "google_call env cfg (G_claim ms f code token tr) s = snd (claimPurchase env cfg ms f code token tr s)"
| "google_call env cfg (G_admin ms f token code g) s = snd (google_adminRebind env cfg ms f token code g s)"
| "google_call env cfg (G_rtdn ms f1 f2 body) s = snd (handleRtdn env cfg ms f1 f2 body s)"
| "google_call env cfg (G_bind ms code token sub facts) s = settle_bind ms code token sub facts s"
| "google_call env cfg (G_grant ms code token facts) s = snd (settle_grant env cfg ms code token facts s)"

lemma google_call_moves_ok: "moves_ok s (google_call env cfg a s)"
  by (cases a) (auto simp: verify_moves_ok claim_moves_ok admin_moves_ok rtdn_moves_ok intro!: moves_ok_same)

interpretation google_moves: limited_moves "google_call env cfg" for env cfg
  by unfold_locales (rule google_call_moves_ok)

text \<open>What a transfer asks for: the clock, the code, the token, what was verified, and who asks.\<close>

type_synonym 'f transfer_call = "millis \<times> string \<times> string \<times> 'f \<times> actor"

fun google_transfer :: "rail_env \<Rightarrow> google_cfg \<Rightarrow> period_facts transfer_call \<Rightarrow> db \<Rightarrow> db" where
  "google_transfer env cfg (ms, code, token, facts, who) s =
     snd (google_transferTo env cfg ms code token facts who s)"

fun google_transfer_key :: "google_cfg \<Rightarrow> period_facts transfer_call \<Rightarrow> string" where
  "google_transfer_key cfg (ms, code, token, facts, who) = transfer_key cfg token facts"

interpretation google_period: period_transfer "google_transfer env cfg" Google "google_transfer_key cfg"
  "max 360 (gc_testGrantDays cfg)" for env cfg
proof (unfold_locales, goal_cases)
  case (1 a s)
  obtain ms code token facts who where a: "a = (ms, code, token, facts, who)"
    by (cases a)
  have "transfer_days cfg ms facts \<le> max 360 (gc_testGrantDays cfg)"
    using remainingDays_le_360 [of "pf_expiryMs facts" ms "pf_plan facts"]
    by (auto simp: transfer_days_def intro: max.coboundedI1)
  then show ?case
    using move_sub_ledger [of env ms Google token code "pf_plan facts" who "transfer_key cfg token facts"
        "transfer_days cfg ms facts" s]
    by (auto simp: google_transferTo_def a)
qed

end
