(* ===== verification/AppleRail.thy ===== *)
theory AppleRail
  imports GoogleRail
begin

text \<open>
  The Apple IAP rail (bridge/src/rails/apple.ts). Verifying a signed transaction or
  notification is @apple/app-store-server-library: what its verifiers return, or throw, is
  a parameter of the handlers. Everything after the decoding runs without an await, so a
  handler is one step. \<open>sha\<close> is the digest behind \<^const>\<open>uuidForCode\<close>.
\<close>

section \<open>Configuration and payloads\<close>

record apple_cfg =
  ac_sandboxEnvironment :: bool
  ac_productMonthly :: string
  ac_productAnnual :: string
  ac_sandboxGrants :: bool
  ac_sandboxGrantDays :: int

record apple_txn =
  at_productId :: "string option"
  at_appAccountToken :: "string option"
  at_transactionId :: "string option"
  at_originalTransactionId :: "string option"
  at_revocationDate :: "millis option"
  at_isUpgraded :: "bool option"
  at_expiresDate :: "millis option"
  at_transactionReason :: "string option"
  at_purchaseDate :: "millis option"

text \<open>Decoding with the verifier of the environment, then with the sandbox one if there is one.\<close>

definition decode_signed :: "apple_cfg \<Rightarrow> exn + 'a \<Rightarrow> (exn + 'a) option \<Rightarrow> 'a option \<times> bool" where
  "decode_signed cfg primary sandboxVerifier =
     (case primary of
        Inr x \<Rightarrow> (Some x, ac_sandboxEnvironment cfg)
      | Inl _ \<Rightarrow>
          (case sandboxVerifier of
             Some (Inr x) \<Rightarrow> (Some x, True)
           | _ \<Rightarrow> (None, False)))"

definition daysForProduct :: "apple_cfg \<Rightarrow> string option \<Rightarrow> int option" where
  "daysForProduct cfg productId =
     (if productId = Some (ac_productMonthly cfg) then Some 30
      else if productId = Some (ac_productAnnual cfg) then Some 360
      else None)"

definition plan_of_days :: "int \<Rightarrow> plan" where
  "plan_of_days days = (if days = 360 then Annual else Monthly)"

section \<open>Owner\<close>

definition apple_ownerOf :: "apple_txn \<Rightarrow> string option \<Rightarrow> db \<Rightarrow> string option" where
  "apple_ownerOf txn purchaser s =
     (let known = (if truthy (at_originalTransactionId txn)
                   then get_sub Apple (the (at_originalTransactionId txn)) s else None);
          fallback = (case purchaser of Some p \<Rightarrow> Some p | None \<Rightarrow> map_option s_payment_code known)
      in case known of
           None \<Rightarrow> fallback
         | Some k \<Rightarrow>
             (case s_transferred_at k of
                None \<Rightarrow> fallback
              | Some t \<Rightarrow>
                  let boughtSince = (at_transactionReason txn = Some ''PURCHASE''
                        \<and> t * 1000 < (case at_purchaseDate txn of Some d \<Rightarrow> d | None \<Rightarrow> 0))
                  in if \<not> boughtSince \<or> purchaser = None then Some (s_payment_code k) else fallback))"

section \<open>Granting, settling, moving\<close>

record apple_outcome =
  ao_accepted :: bool
  ao_reason :: string
  ao_days :: "int option"
  ao_sandbox :: "bool option"

definition apple_refused :: "string \<Rightarrow> apple_outcome" where
  "apple_refused reason =
     \<lparr>ao_accepted = False, ao_reason = reason, ao_days = None, ao_sandbox = None\<rparr>"

definition apple_verified :: "string \<Rightarrow> int \<Rightarrow> bool \<Rightarrow> apple_outcome" where
  "apple_verified reason days sandbox =
     \<lparr>ao_accepted = True, ao_reason = reason, ao_days = Some days, ao_sandbox = Some sandbox\<rparr>"

definition sandboxGrant ::
  "rail_env \<Rightarrow> apple_cfg \<Rightarrow> millis \<Rightarrow> string \<Rightarrow> string \<Rightarrow> db \<Rightarrow> (exn + apple_outcome) \<times> db" where
  "sandboxGrant env cfg ms otid code s =
     (let days = ac_sandboxGrantDays cfg
      in if days \<le> 0 then (Inr (apple_verified ''sandbox_verified'' 0 True), s)
         else case rail_grant env ms Apple (''sandbox:'' @ otid) otid code days s of
                (Inl e, s') \<Rightarrow> (Inl e, s')
              | (Inr r, s') \<Rightarrow> (Inr (apple_verified (''sandbox:'' @ grant_slug (Some r)) days True), s'))"

definition note_expiry :: "string \<Rightarrow> millis option \<Rightarrow> bool \<Rightarrow> db \<Rightarrow> db" where
  "note_expiry otid expiresMs sandbox s =
     (case expiresMs of None \<Rightarrow> s | Some e \<Rightarrow> noteAppleExpiry otid e sandbox s)"

definition apple_settle ::
  "rail_env \<Rightarrow> apple_cfg \<Rightarrow> millis \<Rightarrow> string \<Rightarrow> string \<Rightarrow> string \<Rightarrow> millis option \<Rightarrow> bool \<Rightarrow> int \<Rightarrow> db \<Rightarrow>
   (exn + apple_outcome) \<times> db" where
  "apple_settle env cfg ms code tid otid expiresMs sandbox days s =
     (let s1 = note_expiry otid expiresMs sandbox
                 (upsert (now_s ms) Apple otid code (plan_of_days days) None s)
      in if sandbox \<and> \<not> ac_sandboxGrants cfg then sandboxGrant env cfg ms otid code s1
         else case rail_grant env ms Apple tid otid code days s1 of
                (Inl e, s') \<Rightarrow> (Inl e, s')
              | (Inr r, s') \<Rightarrow> (Inr (apple_verified (grant_slug (Some r)) days False), s'))"

definition apple_transfer_days :: "apple_cfg \<Rightarrow> millis \<Rightarrow> plan \<Rightarrow> millis \<Rightarrow> bool \<Rightarrow> int" where
  "apple_transfer_days cfg ms plan expiresMs sandbox =
     (if sandbox \<and> \<not> ac_sandboxGrants cfg then ac_sandboxGrantDays cfg
      else remainingDays (Some expiresMs) ms plan)"

definition apple_transfer_key :: "apple_cfg \<Rightarrow> string \<Rightarrow> millis \<Rightarrow> bool \<Rightarrow> string" where
  "apple_transfer_key cfg otid expiresMs sandbox =
     (if sandbox \<and> \<not> ac_sandboxGrants cfg then ''sandbox-transfer:'' @ otid
      else transferEventKey otid expiresMs)"

definition apple_transferTo ::
  "rail_env \<Rightarrow> apple_cfg \<Rightarrow> millis \<Rightarrow> string \<Rightarrow> string \<Rightarrow> plan \<Rightarrow> millis \<Rightarrow> bool \<Rightarrow> actor \<Rightarrow> db \<Rightarrow>
   (exn + transfer_result) \<times> db" where
  "apple_transferTo env cfg ms code otid plan expiresMs sandbox who s =
     (case move_sub env ms Apple otid code plan who (apple_transfer_key cfg otid expiresMs sandbox)
             (apple_transfer_days cfg ms plan expiresMs sandbox) s of
        (Inl e, s') \<Rightarrow> (Inl e, s')
      | (Inr m, s') \<Rightarrow> (Inr m, noteAppleExpiry otid expiresMs sandbox s'))"

section \<open>Handlers\<close>

definition apple_verifyPurchase ::
  "(bytes \<Rightarrow> bytes) \<Rightarrow> rail_env \<Rightarrow> apple_cfg \<Rightarrow> millis \<Rightarrow> apple_txn option \<times> bool \<Rightarrow> string \<Rightarrow> db \<Rightarrow>
   (exn + apple_outcome) \<times> db" where
  "apple_verifyPurchase sha env cfg ms decoded code s =
     (case decoded of
        (None, sandbox) \<Rightarrow> (Inr (apple_refused ''verification_failed''), s)
      | (Some txn, sandbox) \<Rightarrow>
          (case daysForProduct cfg (at_productId txn) of
             None \<Rightarrow> (Inr (apple_refused ''unknown_product''), s)
           | Some days \<Rightarrow>
               let expected = uuidForCode sha code
               in if \<not> truthy (at_appAccountToken txn)
                     \<or> map_option lower_str (at_appAccountToken txn) \<noteq> Some expected
                  then (Inr (apple_refused ''app_account_token_mismatch''), s)
                  else if \<not> truthy (at_transactionId txn) \<or> \<not> truthy (at_originalTransactionId txn)
                  then (Inr (apple_refused ''missing_transaction_ids''), s)
                  else
                    (let s1 = mapAppleToken expected code s;
                         owner = the_default code (apple_ownerOf txn (Some code) s1)
                     in apple_settle env cfg ms owner (the (at_transactionId txn))
                          (the (at_originalTransactionId txn)) (at_expiresDate txn) sandbox days s1)))"

definition apple_purchaser :: "(bytes \<Rightarrow> bytes) \<Rightarrow> apple_txn \<Rightarrow> string \<Rightarrow> db \<Rightarrow> string option" where
  "apple_purchaser sha txn code s =
     (case map_option lower_str (at_appAccountToken txn) of
        None \<Rightarrow> None
      | Some token \<Rightarrow>
          if token = uuidForCode sha code then Some code
          else (case codeForAppleToken token s of Some c \<Rightarrow> Some c | None \<Rightarrow> Some token))"

definition apple_to_claim :: "apple_outcome \<Rightarrow> claim_outcome" where
  "apple_to_claim v = \<lparr>c_accepted = ao_accepted v, c_reason = ao_reason v, c_days = ao_days v,
     c_test = Some (ao_sandbox v = Some True), c_transferred = Some False, c_availableAt = None\<rparr>"

text \<open>What a claim requires of the transaction, or why it is refused.\<close>

definition claimable :: "apple_cfg \<Rightarrow> millis \<Rightarrow> apple_txn \<Rightarrow> string + int" where
  "claimable cfg ms txn =
     (case daysForProduct cfg (at_productId txn) of
        None \<Rightarrow> Inl ''unknown_product''
      | Some days \<Rightarrow>
          if \<not> truthy (at_transactionId txn) \<or> \<not> truthy (at_originalTransactionId txn)
          then Inl ''missing_transaction_ids''
          else if at_revocationDate txn \<noteq> None \<or> at_isUpgraded txn = Some True then Inl ''revoked''
          else (case at_expiresDate txn of
                  None \<Rightarrow> Inl ''expired''
                | Some e \<Rightarrow> if e \<le> ms then Inl ''expired'' else Inr days))"

definition apple_claimPurchase ::
  "(bytes \<Rightarrow> bytes) \<Rightarrow> rail_env \<Rightarrow> apple_cfg \<Rightarrow> millis \<Rightarrow> apple_txn option \<times> bool \<Rightarrow> string \<Rightarrow> bool \<Rightarrow> db \<Rightarrow>
   (exn + claim_outcome) \<times> db" where
  "apple_claimPurchase sha env cfg ms decoded code transfer s =
     (case decoded of
        (None, sandbox) \<Rightarrow> (Inr (claim_refused ''verification_failed'' None), s)
      | (Some txn, sandbox) \<Rightarrow>
          (case claimable cfg ms txn of
             Inl r \<Rightarrow> (Inr (claim_refused r None), s)
           | Inr days \<Rightarrow>
               let expected = uuidForCode sha code;
                   otid = the (at_originalTransactionId txn);
                   expiresMs = the (at_expiresDate txn);
                   owner = apple_ownerOf txn (apple_purchaser sha txn code s) s
               in if owner = None \<or> owner = Some code then
                    (case apple_settle env cfg ms code (the (at_transactionId txn)) otid (Some expiresMs)
                            sandbox days (mapAppleToken expected code s) of
                       (Inl e, s') \<Rightarrow> (Inl e, s')
                     | (Inr v, s') \<Rightarrow> (Inr (apple_to_claim v), s'))
                  else if \<not> transfer then (Inr (claim_refused ''owned_by_other_device'' None), s)
                  else case transferAvailableAt (moved_at Apple otid s) (now_s ms) of
                         Some t \<Rightarrow> (Inr (claim_refused ''transfer_too_soon'' (Some t)), s)
                       | None \<Rightarrow>
                           (case apple_transferTo env cfg ms code otid (plan_of_days days) expiresMs sandbox User
                                   (mapAppleToken expected code s) of
                              (Inl e, s') \<Rightarrow> (Inl e, s')
                            | (Inr m, s') \<Rightarrow> (Inr (claim_moved (tr_grant m) (tr_days m) sandbox), s'))))"

definition apple_adminRebind ::
  "rail_env \<Rightarrow> apple_cfg \<Rightarrow> millis \<Rightarrow> string \<Rightarrow> string \<Rightarrow> bool \<Rightarrow> db \<Rightarrow> (exn + rebind_outcome) \<times> db" where
  "apple_adminRebind env cfg ms otid code grantRemaining s =
     (case get_sub Apple otid s of
        None \<Rightarrow> (Inr (rebind_refused ''not_found''), s)
      | Some known \<Rightarrow>
          if \<not> grantRemaining then
            (let (previous, s') = rebind (now_s ms) Apple otid code (s_plan known) Admin 0 s
             in (Inr (rebind_done previous 0 None None), s'))
          else if s_status known \<noteq> Active then (Inr (rebind_refused ''not_active''), s)
          else (case s_apple_expires_ms known of
            None \<Rightarrow> (Inr (rebind_refused ''no_current_period''), s)
          | Some e \<Rightarrow>
              if e \<le> ms then (Inr (rebind_refused ''no_current_period''), s)
              else
                (let sandbox = (s_apple_sandbox known = Some 1)
                 in case apple_transferTo env cfg ms code otid (s_plan known) e sandbox Admin s of
                      (Inl e, s') \<Rightarrow> (Inl e, s')
                    | (Inr m, s') \<Rightarrow>
                        (Inr (rebind_done (tr_previous m) (tr_days m) (tr_grant m) (Some sandbox)), s'))))"

text \<open>A decoded notification: its type and the signed transaction, decoded, if it has one.\<close>

record apple_note =
  an_notificationType :: "string option"
  an_transaction :: "(apple_txn option \<times> bool) option"

definition APPLE_GRANT_TYPES :: "string list" where
  "APPLE_GRANT_TYPES = [''SUBSCRIBED'', ''DID_RENEW'', ''OFFER_REDEEMED'']"

definition type_slug :: "string option \<Rightarrow> string" where
  "type_slug x = (case x of None \<Rightarrow> ''undefined'' | Some y \<Rightarrow> y)"

definition apple_grant_note ::
  "rail_env \<Rightarrow> apple_cfg \<Rightarrow> millis \<Rightarrow> apple_txn \<Rightarrow> bool \<Rightarrow> db \<Rightarrow> (exn + string) \<times> db" where
  "apple_grant_note env cfg ms txn sandbox s =
     (let purchaser = (if truthy (at_appAccountToken txn)
                       then codeForAppleToken (the (at_appAccountToken txn)) s else None)
      in case apple_ownerOf txn purchaser s of
           None \<Rightarrow> (Inr ''notification:code-unknown'', s)
         | Some code \<Rightarrow>
             if code = [] then (Inr ''notification:code-unknown'', s)
             else (case daysForProduct cfg (at_productId txn) of
               None \<Rightarrow> (Inr ''notification:bad-product'', s)
             | Some days \<Rightarrow>
                 if \<not> truthy (at_transactionId txn) then (Inr ''notification:bad-product'', s)
                 else
                   (case apple_settle env cfg ms code (the (at_transactionId txn))
                           (the (at_originalTransactionId txn)) (at_expiresDate txn) sandbox days s of
                      (Inl e, s') \<Rightarrow> (Inl e, s')
                    | (Inr v, s') \<Rightarrow> (Inr (''notification:'' @ ao_reason v), s'))))"

definition apple_handleNotification ::
  "rail_env \<Rightarrow> apple_cfg \<Rightarrow> millis \<Rightarrow> apple_note option \<times> bool \<Rightarrow> db \<Rightarrow> (exn + string) \<times> db" where
  "apple_handleNotification env cfg ms decoded s =
     (case decoded of
        (None, sandbox) \<Rightarrow> (Inr ''notification:verification_failed'', s)
      | (Some note, sandbox) \<Rightarrow>
          (case an_transaction note of
             None \<Rightarrow> (Inr (''notification:'' @ type_slug (an_notificationType note) @ '':no-transaction''), s)
           | Some (None, _) \<Rightarrow> (Inr ''notification:bad-transaction'', s)
           | Some (Some txn, _) \<Rightarrow>
               if \<not> truthy (at_originalTransactionId txn) then (Inr ''notification:bad-transaction'', s)
               else
                 (let otid = the (at_originalTransactionId txn);
                      t = (case an_notificationType note of Some x \<Rightarrow> x | None \<Rightarrow> ''UNKNOWN'')
                  in if t = ''REFUND''
                     then (Inr ''notification:refund'', setStatus (now_s ms) Apple otid Refunded s)
                     else if t = ''EXPIRED'' \<or> t = ''DID_FAIL_TO_RENEW''
                     then (Inr (''notification:'' @ lower_str t),
                           setStatus (now_s ms) Apple otid (if t = ''EXPIRED'' then Canceled else On_hold) s)
                     else if t \<notin> set APPLE_GRANT_TYPES then (Inr (''notification:ignored:'' @ t), s)
                     else apple_grant_note env cfg ms txn sandbox s)))"

section \<open>Frames\<close>

lemma apple_sub_frame [simp]:
  "moved_at r e (note_expiry otid x b s) = moved_at r e s"
  "owner_of r e (note_expiry otid x b s) = owner_of r e s"
  "db_transfers (note_expiry otid x b s) = db_transfers s"
  by (simp_all add: note_expiry_def noteAppleExpiry_frame split: option.split)

lemma sandboxGrant_snd:
  "snd (sandboxGrant env cfg ms otid code s) = s
   \<or> snd (sandboxGrant env cfg ms otid code s)
     = snd (rail_grant env ms Apple (''sandbox:'' @ otid) otid code (ac_sandboxGrantDays cfg) s)"
  by (auto simp: sandboxGrant_def Let_def split: prod.splits sum.splits)

lemma apple_settle_snd:
  fixes code tid otid x sandbox days s ms
  defines "s1 \<equiv> note_expiry otid x sandbox (upsert (now_s ms) Apple otid code (plan_of_days days) None s)"
  shows "snd (apple_settle env cfg ms code tid otid x sandbox days s)
    = (if sandbox \<and> \<not> ac_sandboxGrants cfg then snd (sandboxGrant env cfg ms otid code s1)
       else snd (rail_grant env ms Apple tid otid code days s1))"
  by (auto simp: apple_settle_def s1_def Let_def split: prod.splits sum.splits)

lemma apple_settle_simps [simp]:
  "moved_at r e (snd (apple_settle env cfg ms code tid otid x sandbox days s)) = moved_at r e s"
  "owner_of r e (snd (apple_settle env cfg ms code tid otid x sandbox days s))
     = (if (r, e) = (Apple, otid) then Some code else owner_of r e s)"
  "db_transfers (snd (apple_settle env cfg ms code tid otid x sandbox days s)) = db_transfers s"
  using sandboxGrant_snd [of env cfg ms otid code
      "note_expiry otid x sandbox (upsert (now_s ms) Apple otid code (plan_of_days days) None s)"]
  by (auto simp: apple_settle_snd upsert_frame)

lemma apple_settle_accepts: "fst (apple_settle env cfg ms code tid otid x sandbox days s) = Inr v \<Longrightarrow> ao_accepted v"
  by (auto simp: apple_settle_def sandboxGrant_def apple_verified_def Let_def
      split: prod.splits sum.splits if_splits)

lemma apple_settle_moves_ok [simp]: "moves_ok s (snd (apple_settle env cfg ms code tid otid x sandbox days s))"
  by (rule moves_ok_same) simp_all

lemma apple_transferTo_snd:
  "snd (apple_transferTo env cfg ms code otid plan e sandbox who s)
     = (let r = move_sub env ms Apple otid code plan who (apple_transfer_key cfg otid e sandbox)
              (apple_transfer_days cfg ms plan e sandbox) s
        in case fst r of Inl _ \<Rightarrow> snd r | Inr _ \<Rightarrow> noteAppleExpiry otid e sandbox (snd r))"
  by (auto simp: apple_transferTo_def Let_def split: prod.splits sum.splits)

lemma apple_transferTo_ok:
  assumes "apple_transferTo env cfg ms code otid plan e sandbox who s = (Inr m, s')"
  shows "owner_of rl ext s' = (if (rl, ext) = (Apple, otid) then Some code else owner_of rl ext s)"
    and "moved_at Apple otid s' = Some (now_s ms)"
    and "tr_previous m = owner_of Apple otid s"
    and "tr_days m = apple_transfer_days cfg ms plan e sandbox"
proof -
  from assms obtain s1 where "move_sub env ms Apple otid code plan who (apple_transfer_key cfg otid e sandbox)
      (apple_transfer_days cfg ms plan e sandbox) s = (Inr m, s1)" "s' = noteAppleExpiry otid e sandbox s1"
    by (auto simp: apple_transferTo_def split: prod.splits sum.splits)
  with move_sub_owner [OF this(1)] show
    "owner_of rl ext s' = (if (rl, ext) = (Apple, otid) then Some code else owner_of rl ext s)"
    "moved_at Apple otid s' = Some (now_s ms)" "tr_previous m = owner_of Apple otid s"
    "tr_days m = apple_transfer_days cfg ms plan e sandbox"
    by simp_all
qed

lemma apple_transferTo_moves_ok:
  assumes "who = User \<Longrightarrow> transferAvailableAt (moved_at Apple otid s) (now_s ms) = None"
  shows "moves_ok s (snd (apple_transferTo env cfg ms code otid plan e sandbox who s))"
proof -
  have m: "moves_ok s (snd (move_sub env ms Apple otid code plan who k d s))" for k d
    using assms by (rule move_sub_moves_ok)
  have "moves_ok s (noteAppleExpiry otid e sandbox (snd (move_sub env ms Apple otid code plan who k d s)))" for k d
    using m by (rule moves_ok_trans_same) (simp_all add: noteAppleExpiry_frame)
  with m show ?thesis by (simp add: apple_transferTo_snd Let_def split: sum.split)
qed

section \<open>Whose purchase it is\<close>

text \<open>A purchase made after the subscription was moved: a resubscribe, whose buyer owns it.\<close>

definition bought_since :: "apple_txn \<Rightarrow> seconds \<Rightarrow> bool" where
  "bought_since txn t \<longleftrightarrow> at_transactionReason txn = Some ''PURCHASE''
     \<and> t * 1000 < (case at_purchaseDate txn of Some d \<Rightarrow> d | None \<Rightarrow> 0)"

lemma ownerOf_moved:
  assumes "at_originalTransactionId txn = Some otid" and "otid \<noteq> []"
    and "moved_at Apple otid s = Some t" and "\<not> bought_since txn t"
  shows "apple_ownerOf txn purchaser s = owner_of Apple otid s"
  using assms
  by (auto simp: apple_ownerOf_def truthy_def moved_at_def owner_of_def bought_since_def Let_def
      bind_eq_Some_conv)

lemma ownerOf_unmoved:
  assumes "at_originalTransactionId txn = Some otid" and "moved_at Apple otid s = None"
  shows "apple_ownerOf txn (Some p) s = Some p"
  using assms
  by (auto simp: apple_ownerOf_def truthy_def moved_at_def Let_def split: option.splits)

lemma ownerOf_resubscribed:
  assumes "at_originalTransactionId txn = Some otid" and "moved_at Apple otid s = Some t"
    and "bought_since txn t"
  shows "apple_ownerOf txn (Some p) s = Some p"
  using assms
  by (auto simp: apple_ownerOf_def truthy_def moved_at_def bought_since_def Let_def split: option.splits)

lemma ownerOf_mapped [simp]: "apple_ownerOf txn p (mapAppleToken t c s) = apple_ownerOf txn p s"
  by (simp add: apple_ownerOf_def)

section \<open>Verifying\<close>

lemma apple_verify_cases:
  "snd (apple_verifyPurchase sha env cfg ms decoded code s) = s
     \<and> (\<exists>reason. fst (apple_verifyPurchase sha env cfg ms decoded code s) = Inr (apple_refused reason))
   \<or> (\<exists>txn tid otid days. fst decoded = Some txn \<and> daysForProduct cfg (at_productId txn) = Some days
        \<and> map_option lower_str (at_appAccountToken txn) = Some (uuidForCode sha code)
        \<and> at_transactionId txn = Some tid \<and> at_originalTransactionId txn = Some otid \<and> otid \<noteq> []
        \<and> apple_verifyPurchase sha env cfg ms decoded code s
          = apple_settle env cfg ms (the_default code (apple_ownerOf txn (Some code) s)) tid otid
              (at_expiresDate txn) (snd decoded) days (mapAppleToken (uuidForCode sha code) code s))"
  by (auto simp: apple_verifyPurchase_def the_default_def truthy_def Let_def
      split: prod.splits option.splits)

text \<open>A receipt credits only the code it was bought for: the token binds it.\<close>

lemma apple_verify_accepted:
  assumes "apple_verifyPurchase sha env cfg ms decoded code s = (Inr v, s')" and "ao_accepted v"
  shows "\<exists>txn. fst decoded = Some txn
    \<and> map_option lower_str (at_appAccountToken txn) = Some (uuidForCode sha code)"
  using apple_verify_cases [of sha env cfg ms decoded code s] assms by (auto simp: apple_refused_def)

lemma apple_verify_moves_ok: "moves_ok s (snd (apple_verifyPurchase sha env cfg ms decoded code s))"
  using apple_verify_cases [of sha env cfg ms decoded code s]
  by (auto simp: mapAppleToken_frame intro!: moves_ok_same)

text \<open>The receipt of the device a subscription was moved away from does not take it back.\<close>

lemma apple_verify_keeps_moved:
  assumes "moved_at Apple otid s = Some t"
    and "\<And>txn. fst decoded = Some txn \<Longrightarrow> at_originalTransactionId txn = Some otid \<Longrightarrow> \<not> bought_since txn t"
  shows "owner_of Apple otid (snd (apple_verifyPurchase sha env cfg ms decoded code s)) = owner_of Apple otid s"
proof -
  obtain c where c: "owner_of Apple otid s = Some c" using moved_has_owner [of Apple otid s] assms(1) by auto
  show ?thesis
    using apple_verify_cases [of sha env cfg ms decoded code s] assms ownerOf_moved c
    by (auto simp: the_default_def)
qed

section \<open>Claiming\<close>

lemma claimable_Inr:
  assumes "claimable cfg ms txn = Inr days"
  shows "\<exists>tid otid e. at_transactionId txn = Some tid \<and> at_originalTransactionId txn = Some otid \<and> otid \<noteq> []
    \<and> at_expiresDate txn = Some e \<and> ms < e \<and> at_revocationDate txn = None \<and> at_isUpgraded txn \<noteq> Some True
    \<and> daysForProduct cfg (at_productId txn) = Some days"
  using assms by (auto simp: claimable_def truthy_def split: option.splits if_splits)

lemma apple_claim_cases:
  "snd (apple_claimPurchase sha env cfg ms decoded code tr s) = s
     \<and> (\<forall>c. fst (apple_claimPurchase sha env cfg ms decoded code tr s) = Inr c \<longrightarrow> \<not> c_accepted c)
   \<or> (\<exists>txn tid otid e days. fst decoded = Some txn \<and> claimable cfg ms txn = Inr days
        \<and> at_originalTransactionId txn = Some otid \<and> otid \<noteq> []
        \<and> apple_ownerOf txn (apple_purchaser sha txn code s) s \<in> {None, Some code}
        \<and> apple_claimPurchase sha env cfg ms decoded code tr s
          = (case apple_settle env cfg ms code tid otid (Some e) (snd decoded) days
                (mapAppleToken (uuidForCode sha code) code s) of
               (Inl x, s') \<Rightarrow> (Inl x, s') | (Inr v, s') \<Rightarrow> (Inr (apple_to_claim v), s')))
   \<or> (\<exists>txn otid e days. fst decoded = Some txn \<and> claimable cfg ms txn = Inr days
        \<and> at_originalTransactionId txn = Some otid \<and> otid \<noteq> [] \<and> tr
        \<and> apple_ownerOf txn (apple_purchaser sha txn code s) s \<notin> {None, Some code}
        \<and> transferAvailableAt (moved_at Apple otid s) (now_s ms) = None
        \<and> apple_claimPurchase sha env cfg ms decoded code tr s
          = (case apple_transferTo env cfg ms code otid (plan_of_days days) e (snd decoded) User
                (mapAppleToken (uuidForCode sha code) code s) of
               (Inl x, s') \<Rightarrow> (Inl x, s')
             | (Inr m, s') \<Rightarrow> (Inr (claim_moved (tr_grant m) (tr_days m) (snd decoded)), s')))"
proof (cases "fst decoded")
  case None
  then show ?thesis by (cases decoded) (auto simp: apple_claimPurchase_def claim_refused_def)
next
  case (Some txn)
  then obtain b where d: "decoded = (Some txn, b)" by (cases decoded) auto
  show ?thesis
  proof (cases "claimable cfg ms txn")
    case (Inl r)
    then show ?thesis by (simp add: d apple_claimPurchase_def claim_refused_def)
  next
    case (Inr days)
    from claimable_Inr [OF this] obtain tid otid e where t: "at_transactionId txn = Some tid"
      "at_originalTransactionId txn = Some otid" "otid \<noteq> []" "at_expiresDate txn = Some e" by auto
    let ?own = "apple_ownerOf txn (apple_purchaser sha txn code s) s"
    let ?av = "transferAvailableAt (moved_at Apple otid s) (now_s ms)"
    consider "?own \<in> {None, Some code}" | "?own \<notin> {None, Some code}" "\<not> tr \<or> ?av \<noteq> None"
      | "?own \<notin> {None, Some code}" tr "?av = None" by blast
    then show ?thesis
    proof cases
      case 1
      then have "apple_claimPurchase sha env cfg ms decoded code tr s
          = (case apple_settle env cfg ms code tid otid (Some e) (snd decoded) days
                (mapAppleToken (uuidForCode sha code) code s) of
               (Inl x, s') \<Rightarrow> (Inl x, s') | (Inr v, s') \<Rightarrow> (Inr (apple_to_claim v), s'))"
        using Inr t unfolding d snd_conv by (simp add: apple_claimPurchase_def Let_def)
      with 1 Some Inr t show ?thesis by (intro disjI2 disjI1 exI conjI) assumption+
    next
      case 2
      then show ?thesis using Inr t
        by (auto simp: apple_claimPurchase_def claim_refused_def d Let_def split: option.split)
    next
      case 3
      from 3(1) obtain c where "?own = Some c" "c \<noteq> code" by auto
      with 3 have "apple_claimPurchase sha env cfg ms decoded code tr s
          = (case apple_transferTo env cfg ms code otid (plan_of_days days) e (snd decoded) User
                (mapAppleToken (uuidForCode sha code) code s) of
               (Inl x, s') \<Rightarrow> (Inl x, s')
             | (Inr m, s') \<Rightarrow> (Inr (claim_moved (tr_grant m) (tr_days m) (snd decoded)), s'))"
        using Inr t unfolding d snd_conv by (simp add: apple_claimPurchase_def Let_def)
      with 3 Some Inr t show ?thesis by (intro disjI2 exI conjI) assumption+
    qed
  qed
qed

text \<open>An accepted claim is of a live transaction, and leaves the claimant as the owner; a
  moved subscription leaves its owner only by a move that the limit allows.\<close>

lemma apple_claim_accepted:
  assumes "apple_claimPurchase sha env cfg ms decoded code tr s = (Inr c, s')" and "c_accepted c"
  shows "\<exists>txn otid days. fst decoded = Some txn \<and> claimable cfg ms txn = Inr days
    \<and> at_originalTransactionId txn = Some otid \<and> owner_of Apple otid s' = Some code
    \<and> (\<forall>t. moved_at Apple otid s = Some t \<longrightarrow> \<not> bought_since txn t \<longrightarrow> owner_of Apple otid s \<noteq> Some code
         \<longrightarrow> tr \<and> c_transferred c = Some True \<and> t + TRANSFER_INTERVAL_S \<le> now_s ms)"
  using apple_claim_cases [of sha env cfg ms decoded code tr s]
proof (elim disjE exE conjE)
  fix txn tid otid e days
  let ?set = "apple_settle env cfg ms code tid otid (Some e) (snd decoded) days (mapAppleToken (uuidForCode sha code) code s)"
  assume h: "fst decoded = Some txn" "claimable cfg ms txn = Inr days" "at_originalTransactionId txn = Some otid"
    "otid \<noteq> []" and own: "apple_ownerOf txn (apple_purchaser sha txn code s) s \<in> {None, Some code}"
    and eq: "apple_claimPurchase sha env cfg ms decoded code tr s
      = (case ?set of (Inl x, s') \<Rightarrow> (Inl x, s') | (Inr v, s') \<Rightarrow> (Inr (apple_to_claim v), s'))"
  from eq assms(1) have "s' = snd ?set" by (auto split: prod.splits sum.splits)
  moreover have "owner_of Apple otid s = Some code" if "moved_at Apple otid s = Some t" "\<not> bought_since txn t" for t
    using own ownerOf_moved [OF h(3,4) that] moved_has_owner [of Apple otid s] that(1) by auto
  ultimately show ?thesis using h by auto
next
  fix txn otid e days
  assume h: "fst decoded = Some txn" "claimable cfg ms txn = Inr days" "at_originalTransactionId txn = Some otid"
    and tr: tr "transferAvailableAt (moved_at Apple otid s) (now_s ms) = None"
    and eq: "apple_claimPurchase sha env cfg ms decoded code tr s
      = (case apple_transferTo env cfg ms code otid (plan_of_days days) e (snd decoded) User
            (mapAppleToken (uuidForCode sha code) code s) of
           (Inl x, s') \<Rightarrow> (Inl x, s')
         | (Inr m, s') \<Rightarrow> (Inr (claim_moved (tr_grant m) (tr_days m) (snd decoded)), s'))"
  from eq assms(1) obtain m where "apple_transferTo env cfg ms code otid (plan_of_days days) e (snd decoded) User
      (mapAppleToken (uuidForCode sha code) code s) = (Inr m, s')" and "c_transferred c = Some True"
    by (auto simp: claim_moved_def split: prod.splits sum.splits)
  with apple_transferTo_ok(1) [OF this(1), of Apple otid] h tr show ?thesis
    by (auto simp: transferAvailableAt_None)
qed (use assms in auto)

lemma apple_claim_moves_ok: "moves_ok s (snd (apple_claimPurchase sha env cfg ms decoded code tr s))"
  using apple_claim_cases [of sha env cfg ms decoded code tr s]
proof (elim disjE exE conjE)
  fix txn tid otid e days
  let ?s = "mapAppleToken (uuidForCode sha code) code s"
  assume eq: "apple_claimPurchase sha env cfg ms decoded code tr s
    = (case apple_settle env cfg ms code tid otid (Some e) (snd decoded) days ?s of
         (Inl x, s') \<Rightarrow> (Inl x, s') | (Inr v, s') \<Rightarrow> (Inr (apple_to_claim v), s'))"
  have "moves_ok s (snd (apple_settle env cfg ms code tid otid (Some e) (snd decoded) days ?s))"
    by (rule moves_ok_same) (simp_all add: mapAppleToken_frame)
  then show ?thesis unfolding eq by (auto split: prod.splits sum.splits)
next
  fix txn otid e days
  let ?s = "mapAppleToken (uuidForCode sha code) code s"
  assume eq: "apple_claimPurchase sha env cfg ms decoded code tr s
      = (case apple_transferTo env cfg ms code otid (plan_of_days days) e (snd decoded) User ?s of
           (Inl x, s') \<Rightarrow> (Inl x, s')
         | (Inr m, s') \<Rightarrow> (Inr (claim_moved (tr_grant m) (tr_days m) (snd decoded)), s'))"
    and free: "transferAvailableAt (moved_at Apple otid s) (now_s ms) = None"
  have "moves_ok ?s (snd (apple_transferTo env cfg ms code otid (plan_of_days days) e (snd decoded) User ?s))"
    using free by (intro apple_transferTo_moves_ok) simp
  then have "moves_ok s (snd (apple_transferTo env cfg ms code otid (plan_of_days days) e (snd decoded) User ?s))"
    by (simp add: moves_ok_def transfers_of_def mapAppleToken_frame)
  then show ?thesis unfolding eq by (auto split: prod.splits sum.splits)
qed simp

section \<open>Support and notifications\<close>

lemma apple_admin_moves_ok: "moves_ok s (snd (apple_adminRebind env cfg ms otid code grant s))"
proof -
  have "moves_ok s (snd (apple_transferTo env cfg ms code otid p e b Admin s))" for p e b
    by (rule apple_transferTo_moves_ok) simp
  moreover have "moves_ok s (snd (rebind (now_s ms) Apple otid code p Admin 0 s))" for p
    by (rule moves_ok_rebind) simp_all
  ultimately show ?thesis
    by (auto simp: apple_adminRebind_def Let_def split: option.splits prod.splits sum.splits) (metis snd_conv)+
qed

lemma apple_grant_note_cases:
  "snd (apple_grant_note env cfg ms txn sandbox s) = s
   \<or> (\<exists>code tid days. apple_ownerOf txn (if truthy (at_appAccountToken txn)
          then codeForAppleToken (the (at_appAccountToken txn)) s else None) s = Some code
        \<and> snd (apple_grant_note env cfg ms txn sandbox s)
          = snd (apple_settle env cfg ms code tid (the (at_originalTransactionId txn)) (at_expiresDate txn) sandbox days s))"
  by (auto simp: apple_grant_note_def Let_def split: option.splits prod.splits sum.splits) (metis snd_conv)+

lemma apple_note_moves_ok: "moves_ok s (snd (apple_handleNotification env cfg ms decoded s))"
proof -
  have "moves_ok s (snd (apple_grant_note env cfg ms txn sandbox s))" for txn sandbox
    using apple_grant_note_cases [of env cfg ms txn sandbox s] by auto
  moreover have "moves_ok s (setStatus (now_s ms) Apple otid st s)" for otid st
    by (rule moves_ok_same) (simp_all add: setStatus_frame)
  ultimately show ?thesis
    by (auto simp: apple_handleNotification_def Let_def split: prod.splits option.splits)
qed

text \<open>Renewals and retried notifications follow the binding of a moved subscription.\<close>

lemma apple_note_keeps_moved:
  assumes "moved_at Apple otid s = Some t"
    and "\<And>note txn b. fst decoded = Some note \<Longrightarrow> an_transaction note = Some (Some txn, b) \<Longrightarrow>
      at_originalTransactionId txn = Some otid \<Longrightarrow> \<not> bought_since txn t"
  shows "owner_of Apple otid (snd (apple_handleNotification env cfg ms decoded s)) = owner_of Apple otid s"
proof -
  have g: "owner_of Apple otid (snd (apple_grant_note env cfg ms txn sandbox s)) = owner_of Apple otid s"
    if "at_originalTransactionId txn = Some o'" "o' \<noteq> []" "o' = otid \<Longrightarrow> \<not> bought_since txn t" for txn sandbox o'
    using apple_grant_note_cases [of env cfg ms txn sandbox s] ownerOf_moved [OF that(1,2) _ that(3)] assms(1) that
    by auto
  show ?thesis
    using assms(2) g
    by (cases decoded) (auto simp: apple_handleNotification_def truthy_def Let_def split: option.splits)
qed

section \<open>The rail meets the contracts\<close>

datatype apple_request =
    A_verify millis "apple_txn option \<times> bool" string
  | A_claim millis "apple_txn option \<times> bool" string bool
  | A_admin millis string string bool
  | A_note millis "apple_note option \<times> bool"

fun apple_call :: "(bytes \<Rightarrow> bytes) \<Rightarrow> rail_env \<Rightarrow> apple_cfg \<Rightarrow> apple_request \<Rightarrow> db \<Rightarrow> db" where
  "apple_call sha env cfg (A_verify ms decoded code) s = snd (apple_verifyPurchase sha env cfg ms decoded code s)"
| "apple_call sha env cfg (A_claim ms decoded code tr) s = snd (apple_claimPurchase sha env cfg ms decoded code tr s)"
| "apple_call sha env cfg (A_admin ms otid code g) s = snd (apple_adminRebind env cfg ms otid code g s)"
| "apple_call sha env cfg (A_note ms decoded) s = snd (apple_handleNotification env cfg ms decoded s)"

lemma apple_call_moves_ok: "moves_ok s (apple_call sha env cfg a s)"
  by (cases a) (simp_all add: apple_verify_moves_ok apple_claim_moves_ok apple_admin_moves_ok apple_note_moves_ok)

interpretation apple_moves: limited_moves "apple_call sha env cfg" for sha env cfg
  by unfold_locales (rule apple_call_moves_ok)

fun apple_transfer :: "rail_env \<Rightarrow> apple_cfg \<Rightarrow> (plan \<times> millis \<times> bool) transfer_call \<Rightarrow> db \<Rightarrow> db" where
  "apple_transfer env cfg (ms, code, otid, (plan, expiresMs, sandbox), who) s =
     snd (apple_transferTo env cfg ms code otid plan expiresMs sandbox who s)"

fun apple_period_key :: "apple_cfg \<Rightarrow> (plan \<times> millis \<times> bool) transfer_call \<Rightarrow> string" where
  "apple_period_key cfg (ms, code, otid, (plan, expiresMs, sandbox), who) = apple_transfer_key cfg otid expiresMs sandbox"

lemma apple_transfer_ledger:
  "payment_ledger (apple_transfer env cfg a s) = payment_ledger s
   \<or> (\<exists>p. payment_ledger (apple_transfer env cfg a s) = payment_ledger s @ [p]
        \<and> new_key p = (Apple, apple_period_key cfg a) \<and> \<not> ledger_has Apple (apple_period_key cfg a) s
        \<and> 1 \<le> n_days p \<and> n_days p \<le> max 360 (ac_sandboxGrantDays cfg))"
proof -
  obtain ms code otid plan e sandbox who where a: "a = (ms, code, otid, (plan, e, sandbox), who)"
    by (cases a) auto
  have "apple_transfer_days cfg ms plan e sandbox \<le> max 360 (ac_sandboxGrantDays cfg)"
    using remainingDays_le_360 [of "Some e" ms plan]
    by (auto simp: apple_transfer_days_def intro: max.coboundedI1)
  then show ?thesis
    using move_sub_ledger [of env ms Apple otid code plan who "apple_transfer_key cfg otid e sandbox"
        "apple_transfer_days cfg ms plan e sandbox" s]
    by (auto simp: a apple_transferTo_snd Let_def split: sum.split)
qed

interpretation apple_period: period_transfer "apple_transfer env cfg" Apple "apple_period_key cfg"
  "max 360 (ac_sandboxGrantDays cfg)" for env cfg
  by unfold_locales (rule apple_transfer_ledger)

end
