(* ===== verification/Vouchers.thy ===== *)
theory Vouchers
  imports Grants "HOL-Library.FuncSet"
begin

text \<open>
  The voucher store and the redemption transaction (bridge/src/db/vouchers.ts). A
  transaction that throws is rolled back: the state returned with \<open>Inl\<close> is the one the
  transaction started in. \<open>randomBytes\<close> is the list of bytes the generator will deliver;
  a generator that has not delivered enough is \<open>None\<close>.
\<close>

section \<open>Codes\<close>

definition CODE_ALPHABET :: string where
  "CODE_ALPHABET = ''23456789ABCDEFGHJKMNPQRSTUVWXYZ''"

definition GENERATED_LEN :: nat where
  "GENERATED_LEN = 10"

definition strip_code :: "string \<Rightarrow> string" where
  "strip_code input = filter (\<lambda>c. \<not> (is_space c \<or> c = CHR ''-'')) (upper_str input)"

definition normalizeCode :: "string \<Rightarrow> string option" where
  "normalizeCode input =
     (let s0 = strip_code input;
          s = (if starts_with ''CVPN'' s0 \<and> GENERATED_LEN < length s0 then drop 4 s0 else s0)
      in if length s < 6 \<or> 20 < length s then None
         else if list_all (\<lambda>c. c \<in> set CODE_ALPHABET) s then Some s
         else None)"

definition displayCode :: "string \<Rightarrow> string" where
  "displayCode canonical =
     (if length canonical = GENERATED_LEN
      then ''CVPN-'' @ take 5 canonical @ ''-'' @ drop 5 canonical
      else canonical)"

fun randomChar :: "u8 list \<Rightarrow> (char \<times> u8 list) option" where
  "randomChar [] = None"
| "randomChar (b # bs) =
     (if unat b < 248 then Some (CODE_ALPHABET ! (unat b mod length CODE_ALPHABET), bs)
      else randomChar bs)"

fun random_chars :: "nat \<Rightarrow> u8 list \<Rightarrow> (string \<times> u8 list) option" where
  "random_chars 0 bs = Some ([], bs)"
| "random_chars (Suc n) bs =
     (case randomChar bs of
        None \<Rightarrow> None
      | Some (c, bs') \<Rightarrow>
          (case random_chars n bs' of
             None \<Rightarrow> None
           | Some (cs, bs'') \<Rightarrow> Some (c # cs, bs'')))"

definition generateCode :: "u8 list \<Rightarrow> (string \<times> u8 list) option" where
  "generateCode bs = random_chars GENERATED_LEN bs"

section \<open>Lookups and administration\<close>

definition byCanonicalCode :: "string \<Rightarrow> db \<Rightarrow> voucher_row option" where
  "byCanonicalCode code s = find (\<lambda>v. v_code v = code) (db_vouchers s)"

definition voucher_by_id :: "nat \<Rightarrow> db \<Rightarrow> voucher_row option" where
  "voucher_by_id i s = find (\<lambda>v. v_id v = i) (db_vouchers s)"

definition byStripePromoId :: "string \<Rightarrow> db \<Rightarrow> voucher_row option" where
  "byStripePromoId promo s = find (\<lambda>v. v_stripe_promo_id v = Some promo) (db_vouchers s)"

definition byStripeCouponId :: "string \<Rightarrow> db \<Rightarrow> voucher_row option" where
  "byStripeCouponId coupon s = find (\<lambda>v. v_stripe_coupon_id v = Some coupon) (db_vouchers s)"

record create_vouchers_input =
  cv_type :: voucher_type
  cv_value :: int
  cv_campaign :: "string option"
  cv_maxRedemptions :: "int option"
  cv_perCodeLimit :: "int option"
  cv_expiresAt :: "seconds option"

definition new_voucher ::
  "seconds \<Rightarrow> create_vouchers_input \<Rightarrow> nat \<Rightarrow> string \<Rightarrow> string option \<Rightarrow> string option \<Rightarrow> voucher_row" where
  "new_voucher now input i code coupon promo =
     \<lparr>v_id = i, v_code = code, v_type = cv_type input, v_value = cv_value input,
      v_campaign = the_default [] (cv_campaign input),
      v_max_redemptions = the_default 1 (cv_maxRedemptions input), v_redemption_count = 0,
      v_per_code_limit = the_default 1 (cv_perCodeLimit input), v_expires_at = cv_expiresAt input,
      v_status = V_active, v_stripe_coupon_id = coupon, v_stripe_promo_id = promo,
      v_created_at = now\<rparr>"

text \<open>The inserts of one batch: \<open>None\<close> once a constraint refuses a row.\<close>

fun insert_vouchers ::
  "seconds \<Rightarrow> create_vouchers_input \<Rightarrow> string option \<Rightarrow> string list \<Rightarrow> string list \<Rightarrow>
   voucher_row list \<Rightarrow> voucher_row list option" where
  "insert_vouchers now input coupon promos [] vs = Some vs"
| "insert_vouchers now input coupon promos (code # codes) vs =
     (let promo = (case promos of [] \<Rightarrow> None | p # _ \<Rightarrow> Some p);
          v = new_voucher now input (next_rowid (map v_id vs)) code coupon promo
      in if \<not> voucher_check v \<or> has_key v_code code vs then None
         else insert_vouchers now input coupon (drop 1 promos) codes (vs @ [v]))"

definition createBatch ::
  "seconds \<Rightarrow> create_vouchers_input \<Rightarrow> string list \<Rightarrow> (string \<times> string list) option \<Rightarrow> db \<Rightarrow>
   (exn + voucher_row list) \<times> db" where
  "createBatch now input codes stripeIds s =
     (let coupon = map_option fst stripeIds;
          promos = (case stripeIds of None \<Rightarrow> [] | Some (_, ps) \<Rightarrow> ps)
      in case insert_vouchers now input coupon promos codes (db_vouchers s) of
           None \<Rightarrow> (Inl Sqlite_constraint, s)
         | Some vs \<Rightarrow> (Inr (drop (length (db_vouchers s)) vs), s\<lparr>db_vouchers := vs\<rparr>))"

text \<open>\<open>LIMIT\<close> and \<open>OFFSET\<close>: SQLite reads a negative limit as none, a negative offset as zero.\<close>

definition sql_page :: "int \<Rightarrow> int \<Rightarrow> 'r list \<Rightarrow> 'r list" where
  "sql_page limit offset rs =
     (let ys = drop (nat offset) rs in if limit < 0 then ys else take (nat limit) ys)"

definition list_vouchers ::
  "string option \<Rightarrow> voucher_status option \<Rightarrow> int \<Rightarrow> int \<Rightarrow> db \<Rightarrow> voucher_row list" where
  "list_vouchers campaign status limit offset s =
     sql_page limit offset (sort_key (\<lambda>v. (- v_created_at v, - int (v_id v)))
       (filter (\<lambda>v. (case campaign of None \<Rightarrow> True | Some c \<Rightarrow> v_campaign v = c)
                     \<and> (case status of None \<Rightarrow> True | Some st \<Rightarrow> v_status v = st))
         (db_vouchers s)))"

definition revoke :: "nat \<Rightarrow> db \<Rightarrow> voucher_row option \<times> db" where
  "revoke i s =
     (let s' = s\<lparr>db_vouchers := update_where (\<lambda>v. v_id v = i)
                   (\<lambda>v. v\<lparr>v_status := V_revoked\<rparr>) (db_vouchers s)\<rparr>
      in (voucher_by_id i s', s'))"

section \<open>Campaign statistics\<close>

record campaign_stats =
  cs_campaign :: string
  cs_vouchers :: nat
  cs_active :: nat
  cs_redemptions :: nat
  cs_days_granted :: int
  cs_flux_spent :: rat
  cs_last_redeemed_at :: "seconds option"

text \<open>The rows of the two left joins.\<close>

definition joined ::
  "db \<Rightarrow> voucher_row \<Rightarrow> (voucher_row \<times> redemption_row option \<times> payment_row option) list" where
  "joined s v =
     (case filter (\<lambda>d. d_voucher_id d = v_id v) (db_redemptions s) of
        [] \<Rightarrow> [(v, None, None)]
      | ds \<Rightarrow> map (\<lambda>d. (v, Some d, Option.bind (d_payment_id d) (\<lambda>i. payment_by_id i s))) ds)"

definition stats_group :: "db \<Rightarrow> string \<Rightarrow> campaign_stats" where
  "stats_group s c =
     (let rows = concat (map (joined s) (filter (\<lambda>v. v_campaign v = c) (db_vouchers s)));
          reds = List.map_filter (\<lambda>(v, d, p). map_option (Pair v) d) rows;
          pays = List.map_filter (\<lambda>(v, d, p). p) rows
      in \<lparr>cs_campaign = c,
          cs_vouchers = length (remdups (map (\<lambda>(v, _). v_id v) rows)),
          cs_active = length (filter (\<lambda>(v, _). v_status v = V_active) rows),
          cs_redemptions = length reds,
          cs_days_granted = sum_list (map (\<lambda>(v, d). if v_type v = Grant_days then v_value v else 0) reds),
          cs_flux_spent = of_int (sum_list (map p_flux_zats pays)) / 10 ^ 8,
          cs_last_redeemed_at =
            (if reds = [] then None else Some (fold max (map (d_redeemed_at \<circ> snd) (tl reds)) (d_redeemed_at (snd (hd reds)))))\<rparr>)"

definition stats :: "string option \<Rightarrow> db \<Rightarrow> campaign_stats list" where
  "stats campaign s =
     (let cs = filter (\<lambda>c. case campaign of None \<Rightarrow> True | Some x \<Rightarrow> c = x)
                 (sort (remdups (map v_campaign (db_vouchers s))));
          latest = (\<lambda>c. fold max (map v_created_at (filter (\<lambda>v. v_campaign v = c) (db_vouchers s))) 0)
      in map (stats_group s) (sort_key (\<lambda>c. - latest c) cs))"

section \<open>Redemption\<close>

definition campaignRedemptions :: "string \<Rightarrow> string \<Rightarrow> db \<Rightarrow> nat" where
  "campaignRedemptions campaign code s =
     length (filter (\<lambda>d. d_payment_code d = code
         \<and> (\<exists>v\<in>set (db_vouchers s). v_id v = d_voucher_id d \<and> v_campaign v = campaign))
       (db_redemptions s))"

definition redeemable :: "seconds \<Rightarrow> voucher_row \<Rightarrow> bool" where
  "redeemable now v \<longleftrightarrow>
     v_status v = V_active \<and> v_redemption_count v < v_max_redemptions v
     \<and> (case v_expires_at v of None \<Rightarrow> True | Some e \<Rightarrow> now < e)"

definition voucher_event_key :: "nat \<Rightarrow> string \<Rightarrow> string" where
  "voucher_event_key i code = show_nat i @ CHR '':'' # code"

definition bump :: "voucher_row \<Rightarrow> voucher_row" where
  "bump v = v\<lparr>v_redemption_count := v_redemption_count v + 1\<rparr>"

definition voucher_payment :: "zats \<Rightarrow> voucher_row \<Rightarrow> string \<Rightarrow> new_payment" where
  "voucher_payment priceZats voucher code =
     \<lparr>n_rail = Voucher, n_eventKey = voucher_event_key (v_id voucher) code,
      n_externalRef = ''voucher:'' @ v_code voucher, n_paymentCode = code,
      n_days = v_value voucher, n_fluxZats = zatsForDays priceZats (v_value voucher)\<rparr>"

definition redeemGrant ::
  "zats \<Rightarrow> seconds \<Rightarrow> voucher_row \<Rightarrow> string \<Rightarrow> db \<Rightarrow> (exn + nat) \<times> db" where
  "redeemGrant priceZats now voucher code s =
     (if v_campaign voucher \<noteq> [] \<and> 0 < v_per_code_limit voucher
          \<and> v_per_code_limit voucher \<le> int (campaignRedemptions (v_campaign voucher) code s)
      then (Inl (Redeem_error Already_redeemed), s)
      else if \<not> (\<exists>v\<in>set (db_vouchers s). v_id v = v_id voucher \<and> redeemable now v)
      then (Inl (Redeem_error Exhausted), s)
      else
        let s1 = s\<lparr>db_vouchers := update_where (\<lambda>v. v_id v = v_id voucher \<and> redeemable now v)
                     bump (db_vouchers s)\<rparr>
        in if has_key redemption_key (v_id voucher, code) (db_redemptions s1)
           then (Inl (Redeem_error Already_redeemed), s)
           else
             let rid = next_rowid (map d_id (db_redemptions s1));
                 s2 = s1\<lparr>db_redemptions := db_redemptions s1 @
                       [\<lparr>d_id = rid, d_voucher_id = v_id voucher, d_payment_code = code,
                         d_payment_id = None, d_redeemed_at = now\<rparr>]\<rparr>
             in case insertIdempotent now (voucher_payment priceZats voucher code) s2 of
                  (Inl e, _) \<Rightarrow> (Inl e, s)
                | (Inr None, s3) \<Rightarrow> (Inr rid, s3)
                | (Inr (Some pid), s3) \<Rightarrow>
                    (Inr rid, s3\<lparr>db_redemptions := update_where (\<lambda>d. d_id d = rid)
                       (\<lambda>d. d\<lparr>d_payment_id := Some pid\<rparr>) (db_redemptions s3)\<rparr>))"

definition recordDiscountRedemption ::
  "seconds \<Rightarrow> nat \<Rightarrow> string \<Rightarrow> nat option \<Rightarrow> db \<Rightarrow> (exn + bool) \<times> db" where
  "recordDiscountRedemption now vid code pid s =
     (if has_key redemption_key (vid, code) (db_redemptions s) then (Inr False, s)
      else if \<not> has_key v_id vid (db_vouchers s)
           \<or> (case pid of None \<Rightarrow> False | Some i \<Rightarrow> \<not> has_key p_id i (db_payments s))
      then (Inl Sqlite_constraint, s)
      else (Inr True, s\<lparr>
        db_redemptions := db_redemptions s @
          [\<lparr>d_id = next_rowid (map d_id (db_redemptions s)), d_voucher_id = vid,
            d_payment_code = code, d_payment_id = pid, d_redeemed_at = now\<rparr>],
        db_vouchers := update_where (\<lambda>v. v_id v = vid) bump (db_vouchers s)\<rparr>))"

section \<open>Facts about codes\<close>

lemma alphabet_chars:
  assumes "c \<in> set CODE_ALPHABET"
  shows "to_upper c = c" and "\<not> is_space c" and "c \<noteq> CHR ''-''"
proof -
  have "\<forall>c\<in>set CODE_ALPHABET. to_upper c = c \<and> \<not> is_space c \<and> c \<noteq> CHR ''-''"
    by code_simp
  with assms show "to_upper c = c" "\<not> is_space c" "c \<noteq> CHR ''-''" by blast+
qed

lemma alphabet_length: "length CODE_ALPHABET = 31"
  by (simp add: CODE_ALPHABET_def)

lemma alphabet_distinct: "distinct CODE_ALPHABET"
  by code_simp

definition canonical :: "string \<Rightarrow> bool" where
  "canonical s \<longleftrightarrow> 6 \<le> length s \<and> length s \<le> 20 \<and> list_all (\<lambda>c. c \<in> set CODE_ALPHABET) s"

lemma normalizeCode_canonical: "normalizeCode s = Some c \<Longrightarrow> canonical c"
  by (auto simp: normalizeCode_def canonical_def Let_def split: if_splits)

lemma strip_canonical: "list_all (\<lambda>c. c \<in> set CODE_ALPHABET) s \<Longrightarrow> strip_code s = s"
  by (induction s) (auto simp: alphabet_chars strip_code_def)

lemma strip_code_append: "strip_code (s @ t) = strip_code s @ strip_code t"
  by (simp add: strip_code_def)

lemma strip_dressing: "strip_code ''CVPN-'' = ''CVPN''" "strip_code ''-'' = []"
  by code_simp+

text \<open>What is displayed is read back, and so is a code typed without its dressing.\<close>

lemma normalizeCode_id:
  assumes "canonical s" and "length s \<le> GENERATED_LEN \<or> \<not> starts_with ''CVPN'' s"
  shows "normalizeCode s = Some s"
  using assms by (auto simp: normalizeCode_def canonical_def Let_def strip_canonical)

lemma normalizeCode_display:
  assumes "canonical s" and "length s \<le> GENERATED_LEN \<or> \<not> starts_with ''CVPN'' s"
  shows "normalizeCode (displayCode s) = Some s"
proof (cases "length s = GENERATED_LEN")
  case True
  have al: "list_all (\<lambda>c. c \<in> set CODE_ALPHABET) s" using assms(1) by (simp add: canonical_def)
  then have "strip_code (take 5 s) = take 5 s" "strip_code (drop 5 s) = drop 5 s"
    using set_take_subset [of 5 s] set_drop_subset [of 5 s]
    by (intro strip_canonical; fastforce simp: list_all_iff)+
  moreover have "displayCode s = ''CVPN-'' @ take 5 s @ ''-'' @ drop 5 s"
    using True by (simp add: displayCode_def)
  ultimately have "strip_code (displayCode s) = ''CVPN'' @ s"
    by (simp only: strip_code_append strip_dressing append_take_drop_id append_Nil)
  then show ?thesis
    using True al by (simp add: normalizeCode_def Let_def starts_with_def GENERATED_LEN_def)
next
  case False
  then show ?thesis using normalizeCode_id [OF assms] by (simp add: displayCode_def)
qed

text \<open>The generator: each character of the alphabet is the image of exactly eight bytes.\<close>

lemma randomChar_mem: "randomChar bs = Some (c, bs') \<Longrightarrow> c \<in> set CODE_ALPHABET"
  by (induction bs rule: randomChar.induct) (auto simp: alphabet_length split: if_splits)

lemma random_chars_canonical:
  "random_chars n bs = Some (cs, bs') \<Longrightarrow> length cs = n \<and> list_all (\<lambda>c. c \<in> set CODE_ALPHABET) cs"
proof (induction n arbitrary: bs cs)
  case (Suc n)
  then obtain c bs1 cs' where "randomChar bs = Some (c, bs1)" "random_chars n bs1 = Some (cs', bs')" "cs = c # cs'"
    by (auto split: option.splits)
  with Suc.IH randomChar_mem show ?case by auto
qed simp

lemma generateCode_canonical: "generateCode bs = Some (c, bs') \<Longrightarrow> canonical c \<and> length c = GENERATED_LEN"
  using random_chars_canonical [of GENERATED_LEN bs c bs']
  by (simp add: generateCode_def canonical_def GENERATED_LEN_def)

abbreviation accepted :: "u8 list \<Rightarrow> nat" where
  "accepted bs \<equiv> length (filter (\<lambda>b. unat b < 248) bs)"

lemma randomChar_returns:
  "0 < accepted bs \<Longrightarrow> \<exists>c bs'. randomChar bs = Some (c, bs') \<and> accepted bs = Suc (accepted bs')"
  by (induction bs rule: randomChar.induct) auto

lemma random_chars_returns:
  "n \<le> accepted bs \<Longrightarrow> \<exists>cs bs'. random_chars n bs = Some (cs, bs')"
proof (induction n arbitrary: bs)
  case (Suc n)
  then have "0 < accepted bs" by linarith
  then obtain c bs' where r: "randomChar bs = Some (c, bs')" "accepted bs = Suc (accepted bs')"
    using randomChar_returns by blast
  then obtain cs bs'' where "random_chars n bs' = Some (cs, bs'')"
    using Suc.IH [of bs'] Suc.prems by auto
  with r show ?case by simp
qed simp

lemma card_residues: "i < 31 \<Longrightarrow> card {n :: nat. n < 248 \<and> n mod 31 = i} = 8"
proof -
  assume i: "i < 31"
  have "{n. n < 248 \<and> n mod 31 = i} = (\<lambda>k. 31 * k + i) ` {..<8}"
  proof (intro subset_antisym subsetI)
    fix n assume "n \<in> {n. n < 248 \<and> n mod 31 = i}"
    then have "n = 31 * (n div 31) + i" "n div 31 < 8" by auto
    then show "n \<in> (\<lambda>k. 31 * k + i) ` {..<8}" by blast
  qed (use i in auto)
  then show "card {n. n < 248 \<and> n mod 31 = i} = 8"
    by (simp add: card_image inj_on_def)
qed

lemma randomChar_uniform:
  assumes "c \<in> set CODE_ALPHABET"
  shows "card {b :: u8. \<exists>bs. randomChar [b] = Some (c, bs)} = 8"
proof -
  obtain i where i: "i < 31" "c = CODE_ALPHABET ! i"
    using assms by (auto simp: in_set_conv_nth alphabet_length)
  have "bij_betw unat {b :: u8. \<exists>bs. randomChar [b] = Some (c, bs)} {n. n < 248 \<and> n mod 31 = i}"
  proof (rule bij_betwI [where g = of_nat])
    show "unat \<in> {b :: u8. \<exists>bs. randomChar [b] = Some (c, bs)} \<rightarrow> {n. n < 248 \<and> n mod 31 = i}"
      using i alphabet_distinct by (auto simp: alphabet_length nth_eq_iff_index_eq split: if_splits)
    show "of_nat \<in> {n. n < 248 \<and> n mod 31 = i} \<rightarrow> {b :: u8. \<exists>bs. randomChar [b] = Some (c, bs)}"
      using i by (auto simp: alphabet_length unat_of_nat)
  qed (auto simp: unat_of_nat)
  then show ?thesis using card_residues [OF i(1)] by (simp add: bij_betw_same_card)
qed

section \<open>The redemption transaction\<close>

lemma bump_simps [simp]:
  "v_id (bump v) = v_id v" "v_code (bump v) = v_code v" "v_type (bump v) = v_type v"
  "v_value (bump v) = v_value v" "v_campaign (bump v) = v_campaign v"
  "v_max_redemptions (bump v) = v_max_redemptions v" "v_status (bump v) = v_status v"
  "v_redemption_count (bump v) = v_redemption_count v + 1"
  by (simp_all add: bump_def)

lemma update_where_append1:
  "update_where P f (xs @ [x]) = update_where P f xs @ [if P x then f x else x]"
  by (simp add: update_where_def)

lemma update_where_none: "(\<And>x. x \<in> set xs \<Longrightarrow> \<not> P x) \<Longrightarrow> update_where P f xs = xs"
  by (induction xs) (auto simp: update_where_def)

lemma update_fresh_rowid:
  "update_where (\<lambda>d. key d = next_rowid (map key ds)) f ds = ds"
  using next_rowid_notin [of "map key ds"] by (intro update_where_none) force

definition voucher_entries :: "db \<Rightarrow> (string \<times> int) list" where
  "voucher_entries s = map (\<lambda>p. (n_eventKey p, n_days p)) (filter (\<lambda>p. n_rail p = Voucher) (payment_ledger s))"

definition redeem_row :: "nat \<Rightarrow> nat \<Rightarrow> string \<Rightarrow> nat option \<Rightarrow> seconds \<Rightarrow> redemption_row" where
  "redeem_row rid vid code pid now =
     \<lparr>d_id = rid, d_voucher_id = vid, d_payment_code = code, d_payment_id = pid, d_redeemed_at = now\<rparr>"

lemma redeemGrant_Inl: "fst (redeemGrant pz now v code s) = Inl e \<Longrightarrow> snd (redeemGrant pz now v code s) = s"
  by (auto simp: redeemGrant_def Let_def split: if_splits sum.splits option.splits prod.splits)

lemma redeem_key_eq:
  "voucher_event_key i c = voucher_event_key i' c' \<longleftrightarrow> i = i' \<and> c = c'"
proof
  assume "voucher_event_key i c = voucher_event_key i' c'"
  then have "show_nat i = show_nat i' \<and> c = c'"
    unfolding voucher_event_key_def
    by (rule append_sep_inject_left) (simp_all add: show_nat_no_sep is_digit_def)
  then show "i = i' \<and> c = c'" by (simp add: show_base_inject)
qed simp

text \<open>
  A redemption that succeeds: an open voucher, a device that has not used it, one more on
  its count, one redemption row, one payout.
\<close>

lemma redeemGrant_Inr:
  assumes ok: "redeemGrant pz now v code s = (Inr rid, s')"
    and fresh: "\<not> has_key payment_key (Voucher, voucher_event_key (v_id v) code) (db_payments s)"
  obtains x pid where
    "x \<in> set (db_vouchers s)" "v_id x = v_id v" "redeemable now x"
    "\<not> has_key redemption_key (v_id v, code) (db_redemptions s)"
    "v_campaign v \<noteq> [] \<Longrightarrow> 0 < v_per_code_limit v \<Longrightarrow>
       int (campaignRedemptions (v_campaign v) code s) < v_per_code_limit v"
    "rid = next_rowid (map d_id (db_redemptions s))"
    "insertIdempotent now (voucher_payment pz v code) s
       = (Inr (Some pid), s\<lparr>db_payments := db_payments s'\<rparr>)"
    "s' = s\<lparr>db_payments := db_payments s',
             db_vouchers := update_where (\<lambda>x. v_id x = v_id v \<and> redeemable now x) bump (db_vouchers s),
             db_redemptions := db_redemptions s @ [redeem_row rid (v_id v) code (Some pid) now]\<rparr>"
proof -
  have *: "insertIdempotent now q (s\<lparr>db_vouchers := a, db_redemptions := b\<rparr>)
      = (let r = insertIdempotent now q s in (fst r, (snd r)\<lparr>db_vouchers := a, db_redemptions := b\<rparr>))" for q a b
    by (simp add: insertIdempotent_def Let_def)
  have "\<exists>x pid. x \<in> set (db_vouchers s) \<and> v_id x = v_id v \<and> redeemable now x
     \<and> \<not> has_key redemption_key (v_id v, code) (db_redemptions s)
     \<and> (v_campaign v \<noteq> [] \<longrightarrow> 0 < v_per_code_limit v \<longrightarrow>
       int (campaignRedemptions (v_campaign v) code s) < v_per_code_limit v)
     \<and> rid = next_rowid (map d_id (db_redemptions s))
     \<and> insertIdempotent now (voucher_payment pz v code) s = (Inr (Some pid), s\<lparr>db_payments := db_payments s'\<rparr>)
     \<and> s' = s\<lparr>db_payments := db_payments s',
             db_vouchers := update_where (\<lambda>x. v_id x = v_id v \<and> redeemable now x) bump (db_vouchers s),
             db_redemptions := db_redemptions s @ [redeem_row rid (v_id v) code (Some pid) now]\<rparr>"
    using ok fresh
    by (auto simp: redeemGrant_def * Let_def insertIdempotent_def voucher_payment_def
        update_where_append1 update_fresh_rowid redeem_row_def split: if_splits)
  then show ?thesis using that by blast
qed

section \<open>Invariants of the store\<close>

definition redeemed :: "nat \<Rightarrow> db \<Rightarrow> nat" where
  "redeemed i s = length (filter (\<lambda>d. d_voucher_id d = i) (db_redemptions s))"

definition voucher_days :: "nat \<Rightarrow> db \<Rightarrow> int" where
  "voucher_days i s =
     sum_list (map snd (filter (\<lambda>(k, n). before CHR '':'' k = show_nat i) (voucher_entries s)))"

text \<open>
  The count of a voucher is the number of its redemptions; a grant voucher is never redeemed
  more often than it allows, and the days it has paid out are at most its value for each
  redemption; every payout of the voucher rail belongs to a redemption.
\<close>

definition voucher_ok :: "db \<Rightarrow> voucher_row \<Rightarrow> bool" where
  "voucher_ok s v \<longleftrightarrow>
     v_redemption_count v = int (redeemed (v_id v) s)
     \<and> (v_type v = Grant_days \<longrightarrow> v_redemption_count v \<le> v_max_redemptions v)
     \<and> voucher_days (v_id v) s \<le> v_value v * v_redemption_count v"

definition entries_backed :: "db \<Rightarrow> bool" where
  "entries_backed s \<longleftrightarrow>
     (\<forall>(k, n)\<in>set (voucher_entries s). \<exists>d\<in>set (db_redemptions s).
        k = voucher_event_key (d_voucher_id d) (d_payment_code d))"

definition voucher_inv :: "db \<Rightarrow> bool" where
  "voucher_inv s \<longleftrightarrow> db_wf s \<and> list_all (voucher_ok s) (db_vouchers s) \<and> entries_backed s"

lemma before_event_key: "before CHR '':'' (voucher_event_key i c) = show_nat i"
  unfolding voucher_event_key_def by (rule before_append) (simp add: show_nat_no_sep is_digit_def)

lemma unbacked_days:
  assumes "db_wf s" and "entries_backed s" and "\<not> has_key v_id i (db_vouchers s)"
  shows "voucher_days i s = 0" and "redeemed i s = 0"
proof -
  have none: "d_voucher_id d \<noteq> i" if "d \<in> set (db_redemptions s)" for d
    using assms(1,3) that by (auto simp: db_wf_def redemptions_wf_def)
  then show "redeemed i s = 0" by (simp add: redeemed_def filter_empty_conv)
  have "before CHR '':'' k \<noteq> show_nat i" if "(k, n) \<in> set (voucher_entries s)" for k n
    using assms(2) that none by (fastforce simp: entries_backed_def before_event_key show_base_inject)
  then have "filter (\<lambda>(k, n). before CHR '':'' k = show_nat i) (voucher_entries s) = []"
    by (auto simp: filter_empty_conv)
  then show "voucher_days i s = 0" by (simp add: voucher_days_def)
qed

text \<open>A redemption not yet made has no payout yet, so the queue never swallows one.\<close>

lemma unredeemed_unpaid:
  assumes "entries_backed s" and "\<not> has_key redemption_key (i, c) (db_redemptions s)"
  shows "\<not> has_key payment_key (Voucher, voucher_event_key i c) (db_payments s)"
proof
  assume "has_key payment_key (Voucher, voucher_event_key i c) (db_payments s)"
  then obtain p where "p \<in> set (db_payments s)" "p_rail p = Voucher" "p_event_key p = voucher_event_key i c"
    by (auto simp: has_key_def payment_key_def)
  then have "(voucher_event_key i c, p_days p) \<in> set (voucher_entries s)"
    by (auto simp: voucher_entries_def payment_ledger_def to_new_def image_iff intro!: bexI [of _ p])
  then show False using assms
    by (fastforce simp: entries_backed_def redeem_key_eq has_key_def redemption_key_def)
qed

lemma already_redeemed_fails:
  assumes "has_key redemption_key (v_id v, code) (db_redemptions s)"
  shows "\<exists>e. redeemGrant pz now v code s = (Inl e, s)"
  using assms by (auto simp: redeemGrant_def Let_def)

lemma redeem_success:
  assumes "voucher_inv s" and ok: "redeemGrant pz now v code s = (Inr rid, s')"
  obtains x pid where
    "x \<in> set (db_vouchers s)" "v_id x = v_id v" "redeemable now x"
    "\<not> has_key redemption_key (v_id v, code) (db_redemptions s)"
    "v_campaign v \<noteq> [] \<Longrightarrow> 0 < v_per_code_limit v \<Longrightarrow>
       int (campaignRedemptions (v_campaign v) code s) < v_per_code_limit v"
    "rid = next_rowid (map d_id (db_redemptions s))"
    "insertIdempotent now (voucher_payment pz v code) s
       = (Inr (Some pid), s\<lparr>db_payments := db_payments s'\<rparr>)"
    "s' = s\<lparr>db_payments := db_payments s',
             db_vouchers := update_where (\<lambda>x. v_id x = v_id v \<and> redeemable now x) bump (db_vouchers s),
             db_redemptions := db_redemptions s @ [redeem_row rid (v_id v) code (Some pid) now]\<rparr>"
proof -
  have "\<not> has_key redemption_key (v_id v, code) (db_redemptions s)"
    using ok already_redeemed_fails [of v code s pz now] by auto
  then have "\<not> has_key payment_key (Voucher, voucher_event_key (v_id v) code) (db_payments s)"
    using assms(1) by (intro unredeemed_unpaid) (auto simp: voucher_inv_def)
  from redeemGrant_Inr [OF ok this] show ?thesis using that by blast
qed

lemma vouchers_wf_bump:
  "vouchers_wf vs \<Longrightarrow> vouchers_wf (update_where P bump vs)"
  by (auto simp: vouchers_wf_def table_simps list_all_iff voucher_check_def bump_def
      elim!: in_update_whereE)

lemma redeem_wf:
  assumes "voucher_inv s" and "redeemGrant pz now v code s = (Inr rid, s')"
  shows "db_wf s'"
  using assms
proof (rule redeem_success)
  fix x pid
  assume x: "x \<in> set (db_vouchers s)" "v_id x = v_id v"
    and new: "\<not> has_key redemption_key (v_id v, code) (db_redemptions s)"
    and rid: "rid = next_rowid (map d_id (db_redemptions s))"
    and ins: "insertIdempotent now (voucher_payment pz v code) s = (Inr (Some pid), s\<lparr>db_payments := db_payments s'\<rparr>)"
    and s': "s' = s\<lparr>db_payments := db_payments s',
             db_vouchers := update_where (\<lambda>x. v_id x = v_id v \<and> redeemable now x) bump (db_vouchers s),
             db_redemptions := db_redemptions s @ [redeem_row rid (v_id v) code (Some pid) now]\<rparr>"
  have wf: "db_wf s" using assms(1) by (simp add: voucher_inv_def)
  then have wf1: "db_wf (s\<lparr>db_payments := db_payments s'\<rparr>)"
    using insertIdempotent_wf [of s now "voucher_payment pz v code"] ins by simp
  have pid: "has_key p_id pid (db_payments s')"
  proof -
    have "db_payments s' = db_payments (snd (insertIdempotent now (voucher_payment pz v code) s))"
      by (simp add: ins)
    then show ?thesis using ins
      by (auto simp: insertIdempotent_def Let_def has_key_def split: if_splits)
  qed
  let ?vs = "update_where (\<lambda>x. v_id x = v_id v \<and> redeemable now x) bump (db_vouchers s)"
  have xk: "has_key v_id (v_id v) (db_vouchers s)" using x by (force simp: has_key_def)
  have "redemptions_wf (db_vouchers s) (db_payments s') (db_redemptions s)"
    using wf1 by (simp add: db_wf_def)
  then have "redemptions_wf ?vs (db_payments s')
      (db_redemptions s @ [redeem_row rid (v_id v) code (Some pid) now])"
    using new pid xk rid
    by (simp add: redemptions_wf_def table_simps redeem_row_def redemption_key_def)
  moreover have "vouchers_wf ?vs" using wf by (simp add: db_wf_def vouchers_wf_bump)
  moreover have "payments_wf (db_payments s')" using wf1 by (simp add: db_wf_def)
  ultimately have "db_wf (s\<lparr>db_payments := db_payments s', db_vouchers := ?vs,
      db_redemptions := db_redemptions s @ [redeem_row rid (v_id v) code (Some pid) now]\<rparr>)"
    using wf by (simp add: db_wf_def)
  then show "db_wf s'" by (subst s')
qed

lemma redeemGrant_wf: "voucher_inv s \<Longrightarrow> db_wf (snd (redeemGrant pz now v code s))"
proof (cases "redeemGrant pz now v code s")
  case (Pair r s')
  assume inv: "voucher_inv s"
  show ?thesis
  proof (cases r)
    case (Inl e)
    with Pair inv redeemGrant_Inl [of pz now v code s e] show ?thesis by (simp add: voucher_inv_def)
  qed (use Pair inv redeem_wf in auto)
qed

subsection \<open>Each operation keeps them\<close>

lemma voucher_inv_empty: "voucher_inv empty_db"
proof -
  have "db_vouchers empty_db = []" "db_payments empty_db = []" by (simp_all add: empty_db_def)
  then show ?thesis
    by (simp add: voucher_inv_def db_wf_empty entries_backed_def voucher_entries_def payment_ledger_def)
qed

lemma entries_insert:
  assumes "insertIdempotent now q s = (Inr (Some i), s\<lparr>db_payments := ps\<rparr>)"
  shows "map to_new ps = payment_ledger s @ [q]"
proof -
  have "ps = db_payments (snd (insertIdempotent now q s))" by (simp add: assms)
  moreover have "new_ok q" "new_key q \<notin> new_key ` set (payment_ledger s)"
    using assms pq.refused [of q now s] pq.duplicate [of q s now] by fastforce+
  ultimately show ?thesis
    using pq.ledger_insert [of now q s] by (simp add: payment_ledger_def)
qed

lemma redeem_db:
  assumes "voucher_inv s" and "redeemGrant pz now v code s = (Inr rid, s')"
  shows "\<exists>x pid. x \<in> set (db_vouchers s) \<and> v_id x = v_id v \<and> redeemable now x
    \<and> insertIdempotent now (voucher_payment pz v code) s = (Inr (Some pid), s\<lparr>db_payments := db_payments s'\<rparr>)
    \<and> db_vouchers s' = update_where (\<lambda>x. v_id x = v_id v \<and> redeemable now x) bump (db_vouchers s)
    \<and> db_redemptions s' = db_redemptions s @ [redeem_row rid (v_id v) code (Some pid) now]"
  using assms
proof (rule redeem_success)
  fix x pid
  assume x: "x \<in> set (db_vouchers s)" "v_id x = v_id v" "redeemable now x"
    and ins: "insertIdempotent now (voucher_payment pz v code) s = (Inr (Some pid), s\<lparr>db_payments := db_payments s'\<rparr>)"
    and s': "s' = s\<lparr>db_payments := db_payments s',
             db_vouchers := update_where (\<lambda>x. v_id x = v_id v \<and> redeemable now x) bump (db_vouchers s),
             db_redemptions := db_redemptions s @ [redeem_row rid (v_id v) code (Some pid) now]\<rparr>"
  have "db_vouchers s' = update_where (\<lambda>x. v_id x = v_id v \<and> redeemable now x) bump (db_vouchers s)"
    by (subst s') simp
  moreover have "db_redemptions s' = db_redemptions s @ [redeem_row rid (v_id v) code (Some pid) now]"
    by (subst s') simp
  ultimately show ?thesis using x ins by blast
qed

lemma redeem_effect:
  assumes "voucher_inv s" and "redeemGrant pz now v code s = (Inr rid, s')"
  shows "voucher_entries s' = voucher_entries s @ [(voucher_event_key (v_id v) code, v_value v)]"
    and "redeemed i s' = redeemed i s + (if i = v_id v then 1 else 0)"
    and "voucher_days i s' = voucher_days i s + (if i = v_id v then v_value v else 0)"
    and "campaignRedemptions c code' s' = campaignRedemptions c code' s
       + (if code' = code \<and> (\<exists>x\<in>set (db_vouchers s). v_id x = v_id v \<and> v_campaign x = c) then 1 else 0)"
proof -
  obtain pid where
    ins: "insertIdempotent now (voucher_payment pz v code) s = (Inr (Some pid), s\<lparr>db_payments := db_payments s'\<rparr>)"
    and vs: "db_vouchers s' = update_where (\<lambda>x. v_id x = v_id v \<and> redeemable now x) bump (db_vouchers s)"
    and reds: "db_redemptions s' = db_redemptions s @ [redeem_row rid (v_id v) code (Some pid) now]"
    using redeem_db [OF assms] by blast
  show e: "voucher_entries s' = voucher_entries s @ [(voucher_event_key (v_id v) code, v_value v)]"
    using entries_insert [OF ins] by (simp add: voucher_entries_def payment_ledger_def voucher_payment_def)
  show "redeemed i s' = redeemed i s + (if i = v_id v then 1 else 0)"
    by (simp add: redeemed_def reds redeem_row_def)
  show "voucher_days i s' = voucher_days i s + (if i = v_id v then v_value v else 0)"
    by (auto simp: voucher_days_def e before_event_key show_base_inject)
  have "(\<exists>x\<in>set (db_vouchers s'). v_id x = k \<and> v_campaign x = c)
      \<longleftrightarrow> (\<exists>x\<in>set (db_vouchers s). v_id x = k \<and> v_campaign x = c)" for k
    using has_key_update [of "\<lambda>x. (v_id x, v_campaign x)" bump "(k, c)"
        "\<lambda>x. v_id x = v_id v \<and> redeemable now x" "db_vouchers s"]
    by (simp add: has_key_def vs)
  then show "campaignRedemptions c code' s' = campaignRedemptions c code' s
       + (if code' = code \<and> (\<exists>x\<in>set (db_vouchers s). v_id x = v_id v \<and> v_campaign x = c) then 1 else 0)"
    by (simp add: campaignRedemptions_def reds redeem_row_def)
qed

lemma redeem_inv:
  assumes inv: "voucher_inv s" and v: "v \<in> set (db_vouchers s)"
    and ok: "redeemGrant pz now v code s = (Inr rid, s')"
  shows "voucher_inv s'"
proof -
  note eff = redeem_effect [OF inv ok]
  have wf: "unique_key v_id (db_vouchers s)" using inv by (simp add: voucher_inv_def db_wf_def vouchers_wf_def)
  obtain x pid where
    x: "x \<in> set (db_vouchers s)" "v_id x = v_id v" "redeemable now x"
    and vs: "db_vouchers s' = update_where (\<lambda>x. v_id x = v_id v \<and> redeemable now x) bump (db_vouchers s)"
    and reds: "db_redemptions s' = db_redemptions s @ [redeem_row rid (v_id v) code (Some pid) now]"
    using redeem_db [OF inv ok] by blast
  have xv: "x = v" using unique_keyD [OF wf x(1) v x(2)] .
  have "voucher_ok s' y" if "y \<in> set (db_vouchers s')" for y
    using that unfolding vs
  proof (rule in_update_whereE)
    fix z assume z: "z \<in> set (db_vouchers s)" "v_id z = v_id v \<and> redeemable now z" "y = bump z"
    then have "z = v" using unique_keyD [OF wf z(1) v] by simp
    moreover have "voucher_ok s v" using inv v by (simp add: voucher_inv_def list_all_iff)
    ultimately show "voucher_ok s' y"
      using z x(3) xv by (auto simp: voucher_ok_def eff redeemable_def distrib_left)
  next
    assume y: "y \<in> set (db_vouchers s)" "\<not> (v_id y = v_id v \<and> redeemable now y)"
    then have "v_id y \<noteq> v_id v" using unique_keyD [OF wf y(1) v] x(3) xv by auto
    moreover have "voucher_ok s y" using inv y by (simp add: voucher_inv_def list_all_iff)
    ultimately show "voucher_ok s' y" by (auto simp: voucher_ok_def eff)
  qed
  moreover have "entries_backed s'"
    using inv by (fastforce simp: entries_backed_def eff reds voucher_inv_def redeem_row_def)
  ultimately show ?thesis
    using redeem_wf [OF inv ok] by (simp add: voucher_inv_def list_all_iff)
qed

lemma discount_inv:
  assumes inv: "voucher_inv s" and v: "v \<in> set (db_vouchers s)" "v_type v = Stripe_discount"
  shows "voucher_inv (snd (recordDiscountRedemption now (v_id v) code pid s))"
proof (cases "has_key redemption_key (v_id v, code) (db_redemptions s)
    \<or> (case pid of None \<Rightarrow> False | Some i \<Rightarrow> \<not> has_key p_id i (db_payments s))")
  case True
  then show ?thesis using inv by (auto simp: recordDiscountRedemption_def)
next
  case False
  let ?s = "snd (recordDiscountRedemption now (v_id v) code pid s)"
  let ?d = "redeem_row (next_rowid (map d_id (db_redemptions s))) (v_id v) code pid now"
  let ?vs = "update_where (\<lambda>x. v_id x = v_id v) bump (db_vouchers s)"
  have k: "has_key v_id (v_id v) (db_vouchers s)" using v by (auto simp: has_key_def)
  have s': "?s = s\<lparr>db_vouchers := ?vs, db_redemptions := db_redemptions s @ [?d]\<rparr>"
    using False k by (auto simp: recordDiscountRedemption_def redeem_row_def)
  have wf: "db_wf s" "unique_key v_id (db_vouchers s)" "list_all voucher_check (db_vouchers s)"
    using inv by (simp_all add: voucher_inv_def db_wf_def vouchers_wf_def)
  have e: "voucher_entries ?s = voucher_entries s"
    by (simp add: s' voucher_entries_def payment_ledger_def)
  then have dy: "voucher_days i ?s = voucher_days i s" for i by (simp add: voucher_days_def)
  have r: "redeemed i ?s = redeemed i s + (if i = v_id v then 1 else 0)" for i
    by (simp add: s' redeemed_def redeem_row_def)
  have "redemptions_wf ?vs (db_payments s) (db_redemptions s @ [?d])"
    using wf(1) False k
    by (auto simp: db_wf_def redemptions_wf_def table_simps redeem_row_def redemption_key_def)
  then have "db_wf ?s" using wf(1) by (simp add: s' db_wf_def vouchers_wf_bump)
  moreover have "voucher_ok ?s y" if "y \<in> set (db_vouchers ?s)" for y
  proof -
    from that have "y \<in> set ?vs" by (simp add: s')
    then show ?thesis
    proof (rule in_update_whereE)
      fix z assume z: "z \<in> set (db_vouchers s)" "v_id z = v_id v" "y = bump z"
      then have "z = v" using unique_keyD [OF wf(2) z(1) v(1)] by simp
      moreover have "voucher_ok s v" "voucher_check v"
        using inv v wf(3) by (simp_all add: voucher_inv_def list_all_iff)
      ultimately show "voucher_ok ?s y"
        using z v(2) by (auto simp: voucher_ok_def r dy voucher_check_def distrib_left)
    next
      assume "y \<in> set (db_vouchers s)" "v_id y \<noteq> v_id v"
      then show "voucher_ok ?s y" using inv by (auto simp: voucher_inv_def list_all_iff voucher_ok_def r dy)
    qed
  qed
  moreover have "entries_backed ?s"
    using inv unfolding voucher_inv_def entries_backed_def e by (auto simp: s')
  ultimately show ?thesis by (simp add: voucher_inv_def list_all_iff)
qed

lemma voucher_ok_cong:
  assumes "voucher_entries s' = voucher_entries s" and "db_redemptions s' = db_redemptions s"
  shows "voucher_ok s' v = voucher_ok s v"
  using assms by (simp add: voucher_ok_def redeemed_def voucher_days_def)

lemma entries_backed_cong:
  assumes "voucher_entries s' = voucher_entries s" and "db_redemptions s' = db_redemptions s"
  shows "entries_backed s' = entries_backed s"
  using assms by (simp add: entries_backed_def)

lemma voucher_ok_new:
  assumes "db_wf s" and "entries_backed s" and "\<not> has_key v_id (v_id w) (db_vouchers s)"
    and "v_redemption_count w = 0" and "voucher_check w"
  shows "voucher_ok s w"
  using assms unbacked_days [OF assms(1-3)] by (simp add: voucher_ok_def voucher_check_def)

lemma insert_vouchers_grow:
  "insert_vouchers now input coupon promos codes vs = Some vs' \<Longrightarrow> vouchers_wf vs \<Longrightarrow>
     vouchers_wf vs' \<and> (\<exists>ws. vs' = vs @ ws \<and> map v_code ws = codes
       \<and> (\<forall>w\<in>set ws. \<not> has_key v_id (v_id w) vs \<and> v_redemption_count w = 0 \<and> voucher_check w
            \<and> v_type w = cv_type input))"
proof (induction codes arbitrary: promos vs)
  case (Cons code codes)
  define v where "v = new_voucher now input (next_rowid (map v_id vs)) code coupon
    (case promos of [] \<Rightarrow> None | p # _ \<Rightarrow> Some p)"
  have v: "v_id v = next_rowid (map v_id vs)" "v_code v = code" "v_redemption_count v = 0"
    "v_type v = cv_type input"
    by (simp_all add: v_def new_voucher_def)
  have ok: "voucher_check v" "\<not> has_key v_code code vs"
    and rec: "insert_vouchers now input coupon (drop 1 promos) codes (vs @ [v]) = Some vs'"
    using Cons.prems(1) by (simp_all add: Let_def flip: v_def split: if_splits)
  have nk: "\<not> has_key v_id (v_id v) vs" by (simp only: v not_has_next_rowid not_False_eq_True)
  have "vouchers_wf (vs @ [v])"
    using Cons.prems(2) ok nk unfolding vouchers_wf_def unique_key_append1 v(2) by simp
  from Cons.IH [OF rec this] obtain ws where
    ws: "vouchers_wf vs'" "vs' = (vs @ [v]) @ ws" "map v_code ws = codes"
      "\<forall>w\<in>set ws. \<not> has_key v_id (v_id w) (vs @ [v]) \<and> v_redemption_count w = 0 \<and> voucher_check w
         \<and> v_type w = cv_type input"
    by (elim conjE exE) (rule that)
  from ws(4) v ok nk have "\<forall>w\<in>set (v # ws). \<not> has_key v_id (v_id w) vs \<and> v_redemption_count w = 0 \<and> voucher_check w
       \<and> v_type w = cv_type input"
    by (simp add: has_key_def)
  moreover have "vs' = vs @ (v # ws)" "map v_code (v # ws) = code # codes" using ws v by simp_all
  ultimately show ?case using ws(1) by (intro conjI exI [of _ "v # ws"])
qed simp

lemma createBatch_inv:
  assumes inv: "voucher_inv s"
  shows "voucher_inv (snd (createBatch now input codes ids s))"
proof (cases "insert_vouchers now input (map_option fst ids)
    (case ids of None \<Rightarrow> [] | Some (_, ps) \<Rightarrow> ps) codes (db_vouchers s)")
  case None
  then show ?thesis using inv by (simp add: createBatch_def)
next
  case (Some vs)
  have wf: "db_wf s" "vouchers_wf (db_vouchers s)" using inv by (simp_all add: voucher_inv_def db_wf_def)
  from insert_vouchers_grow [OF Some wf(2)] obtain ws where
    vs: "vouchers_wf vs" "vs = db_vouchers s @ ws" and
    ws: "\<And>w. w \<in> set ws \<Longrightarrow> \<not> has_key v_id (v_id w) (db_vouchers s) \<and> v_redemption_count w = 0 \<and> voucher_check w"
    by blast
  let ?s = "s\<lparr>db_vouchers := vs\<rparr>"
  have same: "voucher_entries ?s = voucher_entries s" "db_redemptions ?s = db_redemptions s"
    by (simp_all add: voucher_entries_def payment_ledger_def)
  have "redemptions_wf vs (db_payments s) (db_redemptions s)"
    using wf(1) by (auto simp: db_wf_def redemptions_wf_def vs(2) has_key_def)
  then have "db_wf ?s" using wf(1) vs(1) by (simp add: db_wf_def)
  moreover have "list_all (voucher_ok ?s) vs"
    using inv ws voucher_ok_new [OF wf(1)] unfolding voucher_ok_cong [OF same]
    by (auto simp: vs(2) voucher_inv_def list_all_iff)
  moreover have "entries_backed ?s"
    using inv by (simp add: voucher_inv_def entries_backed_cong [OF same])
  ultimately show ?thesis using Some by (simp add: createBatch_def voucher_inv_def)
qed

lemma revoke_inv:
  assumes inv: "voucher_inv s"
  shows "voucher_inv (snd (revoke i s))"
proof -
  let ?f = "\<lambda>v. v\<lparr>v_status := V_revoked\<rparr>"
  let ?vs = "update_where (\<lambda>v. v_id v = i) ?f (db_vouchers s)"
  let ?s = "s\<lparr>db_vouchers := ?vs\<rparr>"
  have same: "voucher_entries ?s = voucher_entries s" "db_redemptions ?s = db_redemptions s"
    by (simp_all add: voucher_entries_def payment_ledger_def)
  have wf: "db_wf s" using inv by (simp add: voucher_inv_def)
  have "vouchers_wf ?vs"
    using wf by (auto simp: db_wf_def vouchers_wf_def table_simps list_all_iff voucher_check_def
        elim!: in_update_whereE)
  then have "db_wf ?s" using wf by (auto simp: db_wf_def redemptions_wf_def table_simps)
  moreover have "list_all (voucher_ok ?s) ?vs"
    using inv unfolding voucher_ok_cong [OF same]
    by (auto simp: voucher_inv_def list_all_iff voucher_ok_def elim!: in_update_whereE)
  moreover have "entries_backed ?s"
    using inv by (simp add: voucher_inv_def entries_backed_cong [OF same])
  ultimately show ?thesis by (simp add: revoke_def Let_def voucher_inv_def)
qed

text \<open>A revoked voucher redeems nothing.\<close>

lemma revoked_refused:
  assumes "voucher_inv s" and "v \<in> set (db_vouchers s)"
  shows "\<exists>e. redeemGrant pz now v code (snd (revoke (v_id v) s)) = (Inl e, snd (revoke (v_id v) s))"
proof -
  have "\<not> (\<exists>x\<in>set (db_vouchers (snd (revoke (v_id v) s))). v_id x = v_id v \<and> redeemable now x)"
    by (auto simp: revoke_def Let_def redeemable_def elim!: in_update_whereE)
  then show ?thesis by (auto simp: redeemGrant_def)
qed

section \<open>The store over time\<close>

text \<open>
  The steps a running bridge takes that the store can see: the admin creates and revokes, a
  device redeems a grant voucher it found by code, a paid invoice records a discount, and
  everything else, which leaves vouchers, redemptions and the payouts of the voucher rail
  alone.
\<close>

inductive voucher_step :: "zats \<Rightarrow> db \<Rightarrow> db \<Rightarrow> bool" for pz where
  create: "voucher_step pz s (snd (createBatch now input codes ids s))"
| revoke: "voucher_step pz s (snd (revoke i s))"
| redeem: "byCanonicalCode c s = Some v \<Longrightarrow> v_type v = Grant_days \<Longrightarrow>
    voucher_step pz s (snd (redeemGrant pz now v code s))"
| discount: "voucher_by_id i s = Some v \<Longrightarrow> v_type v = Stripe_discount \<Longrightarrow>
    voucher_step pz s (snd (recordDiscountRedemption now i code pid s))"
| elsewhere: "db_wf s' \<Longrightarrow> db_vouchers s' = db_vouchers s \<Longrightarrow> db_redemptions s' = db_redemptions s \<Longrightarrow>
    voucher_entries s' = voucher_entries s \<Longrightarrow> voucher_step pz s s'"

lemma byCanonicalCode_Some: "byCanonicalCode c s = Some v \<Longrightarrow> v \<in> set (db_vouchers s) \<and> v_code v = c"
  by (auto simp: byCanonicalCode_def dest: find_key_Some)

lemma voucher_by_id_Some: "voucher_by_id i s = Some v \<Longrightarrow> v \<in> set (db_vouchers s) \<and> v_id v = i"
  by (auto simp: voucher_by_id_def dest: find_key_Some)

lemma redeemGrant_inv:
  assumes "voucher_inv s" and "v \<in> set (db_vouchers s)"
  shows "voucher_inv (snd (redeemGrant pz now v code s))"
proof (cases "redeemGrant pz now v code s")
  case (Pair r s')
  show ?thesis
  proof (cases r)
    case (Inl e)
    with Pair assms(1) redeemGrant_Inl [of pz now v code s e] show ?thesis by simp
  next
    case (Inr rid)
    with Pair redeem_inv [OF assms] show ?thesis by simp
  qed
qed

lemma voucher_step_inv:
  assumes "voucher_step pz s s'" and "voucher_inv s"
  shows "voucher_inv s'"
  using assms
proof (induction rule: voucher_step.induct)
  case (discount i s v now code pid)
  then have "v \<in> set (db_vouchers s)" "v_id v = i" using voucher_by_id_Some by auto
  with discount discount_inv [of s v now code pid] show ?case by simp
next
  case (elsewhere s' s)
  then show ?case
    using voucher_ok_cong [of s' s] entries_backed_cong [of s' s] by (simp add: voucher_inv_def list_all_iff)
qed (auto intro: createBatch_inv revoke_inv redeemGrant_inv dest: byCanonicalCode_Some)

lemma voucher_reachable_inv: "(voucher_step pz)\<^sup>*\<^sup>* empty_db s \<Longrightarrow> voucher_inv s"
  by (induction rule: rtranclp_induct) (auto intro: voucher_inv_empty voucher_step_inv)

end
