(* ===== verification/StripeRail.thy ===== *)
theory StripeRail
  imports AppleRail Vouchers
begin

text \<open>
  The Stripe rail (bridge/src/rails/stripe.ts). The payloads are records with the fields the
  rail reads, older and newer API shapes included; what Stripe answers to the rail's own
  requests is the record \<open>stripe_api\<close>, \<open>Inl\<close> where a request throws. A handler that waits for
  Stripe between a read and a write of the database takes, per wait, a function \<open>w\<close>: what the
  other requests served meanwhile make of the database. With \<open>w = id\<close> nothing intervenes.
\<close>

section \<open>Payloads\<close>

text \<open>\<open>string | { id: string }\<close>: a reference, or the expanded object it stands for.\<close>

datatype expandable = Ref string | Expanded string

fun ref_id :: "expandable \<Rightarrow> string" where
  "ref_id (Ref i) = i"
| "ref_id (Expanded i) = i"

record stripe_cfg =
  sc_priceMonthly :: string
  sc_priceAnnual :: string
  sc_successUrl :: string
  sc_cancelUrl :: string
  sc_portalReturnUrl :: string
  sc_testGrants :: bool

record stripe_meta =
  me_cvpn_code :: "string option"
  me_cvpn_plan :: "string option"

record invoice_line =
  il_amount :: int
  il_proration :: "bool option"
  il_subItemProration :: "bool option"
  il_invItemProration :: "bool option"
  il_pricingPrice :: "expandable option"
  il_price :: "expandable option"

record sub_item =
  si_priceId :: "string option"
  si_currentPeriodEnd :: "seconds option"

text \<open>A subscription that was asked for by its id; the id itself is that of the request.\<close>

record stripe_sub =
  ss_status :: string
  ss_livemode :: bool
  ss_item :: "sub_item option"
  ss_currentPeriodEnd :: "seconds option"
  ss_metadata :: stripe_meta

record checkout_session =
  cs_id :: string
  cs_url :: "string option"
  cs_metadata :: "stripe_meta option"
  cs_customer :: "expandable option"
  cs_subscription :: "expandable option"

text \<open>A discount of an invoice is an object, or an id that is not expanded.\<close>

datatype invoice_discount = Discount_id string | Discount "expandable option" "expandable option"

record invoice =
  iv_id :: "string option"
  iv_created :: seconds
  iv_livemode :: bool
  iv_amountPaid :: int
  iv_discountAmounts :: "int list"
  iv_customer :: "expandable option"
  iv_linesHasMore :: bool
  iv_lines :: "invoice_line list"
  iv_currency :: string
  iv_totalExcludingTax :: "int option"
  iv_subtotal :: "int option"
  iv_discounts :: "invoice_discount list"
  iv_parentSubscription :: "expandable option"
  iv_parentMetadata :: "stripe_meta option"
  iv_legacySubscription :: "expandable option"
  iv_legacyMetadata :: "stripe_meta option"

record charge =
  ch_invoice :: "expandable option"
  ch_paymentIntent :: "expandable option"

record stripe_api =
  ap_session :: "string \<Rightarrow> exn + checkout_session"
  ap_subscription :: "string \<Rightarrow> exn + stripe_sub"
  ap_invoice :: "string \<Rightarrow> exn + invoice"
  ap_lines :: "string \<Rightarrow> exn + invoice_line list"
  ap_discounts :: "string \<Rightarrow> exn + invoice_discount list"
  ap_price :: "string \<Rightarrow> exn + int option \<times> string"
  ap_intentInvoice :: "string \<Rightarrow> exn + expandable option"

section \<open>Reading payloads\<close>

definition customerId :: "expandable option \<Rightarrow> string option" where
  "customerId r = map_option ref_id r"

definition isProration :: "invoice_line \<Rightarrow> bool" where
  "isProration l \<longleftrightarrow> il_proration l = Some True \<or> il_subItemProration l = Some True
     \<or> il_invItemProration l = Some True"

definition priceIdOf :: "invoice_line \<Rightarrow> string option" where
  "priceIdOf l = map_option ref_id (case il_pricingPrice l of Some r \<Rightarrow> Some r | None \<Rightarrow> il_price l)"

definition periodEndOf :: "stripe_sub \<Rightarrow> seconds option" where
  "periodEndOf sub =
     (case Option.bind (ss_item sub) si_currentPeriodEnd of
        Some e \<Rightarrow> Some e
      | None \<Rightarrow> ss_currentPeriodEnd sub)"

definition planForPrice :: "stripe_cfg \<Rightarrow> string option \<Rightarrow> plan option" where
  "planForPrice cfg i =
     (if i = Some (sc_priceAnnual cfg) then Some Annual
      else if i = Some (sc_priceMonthly cfg) then Some Monthly
      else None)"

fun best_line :: "stripe_cfg \<Rightarrow> invoice_line list \<Rightarrow> (plan \<times> int) option \<Rightarrow> (plan \<times> int) option" where
  "best_line cfg [] best = best"
| "best_line cfg (l # ls) best =
     best_line cfg ls
       (case planForPrice cfg (priceIdOf l) of
          None \<Rightarrow> best
        | Some p \<Rightarrow>
            if il_amount l \<le> 0 then best
            else (case best of
                    None \<Rightarrow> Some (p, il_amount l)
                  | Some (p', a) \<Rightarrow> if a < il_amount l then Some (p, il_amount l) else best))"

definition planForLines :: "stripe_cfg \<Rightarrow> invoice_line list \<Rightarrow> plan option" where
  "planForLines cfg ls = map_option fst (best_line cfg ls None)"

definition plan_of_meta :: "string option \<Rightarrow> plan" where
  "plan_of_meta p = (if p = Some ''annual'' then Annual else Monthly)"

section \<open>Checkout, discounts and the portal\<close>

record checkout_request =
  cr_price :: string
  cr_code :: string
  cr_plan :: plan
  cr_promotion :: "string option"
  cr_successUrl :: string
  cr_cancelUrl :: string

definition checkout_params :: "stripe_cfg \<Rightarrow> string \<Rightarrow> plan \<Rightarrow> string option \<Rightarrow> checkout_request" where
  "checkout_params cfg code plan promoId =
     \<lparr>cr_price = (if plan = Annual then sc_priceAnnual cfg else sc_priceMonthly cfg),
      cr_code = code, cr_plan = plan,
      cr_promotion = (if truthy promoId then promoId else None),
      cr_successUrl = sc_successUrl cfg, cr_cancelUrl = sc_cancelUrl cfg\<rparr>"

definition createCheckout ::
  "stripe_cfg \<Rightarrow> (checkout_request \<Rightarrow> exn + checkout_session) \<Rightarrow> string \<Rightarrow> plan \<Rightarrow> string option \<Rightarrow>
   exn + string \<times> string" where
  "createCheckout cfg create code plan promoId =
     (case create (checkout_params cfg code plan promoId) of
        Inl e \<Rightarrow> Inl e
      | Inr session \<Rightarrow>
          if truthy (cs_url session) then Inr (the (cs_url session), cs_id session)
          else Inl (Js_error ''stripe: checkout session has no url''))"

fun create_promos ::
  "(string \<Rightarrow> exn + string) \<Rightarrow> string \<Rightarrow> int \<Rightarrow> seconds option \<Rightarrow> string list \<Rightarrow> db \<Rightarrow>
   (exn + string list) \<times> db" where
  "create_promos promo coupon maxR expiresAt [] s = (Inr [], s)"
| "create_promos promo coupon maxR expiresAt (c # cs) s =
     (let s' = add_call (Stripe_create_promo coupon c maxR expiresAt) s
      in case promo c of
           Inl e \<Rightarrow> (Inl e, s')
         | Inr i \<Rightarrow>
             (case create_promos promo coupon maxR expiresAt cs s' of
                (Inl e, s'') \<Rightarrow> (Inl e, s'')
              | (Inr is, s'') \<Rightarrow> (Inr (i # is), s'')))"

definition provisionDiscount ::
  "exn + string \<Rightarrow> (string \<Rightarrow> exn + string) \<Rightarrow> int \<Rightarrow> string \<Rightarrow> string list \<Rightarrow> int \<Rightarrow> seconds option \<Rightarrow> db \<Rightarrow>
   (exn + string \<times> string list) \<times> db" where
  "provisionDiscount coupon promo percentOff campaign codes maxRedemptions expiresAt s =
     (let name = (if campaign \<noteq> [] then campaign
                  else case codes of c # _ \<Rightarrow> c | [] \<Rightarrow> ''cvpn-discount'');
          s1 = add_call (Stripe_create_coupon percentOff name campaign) s
      in case coupon of
           Inl e \<Rightarrow> (Inl e, s1)
         | Inr cid \<Rightarrow>
             (case create_promos promo cid maxRedemptions
                     (case expiresAt of Some t \<Rightarrow> if t = 0 then None else Some t | None \<Rightarrow> None) codes s1 of
                (Inl e, s2) \<Rightarrow> (Inl e, s2)
              | (Inr is, s2) \<Rightarrow> (Inr (cid, is), s2)))"

definition createPortalSession ::
  "stripe_api \<Rightarrow> (string \<Rightarrow> exn + string) \<Rightarrow> string \<Rightarrow> string \<Rightarrow> exn + string option" where
  "createPortalSession api portal sessionId code =
     (case ap_session api sessionId of
        Inl e \<Rightarrow> Inr None
      | Inr session \<Rightarrow>
          if Option.bind (cs_metadata session) me_cvpn_code \<noteq> Some code then Inr None
          else if \<not> truthy (customerId (cs_customer session)) then Inr None
          else (case portal (the (customerId (cs_customer session))) of
                  Inl e \<Rightarrow> Inl e
                | Inr url \<Rightarrow> Inr (Some url)))"

section \<open>Moving a subscription\<close>

definition stripe_plan :: "stripe_cfg \<Rightarrow> stripe_sub \<Rightarrow> plan option \<Rightarrow> plan" where
  "stripe_plan cfg sub knownPlan =
     (case Option.bind (ss_item sub) (\<lambda>item. planForPrice cfg (si_priceId item)) of
        Some p \<Rightarrow> p
      | None \<Rightarrow> the_default Monthly knownPlan)"

definition stripe_transfer_days :: "stripe_cfg \<Rightarrow> millis \<Rightarrow> stripe_sub \<Rightarrow> plan \<Rightarrow> bool \<Rightarrow> int" where
  "stripe_transfer_days cfg ms sub plan grant =
     (case periodEndOf sub of
        None \<Rightarrow> 0
      | Some e \<Rightarrow>
          if grant \<and> (ss_livemode sub \<or> sc_testGrants cfg) then remainingDays (Some (e * 1000)) ms plan
          else 0)"

definition stripe_transferTo ::
  "rail_env \<Rightarrow> stripe_cfg \<Rightarrow> millis \<Rightarrow> string \<Rightarrow> string \<Rightarrow> stripe_sub \<Rightarrow> plan option \<Rightarrow> actor \<Rightarrow> bool \<Rightarrow> db \<Rightarrow>
   (exn + transfer_result) \<times> db" where
  "stripe_transferTo env cfg ms code subId sub knownPlan who grant s =
     (let plan = stripe_plan cfg sub knownPlan
      in move_sub env ms Stripe subId code plan who
           (transferEventKey subId (the_default 0 (periodEndOf sub) * 1000))
           (stripe_transfer_days cfg ms sub plan grant) s)"

text \<open>\<open>rewriteMetadata\<close>: its failure is swallowed, so only the attempt is recorded.\<close>

definition rewriteMetadata :: "string \<Rightarrow> string \<Rightarrow> db \<Rightarrow> db" where
  "rewriteMetadata subId code = add_call (Stripe_update_metadata subId code)"

definition deactivatePromo :: "string \<Rightarrow> db \<Rightarrow> db" where
  "deactivatePromo promoId = add_call (Stripe_deactivate_promo promoId)"

definition transferSubscription ::
  "rail_env \<Rightarrow> stripe_cfg \<Rightarrow> stripe_api \<Rightarrow> millis \<Rightarrow> string \<Rightarrow> string \<Rightarrow> db \<Rightarrow>
   (exn + claim_outcome) \<times> db" where
  "transferSubscription env cfg api ms sessionId code s =
     (case ap_session api sessionId of
        Inl e \<Rightarrow> (Inr (claim_refused ''no_subscription'' None), s)
      | Inr session \<Rightarrow>
          if \<not> truthy (map_option ref_id (cs_subscription session))
          then (Inr (claim_refused ''no_subscription'' None), s)
          else
            (let subId = the (map_option ref_id (cs_subscription session))
             in case ap_subscription api subId of
                  Inl e \<Rightarrow> (Inr (claim_refused ''no_subscription'' None), s)
                | Inr sub \<Rightarrow>
                    (let known = get_sub Stripe subId s;
                         owner = (case known of Some k \<Rightarrow> Some (s_payment_code k)
                                  | None \<Rightarrow> me_cvpn_code (ss_metadata sub))
                     in if ss_status sub \<noteq> ''active'' \<or> map_option s_status known = Some Refunded
                        then (Inr (claim_refused ''no_subscription'' None), s)
                        else if owner = Some code then (Inr (claim_refused ''already_bound'' None), s)
                        else case transferAvailableAt (Option.bind known s_transferred_at) (now_s ms) of
                               Some t \<Rightarrow> (Inr (claim_refused ''transfer_too_soon'' (Some t)), s)
                             | None \<Rightarrow>
                                 (case stripe_transferTo env cfg ms code subId sub
                                         (map_option s_plan known) User True s of
                                    (Inl e, s') \<Rightarrow> (Inl e, s')
                                  | (Inr m, s') \<Rightarrow>
                                      (Inr (claim_moved (tr_grant m) (tr_days m) (\<not> ss_livemode sub)),
                                       rewriteMetadata subId code s')))))"

text \<open>The binding is read before Stripe is asked: \<open>w\<close> is what happens meanwhile.\<close>

definition stripe_adminRebind ::
  "rail_env \<Rightarrow> stripe_cfg \<Rightarrow> stripe_api \<Rightarrow> millis \<Rightarrow> (db \<Rightarrow> db) \<Rightarrow> string \<Rightarrow> string \<Rightarrow> bool \<Rightarrow> db \<Rightarrow>
   (exn + rebind_outcome) \<times> db" where
  "stripe_adminRebind env cfg api ms w subId code grantRemaining s =
     (case get_sub Stripe subId s of
        None \<Rightarrow> (Inr (rebind_refused ''not_found''), s)
      | Some known \<Rightarrow>
          (case ap_subscription api subId of
             Inl e \<Rightarrow> (Inl e, w s)
           | Inr sub \<Rightarrow>
               if grantRemaining \<and> (ss_status sub \<noteq> ''active'' \<or> s_status known = Refunded)
               then (Inr (rebind_refused ''not_active''), w s)
               else (case stripe_transferTo env cfg ms code subId sub (Some (s_plan known)) Admin
                             grantRemaining (w s) of
                       (Inl e, s') \<Rightarrow> (Inl e, s')
                     | (Inr m, s') \<Rightarrow>
                         (Inr (rebind_done (tr_previous m) (tr_days m) (tr_grant m) (Some (\<not> ss_livemode sub))),
                          rewriteMetadata subId code s'))))"

section \<open>Webhooks: binding\<close>

definition onCheckoutCompleted :: "millis \<Rightarrow> checkout_session \<Rightarrow> db \<Rightarrow> string \<times> db" where
  "onCheckoutCompleted ms session s =
     (let code = Option.bind (cs_metadata session) me_cvpn_code;
          plan = plan_of_meta (Option.bind (cs_metadata session) me_cvpn_plan);
          subId = map_option ref_id (cs_subscription session)
      in if \<not> truthy code \<or> \<not> truthy subId then (''checkout-completed:missing-binding'', s)
         else
           (let bound = the_default (the code) (map_option s_payment_code (get_sub Stripe (the subId) s))
            in (''checkout-completed:bound'',
                upsert (now_s ms) Stripe (the subId) bound plan (customerId (cs_customer session)) s)))"

text \<open>What an invoice, or failing it the subscription, says of code and plan.\<close>

definition invoice_meta :: "stripe_api \<Rightarrow> invoice \<Rightarrow> string \<Rightarrow> exn + string option \<times> string option" where
  "invoice_meta api iv subId =
     (let meta = (case iv_parentMetadata iv of Some x \<Rightarrow> Some x | None \<Rightarrow> iv_legacyMetadata iv)
      in if truthy (Option.bind meta me_cvpn_code)
         then Inr (Option.bind meta me_cvpn_code, Option.bind meta me_cvpn_plan)
         else case ap_subscription api subId of
                Inl e \<Rightarrow> Inl e
              | Inr sub \<Rightarrow> Inr (me_cvpn_code (ss_metadata sub), me_cvpn_plan (ss_metadata sub)))"

definition invoice_subId :: "invoice \<Rightarrow> string option" where
  "invoice_subId iv = map_option ref_id
     (case iv_parentSubscription iv of Some r \<Rightarrow> Some r | None \<Rightarrow> iv_legacySubscription iv)"

definition resolveInvoiceBinding ::
  "stripe_api \<Rightarrow> invoice \<Rightarrow> db \<Rightarrow> exn + (string \<times> string \<times> plan) option" where
  "resolveInvoiceBinding api iv s =
     (if \<not> truthy (invoice_subId iv) then Inr None
      else
        (let subId = the (invoice_subId iv)
         in case invoice_meta api iv subId of
              Inl e \<Rightarrow> Inl e
            | Inr (metaCode, planRaw) \<Rightarrow>
                (let code = (case get_sub Stripe subId s of
                               Some k \<Rightarrow> Some (s_payment_code k) | None \<Rightarrow> metaCode)
                 in if \<not> truthy code then Inr None
                    else Inr (Some (subId, the code, plan_of_meta planRaw)))))"

definition invoiceLines :: "stripe_api \<Rightarrow> invoice \<Rightarrow> exn + invoice_line list" where
  "invoiceLines api iv =
     (if \<not> iv_linesHasMore iv \<or> \<not> truthy (iv_id iv) then Inr (iv_lines iv)
      else ap_lines api (the (iv_id iv)))"

section \<open>Webhooks: sizing\<close>

type_synonym list_cents = "string \<Rightarrow> int option"

definition plan_slug :: "plan \<Rightarrow> string" where
  "plan_slug p = (case p of Annual \<Rightarrow> ''annual'' | Monthly \<Rightarrow> ''monthly'')"

definition planListCents ::
  "stripe_cfg \<Rightarrow> stripe_api \<Rightarrow> plan \<Rightarrow> string \<Rightarrow> list_cents \<Rightarrow> (exn + int) \<times> list_cents" where
  "planListCents cfg api plan currency cache =
     (let key = plan_slug plan @ CHR '':'' # currency
      in case cache key of
           Some c \<Rightarrow> (Inr c, cache)
         | None \<Rightarrow>
             (case ap_price api (if plan = Annual then sc_priceAnnual cfg else sc_priceMonthly cfg) of
                Inl e \<Rightarrow> (Inl e, cache)
              | Inr (amount, cur) \<Rightarrow>
                  (case amount of
                     None \<Rightarrow> (Inl (Js_error ''stripe: price has no positive unit_amount''), cache)
                   | Some a \<Rightarrow>
                       if a \<le> 0 then (Inl (Js_error ''stripe: price has no positive unit_amount''), cache)
                       else if cur \<noteq> currency
                       then (Inl (Js_error ''stripe: price and invoice currencies differ''), cache)
                       else (Inr a, cache(key \<mapsto> a)))))"

definition prorated_days :: "plan \<Rightarrow> int \<Rightarrow> int \<Rightarrow> int" where
  "prorated_days plan net listCents =
     (let days = math_round (of_int (PLAN_DAYS plan * net) / of_int listCents)
      in max 0 (min days (PLAN_DAYS plan)))"

definition invoice_net :: "invoice \<Rightarrow> int" where
  "invoice_net iv = (case iv_totalExcludingTax iv of Some n \<Rightarrow> n | None \<Rightarrow> the_default 0 (iv_subtotal iv))"

definition daysForInvoice ::
  "stripe_cfg \<Rightarrow> stripe_api \<Rightarrow> invoice \<Rightarrow> invoice_line list \<Rightarrow> plan \<Rightarrow> list_cents \<Rightarrow>
   (exn + int) \<times> list_cents" where
  "daysForInvoice cfg api iv ls plan cache =
     (if \<not> list_ex isProration ls then (Inr (PLAN_DAYS plan), cache)
      else case planListCents cfg api plan (iv_currency iv) cache of
             (Inl e, cache') \<Rightarrow> (Inl e, cache')
           | (Inr listCents, cache') \<Rightarrow> (Inr (prorated_days plan (invoice_net iv) listCents), cache'))"

section \<open>Webhooks: attribution of a discount\<close>

definition set_add :: "string option \<Rightarrow> string list \<Rightarrow> string list" where
  "set_add x xs = (if truthy x \<and> the x \<notin> set xs then xs @ [the x] else xs)"

fun collect_discount :: "invoice_discount \<Rightarrow> string list \<times> string list \<Rightarrow> string list \<times> string list" where
  "collect_discount (Discount_id i) acc = acc"
| "collect_discount (Discount promo coupon) (promoIds, couponIds) =
     (set_add (map_option ref_id promo) promoIds, set_add (map_option ref_id coupon) couponIds)"

fun first_voucher :: "(string \<Rightarrow> voucher_row option) \<Rightarrow> string list \<Rightarrow> voucher_row option" where
  "first_voucher look [] = None"
| "first_voucher look (i # is) = (case look i of Some v \<Rightarrow> Some v | None \<Rightarrow> first_voucher look is)"

definition discount_ids :: "stripe_api \<Rightarrow> invoice \<Rightarrow> exn + string list \<times> string list" where
  "discount_ids api iv =
     (let ids = fold collect_discount (iv_discounts iv) ([], [])
      in if ids = ([], []) \<and> truthy (iv_id iv)
         then (case ap_discounts api (the (iv_id iv)) of
                 Inl e \<Rightarrow> Inl e
               | Inr ds \<Rightarrow> Inr (fold collect_discount ds ids))
         else Inr ids)"

definition trackDiscountRedemption ::
  "stripe_api \<Rightarrow> millis \<Rightarrow> invoice \<Rightarrow> string \<Rightarrow> db \<Rightarrow> string \<times> db" where
  "trackDiscountRedemption api ms iv code s =
     (case discount_ids api iv of
        Inl e \<Rightarrow> (''discount:error'', s)
      | Inr (promoIds, couponIds) \<Rightarrow>
          (let voucher = (case first_voucher (\<lambda>p. byStripePromoId p s) promoIds of
                            Some v \<Rightarrow> Some v
                          | None \<Rightarrow> first_voucher (\<lambda>c. byStripeCouponId c s) couponIds)
           in case voucher of
                None \<Rightarrow> (''discount:unknown-coupon'', s)
              | Some v \<Rightarrow>
                  (case recordDiscountRedemption (now_s ms) (v_id v) code None s of
                     (Inl e, s') \<Rightarrow> (''discount:error'', s')
                   | (Inr _, s') \<Rightarrow> (''discount:tracked'', s'))))"

section \<open>Webhooks: settling an invoice\<close>

definition has_discount :: "invoice \<Rightarrow> bool" where
  "has_discount iv \<longleftrightarrow> list_ex (\<lambda>a. 0 < a) (iv_discountAmounts iv)"

definition invoice_key :: "invoice \<Rightarrow> string \<Rightarrow> string" where
  "invoice_key iv subId =
     the_default (''invoice-missing-'' @ subId @ CHR ''-'' # show_int (iv_created iv)) (iv_id iv)"

text \<open>From the binding on, once its lines are known.\<close>

definition invoice_bind ::
  "stripe_cfg \<Rightarrow> millis \<Rightarrow> invoice \<Rightarrow> invoice_line list \<Rightarrow> string \<times> string \<times> plan \<Rightarrow> db \<Rightarrow> plan \<times> db" where
  "invoice_bind cfg ms iv ls bound s =
     (let (subId, code, metaPlan) = bound;
          plan = the_default metaPlan (planForLines cfg ls)
      in (plan, upsert (now_s ms) Stripe subId code plan (customerId (iv_customer iv)) s))"

text \<open>The grant, and the attribution of a discount when it was queued.\<close>

definition invoice_grant ::
  "rail_env \<Rightarrow> stripe_api \<Rightarrow> millis \<Rightarrow> (db \<Rightarrow> db) \<Rightarrow> invoice \<Rightarrow> string \<Rightarrow> string \<Rightarrow> int \<Rightarrow> db \<Rightarrow>
   (exn + string) \<times> db" where
  "invoice_grant env api ms w iv subId code days s =
     (if days < 1 then (Inr ''invoice:no-days'', s)
      else case rail_grant env ms Stripe (invoice_key iv subId) subId code days s of
             (Inl e, s') \<Rightarrow> (Inl e, s')
           | (Inr r, s') \<Rightarrow>
               (Inr (''invoice:'' @ grant_slug (Some r)),
                if has_discount iv \<and> r = Queued
                then snd (trackDiscountRedemption api ms iv code (w s')) else s'))"

text \<open>
  The handler. It waits for Stripe after the binding is resolved (\<open>w1\<close>), while the invoice is
  sized (\<open>w2\<close>) and before a discount is attributed (\<open>w3\<close>).
\<close>

definition onInvoicePaid ::
  "rail_env \<Rightarrow> stripe_cfg \<Rightarrow> stripe_api \<Rightarrow> millis \<Rightarrow> (db \<Rightarrow> db) \<Rightarrow> (db \<Rightarrow> db) \<Rightarrow> (db \<Rightarrow> db) \<Rightarrow>
   invoice \<Rightarrow> list_cents \<Rightarrow> db \<Rightarrow> (exn + string) \<times> list_cents \<times> db" where
  "onInvoicePaid env cfg api ms w1 w2 w3 iv cache s =
     (if iv_amountPaid iv = 0 \<and> \<not> has_discount iv then (Inr ''invoice:zero-amount'', cache, s)
      else case resolveInvoiceBinding api iv s of
        Inl e \<Rightarrow> (Inl e, cache, s)
      | Inr None \<Rightarrow> (Inr ''invoice:no-subscription-binding'', cache, s)
      | Inr (Some (subId, code, metaPlan)) \<Rightarrow>
          (case invoiceLines api iv of
             Inl e \<Rightarrow> (Inl e, cache, w1 s)
           | Inr ls \<Rightarrow>
               (let (plan, s1) = invoice_bind cfg ms iv ls (subId, code, metaPlan) (w1 s)
                in if \<not> iv_livemode iv \<and> \<not> sc_testGrants cfg
                   then (Inr ''invoice:test-mode'', cache, s1)
                   else case daysForInvoice cfg api iv ls plan cache of
                     (Inl e, cache') \<Rightarrow> (Inl e, cache', w2 s1)
                   | (Inr days, cache') \<Rightarrow>
                       (let (r, s2) = invoice_grant env api ms w3 iv subId code days (w2 s1)
                        in (r, cache', s2)))))"

section \<open>Webhooks: refunds and cancellations\<close>

definition invoiceIdOfCharge :: "stripe_api \<Rightarrow> charge \<Rightarrow> exn + string option" where
  "invoiceIdOfCharge api ch =
     (let direct = map_option ref_id (ch_invoice ch);
          pi = map_option ref_id (ch_paymentIntent ch)
      in if truthy direct then Inr direct
         else if \<not> truthy pi then Inr None
         else case ap_intentInvoice api (the pi) of
                Inl e \<Rightarrow> Inl e
              | Inr r \<Rightarrow> Inr (map_option ref_id r))"

definition onChargeRefunded :: "stripe_api \<Rightarrow> millis \<Rightarrow> charge \<Rightarrow> db \<Rightarrow> string \<times> db" where
  "onChargeRefunded api ms ch s =
     (case invoiceIdOfCharge api ch of
        Inl e \<Rightarrow> (''refund:error'', s)
      | Inr invoiceId \<Rightarrow>
          if \<not> truthy invoiceId then (''refund:no-invoice'', s)
          else (case ap_invoice api (the invoiceId) of
            Inl e \<Rightarrow> (''refund:error'', s)
          | Inr iv \<Rightarrow>
              (case resolveInvoiceBinding api iv s of
                 Inl e \<Rightarrow> (''refund:error'', s)
               | Inr None \<Rightarrow> (''refund:no-subscription'', s)
               | Inr (Some (subId, _, _)) \<Rightarrow>
                   (''refund:handled'',
                    add_call (Stripe_cancel subId) (setStatus (now_s ms) Stripe subId Refunded s)))))"

definition onSubscriptionDeleted :: "millis \<Rightarrow> string \<Rightarrow> db \<Rightarrow> string \<times> db" where
  "onSubscriptionDeleted ms subId s =
     (''subscription:canceled'',
      if map_option s_status (get_sub Stripe subId s) = Some Active
      then setStatus (now_s ms) Stripe subId Canceled s else s)"

datatype stripe_event =
    Checkout_completed checkout_session
  | Invoice_paid invoice
  | Charge_refunded charge
  | Subscription_deleted string
  | Other_event string

definition handleWebhook ::
  "rail_env \<Rightarrow> stripe_cfg \<Rightarrow> stripe_api \<Rightarrow> millis \<Rightarrow> (db \<Rightarrow> db) \<Rightarrow> (db \<Rightarrow> db) \<Rightarrow> (db \<Rightarrow> db) \<Rightarrow>
   exn + stripe_event \<Rightarrow> list_cents \<Rightarrow> db \<Rightarrow> (exn + string) \<times> list_cents \<times> db" where
  "handleWebhook env cfg api ms w1 w2 w3 event cache s =
     (case event of
        Inl e \<Rightarrow> (Inl e, cache, s)
      | Inr (Checkout_completed session) \<Rightarrow>
          (let (r, s') = onCheckoutCompleted ms session s in (Inr r, cache, s'))
      | Inr (Invoice_paid iv) \<Rightarrow> onInvoicePaid env cfg api ms w1 w2 w3 iv cache s
      | Inr (Charge_refunded ch) \<Rightarrow> (let (r, s') = onChargeRefunded api ms ch s in (Inr r, cache, s'))
      | Inr (Subscription_deleted i) \<Rightarrow> (let (r, s') = onSubscriptionDeleted ms i s in (Inr r, cache, s'))
      | Inr (Other_event t) \<Rightarrow> (Inr (''ignored:'' @ t), cache, s))"

section \<open>Sizing an invoice\<close>

lemma prorated_days_bounds: "0 \<le> prorated_days p net c" "prorated_days p net c \<le> PLAN_DAYS p"
  using PLAN_DAYS_bounds [of p] by (auto simp: prorated_days_def Let_def)

lemma prorated_days_full: "0 < c \<Longrightarrow> c \<le> net \<Longrightarrow> prorated_days p net c = PLAN_DAYS p"
proof -
  assume "0 < c" "c \<le> net"
  then have "PLAN_DAYS p * c \<le> PLAN_DAYS p * net"
    using PLAN_DAYS_bounds(1) [of p] by (intro mult_left_mono) auto
  then have "of_int (PLAN_DAYS p) \<le> (of_int (PLAN_DAYS p * net) / of_int c :: rat)"
    using \<open>0 < c\<close> by (simp add: pos_le_divide_eq flip: of_int_mult)
  then have "PLAN_DAYS p \<le> math_round (of_int (PLAN_DAYS p * net) / of_int c)"
    by (simp add: math_round_def le_floor_iff)
  then show ?thesis using PLAN_DAYS_bounds(1) [of p] by (simp add: prorated_days_def Let_def)
qed

lemma prorated_days_credit: "0 < c \<Longrightarrow> net \<le> 0 \<Longrightarrow> prorated_days p net c = 0"
proof -
  assume "0 < c" "net \<le> 0"
  then have "(of_int (PLAN_DAYS p * net) / of_int c :: rat) \<le> 0"
    using PLAN_DAYS_bounds(1) [of p] by (auto simp: divide_nonpos_pos mult_nonneg_nonpos)
  then have "math_round (of_int (PLAN_DAYS p * net) / of_int c) \<le> 0"
    by (simp add: math_round_def floor_le_iff)
  then show ?thesis using PLAN_DAYS_bounds(1) [of p] by (simp add: prorated_days_def Let_def)
qed

text \<open>What is granted is worth the money, to within half a day either way.\<close>

lemma prorated_days_fair:
  assumes "0 < c" and "0 \<le> net" and "net \<le> c"
  shows "2 * PLAN_DAYS p * net - c < 2 * prorated_days p net c * c \<and>
    2 * prorated_days p net c * c \<le> 2 * PLAN_DAYS p * net + c"
proof -
  let ?x = "of_int (PLAN_DAYS p * net) / of_int c :: rat"
  let ?r = "math_round ?x"
  have P: "30 \<le> PLAN_DAYS p" by (rule PLAN_DAYS_bounds)
  have "0 \<le> ?x" using assms P by simp
  then have "0 \<le> ?r" by (simp add: math_round_def le_floor_iff)
  have "?x \<le> of_int (PLAN_DAYS p)"
    using assms P by (simp add: pos_divide_le_eq mult_left_mono flip: of_int_mult)
  then have "?r \<le> PLAN_DAYS p" by (simp add: math_round_def floor_le_iff)
  with \<open>0 \<le> ?r\<close> have e: "prorated_days p net c = ?r" by (simp add: prorated_days_def Let_def)
  have "of_int ?r \<le> ?x + 1 / 2" "?x + 1 / 2 < of_int ?r + 1"
    unfolding math_round_def by linarith+
  then have "of_int (2 * ?r * c) \<le> (of_int (2 * PLAN_DAYS p * net + c) :: rat)"
    "(of_int (2 * PLAN_DAYS p * net - c) :: rat) < of_int (2 * ?r * c)"
    using assms(1) by (simp_all add: field_simps)
  then show ?thesis unfolding e of_int_le_iff of_int_less_iff by simp
qed

section \<open>Frames\<close>

lemma stripe_calls_frame [simp]:
  "moved_at r e (rewriteMetadata i c s) = moved_at r e s"
  "owner_of r e (rewriteMetadata i c s) = owner_of r e s"
  "db_transfers (rewriteMetadata i c s) = db_transfers s"
  "payment_ledger (rewriteMetadata i c s) = payment_ledger s"
  by (simp_all add: rewriteMetadata_def)

lemma recordDiscount_frame [simp]:
  "db_subs (snd (recordDiscountRedemption now i code pid s)) = db_subs s"
  "db_transfers (snd (recordDiscountRedemption now i code pid s)) = db_transfers s"
  "db_payments (snd (recordDiscountRedemption now i code pid s)) = db_payments s"
  by (simp_all add: recordDiscountRedemption_def)

text \<open>The voucher a discount is attributed to, if the invoice names one of ours.\<close>

definition discount_voucher :: "stripe_api \<Rightarrow> invoice \<Rightarrow> db \<Rightarrow> voucher_row option" where
  "discount_voucher api iv s =
     (case discount_ids api iv of
        Inl e \<Rightarrow> None
      | Inr (promoIds, couponIds) \<Rightarrow>
          (case first_voucher (\<lambda>p. byStripePromoId p s) promoIds of
             Some v \<Rightarrow> Some v
           | None \<Rightarrow> first_voucher (\<lambda>c. byStripeCouponId c s) couponIds))"

lemma track_snd:
  "snd (trackDiscountRedemption api ms iv code s)
    = (case discount_voucher api iv s of
         None \<Rightarrow> s
       | Some v \<Rightarrow> snd (recordDiscountRedemption (now_s ms) (v_id v) code None s))"
proof (cases "discount_ids api iv")
  case (Inr ids)
  obtain ps cs where ids: "ids = (ps, cs)" by (cases ids)
  have d: "discount_voucher api iv s = (case first_voucher (\<lambda>p. byStripePromoId p s) ps of
      Some v \<Rightarrow> Some v | None \<Rightarrow> first_voucher (\<lambda>c. byStripeCouponId c s) cs)"
    by (simp add: discount_voucher_def Inr ids)
  show ?thesis
  proof (cases "discount_voucher api iv s")
    case None
    then show ?thesis by (simp add: trackDiscountRedemption_def Let_def Inr ids flip: d)
  next
    case (Some v)
    obtain x s' where r: "recordDiscountRedemption (now_s ms) (v_id v) code None s = (x, s')"
      by (cases "recordDiscountRedemption (now_s ms) (v_id v) code None s")
    show ?thesis
      by (cases x) (simp_all add: trackDiscountRedemption_def Let_def Inr ids r Some flip: d)
  qed
qed (simp add: trackDiscountRedemption_def discount_voucher_def)

lemma track_frame [simp]:
  "db_subs (snd (trackDiscountRedemption api ms iv code s)) = db_subs s"
  "db_transfers (snd (trackDiscountRedemption api ms iv code s)) = db_transfers s"
  "db_payments (snd (trackDiscountRedemption api ms iv code s)) = db_payments s"
  by (simp_all add: track_snd split: option.split)

lemma moves_ok_subs_same: "db_subs s' = db_subs s \<Longrightarrow> db_transfers s' = db_transfers s \<Longrightarrow> moves_ok s s'"
  by (rule moves_ok_same) (simp_all add: moved_at_def get_sub_def)

lemma invoice_grant_frame [simp]:
  "db_subs (snd (invoice_grant env api ms id iv subId code days s)) = db_subs s"
  "db_transfers (snd (invoice_grant env api ms id iv subId code days s)) = db_transfers s"
proof -
  obtain r s1 where r: "rail_grant env ms Stripe (invoice_key iv subId) subId code days s = (r, s1)"
    by (cases "rail_grant env ms Stripe (invoice_key iv subId) subId code days s")
  then have "db_subs s1 = db_subs s" "db_transfers s1 = db_transfers s"
    using rail_grant_simps(4,5) [of env ms Stripe "invoice_key iv subId" subId code days s] by simp_all
  then show "db_subs (snd (invoice_grant env api ms id iv subId code days s)) = db_subs s"
    "db_transfers (snd (invoice_grant env api ms id iv subId code days s)) = db_transfers s"
    by (simp_all add: invoice_grant_def r split: sum.split)
qed

lemma invoice_bind_simps [simp]:
  "owner_of r e (snd (invoice_bind cfg ms iv ls (subId, code, p) s))
     = (if (r, e) = (Stripe, subId) then Some code else owner_of r e s)"
  "moved_at r e (snd (invoice_bind cfg ms iv ls (subId, code, p) s)) = moved_at r e s"
  "db_transfers (snd (invoice_bind cfg ms iv ls (subId, code, p) s)) = db_transfers s"
  "payment_ledger (snd (invoice_bind cfg ms iv ls (subId, code, p) s)) = payment_ledger s"
  by (simp_all add: invoice_bind_def upsert_frame Let_def)

section \<open>Moves\<close>

lemma stripe_transferTo_moves_ok:
  assumes "who = User \<Longrightarrow> transferAvailableAt (moved_at Stripe subId s) (now_s ms) = None"
  shows "moves_ok s (snd (stripe_transferTo env cfg ms code subId sub kp who grant s))"
  unfolding stripe_transferTo_def Let_def using assms by (rule move_sub_moves_ok)

lemma stripe_transferTo_ok:
  assumes "stripe_transferTo env cfg ms code subId sub kp who grant s = (Inr m, s')"
  shows "owner_of r e s' = (if (r, e) = (Stripe, subId) then Some code else owner_of r e s)"
    and "moved_at Stripe subId s' = Some (now_s ms)"
    and "tr_previous m = owner_of Stripe subId s"
    and "tr_days m = stripe_transfer_days cfg ms sub (stripe_plan cfg sub kp) grant"
proof -
  have m: "move_sub env ms Stripe subId code (stripe_plan cfg sub kp) who
      (transferEventKey subId (the_default 0 (periodEndOf sub) * 1000))
      (stripe_transfer_days cfg ms sub (stripe_plan cfg sub kp) grant) s = (Inr m, s')"
    using assms by (simp add: stripe_transferTo_def Let_def)
  show "owner_of r e s' = (if (r, e) = (Stripe, subId) then Some code else owner_of r e s)"
    "moved_at Stripe subId s' = Some (now_s ms)" "tr_previous m = owner_of Stripe subId s"
    "tr_days m = stripe_transfer_days cfg ms sub (stripe_plan cfg sub kp) grant"
    using move_sub_owner [OF m] by simp_all
qed

text \<open>A transfer of a test subscription hands over no days, unless test grants are on.\<close>

lemma stripe_transfer_days_le: "stripe_transfer_days cfg ms sub p grant \<le> 360" "0 \<le> stripe_transfer_days cfg ms sub p grant"
  using remainingDays_le_360 [of _ ms p] remainingDays_bounds(1) [of _ ms p]
  by (auto simp: stripe_transfer_days_def split: option.split)

lemma stripe_transfer_days_test: "\<not> ss_livemode sub \<Longrightarrow> \<not> sc_testGrants cfg \<Longrightarrow> stripe_transfer_days cfg ms sub p grant = 0"
  by (simp add: stripe_transfer_days_def split: option.split)

lemma transferSubscription_cases:
  "snd (transferSubscription env cfg api ms sessionId code s) = s
     \<and> (\<forall>c. fst (transferSubscription env cfg api ms sessionId code s) = Inr c \<longrightarrow> \<not> c_accepted c)
   \<or> (\<exists>session subId sub. ap_session api sessionId = Inr session
        \<and> map_option ref_id (cs_subscription session) = Some subId
        \<and> ap_subscription api subId = Inr sub \<and> ss_status sub = ''active''
        \<and> map_option s_status (get_sub Stripe subId s) \<noteq> Some Refunded
        \<and> owner_of Stripe subId s \<noteq> Some code
        \<and> transferAvailableAt (moved_at Stripe subId s) (now_s ms) = None
        \<and> transferSubscription env cfg api ms sessionId code s
          = (case stripe_transferTo env cfg ms code subId sub (map_option s_plan (get_sub Stripe subId s)) User True s of
               (Inl e, s') \<Rightarrow> (Inl e, s')
             | (Inr m, s') \<Rightarrow> (Inr (claim_moved (tr_grant m) (tr_days m) (\<not> ss_livemode sub)), rewriteMetadata subId code s')))"
proof (cases "ap_session api sessionId")
  case (Inl e)
  then show ?thesis by (simp add: transferSubscription_def claim_refused_def)
next
  case (Inr session)
  show ?thesis
  proof (cases "truthy (map_option ref_id (cs_subscription session))")
    case False
    then show ?thesis using Inr by (simp add: transferSubscription_def claim_refused_def)
  next
    case True
    then obtain z i where z: "cs_subscription session = Some z" "ref_id z = i" "truthy (Some i)"
      by (auto simp: truthy_def split: option.splits)
    note unf = transferSubscription_def claim_refused_def Inr z Let_def
    show ?thesis
    proof (cases "ap_subscription api i")
      case (Inl e)
      then show ?thesis by (simp add: unf)
    next
      case Inr': (Inr sub)
      then show ?thesis by (simp add: unf moved_at_def owner_of_def split: option.split)
    qed
  qed
qed

lemma transferSubscription_moves_ok: "moves_ok s (snd (transferSubscription env cfg api ms sessionId code s))"
  using transferSubscription_cases [of env cfg api ms sessionId code s]
proof (elim disjE exE conjE)
  fix session subId sub
  let ?t = "stripe_transferTo env cfg ms code subId sub (map_option s_plan (get_sub Stripe subId s)) User True s"
  assume eq: "transferSubscription env cfg api ms sessionId code s
    = (case ?t of (Inl e, s') \<Rightarrow> (Inl e, s')
         | (Inr m, s') \<Rightarrow> (Inr (claim_moved (tr_grant m) (tr_days m) (\<not> ss_livemode sub)), rewriteMetadata subId code s'))"
    and free: "transferAvailableAt (moved_at Stripe subId s) (now_s ms) = None"
  have m: "moves_ok s (snd ?t)" using free by (rule stripe_transferTo_moves_ok)
  show ?thesis unfolding eq
    using m moves_ok_trans_same [OF m] by (auto split: prod.splits sum.splits)
qed simp

lemma stripe_admin_moves_ok: "moves_ok s (snd (stripe_adminRebind env cfg api ms id subId code grant s))"
proof -
  have m: "moves_ok s (snd (stripe_transferTo env cfg ms code subId sub kp Admin g s))" for sub kp g
    by (rule stripe_transferTo_moves_ok) simp
  have "moves_ok s (rewriteMetadata subId code (snd (stripe_transferTo env cfg ms code subId sub kp Admin g s)))" for sub kp g
    using m by (rule moves_ok_trans_same) simp_all
  with m have "moves_ok s (snd (case stripe_transferTo env cfg ms code subId sub kp Admin g s of
      (Inl e, s') \<Rightarrow> (Inl e, s') | (Inr m, s') \<Rightarrow> (Inr (f m), rewriteMetadata subId code s')))"
    for sub kp g and f :: "transfer_result \<Rightarrow> rebind_outcome"
    by (cases "fst (stripe_transferTo env cfg ms code subId sub kp Admin g s)")
      (auto simp: case_prod_beta)
  then show ?thesis by (simp add: stripe_adminRebind_def split: option.split sum.split)
qed

section \<open>Binding by invoices\<close>

text \<open>The code an invoice is settled for is the binding's, when there is one.\<close>

lemma resolve_owner:
  assumes "resolveInvoiceBinding api iv s = Inr (Some (i, c, p))"
  shows "owner_of Stripe i s \<in> {None, Some c}" and "c \<noteq> []" and "invoice_subId iv = Some i"
  using assms
  by (auto simp: resolveInvoiceBinding_def owner_of_def truthy_def Let_def
      split: if_splits sum.splits option.splits)

lemma onInvoicePaid_cases:
  fixes w1 w2 w3 :: "db \<Rightarrow> db" and env cfg api ms iv cache s
  defines "r \<equiv> onInvoicePaid env cfg api ms w1 w2 w3 iv cache s"
  shows "snd (snd r) \<in> {s, w1 s}
   \<or> (\<exists>i c p ls. resolveInvoiceBinding api iv s = Inr (Some (i, c, p))
        \<and> (let b = snd (invoice_bind cfg ms iv ls (i, c, p) (w1 s))
           in snd (snd r) \<in> {b, w2 b}
              \<or> (iv_livemode iv \<or> sc_testGrants cfg)
                \<and> (\<exists>days\<le>360. snd (snd r) = snd (invoice_grant env api ms w3 iv i c days (w2 b)))))"
proof (cases "iv_amountPaid iv = 0 \<and> \<not> has_discount iv")
  case True
  then show ?thesis by (simp add: r_def onInvoicePaid_def)
next
  case zero: False
  show ?thesis
  proof (cases "resolveInvoiceBinding api iv s")
    case (Inl e)
    then show ?thesis using zero by (simp add: r_def onInvoicePaid_def)
  next
    case res: (Inr bound)
    show ?thesis
    proof (cases bound)
      case None
      then show ?thesis using zero res by (simp add: r_def onInvoicePaid_def)
    next
      case (Some b)
      obtain i c p where b: "b = (i, c, p)" by (cases b)
      show ?thesis
      proof (cases "invoiceLines api iv")
        case (Inl e)
        then show ?thesis using zero res Some b by (simp add: r_def onInvoicePaid_def)
      next
        case lines: (Inr ls)
        obtain plan s1 where bind: "invoice_bind cfg ms iv ls (i, c, p) (w1 s) = (plan, s1)"
          by (cases "invoice_bind cfg ms iv ls (i, c, p) (w1 s)")
        note unf = r_def onInvoicePaid_def zero res Some b lines bind
        show ?thesis
        proof (cases "\<not> iv_livemode iv \<and> \<not> sc_testGrants cfg")
          case True
          then have "snd (snd r) = snd (invoice_bind cfg ms iv ls (i, c, p) (w1 s))"
            using zero by (simp add: unf)
          then show ?thesis using res Some b by (auto simp: Let_def)
        next
          case live: False
          obtain d cache' where d: "daysForInvoice cfg api iv ls plan cache = (d, cache')"
            by (cases "daysForInvoice cfg api iv ls plan cache")
          show ?thesis
          proof (cases d)
            case (Inl e)
            then have "snd (snd r) = w2 (snd (invoice_bind cfg ms iv ls (i, c, p) (w1 s)))"
              using zero live by (auto simp: unf d)
            then show ?thesis using res Some b by (auto simp: Let_def)
          next
            case (Inr days)
            have "days \<le> PLAN_DAYS plan"
              using d Inr prorated_days_bounds(2) [of plan]
              by (auto simp: daysForInvoice_def split: if_splits prod.splits sum.splits)
            then have "days \<le> 360" using PLAN_DAYS_bounds(2) [of plan] by simp
            moreover have "snd (snd r) = snd (invoice_grant env api ms w3 iv i c days
                (w2 (snd (invoice_bind cfg ms iv ls (i, c, p) (w1 s)))))"
              using zero live Inr by (auto simp: unf d case_prod_beta)
            ultimately show ?thesis using res Some b live by (auto simp: Let_def)
          qed
        qed
      qed
    qed
  qed
qed

lemma owner_of_cong: "db_subs s' = db_subs s \<Longrightarrow> owner_of r e s' = owner_of r e s"
  by (simp add: owner_of_def get_sub_def)

lemma moved_at_cong: "db_subs s' = db_subs s \<Longrightarrow> moved_at r e s' = moved_at r e s"
  by (simp add: moved_at_def get_sub_def)

text \<open>An invoice served without interruption leaves every known binding as it is, and moves nothing.\<close>

lemma invoice_keeps_owner:
  assumes "owner_of Stripe i s = Some c"
  shows "owner_of Stripe i (snd (snd (onInvoicePaid env cfg api ms id id id iv cache s))) = Some c"
proof -
  have *: "owner_of Stripe i (snd (invoice_grant env api ms id iv j d n s')) = owner_of Stripe i s'" for j d n s'
    by (rule owner_of_cong) simp
  show ?thesis
    using onInvoicePaid_cases [of env cfg api ms id id id iv cache s] assms
    by (auto simp: Let_def * dest!: resolve_owner(1))
qed

lemma invoice_moves_ok: "moves_ok s (snd (snd (onInvoicePaid env cfg api ms id id id iv cache s)))"
proof -
  have b: "moves_ok s (snd (invoice_bind cfg ms iv ls (i, c, p) s))" for ls i c p
    by (rule moves_ok_same) simp_all
  have g: "moves_ok s (snd (invoice_grant env api ms id iv j d n (snd (invoice_bind cfg ms iv ls (i, c, p) s))))"
    for ls i c p j d n
    by (rule moves_ok_same) (simp_all add: moved_at_cong [OF invoice_grant_frame(1)])
  from onInvoicePaid_cases [of env cfg api ms id id id iv cache s] b g show ?thesis
    by (auto simp: Let_def)
qed

text \<open>A test-mode invoice never reaches the queue.\<close>

lemma invoice_test_mode:
  assumes "\<not> iv_livemode iv" and "\<not> sc_testGrants cfg"
  shows "payment_ledger (snd (snd (onInvoicePaid env cfg api ms id id id iv cache s))) = payment_ledger s"
  using onInvoicePaid_cases [of env cfg api ms id id id iv cache s] assms by (auto simp: Let_def)

lemma invoice_grant_ledger:
  "payment_ledger (snd (invoice_grant env api ms id iv i c days s)) = payment_ledger s
   \<or> (\<exists>p. payment_ledger (snd (invoice_grant env api ms id iv i c days s)) = payment_ledger s @ [p]
        \<and> new_key p = (Stripe, invoice_key iv i) \<and> \<not> ledger_has Stripe (invoice_key iv i) s
        \<and> 1 \<le> n_days p \<and> n_days p = days \<and> n_paymentCode p = c \<and> isValidPaymentCode (re_b58 env) c)"
proof -
  let ?g = "rail_grant env ms Stripe (invoice_key iv i) i c days s"
  obtain r s1 where r: "?g = (r, s1)" by (cases ?g)
  then have "payment_ledger (snd (invoice_grant env api ms id iv i c days s)) \<in> {payment_ledger s, payment_ledger (snd ?g)}"
    by (auto simp: invoice_grant_def payment_ledger_def split: sum.split)
  with rail_grant_ledger [of env ms Stripe "invoice_key iv i" i c days s] show ?thesis by auto
qed

text \<open>One invoice, however often it is delivered, adds at most one entry, of at most a year.\<close>

definition invoice_call ::
  "rail_env \<Rightarrow> stripe_cfg \<Rightarrow> invoice \<Rightarrow> stripe_api \<times> millis \<times> list_cents \<Rightarrow> db \<Rightarrow> db" where
  "invoice_call env cfg iv a s =
     (case a of (api, ms, cache) \<Rightarrow> snd (snd (onInvoicePaid env cfg api ms id id id iv cache s)))"

definition invoice_event_key :: "invoice \<Rightarrow> string" where
  "invoice_event_key iv = invoice_key iv (the_default [] (invoice_subId iv))"

lemma invoice_ledger:
  "payment_ledger (invoice_call env cfg iv a s) = payment_ledger s
   \<or> (\<exists>p. payment_ledger (invoice_call env cfg iv a s) = payment_ledger s @ [p]
        \<and> new_key p = (Stripe, invoice_event_key iv) \<and> \<not> ledger_has Stripe (invoice_event_key iv) s
        \<and> 1 \<le> n_days p \<and> n_days p \<le> 360)"
proof -
  obtain api ms cache where a: "a = (api, ms, cache)" by (cases a)
  have lh: "ledger_has Stripe k (snd (invoice_bind cfg ms iv ls (i, c, p) s)) = ledger_has Stripe k s" for k ls i c p
    by (simp add: ledger_has_keys)
  show ?thesis
    using onInvoicePaid_cases [of env cfg api ms id id id iv cache s]
  proof (elim disjE exE conjE)
    fix i c p ls
    let ?b = "snd (invoice_bind cfg ms iv ls (i, c, p) (id s))"
    assume res: "resolveInvoiceBinding api iv s = Inr (Some (i, c, p))"
      and "let b = ?b in snd (snd (onInvoicePaid env cfg api ms id id id iv cache s)) \<in> {b, id b}
        \<or> (iv_livemode iv \<or> sc_testGrants cfg)
          \<and> (\<exists>days\<le>360. snd (snd (onInvoicePaid env cfg api ms id id id iv cache s))
               = snd (invoice_grant env api ms id iv i c days (id b)))"
    then consider "invoice_call env cfg iv a s = ?b"
      | days where "days \<le> 360" "invoice_call env cfg iv a s = snd (invoice_grant env api ms id iv i c days ?b)"
      unfolding invoice_call_def a by (auto simp: Let_def)
    then show ?thesis
    proof cases
      case 1
      then show ?thesis by simp
    next
      case (2 days)
      have "invoice_event_key iv = invoice_key iv i" using resolve_owner(3) [OF res] by (simp add: invoice_event_key_def)
      with 2 show ?thesis using invoice_grant_ledger [of env api ms iv i c days ?b] lh by auto
    qed
  qed (auto simp: invoice_call_def a)
qed

interpretation stripe_invoice: period_transfer "invoice_call env cfg iv" Stripe "\<lambda>_. invoice_event_key iv" 360
  for env cfg iv
  by unfold_locales (rule invoice_ledger)

section \<open>The other webhooks\<close>

lemma checkout_owner:
  "owner_of r e (snd (onCheckoutCompleted ms session s)) = owner_of r e s
   \<or> owner_of r e s = None"
  by (auto simp: onCheckoutCompleted_def owner_of_def [of r e s] Let_def)

lemma checkout_moves_ok: "moves_ok s (snd (onCheckoutCompleted ms session s))"
  by (rule moves_ok_same) (simp_all add: onCheckoutCompleted_def upsert_frame Let_def)

lemma refund_moves_ok: "moves_ok s (snd (onChargeRefunded api ms ch s))"
  by (rule moves_ok_same)
    (auto simp: onChargeRefunded_def setStatus_frame split: sum.splits option.splits prod.splits)

lemma deleted_moves_ok: "moves_ok s (snd (onSubscriptionDeleted ms i s))"
  by (rule moves_ok_same) (simp_all add: onSubscriptionDeleted_def setStatus_frame)

lemma webhook_moves_ok: "moves_ok s (snd (snd (handleWebhook env cfg api ms id id id event cache s)))"
  by (auto simp: handleWebhook_def case_prod_beta invoice_moves_ok checkout_moves_ok refund_moves_ok
      deleted_moves_ok Let_def split: sum.split stripe_event.split)

text \<open>No webhook, delivered as often as Stripe likes, takes a bound subscription from its owner.\<close>

lemma webhook_keeps_owner:
  assumes "owner_of Stripe i s = Some c"
  shows "owner_of Stripe i (snd (snd (handleWebhook env cfg api ms id id id event cache s))) = Some c"
proof (cases event)
  case (Inr ev)
  have refund: "owner_of Stripe i (snd (onChargeRefunded api ms ch s)) = Some c" for ch
    using assms by (auto simp: onChargeRefunded_def split: sum.splits option.splits prod.splits)
  have deleted: "owner_of Stripe i (snd (onSubscriptionDeleted ms j s)) = Some c" for j
    using assms by (simp add: onSubscriptionDeleted_def)
  have checkout: "owner_of Stripe i (snd (onCheckoutCompleted ms session s)) = Some c" for session
    using checkout_owner [of Stripe i ms session s] assms by simp
  show ?thesis
    using Inr assms invoice_keeps_owner [OF assms] refund deleted checkout
    by (cases ev) (simp_all add: handleWebhook_def case_prod_beta)
qed (use assms in \<open>simp add: handleWebhook_def\<close>)

section \<open>The rail meets the contracts\<close>

text \<open>The requests of the rail, and the steps of \<open>onInvoicePaid\<close> as calls of their own.\<close>

datatype stripe_request =
    S_transfer stripe_api millis string string
  | S_admin stripe_api millis string string bool
  | S_webhook stripe_api millis "exn + stripe_event" list_cents
  | S_bind millis invoice "invoice_line list" string string plan
  | S_grant stripe_api millis invoice string string int
  | S_track stripe_api millis invoice string

fun stripe_call :: "rail_env \<Rightarrow> stripe_cfg \<Rightarrow> stripe_request \<Rightarrow> db \<Rightarrow> db" where
  "stripe_call env cfg (S_transfer api ms session code) s = snd (transferSubscription env cfg api ms session code s)"
| "stripe_call env cfg (S_admin api ms i code g) s = snd (stripe_adminRebind env cfg api ms id i code g s)"
| "stripe_call env cfg (S_webhook api ms ev cache) s = snd (snd (handleWebhook env cfg api ms id id id ev cache s))"
| "stripe_call env cfg (S_bind ms iv ls i code p) s = snd (invoice_bind cfg ms iv ls (i, code, p) s)"
| "stripe_call env cfg (S_grant api ms iv i code days) s = snd (invoice_grant env api ms id iv i code days s)"
| "stripe_call env cfg (S_track api ms iv code) s = snd (trackDiscountRedemption api ms iv code s)"

lemma stripe_call_moves_ok: "moves_ok s (stripe_call env cfg a s)"
  by (cases a)
    (auto simp: transferSubscription_moves_ok stripe_admin_moves_ok webhook_moves_ok
      intro: moves_ok_same moves_ok_subs_same)

interpretation stripe_moves: limited_moves "stripe_call env cfg" for env cfg
  by unfold_locales (rule stripe_call_moves_ok)

fun stripe_transfer :: "rail_env \<Rightarrow> stripe_cfg \<Rightarrow> (stripe_sub \<times> plan option \<times> bool) transfer_call \<Rightarrow> db \<Rightarrow> db" where
  "stripe_transfer env cfg (ms, code, subId, (sub, kp, grant), who) s =
     snd (stripe_transferTo env cfg ms code subId sub kp who grant s)"

fun stripe_period_key :: "(stripe_sub \<times> plan option \<times> bool) transfer_call \<Rightarrow> string" where
  "stripe_period_key (ms, code, subId, (sub, kp, grant), who)
     = transferEventKey subId (the_default 0 (periodEndOf sub) * 1000)"

lemma stripe_transfer_ledger:
  "payment_ledger (stripe_transfer env cfg a s) = payment_ledger s
   \<or> (\<exists>p. payment_ledger (stripe_transfer env cfg a s) = payment_ledger s @ [p]
        \<and> new_key p = (Stripe, stripe_period_key a) \<and> \<not> ledger_has Stripe (stripe_period_key a) s
        \<and> 1 \<le> n_days p \<and> n_days p \<le> 360)"
proof -
  obtain ms code subId sub kp grant who where a: "a = (ms, code, subId, (sub, kp, grant), who)"
    by (cases a) auto
  show ?thesis
    using move_sub_ledger [of env ms Stripe subId code "stripe_plan cfg sub kp" who
        "transferEventKey subId (the_default 0 (periodEndOf sub) * 1000)"
        "stripe_transfer_days cfg ms sub (stripe_plan cfg sub kp) grant" s]
      stripe_transfer_days_le(1) [of cfg ms sub "stripe_plan cfg sub kp" grant]
    by (auto simp: a stripe_transferTo_def Let_def)
qed

interpretation stripe_period: period_transfer "stripe_transfer env cfg" Stripe stripe_period_key 360 for env cfg
  by unfold_locales (rule stripe_transfer_ledger)

section \<open>Two races\<close>

text \<open>
  The binding of an invoice is resolved before Stripe is asked for its lines. A transfer
  served during that wait is undone by the binding written afterwards: the subscription is
  back with the device it was moved away from, although the move is logged and the days of
  the rest of the period were handed over.
\<close>

lemma invoice_undoes_transfer:
  assumes amount: "iv_amountPaid iv \<noteq> 0"
    and old: "resolveInvoiceBinding api iv s = Inr (Some (i, a, p))"
    and ls: "invoiceLines api iv = Inr ls"
    and session: "ap_session api sessionId = Inr session" "cs_subscription session = Some (Ref i)"
    and moved: "fst (transferSubscription env cfg api ms sessionId b s) = Inr c" "c_accepted c"
  defines "w \<equiv> \<lambda>s. snd (transferSubscription env cfg api ms sessionId b s)"
  shows "owner_of Stripe i (w s) = Some b"
    and "owner_of Stripe i (snd (snd (onInvoicePaid env cfg api ms w id id iv cache s))) = Some a"
    and "moved_at Stripe i (w s) = Some (now_s ms)"
proof -
  from transferSubscription_cases [of env cfg api ms sessionId b s]
  show "owner_of Stripe i (w s) = Some b" "moved_at Stripe i (w s) = Some (now_s ms)"
  proof (atomize (full), elim disjE exE conjE)
    fix session' subId sub
    let ?t = "stripe_transferTo env cfg ms b subId sub (map_option s_plan (get_sub Stripe subId s)) User True s"
    assume h: "ap_session api sessionId = Inr session'" "map_option ref_id (cs_subscription session') = Some subId"
      and eq: "transferSubscription env cfg api ms sessionId b s
        = (case ?t of (Inl e, s') \<Rightarrow> (Inl e, s')
           | (Inr m, s') \<Rightarrow> (Inr (claim_moved (tr_grant m) (tr_days m) (\<not> ss_livemode sub)), rewriteMetadata subId b s'))"
    from h session have "subId = i" by auto
    with eq moved(1) obtain m s1 where m: "?t = (Inr m, s1)" "w s = rewriteMetadata i b s1"
      by (auto simp: w_def split: prod.splits sum.splits)
    show "owner_of Stripe i (w s) = Some b \<and> moved_at Stripe i (w s) = Some (now_s ms)"
      using stripe_transferTo_ok(1,2) [OF m(1)] \<open>subId = i\<close> by (simp add: m(2))
  qed (use moved in auto)
  have keep: "owner_of Stripe i (snd (invoice_grant env api ms id iv j d n s')) = owner_of Stripe i s'" for j d n s'
    by (rule owner_of_cong) simp
  obtain plan s1 where b: "invoice_bind cfg ms iv ls (i, a, p) (w s) = (plan, s1)"
    by (cases "invoice_bind cfg ms iv ls (i, a, p) (w s)")
  have "owner_of Stripe i s1 = Some a" using invoice_bind_simps(1) [of Stripe i cfg ms iv ls i a p "w s"] b by simp
  then show "owner_of Stripe i (snd (snd (onInvoicePaid env cfg api ms w id id iv cache s))) = Some a"
    using amount old ls b keep
    by (auto simp: onInvoicePaid_def case_prod_beta split: sum.split prod.split)
qed

text \<open>An \<open>invoice.paid\<close> delivered again after a refund makes the subscription active again.\<close>

lemma invoice_reactivates:
  assumes "iv_amountPaid iv \<noteq> 0" and "resolveInvoiceBinding api iv s = Inr (Some (i, c, p))"
    and "invoiceLines api iv = Inr ls"
  shows "map_option s_status (get_sub Stripe i (snd (snd (onInvoicePaid env cfg api ms id id id iv cache s)))) = Some Active"
proof -
  have keep: "get_sub Stripe i (snd (invoice_grant env api ms id iv j d n s')) = get_sub Stripe i s'" for j d n s'
    by (simp add: get_sub_def)
  obtain plan s1 where b: "invoice_bind cfg ms iv ls (i, c, p) s = (plan, s1)"
    by (cases "invoice_bind cfg ms iv ls (i, c, p) s")
  then have "s1 = upsert (now_s ms) Stripe i c plan (customerId (iv_customer iv)) s"
    by (auto simp: invoice_bind_def Let_def)
  then have "map_option s_status (get_sub Stripe i s1) = Some Active"
    by (simp add: get_sub_upsert split: option.split)
  then show ?thesis
    using assms b keep by (auto simp: onInvoicePaid_def case_prod_beta split: sum.split prod.split)
qed

end
