(* ===== verification/Config.thy ===== *)
theory Config
  imports JsValue GoogleRail AppleRail StripeRail
begin

text \<open>
  The configuration of the bridge from its environment (bridge/src/config.ts), in the order
  the source evaluates it. An environment is a function from keys to values; what throws is
  the left of a sum, named by its cause. The URL parser is a parameter: \<open>url_origin\<close> is
  \<open>None\<close> where \<open>new URL\<close> throws; so is the default certificate directory, which depends on
  where the service is installed.
\<close>

type_synonym env_vars = "string \<Rightarrow> string option"

datatype config_error =
    Required string
  | Not_a_number string string
  | No_session_placeholder
  | Bad_apple_environment
  | Bad_apple_app_id string
  | Apple_app_id_required
  | Bad_grant_days string string
  | Price_not_positive
  | Bad_schedule price_error
  | Price_disagrees string rat
  | No_rail

text \<open>Sequencing: the first error ends the load.\<close>

definition and_then :: "'e + 'a \<Rightarrow> ('a \<Rightarrow> 'e + 'b) \<Rightarrow> 'e + 'b" where
  "and_then x f = (case x of Inl e \<Rightarrow> Inl e | Inr a \<Rightarrow> f a)"

lemma and_then_simps [simp]: "and_then (Inl e) f = Inl e" "and_then (Inr a) f = f a"
  by (simp_all add: and_then_def)

lemma and_then_Inr: "and_then x f = Inr b \<longleftrightarrow> (\<exists>a. x = Inr a \<and> f a = Inr b)"
  by (cases x) simp_all

section \<open>Records\<close>

record stripe_settings =
  st_secretKey :: string
  st_webhookSecret :: string
  st_rail :: stripe_cfg

record apple_settings =
  as_bundleId :: string
  as_appAppleId :: "int option"
  as_allowSandbox :: bool
  as_rootCaDir :: string
  as_rail :: apple_cfg

record google_settings =
  go_serviceAccountJson :: string
  go_rtdnAudience :: string
  go_rail :: google_cfg

record config =
  cf_port :: rat
  cf_host :: string
  cf_dbPath :: string
  cf_paymentAddress :: string
  cf_priceSchedule :: schedule
  cf_priceFlux :: rat
  cf_priceZats :: zats
  cf_feeZats :: zats
  cf_treasuryWif :: string
  cf_explorerUrl :: string
  cf_explorerFallbackUrl :: string
  cf_adminToken :: string
  cf_alertWebhookUrl :: "string option"
  cf_minTreasuryFlux :: rat
  cf_dayGrantsEnabled :: bool
  cf_corsOrigins :: "string list"
  cf_stripe :: "stripe_settings option"
  cf_apple :: "apple_settings option"
  cf_google :: "google_settings option"

section \<open>Values\<close>

definition required :: "env_vars \<Rightarrow> string \<Rightarrow> config_error + string" where
  "required env key =
     (let v = map_option trim (env key) in if truthy v then Inr (the v) else Inl (Required key))"

definition num :: "env_vars \<Rightarrow> string \<Rightarrow> rat \<Rightarrow> config_error + rat" where
  "num env key fallback =
     (case env key of
        None \<Rightarrow> Inr fallback
      | Some v \<Rightarrow>
          if v = [] then Inr fallback
          else (case js_number v of Fin n \<Rightarrow> Inr n | _ \<Rightarrow> Inl (Not_a_number key v)))"

definition grantDays :: "env_vars \<Rightarrow> string \<Rightarrow> config_error + int" where
  "grantDays env key =
     (case env key of
        None \<Rightarrow> Inr 1
      | Some raw \<Rightarrow>
          if raw = [] then Inr 1
          else (case js_number raw of
                  Fin n \<Rightarrow> if \<not> is_whole n \<or> n < 0 \<or> 30 < n then Inl (Bad_grant_days key raw) else Inr \<lfloor>n\<rfloor>
                | _ \<Rightarrow> Inl (Bad_grant_days key raw)))"

section \<open>Rails\<close>

definition loadStripe :: "env_vars \<Rightarrow> config_error + stripe_settings option" where
  "loadStripe env =
     (if \<not> truthy (env ''STRIPE_SECRET_KEY'') then Inr None
      else and_then (required env ''STRIPE_SUCCESS_URL'') (\<lambda>successUrl.
        if \<not> str_includes ''{CHECKOUT_SESSION_ID}'' successUrl then Inl No_session_placeholder
        else and_then (required env ''STRIPE_CANCEL_URL'') (\<lambda>cancelUrl.
          and_then (required env ''STRIPE_SECRET_KEY'') (\<lambda>secretKey.
          and_then (required env ''STRIPE_WEBHOOK_SECRET'') (\<lambda>webhookSecret.
          and_then (required env ''STRIPE_PRICE_MONTHLY'') (\<lambda>priceMonthly.
          and_then (required env ''STRIPE_PRICE_ANNUAL'') (\<lambda>priceAnnual.
            Inr (Some \<lparr>st_secretKey = secretKey, st_webhookSecret = webhookSecret,
              st_rail = \<lparr>sc_priceMonthly = priceMonthly, sc_priceAnnual = priceAnnual,
                sc_successUrl = successUrl, sc_cancelUrl = cancelUrl,
                sc_portalReturnUrl = the (or_else (env ''STRIPE_PORTAL_RETURN_URL'') (Some cancelUrl)),
                sc_testGrants = (env ''STRIPE_TEST_GRANTS'' = Some ''true'')\<rparr>\<rparr>))))))))"

definition apple_app_id :: "env_vars \<Rightarrow> config_error + int option" where
  "apple_app_id env =
     (if truthy (env ''APPLE_APP_ID'') then
        (case js_number (the (env ''APPLE_APP_ID'')) of
           Fin n \<Rightarrow> if \<not> is_whole n \<or> n \<le> 0 then Inl (Bad_apple_app_id (the (env ''APPLE_APP_ID'')))
                    else Inr (Some \<lfloor>n\<rfloor>)
         | _ \<Rightarrow> Inl (Bad_apple_app_id (the (env ''APPLE_APP_ID''))))
      else Inr None)"

definition loadApple :: "string \<Rightarrow> env_vars \<Rightarrow> config_error + apple_settings option" where
  "loadApple certs env =
     (if \<not> truthy (env ''APPLE_BUNDLE_ID'') then Inr None
      else
        (let environment = the_default ''Production'' (env ''APPLE_ENVIRONMENT'')
         in if environment \<noteq> ''Production'' \<and> environment \<noteq> ''Sandbox'' then Inl Bad_apple_environment
            else and_then (apple_app_id env) (\<lambda>appAppleId.
              if environment = ''Production'' \<and> appAppleId = None then Inl Apple_app_id_required
              else and_then (required env ''APPLE_BUNDLE_ID'') (\<lambda>bundleId.
                and_then (grantDays env ''APPLE_SANDBOX_GRANT_DAYS'') (\<lambda>days.
                  Inr (Some \<lparr>as_bundleId = bundleId, as_appAppleId = appAppleId,
                    as_allowSandbox = (env ''APPLE_ALLOW_SANDBOX'' \<noteq> Some ''false''),
                    as_rootCaDir = the_default certs (env ''APPLE_ROOT_CA_DIR''),
                    as_rail = \<lparr>ac_sandboxEnvironment = (environment = ''Sandbox''),
                      ac_productMonthly = the_default ''cvpn.premium.monthly'' (env ''APPLE_PRODUCT_MONTHLY''),
                      ac_productAnnual = the_default ''cvpn.premium.annual'' (env ''APPLE_PRODUCT_ANNUAL''),
                      ac_sandboxGrants = (env ''APPLE_SANDBOX_GRANTS'' = Some ''true''),
                      ac_sandboxGrantDays = days\<rparr>\<rparr>))))))"

definition loadGoogle :: "env_vars \<Rightarrow> config_error + google_settings option" where
  "loadGoogle env =
     (if \<not> truthy (env ''GOOGLE_PACKAGE_NAME'') then Inr None
      else and_then (required env ''GOOGLE_PACKAGE_NAME'') (\<lambda>packageName.
        and_then (required env ''GOOGLE_SERVICE_ACCOUNT_JSON'') (\<lambda>serviceAccountJson.
        and_then (required env ''GOOGLE_RTDN_AUDIENCE'') (\<lambda>rtdnAudience.
        and_then (required env ''GOOGLE_RTDN_EMAIL'') (\<lambda>rtdnEmail.
        and_then (grantDays env ''GOOGLE_TEST_GRANT_DAYS'') (\<lambda>days.
          Inr (Some \<lparr>go_serviceAccountJson = serviceAccountJson, go_rtdnAudience = rtdnAudience,
            go_rail = \<lparr>gc_packageName = packageName,
              gc_basePlanMonthly = the_default ''premium-monthly'' (env ''GOOGLE_BASE_PLAN_MONTHLY''),
              gc_basePlanAnnual = the_default ''premium-annual'' (env ''GOOGLE_BASE_PLAN_ANNUAL''),
              gc_testGrants = (env ''GOOGLE_TEST_GRANTS'' = Some ''true''),
              gc_testGrantDays = days, gc_rtdnEmail = rtdnEmail\<rparr>\<rparr>)))))))"

section \<open>The whole\<close>

definition corsOrigins :: "(string \<Rightarrow> string option) \<Rightarrow> env_vars \<Rightarrow> string list" where
  "corsOrigins url_origin env =
     (case env ''CORS_ORIGINS'' of
        Some raw \<Rightarrow> filter (\<lambda>x. x \<noteq> []) (map trim (split_on CHR '','' raw))
      | None \<Rightarrow>
          if \<not> truthy (env ''STRIPE_SUCCESS_URL'') then []
          else (case url_origin (the (env ''STRIPE_SUCCESS_URL'')) of Some x \<Rightarrow> [x] | None \<Rightarrow> []))"

definition loadPriceSchedule :: "env_vars \<Rightarrow> config_error + schedule" where
  "loadPriceSchedule env =
     (let raw = map_option trim (env ''PRICE_SCHEDULE'')
      in if \<not> truthy raw then
           and_then (num env ''PRICE_FLUX'' 20) (\<lambda>flux.
             if \<not> 0 < flux then Inl Price_not_positive
             else (case flat flux of Inl e \<Rightarrow> Inl (Bad_schedule e) | Inr es \<Rightarrow> Inr es))
         else (case parse (the raw) of
                 Inl e \<Rightarrow> Inl (Bad_schedule e)
               | Inr es \<Rightarrow>
                   if truthy (env ''PRICE_FLUX'')
                      \<and> js_number (the (env ''PRICE_FLUX'')) \<noteq> Fin (latest es)
                   then Inl (Price_disagrees (the (env ''PRICE_FLUX'')) (latest es))
                   else Inr es))"

definition loadConfig :: "(string \<Rightarrow> string option) \<Rightarrow> string \<Rightarrow> env_vars \<Rightarrow> config_error + config" where
  "loadConfig url_origin certs env =
     and_then (loadPriceSchedule env) (\<lambda>sched.
     and_then (num env ''FEE_FLUX'' (1 / 10000)) (\<lambda>feeFlux.
     and_then (num env ''PORT'' 8080) (\<lambda>port.
     and_then (required env ''PAYMENT_ADDRESS'') (\<lambda>paymentAddress.
     and_then (required env ''TREASURY_WIF'') (\<lambda>treasuryWif.
     and_then (required env ''ADMIN_TOKEN'') (\<lambda>adminToken.
     and_then (num env ''MIN_TREASURY_FLUX'' 200) (\<lambda>minFlux.
     and_then (loadStripe env) (\<lambda>stripe.
     and_then (loadApple certs env) (\<lambda>apple.
     and_then (loadGoogle env) (\<lambda>google.
       if stripe = None \<and> apple = None \<and> google = None then Inl No_rail
       else Inr \<lparr>cf_port = port, cf_host = the_default ''0.0.0.0'' (env ''HOST''),
         cf_dbPath = the_default ''/data/bridge.db'' (env ''DB_PATH''),
         cf_paymentAddress = paymentAddress, cf_priceSchedule = sched,
         cf_priceFlux = latest sched, cf_priceZats = fluxToZats (latest sched),
         cf_feeZats = math_round (feeFlux * 10 ^ 8), cf_treasuryWif = treasuryWif,
         cf_explorerUrl = the_default ''https://explorer.runonflux.io/api'' (env ''EXPLORER_URL''),
         cf_explorerFallbackUrl = the_default ''https://api.runonflux.io'' (env ''EXPLORER_FALLBACK_URL''),
         cf_adminToken = adminToken,
         cf_alertWebhookUrl = or_else (env ''ALERT_WEBHOOK_URL'') None,
         cf_minTreasuryFlux = minFlux,
         cf_dayGrantsEnabled = (env ''DAY_GRANTS_ENABLED'' = Some ''true''),
         cf_corsOrigins = corsOrigins url_origin env,
         cf_stripe = stripe, cf_apple = apple, cf_google = google\<rparr>))))))))))"

section \<open>What a loaded configuration satisfies\<close>

definition token_ok :: "string \<Rightarrow> bool" where
  "token_ok v \<longleftrightarrow> v \<noteq> [] \<and> trim v = v"

definition config_ok :: "config \<Rightarrow> bool" where
  "config_ok c \<longleftrightarrow>
     wf_schedule (cf_priceSchedule c) \<and> cf_priceZats c = fluxToZats (latest (cf_priceSchedule c))
     \<and> token_ok (cf_paymentAddress c) \<and> token_ok (cf_treasuryWif c) \<and> token_ok (cf_adminToken c)
     \<and> \<not> (cf_stripe c = None \<and> cf_apple c = None \<and> cf_google c = None)
     \<and> (\<forall>x. cf_stripe c = Some x \<longrightarrow> token_ok (st_secretKey x) \<and> token_ok (st_webhookSecret x)
          \<and> str_includes ''{CHECKOUT_SESSION_ID}'' (sc_successUrl (st_rail x)) \<and> sc_portalReturnUrl (st_rail x) \<noteq> [])
     \<and> (\<forall>x. cf_apple c = Some x \<longrightarrow> token_ok (as_bundleId x)
          \<and> 0 \<le> ac_sandboxGrantDays (as_rail x) \<and> ac_sandboxGrantDays (as_rail x) \<le> 30
          \<and> (\<not> ac_sandboxEnvironment (as_rail x) \<longrightarrow> (\<exists>i. as_appAppleId x = Some i \<and> 0 < i)))
     \<and> (\<forall>x. cf_google c = Some x \<longrightarrow> token_ok (go_serviceAccountJson x) \<and> token_ok (gc_rtdnEmail (go_rail x))
          \<and> 0 \<le> gc_testGrantDays (go_rail x) \<and> gc_testGrantDays (go_rail x) \<le> 30)"

lemma required_Inr: "required env key = Inr v \<Longrightarrow> token_ok v"
  by (auto simp: required_def token_ok_def truthy_def Let_def trim_trim split: if_splits option.splits)

lemma grantDays_Inr: "grantDays env key = Inr d \<Longrightarrow> 0 \<le> d \<and> d \<le> 30"
  by (auto simp: grantDays_def is_whole_iff split: option.splits if_splits jsnum.splits)

lemma apple_app_id_Inr: "apple_app_id env = Inr (Some i) \<Longrightarrow> 0 < i"
  by (auto simp: apple_app_id_def is_whole_iff split: if_splits jsnum.splits)

lemma loadPriceSchedule_Inr: "loadPriceSchedule env = Inr es \<Longrightarrow> wf_schedule es"
  by (auto simp: loadPriceSchedule_def Let_def and_then_Inr intro: flat_wf parse_wf split: if_splits sum.splits)

lemma or_else_Some: "y \<noteq> [] \<Longrightarrow> the (or_else x (Some y)) \<noteq> []"
  by (auto simp: or_else_def split: option.splits)

lemma loadStripe_Inr:
  assumes "loadStripe env = Inr (Some x)"
  shows "token_ok (st_secretKey x)" and "token_ok (st_webhookSecret x)"
    and "str_includes ''{CHECKOUT_SESSION_ID}'' (sc_successUrl (st_rail x))"
    and "sc_portalReturnUrl (st_rail x) \<noteq> []"
  using assms
  by (auto simp: loadStripe_def and_then_Inr or_else_def token_ok_def dest!: required_Inr
      split: if_splits option.splits)

lemma loadApple_Inr:
  assumes "loadApple certs env = Inr (Some x)"
  shows "token_ok (as_bundleId x)"
    and "0 \<le> ac_sandboxGrantDays (as_rail x)" and "ac_sandboxGrantDays (as_rail x) \<le> 30"
    and "\<not> ac_sandboxEnvironment (as_rail x) \<Longrightarrow> \<exists>i. as_appAppleId x = Some i \<and> 0 < i"
  using assms
  by (auto simp: loadApple_def and_then_Inr Let_def dest!: required_Inr grantDays_Inr dest: apple_app_id_Inr
      split: if_splits)

lemma loadGoogle_Inr:
  assumes "loadGoogle env = Inr (Some x)"
  shows "token_ok (go_serviceAccountJson x)" and "token_ok (gc_rtdnEmail (go_rail x))"
    and "0 \<le> gc_testGrantDays (go_rail x)" and "gc_testGrantDays (go_rail x) \<le> 30"
  using assms
  by (auto simp: loadGoogle_def and_then_Inr dest!: required_Inr grantDays_Inr split: if_splits)

lemma loadConfig_ok:
  assumes "loadConfig url_origin certs env = Inr c"
  shows "config_ok c"
proof -
  obtain es x y z where
    es: "loadPriceSchedule env = Inr es" and addr: "required env ''PAYMENT_ADDRESS'' = Inr (cf_paymentAddress c)"
    and wif: "required env ''TREASURY_WIF'' = Inr (cf_treasuryWif c)"
    and tok: "required env ''ADMIN_TOKEN'' = Inr (cf_adminToken c)"
    and rails: "loadStripe env = Inr x" "loadApple certs env = Inr y" "loadGoogle env = Inr z"
    and some: "\<not> (x = None \<and> y = None \<and> z = None)"
    and c: "cf_priceSchedule c = es" "cf_priceZats c = fluxToZats (latest es)"
      "cf_stripe c = x" "cf_apple c = y" "cf_google c = z"
    using assms unfolding loadConfig_def and_then_Inr by (auto split: if_splits)
  show ?thesis
    using loadPriceSchedule_Inr [OF es] addr wif tok some loadStripe_Inr [of env] loadApple_Inr [of certs env]
      loadGoogle_Inr [of env] rails
    by (simp add: config_ok_def c required_Inr)
qed

text \<open>A schedule that is written out is worth whole zats, and a month costs at least one.\<close>

lemma schedule_zats:
  assumes "truthy (map_option trim (env ''PRICE_SCHEDULE''))" and "loadPriceSchedule env = Inr es"
  shows "in_zats es" and "1 \<le> fluxToZats (latest es)"
proof -
  have p: "parse (the (map_option trim (env ''PRICE_SCHEDULE''))) = Inr es"
    using assms by (auto simp: loadPriceSchedule_def Let_def split: if_splits sum.splits)
  show z: "in_zats es" by (rule parse_in_zats [OF p])
  have wf: "wf_schedule es" by (rule parse_wf [OF p])
  then have "es \<noteq> []" by (auto simp: wf_schedule_def)
  then have "last es \<in> set es" by simp
  then have "whole_zats (latest es)" "0 < latest es"
    using z wf by (auto simp: in_zats_def wf_schedule_def list_all_iff latest_def)
  then have "0 < (of_int (fluxToZats (latest es)) :: rat)" by (simp add: whole_zats_def)
  then show "1 \<le> fluxToZats (latest es)" by linarith
qed

end
