(* ===== verification/Server.thy ===== *)
theory Server
  imports Config Workers Vouchers
begin

text \<open>
  The HTTP surface of the bridge (bridge/src/server.ts, bridge/src/envelope.ts) and its
  dispatch. A handler takes what the framework hands it (a body that passed the route's
  schema, headers, query and path parameters), what the third parties answer, the clock and
  the state, and returns what it sends, or the exception it throws, with the new state. The
  plugins for CORS and rate limits, and the parsing of requests, are the framework's.
\<close>

section \<open>Replies\<close>

datatype reply = Reply nat json | No_route

definition ok_body :: "json \<Rightarrow> json" where
  "ok_body d = J_obj [(''status'', J_str ''success''), (''data'', d)]"

definition err_body :: "nat \<Rightarrow> string \<Rightarrow> string \<Rightarrow> json" where
  "err_body code name message =
     J_obj [(''status'', J_str ''error''),
       (''data'', J_obj [(''code'', J_str (show_nat code)), (''name'', J_str name), (''message'', J_str message)])]"

definition send_ok :: "(string \<times> json option) list \<Rightarrow> exn + reply" where
  "send_ok kvs = Inr (Reply 200 (ok_body (jobj kvs)))"

definition send_err :: "nat \<Rightarrow> string \<Rightarrow> string \<Rightarrow> exn + reply" where
  "send_err code name message = Inr (Reply code (err_body code name message))"

definition badRequest :: "string \<Rightarrow> string \<Rightarrow> exn + reply" where
  "badRequest name message = send_err 400 name message"

text \<open>What ends a request early in the framework, or a handler's exception.\<close>

datatype route_error = Rate_limited | Invalid_request string | Thrown exn

definition error_handler :: "route_error \<Rightarrow> reply" where
  "error_handler e =
     (case e of
        Rate_limited \<Rightarrow> Reply 429 (err_body 429 ''rate_limited'' ''too many requests'')
      | Invalid_request m \<Rightarrow> Reply 400 (err_body 400 ''bad_request'' m)
      | Thrown x \<Rightarrow> Reply 500 (err_body 500 ''internal'' ''internal error''))"

section \<open>State\<close>

record deps =
  d_cfg :: config
  d_b58 :: "string \<Rightarrow> bytes option"
  d_sha :: "bytes \<Rightarrow> bytes"
  d_treasuryAddress :: string

record server =
  sv_db :: db
  sv_breaker :: breaker
  sv_lastSent :: "string \<rightharpoonup> millis"
  sv_posted :: "string list"
  sv_listCents :: list_cents

definition rail_env_of :: "deps \<Rightarrow> rail_env" where
  "rail_env_of d = \<lparr>re_b58 = d_b58 d, re_priceZats = cf_priceZats (d_cfg d)\<rparr>"

abbreviation valid_code :: "deps \<Rightarrow> string \<Rightarrow> bool" where
  "valid_code d \<equiv> isValidPaymentCode (d_b58 d)"

definition new_server :: server where
  "new_server = \<lparr>sv_db = empty_db, sv_breaker = new_breaker, sv_lastSent = (\<lambda>_. None),
     sv_posted = [], sv_listCents = (\<lambda>_. None)\<rparr>"

definition with_db :: "(db \<Rightarrow> ('e + 'r) \<times> db) \<Rightarrow> server \<Rightarrow> ('e + 'r) \<times> server" where
  "with_db f sv = (case f (sv_db sv) of (r, s') \<Rightarrow> (r, sv\<lparr>sv_db := s'\<rparr>))"

text \<open>Send what a rail answers; its exception is the handler's.\<close>

definition reply_with :: "('r \<Rightarrow> exn + reply) \<Rightarrow> (exn + 'r) \<times> server \<Rightarrow> (exn + reply) \<times> server" where
  "reply_with f x = (case x of (Inl e, sv) \<Rightarrow> (Inl e, sv) | (Inr r, sv) \<Rightarrow> (f r, sv))"

section \<open>Texts of enumerations\<close>

definition rail_slug :: "rail \<Rightarrow> string" where
  "rail_slug r = (case r of Stripe \<Rightarrow> ''stripe'' | Apple \<Rightarrow> ''apple'' | Google \<Rightarrow> ''google'' | Voucher \<Rightarrow> ''voucher'')"

definition payment_status_slug :: "payment_status \<Rightarrow> string" where
  "payment_status_slug x =
     (case x of Pending \<Rightarrow> ''pending'' | Broadcast \<Rightarrow> ''broadcast'' | Confirmed \<Rightarrow> ''confirmed'' | Failed \<Rightarrow> ''failed'')"

definition sub_status_slug :: "sub_status \<Rightarrow> string" where
  "sub_status_slug x =
     (case x of Active \<Rightarrow> ''active'' | Canceled \<Rightarrow> ''canceled'' | Refunded \<Rightarrow> ''refunded'' | On_hold \<Rightarrow> ''on_hold'')"

definition actor_slug :: "actor \<Rightarrow> string" where
  "actor_slug x = (case x of User \<Rightarrow> ''user'' | Admin \<Rightarrow> ''admin'')"

definition voucher_type_slug :: "voucher_type \<Rightarrow> string" where
  "voucher_type_slug x = (case x of Grant_days \<Rightarrow> ''grant_days'' | Stripe_discount \<Rightarrow> ''stripe_discount'')"

definition voucher_status_slug :: "voucher_status \<Rightarrow> string" where
  "voucher_status_slug x = (case x of V_active \<Rightarrow> ''active'' | V_revoked \<Rightarrow> ''revoked'')"

definition reason_slug :: "redeem_reason \<Rightarrow> string" where
  "reason_slug x = (case x of Invalid \<Rightarrow> ''invalid'' | Expired \<Rightarrow> ''expired'' | Exhausted \<Rightarrow> ''exhausted''
     | Already_redeemed \<Rightarrow> ''already_redeemed'')"

definition reason_words :: "redeem_reason \<Rightarrow> string" where
  "reason_words x = (case x of Already_redeemed \<Rightarrow> ''already redeemed'' | _ \<Rightarrow> reason_slug x)"

abbreviation jstr :: "string \<Rightarrow> json option" where
  "jstr s \<equiv> Some (J_str s)"

abbreviation jnum :: "int \<Rightarrow> json option" where
  "jnum i \<equiv> Some (jint i)"

abbreviation jbool :: "bool \<Rightarrow> json option" where
  "jbool b \<equiv> Some (J_bool b)"

definition flux_of :: "zats \<Rightarrow> json option" where
  "flux_of z = Some (J_num (of_int z / 10 ^ 8))"

definition months_of :: "int option \<Rightarrow> json option" where
  "months_of days = map_option (\<lambda>n. jint (n div 30)) days"

section \<open>Claims\<close>

definition tooSoonMessage :: "seconds \<Rightarrow> string" where
  "tooSoonMessage availableAt =
     ''this subscription moved in the last 30 days; it can move again after '' @ toISOString (availableAt * 1000)"

definition sendClaim :: "claim_outcome \<Rightarrow> (string \<times> json option) list \<Rightarrow> exn + reply" where
  "sendClaim outcome extra =
     (if \<not> c_accepted outcome then
        (if c_reason outcome = ''owned_by_other_device'' then
           send_err 409 ''owned_by_other_device''
             ''this subscription belongs to another device; confirm, then resend with transfer: true to move it here''
         else if c_reason outcome = ''transfer_too_soon'' then
           send_err 409 ''transfer_too_soon'' (tooSoonMessage (the_default 0 (c_availableAt outcome)))
         else if c_reason outcome = ''already_bound'' then
           send_err 409 ''already_bound'' ''this subscription already belongs to that device''
         else if c_reason outcome = ''no_subscription'' then
           send_err 404 ''no_subscription'' ''no active card subscription found for this checkout''
         else send_err 422 ''verify_failed'' (c_reason outcome))
      else send_ok
        ([(''accepted'', jbool True), (''days'', map_option jint (c_days outcome)),
          (''months'', months_of (c_days outcome)), (''state'', jstr ''pending''),
          (''transferred'', jbool (c_transferred outcome = Some True)),
          (''test'', jbool (c_test outcome = Some True))] @ extra))"

section \<open>Voucher redemption\<close>

definition REDEEM_BREAKER :: breaker_conf where
  "REDEEM_BREAKER = \<lparr>kc_maxAttempts = 50, kc_windowMs = 10 * 60000, kc_cooldownMs = 15 * 60000\<rparr>"

text \<open>\<open>alerter.alert\<close>: the webhook is called, or the throttle holds it back.\<close>

definition raise_alert :: "deps \<Rightarrow> millis \<Rightarrow> string \<Rightarrow> server \<Rightarrow> server" where
  "raise_alert d ms kind sv =
     (let (post, m) = alert (cf_alertWebhookUrl (d_cfg d)) ms kind (sv_lastSent sv)
      in sv\<lparr>sv_lastSent := m, sv_posted := (if post then sv_posted sv @ [kind] else sv_posted sv)\<rparr>)"

text \<open>\<open>redeemBreaker.recordInvalid()\<close>, whose trip pages the operator.\<close>

definition breaker_invalid :: "deps \<Rightarrow> millis \<Rightarrow> server \<Rightarrow> server" where
  "breaker_invalid d ms sv =
     (let (trip, k) = recordInvalid REDEEM_BREAKER ms (sv_breaker sv);
          sv1 = sv\<lparr>sv_breaker := k\<rparr>
      in if trip then raise_alert d ms ''voucher-bruteforce'' sv1 else sv1)"

text \<open>A voucher that has run out, in the two ways a device is told.\<close>

definition spent_reply :: "seconds \<Rightarrow> voucher_row \<Rightarrow> (exn + reply) option" where
  "spent_reply now v =
     (if (case v_expires_at v of None \<Rightarrow> False | Some e \<Rightarrow> e \<le> now)
      then Some (send_err 410 ''expired'' ''this code has expired'')
      else if v_max_redemptions v \<le> v_redemption_count v
      then Some (send_err 410 ''exhausted'' ''this code has been fully used'')
      else None)"

definition bad_code_reply :: "exn + reply" where
  "bad_code_reply = badRequest ''bad_code'' ''payment_code is not a valid CumulusVPN payment code''"

definition redeem_error_reply :: "exn \<Rightarrow> exn + reply" where
  "redeem_error_reply e =
     (case e of
        Redeem_error r \<Rightarrow>
          send_err (if r = Already_redeemed then 409 else 410) (reason_slug r) (''code '' @ reason_words r)
      | _ \<Rightarrow> Inl e)"

definition voucher_redeem :: "deps \<Rightarrow> millis \<Rightarrow> string \<Rightarrow> string \<Rightarrow> server \<Rightarrow> (exn + reply) \<times> server" where
  "voucher_redeem d ms payment_code code sv =
     (if isOpen ms (sv_breaker sv)
      then (send_err 429 ''rate_limited'' ''too many attempts; try again later'', sv)
      else if \<not> valid_code d payment_code then (bad_code_reply, sv)
      else case normalizeCode code of
        None \<Rightarrow> (send_err 404 ''invalid'' ''unknown code'', breaker_invalid d ms sv)
      | Some cc \<Rightarrow>
          (case byCanonicalCode cc (sv_db sv) of
             None \<Rightarrow> (send_err 404 ''invalid'' ''unknown code'', breaker_invalid d ms sv)
           | Some v \<Rightarrow>
               if v_status v = V_revoked
               then (send_err 404 ''invalid'' ''unknown code'', breaker_invalid d ms sv)
               else (case spent_reply (now_s ms) v of
                 Some r \<Rightarrow> (r, sv)
               | None \<Rightarrow>
                   if v_type v = Stripe_discount
                   then (send_ok [(''type'', jstr ''stripe_discount''), (''percent_off'', jnum (v_value v))], sv)
                   else if v_value v mod 30 \<noteq> 0 \<and> \<not> cf_dayGrantsEnabled (d_cfg d)
                   then (send_err 503 ''temporarily_unavailable'' ''this code cannot be redeemed yet; try again soon'', sv)
                   else (case with_db (redeemGrant (cf_priceZats (d_cfg d)) (now_s ms) v payment_code) sv of
                           (Inl e, sv') \<Rightarrow> (redeem_error_reply e, sv')
                         | (Inr _, sv') \<Rightarrow>
                             (send_ok [(''type'', jstr ''grant_days''), (''days'', jnum (v_value v)),
                                (''state'', jstr ''pending'')], sv')))))"

section \<open>Stripe\<close>

text \<open>The promotion code of a discount voucher, or the refusal.\<close>

definition resolve_discount :: "millis \<Rightarrow> string option \<Rightarrow> db \<Rightarrow> (exn + reply) + string option" where
  "resolve_discount ms voucher s =
     (case voucher of
        None \<Rightarrow> Inr None
      | Some code \<Rightarrow>
          (case Option.bind (normalizeCode code) (\<lambda>c. byCanonicalCode c s) of
             None \<Rightarrow> Inl (send_err 404 ''invalid'' ''unknown discount code'')
           | Some v \<Rightarrow>
               if v_status v = V_revoked \<or> v_type v \<noteq> Stripe_discount \<or> \<not> truthy (v_stripe_promo_id v)
               then Inl (send_err 404 ''invalid'' ''unknown discount code'')
               else (case spent_reply (now_s ms) v of Some r \<Rightarrow> Inl r | None \<Rightarrow> Inr (v_stripe_promo_id v))))"

definition stripe_checkout ::
  "deps \<Rightarrow> stripe_cfg \<Rightarrow> (checkout_request \<Rightarrow> exn + checkout_session) \<Rightarrow> millis \<Rightarrow> string \<Rightarrow> plan \<Rightarrow>
   string option \<Rightarrow> server \<Rightarrow> (exn + reply) \<times> server" where
  "stripe_checkout d cfg create ms payment_code plan voucher sv =
     (if \<not> valid_code d payment_code then (bad_code_reply, sv)
      else case resolve_discount ms voucher (sv_db sv) of
        Inl r \<Rightarrow> (r, sv)
      | Inr promoId \<Rightarrow>
          (case createCheckout cfg create payment_code plan promoId of
             Inl e \<Rightarrow> (Inl e, sv)
           | Inr (url, sessionId) \<Rightarrow> (send_ok [(''url'', jstr url), (''session_id'', jstr sessionId)], sv)))"

definition stripe_portal ::
  "deps \<Rightarrow> stripe_api \<Rightarrow> (string \<Rightarrow> exn + string) \<Rightarrow> string \<Rightarrow> string \<Rightarrow> server \<Rightarrow> (exn + reply) \<times> server" where
  "stripe_portal d api portal payment_code session_id sv =
     (if \<not> valid_code d payment_code then (bad_code_reply, sv)
      else case createPortalSession api portal session_id payment_code of
        Inl e \<Rightarrow> (Inl e, sv)
      | Inr None \<Rightarrow> (send_err 404 ''no_subscription'' ''no card subscription found for this checkout'', sv)
      | Inr (Some url) \<Rightarrow> (send_ok [(''url'', jstr url)], sv))"

definition stripe_transfer_route ::
  "deps \<Rightarrow> stripe_cfg \<Rightarrow> stripe_api \<Rightarrow> millis \<Rightarrow> string \<Rightarrow> string \<Rightarrow> server \<Rightarrow> (exn + reply) \<times> server" where
  "stripe_transfer_route d cfg api ms payment_code session_id sv =
     (if \<not> valid_code d payment_code then (bad_code_reply, sv)
      else reply_with (\<lambda>c. sendClaim c [])
        (with_db (transferSubscription (rail_env_of d) cfg api ms session_id payment_code) sv))"

text \<open>
  \<open>signature\<close> is the header, \<open>event\<close> what the library makes of the raw body and the
  signature; anything the rail throws is answered as a bad signature.
\<close>

definition stripe_webhook ::
  "deps \<Rightarrow> stripe_cfg \<Rightarrow> stripe_api \<Rightarrow> millis \<Rightarrow> string option \<Rightarrow> bool \<Rightarrow> exn + stripe_event \<Rightarrow> server \<Rightarrow>
   (exn + reply) \<times> server" where
  "stripe_webhook d cfg api ms signature has_body event sv =
     (if signature = None \<or> \<not> has_body then (badRequest ''bad_signature'' ''missing Stripe-Signature'', sv)
      else case handleWebhook (rail_env_of d) cfg api ms id id id event (sv_listCents sv) (sv_db sv) of
        (Inl e, cache, s') \<Rightarrow>
          (badRequest ''bad_signature'' ''webhook signature verification failed'',
           sv\<lparr>sv_listCents := cache, sv_db := s'\<rparr>)
      | (Inr outcome, cache, s') \<Rightarrow>
          (send_ok [(''received'', jbool True)], sv\<lparr>sv_listCents := cache, sv_db := s'\<rparr>))"

section \<open>Apple and Google\<close>

definition apple_verify ::
  "deps \<Rightarrow> apple_cfg \<Rightarrow> millis \<Rightarrow> apple_txn option \<times> bool \<Rightarrow> string \<Rightarrow> server \<Rightarrow> (exn + reply) \<times> server" where
  "apple_verify d cfg ms decoded payment_code sv =
     (if \<not> valid_code d payment_code then (bad_code_reply, sv)
      else reply_with (\<lambda>r.
          if \<not> ao_accepted r then send_err 422 ''verify_failed'' (ao_reason r)
          else send_ok [(''accepted'', jbool True), (''days'', map_option jint (ao_days r)),
            (''months'', months_of (ao_days r)), (''state'', jstr ''pending''),
            (''sandbox'', jbool (ao_sandbox r = Some True))])
        (with_db (apple_verifyPurchase (d_sha d) (rail_env_of d) cfg ms decoded payment_code) sv))"

definition apple_claim ::
  "deps \<Rightarrow> apple_cfg \<Rightarrow> millis \<Rightarrow> apple_txn option \<times> bool \<Rightarrow> string \<Rightarrow> bool option \<Rightarrow> server \<Rightarrow>
   (exn + reply) \<times> server" where
  "apple_claim d cfg ms decoded payment_code transfer sv =
     (if \<not> valid_code d payment_code then (bad_code_reply, sv)
      else reply_with (\<lambda>c. sendClaim c [(''sandbox'', jbool (c_test c = Some True))])
        (with_db (apple_claimPurchase (d_sha d) (rail_env_of d) cfg ms decoded payment_code
                    (transfer = Some True)) sv))"

definition apple_notifications ::
  "deps \<Rightarrow> apple_cfg \<Rightarrow> (string \<Rightarrow> apple_note option \<times> bool) \<Rightarrow> millis \<Rightarrow> json option \<Rightarrow> server \<Rightarrow>
   (exn + reply) \<times> server" where
  "apple_notifications d cfg decode ms body sv =
     (case Option.bind body (jget ''signedPayload'') of
        Some (J_str payload) \<Rightarrow>
          reply_with (\<lambda>outcome.
              if outcome = ''notification:verification_failed''
              then badRequest ''bad_payload'' ''notification verification failed''
              else send_ok [(''received'', jbool True)])
            (with_db (apple_handleNotification (rail_env_of d) cfg ms (decode payload)) sv)
      | _ \<Rightarrow> (badRequest ''bad_payload'' ''missing signedPayload'', sv))"

definition google_verify ::
  "deps \<Rightarrow> google_cfg \<Rightarrow> millis \<Rightarrow> exn + google_sub \<Rightarrow> string \<Rightarrow> string \<Rightarrow> server \<Rightarrow> (exn + reply) \<times> server" where
  "google_verify d cfg ms fetched payment_code purchase_token sv =
     (if \<not> valid_code d payment_code then (bad_code_reply, sv)
      else reply_with (\<lambda>r.
          if \<not> vo_accepted r then send_err 422 ''verify_failed'' (vo_reason r)
          else send_ok [(''accepted'', jbool True), (''days'', map_option jint (vo_days r)),
            (''months'', months_of (vo_days r)), (''state'', jstr ''pending''),
            (''test'', jbool (vo_test r = Some True))])
        (with_db (verifyPurchase (rail_env_of d) cfg ms fetched payment_code purchase_token True) sv))"

definition google_claim ::
  "deps \<Rightarrow> google_cfg \<Rightarrow> millis \<Rightarrow> exn + google_sub \<Rightarrow> string \<Rightarrow> string \<Rightarrow> bool option \<Rightarrow> server \<Rightarrow>
   (exn + reply) \<times> server" where
  "google_claim d cfg ms fetched payment_code purchase_token transfer sv =
     (if \<not> valid_code d payment_code then (bad_code_reply, sv)
      else reply_with (\<lambda>c. sendClaim c [])
        (with_db (claimPurchase (rail_env_of d) cfg ms fetched payment_code purchase_token
                    (transfer = Some True)) sv))"

definition bearer_of :: "string option \<Rightarrow> string option" where
  "bearer_of auth =
     (case auth of
        Some h \<Rightarrow> if starts_with ''Bearer '' h then Some (drop 7 h) else None
      | None \<Rightarrow> None)"

definition google_rtdn ::
  "deps \<Rightarrow> google_cfg \<Rightarrow> (string \<Rightarrow> exn + (string option \<times> bool option) option) \<Rightarrow> (string \<Rightarrow> rtdn_body) \<Rightarrow>
   millis \<Rightarrow> exn + google_sub \<Rightarrow> exn + google_sub \<Rightarrow> string option \<Rightarrow> json option \<Rightarrow> server \<Rightarrow>
   (exn + reply) \<times> server" where
  "google_rtdn d cfg ticket decode ms fetched1 fetched2 auth body sv =
     (if \<not> truthy (bearer_of auth) \<or> \<not> verifyOidcToken cfg (ticket (the (bearer_of auth)))
      then (send_err 401 ''unauthorized'' ''invalid Pub/Sub OIDC token'', sv)
      else case Option.bind (Option.bind body (jget ''message'')) (jget ''data'') of
        Some (J_str payload) \<Rightarrow>
          reply_with (\<lambda>outcome. send_ok [(''received'', jbool True)])
            (with_db (handleRtdn (rail_env_of d) cfg ms fetched1 fetched2 (decode payload)) sv)
      | _ \<Rightarrow> (badRequest ''bad_payload'' ''missing Pub/Sub message data'', sv))"

section \<open>Status and support\<close>

definition payment_status_route :: "deps \<Rightarrow> string \<Rightarrow> server \<Rightarrow> (exn + reply) \<times> server" where
  "payment_status_route d code sv =
     (if \<not> valid_code d code then (badRequest ''bad_code'' ''not a valid CumulusVPN payment code'', sv)
      else (send_ok [(''code'', jstr code),
          (''payments'', Some (J_arr (map (\<lambda>r. jobj
             [(''rail'', jstr (rail_slug (p_rail r))), (''days'', jnum (p_days r)),
              (''months'', jnum (p_days r div 30)), (''status'', jstr (payment_status_slug (p_status r))),
              (''txid'', Some (jnullable J_str (p_txid r))), (''created_at'', jnum (p_created_at r))])
             (byCode code 10 (sv_db sv)))))], sv))"

definition health :: "deps \<Rightarrow> millis \<Rightarrow> server \<Rightarrow> (exn + reply) \<times> server" where
  "health d ms sv =
     (let q = queueStats (now_s ms) (sv_db sv)
      in (send_ok [(''ok'', jbool True), (''queue_depth'', jnum (int (qs_pending q + qs_broadcast q))),
           (''price_schedule'', jstr (schedule_toString (cf_priceSchedule (d_cfg d))))], sv))"

definition admin_ok :: "deps \<Rightarrow> string option \<Rightarrow> bool" where
  "admin_ok d auth \<longleftrightarrow>
     d_sha d (utf8 (the_default [] auth)) = d_sha d (utf8 (''Bearer '' @ cf_adminToken (d_cfg d)))"

text \<open>\<open>requireAdmin\<close>: the handler runs only behind it.\<close>

definition as_admin ::
  "deps \<Rightarrow> string option \<Rightarrow> (server \<Rightarrow> (exn + reply) \<times> server) \<Rightarrow> server \<Rightarrow> (exn + reply) \<times> server" where
  "as_admin d auth h sv =
     (if \<not> admin_ok d auth then (send_err 401 ''unauthorized'' ''bad token'', sv) else h sv)"

definition treasury :: "deps \<Rightarrow> exn + zats \<Rightarrow> millis \<Rightarrow> server \<Rightarrow> (exn + reply) \<times> server" where
  "treasury d balance ms sv =
     (let q = queueStats (now_s ms) (sv_db sv);
          balanceZats = (case balance of Inl _ \<Rightarrow> - 1 | Inr z \<Rightarrow> z);
          balanceFlux = (if balanceZats < 0 then None else Some (of_int balanceZats / 10 ^ 8 :: rat))
      in (send_ok [(''treasury_address'', jstr (d_treasuryAddress d)),
           (''balance_flux'', Some (jnullable J_num balanceFlux)),
           (''pending_payments'', jnum (int (qs_pending q))),
           (''broadcast_payments'', jnum (int (qs_broadcast q))),
           (''pending_flux_needed'', flux_of (qs_pendingZats q)),
           (''oldest_unsettled_age_s'', Some (jnullable jint (qs_oldestUnsettledAge q))),
           (''low_balance'', jbool (case balanceFlux of None \<Rightarrow> False
              | Some b \<Rightarrow> b < cf_minTreasuryFlux (d_cfg d)))], sv))"

definition subscription_json :: "sub_row \<Rightarrow> json" where
  "subscription_json r = jobj
     [(''rail'', jstr (rail_slug (s_rail r))), (''external_id'', jstr (s_external_id r)),
      (''plan'', jstr (plan_slug (s_plan r))), (''status'', jstr (sub_status_slug (s_status r))),
      (''stripe_customer_id'', Some (jnullable J_str (s_stripe_customer_id r))),
      (''transferred_at'', Some (jnullable jint (s_transferred_at r))),
      (''created_at'', jnum (s_created_at r)), (''updated_at'', jnum (s_updated_at r))]"

definition transfer_json :: "transfer_row \<Rightarrow> json" where
  "transfer_json t = jobj
     [(''rail'', jstr (rail_slug (t_rail t))), (''external_id'', jstr (t_external_id t)),
      (''from_code'', Some (jnullable J_str (t_from_code t))), (''to_code'', jstr (t_to_code t)),
      (''actor'', jstr (actor_slug (t_actor t))), (''days'', jnum (t_days t)),
      (''created_at'', jnum (t_created_at t))]"

definition support_payment_json :: "payment_row \<Rightarrow> json" where
  "support_payment_json p = jobj
     [(''rail'', jstr (rail_slug (p_rail p))), (''days'', jnum (p_days p)), (''flux'', flux_of (p_flux_zats p)),
      (''status'', jstr (payment_status_slug (p_status p))), (''txid'', Some (jnullable J_str (p_txid p))),
      (''created_at'', jnum (p_created_at p)), (''confirmed_at'', Some (jnullable jint (p_confirmed_at p)))]"

definition subscriptions_route :: "deps \<Rightarrow> string option \<Rightarrow> server \<Rightarrow> (exn + reply) \<times> server" where
  "subscriptions_route d code sv =
     (case code of
        None \<Rightarrow> (badRequest ''bad_code'' ''code must be a valid CumulusVPN payment code'', sv)
      | Some c \<Rightarrow>
          if c = [] \<or> \<not> valid_code d c
          then (badRequest ''bad_code'' ''code must be a valid CumulusVPN payment code'', sv)
          else (send_ok [(''payment_code'', jstr c),
             (''subscriptions'', Some (J_arr (map subscription_json (listForCode c (sv_db sv))))),
             (''transfers'', Some (J_arr (map transfer_json (transfersForCode c 25 (sv_db sv))))),
             (''payments'', Some (J_arr (map support_payment_json (byCode c 25 (sv_db sv)))))], sv))"

section \<open>Support rebind\<close>

definition rebind_rail :: "json option \<Rightarrow> rail option" where
  "rebind_rail x =
     (if x = jstr ''google'' then Some Google else if x = jstr ''apple'' then Some Apple
      else if x = jstr ''stripe'' then Some Stripe else None)"

text \<open>What the rail does, if it is configured.\<close>

definition rail_rebind ::
  "deps \<Rightarrow> stripe_api \<Rightarrow> exn + google_sub \<Rightarrow> millis \<Rightarrow> rail \<Rightarrow> string \<Rightarrow> string \<Rightarrow> bool \<Rightarrow>
   (db \<Rightarrow> (exn + rebind_outcome) \<times> db) option" where
  "rail_rebind d api fetched ms rl ext code grant =
     (case rl of
        Google \<Rightarrow> map_option (\<lambda>x. google_adminRebind (rail_env_of d) (go_rail x) ms fetched ext code grant)
                    (cf_google (d_cfg d))
      | Apple \<Rightarrow> map_option (\<lambda>x. apple_adminRebind (rail_env_of d) (as_rail x) ms ext code grant)
                    (cf_apple (d_cfg d))
      | Stripe \<Rightarrow> map_option (\<lambda>x. stripe_adminRebind (rail_env_of d) (st_rail x) api ms id ext code grant)
                    (cf_stripe (d_cfg d))
      | Voucher \<Rightarrow> None)"

definition send_rebind :: "rail \<Rightarrow> string \<Rightarrow> string \<Rightarrow> rebind_outcome \<Rightarrow> exn + reply" where
  "send_rebind rl ext code r =
     (if \<not> r_ok r then
        (if r_reason r = ''not_found'' then send_err 404 ''not_found'' ''no such subscription''
         else send_err 409
           (if r_reason r = ''not_active'' \<or> r_reason r = ''no_current_period'' then r_reason r else ''cannot_grant'')
           (r_reason r))
      else send_ok [(''rail'', jstr (rail_slug rl)), (''external_id'', jstr ext), (''payment_code'', jstr code),
        (''previous_code'', Some (jnullable J_str (r_previousCode r))),
        (''days'', jnum (the_default 0 (r_days r))), (''grant'', jstr (the_default ''none'' (r_grant r))),
        (''test'', jbool (r_test r = Some True))])"

text \<open>The body's fields, in the order they are checked.\<close>

definition quoted :: "string \<Rightarrow> string" where
  "quoted s = CHR 0x27 # s @ [CHR 0x27]"

definition rebind_fields :: "deps \<Rightarrow> json option \<Rightarrow> (exn + reply) + rail \<times> string \<times> string \<times> bool" where
  "rebind_fields d body =
     (let b = (\<lambda>k. Option.bind body (jget k))
      in case rebind_rail (b ''rail'') of
           None \<Rightarrow> Inl (badRequest ''bad_request''
             (''rail must be '' @ quoted ''google'' @ '', '' @ quoted ''apple'' @ '' or '' @ quoted ''stripe''))
         | Some rl \<Rightarrow>
             (case b ''external_id'' of
                Some (J_str ext) \<Rightarrow>
                  if ext = [] \<or> 4000 < length ext
                  then Inl (badRequest ''bad_request'' ''external_id is required'')
                  else (case b ''payment_code'' of
                    Some (J_str c) \<Rightarrow>
                      if \<not> valid_code d c
                      then Inl (badRequest ''bad_code'' ''payment_code must be a valid CumulusVPN payment code'')
                      else if b ''grant_remaining'' \<notin> {None, jbool True, jbool False}
                      then Inl (badRequest ''bad_request'' ''grant_remaining must be a boolean'')
                      else Inr (rl, ext, c, b ''grant_remaining'' = jbool True)
                  | _ \<Rightarrow> Inl (badRequest ''bad_code'' ''payment_code must be a valid CumulusVPN payment code''))
              | _ \<Rightarrow> Inl (badRequest ''bad_request'' ''external_id is required'')))"

definition rebind_route ::
  "deps \<Rightarrow> stripe_api \<Rightarrow> exn + google_sub \<Rightarrow> millis \<Rightarrow> json option \<Rightarrow> server \<Rightarrow> (exn + reply) \<times> server" where
  "rebind_route d api fetched ms body sv =
     (case rebind_fields d body of
        Inl r \<Rightarrow> (r, sv)
      | Inr (rl, ext, c, grant) \<Rightarrow>
          (case get_sub rl ext (sv_db sv) of
             None \<Rightarrow> (send_err 404 ''not_found'' ''no such subscription'', sv)
           | Some known \<Rightarrow>
               if s_payment_code known = c \<and> \<not> grant
               then (send_err 409 ''already_bound'' ''this subscription already belongs to that code'', sv)
               else (case rail_rebind d api fetched ms rl ext c grant of
                       None \<Rightarrow> (send_err 409 ''rail_disabled''
                         (''the '' @ rail_slug rl @ '' rail is not configured on this bridge''), sv)
                     | Some f \<Rightarrow> reply_with (send_rebind rl ext c) (with_db f sv))))"

section \<open>Voucher administration\<close>

definition voucher_json :: "voucher_row \<Rightarrow> json" where
  "voucher_json v = jobj
     [(''id'', jnum (int (v_id v))), (''code'', jstr (v_code v)), (''type'', jstr (voucher_type_slug (v_type v))),
      (''value'', jnum (v_value v)), (''campaign'', jstr (v_campaign v)),
      (''max_redemptions'', jnum (v_max_redemptions v)), (''redemption_count'', jnum (v_redemption_count v)),
      (''per_code_limit'', jnum (v_per_code_limit v)), (''expires_at'', Some (jnullable jint (v_expires_at v))),
      (''status'', jstr (voucher_status_slug (v_status v))),
      (''stripe_coupon_id'', Some (jnullable J_str (v_stripe_coupon_id v))),
      (''stripe_promo_id'', Some (jnullable J_str (v_stripe_promo_id v))),
      (''created_at'', jnum (v_created_at v)), (''display_code'', jstr (displayCode (v_code v)))]"

text \<open>
  \<open>Math.min(Number(limit) || 100, 500)\<close> and \<open>Number(offset) || 0\<close>; SQLite refuses a limit or
  an offset that is not a whole number.
\<close>

definition query_number :: "string option \<Rightarrow> rat \<Rightarrow> jsnum" where
  "query_number x fallback = num_or (case x of None \<Rightarrow> NaN | Some s \<Rightarrow> js_number s) fallback"

fun min_num :: "jsnum \<Rightarrow> rat \<Rightarrow> jsnum" where
  "min_num (Fin x) m = Fin (min x m)"
| "min_num NaN m = NaN"
| "min_num (Infinity p) m = (if p then Fin m else Infinity p)"

fun whole :: "jsnum \<Rightarrow> int option" where
  "whole (Fin x) = (if is_whole x then Some \<lfloor>x\<rfloor> else None)"
| "whole _ = None"

definition vouchers_list ::
  "string option \<Rightarrow> string option \<Rightarrow> string option \<Rightarrow> string option \<Rightarrow> server \<Rightarrow> (exn + reply) \<times> server" where
  "vouchers_list campaign status limit offset sv =
     (let st = (if status = Some ''active'' then Some V_active
                else if status = Some ''revoked'' then Some V_revoked else None)
      in case (whole (min_num (query_number limit 100) 500), whole (query_number offset 0)) of
           (Some l, Some off) \<Rightarrow>
             (send_ok [(''vouchers'', Some (J_arr (map voucher_json (list_vouchers campaign st l off (sv_db sv)))))], sv)
         | _ \<Rightarrow> (Inl (Js_error ''datatype mismatch''), sv))"

record voucher_body =
  vb_type :: "json option"
  vb_value :: "json option"
  vb_count :: "json option"
  vb_code :: "json option"
  vb_campaign :: "string option"
  vb_max_redemptions :: "json option"
  vb_per_code_limit :: "json option"
  vb_expires_at :: "json option"

definition is_word :: "char \<Rightarrow> bool" where
  "is_word c \<longleftrightarrow> is_digit c \<or> is_lower c \<or> is_upper c \<or> c = CHR ''_''"

definition campaign_ok :: "string \<Rightarrow> bool" where
  "campaign_ok s \<longleftrightarrow> s = [] \<or> is_word (hd s) \<and> length s \<le> 40
     \<and> list_all (\<lambda>c. is_word c \<or> c \<in> set '' .:-'') (tl s)"

definition voucher_type_of :: "json option \<Rightarrow> voucher_type option" where
  "voucher_type_of x =
     (if x = jstr ''grant_days'' then Some Grant_days
      else if x = jstr ''stripe_discount'' then Some Stripe_discount else None)"

definition in_range :: "int \<Rightarrow> int \<Rightarrow> int option \<Rightarrow> bool" where
  "in_range lo hi x = (case x of None \<Rightarrow> False | Some i \<Rightarrow> lo \<le> i \<and> i \<le> hi)"

definition number_or_1 :: "json option \<Rightarrow> int option" where
  "number_or_1 x = (case x of None \<Rightarrow> Some 1 | Some j \<Rightarrow> whole (json_number j))"

text \<open>
  When the voucher expires, in whole seconds: \<open>e \<le> now\<close> is all that is asked of it, so a
  fraction counts up; infinity, like a missing value, never comes, and minus infinity is past.
\<close>

definition expires_of :: "json option \<Rightarrow> seconds option" where
  "expires_of x =
     (if json_truthy x then (case opt_number x of Fin t \<Rightarrow> Some \<lceil>t\<rceil> | Infinity False \<Rightarrow> Some 0 | _ \<Rightarrow> None)
      else None)"

definition vanity_of :: "json option \<Rightarrow> string option" where
  "vanity_of x = (case x of Some (J_str s) \<Rightarrow> if s = [] then None else Some s | _ \<Rightarrow> None)"

definition count_of :: "json option \<Rightarrow> bool \<Rightarrow> jsnum" where
  "count_of x has_vanity =
     (case x of
        Some j \<Rightarrow> if j = J_null then (if has_vanity then Fin 1 else NaN) else json_number j
      | None \<Rightarrow> if has_vanity then Fin 1 else NaN)"

text \<open>What the fields must satisfy before a code is chosen: the input of the batch, and the count.\<close>

definition create_fields ::
  "deps \<Rightarrow> voucher_body \<Rightarrow> (exn + reply) + create_vouchers_input \<times> string option \<times> int" where
  "create_fields d b =
     (let bad = (\<lambda>m. Inl (badRequest ''bad_request'' m));
          vanity = vanity_of (vb_code b);
          campaign = the_default [] (vb_campaign b)
      in case voucher_type_of (vb_type b) of
        None \<Rightarrow> bad (''type must be '' @ quoted ''grant_days'' @ '' or '' @ quoted ''stripe_discount'')
      | Some ty \<Rightarrow>
        (case whole (opt_number (vb_value b)) of
           None \<Rightarrow> bad ''value must be a positive integer''
         | Some value \<Rightarrow>
           if value < 1 then bad ''value must be a positive integer''
           else if ty = Grant_days \<and> 360 < value then bad ''grant value is capped at 360 days''
           else if \<not> campaign_ok campaign
           then bad ''campaign must be 1-40 chars: letters, digits, space, . : - _''
           else if \<not> in_range 1 100000 (number_or_1 (vb_max_redemptions b))
           then bad ''max_redemptions must be an integer 1..100000''
           else if \<not> in_range 0 1000 (number_or_1 (vb_per_code_limit b))
           then bad ''per_code_limit must be an integer 0..1000''
           else if ty = Stripe_discount \<and> 100 < value then bad ''percent_off is capped at 100''
           else if ty = Stripe_discount \<and> cf_stripe (d_cfg d) = None
           then Inl (send_err 409 ''stripe_disabled'' ''the Stripe rail is not configured on this bridge'')
           else if ty = Grant_days \<and> value mod 30 \<noteq> 0 \<and> \<not> cf_dayGrantsEnabled (d_cfg d)
           then Inl (send_err 409 ''day_grants_disabled''
             ''day-granular vouchers need the gateway fleet on the pro-rata rule (DAY_GRANTS_ENABLED)'')
           else if vanity \<noteq> None \<and> count_of (vb_count b) True \<noteq> Fin 1
           then bad ''a vanity code creates exactly one voucher''
           else if vanity = None \<and> \<not> in_range 1 1000 (whole (count_of (vb_count b) False))
           then bad ''count must be 1..1000''
           else Inr (\<lparr>cv_type = ty, cv_value = value, cv_campaign = Some campaign,
                  cv_maxRedemptions = number_or_1 (vb_max_redemptions b),
                  cv_perCodeLimit = number_or_1 (vb_per_code_limit b),
                  cv_expiresAt = expires_of (vb_expires_at b)\<rparr>,
                vanity, the (whole (count_of (vb_count b) (vanity \<noteq> None))))))"

text \<open>\<open>Array.from({ length: n }, generateCode)\<close>.\<close>

fun generate_codes :: "nat \<Rightarrow> u8 list \<Rightarrow> string list option" where
  "generate_codes 0 bs = Some []"
| "generate_codes (Suc n) bs =
     (case generateCode bs of
        None \<Rightarrow> None
      | Some (c, bs') \<Rightarrow> map_option (Cons c) (generate_codes n bs'))"

definition choose_codes ::
  "create_vouchers_input \<Rightarrow> string option \<Rightarrow> int \<Rightarrow> u8 list \<Rightarrow> db \<Rightarrow> (exn + reply) + string list" where
  "choose_codes input vanity n bs s =
     (case vanity of
        None \<Rightarrow>
          (case generate_codes (nat n) bs of
             None \<Rightarrow> Inl (Inl (Js_error ''crypto: no random bytes''))
           | Some cs \<Rightarrow> Inr cs)
      | Some v \<Rightarrow>
          (case normalizeCode v of
             None \<Rightarrow> Inl (badRequest ''bad_request''
               ''vanity code must be 6-20 chars from the unambiguous alphabet (no 0/O/1/I/L)'')
           | Some c \<Rightarrow>
               if cv_type input = Grant_days \<and> length c < 8
               then Inl (badRequest ''bad_request'' ''grant vanity codes must be at least 8 chars'')
               else if byCanonicalCode c s \<noteq> None then Inl (send_err 409 ''exists'' ''this code already exists'')
               else Inr [c]))"

definition projected_zats :: "zats \<Rightarrow> create_vouchers_input \<Rightarrow> nat \<Rightarrow> zats" where
  "projected_zats priceZats input n =
     int n * the_default 1 (cv_maxRedemptions input)
       * zatsForDays priceZats (if cv_type input = Grant_days then cv_value input else 360)"

text \<open>The discount of a batch at Stripe, for a batch of discounts.\<close>

definition provision_for ::
  "exn + string \<Rightarrow> (string \<Rightarrow> exn + string) \<Rightarrow> create_vouchers_input \<Rightarrow> string list \<Rightarrow> db \<Rightarrow>
   (exn + (string \<times> string list) option) \<times> db" where
  "provision_for coupon promo input codes s =
     (if cv_type input = Stripe_discount
      then (case provisionDiscount coupon promo (cv_value input) (the_default [] (cv_campaign input))
              codes (the_default 1 (cv_maxRedemptions input)) (cv_expiresAt input) s of
              (Inl e, s') \<Rightarrow> (Inl e, s')
            | (Inr ids, s') \<Rightarrow> (Inr (Some ids), s'))
      else (Inr None, s))"

definition vouchers_create ::
  "deps \<Rightarrow> exn + string \<Rightarrow> (string \<Rightarrow> exn + string) \<Rightarrow> u8 list \<Rightarrow> millis \<Rightarrow> voucher_body \<Rightarrow> server \<Rightarrow>
   (exn + reply) \<times> server" where
  "vouchers_create d coupon promo bs ms b sv =
     (case create_fields d b of
        Inl r \<Rightarrow> (r, sv)
      | Inr (input, vanity, n) \<Rightarrow>
          (case choose_codes input vanity n bs (sv_db sv) of
             Inl r \<Rightarrow> (r, sv)
           | Inr codes \<Rightarrow>
               (case with_db (provision_for coupon promo input codes) sv of
                  (Inl e, sv') \<Rightarrow> (Inl e, sv')
                | (Inr ids, sv') \<Rightarrow>
                    reply_with (\<lambda>rows. send_ok
                        [(''codes'', Some (J_arr (map (\<lambda>v. J_str (displayCode (v_code v))) rows))),
                         (''ids'', Some (J_arr (map (\<lambda>v. jint (int (v_id v))) rows))),
                         (''projected_cost_flux'',
                            flux_of (projected_zats (cf_priceZats (d_cfg d)) input (length rows)))])
                      (with_db (createBatch (now_s ms) input codes ids) sv'))))"

definition voucher_of_param :: "string \<Rightarrow> db \<Rightarrow> voucher_row option" where
  "voucher_of_param i s =
     (case whole (js_number i) of
        None \<Rightarrow> None
      | Some n \<Rightarrow> if n < 0 then None else voucher_by_id (nat n) s)"

text \<open>The promotion is deactivated at Stripe first; its failure is only logged.\<close>

definition voucher_revoke :: "deps \<Rightarrow> string \<Rightarrow> server \<Rightarrow> (exn + reply) \<times> server" where
  "voucher_revoke d i sv =
     (case voucher_of_param i (sv_db sv) of
        None \<Rightarrow> (send_err 404 ''not_found'' ''no such voucher'', sv)
      | Some v \<Rightarrow>
          (let s1 = (if truthy (v_stripe_promo_id v) \<and> cf_stripe (d_cfg d) \<noteq> None
                     then deactivatePromo (the (v_stripe_promo_id v)) (sv_db sv) else sv_db sv);
               (row, s2) = revoke (v_id v) s1
           in (case row of
                 None \<Rightarrow> Inl (Js_error ''TypeError'')
               | Some r \<Rightarrow> send_ok [(''id'', jnum (int (v_id r))), (''status'', jstr (voucher_status_slug (v_status r)))],
               sv\<lparr>sv_db := s2\<rparr>)))"

definition stats_json :: "campaign_stats \<Rightarrow> json" where
  "stats_json c = jobj
     [(''campaign'', jstr (cs_campaign c)), (''vouchers'', jnum (int (cs_vouchers c))),
      (''active'', jnum (int (cs_active c))), (''redemptions'', jnum (int (cs_redemptions c))),
      (''days_granted'', jnum (cs_days_granted c)), (''flux_spent'', Some (J_num (cs_flux_spent c))),
      (''last_redeemed_at'', Some (jnullable jint (cs_last_redeemed_at c)))]"

definition vouchers_stats :: "string option \<Rightarrow> server \<Rightarrow> (exn + reply) \<times> server" where
  "vouchers_stats campaign sv =
     (send_ok [(''campaigns'', Some (J_arr (map stats_json (stats campaign (sv_db sv)))))], sv)"

section \<open>Dispatch\<close>

datatype request =
    R_redeem string string
  | R_checkout "checkout_request \<Rightarrow> exn + checkout_session" string plan "string option"
  | R_portal stripe_api "string \<Rightarrow> exn + string" string string
  | R_transfer stripe_api string string
  | R_stripe_webhook stripe_api "string option" bool "exn + stripe_event"
  | R_apple_verify "apple_txn option \<times> bool" string
  | R_apple_claim "apple_txn option \<times> bool" string "bool option"
  | R_apple_notifications "string \<Rightarrow> apple_note option \<times> bool" "json option"
  | R_google_verify "exn + google_sub" string string
  | R_google_claim "exn + google_sub" string string "bool option"
  | R_google_rtdn "string \<Rightarrow> exn + (string option \<times> bool option) option" "string \<Rightarrow> rtdn_body"
      "exn + google_sub" "exn + google_sub" "string option" "json option"
  | R_status string
  | R_health
  | R_admin "string option" admin_request
and admin_request =
    R_treasury "exn + zats"
  | R_subscriptions "string option"
  | R_rebind stripe_api "exn + google_sub" "json option"
  | R_vouchers_list "string option" "string option" "string option" "string option"
  | R_vouchers_create "exn + string" "string \<Rightarrow> exn + string" "u8 list" voucher_body
  | R_revoke string
  | R_stats "string option"

definition behind :: "'c option \<Rightarrow> ('c \<Rightarrow> server \<Rightarrow> (exn + reply) \<times> server) \<Rightarrow> server \<Rightarrow> (exn + reply) \<times> server" where
  "behind cfg h sv = (case cfg of None \<Rightarrow> (Inr No_route, sv) | Some c \<Rightarrow> h c sv)"

fun handle_admin :: "deps \<Rightarrow> millis \<Rightarrow> admin_request \<Rightarrow> server \<Rightarrow> (exn + reply) \<times> server" where
  "handle_admin d ms (R_treasury balance) = treasury d balance ms"
| "handle_admin d ms (R_subscriptions code) = subscriptions_route d code"
| "handle_admin d ms (R_rebind api fetched body) = rebind_route d api fetched ms body"
| "handle_admin d ms (R_vouchers_list campaign status limit offset) = vouchers_list campaign status limit offset"
| "handle_admin d ms (R_vouchers_create coupon promo bs b) = vouchers_create d coupon promo bs ms b"
| "handle_admin d ms (R_revoke i) = voucher_revoke d i"
| "handle_admin d ms (R_stats campaign) = vouchers_stats campaign"

fun handle :: "deps \<Rightarrow> millis \<Rightarrow> request \<Rightarrow> server \<Rightarrow> (exn + reply) \<times> server" where
  "handle d ms (R_redeem payment_code code) = voucher_redeem d ms payment_code code"
| "handle d ms (R_checkout create code plan voucher) =
     behind (cf_stripe (d_cfg d)) (\<lambda>c. stripe_checkout d (st_rail c) create ms code plan voucher)"
| "handle d ms (R_portal api portal code session) =
     behind (cf_stripe (d_cfg d)) (\<lambda>c. stripe_portal d api portal code session)"
| "handle d ms (R_transfer api code session) =
     behind (cf_stripe (d_cfg d)) (\<lambda>c. stripe_transfer_route d (st_rail c) api ms code session)"
| "handle d ms (R_stripe_webhook api signature has_body event) =
     behind (cf_stripe (d_cfg d)) (\<lambda>c. stripe_webhook d (st_rail c) api ms signature has_body event)"
| "handle d ms (R_apple_verify decoded code) =
     behind (cf_apple (d_cfg d)) (\<lambda>c. apple_verify d (as_rail c) ms decoded code)"
| "handle d ms (R_apple_claim decoded code transfer) =
     behind (cf_apple (d_cfg d)) (\<lambda>c. apple_claim d (as_rail c) ms decoded code transfer)"
| "handle d ms (R_apple_notifications decode body) =
     behind (cf_apple (d_cfg d)) (\<lambda>c. apple_notifications d (as_rail c) decode ms body)"
| "handle d ms (R_google_verify fetched code token) =
     behind (cf_google (d_cfg d)) (\<lambda>c. google_verify d (go_rail c) ms fetched code token)"
| "handle d ms (R_google_claim fetched code token transfer) =
     behind (cf_google (d_cfg d)) (\<lambda>c. google_claim d (go_rail c) ms fetched code token transfer)"
| "handle d ms (R_google_rtdn ticket decode f1 f2 auth body) =
     behind (cf_google (d_cfg d)) (\<lambda>c. google_rtdn d (go_rail c) ticket decode ms f1 f2 auth body)"
| "handle d ms (R_status code) = payment_status_route d code"
| "handle d ms R_health = health d ms"
| "handle d ms (R_admin auth a) = as_admin d auth (handle_admin d ms a)"

text \<open>What the client sees, and the state after it.\<close>

definition answer :: "deps \<Rightarrow> millis \<Rightarrow> request \<Rightarrow> server \<Rightarrow> reply \<times> server" where
  "answer d ms r sv =
     (case handle d ms r sv of
        (Inl e, sv') \<Rightarrow> (error_handler (Thrown e), sv')
      | (Inr x, sv') \<Rightarrow> (x, sv'))"

definition serve :: "deps \<Rightarrow> (millis \<times> request) list \<Rightarrow> server \<Rightarrow> server" where
  "serve d rs sv = fold (\<lambda>(ms, r) sv. snd (answer d ms r sv)) rs sv"

section \<open>The treasury monitor\<close>

text \<open>The tick of the third loop of bridge/src/index.ts; \<open>balance\<close> is what the explorer says.\<close>

definition monitor_tick :: "deps \<Rightarrow> millis \<Rightarrow> exn + zats \<Rightarrow> server \<Rightarrow> server" where
  "monitor_tick d ms balance sv =
     (let q = queueStats (now_s ms) (sv_db sv);
          sv1 = (case qs_oldestUnsettledAge q of
                   None \<Rightarrow> sv
                 | Some age \<Rightarrow> if 3600 < age then raise_alert d ms ''stuck-queue'' sv else sv)
      in case balance of
           Inl _ \<Rightarrow> sv1
         | Inr z \<Rightarrow> if of_int z / 10 ^ 8 < cf_minTreasuryFlux (d_cfg d)
                    then raise_alert d ms ''low-balance'' sv1 else sv1)"

end
