(* ===== verification/Quiet.thy ===== *)
theory Quiet
  imports GoogleRail AppleRail StripeRail Vouchers
begin

text \<open>
  What the store rails do to the voucher tables: nothing. A handler of Google, Apple or
  Stripe keeps the schema's constraints and leaves the vouchers, the redemptions and the
  payouts of the voucher rail as they are, except that a paid invoice may record that a
  discount was used.
\<close>

definition quiet :: "db \<Rightarrow> db \<Rightarrow> bool" where
  "quiet s s' \<longleftrightarrow> (db_wf s \<longrightarrow> db_wf s') \<and> db_vouchers s' = db_vouchers s
     \<and> db_redemptions s' = db_redemptions s \<and> voucher_entries s' = voucher_entries s"

named_theorems quiet_ops "operations that leave the voucher tables alone"

lemma quiet_refl [quiet_ops]: "quiet s s"
  by (simp add: quiet_def)

lemma quiet_trans: "quiet s t \<Longrightarrow> quiet t u \<Longrightarrow> quiet s u"
  by (simp add: quiet_def)

lemma quiet_frame:
  assumes "db_wf s \<Longrightarrow> db_wf s'" and "db_vouchers s' = db_vouchers s" and "db_redemptions s' = db_redemptions s"
    and "db_payments s' = db_payments s"
  shows "quiet s s'"
  using assms by (simp add: quiet_def voucher_entries_def payment_ledger_def)

lemma quiet_voucher_inv:
  assumes "quiet s s'" and "voucher_inv s"
  shows "voucher_inv s'"
  using assms voucher_step.elsewhere [of s' s 0] voucher_step_inv [of 0 s s']
  by (simp add: quiet_def voucher_inv_def)

section \<open>Repositories\<close>

lemma quiet_repos [quiet_ops]:
  "quiet s t \<Longrightarrow> quiet s (upsert now rl ext code plan cust t)"
  "quiet s t \<Longrightarrow> quiet s (snd (rebind now rl ext code plan who days t))"
  "quiet s t \<Longrightarrow> quiet s (noteAppleExpiry otid e b t)"
  "quiet s t \<Longrightarrow> quiet s (setStatus now rl ext st t)"
  "quiet s t \<Longrightarrow> quiet s (mapAppleToken tok code t)"
  "quiet s t \<Longrightarrow> quiet s (add_call c t)"
  by (erule quiet_trans, rule quiet_frame,
      simp_all add: repo_simps upsert_wf rebind_wf noteAppleExpiry_wf setStatus_wf mapAppleToken_wf)+

lemma voucher_entries_other:
  "n_rail p \<noteq> Voucher \<Longrightarrow> payment_ledger s' = payment_ledger s @ [p] \<Longrightarrow> voucher_entries s' = voucher_entries s"
  by (simp add: voucher_entries_def)

lemma quiet_grant [quiet_ops]:
  assumes "quiet s t" and "rl \<noteq> Voucher"
  shows "quiet s (snd (rail_grant env ms rl k ref code days t))"
proof -
  let ?t = "snd (rail_grant env ms rl k ref code days t)"
  have "voucher_entries ?t = voucher_entries t"
    using rail_grant_ledger [of env ms rl k ref code days t] assms(2)
    by (auto simp: new_key_def voucher_entries_def)
  moreover have "db_vouchers ?t = db_vouchers t" "db_redemptions ?t = db_redemptions t"
    by (simp_all add: rail_grant_def repo_simps)
  ultimately have "quiet t ?t" by (simp add: quiet_def rail_grant_wf)
  with assms(1) show ?thesis by (rule quiet_trans)
qed

lemma quiet_move [quiet_ops]:
  assumes "quiet s t" and "rl \<noteq> Voucher"
  shows "quiet s (snd (move_sub env ms rl ext code plan who k days t))"
  using move_sub_snd [of env ms rl ext code plan who k days t]
proof (elim disjE exE conjE)
  fix g s1
  assume p: "period_grant env ms rl k ext code days t = (Inr g, s1)"
    and m: "move_sub env ms rl ext code plan who k days t
       = (Inr \<lparr>tr_days = days, tr_grant = g, tr_previous = owner_of rl ext t\<rparr>,
          snd (rebind (now_s ms) rl ext code plan who days s1))"
  have "s1 = (if 0 < days then snd (rail_grant env ms rl k ext code days t) else t)"
    using period_grant_snd [of env ms rl k ext code days t] p by simp
  then show ?thesis unfolding m snd_conv using assms by (auto intro: quiet_ops)
qed (use assms in simp)

section \<open>Google\<close>

lemma quiet_acknowledge [quiet_ops]: "quiet s t \<Longrightarrow> quiet s (acknowledgeIfNeeded sub token p t)"
  by (auto simp: acknowledgeIfNeeded_def intro: quiet_ops split: option.splits)

lemma quiet_google_settle [quiet_ops]:
  assumes "quiet s t"
  shows "quiet s (snd (google_settle env cfg ms code token sub facts t))"
proof -
  have "quiet s (settle_bind ms code token sub facts t)"
    unfolding settle_bind_def by (intro quiet_ops assms)
  then show ?thesis
    using settle_grant_snd [of env cfg ms code token facts "settle_bind ms code token sub facts t"]
    by (auto simp: google_settle_def intro: quiet_ops)
qed

lemma quiet_google_transferTo [quiet_ops]:
  "quiet s t \<Longrightarrow> quiet s (snd (google_transferTo env cfg ms code token facts who t))"
  unfolding google_transferTo_def by (rule quiet_move) simp_all

lemma quiet_verify [quiet_ops]: "quiet s (snd (verifyPurchase env cfg ms fetched code token strict s))"
  using verify_cases [of env cfg ms fetched code token strict s]
  by (elim disjE exE conjE) (simp_all add: quiet_ops)

text \<open>The state after a call whose result is only repacked.\<close>

lemma snd_repacked:
  "snd (case x of (Inl e, s') \<Rightarrow> (Inl e, s') | (Inr v, s') \<Rightarrow> (f v, g s'))
    = (case fst x of Inl _ \<Rightarrow> snd x | Inr _ \<Rightarrow> g (snd x))"
  by (auto split: prod.splits sum.splits)

lemma quiet_repacked [quiet_ops]:
  assumes "quiet s (snd x)" and "\<And>t. quiet s t \<Longrightarrow> quiet s (g t)"
  shows "quiet s (snd (case x of (Inl e, s') \<Rightarrow> (Inl e, s') | (Inr v, s') \<Rightarrow> (f v, g s')))"
  using assms by (simp add: snd_repacked split: sum.split)

lemma quiet_google_claim [quiet_ops]: "quiet s (snd (claimPurchase env cfg ms fetched code token tr s))"
  using claim_cases [of env cfg ms fetched code token tr s]
  by (elim disjE exE conjE) (auto intro!: quiet_repacked intro: quiet_ops)

lemma quiet_google_admin [quiet_ops]: "quiet s (snd (google_adminRebind env cfg ms fetched token code grant s))"
  by (auto simp: google_adminRebind_def case_prod_unfold Let_def quiet_ops split: option.splits sum.splits)

lemma quiet_rtdn [quiet_ops]: "quiet s (snd (handleRtdn env cfg ms f1 f2 body s))"
proof -
  have "quiet s (snd (rtdn_verify env cfg ms f1 f2 known token s))" for known token
    by (auto simp: rtdn_verify_def Let_def intro!: quiet_repacked intro: quiet_ops split: option.splits sum.splits)
  then show ?thesis
    by (auto simp: handleRtdn_def intro: quiet_ops split: rtdn_body.splits option.splits)
qed

section \<open>Apple\<close>

lemma quiet_note_expiry [quiet_ops]: "quiet s t \<Longrightarrow> quiet s (note_expiry otid x b t)"
  by (simp add: note_expiry_def quiet_ops split: option.split)

lemma quiet_apple_settle [quiet_ops]:
  assumes "quiet s t"
  shows "quiet s (snd (apple_settle env cfg ms code tid otid x sandbox days t))"
proof -
  have "quiet s (snd (sandboxGrant env cfg ms otid code u))" if "quiet s u" for u
    using sandboxGrant_snd [of env cfg ms otid code u] that by (elim disjE) (simp_all add: quiet_ops)
  with assms show ?thesis by (simp add: apple_settle_snd quiet_ops)
qed

lemma quiet_apple_transferTo [quiet_ops]:
  "quiet s t \<Longrightarrow> quiet s (snd (apple_transferTo env cfg ms code otid plan e sandbox who t))"
  by (simp add: apple_transferTo_snd Let_def quiet_ops split: sum.split)

lemma quiet_apple_verify [quiet_ops]: "quiet s (snd (apple_verifyPurchase sha env cfg ms decoded code s))"
  using apple_verify_cases [of sha env cfg ms decoded code s]
  by (elim disjE exE conjE) (simp_all add: quiet_ops)

lemma quiet_apple_claim [quiet_ops]: "quiet s (snd (apple_claimPurchase sha env cfg ms decoded code tr s))"
  using apple_claim_cases [of sha env cfg ms decoded code tr s]
  by (elim disjE exE conjE) (simp_all add: quiet_ops)

lemma quiet_apple_admin [quiet_ops]: "quiet s (snd (apple_adminRebind env cfg ms otid code grant s))"
  by (auto simp: apple_adminRebind_def case_prod_unfold Let_def quiet_ops split: option.splits sum.splits)

lemma quiet_apple_note [quiet_ops]: "quiet s (snd (apple_handleNotification env cfg ms decoded s))"
proof -
  have "quiet s (snd (apple_grant_note env cfg ms txn sandbox s))" for txn sandbox
    using apple_grant_note_cases [of env cfg ms txn sandbox s] by (elim disjE exE conjE) (simp_all add: quiet_ops)
  then show ?thesis
    by (auto simp: apple_handleNotification_def Let_def quiet_ops split: prod.splits option.splits)
qed

section \<open>Stripe\<close>

lemma quiet_stripe_calls [quiet_ops]:
  "quiet s t \<Longrightarrow> quiet s (rewriteMetadata subId code t)"
  "quiet s t \<Longrightarrow> quiet s (deactivatePromo p t)"
  by (simp_all add: rewriteMetadata_def deactivatePromo_def quiet_ops)

lemma quiet_stripe_transferTo [quiet_ops]:
  "quiet s t \<Longrightarrow> quiet s (snd (stripe_transferTo env cfg ms code subId sub p who grant t))"
  by (simp add: stripe_transferTo_def Let_def quiet_ops)

lemma quiet_stripe_transfer [quiet_ops]: "quiet s (snd (transferSubscription env cfg api ms sessionId code s))"
  using transferSubscription_cases [of env cfg api ms sessionId code s]
  by (elim disjE exE conjE) (simp_all add: quiet_ops)

lemma quiet_stripe_admin [quiet_ops]: "quiet s (snd (stripe_adminRebind env cfg api ms id i code grant s))"
  by (auto simp: stripe_adminRebind_def case_prod_unfold Let_def quiet_ops split: option.splits sum.splits)

lemma quiet_invoice_bind [quiet_ops]: "quiet s t \<Longrightarrow> quiet s (snd (invoice_bind cfg ms iv ls b t))"
  by (simp add: invoice_bind_def case_prod_unfold Let_def quiet_ops)

lemma quiet_provision [quiet_ops]:
  assumes "quiet s t"
  shows "quiet s (snd (provisionDiscount coupon promo pct campaign codes maxR e t))"
proof -
  have "quiet s (snd (create_promos promo c maxR e' cs u))" if "quiet s u" for c e' cs u
    using that
  proof (induction cs arbitrary: u)
    case (Cons x xs)
    from Cons.IH [OF quiet_repos(6) [OF Cons.prems]] Cons.prems show ?case
      by (auto simp: Let_def quiet_ops split: sum.splits prod.splits)
  qed simp
  then show ?thesis using assms
    by (auto simp: provisionDiscount_def Let_def case_prod_unfold quiet_ops split: sum.splits)
qed

text \<open>
  A paid invoice: quiet, but for the redemption of a discount voucher that it may record. The
  voucher is found by an id of Stripe's, so it is a discount as long as only discounts have one.
\<close>

definition promos_typed :: "db \<Rightarrow> bool" where
  "promos_typed s \<longleftrightarrow> (\<forall>v\<in>set (db_vouchers s).
     v_stripe_coupon_id v \<noteq> None \<or> v_stripe_promo_id v \<noteq> None \<longrightarrow> v_type v = Stripe_discount)"

definition store_inv :: "db \<Rightarrow> bool" where
  "store_inv s \<longleftrightarrow> voucher_inv s \<and> promos_typed s"

lemma store_inv_empty: "store_inv empty_db"
  using voucher_inv_empty by (auto simp: store_inv_def promos_typed_def empty_db_def)

lemma quiet_store_inv: "quiet s s' \<Longrightarrow> store_inv s \<Longrightarrow> store_inv s'"
  using quiet_voucher_inv [of s s'] by (simp add: store_inv_def promos_typed_def quiet_def)

lemma first_voucher_Some: "first_voucher look is = Some v \<Longrightarrow> \<exists>i\<in>set is. look i = Some v"
  by (induction "is") (auto split: option.splits)

lemma discount_voucher_typed:
  assumes "discount_voucher api iv s = Some v" and "promos_typed s"
  shows "v \<in> set (db_vouchers s)" and "v_type v = Stripe_discount"
proof -
  obtain i where "byStripePromoId i s = Some v \<or> byStripeCouponId i s = Some v"
    using assms(1) by (auto simp: discount_voucher_def dest!: first_voucher_Some split: sum.splits prod.splits option.splits)
  then have "v \<in> set (db_vouchers s) \<and> (v_stripe_promo_id v = Some i \<or> v_stripe_coupon_id v = Some i)"
    by (auto simp: byStripePromoId_def byStripeCouponId_def find_Some_iff)
  with assms(2) show "v \<in> set (db_vouchers s)" "v_type v = Stripe_discount"
    by (auto simp: promos_typed_def)
qed

lemma recordDiscount_promos: "promos_typed s \<Longrightarrow> promos_typed (snd (recordDiscountRedemption now i code pid s))"
  by (auto simp: recordDiscountRedemption_def promos_typed_def bump_def elim!: in_update_whereE)

lemma track_store_inv: "store_inv s \<Longrightarrow> store_inv (snd (trackDiscountRedemption api ms iv code s))"
  using discount_voucher_typed [of api iv s] discount_inv [of s _ "now_s ms" code None]
  by (auto simp: track_snd store_inv_def intro: recordDiscount_promos split: option.split)

lemma invoice_grant_snd:
  "snd (invoice_grant env api ms id iv subId code days s) = s
   \<or> (\<exists>t. t = snd (rail_grant env ms Stripe (invoice_key iv subId) subId code days s)
        \<and> (snd (invoice_grant env api ms id iv subId code days s) = t
           \<or> snd (invoice_grant env api ms id iv subId code days s) = snd (trackDiscountRedemption api ms iv code t)))"
  by (auto simp: invoice_grant_def Let_def split: prod.splits sum.splits)

lemma invoice_store_inv:
  assumes "store_inv s"
  shows "store_inv (snd (snd (onInvoicePaid env cfg api ms id id id iv cache s)))"
proof -
  have b: "store_inv (snd (invoice_bind cfg ms iv ls (i, c, p) s))" for ls i c p
    by (rule quiet_store_inv [OF _ assms]) (simp add: quiet_ops)
  moreover have "store_inv (snd (invoice_grant env api ms id iv i c days t))" if "store_inv t" for i c days t
  proof -
    have "store_inv (snd (rail_grant env ms Stripe (invoice_key iv i) i c days t))"
      by (rule quiet_store_inv [OF _ that]) (simp add: quiet_ops)
    with that show ?thesis using invoice_grant_snd [of env api ms iv i c days t] track_store_inv by auto
  qed
  ultimately show ?thesis
    using onInvoicePaid_cases [of env cfg api ms id id id iv cache s] assms by (auto simp: Let_def)
qed

lemma webhook_store_inv:
  assumes "store_inv s"
  shows "store_inv (snd (snd (handleWebhook env cfg api ms id id id event cache s)))"
proof -
  have "quiet s (snd (onCheckoutCompleted ms session s))" for session
    by (simp add: onCheckoutCompleted_def Let_def quiet_ops)
  moreover have "quiet s (snd (onChargeRefunded api ms ch s))" for ch
    by (auto simp: onChargeRefunded_def quiet_ops split: sum.splits option.splits)
  moreover have "quiet s (snd (onSubscriptionDeleted ms i s))" for i
    by (simp add: onSubscriptionDeleted_def quiet_ops)
  ultimately show ?thesis
    using assms invoice_store_inv [OF assms]
    by (auto simp: handleWebhook_def case_prod_unfold Let_def intro: quiet_store_inv
        split: sum.splits stripe_event.splits)
qed

end
