(* ===== verification/ServerInv.thy ===== *)
theory ServerInv
  imports Server Quiet
begin

text \<open>
  What holds of the bridge's database whatever requests are answered, in any order: the
  voucher store is consistent and never overspent, only discounts are known to Stripe, and
  the moves of a subscription by its buyers keep their distance. Each route keeps these, as
  \<open>keeps\<close> says, so any sequence does.
\<close>

definition keeps :: "db \<Rightarrow> db \<Rightarrow> bool" where
  "keeps s s' \<longleftrightarrow> (store_inv s \<longrightarrow> store_inv s') \<and> moves_ok s s'"

definition bridge_inv :: "db \<Rightarrow> bool" where
  "bridge_inv s \<longleftrightarrow> store_inv s \<and> limit_inv s"

lemma bridge_inv_empty: "bridge_inv empty_db"
  by (simp add: bridge_inv_def store_inv_empty limit_inv_empty)

lemma keeps_inv: "keeps s s' \<Longrightarrow> bridge_inv s \<Longrightarrow> bridge_inv s'"
  using limit_inv_step [of s s'] by (simp add: keeps_def bridge_inv_def)

named_theorems keeps_ops "handlers that keep the invariants of the database"

lemma keeps_refl [keeps_ops]: "keeps s s"
  by (simp add: keeps_def)

lemma keeps_quiet: "quiet s s' \<Longrightarrow> moves_ok s s' \<Longrightarrow> keeps s s'"
  using quiet_store_inv [of s s'] by (simp add: keeps_def)

section \<open>Rails\<close>

lemma keeps_rails [keeps_ops]:
  "keeps s (snd (verifyPurchase env gcfg ms fetched code token strict s))"
  "keeps s (snd (claimPurchase env gcfg ms fetched code token tr s))"
  "keeps s (snd (google_adminRebind env gcfg ms fetched token code grant s))"
  "keeps s (snd (handleRtdn env gcfg ms f1 f2 body s))"
  "keeps s (snd (apple_verifyPurchase sha env acfg ms decoded code s))"
  "keeps s (snd (apple_claimPurchase sha env acfg ms decoded code tr s))"
  "keeps s (snd (apple_adminRebind env acfg ms otid code grant s))"
  "keeps s (snd (apple_handleNotification env acfg ms note s))"
  "keeps s (snd (transferSubscription env scfg api ms sessionId code s))"
  "keeps s (snd (stripe_adminRebind env scfg api ms id i code grant s))"
  by (rule keeps_quiet, rule quiet_ops,
      rule verify_moves_ok claim_moves_ok admin_moves_ok rtdn_moves_ok apple_verify_moves_ok
        apple_claim_moves_ok apple_admin_moves_ok apple_note_moves_ok transferSubscription_moves_ok
        stripe_admin_moves_ok)+

lemma keeps_webhook [keeps_ops]:
  "keeps s (snd (snd (handleWebhook env cfg api ms id id id event cache s)))"
  by (simp add: keeps_def webhook_store_inv webhook_moves_ok)

section \<open>Vouchers\<close>

lemma insert_unstriped:
  "insert_vouchers now input None [] codes vs = Some vs' \<Longrightarrow>
     v \<in> set vs' \<Longrightarrow> v \<in> set vs \<or> v_stripe_coupon_id v = None \<and> v_stripe_promo_id v = None"
proof (induction codes arbitrary: vs)
  case (Cons c cs)
  then show ?case by (fastforce simp: Let_def new_voucher_def split: if_splits)
qed simp

lemma createBatch_promos:
  assumes inv: "store_inv s" and typed: "ids \<noteq> None \<Longrightarrow> cv_type input = Stripe_discount"
  shows "store_inv (snd (createBatch now input codes ids s))"
proof -
  let ?coupon = "map_option fst ids" and ?promos = "case ids of None \<Rightarrow> [] | Some (_, ps) \<Rightarrow> ps"
  have vi: "voucher_inv (snd (createBatch now input codes ids s))"
    using inv by (simp add: store_inv_def createBatch_inv)
  have wf: "vouchers_wf (db_vouchers s)" using inv by (simp add: store_inv_def voucher_inv_def db_wf_def)
  have "promos_typed (snd (createBatch now input codes ids s))"
  proof (cases "insert_vouchers now input ?coupon ?promos codes (db_vouchers s)")
    case None
    then show ?thesis using inv by (simp add: createBatch_def store_inv_def)
  next
    case (Some vs)
    have "v \<in> set (db_vouchers s) \<or> v_stripe_coupon_id v = None \<and> v_stripe_promo_id v = None
        \<or> v_type v = Stripe_discount" if "v \<in> set vs" for v
    proof (cases ids)
      case None
      then show ?thesis using insert_unstriped [of now input codes "db_vouchers s" vs v] Some that by auto
    next
      case (Some x)
      then show ?thesis
        using insert_vouchers_grow [OF \<open>insert_vouchers _ _ _ _ _ _ = Some vs\<close> wf] typed that by auto
    qed
    then show ?thesis
      using inv Some by (fastforce simp: createBatch_def store_inv_def promos_typed_def Let_def)
  qed
  with vi show ?thesis by (simp add: store_inv_def)
qed

lemma revoke_store_inv: "store_inv s \<Longrightarrow> store_inv (snd (revoke i s))"
  by (auto simp: store_inv_def revoke_inv) (auto simp: revoke_def Let_def promos_typed_def elim!: in_update_whereE)

lemma redeem_vouchers:
  "db_vouchers (snd (redeemGrant pz now v code s)) = db_vouchers s
   \<or> db_vouchers (snd (redeemGrant pz now v code s))
     = update_where (\<lambda>x. v_id x = v_id v \<and> redeemable now x) bump (db_vouchers s)"
  by (auto simp: redeemGrant_def Let_def insertIdempotent_def split: if_splits)

lemma redeem_store_inv:
  assumes "store_inv s" and "v \<in> set (db_vouchers s)"
  shows "store_inv (snd (redeemGrant pz now v code s))"
  using assms redeemGrant_inv [of s v pz now code] redeem_vouchers [of pz now v code s]
  by (auto simp: store_inv_def promos_typed_def bump_def elim!: in_update_whereE)

lemma voucher_moves_ok:
  "moves_ok s (snd (redeemGrant pz now v code s))"
  "moves_ok s (snd (createBatch now input codes ids s))"
  "moves_ok s (snd (revoke i s))"
  by (auto simp: redeemGrant_def createBatch_def revoke_def insertIdempotent_def Let_def
      intro: moves_ok_subs_same split: option.split)

lemma keeps_redeem: "v \<in> set (db_vouchers s) \<Longrightarrow> keeps s (snd (redeemGrant pz now v code s))"
  by (simp add: keeps_def redeem_store_inv voucher_moves_ok)

lemma keeps_revoke [keeps_ops]: "keeps s (snd (revoke i s))"
  by (simp add: keeps_def revoke_store_inv voucher_moves_ok)

lemma keeps_create:
  assumes "quiet s t" and "moves_ok s t" and "db_subs t = db_subs s" and "db_transfers t = db_transfers s"
    and "ids \<noteq> None \<Longrightarrow> cv_type input = Stripe_discount"
  shows "keeps s (snd (createBatch now input codes ids t))"
proof -
  let ?u = "snd (createBatch now input codes ids t)"
  have "db_subs ?u = db_subs s" "db_transfers ?u = db_transfers s"
    using assms(3,4) by (auto simp: createBatch_def Let_def split: option.split)
  then show ?thesis
    using createBatch_promos [OF quiet_store_inv [OF assms(1)] assms(5)] moves_ok_subs_same
    by (simp add: keeps_def)
qed

section \<open>Routes\<close>

lemma with_db_snd [simp]: "sv_db (snd (with_db f sv)) = snd (f (sv_db sv))"
  by (simp add: with_db_def case_prod_unfold)

lemma reply_with_snd [simp]: "snd (reply_with f x) = snd x"
  by (auto simp: reply_with_def split: prod.split sum.split)

lemma behind_snd: "snd (behind cfg h sv) = (case cfg of None \<Rightarrow> sv | Some c \<Rightarrow> snd (h c sv))"
  by (simp add: behind_def split: option.split)

lemma breaker_invalid_db [simp]: "sv_db (breaker_invalid d ms sv) = sv_db sv"
  by (simp add: breaker_invalid_def raise_alert_def case_prod_unfold Let_def)

lemma raise_alert_db [simp]: "sv_db (raise_alert d ms kind sv) = sv_db sv"
  by (simp add: raise_alert_def case_prod_unfold Let_def)

lemma redeem_route_cases:
  "sv_db (snd (voucher_redeem d ms payment_code code sv)) = sv_db sv
   \<or> (\<exists>c v. byCanonicalCode c (sv_db sv) = Some v \<and> normalizeCode code = Some c
        \<and> v_status v = V_active \<and> v_type v = Grant_days \<and> spent_reply (now_s ms) v = None
        \<and> valid_code d payment_code \<and> \<not> isOpen ms (sv_breaker sv)
        \<and> (v_value v mod 30 = 0 \<or> cf_dayGrantsEnabled (d_cfg d))
        \<and> sv_db (snd (voucher_redeem d ms payment_code code sv))
            = snd (redeemGrant (cf_priceZats (d_cfg d)) (now_s ms) v payment_code (sv_db sv)))"
proof (cases "isOpen ms (sv_breaker sv) \<or> \<not> valid_code d payment_code")
  case False
  then show ?thesis
  proof (cases "Option.bind (normalizeCode code) (\<lambda>c. byCanonicalCode c (sv_db sv))")
    case (Some v)
    then obtain c where c: "normalizeCode code = Some c" "byCanonicalCode c (sv_db sv) = Some v"
      by (auto simp: bind_eq_Some_conv)
    consider "v_status v = V_revoked" | r where "v_status v \<noteq> V_revoked" "spent_reply (now_s ms) v = Some r"
      | "v_status v \<noteq> V_revoked" "spent_reply (now_s ms) v = None" by (cases "spent_reply (now_s ms) v") auto
    then show ?thesis
    proof cases
      case 3
      then show ?thesis using False c
        by (cases "v_status v"; cases "v_type v")
          (auto simp: voucher_redeem_def with_db_def split: prod.split sum.split)
    qed (use False c in \<open>simp_all add: voucher_redeem_def\<close>)
  qed (use False in \<open>auto simp: voucher_redeem_def split: option.splits\<close>)
qed (auto simp: voucher_redeem_def)

lemma keeps_redeem_route [keeps_ops]: "keeps (sv_db sv) (sv_db (snd (voucher_redeem d ms payment_code code sv)))"
  using redeem_route_cases [of d ms payment_code code sv]
  by (auto simp: keeps_refl dest!: byCanonicalCode_Some intro: keeps_redeem)

lemma keeps_rail_routes [keeps_ops]:
  "keeps (sv_db sv) (sv_db (snd (stripe_checkout d scfg create ms code plan voucher sv)))"
  "keeps (sv_db sv) (sv_db (snd (stripe_portal d api portal code session sv)))"
  "keeps (sv_db sv) (sv_db (snd (stripe_transfer_route d scfg api ms code session sv)))"
  "keeps (sv_db sv) (sv_db (snd (stripe_webhook d scfg api ms signature has_body event sv)))"
  "keeps (sv_db sv) (sv_db (snd (apple_verify d acfg ms decoded code sv)))"
  "keeps (sv_db sv) (sv_db (snd (apple_claim d acfg ms decoded code tr sv)))"
  "keeps (sv_db sv) (sv_db (snd (apple_notifications d acfg decode ms body sv)))"
  "keeps (sv_db sv) (sv_db (snd (google_verify d gcfg ms fetched code token sv)))"
  "keeps (sv_db sv) (sv_db (snd (google_claim d gcfg ms fetched code token tr sv)))"
  "keeps (sv_db sv) (sv_db (snd (google_rtdn d gcfg ticket decode' ms f1 f2 auth body sv)))"
proof -
  show "keeps (sv_db sv) (sv_db (snd (stripe_checkout d scfg create ms code plan voucher sv)))"
    by (auto simp: stripe_checkout_def keeps_refl split: sum.splits)
  show "keeps (sv_db sv) (sv_db (snd (stripe_portal d api portal code session sv)))"
    by (auto simp: stripe_portal_def keeps_refl split: sum.splits option.splits)
  show "keeps (sv_db sv) (sv_db (snd (stripe_webhook d scfg api ms signature has_body event sv)))"
    using keeps_webhook [of "sv_db sv" "rail_env_of d" scfg api ms event "sv_listCents sv"]
    by (auto simp: stripe_webhook_def keeps_refl split: prod.splits sum.splits)
qed (simp_all add: stripe_transfer_route_def apple_verify_def apple_claim_def apple_notifications_def
    google_verify_def google_claim_def google_rtdn_def keeps_ops split: option.split json.split)

lemma provision_frame [simp]:
  "db_subs (snd (provisionDiscount coupon promo pct campaign codes maxR e s)) = db_subs s"
  "db_transfers (snd (provisionDiscount coupon promo pct campaign codes maxR e s)) = db_transfers s"
proof -
  have "db_subs (snd (create_promos promo c m e' cs u)) = db_subs u
      \<and> db_transfers (snd (create_promos promo c m e' cs u)) = db_transfers u" for c m e' cs u
  proof (induction cs arbitrary: u)
    case (Cons x xs)
    from Cons.IH [of "add_call (Stripe_create_promo c x m e') u"] show ?case
      by (auto simp: Let_def split: sum.splits prod.splits)
  qed simp
  then show "db_subs (snd (provisionDiscount coupon promo pct campaign codes maxR e s)) = db_subs s"
    "db_transfers (snd (provisionDiscount coupon promo pct campaign codes maxR e s)) = db_transfers s"
    by (auto simp: provisionDiscount_def Let_def case_prod_unfold split: sum.splits)
qed

lemma provision_for_ok:
  "quiet s (snd (provision_for coupon promo input codes s))"
  "db_subs (snd (provision_for coupon promo input codes s)) = db_subs s"
  "db_transfers (snd (provision_for coupon promo input codes s)) = db_transfers s"
  "fst (provision_for coupon promo input codes s) = Inr (Some ids) \<Longrightarrow> cv_type input = Stripe_discount"
  by (simp_all add: provision_for_def snd_repacked quiet_ops split: sum.split if_splits)

lemma keeps_create_route [keeps_ops]:
  "keeps (sv_db sv) (sv_db (snd (vouchers_create d coupon promo bs ms b sv)))"
proof (cases "create_fields d b")
  case fields: (Inr x)
  obtain input vanity n where x: "x = (input, vanity, n)" by (cases x)
  show ?thesis
  proof (cases "choose_codes input vanity n bs (sv_db sv)")
    case codes: (Inr cs)
    obtain r s1 where p: "provision_for coupon promo input cs (sv_db sv) = (r, s1)"
      by (cases "provision_for coupon promo input cs (sv_db sv)")
    note ok = provision_for_ok [where s = "sv_db sv" and coupon = coupon and promo = promo and input = input
        and codes = cs, unfolded p fst_conv snd_conv]
    have mv: "moves_ok (sv_db sv) s1" using ok(2,3) by (rule moves_ok_subs_same)
    note unf = vouchers_create_def fields x codes with_db_def p
    show ?thesis
    proof (cases r)
      case (Inl e)
      then show ?thesis using keeps_quiet [OF ok(1) mv] by (simp add: unf)
    next
      case (Inr ids)
      have typed: "ids \<noteq> None \<Longrightarrow> cv_type input = Stripe_discount" using ok(4) Inr by auto
      have "keeps (sv_db sv) (snd (createBatch (now_s ms) input cs ids s1))"
        by (rule keeps_create [OF ok(1) mv ok(2,3) typed])
      then show ?thesis by (simp add: unf Inr reply_with_snd case_prod_unfold del: with_db_snd)
    qed
  qed (simp add: vouchers_create_def fields x keeps_refl)
qed (simp add: vouchers_create_def keeps_refl)

lemma keeps_revoke_route [keeps_ops]: "keeps (sv_db sv) (sv_db (snd (voucher_revoke d i sv)))"
proof (cases "voucher_of_param i (sv_db sv)")
  case (Some v)
  let ?s1 = "if truthy (v_stripe_promo_id v) \<and> cf_stripe (d_cfg d) \<noteq> None
    then deactivatePromo (the (v_stripe_promo_id v)) (sv_db sv) else sv_db sv"
  have q: "quiet (sv_db sv) ?s1" by (simp add: quiet_ops)
  have "db_subs ?s1 = db_subs (sv_db sv)" "db_transfers ?s1 = db_transfers (sv_db sv)"
    by (simp_all add: deactivatePromo_def)
  then have "moves_ok (sv_db sv) (snd (revoke (v_id v) ?s1))"
    by (intro moves_ok_subs_same) (simp_all add: revoke_def Let_def)
  then have "keeps (sv_db sv) (snd (revoke (v_id v) ?s1))"
    using revoke_store_inv [OF quiet_store_inv [OF q]] by (simp add: keeps_def)
  then show ?thesis by (simp add: voucher_revoke_def Some case_prod_unfold Let_def)
qed (simp add: voucher_revoke_def keeps_refl)

lemma keeps_rebind_route [keeps_ops]: "keeps (sv_db sv) (sv_db (snd (rebind_route d api fetched ms body sv)))"
proof (cases "rebind_fields d body")
  case (Inr x)
  obtain rl ext c g where x: "x = (rl, ext, c, g)" by (cases x)
  have "keeps s (snd (f s))" if "rail_rebind d api fetched ms rl ext c g = Some f" for f s
    using that by (auto simp: rail_rebind_def keeps_ops split: rail.splits)
  then show ?thesis by (simp add: rebind_route_def Inr x keeps_refl split: option.split)
qed (simp add: rebind_route_def keeps_refl)

lemma keeps_admin [keeps_ops]: "keeps (sv_db sv) (sv_db (snd (handle_admin d ms a sv)))"
  by (cases a) (auto simp: keeps_ops treasury_def subscriptions_route_def vouchers_list_def vouchers_stats_def
      Let_def split: option.split)

lemma keeps_handle [keeps_ops]: "keeps (sv_db sv) (sv_db (snd (handle d ms r sv)))"
  by (cases r) (simp_all add: keeps_ops behind_snd payment_status_route_def health_def as_admin_def
      Let_def split: option.split)

lemma answer_snd [simp]: "snd (answer d ms r sv) = snd (handle d ms r sv)"
  by (auto simp: answer_def split: prod.split sum.split)

lemma serve_inv: "bridge_inv (sv_db sv) \<Longrightarrow> bridge_inv (sv_db (serve d rs sv))"
  unfolding serve_def
proof (induction rs arbitrary: sv)
  case (Cons x rs)
  obtain ms r where x: "x = (ms, r)" by (cases x)
  have "bridge_inv (sv_db (snd (answer d ms r sv)))"
    using keeps_inv [OF keeps_handle Cons.prems] by simp
  from Cons.IH [OF this] show ?case by (simp add: x)
qed simp

lemma served_inv: "bridge_inv (sv_db (serve d rs new_server))"
  by (rule serve_inv) (simp add: new_server_def bridge_inv_empty)

end
