(* ===== verification/ServerSafety.thy ===== *)
theory ServerSafety
  imports ServerInv
begin

text \<open>
  What the routes promise beyond the invariants: a request without the admin's token changes
  no voucher's terms, a redemption pays exactly once or changes nothing, guessing codes is
  cut off by the breaker, and what the replies give away.
\<close>

section \<open>Redemption\<close>

lemma redeem_route_pays:
  assumes "voucher_inv (sv_db sv)"
    and "voucher_redeem d ms payment_code code sv = (r, sv')" and "sv_db sv' \<noteq> sv_db sv"
  obtains v where "v \<in> set (db_vouchers (sv_db sv))" and "normalizeCode code = Some (v_code v)"
    and "v_status v = V_active" and "v_type v = Grant_days" and "redeemable (now_s ms) v"
    and "valid_code d payment_code"
    and "\<not> has_key redemption_key (v_id v, payment_code) (db_redemptions (sv_db sv))"
    and "r = send_ok [(''type'', jstr ''grant_days''), (''days'', jnum (v_value v)), (''state'', jstr ''pending'')]"
    and "voucher_entries (sv_db sv')
           = voucher_entries (sv_db sv) @ [(voucher_event_key (v_id v) payment_code, v_value v)]"
    and "redeemed (v_id v) (sv_db sv') = Suc (redeemed (v_id v) (sv_db sv))"
proof -
  let ?s = "sv_db sv" and ?pz = "cf_priceZats (d_cfg d)"
  from redeem_route_cases [of d ms payment_code code sv] assms(2,3) obtain c v where
    v: "byCanonicalCode c ?s = Some v" "normalizeCode code = Some c" "v_status v = V_active"
      "v_type v = Grant_days" "spent_reply (now_s ms) v = None" "valid_code d payment_code"
      "\<not> isOpen ms (sv_breaker sv)" "v_value v mod 30 = 0 \<or> cf_dayGrantsEnabled (d_cfg d)"
    and s': "sv_db sv' = snd (redeemGrant ?pz (now_s ms) v payment_code ?s)"
    by auto
  have vs: "v \<in> set (db_vouchers ?s)" "v_code v = c" using byCanonicalCode_Some [OF v(1)] by auto
  obtain x where x: "redeemGrant ?pz (now_s ms) v payment_code ?s = (x, sv_db sv')" using s' by (metis prod.collapse)
  obtain rid where rid: "x = Inr rid"
    using x redeemGrant_Inl [of ?pz "now_s ms" v payment_code ?s] assms(3) by (cases x) auto
  note red = x [unfolded rid]
  have reply: "r = send_ok [(''type'', jstr ''grant_days''), (''days'', jnum (v_value v)), (''state'', jstr ''pending'')]"
    using assms(2) v red by (auto simp: voucher_redeem_def with_db_def)
  have "redeemable (now_s ms) v"
    using v(3,5) by (auto simp: redeemable_def spent_reply_def split: option.splits if_splits)
  moreover have "\<not> has_key redemption_key (v_id v, payment_code) (db_redemptions ?s)"
    using already_redeemed_fails [of v payment_code ?s ?pz "now_s ms"] red by auto
  moreover note redeem_effect(1) [OF assms(1) red]
  moreover have "redeemed (v_id v) (sv_db sv') = Suc (redeemed (v_id v) ?s)"
    using redeem_effect(2) [OF assms(1) red, of "v_id v"] by simp
  ultimately show ?thesis using that [of v] vs v reply by auto
qed

text \<open>A revoked code is answered like one that never existed.\<close>

lemma revoked_like_unknown:
  assumes "byCanonicalCode c (sv_db sv) = Some v" and "v_status v = V_revoked"
    and "byCanonicalCode c s2 = None" and "normalizeCode code = Some c"
  shows "fst (voucher_redeem d ms pc code (sv\<lparr>sv_db := s2\<rparr>)) = fst (voucher_redeem d ms pc code sv)"
    and "snd (voucher_redeem d ms pc code (sv\<lparr>sv_db := s2\<rparr>)) = (snd (voucher_redeem d ms pc code sv))\<lparr>sv_db := s2\<rparr>"
  using assms
  by (simp_all add: voucher_redeem_def breaker_invalid_def raise_alert_def case_prod_unfold Let_def)

section \<open>Guessing\<close>

definition unknown_code :: "string \<Rightarrow> db \<Rightarrow> bool" where
  "unknown_code code s \<longleftrightarrow>
     (case Option.bind (normalizeCode code) (\<lambda>c. byCanonicalCode c s) of
        None \<Rightarrow> True | Some v \<Rightarrow> v_status v = V_revoked)"

text \<open>How many of the redemptions a device asks for are looked up and answered as unknown.\<close>

fun guesses :: "deps \<Rightarrow> (millis \<times> string \<times> string) list \<Rightarrow> server \<Rightarrow> nat" where
  "guesses d [] sv = 0"
| "guesses d ((ms, pc, code) # gs) sv =
     (case voucher_redeem d ms pc code sv of
        (r, sv') \<Rightarrow> (if r = send_err 404 ''invalid'' ''unknown code'' then 1 else 0) + guesses d gs sv')"

lemma redeem_unknown:
  assumes "unknown_code code (sv_db sv)"
  shows "voucher_redeem d ms pc code sv =
    (if isOpen ms (sv_breaker sv)
     then (send_err 429 ''rate_limited'' ''too many attempts; try again later'', sv)
     else if \<not> valid_code d pc then (bad_code_reply, sv)
     else (send_err 404 ''invalid'' ''unknown code'', breaker_invalid d ms sv))"
  using assms
  by (auto simp: voucher_redeem_def unknown_code_def bind_eq_None_conv split: option.splits)

lemma breaker_invalid_breaker [simp]:
  "sv_breaker (breaker_invalid d ms sv) = snd (recordInvalid REDEEM_BREAKER ms (sv_breaker sv))"
  by (simp add: breaker_invalid_def raise_alert_def case_prod_unfold Let_def)

abbreviation sealed :: "millis \<Rightarrow> breaker \<Rightarrow> bool" where
  "sealed T k \<equiv> T + 600000 \<le> k_openUntil k"

lemma guesses_sealed:
  assumes "\<forall>(ms, pc, code)\<in>set gs. ms < T + 600000 \<and> unknown_code code (sv_db sv)" and "sealed T (sv_breaker sv)"
  shows "guesses d gs sv = 0"
  using assms
proof (induction gs)
  case (Cons g gs)
  obtain ms pc code where g: "g = (ms, pc, code)" by (cases g)
  have "isOpen ms (sv_breaker sv)" using Cons.prems by (auto simp: g isOpen_def)
  with Cons show ?case by (simp add: g redeem_unknown) (simp add: send_err_def)
qed simp

lemma guesses_fresh:
  assumes "\<forall>(ms, pc, code)\<in>set gs. T \<le> ms \<and> ms < T + 600000 \<and> unknown_code code (sv_db sv)"
    and "\<forall>t\<in>set (k_attempts (sv_breaker sv)). T \<le> t" and "length (k_attempts (sv_breaker sv)) \<le> 50"
  shows "guesses d gs sv + length (k_attempts (sv_breaker sv)) \<le> 51"
  using assms
proof (induction gs arbitrary: sv)
  case (Cons g gs)
  obtain ms pc code where g: "g = (ms, pc, code)" by (cases g)
  let ?k = "sv_breaker sv"
  have ms: "T \<le> ms" "ms < T + 600000" and unk: "unknown_code code (sv_db sv)"
    using Cons.prems(1) by (auto simp: g)
  have gs: "\<forall>(ms, pc, code)\<in>set gs. T \<le> ms \<and> ms < T + 600000 \<and> unknown_code code (sv_db sv)"
    using Cons.prems(1) by simp
  show ?case
  proof (cases "isOpen ms ?k \<or> \<not> valid_code d pc")
    case True
    then show ?thesis using Cons.IH [OF gs Cons.prems(2,3)] unk
      by (auto simp: g redeem_unknown send_err_def bad_code_reply_def badRequest_def)
  next
    case False
    let ?sv = "breaker_invalid d ms sv"
    have all: "filter (\<lambda>t. ms - 10 * 60000 < t) (k_attempts ?k) = k_attempts ?k"
      using Cons.prems(2) ms by (auto simp: filter_id_conv)
    show ?thesis
    proof (cases "50 \<le> length (k_attempts ?k)")
      case True
      then have "sealed T (sv_breaker ?sv)"
        using False all ms by (simp add: recordInvalid_def Let_def REDEEM_BREAKER_def)
      then have "guesses d gs ?sv = 0" using gs by (intro guesses_sealed [of gs T]) auto
      then show ?thesis using Cons.prems(3) unk False by (simp add: g redeem_unknown)
    next
      case few: False
      then have "k_attempts (sv_breaker ?sv) = k_attempts ?k @ [ms]"
        using all by (simp add: recordInvalid_def Let_def REDEEM_BREAKER_def)
      then show ?thesis using Cons.IH [of ?sv] gs Cons.prems(2) few ms unk False
        by (simp add: g redeem_unknown)
    qed
  qed
qed simp

text \<open>
  Of the guesses made in any ten minutes on a bridge whose breaker has nothing recent, at most
  fifty-one are looked up.
\<close>

lemma guesses_bounded:
  assumes "\<forall>(ms, pc, code)\<in>set gs. T \<le> ms \<and> ms < T + 600000 \<and> unknown_code code (sv_db sv)"
    and "k_attempts (sv_breaker sv) = []"
  shows "guesses d gs sv \<le> 51"
  using guesses_fresh [of gs T sv d] assms by simp

section \<open>The admin's token\<close>

definition terms :: "voucher_row \<Rightarrow> voucher_row" where
  "terms v = v\<lparr>v_redemption_count := 0\<rparr>"

lemma terms_bump [simp]: "terms (bump v) = terms v"
  by (simp add: terms_def bump_def)

lemma terms_update: "map terms (update_where P bump vs) = map terms vs"
  by (induction vs) (auto simp: update_where_def)

lemma terms_quiet: "quiet s s' \<Longrightarrow> map terms (db_vouchers s') = map terms (db_vouchers s)"
  by (simp add: quiet_def)

lemma terms_webhook:
  "map terms (db_vouchers (snd (snd (handleWebhook env cfg api ms id id id event cache s)))) = map terms (db_vouchers s)"
proof -
  have b: "map terms (db_vouchers (snd (invoice_bind cfg ms iv ls x t))) = map terms (db_vouchers t)" for iv ls x t
    by (rule terms_quiet) (simp add: quiet_ops)
  have r: "map terms (db_vouchers (snd (rail_grant env ms Stripe k ref code days t))) = map terms (db_vouchers t)"
    for k ref code days t by (rule terms_quiet) (simp add: quiet_ops)
  have "map terms (db_vouchers (snd (trackDiscountRedemption api ms iv code t))) = map terms (db_vouchers t)" for iv code t
    by (auto simp: track_snd recordDiscountRedemption_def terms_update split: option.split)
  then have g: "map terms (db_vouchers (snd (invoice_grant env api ms id iv i c days t))) = map terms (db_vouchers t)"
    for iv i c days t using invoice_grant_snd [of env api ms iv i c days t] r by auto
  have inv: "map terms (db_vouchers (snd (snd (onInvoicePaid env cfg api ms id id id iv cache s)))) = map terms (db_vouchers s)"
    for iv using onInvoicePaid_cases [of env cfg api ms id id id iv cache s] b g by (auto simp: Let_def)
  have "quiet s (snd (onCheckoutCompleted ms session s))" for session
    by (simp add: onCheckoutCompleted_def Let_def quiet_ops)
  moreover have "quiet s (snd (onChargeRefunded api ms ch s))" for ch
    by (auto simp: onChargeRefunded_def quiet_ops split: sum.splits option.splits)
  moreover have "quiet s (snd (onSubscriptionDeleted ms i s))" for i
    by (simp add: onSubscriptionDeleted_def quiet_ops)
  ultimately show ?thesis using inv
    by (auto simp: handleWebhook_def case_prod_unfold Let_def terms_quiet split: sum.splits stripe_event.splits)
qed

definition authorized :: "deps \<Rightarrow> request \<Rightarrow> bool" where
  "authorized d r = (case r of R_admin auth _ \<Rightarrow> admin_ok d auth | _ \<Rightarrow> False)"

lemma unauthorized_refused:
  "\<not> admin_ok d auth \<Longrightarrow> handle d ms (R_admin auth a) sv = (send_err 401 ''unauthorized'' ''bad token'', sv)"
  by (simp add: as_admin_def)

lemma quiet_routes:
  "quiet (sv_db sv) (sv_db (snd (stripe_checkout d scfg create ms code plan voucher sv)))"
  "quiet (sv_db sv) (sv_db (snd (stripe_portal d api portal code session sv)))"
  "quiet (sv_db sv) (sv_db (snd (stripe_transfer_route d scfg api ms code session sv)))"
  "quiet (sv_db sv) (sv_db (snd (apple_verify d acfg ms decoded code sv)))"
  "quiet (sv_db sv) (sv_db (snd (apple_claim d acfg ms decoded code tr sv)))"
  "quiet (sv_db sv) (sv_db (snd (apple_notifications d acfg decode ms body sv)))"
  "quiet (sv_db sv) (sv_db (snd (google_verify d gcfg ms fetched code token sv)))"
  "quiet (sv_db sv) (sv_db (snd (google_claim d gcfg ms fetched code token tr sv)))"
  "quiet (sv_db sv) (sv_db (snd (google_rtdn d gcfg ticket decode' ms f1 f2 auth body sv)))"
proof -
  show "quiet (sv_db sv) (sv_db (snd (stripe_checkout d scfg create ms code plan voucher sv)))"
    by (auto simp: stripe_checkout_def quiet_refl split: sum.splits)
  show "quiet (sv_db sv) (sv_db (snd (stripe_portal d api portal code session sv)))"
    by (auto simp: stripe_portal_def quiet_refl split: sum.splits option.splits)
qed (simp_all add: stripe_transfer_route_def apple_verify_def apple_claim_def apple_notifications_def
    google_verify_def google_claim_def google_rtdn_def quiet_ops split: option.split json.split)

lemma unauthorized_terms:
  assumes "\<not> authorized d r"
  shows "map terms (db_vouchers (sv_db (snd (handle d ms r sv)))) = map terms (db_vouchers (sv_db sv))"
proof (cases r)
  case (R_redeem pc code)
  have "sv_db (snd (voucher_redeem d ms pc code sv)) = sv_db sv
      \<or> (\<exists>v. sv_db (snd (voucher_redeem d ms pc code sv))
             = snd (redeemGrant (cf_priceZats (d_cfg d)) (now_s ms) v pc (sv_db sv)))"
    using redeem_route_cases [of d ms pc code sv] by blast
  then show ?thesis
  proof (elim disjE exE)
    fix v
    assume "sv_db (snd (voucher_redeem d ms pc code sv)) = snd (redeemGrant (cf_priceZats (d_cfg d)) (now_s ms) v pc (sv_db sv))"
    then show ?thesis using redeem_vouchers [of "cf_priceZats (d_cfg d)" "now_s ms" v pc "sv_db sv"] R_redeem
      by (auto simp: terms_update)
  qed (simp add: R_redeem)
next
  case (R_stripe_webhook api signature has_body event)
  have "map terms (db_vouchers (sv_db (snd (stripe_webhook d cfg api ms signature has_body event sv))))
      = map terms (db_vouchers (sv_db sv))" for cfg
    using terms_webhook [of "rail_env_of d" cfg api ms event "sv_listCents sv" "sv_db sv"]
    by (cases "handleWebhook (rail_env_of d) cfg api ms id id id event (sv_listCents sv) (sv_db sv)")
      (auto simp: stripe_webhook_def split: sum.split)
  then show ?thesis by (simp add: R_stripe_webhook behind_snd split: option.split)
next
  case (R_admin auth a)
  then show ?thesis using assms by (simp add: authorized_def as_admin_def)
qed (simp_all add: behind_snd payment_status_route_def health_def Let_def terms_quiet [OF quiet_routes(1)]
    terms_quiet [OF quiet_routes(2)] terms_quiet [OF quiet_routes(3)] terms_quiet [OF quiet_routes(4)]
    terms_quiet [OF quiet_routes(5)] terms_quiet [OF quiet_routes(6)] terms_quiet [OF quiet_routes(7)]
    terms_quiet [OF quiet_routes(8)] terms_quiet [OF quiet_routes(9)] split: option.split)

lemma serve_terms:
  assumes "\<forall>(ms, r)\<in>set rs. \<not> authorized d r"
  shows "map terms (db_vouchers (sv_db (serve d rs sv))) = map terms (db_vouchers (sv_db sv))"
  using assms unfolding serve_def
proof (induction rs arbitrary: sv)
  case (Cons x rs)
  obtain ms r where x: "x = (ms, r)" by (cases x)
  with Cons unauthorized_terms [of d r ms sv] show ?case by simp
qed simp

section \<open>What a failure looks like\<close>

text \<open>A verified webhook that fails while it is processed is answered as a forged one.\<close>

lemma webhook_failure_reply:
  assumes "iv_amountPaid iv \<noteq> 0" and "resolveInvoiceBinding api iv (sv_db sv) = Inl e"
  shows "stripe_webhook d cfg api ms (Some sig) True (Inr (Invoice_paid iv)) sv
    = (badRequest ''bad_signature'' ''webhook signature verification failed'', sv)"
  using assms by (simp add: stripe_webhook_def handleWebhook_def onInvoicePaid_def)

text \<open>The page of vouchers has a cap; a negative limit escapes it.\<close>

lemma list_capped:
  assumes "whole (min_num (query_number limit 100) 500) = Some l" and "0 \<le> l"
  shows "length (list_vouchers campaign st l off s) \<le> 500"
proof -
  have "l \<le> 500"
    using assms(1) by (cases "query_number limit 100") (auto simp: is_whole_iff min_def split: if_splits)
  with assms(2) show ?thesis by (simp add: list_vouchers_def sql_page_def Let_def)
qed

lemma negative_limit:
  "query_number (Some ''-1'') 100 = Fin (- 1)"
  "length (list_vouchers None None (- 1) 0 s) = length (db_vouchers s)"
  by code_simp (simp add: list_vouchers_def sql_page_def)

text \<open>A campaign's \<open>active\<close> vouchers are counted once per redemption.\<close>

lemma active_overcount:
  assumes "v \<in> set (db_vouchers s)" and "unique_key v_id (db_vouchers s)" and "v_status v = V_active"
    and "length (filter (\<lambda>d. d_voucher_id d = v_id v) (db_redemptions s)) = Suc (Suc n)"
    and "filter (\<lambda>w. v_campaign w = v_campaign v) (db_vouchers s) = [v]"
  shows "cs_vouchers (stats_group s (v_campaign v)) = 1" and "cs_active (stats_group s (v_campaign v)) = Suc (Suc n)"
proof -
  obtain d ds where ds: "filter (\<lambda>d. d_voucher_id d = v_id v) (db_redemptions s) = d # ds"
    "length ds = Suc n" using assms(4) by (cases "filter (\<lambda>d. d_voucher_id d = v_id v) (db_redemptions s)") auto
  have rows: "joined s v = map (\<lambda>d. (v, Some d, Option.bind (d_payment_id d) (\<lambda>i. payment_by_id i s))) (d # ds)"
    by (simp add: joined_def ds)
  have "remdups (map (\<lambda>(v, _). v_id v) (joined s v)) = [v_id v]"
  proof -
    have "map (\<lambda>(v, _). v_id v) (joined s v) = replicate (Suc (Suc n)) (v_id v)"
      unfolding rows by (simp add: comp_def map_replicate_const ds(2))
    moreover have "remdups (replicate (Suc m) a) = [a]" for m and a :: nat by (induction m) auto
    ultimately show ?thesis by (simp only:)
  qed
  then show "cs_vouchers (stats_group s (v_campaign v)) = 1" by (simp add: stats_group_def assms(5) Let_def)
  show "cs_active (stats_group s (v_campaign v)) = Suc (Suc n)"
    by (simp add: stats_group_def assms(3,5) Let_def rows ds comp_def)
qed

end
