(* ===== verification/BridgeProperties.thy ===== *)
theory BridgeProperties
  imports Runs ServerSafety
begin

text \<open>
  The properties of the bridge's parts, each with an instance at a concrete state: the voucher
  store behind the HTTP surface, the three rails, the price schedule and the payouts. The
  example is a bridge configured from a small environment, on which the operator creates a
  voucher of thirty days and a device redeems it.
\<close>

section \<open>An example bridge\<close>


definition ex_config :: config where
  "ex_config = \<lparr>cf_port = 8080, cf_host = ''0.0.0.0'', cf_dbPath = ''/data/bridge.db'',
     cf_paymentAddress = ''t1pay'', cf_priceSchedule = [\<lparr>pe_from = 0, pe_flux = 20\<rparr>, \<lparr>pe_from = 2000000, pe_flux = 15\<rparr>],
     cf_priceFlux = 15, cf_priceZats = 1500000000, cf_feeZats = 10000, cf_treasuryWif = ''wif'',
     cf_explorerUrl = ''https://explorer.runonflux.io/api'', cf_explorerFallbackUrl = ''https://api.runonflux.io'',
     cf_adminToken = ''secret'', cf_alertWebhookUrl = None, cf_minTreasuryFlux = 200, cf_dayGrantsEnabled = False,
     cf_corsOrigins = [], cf_stripe = None, cf_apple = None,
     cf_google = Some \<lparr>go_serviceAccountJson = ''{}'', go_rtdnAudience = ''aud'',
       go_rail = \<lparr>gc_packageName = ''cvpn'', gc_basePlanMonthly = ''premium-monthly'',
         gc_basePlanAnnual = ''premium-annual'', gc_testGrants = False, gc_testGrantDays = 1, gc_rtdnEmail = ''e@x''\<rparr>\<rparr>\<rparr>"

definition ex_deps :: deps where
  "ex_deps = \<lparr>d_cfg = ex_config, d_b58 = (\<lambda>_. Some (replicate 20 0)), d_sha = (\<lambda>x. x),
     d_treasuryAddress = ''t1treasury''\<rparr>"

definition ex_body :: voucher_body where
  "ex_body = \<lparr>vb_type = jstr ''grant_days'', vb_value = jnum 30, vb_count = None, vb_code = jstr ''cvpn-sprng234'',
     vb_campaign = Some ''spring'', vb_max_redemptions = jnum 2, vb_per_code_limit = None, vb_expires_at = None\<rparr>"

definition ex_create :: "millis \<times> request" where
  "ex_create = (1000000, R_admin (Some ''Bearer secret'')
     (R_vouchers_create (Inl Sqlite_constraint) (\<lambda>_. Inl Sqlite_constraint) [] ex_body))"

definition ex_redeem :: "millis \<times> request" where
  "ex_redeem = (2000000, R_redeem ex_code ''Sprng 234'')"

definition ex_created :: server where
  "ex_created = serve ex_deps [ex_create] new_server"

definition ex_redeemed :: server where
  "ex_redeemed = serve ex_deps [ex_create, ex_redeem] new_server"

text \<open>The two states, worked out.\<close>

lemma whole_jint [simp]: "whole (json_number (jint i)) = Some i"
  by (simp add: jint_def)

definition ex_input :: create_vouchers_input where
  "ex_input = \<lparr>cv_type = Grant_days, cv_value = 30, cv_campaign = Some ''spring'',
     cv_maxRedemptions = Some 2, cv_perCodeLimit = Some 1, cv_expiresAt = None\<rparr>"

definition ex_voucher :: voucher_row where
  "ex_voucher = \<lparr>v_id = 1, v_code = ''SPRNG234'', v_type = Grant_days, v_value = 30, v_campaign = ''spring'',
     v_max_redemptions = 2, v_redemption_count = 0, v_per_code_limit = 1, v_expires_at = None,
     v_status = V_active, v_stripe_coupon_id = None, v_stripe_promo_id = None, v_created_at = 1000\<rparr>"

definition ex_stocked :: db where
  "ex_stocked = empty_db\<lparr>db_vouchers := [ex_voucher]\<rparr>"

lemma ex_codes:
  "campaign_ok ''spring''" "normalizeCode ''cvpn-sprng234'' = Some ''SPRNG234''"
  "normalizeCode ''Sprng 234'' = Some ''SPRNG234''"
  by code_simp+

lemma ex_fields: "create_fields ex_deps ex_body = Inr (ex_input, Some ''cvpn-sprng234'', 1)"
  by (simp add: create_fields_def ex_body_def ex_input_def voucher_type_of_def vanity_of_def ex_codes
      opt_number_def number_or_1_def in_range_def count_of_def expires_of_def)

lemma ex_batch: "createBatch 1000 ex_input [''SPRNG234''] None empty_db = (Inr [ex_voucher], ex_stocked)"
  by (simp add: createBatch_def new_voucher_def next_rowid_def voucher_check_def has_key_def empty_db_def
      the_default_def Let_def ex_input_def ex_voucher_def ex_stocked_def)

lemma ex_created_eq: "ex_created = new_server\<lparr>sv_db := ex_stocked\<rparr>"
proof -
  have "admin_ok ex_deps (Some ''Bearer secret'')"
    by (simp add: admin_ok_def ex_deps_def ex_config_def the_default_def)
  moreover have "cv_type ex_input = Grant_days" by (simp add: ex_input_def)
  moreover have "choose_codes ex_input (Some ''cvpn-sprng234'') 1 [] empty_db = Inr [''SPRNG234'']"
    by (simp add: choose_codes_def ex_codes ex_input_def byCanonicalCode_def empty_db_def)
  ultimately show ?thesis
    by (simp add: ex_created_def serve_def ex_create_def answer_def as_admin_def vouchers_create_def
        ex_fields provision_for_def with_db_def reply_with_def ex_batch now_s_def send_ok_def new_server_def)
qed

definition ex_paid :: db where
  "ex_paid = snd (redeemGrant 1500000000 2000 ex_voucher ex_code ex_stocked)"

lemma ex_redeem_route:
  "voucher_redeem ex_deps 2000000 ex_code ''Sprng 234'' ex_created
     = (send_ok [(''type'', jstr ''grant_days''), (''days'', jnum 30), (''state'', jstr ''pending'')],
        ex_created\<lparr>sv_db := ex_paid\<rparr>)"
proof -
  have "byCanonicalCode ''SPRNG234'' ex_stocked = Some ex_voucher"
    by (simp add: byCanonicalCode_def ex_stocked_def ex_voucher_def)
  moreover have "fst (redeemGrant 1500000000 2000 ex_voucher ex_code ex_stocked) = Inr 1"
    by code_simp
  ultimately show ?thesis
    by (cases "redeemGrant 1500000000 2000 ex_voucher ex_code ex_stocked")
      (simp add: voucher_redeem_def ex_codes ex_created_eq isOpen_def new_server_def new_breaker_def
        isValidPaymentCode_def ex_deps_def ex_config_def ex_code_def spent_reply_def ex_voucher_def with_db_def
        now_s_def ex_paid_def)
qed

lemma ex_redeemed_db: "sv_db ex_redeemed = ex_paid"
proof -
  have "ex_redeemed = snd (answer ex_deps 2000000 (R_redeem ex_code ''Sprng 234'') ex_created)"
    by (simp add: ex_redeemed_def serve_def ex_created_def ex_redeem_def)
  then have "ex_redeemed = ex_created\<lparr>sv_db := ex_paid\<rparr>" by (simp add: ex_redeem_route)
  then show ?thesis by (metis server.select_convs(1) server.surjective server.update_convs(1))
qed

lemma ex_paid_facts:
  "db_vouchers ex_paid = [bump ex_voucher]" "redeemed 1 ex_paid = 1" "voucher_days 1 ex_paid = 30"
  by (simp add: ex_paid_def) code_simp+

section \<open>Vouchers behind the HTTP surface\<close>

text \<open>
  C5. Whatever requests a bridge has answered, in any order, a grant voucher has been redeemed
  at most as often as it allows, at most once by one device, and the days queued for it are at
  most its value for each redemption it allows.
\<close>

theorem vouchers_never_overspent:
  assumes "v \<in> set (db_vouchers (sv_db (serve d rs new_server)))" and "v_type v = Grant_days"
  shows "int (redeemed (v_id v) (sv_db (serve d rs new_server))) \<le> v_max_redemptions v
    \<and> voucher_days (v_id v) (sv_db (serve d rs new_server)) \<le> v_value v * v_max_redemptions v
    \<and> length (filter (\<lambda>r. redemption_key r = (v_id v, code)) (db_redemptions (sv_db (serve d rs new_server)))) \<le> 1"
proof -
  let ?s = "sv_db (serve d rs new_server)"
  have inv: "voucher_inv ?s" using served_inv [of d rs] by (simp add: bridge_inv_def store_inv_def)
  then have ok: "voucher_ok ?s v" "voucher_check v" and u: "unique_key redemption_key (db_redemptions ?s)"
    using assms(1) by (simp_all add: voucher_inv_def list_all_iff db_wf_def vouchers_wf_def redemptions_wf_def)
  have "v_value v * v_redemption_count v \<le> v_value v * v_max_redemptions v"
    using ok assms(2) by (intro mult_left_mono) (auto simp: voucher_ok_def voucher_check_def)
  with ok assms(2) unique_key_once [OF u] show ?thesis by (auto simp: voucher_ok_def)
qed

theorem vouchers_never_overspent_witness:
  "int (redeemed 1 (sv_db ex_redeemed)) \<le> 2 \<and> voucher_days 1 (sv_db ex_redeemed) \<le> 30 * 2
    \<and> length (filter (\<lambda>r. redemption_key r = (1, ex_code)) (db_redemptions (sv_db ex_redeemed))) \<le> 1
    \<and> redeemed 1 (sv_db ex_redeemed) = 1"
proof -
  have "bump ex_voucher \<in> set (db_vouchers (sv_db ex_redeemed))" by (simp add: ex_redeemed_db ex_paid_facts)
  from vouchers_never_overspent [OF this [unfolded ex_redeemed_def], of ex_code, folded ex_redeemed_def]
  show ?thesis by (simp add: ex_voucher_def ex_redeemed_db ex_paid_facts [unfolded One_nat_def])
qed

text \<open>
  C6. Whatever requests a bridge has answered, on whichever rails, every move of a subscription
  that its buyer asked for came at least thirty days after the move before it.
\<close>

theorem moves_are_spaced: "spaced (transfers_of rl ext (sv_db (serve d rs new_server)))"
  using served_inv [of d rs] by (simp add: bridge_inv_def limit_inv_def)

text \<open>
  C7. A redemption that changes anything in the database was of an active, unexpired voucher
  with a redemption left, by a device with a valid code that had not used it; it adds exactly
  one payout, of the voucher's days, and one redemption, and says so. Every other outcome
  leaves the database as it was.
\<close>

theorem redemption_pays_once:
  assumes "voucher_inv (sv_db sv)"
    and "voucher_redeem d ms payment_code code sv = (r, sv')" and "sv_db sv' \<noteq> sv_db sv"
  shows "\<exists>v\<in>set (db_vouchers (sv_db sv)). normalizeCode code = Some (v_code v)
    \<and> v_status v = V_active \<and> v_type v = Grant_days \<and> redeemable (now_s ms) v
    \<and> isValidPaymentCode (d_b58 d) payment_code
    \<and> \<not> has_key redemption_key (v_id v, payment_code) (db_redemptions (sv_db sv))
    \<and> r = send_ok [(''type'', jstr ''grant_days''), (''days'', jnum (v_value v)), (''state'', jstr ''pending'')]
    \<and> voucher_entries (sv_db sv') = voucher_entries (sv_db sv) @ [(voucher_event_key (v_id v) payment_code, v_value v)]
    \<and> redeemed (v_id v) (sv_db sv') = Suc (redeemed (v_id v) (sv_db sv))"
  using redeem_route_pays [OF assms] by (metis (no_types, lifting))

theorem redemption_pays_once_witness:
  "\<exists>v\<in>set (db_vouchers ex_stocked). normalizeCode ''Sprng 234'' = Some (v_code v)
    \<and> voucher_entries ex_paid = voucher_entries ex_stocked @ [(voucher_event_key (v_id v) ex_code, v_value v)]
    \<and> redeemed (v_id v) ex_paid = Suc (redeemed (v_id v) ex_stocked)"
proof -
  have db: "sv_db ex_created = ex_stocked" by (simp add: ex_created_eq)
  have inv: "voucher_inv (sv_db ex_created)"
    using served_inv [of ex_deps "[ex_create]"] by (simp add: ex_created_def bridge_inv_def store_inv_def)
  have "db_vouchers ex_paid \<noteq> db_vouchers ex_stocked"
    by (simp add: ex_paid_facts ex_stocked_def ex_voucher_def bump_def)
  then have "ex_paid \<noteq> ex_stocked" by auto
  with redemption_pays_once [OF inv ex_redeem_route] show ?thesis by (auto simp: db)
qed

text \<open>
  A code that was revoked is answered like one that never existed, and counts as a guess
  like one: neither the reply nor the breaker tells them apart.
\<close>

theorem revoked_reads_as_unknown:
  assumes "normalizeCode code = Some c" and "byCanonicalCode c (sv_db sv) = Some v" and "v_status v = V_revoked"
    and "byCanonicalCode c t = None"
  shows "voucher_redeem d ms pc code (sv\<lparr>sv_db := t\<rparr>)
    = (fst (voucher_redeem d ms pc code sv), (snd (voucher_redeem d ms pc code sv))\<lparr>sv_db := t\<rparr>)"
  using revoked_like_unknown [OF assms(2-4,1)] by (simp add: prod_eq_iff)

theorem revoked_reads_as_unknown_witness:
  "fst (voucher_redeem ex_deps 3000000 ex_code ''Sprng 234'' (ex_created\<lparr>sv_db := empty_db\<rparr>))
    = fst (voucher_redeem ex_deps 3000000 ex_code ''Sprng 234'' (ex_created\<lparr>sv_db := snd (revoke 1 ex_stocked)\<rparr>))"
proof -
  have "byCanonicalCode ''SPRNG234'' (snd (revoke 1 ex_stocked)) = Some (ex_voucher\<lparr>v_status := V_revoked\<rparr>)"
    "byCanonicalCode ''SPRNG234'' empty_db = None" by code_simp+
  with revoked_reads_as_unknown [where sv = "ex_created\<lparr>sv_db := snd (revoke 1 ex_stocked)\<rparr>" and c = "''SPRNG234''"
      and code = "''Sprng 234''" and t = empty_db and d = ex_deps and ms = 3000000 and pc = ex_code]
  show ?thesis by (simp add: ex_codes)
qed



text \<open>
  Requests without the admin's token create no voucher, revoke none and change no value,
  limit, expiry or code of one: all they can move is the count of redemptions.
\<close>

theorem vouchers_need_the_admin:
  assumes "\<forall>(ms, r)\<in>set rs. \<not> authorized d r"
  shows "map terms (db_vouchers (sv_db (serve d rs sv))) = map terms (db_vouchers (sv_db sv))"
  using assms by (rule serve_terms)

theorem vouchers_need_the_admin_witness:
  "map terms (db_vouchers (sv_db (serve ex_deps [(1, R_admin (Some ''Bearer guess'') (R_revoke ''1'')), ex_redeem] ex_created)))
    = [ex_voucher]"
proof -
  have "\<forall>(ms, r)\<in>set [(1, R_admin (Some ''Bearer guess'') (R_revoke ''1'')), ex_redeem]. \<not> authorized ex_deps r"
    by (simp add: authorized_def ex_redeem_def admin_ok_def ex_deps_def ex_config_def the_default_def utf8_def utf8_char_def)
  from vouchers_need_the_admin [OF this, of ex_created] show ?thesis
    by (simp add: ex_created_eq ex_stocked_def terms_def ex_voucher_def)
qed

section \<open>Prices, grants and payouts\<close>

text \<open>
  The price taken from a payment mined at a height is the lowest that was in force within
  the grace window, and the one a payout is sized at is the highest of those over the heights
  it can be mined at: the walks over the schedule compute exactly these extremes.
\<close>

theorem price_walks_are_extremes:
  assumes "wf_schedule es" and "lo \<le> hi"
  shows "effective es lo = Min (price_at es ` {lo - GRACE_BLOCKS..lo})
    \<and> maxEffective es lo hi = Max (effective es ` {lo..hi})"
  using effective_Min [OF assms(1)] maxEffective_Max [OF assms] by blast

theorem price_walks_are_extremes_witness:
  "maxEffective (cf_priceSchedule ex_config) 1999999 2000060 = Max (effective (cf_priceSchedule ex_config) ` {1999999..2000060})"
proof -
  have "wf_schedule (cf_priceSchedule ex_config)" by (simp add: ex_config_def wf_schedule_def)
  from price_walks_are_extremes [OF this, of 1999999 2000060] show ?thesis by simp
qed

text \<open>
  At the price it was sized at, a payout buys exactly the days of the grant: rounding up
  to a whole zat neither loses a day nor gives one away.
\<close>

theorem payout_buys_exactly_its_days:
  assumes "p = of_int pz / 10 ^ 8" and "32 < pz" and "0 \<le> d"
  shows "gateway_days (zatsForDays pz d) p = d"
  using assms by (rule gateway_days_exact)

theorem payout_buys_exactly_its_days_witness: "gateway_days (zatsForDays 1500000000 7) 15 = 7"
  by (rule payout_buys_exactly_its_days) simp_all

text \<open>
  The outputs selected for a payout are the fewest that suffice: no choice of usable
  outputs worth the amount is shorter.
\<close>

theorem selected_inputs_are_fewest:
  assumes "selectUtxos av ex needed = Inr sel" and "\<And>u. u \<in> set av \<Longrightarrow> 0 \<le> u_satoshis u"
    and "mset us \<subseteq># mset (filter (\<lambda>u. outpoint_key (u_out u) \<notin> ex) av)"
    and "needed \<le> sats us" and "us \<noteq> []"
  shows "length (sel_inputs sel) \<le> length us"
  using assms by (rule selectUtxos_fewest)

theorem selected_inputs_are_fewest_witness:
  "\<exists>sel. selectUtxos (ex_utxos ''ff'') {} 1000 = Inr sel \<and> length (sel_inputs sel) \<le> 1"
proof -
  have "isl (selectUtxos (ex_utxos ''ff'') {} 1000) = False" by code_simp
  then obtain sel where sel: "selectUtxos (ex_utxos ''ff'') {} 1000 = Inr sel" by (auto simp: isl_def) (metis sumE)
  have "length (sel_inputs sel) \<le> length (ex_utxos ''ff'')"
    by (rule selected_inputs_are_fewest [OF sel]) (auto simp: ex_utxos_def)
  with sel show ?thesis by (simp add: ex_utxos_def)
qed

text \<open>
  C34. Grants delivered in any order, and each any number of times, are each recorded at most
  once under their rail and event, and a delivery that was recorded is ignored from then on.
\<close>

theorem redelivered_grants_are_ignored:
  assumes "e \<in> set es" and "new_ok e"
  shows "insertIdempotent now e (fold (\<lambda>e s. snd (insertIdempotent now e s)) es empty_db)
      = (Inr None, fold (\<lambda>e s. snd (insertIdempotent now e s)) es empty_db)
    \<and> length (filter (\<lambda>x. new_key x = k) (payment_ledger (fold (\<lambda>e s. snd (insertIdempotent now e s)) es empty_db))) \<le> 1"
  using pq.redelivery_ignored [OF assms] pq.recorded_once [of empty_db] by (simp add: payment_ledger_def empty_db_def)

theorem redelivered_grants_are_ignored_witness:
  "fst (insertIdempotent 9 (ex_grant ''a'') (fold (\<lambda>e s. snd (insertIdempotent 9 e s)) [ex_grant ''a'', ex_grant ''b''] empty_db)) = Inr None"
proof -
  have "new_ok (ex_grant ''a'')" by (simp add: new_ok_def ex_grant_def)
  from redelivered_grants_are_ignored [where es = "[ex_grant ''a'', ex_grant ''b'']" and now = 9, OF _ this] show ?thesis
    by simp
qed

text \<open>
  A voucher code printed with its prefix and dashes is read back as itself, and a generated
  one always is.
\<close>

theorem printed_code_reads_back:
  assumes "generateCode bs = Some (c, bs')"
  shows "normalizeCode (displayCode c) = Some c"
  using generateCode_canonical [OF assms] by (intro normalizeCode_display) auto

theorem printed_code_reads_back_witness: "normalizeCode (displayCode ''2222222222'') = Some ''2222222222''"
proof -
  have "map_option fst (generateCode (replicate 10 0)) = Some ''2222222222''" by code_simp
  then obtain bs' where "generateCode (replicate 10 0) = Some (''2222222222'', bs')" by auto
  then show ?thesis by (rule printed_code_reads_back)
qed





end
