(* ===== verification/RailProperties.thy ===== *)
theory RailProperties
  imports BridgeProperties
begin

text \<open>
  The properties of the three payment rails: who owns a subscription after a purchase, a claim
  or a move, how often and for how many days a period is paid, and what the Stripe webhook
  does when a delivery comes late or again.
\<close>

section \<open>An example subscription\<close>

text \<open>A live monthly Stripe subscription of another device, which a claim moves to the example code.\<close>

definition ex_env_rail :: rail_env where "ex_env_rail = rail_env_of ex_deps"
definition ex_stripe :: stripe_cfg where
  "ex_stripe = \<lparr>sc_priceMonthly = ''pm'', sc_priceAnnual = ''pa'', sc_successUrl = ''u'', sc_cancelUrl = ''c'', sc_portalReturnUrl = ''c'', sc_testGrants = False\<rparr>"
definition ex_sub :: stripe_sub where
  "ex_sub = \<lparr>ss_status = ''active'', ss_livemode = True, ss_item = Some \<lparr>si_priceId = Some ''pm'', si_currentPeriodEnd = Some 3000\<rparr>,
    ss_currentPeriodEnd = None, ss_metadata = \<lparr>me_cvpn_code = Some ''aaaaaaaaaaaaaaaaaaaaaa'', me_cvpn_plan = Some ''monthly''\<rparr>\<rparr>"
definition ex_session :: checkout_session where
  "ex_session = \<lparr>cs_id = ''cs'', cs_url = None, cs_metadata = None, cs_customer = None, cs_subscription = Some (Ref ''sub'')\<rparr>"
definition ex_api :: stripe_api where
  "ex_api = \<lparr>ap_session = (\<lambda>_. Inr ex_session), ap_subscription = (\<lambda>_. Inr ex_sub), ap_invoice = (\<lambda>_. Inl Sqlite_constraint),
    ap_lines = (\<lambda>_. Inr []), ap_discounts = (\<lambda>_. Inr []), ap_price = (\<lambda>_. Inr (Some 499, ''usd'')), ap_intentInvoice = (\<lambda>_. Inr None)\<rparr>"
definition ex_invoice :: invoice where
  "ex_invoice = \<lparr>iv_id = Some ''in'', iv_created = 1, iv_livemode = True, iv_amountPaid = 499, iv_discountAmounts = [],
    iv_customer = None, iv_linesHasMore = True, iv_lines = [], iv_currency = ''usd'', iv_totalExcludingTax = None,
    iv_subtotal = None, iv_discounts = [], iv_parentSubscription = Some (Ref ''sub''), iv_parentMetadata = Some (ss_metadata ex_sub),
    iv_legacySubscription = None, iv_legacyMetadata = None\<rparr>"
definition ex_bound :: db where
  "ex_bound = upsert 1000 Stripe ''sub'' ''aaaaaaaaaaaaaaaaaaaaaa'' Monthly None empty_db"
lemma ex_binding: "resolveInvoiceBinding ex_api ex_invoice ex_bound = Inr (Some (''sub'', ''aaaaaaaaaaaaaaaaaaaaaa'', Monthly))"
  by code_simp

lemma ex_bound_sub: "get_sub Stripe ''sub'' ex_bound = Some \<lparr>s_rail = Stripe, s_external_id = ''sub'', s_payment_code = ''aaaaaaaaaaaaaaaaaaaaaa'', s_plan = Monthly,
            s_status = Active, s_created_at = 1000, s_updated_at = 1000,
            s_stripe_customer_id = None, s_transferred_at = None,
            s_apple_expires_ms = None, s_apple_sandbox = None\<rparr>"
  by (simp add: get_sub_def ex_bound_def upsert_def has_key_def empty_db_def sub_key_def)
lemma ex_transfer_days: "stripe_transfer_days ex_stripe 2000000 ex_sub Monthly True = 1"
  by code_simp
lemma ex_bound_payments: "db_payments ex_bound = []" by (simp add: ex_bound_def upsert_def empty_db_def)
lemma ex_code_ok: "isValidPaymentCode (re_b58 ex_env_rail) ex_code"
  by (simp add: ex_env_rail_def rail_env_of_def ex_deps_def isValidPaymentCode_def ex_code_def)
lemma ex_zats: "zatsForDays (re_priceZats ex_env_rail) 1 = 50000000"
  by (simp add: ex_env_rail_def rail_env_of_def ex_deps_def ex_config_def zatsForDays_def math_ceil_div_def)
lemma ex_plan: "stripe_plan ex_stripe ex_sub k = Monthly" by code_simp
lemma ex_period_grant: "fst (period_grant ex_env_rail 2000000 Stripe k e ex_code 1 ex_bound) = Inr (Some Queued)"
  by (simp add: period_grant_def rail_grant_def recordGrant_def ex_code_ok grant_payment_def ex_zats insertIdempotent_def ex_bound_payments has_key_def Let_def)

lemma ex_transferTo: "\<exists>m s'. stripe_transferTo ex_env_rail ex_stripe 2000000 ex_code ''sub'' ex_sub k User True ex_bound = (Inr m, s')
    \<and> tr_grant m = Some Queued \<and> tr_days m = 1"
  using ex_period_grant [of "transferEventKey ''sub'' (the_default 0 (periodEndOf ex_sub) * 1000)" "''sub''"]
  by (simp add: stripe_transferTo_def ex_transfer_days ex_plan move_sub_def case_prod_unfold Let_def split: sum.split)
lemma ex_transfer: "fst (transferSubscription ex_env_rail ex_stripe ex_api 2000000 ''cs'' ex_code ex_bound) = Inr (claim_moved (Some Queued) 1 False)"
proof -
  have d: "map_option ref_id (cs_subscription ex_session) = Some ''sub''" "ss_status ex_sub = ''active''" "ss_livemode ex_sub"
    by (simp_all add: ex_session_def ex_sub_def)
  obtain m s' where t: "stripe_transferTo ex_env_rail ex_stripe 2000000 ex_code ''sub'' ex_sub (Some Monthly) User True ex_bound = (Inr m, s')"
    "tr_grant m = Some Queued" "tr_days m = 1" using ex_transferTo [of "Some Monthly"] by auto
  have api: "ap_session ex_api x = Inr ex_session" "ap_subscription ex_api x = Inr ex_sub" for x by (simp_all add: ex_api_def)
  have c: "''aaaaaaaaaaaaaaaaaaaaaa'' \<noteq> ex_code" by (simp add: ex_code_def)
  show ?thesis
    by (simp add: transferSubscription_def api d truthy_def ex_bound_sub c transferAvailableAt_def t Let_def)
qed
lemma ex_lines: "invoiceLines ex_api ex_invoice = Inr []" by code_simp

text \<open>A Google test purchase of another device, which a claim moves to the example code.\<close>

definition ex_google :: google_cfg where
  "ex_google = \<lparr>gc_packageName = ''cvpn'', gc_basePlanMonthly = ''m'', gc_basePlanAnnual = ''a'', gc_testGrants = False,
     gc_testGrantDays = 0, gc_rtdnEmail = ''e@x''\<rparr>"
definition ex_purchase :: google_sub where
  "ex_purchase = \<lparr>gs_subscriptionState = Some ''SUBSCRIPTION_STATE_ACTIVE'', gs_ackPending = False,
     gs_obfuscatedAccountId = Some ''aaaaaaaaaaaaaaaaaaaaaa'',
     gs_lineItems = [\<lparr>li_basePlanId = Some ''m'', li_latestSuccessfulOrderId = Some ''GPA.1'', li_productId = None, li_expiryMs = None\<rparr>],
     gs_latestOrderId = None, gs_testPurchase = True\<rparr>"
definition ex_bought :: db where
  "ex_bought = snd (verifyPurchase ex_env_rail ex_google 1000000 (Inr ex_purchase) ''aaaaaaaaaaaaaaaaaaaaaa'' ''tok'' True empty_db)"
definition ex_moved :: db where
  "ex_moved = snd (claimPurchase ex_env_rail ex_google 2000000 (Inr ex_purchase) ex_code ''tok'' True ex_bought)"
lemma ex_google_run:
  "owner_of Google ''tok'' ex_bought = Some ''aaaaaaaaaaaaaaaaaaaaaa''"
  "fst (claimPurchase ex_env_rail ex_google 2000000 (Inr ex_purchase) ex_code ''tok'' True ex_bought) = Inr (claim_moved None 0 True)"
  "moved_at Google ''tok'' ex_moved = Some 2000"
  by code_simp+

text \<open>An Apple sandbox subscription of another device, which a claim moves to the example code.\<close>

definition ex_apple :: apple_cfg where
  "ex_apple = \<lparr>ac_sandboxEnvironment = True, ac_productMonthly = ''m'', ac_productAnnual = ''a'', ac_sandboxGrants = False,
     ac_sandboxGrantDays = 0\<rparr>"

definition ex_sha :: "bytes \<Rightarrow> bytes" where "ex_sha bs = replicate 32 7"
definition ex_txn :: apple_txn where
  "ex_txn = \<lparr>at_productId = Some ''m'', at_appAccountToken = None,
     at_transactionId = Some ''t1'', at_originalTransactionId = Some ''o1'', at_revocationDate = None, at_isUpgraded = None,
     at_expiresDate = Some 9000000, at_transactionReason = None, at_purchaseDate = None\<rparr>"
definition ex_receipt :: db where
  "ex_receipt = upsert 1000 Apple ''o1'' ''aaaaaaaaaaaaaaaaaaaaaa'' Monthly None empty_db"
definition ex_claimed :: db where
  "ex_claimed = snd (apple_claimPurchase ex_sha ex_env_rail ex_apple 2000000 (Some ex_txn, True) ex_code True ex_receipt)"
lemma ex_apple_run:
  "owner_of Apple ''o1'' ex_receipt = Some ''aaaaaaaaaaaaaaaaaaaaaa''"
  "fst (apple_claimPurchase ex_sha ex_env_rail ex_apple 2000000 (Some ex_txn, True) ex_code True ex_receipt) = Inr (claim_moved None 0 True)"
  "moved_at Apple ''o1'' ex_claimed = Some 2000"
  by code_simp+

text \<open>The Stripe subscription, its invoice paid and then refunded.\<close>

definition ex_refunded :: db where
  "ex_refunded = setStatus 3000 Stripe ''sub'' Refunded (snd (insertIdempotent 2000 (ex_grant ''in'') ex_bound))"

lemma ex_refunded_facts:
  "map_option s_status (get_sub Stripe ''sub'' ex_refunded) = Some Refunded"
  "resolveInvoiceBinding ex_api ex_invoice ex_refunded = Inr (Some (''sub'', ''aaaaaaaaaaaaaaaaaaaaaa'', Monthly))"
  "ledger_has Stripe (invoice_key ex_invoice ''sub'') ex_refunded"
  by code_simp+

section \<open>Days\<close>



text \<open>
  The days an invoice pays for are worth its money to within half a day: a partial payment
  of the net amount against the list price of a plan.
\<close>

theorem invoice_days_are_fair:
  assumes "0 < c" and "0 \<le> net" and "net \<le> c"
  shows "2 * PLAN_DAYS p * net - c < 2 * prorated_days p net c * c
    \<and> 2 * prorated_days p net c * c \<le> 2 * PLAN_DAYS p * net + c"
  using assms by (rule prorated_days_fair)

theorem invoice_days_are_fair_witness:
  "28942 < 2 * prorated_days Monthly 499 998 * 998 \<and> prorated_days Monthly 499 998 = 15"
proof -
  have "prorated_days Monthly 499 998 = 15" by code_simp
  moreover have "PLAN_DAYS Monthly = 30" by code_simp
  ultimately show ?thesis using invoice_days_are_fair [of 998 499 Monthly] by simp
qed

section \<open>Ownership\<close>

text \<open>
  A claim of a Google purchase that is accepted gives it to a code that could be a real
  one, and takes it from another device only as a move, which thirty days must separate from
  the move before it.
\<close>

theorem google_claim_gives_ownership:
  assumes "claimPurchase env cfg ms fetched code token tr s = (Inr c, s')" and "c_accepted c"
  shows "owner_of Google token s' = Some code \<and> isValidPaymentCode (re_b58 env) code
    \<and> (\<forall>o'. owner_of Google token s = Some o' \<longrightarrow> o' \<noteq> [] \<longrightarrow> o' \<noteq> code \<longrightarrow>
         tr \<and> c_transferred c = Some True \<and> transferAvailableAt (moved_at Google token s) (now_s ms) = None)"
  using claim_accepted [OF assms] by blast

theorem google_claim_gives_ownership_witness:
  "owner_of Google ''tok'' ex_moved = Some ex_code \<and> owner_of Google ''tok'' ex_bought = Some ''aaaaaaaaaaaaaaaaaaaaaa''
    \<and> transferAvailableAt (moved_at Google ''tok'' ex_bought) (now_s 2000000) = None"
proof -
  have c: "c_accepted (claim_moved None 0 True)" by (simp add: claim_moved_def)
  have run: "claimPurchase ex_env_rail ex_google 2000000 (Inr ex_purchase) ex_code ''tok'' True ex_bought
      = (Inr (claim_moved None 0 True), ex_moved)"
    using ex_google_run(2) by (simp add: ex_moved_def prod_eq_iff)
  from google_claim_gives_ownership [OF run c] ex_google_run(1) show ?thesis by (simp add: ex_code_def)
qed

text \<open>The requests and pushes that are not a claim or an order of the operator.\<close>

fun google_passive :: "google_request \<Rightarrow> bool" where
  "google_passive (G_verify ms f code t strict) = True"
| "google_passive (G_rtdn ms f1 f2 body) = True"
| "google_passive _ = False"

lemma google_passive_keeps:
  assumes "google_passive a" and "moved_at Google token s \<noteq> None"
  shows "owner_of Google token (google_call env cfg a s) = owner_of Google token s"
    and "moved_at Google token (google_call env cfg a s) \<noteq> None"
proof -
  show "moved_at Google token (google_call env cfg a s) \<noteq> None"
    using google_call_moves_ok [of s env cfg a] assms(2) by (auto simp: moves_ok_def) (metis option.distinct(1))
  have "owner_of Google token (snd (verifyPurchase env cfg ms f c t strict s)) = owner_of Google token s" for ms f c t strict
  proof (cases "t = token")
    case False
    then show ?thesis using verify_cases [of env cfg ms f c t strict s] by auto
  qed (use verify_keeps_moved assms(2) in auto)
  then show "owner_of Google token (google_call env cfg a s) = owner_of Google token s"
    using assms rtdn_keeps_moved by (cases a) auto
qed

text \<open>
  C15. Once a Google subscription has been moved, no verifications by any devices and no pushes
  from Google, in whatever order, take it from the owner it was moved to.
\<close>

theorem google_move_sticks:
  assumes "moved_at Google token s \<noteq> None" and "list_all google_passive as"
  shows "owner_of Google token (fold (google_call env cfg) as s) = owner_of Google token s"
  using assms
proof (induction as arbitrary: s)
  case (Cons a as)
  then have "owner_of Google token (fold (google_call env cfg) as (google_call env cfg a s))
      = owner_of Google token (google_call env cfg a s)"
    using google_passive_keeps(2) by (intro Cons.IH) auto
  with Cons.prems google_passive_keeps(1) show ?case by simp
qed simp

theorem google_move_sticks_witness:
  "owner_of Google ''tok''
     (fold (google_call ex_env_rail ex_google)
       [G_verify 3000000 (Inr ex_purchase) ''aaaaaaaaaaaaaaaaaaaaaa'' ''tok'' True] ex_moved)
   = owner_of Google ''tok'' ex_moved"
  by (rule google_move_sticks) (simp_all add: ex_google_run(3))



text \<open>
  C17. Neither the receipt of the device an Apple subscription was moved away from nor a
  renewal or a retried notification takes it from its new owner; only a purchase made after
  the move does.
\<close>

theorem apple_move_sticks:
  assumes "moved_at Apple otid s = Some t" and "at_originalTransactionId txn = Some otid" and "\<not> bought_since txn t"
  shows "owner_of Apple otid (snd (apple_verifyPurchase sha env cfg ms (Some txn, sandbox) code s)) = owner_of Apple otid s
    \<and> owner_of Apple otid (snd (apple_handleNotification env cfg ms
         (Some \<lparr>an_notificationType = ty, an_transaction = Some (Some txn, b)\<rparr>, b') s))
      = owner_of Apple otid s"
proof
  show "owner_of Apple otid (snd (apple_verifyPurchase sha env cfg ms (Some txn, sandbox) code s)) = owner_of Apple otid s"
    using assms by (intro apple_verify_keeps_moved) auto
  show "owner_of Apple otid (snd (apple_handleNotification env cfg ms
         (Some \<lparr>an_notificationType = ty, an_transaction = Some (Some txn, b)\<rparr>, b') s)) = owner_of Apple otid s"
    using assms by (intro apple_note_keeps_moved) auto
qed

theorem apple_move_sticks_witness:
  "owner_of Apple ''o1'' (snd (apple_verifyPurchase ex_sha ex_env_rail ex_apple 3000000 (Some ex_txn, True) ''aaaaaaaaaaaaaaaaaaaaaa'' ex_claimed))
    = owner_of Apple ''o1'' ex_claimed"
proof -
  have "at_originalTransactionId ex_txn = Some ''o1''" "\<not> bought_since ex_txn 2000"
    by (simp_all add: ex_txn_def bought_since_def)
  from apple_move_sticks [OF ex_apple_run(3) this] show ?thesis by blast
qed

section \<open>Stripe\<close>



text \<open>
  A transfer served while an \<open>invoice.paid\<close> waits for Stripe is undone when the invoice
  goes on: the claim is answered as accepted and logged as a move, and the subscription is
  back with the device it was moved away from, to which its renewals are credited.
\<close>

theorem late_invoice_undoes_a_transfer:
  assumes "iv_amountPaid iv \<noteq> 0" and "resolveInvoiceBinding api iv s = Inr (Some (i, a, p))"
    and "invoiceLines api iv = Inr ls"
    and "ap_session api sessionId = Inr session" and "cs_subscription session = Some (Ref i)"
    and "fst (transferSubscription env cfg api ms sessionId b s) = Inr c" and "c_accepted c"
  shows "owner_of Stripe i (snd (transferSubscription env cfg api ms sessionId b s)) = Some b
    \<and> moved_at Stripe i (snd (transferSubscription env cfg api ms sessionId b s)) = Some (now_s ms)
    \<and> owner_of Stripe i (snd (snd (onInvoicePaid env cfg api ms
         (\<lambda>s. snd (transferSubscription env cfg api ms sessionId b s)) id id iv cache s))) = Some a"
  using invoice_undoes_transfer [OF assms] by blast

theorem late_invoice_undoes_a_transfer_witness:
  "owner_of Stripe ''sub'' (snd (transferSubscription ex_env_rail ex_stripe ex_api 2000000 ''cs'' ex_code ex_bound)) = Some ex_code
    \<and> owner_of Stripe ''sub'' (snd (snd (onInvoicePaid ex_env_rail ex_stripe ex_api 2000000
         (\<lambda>s. snd (transferSubscription ex_env_rail ex_stripe ex_api 2000000 ''cs'' ex_code s)) id id ex_invoice (\<lambda>_. None) ex_bound)))
      = Some ''aaaaaaaaaaaaaaaaaaaaaa''"
proof -
  have s: "iv_amountPaid ex_invoice \<noteq> 0" "ap_session ex_api ''cs'' = Inr ex_session" "cs_subscription ex_session = Some (Ref ''sub'')"
    "c_accepted (claim_moved (Some Queued) 1 False)"
    by (simp_all add: ex_invoice_def ex_api_def ex_session_def claim_moved_def)
  from late_invoice_undoes_a_transfer [OF s(1) ex_binding ex_lines s(2,3) ex_transfer s(4)] show ?thesis by blast
qed

text \<open>
  An \<open>invoice.paid\<close> delivered again after the subscription was refunded or ended makes
  it active again, although it grants nothing.
\<close>

theorem redelivered_invoice_reactivates:
  assumes "iv_amountPaid iv \<noteq> 0" and "resolveInvoiceBinding api iv s = Inr (Some (i, c, p))"
    and "invoiceLines api iv = Inr ls" and "ledger_has Stripe (invoice_key iv i) s"
  shows "map_option s_status (get_sub Stripe i (snd (snd (onInvoicePaid env cfg api ms id id id iv cache s)))) = Some Active
    \<and> days_under Stripe (invoice_key iv i) (snd (snd (onInvoicePaid env cfg api ms id id id iv cache s)))
      = days_under Stripe (invoice_key iv i) s"
proof -
  have key: "invoice_event_key iv = invoice_key iv i" using resolve_owner(3) [OF assms(2)] by (simp add: invoice_event_key_def)
  show ?thesis
    using invoice_reactivates [OF assms(1-3)] assms(4)
      stripe_invoice.days_once [where iv = iv and s = s and env = env and cfg = cfg and a = "(api, ms, cache)"]
    by (simp add: key invoice_call_def)
qed

theorem redelivered_invoice_reactivates_witness:
  "map_option s_status (get_sub Stripe ''sub'' ex_refunded) = Some Refunded
    \<and> map_option s_status (get_sub Stripe ''sub''
        (snd (snd (onInvoicePaid ex_env_rail ex_stripe ex_api 4000000 id id id ex_invoice (\<lambda>_. None) ex_refunded)))) = Some Active"
proof -
  have a: "iv_amountPaid ex_invoice \<noteq> 0" by (simp add: ex_invoice_def)
  show ?thesis
    using redelivered_invoice_reactivates [OF a ex_refunded_facts(2) ex_lines ex_refunded_facts(3)] ex_refunded_facts(1)
    by blast
qed

text \<open>
  A webhook that Stripe did sign but whose processing fails, because Stripe's API is down,
  is answered exactly as one with a forged signature: the failure is never seen as an error of
  the bridge.
\<close>

theorem failed_webhook_reads_as_forged:
  assumes "iv_amountPaid iv \<noteq> 0" and "resolveInvoiceBinding api iv (sv_db sv) = Inl e"
  shows "stripe_webhook d cfg api ms (Some sig) True (Inr (Invoice_paid iv)) sv
    = stripe_webhook d cfg api ms (Some sig) True (Inl e') sv"
  using webhook_failure_reply [OF assms] by (simp add: stripe_webhook_def handleWebhook_def)

theorem failed_webhook_reads_as_forged_witness:
  "stripe_webhook ex_deps ex_stripe (ex_api\<lparr>ap_subscription := \<lambda>_. Inl (Js_error ''fetch failed'')\<rparr>) 2000000 (Some ''t=1'') True
      (Inr (Invoice_paid (ex_invoice\<lparr>iv_parentMetadata := None\<rparr>))) new_server
    = (badRequest ''bad_signature'' ''webhook signature verification failed'', new_server)"
proof -
  let ?api = "ex_api\<lparr>ap_subscription := \<lambda>_. Inl (Js_error ''fetch failed'')\<rparr>" and ?iv = "ex_invoice\<lparr>iv_parentMetadata := None\<rparr>"
  have "iv_amountPaid ?iv \<noteq> 0" by (simp add: ex_invoice_def)
  moreover have "resolveInvoiceBinding ?api ?iv (sv_db new_server) = Inl (Js_error ''fetch failed'')"
    by code_simp
  ultimately have "stripe_webhook ex_deps ex_stripe ?api 2000000 (Some ''t=1'') True (Inr (Invoice_paid ?iv)) new_server
      = stripe_webhook ex_deps ex_stripe ?api 2000000 (Some ''t=1'') True (Inl (Js_error ''fetch failed'')) new_server"
    by (rule failed_webhook_reads_as_forged)
  then show ?thesis by (simp add: stripe_webhook_def handleWebhook_def)
qed

end
