(* ===== verification/Transport.thy ===== *)
theory Transport
  imports Split
begin

text \<open>
  Choosing a transport, the DNS setting and the WireGuard configuration text
  (clients/core-ts/src/types.ts, transport.ts, dns.ts and wgconfig.ts). A map of strings is its
  association list. \<open>numstr\<close> is the text of a number in a template string; all that is used of
  it is that an integer is printed in decimal.
\<close>

section \<open>What a gateway says of itself\<close>

datatype tier = Free | Premium

record transport =
  tp_type :: string
  tp_port :: rat
  tp_params :: "(string \<times> string) list option"

record info_response =
  ir_country :: string
  ir_region :: string
  ir_city :: string
  ir_load :: rat
  ir_capacity :: rat
  ir_version :: string
  ir_min_client_version :: string
  ir_build_commit :: "string option"
  ir_peers_persisted :: "bool option"
  ir_server_pubkey :: string
  ir_sign_pubkey :: string
  ir_transports :: "transport list option"

record enroll_response =
  er_server_pubkey :: string
  er_endpoint :: string
  er_assigned_ip :: string
  er_dns :: string
  er_payment_address :: string
  er_payment_memo :: string
  er_price_flux :: rat

record gateway_info = info_response +
  gw_ip :: string
  gw_controlUrl :: string

definition CONTROL_PORT :: int where "CONTROL_PORT = 51821"
definition WG_PORT :: int where "WG_PORT = 51820"

section \<open>Transports\<close>

datatype transport_mode = Auto | Speed | Stealth

definition IMPLEMENTED_TRANSPORTS :: "string list" where
  "IMPLEMENTED_TRANSPORTS = [''wg'']"

definition PREFERENCE :: "transport_mode \<Rightarrow> string list" where
  "PREFERENCE mode = (case mode of
       Speed \<Rightarrow> [''wg'', ''awg'']
     | Auto \<Rightarrow> [''wg'', ''awg'', ''wg-tls'']
     | Stealth \<Rightarrow> [''wg-tls'', ''awg''])"

definition advertisedOrLegacy :: "transport list option \<Rightarrow> transport list" where
  "advertisedOrLegacy transports =
     (case transports of
        Some (t # ts) \<Rightarrow> t # ts
      | _ \<Rightarrow> [\<lparr>tp_type = ''wg'', tp_port = of_int WG_PORT, tp_params = None\<rparr>])"

definition isValidPort :: "rat \<Rightarrow> bool" where
  "isValidPort port \<longleftrightarrow> is_whole port \<and> 1 \<le> port \<and> port \<le> 65535"

text \<open>\<open>t.params?.tier\<close>.\<close>

definition tier_param :: "transport \<Rightarrow> string option" where
  "tier_param t = Option.bind (tp_params t) (\<lambda>ps. map_of ps ''tier'')"

definition tierAllows :: "transport \<Rightarrow> tier \<Rightarrow> bool" where
  "tierAllows t tier \<longleftrightarrow> tier_param t \<noteq> Some ''premium'' \<or> tier = Premium"

definition hasPremiumTransport :: "transport list option \<Rightarrow> bool" where
  "hasPremiumTransport transports \<longleftrightarrow>
     list_ex (\<lambda>t. tier_param t = Some ''premium'') (case transports of Some ts \<Rightarrow> ts | None \<Rightarrow> [])"

text \<open>\<open>Array.prototype.indexOf\<close>: the position of the first match, \<open>-1\<close> when there is none.\<close>

fun index_of :: "'a \<Rightarrow> 'a list \<Rightarrow> int" where
  "index_of x [] = - 1"
| "index_of x (y # ys) = (if x = y then 0 else (let i = index_of x ys in if i < 0 then i else i + 1))"

definition transportFallbackChain ::
  "transport list option \<Rightarrow> transport_mode \<Rightarrow> string list \<Rightarrow> tier \<Rightarrow> transport list" where
  "transportFallbackChain transports mode implemented tier =
     (let order = PREFERENCE mode
      in sort_key (\<lambda>t. index_of (tp_type t) order)
           (filter (\<lambda>t. tp_type t \<in> set implemented \<and> tp_type t \<in> set order
                        \<and> isValidPort (tp_port t) \<and> tierAllows t tier)
             (advertisedOrLegacy transports)))"

definition obfsForTransport :: "transport \<Rightarrow> (string \<times> string) list option" where
  "obfsForTransport t = (if tp_type t = ''awg'' then tp_params t else None)"

definition selectTransport ::
  "transport list option \<Rightarrow> transport_mode \<Rightarrow> string list \<Rightarrow> tier \<Rightarrow> transport option" where
  "selectTransport transports mode implemented tier =
     (case transportFallbackChain transports mode implemented tier of [] \<Rightarrow> None | t # _ \<Rightarrow> Some t)"

datatype transport_error = Premium_only | No_stealth_transport | No_transport

definition requireTransport ::
  "transport list option \<Rightarrow> transport_mode \<Rightarrow> string list \<Rightarrow> tier \<Rightarrow> transport_error + transport" where
  "requireTransport transports mode implemented tier =
     (case selectTransport transports mode implemented tier of
        Some t \<Rightarrow> Inr t
      | None \<Rightarrow>
          if tier \<noteq> Premium \<and> 0 < length (transportFallbackChain transports mode implemented Premium)
          then Inl Premium_only
          else if mode = Stealth then Inl No_stealth_transport
          else Inl No_transport)"

text \<open>\<open>s.slice(0, s.lastIndexOf(c))\<close> where \<open>c\<close> occurs once.\<close>

definition stripEndpointPort :: "string \<Rightarrow> string" where
  "stripEndpointPort endpoint =
     (let s = trim endpoint
      in if starts_with ''['' s
         then (if CHR '']'' \<in> set s then before CHR '']'' s @ '']'' else s)
         else if CHR '':'' \<in> set s \<and> length (split_on CHR '':'' s) = 2 then before CHR '':'' s
         else s)"

definition applyTransportToEndpoint :: "(rat \<Rightarrow> string) \<Rightarrow> string \<Rightarrow> transport \<Rightarrow> string" where
  "applyTransportToEndpoint numstr endpoint t = stripEndpointPort endpoint @ '':'' @ numstr (tp_port t)"

section \<open>DNS\<close>

datatype dns_choice = Cloudflare | Google_dns | Quad9 | Dns4eu | Adguard | Family_dns

record dns_option =
  do_id :: dns_choice
  do_provider :: string
  do_blurb :: string
  do_servers :: "string list"

definition dns_slug :: "dns_choice \<Rightarrow> string" where
  "dns_slug c = (case c of
       Cloudflare \<Rightarrow> ''cloudflare'' | Google_dns \<Rightarrow> ''google'' | Quad9 \<Rightarrow> ''quad9''
     | Dns4eu \<Rightarrow> ''dns4eu'' | Adguard \<Rightarrow> ''adguard'' | Family_dns \<Rightarrow> ''family'')"

definition DEFAULT_DNS :: dns_choice where
  "DEFAULT_DNS = Cloudflare"

definition DNS_OPTIONS :: "dns_option list" where
  "DNS_OPTIONS =
     [\<lparr>do_id = Cloudflare, do_provider = ''Cloudflare'', do_blurb = ''Fast, no filtering'',
       do_servers = [''1.1.1.1'', ''1.0.0.1'']\<rparr>,
      \<lparr>do_id = Google_dns, do_provider = ''Google Public DNS'', do_blurb = ''No filtering'',
       do_servers = [''8.8.8.8'', ''8.8.4.4'']\<rparr>,
      \<lparr>do_id = Quad9, do_provider = ''Quad9'', do_blurb = ''Blocks known malicious sites'',
       do_servers = [''9.9.9.9'', ''149.112.112.112'']\<rparr>,
      \<lparr>do_id = Dns4eu, do_provider = ''DNS4EU'', do_blurb = ''EU-based, blocks malware and phishing'',
       do_servers = [''86.54.11.1'', ''86.54.11.201'']\<rparr>,
      \<lparr>do_id = Adguard, do_provider = ''AdGuard DNS'', do_blurb = ''Blocks ads and trackers'',
       do_servers = [''94.140.14.14'', ''94.140.15.15'']\<rparr>,
      \<lparr>do_id = Family_dns, do_provider = ''Cloudflare for Families'', do_blurb = ''Blocks malware and adult content'',
       do_servers = [''1.1.1.3'', ''1.0.0.3'']\<rparr>]"

definition dnsOption :: "dns_choice \<Rightarrow> dns_option" where
  "dnsOption choice = (case find (\<lambda>opt. do_id opt = choice) DNS_OPTIONS of Some opt \<Rightarrow> opt | None \<Rightarrow> hd DNS_OPTIONS)"

definition RETIRED :: "(string \<times> dns_choice) list" where
  "RETIRED = [(''mullvad'', Quad9)]"

text \<open>The stored value is any JSON value, or absent.\<close>

definition parseDnsChoice :: "json option \<Rightarrow> dns_choice" where
  "parseDnsChoice value =
     (case value of
        Some (J_str s) \<Rightarrow>
          (case find (\<lambda>opt. dns_slug (do_id opt) = s) DNS_OPTIONS of
             Some opt \<Rightarrow> do_id opt
           | None \<Rightarrow> the_default DEFAULT_DNS (map_of RETIRED s))
      | _ \<Rightarrow> DEFAULT_DNS)"

definition dnsServersFor :: "dns_choice \<Rightarrow> string \<Rightarrow> string" where
  "dnsServersFor choice gatewayDns =
     (if choice = DEFAULT_DNS then gatewayDns else join '', '' (do_servers (dnsOption choice)))"

section \<open>The configuration text\<close>

definition OBFS_CONF_KEYS :: "(string \<times> string) list" where
  "OBFS_CONF_KEYS =
     [(''jc'', ''Jc''), (''jmin'', ''Jmin''), (''jmax'', ''Jmax''), (''s1'', ''S1''), (''s2'', ''S2''),
      (''h1'', ''H1''), (''h2'', ''H2''), (''h3'', ''H3''), (''h4'', ''H4'')]"

definition conf_line :: "string \<Rightarrow> string \<Rightarrow> string" where
  "conf_line k v = k @ '' = '' @ v"

definition obfsInterfaceLines :: "(string \<times> string) list option \<Rightarrow> string list" where
  "obfsInterfaceLines obfs =
     (case obfs of
        None \<Rightarrow> []
      | Some o' \<Rightarrow>
          List.map_filter (\<lambda>(wire, conf).
            case map_of o' wire of
              None \<Rightarrow> None
            | Some v \<Rightarrow> if v = [] then None else Some (conf_line conf v)) OBFS_CONF_KEYS)"

definition FULL_TUNNEL :: string where
  "FULL_TUNNEL = ''0.0.0.0/0, ::/0''"

definition allowedIpsFor :: "compiled_split option \<Rightarrow> string" where
  "allowedIpsFor split =
     (case split of
        None \<Rightarrow> FULL_TUNNEL
      | Some co \<Rightarrow>
          if co_isNoop co \<or> co_tunnelRoutes co = [] then FULL_TUNNEL
          else join '', '' (co_tunnelRoutes co))"

definition app_lines :: "compiled_split option \<Rightarrow> string list" where
  "app_lines split =
     (case split of
        None \<Rightarrow> []
      | Some co \<Rightarrow>
          (if 0 < length (co_appsIncluded co)
           then [conf_line ''IncludedApplications'' (join '', '' (co_appsIncluded co))] else [])
          @ (if 0 < length (co_appsExcluded co)
             then [conf_line ''ExcludedApplications'' (join '', '' (co_appsExcluded co))] else []))"

text \<open>A line break is the character 10.\<close>

definition NL :: string where
  "NL = [char_of (10 :: nat)]"

definition conf_text :: "string list \<Rightarrow> string list \<Rightarrow> string" where
  "conf_text iface peer = join NL iface @ NL @ NL @ join NL peer @ NL"

record wg_params =
  wp_privateKey :: string
  wp_assignedIp :: string
  wp_dns :: string
  wp_serverPubKey :: string
  wp_endpoint :: string
  wp_obfs :: "(string \<times> string) list option"
  wp_split :: "compiled_split option"

definition buildWgConfig :: "wg_params \<Rightarrow> string" where
  "buildWgConfig p =
     conf_text
       ([''[Interface]'', conf_line ''PrivateKey'' (wp_privateKey p),
         conf_line ''Address'' (wp_assignedIp p @ ''/32''), conf_line ''DNS'' (wp_dns p)]
        @ app_lines (wp_split p) @ obfsInterfaceLines (wp_obfs p))
       [''[Peer]'', conf_line ''PublicKey'' (wp_serverPubKey p), conf_line ''Endpoint'' (wp_endpoint p),
        conf_line ''AllowedIPs'' (allowedIpsFor (wp_split p)), conf_line ''PersistentKeepalive'' ''25'']"

section \<open>What is selected\<close>

text \<open>A transport the client may dial in a mode, by a tier.\<close>

definition usable_transport :: "transport_mode \<Rightarrow> string list \<Rightarrow> tier \<Rightarrow> transport \<Rightarrow> bool" where
  "usable_transport mode implemented tier t \<longleftrightarrow>
     tp_type t \<in> set implemented \<and> tp_type t \<in> set (PREFERENCE mode) \<and> isValidPort (tp_port t) \<and> tierAllows t tier"

definition rank :: "transport_mode \<Rightarrow> transport \<Rightarrow> int" where
  "rank mode t = index_of (tp_type t) (PREFERENCE mode)"

lemma chain_eq:
  "transportFallbackChain ts mode impl tier
    = sort_key (rank mode) (filter (usable_transport mode impl tier) (advertisedOrLegacy ts))"
proof -
  have "usable_transport mode impl tier = (\<lambda>t. tp_type t \<in> set impl \<and> tp_type t \<in> set (PREFERENCE mode)
      \<and> isValidPort (tp_port t) \<and> tierAllows t tier)" by (rule ext) (simp add: usable_transport_def)
  moreover have "rank mode = (\<lambda>t. index_of (tp_type t) (PREFERENCE mode))" by (rule ext) (simp add: rank_def)
  ultimately show ?thesis by (simp add: transportFallbackChain_def Let_def)
qed

lemma set_chain:
  "set (transportFallbackChain ts mode impl tier) = {t \<in> set (advertisedOrLegacy ts). usable_transport mode impl tier t}"
  by (simp add: chain_eq)

lemma select_Some:
  assumes "selectTransport ts mode impl tier = Some t"
  shows "t \<in> set (advertisedOrLegacy ts)" and "usable_transport mode impl tier t"
    and "u \<in> set (advertisedOrLegacy ts) \<Longrightarrow> usable_transport mode impl tier u \<Longrightarrow> rank mode t \<le> rank mode u"
proof -
  obtain rest where c: "transportFallbackChain ts mode impl tier = t # rest"
    using assms by (auto simp: selectTransport_def split: list.splits)
  then have "t \<in> set (transportFallbackChain ts mode impl tier)" by simp
  then show "t \<in> set (advertisedOrLegacy ts)" "usable_transport mode impl tier t" by (simp_all add: set_chain)
  show "rank mode t \<le> rank mode u" if "u \<in> set (advertisedOrLegacy ts)" "usable_transport mode impl tier u"
    using sort_key_hd_least [OF c [unfolded chain_eq]] that by simp
qed

lemma select_None:
  "selectTransport ts mode impl tier = None \<longleftrightarrow> (\<forall>t\<in>set (advertisedOrLegacy ts). \<not> usable_transport mode impl tier t)"
proof -
  have "selectTransport ts mode impl tier = None \<longleftrightarrow> set (transportFallbackChain ts mode impl tier) = {}"
    by (simp add: selectTransport_def split: list.split)
  then show ?thesis by (auto simp: set_chain)
qed

text \<open>\<open>requireTransport\<close> returns the best usable transport, or says why there is none.\<close>

lemma require_Inr: "requireTransport ts mode impl tier = Inr t \<longleftrightarrow> selectTransport ts mode impl tier = Some t"
  by (simp add: requireTransport_def split: option.split)

lemma require_Inl:
  "requireTransport ts mode impl tier = Inl e \<longleftrightarrow>
     (\<forall>t\<in>set (advertisedOrLegacy ts). \<not> usable_transport mode impl tier t)
     \<and> e = (if \<exists>t\<in>set (advertisedOrLegacy ts). usable_transport mode impl Premium t then Premium_only
            else if mode = Stealth then No_stealth_transport else No_transport)"
proof -
  have p: "0 < length (transportFallbackChain ts mode impl Premium)
      \<longleftrightarrow> (\<exists>t\<in>set (advertisedOrLegacy ts). usable_transport mode impl Premium t)"
  proof -
    have "transportFallbackChain ts mode impl Premium = [] \<longleftrightarrow> set (transportFallbackChain ts mode impl Premium) = {}" by simp
    then show ?thesis by (auto simp: set_chain)
  qed
  show ?thesis
  proof (cases "selectTransport ts mode impl tier")
    case None
    then have none: "\<forall>t\<in>set (advertisedOrLegacy ts). \<not> usable_transport mode impl tier t" by (simp add: select_None)
    then show ?thesis using None p by (cases tier) (auto simp: requireTransport_def)
  next
    case (Some t)
    then show ?thesis using select_Some(1,2) [OF Some] by (auto simp: requireTransport_def)
  qed
qed

text \<open>Stealth never dials plain WireGuard, and a free user never a premium transport.\<close>

lemma stealth_not_plain: "requireTransport ts Stealth impl tier = Inr t \<Longrightarrow> tp_type t \<noteq> ''wg''"
  by (auto simp: require_Inr PREFERENCE_def usable_transport_def dest!: select_Some(2))

lemma free_not_gated: "requireTransport ts mode impl Free = Inr t \<Longrightarrow> tier_param t \<noteq> Some ''premium''"
  by (auto simp: require_Inr usable_transport_def tierAllows_def dest!: select_Some(2))

text \<open>Where nothing is gated the tier does not matter.\<close>

lemma tier_irrelevant:
  assumes "\<not> hasPremiumTransport ts"
  shows "transportFallbackChain ts mode impl tier = transportFallbackChain ts mode impl tier'"
proof -
  have "tier_param t \<noteq> Some ''premium''" if "t \<in> set (advertisedOrLegacy ts)" for t
    using assms that
    by (auto simp: hasPremiumTransport_def advertisedOrLegacy_def list_ex_iff tier_param_def split: option.splits list.splits)
  then have "filter (usable_transport mode impl tier) (advertisedOrLegacy ts)
      = filter (usable_transport mode impl tier') (advertisedOrLegacy ts)"
    by (intro filter_cong) (auto simp: usable_transport_def tierAllows_def)
  then show ?thesis by (simp add: chain_eq)
qed

lemma legacy_auto: "''wg'' \<in> set impl \<Longrightarrow> \<exists>t. requireTransport None Auto impl tier = Inr t \<and> tp_port t = 51820"
proof -
  assume wg: "''wg'' \<in> set impl"
  have "usable_transport Auto impl tier \<lparr>tp_type = ''wg'', tp_port = of_int WG_PORT, tp_params = None\<rparr>"
    using wg is_whole_numbers(1) [of 51820]
    by (simp add: usable_transport_def PREFERENCE_def isValidPort_def WG_PORT_def tierAllows_def tier_param_def)
  then show ?thesis
    by (simp add: requireTransport_def selectTransport_def chain_eq advertisedOrLegacy_def WG_PORT_def)
qed

section \<open>What the configuration says\<close>

text \<open>The tunnel routes of a compiled policy are printed prefixes, with no comma or blank in them.\<close>

lemma formatCidr_chars: "c \<in> set (formatCidr k) \<Longrightarrow> is_hex_digit c \<or> c \<in> {CHR ''.'', CHR '':'', CHR ''/''}"
  using formatIpv4_chars [of c "c_net k"] formatIpv6_chars [of c "c_net k"] show_nat_is_digit [of c "c_prefix k"]
  by (auto simp: formatCidr_def is_hex_digit_def split: if_splits)

lemma formatCidr_plain: "c \<in> set (formatCidr k) \<Longrightarrow> \<not> is_space c \<and> c \<noteq> CHR '',''"
  using formatCidr_chars [of c k] by (auto simp: is_hex_digit_def is_digit_def is_space_def)

lemma each_family_mem:
  "each_family g fs = Inr out \<Longrightarrow> s \<in> set out \<Longrightarrow> \<exists>f xs. g f = Inr xs \<and> s \<in> set xs"
  by (induction fs arbitrary: out) (auto split: sum.splits, blast+)

lemma printed_routes:
  "complementRoutes xs fs = Inr out \<Longrightarrow> s \<in> set out \<Longrightarrow> s \<in> range formatCidr"
  "mergedCidrStrings xs = Inr out \<Longrightarrow> s \<in> set out \<Longrightarrow> s \<in> range formatCidr"
  "subtractCidrStrings xs ys = Inr out \<Longrightarrow> s \<in> set out \<Longrightarrow> s \<in> range formatCidr"
  unfolding complementRoutes_def mergedCidrStrings_def subtractCidrStrings_def
  by (auto dest!: each_family_mem simp: intervalsToStrings_def split: sum.splits)

lemma tunnel_routes_printed:
  assumes "compileSplitPolicy p ctx = Inr co" and "s \<in> set (co_tunnelRoutes co)"
  shows "s \<in> range formatCidr"
  using assms printed_routes
  by (auto simp: compileSplitPolicy_def compile_include_def compile_exclude_def NOOP_SPLIT_def
      split: if_splits sum.splits)

text \<open>A list in a configuration, as WireGuard reads it: at the commas, blanks trimmed.\<close>

definition conf_list :: "string \<Rightarrow> string list" where
  "conf_list s = map trim (split_on CHR '','' s)"

lemma conf_list_join:
  assumes "ws \<noteq> []" and "\<And>w c. w \<in> set ws \<Longrightarrow> c \<in> set w \<Longrightarrow> \<not> is_space c \<and> c \<noteq> CHR '',''"
  shows "conf_list (join '', '' ws) = ws"
  using assms
proof (induction ws rule: list_nonempty_induct)
  case (single w)
  then have "CHR '','' \<notin> set w" "trim w = w" by (auto intro: trim_id)
  then show ?case by (simp add: conf_list_def split_on_no_sep)
next
  case (cons w ws)
  have w: "CHR '','' \<notin> set w" "trim w = w" using cons.prems by (auto intro: trim_id)
  have rest: "conf_list (join '', '' ws) = ws" using cons.IH cons.prems by (meson list.set_intros(2))
  obtain u us where u: "split_on CHR '','' (join '', '' ws) = u # us" by (meson neq_Nil_conv split_on_not_Nil)
  have "trim (CHR '' '' # u) = trim u" by (simp add: trim_def is_space_def)
  moreover have "join '', '' (w # ws) = w @ CHR '','' # CHR '' '' # join '', '' ws" using cons.hyps by (cases ws) auto
  ultimately show ?case using rest w by (simp add: conf_list_def split_on_append u)
qed

text \<open>
  What \<open>AllowedIPs\<close> routes into the tunnel. It is the tunnel routes of the policy, except that
  a policy that would route nothing into it gets the full tunnel.
\<close>

lemma full_tunnel_routes: "routes f (conf_list FULL_TUNNEL) = all_addrs f"
proof -
  have l: "conf_list FULL_TUNNEL = [''0.0.0.0/0'', ''::/0'']" by code_simp
  have z: "foldl (\<lambda>acc. (OR) (push_bit 16 acc)) 0 (replicate 8 0) = (0 :: int)" by (simp add: eval_nat_numeral)
  show ?thesis by (cases f) (auto simp: l routes_def cidr_eval cpts_eq all_addrs_def z)
qed

lemma allowed_routes:
  assumes "compileSplitPolicy p ctx = Inr co"
  shows "routes f (conf_list (allowedIpsFor (Some co)))
    = (if co_isNoop co \<or> co_tunnelRoutes co = [] then all_addrs f else routes f (co_tunnelRoutes co))"
proof (cases "co_isNoop co \<or> co_tunnelRoutes co = []")
  case False
  have "conf_list (join '', '' (co_tunnelRoutes co)) = co_tunnelRoutes co"
    using False tunnel_routes_printed [OF assms] formatCidr_plain by (intro conf_list_join) blast+
  then show ?thesis using False by (simp add: allowedIpsFor_def)
qed (auto simp: allowedIpsFor_def full_tunnel_routes)

lemma parse_dns_slug [simp]: "parseDnsChoice (Some (J_str (dns_slug c))) = c"
  by (cases c) (simp_all add: parseDnsChoice_def dns_slug_def DNS_OPTIONS_def)

end
