(* ===== verification/Multihop.thy ===== *)
theory Multihop
  imports Transport
begin

text \<open>
  Multi-hop routes (clients/core-ts/src/multihop.ts): the choice of the two gateways and the two
  nested configurations.
\<close>

section \<open>Choosing the hops\<close>

datatype route_style = Single | Multihop_same_country | Multihop_cross_jurisdiction

record select_opts =
  so_entryCountry :: "string option"
  so_exitCountry :: "string option"
  so_entryIps :: "string list option"
  so_exitIps :: "string list option"
  so_requireDistinctSubnet :: bool

type_synonym selected_hops = "gateway_info \<times> gateway_info option"

definition subnetGroup :: "string \<Rightarrow> string" where
  "subnetGroup ip =
     (if CHR '':'' \<in> set ip then lower_str (join '':'' (take 3 (split_on CHR '':'' ip)))
      else (let octets = split_on CHR ''.'' ip
            in if length octets = 4 then join ''.'' (take 3 octets) else ip))"

text \<open>The comparator orders by load, then country, then address; \<open>Array.prototype.sort\<close> is stable.\<close>

definition load_key :: "gateway_info \<Rightarrow> rat \<times> string \<times> string" where
  "load_key g = (ir_load g, ir_country g, gw_ip g)"

definition byLoadThenCountry :: "gateway_info \<Rightarrow> gateway_info \<Rightarrow> rat" where
  "byLoadThenCountry a b =
     (if ir_load a \<noteq> ir_load b then ir_load a - ir_load b
      else if ir_country a \<noteq> ir_country b then (if ir_country a < ir_country b then - 1 else 1)
      else if gw_ip a \<noteq> gw_ip b then (if gw_ip a < gw_ip b then - 1 else 1)
      else 0)"

definition in_entry_pool :: "select_opts \<Rightarrow> gateway_info \<Rightarrow> bool" where
  "in_entry_pool opts g \<longleftrightarrow>
     (\<not> truthy (so_entryCountry opts) \<or> Some (ir_country g) = so_entryCountry opts)
     \<and> (case so_entryIps opts of None \<Rightarrow> True | Some ips \<Rightarrow> gw_ip g \<in> set ips)"

definition exit_ok :: "route_style \<Rightarrow> select_opts \<Rightarrow> gateway_info \<Rightarrow> gateway_info \<Rightarrow> bool" where
  "exit_ok style opts from g \<longleftrightarrow>
     gw_ip g \<noteq> gw_ip from
     \<and> \<not> (truthy (so_exitCountry opts) \<and> Some (ir_country g) \<noteq> so_exitCountry opts)
     \<and> (case so_exitIps opts of None \<Rightarrow> True | Some ips \<Rightarrow> gw_ip g \<in> set ips)
     \<and> \<not> (so_requireDistinctSubnet opts \<and> subnetGroup (gw_ip g) = subnetGroup (gw_ip from))
     \<and> (if style = Multihop_same_country then ir_country g = ir_country from
        else ir_country g \<noteq> ir_country from)"

fun first_pair :: "(gateway_info \<Rightarrow> gateway_info option) \<Rightarrow> gateway_info list \<Rightarrow> selected_hops option" where
  "first_pair exitFor [] = None"
| "first_pair exitFor (candidate # pool) =
     (case exitFor candidate of
        Some exit \<Rightarrow> Some (candidate, Some exit)
      | None \<Rightarrow> first_pair exitFor pool)"

definition no_entry_message :: "select_opts \<Rightarrow> string" where
  "no_entry_message opts =
     (let where' = (if truthy (so_entryCountry opts)
                    then '' in entry country \"'' @ the (so_entryCountry opts) @ ''\"'' else [])
      in if truthy (so_entryCountry opts) \<or> so_entryIps opts \<noteq> None
         then ''selectHops: no gateway available'' @ where'
                @ (if so_entryIps opts \<noteq> None then '' at the chosen entry city'' else [])
         else ''selectHops: no gateways available'')"

definition no_exit_message :: "route_style \<Rightarrow> select_opts \<Rightarrow> gateway_info \<Rightarrow> string" where
  "no_exit_message style opts entry =
     ''selectHops: no distinct exit ''
     @ (if style = Multihop_cross_jurisdiction
        then ''in a different country from entry \"'' @ ir_country entry @ ''\"''
        else ''in country \"'' @ ir_country entry @ ''\"'')
     @ (if so_exitIps opts \<noteq> None then '' at the chosen exit city'' else [])
     @ (if so_requireDistinctSubnet opts then '' on a distinct subnet'' else [])"

definition selectHops :: "gateway_info list \<Rightarrow> route_style \<Rightarrow> select_opts \<Rightarrow> string + selected_hops" where
  "selectHops gateways style opts =
     (let sorted = sort_key load_key gateways;
          entryPool = filter (in_entry_pool opts) sorted
      in case entryPool of
           [] \<Rightarrow> Inl (no_entry_message opts)
         | entry # _ \<Rightarrow>
             if style = Single then Inr (entry, None)
             else (case first_pair (\<lambda>from. find (exit_ok style opts from) sorted) entryPool of
                     Some h \<Rightarrow> Inr h
                   | None \<Rightarrow> Inl (no_exit_message style opts entry)))"

section \<open>The two configurations\<close>

definition OUTER_MTU :: int where "OUTER_MTU = 1420"
definition INNER_MTU :: int where "INNER_MTU = 1340"

text \<open>This module's own stripping of the port, which leaves every address with more colons alone.\<close>

definition strip_endpoint :: "string \<Rightarrow> string" where
  "strip_endpoint endpoint =
     (let trimmed = trim endpoint
      in if CHR '':'' \<in> set trimmed \<and> length (split_on CHR '':'' trimmed) = 2
         then before CHR '':'' trimmed else trimmed)"

record multihop_args =
  ma_privateKey :: string
  ma_entry :: enroll_response
  ma_exit :: enroll_response
  ma_entryTransport :: "transport option"
  ma_split :: "compiled_split option"
  ma_dns :: "string option"

record multihop_config =
  mc_outer :: string
  mc_inner :: string
  mc_entryEndpoint :: string
  mc_exitEndpoint :: string
  mc_innerMtu :: int

definition outer_conf :: "(rat \<Rightarrow> string) \<Rightarrow> multihop_args \<Rightarrow> string \<times> string" where
  "outer_conf numstr a =
     (let entry = ma_entry a;
          exitIp = strip_endpoint (er_endpoint (ma_exit a));
          entryEndpoint = (case ma_entryTransport a of
              None \<Rightarrow> er_endpoint entry
            | Some t \<Rightarrow> applyTransportToEndpoint numstr (er_endpoint entry) t)
      in (conf_text
            ([''[Interface]'', conf_line ''PrivateKey'' (ma_privateKey a),
              conf_line ''Address'' (er_assigned_ip entry @ ''/32''), conf_line ''MTU'' (show_int OUTER_MTU)]
             @ obfsInterfaceLines (Option.bind (ma_entryTransport a) obfsForTransport))
            [''[Peer]'', conf_line ''PublicKey'' (er_server_pubkey entry), conf_line ''Endpoint'' entryEndpoint,
             conf_line ''AllowedIPs'' (exitIp @ ''/32''), conf_line ''PersistentKeepalive'' ''25''],
          entryEndpoint))"

definition inner_conf :: "multihop_args \<Rightarrow> string" where
  "inner_conf a =
     (let exit = ma_exit a
      in conf_text
           ([''[Interface]'', conf_line ''PrivateKey'' (ma_privateKey a),
             conf_line ''Address'' (er_assigned_ip exit @ ''/32''),
             conf_line ''DNS'' (the_default (er_dns exit) (ma_dns a)), conf_line ''MTU'' (show_int INNER_MTU)]
            @ app_lines (ma_split a))
           [''[Peer]'', conf_line ''PublicKey'' (er_server_pubkey exit), conf_line ''Endpoint'' (er_endpoint exit),
            conf_line ''AllowedIPs'' (allowedIpsFor (ma_split a)), conf_line ''PersistentKeepalive'' ''25''])"

definition buildMultihopConfig :: "(rat \<Rightarrow> string) \<Rightarrow> multihop_args \<Rightarrow> multihop_config" where
  "buildMultihopConfig numstr a =
     (let (outer, entryEndpoint) = outer_conf numstr a
      in \<lparr>mc_outer = outer, mc_inner = inner_conf a, mc_entryEndpoint = entryEndpoint,
          mc_exitEndpoint = strip_endpoint (er_endpoint (ma_exit a)) @ '':'' @ show_int WG_PORT,
          mc_innerMtu = INNER_MTU\<rparr>)"

section \<open>The route that is chosen\<close>

text \<open>The comparator is the order of the keys.\<close>

lemma comparator_is_key_order: "byLoadThenCountry a b < 0 \<longleftrightarrow> load_key a < load_key b"
  and comparator_zero: "byLoadThenCountry a b = 0 \<longleftrightarrow> load_key a = load_key b"
  by (auto simp: byLoadThenCountry_def load_key_def less_prod_def)

text \<open>The pairs the options allow.\<close>

definition route_ok :: "gateway_info list \<Rightarrow> route_style \<Rightarrow> select_opts \<Rightarrow> gateway_info \<Rightarrow> gateway_info \<Rightarrow> bool" where
  "route_ok gateways style opts a b \<longleftrightarrow>
     a \<in> set gateways \<and> b \<in> set gateways \<and> in_entry_pool opts a \<and> exit_ok style opts a b"

lemma first_pair_Some:
  assumes "first_pair exitFor pool = Some h"
  shows "\<exists>pre a post b. pool = pre @ a # post \<and> h = (a, Some b) \<and> exitFor a = Some b \<and> (\<forall>x\<in>set pre. exitFor x = None)"
  using assms
proof (induction pool)
  case (Cons c pool)
  show ?case
  proof (cases "exitFor c")
    case None
    with Cons obtain pre a post b where "pool = pre @ a # post" "h = (a, Some b)" "exitFor a = Some b"
      "\<forall>x\<in>set pre. exitFor x = None" by auto
    with None show ?thesis by (intro exI [of _ "c # pre"]) auto
  next
    case (Some e)
    with Cons.prems show ?thesis by (intro exI [of _ "[]"]) auto
  qed
qed simp

lemma first_pair_None: "first_pair exitFor pool = None \<longleftrightarrow> (\<forall>x\<in>set pool. exitFor x = None)"
  by (induction pool) (auto split: option.split)

lemma selectHops_multi:
  assumes "style \<noteq> Single"
  shows "case selectHops gws style opts of
      Inl e \<Rightarrow> \<not> (\<exists>a b. route_ok gws style opts a b)
    | Inr (a, None) \<Rightarrow> False
    | Inr (a, Some b) \<Rightarrow> route_ok gws style opts a b
        \<and> (\<forall>a' b'. route_ok gws style opts a' b' \<longrightarrow> load_key a \<le> load_key a')
        \<and> (\<forall>b'. route_ok gws style opts a b' \<longrightarrow> load_key b \<le> load_key b')"
proof -
  let ?sorted = "sort_key load_key gws"
  let ?pool = "filter (in_entry_pool opts) ?sorted"
  let ?exitFor = "\<lambda>from. find (exit_ok style opts from) ?sorted"
  have srt: "sorted (map load_key ?sorted)" "sorted (map load_key ?pool)" by (simp_all add: sorted_filter)
  have mem: "route_ok gws style opts a b \<longleftrightarrow> a \<in> set ?pool \<and> b \<in> set ?sorted \<and> exit_ok style opts a b" for a b
    by (auto simp: route_ok_def)
  have none: "?exitFor a = None \<longleftrightarrow> \<not> (\<exists>b\<in>set ?sorted. exit_ok style opts a b)" for a
    by (auto simp: find_None_iff)
  show ?thesis
  proof (cases ?pool)
    case Nil
    then show ?thesis using mem by (simp add: selectHops_def Let_def)
  next
    case (Cons e es)
    show ?thesis
    proof (cases "first_pair ?exitFor ?pool")
      case None
      then have "\<not> (\<exists>a b. route_ok gws style opts a b)"
        unfolding first_pair_None none mem by blast
      then show ?thesis using None Cons assms by (simp add: selectHops_def Let_def)
    next
      case (Some h)
      from first_pair_Some [OF this] obtain pre a post b where p: "?pool = pre @ a # post" "h = (a, Some b)"
        "?exitFor a = Some b" "\<forall>x\<in>set pre. ?exitFor x = None" by blast
      have b: "b \<in> set ?sorted" "exit_ok style opts a b" using find_Some_mem [OF p(3)] by auto
      have "a \<in> set ?pool" using p(1) by simp
      then have ok: "route_ok gws style opts a b" using b mem by blast
      have least_a: "load_key a \<le> load_key a'" if "route_ok gws style opts a' b'" for a' b'
      proof -
        have "a' \<in> set ?pool" "?exitFor a' \<noteq> None" using that none [of a'] unfolding mem by blast+
        moreover from this(2) p(4) have "a' \<notin> set pre" by metis
        ultimately have "a' \<in> set (a # post)" unfolding p(1) by auto
        moreover have "sorted (map load_key (pre @ a # post))" using srt(2) unfolding p(1) .
        ultimately show ?thesis by (auto simp: sorted_append)
      qed
      have least_b: "load_key b \<le> load_key b'" if "route_ok gws style opts a b'" for b'
        using find_sorted_least [OF srt(1) p(3)] that unfolding mem by blast
      have "selectHops gws style opts = Inr (a, Some b)" using Some Cons assms p(2) by (simp add: selectHops_def Let_def)
      then show ?thesis using ok least_a least_b by auto
    qed
  qed
qed

text \<open>A single hop is the least loaded gateway of the pool.\<close>

lemma selectHops_single:
  "case selectHops gws Single opts of
      Inl e \<Rightarrow> \<not> (\<exists>a\<in>set gws. in_entry_pool opts a)
    | Inr (a, x) \<Rightarrow> x = None \<and> a \<in> set gws \<and> in_entry_pool opts a
        \<and> (\<forall>a'\<in>set gws. in_entry_pool opts a' \<longrightarrow> load_key a \<le> load_key a')"
proof -
  let ?pool = "filter (in_entry_pool opts) (sort_key load_key gws)"
  have set: "set ?pool = {a \<in> set gws. in_entry_pool opts a}" by auto
  have srt: "sorted (map load_key ?pool)" by (simp add: sorted_filter)
  show ?thesis
  proof (cases ?pool)
    case Nil
    then have "{a \<in> set gws. in_entry_pool opts a} = {}" using set by simp
    then show ?thesis using Nil by (auto simp: selectHops_def Let_def)
  next
    case (Cons e es)
    have "load_key e \<le> load_key a'" if "a' \<in> set gws" "in_entry_pool opts a'" for a'
    proof -
      have "a' \<in> set (e # es)" using that set unfolding Cons by auto
      then show ?thesis using srt unfolding Cons by auto
    qed
    moreover have "e \<in> set gws" "in_entry_pool opts e" using set unfolding Cons by auto
    ultimately show ?thesis using Cons by (simp add: selectHops_def Let_def)
  qed
qed

text \<open>The two hops of a route are different gateways, as the style and the options ask.\<close>

lemma route_ok_distinct:
  assumes "route_ok gws style opts a b"
  shows "gw_ip a \<noteq> gw_ip b"
    and "style = Multihop_same_country \<Longrightarrow> ir_country a = ir_country b"
    and "style = Multihop_cross_jurisdiction \<Longrightarrow> ir_country a \<noteq> ir_country b"
    and "so_requireDistinctSubnet opts \<Longrightarrow> subnetGroup (gw_ip a) \<noteq> subnetGroup (gw_ip b)"
  using assms by (auto simp: route_ok_def exit_ok_def split: if_splits)

section \<open>The pin of the outer tunnel\<close>

text \<open>
  For an IPv4 exit the outer tunnel carries exactly the address the inner one is pointed at. An
  IPv6 endpoint keeps its port, here, so the outer pin is no address at all.
\<close>

lemma strip_endpoint_port:
  assumes "CHR '':'' \<notin> set host" and "CHR '':'' \<notin> set port" and "trim (host @ '':'' @ port) = host @ '':'' @ port"
  shows "strip_endpoint (host @ '':'' @ port) = host"
  using assms
  by (simp add: strip_endpoint_def Let_def before_append split_on_append split_on_no_sep)

lemma strip_endpoint_v6: "strip_endpoint ''[2001:db8::1]:51820'' = ''[2001:db8::1]:51820''"
  by code_simp

lemma v6_pin_is_no_address: "parseCidr (strip_endpoint ''[2001:db8::1]:51820'' @ ''/32'') = None"
  unfolding strip_endpoint_v6 by (simp add: cidr_eval)

end
