(* ===== verification/ClientKeys.thy ===== *)
theory ClientKeys
  imports Codes Transport
begin

text \<open>
  Keys, codes and proofs of work on the client (clients/core-ts/src/keys.ts, pow.ts,
  paymentCode.ts, recoveryKey.ts and sign.ts). The cryptographic library is a parameter: a
  \<open>crypto\<close> of its functions, in which a decoder is \<open>None\<close> where it throws. What the code relies
  on of it is \<open>crypto_ok\<close>.
\<close>

section \<open>The library\<close>

record crypto =
  cr_sha256 :: "bytes \<Rightarrow> bytes"
  cr_b58_encode :: "bytes \<Rightarrow> string"
  cr_b58_decode :: "string \<Rightarrow> bytes option"
  cr_b64_encode :: "bytes \<Rightarrow> string"
  cr_b64_decode :: "string \<Rightarrow> bytes option"
  cr_x25519_public :: "bytes \<Rightarrow> bytes"
  cr_ed25519_verify :: "bytes \<Rightarrow> bytes \<Rightarrow> bytes \<Rightarrow> bool option"

text \<open>The documented behaviour: 32-byte digests, decoders that undo their encoders, and an
  alphabet of letters and digits.\<close>

definition crypto_ok :: "crypto \<Rightarrow> bool" where
  "crypto_ok cr \<longleftrightarrow>
     (\<forall>x. length (cr_sha256 cr x) = 32)
     \<and> (\<forall>x. cr_b58_decode cr (cr_b58_encode cr x) = Some x)
     \<and> (\<forall>s x. cr_b58_decode cr s = Some x \<longrightarrow> s = cr_b58_encode cr x)
     \<and> (\<forall>x. cr_b64_decode cr (cr_b64_encode cr x) = Some x)
     \<and> (\<forall>x. \<forall>c\<in>set (cr_b58_encode cr x). is_digit c \<or> is_lower c \<or> is_upper c)"

section \<open>Keys\<close>

record keypair =
  kp_publicKey :: string
  kp_privateKey :: string

definition clamp :: "bytes \<Rightarrow> bytes" where
  "clamp secret =
     (let k0 = secret[0 := (secret ! 0) AND 248];
          k1 = k0[31 := (k0 ! 31) AND 127]
      in k1[31 := (k1 ! 31) OR 64])"

text \<open>\<open>randomSecretKey\<close> is the random 32 bytes that were drawn.\<close>

definition generateKeypair :: "crypto \<Rightarrow> bytes \<Rightarrow> keypair" where
  "generateKeypair cr randomSecretKey =
     (let secret = clamp randomSecretKey
      in \<lparr>kp_publicKey = cr_b64_encode cr (cr_x25519_public cr secret),
          kp_privateKey = cr_b64_encode cr secret\<rparr>)"

definition publicKeyFromPrivate :: "crypto \<Rightarrow> string \<Rightarrow> string option" where
  "publicKeyFromPrivate cr privateKeyB64 =
     (case cr_b64_decode cr privateKeyB64 of
        None \<Rightarrow> None
      | Some raw \<Rightarrow> Some (cr_b64_encode cr (cr_x25519_public cr (clamp raw))))"

text \<open>A signature over the exact bytes; \<open>None\<close> where the verifier throws.\<close>

definition verifySignedResponse :: "crypto \<Rightarrow> bytes \<Rightarrow> string \<Rightarrow> string \<Rightarrow> bool" where
  "verifySignedResponse cr bodyBytes signatureB64 signPubKeyB64 =
     (case cr_b64_decode cr signatureB64 of
        None \<Rightarrow> False
      | Some sig \<Rightarrow>
          (case cr_b64_decode cr signPubKeyB64 of
             None \<Rightarrow> False
           | Some pub \<Rightarrow> (case cr_ed25519_verify cr sig bodyBytes pub of None \<Rightarrow> False | Some b \<Rightarrow> b)))"

section \<open>Proof of work\<close>

definition POW_BITS :: nat where "POW_BITS = 20"

definition powHash :: "crypto \<Rightarrow> string \<Rightarrow> string \<Rightarrow> bytes" where
  "powHash cr publicKeyB64 nonce = cr_sha256 cr (utf8 publicKeyB64 @ utf8 nonce)"

text \<open>\<open>digest[i]\<close>, where \<open>undefined\<close> (past the end) is not the number \<open>0\<close> but reads as \<open>0\<close> in \<open>&\<close>.\<close>

definition byte_at :: "bytes \<Rightarrow> nat \<Rightarrow> u8 option" where
  "byte_at bs i = (if i < length bs then Some (bs ! i) else None)"

definition hasLeadingZeroBits :: "bytes \<Rightarrow> nat \<Rightarrow> bool" where
  "hasLeadingZeroBits digest bits =
     (let full = bits div 8; rem = bits mod 8
      in list_all (\<lambda>i. byte_at digest i = Some 0) [0..<full]
         \<and> (rem = 0 \<or> (let mask = push_bit (8 - rem) 0xff AND 0xff :: u8
                        in the_default 0 (byte_at digest full) AND mask = 0)))"

text \<open>The counter of the search is a number far below \<open>2 ^ 53\<close>: the search starts below
  \<open>2 ^ 30\<close>, and it may not end.\<close>

partial_function (option) solvePoW :: "crypto \<Rightarrow> string \<Rightarrow> nat \<Rightarrow> nat \<Rightarrow> string option" where
  "solvePoW cr publicKeyB64 bits i =
     (let nonce = show_nat i
      in if hasLeadingZeroBits (powHash cr publicKeyB64 nonce) bits then Some nonce
         else solvePoW cr publicKeyB64 bits (i + 1))"

definition verifyPoW :: "crypto \<Rightarrow> string \<Rightarrow> string \<Rightarrow> nat \<Rightarrow> bool" where
  "verifyPoW cr publicKeyB64 nonce bits =
     (if nonce = [] then False else hasLeadingZeroBits (powHash cr publicKeyB64 nonce) bits)"

section \<open>Keys agree\<close>

lemma clamp_idem: "clamp (clamp k) = clamp k"
proof -
  have a: "((w :: u8) AND 248) AND 248 = w AND 248" for w by (simp add: and.assoc)
  have b: "(((w :: u8) AND 127 OR 64) AND 127) OR 64 = w AND 127 OR 64" for w
    by (simp add: and.assoc bit.conj_disj_distrib2 or.assoc)
  show ?thesis
  proof (cases "31 < length k")
    case True
    then have "k \<noteq> []" by auto
    with True show ?thesis by (simp add: clamp_def Let_def a b list_update_swap)
  next
    case False
    then have beyond: "k'[31 := x] = k'" if "length k' = length k" for k' x
      using that by (simp add: list_update_beyond)
    show ?thesis by (cases "k = []") (simp_all add: clamp_def Let_def a beyond)
  qed
qed

lemma length_clamp [simp]: "length (clamp k) = length k"
  by (simp add: clamp_def Let_def)

text \<open>The public key of a generated pair is derivable from its private key.\<close>

lemma generated_pair:
  assumes "crypto_ok cr"
  shows "publicKeyFromPrivate cr (kp_privateKey (generateKeypair cr r)) = Some (kp_publicKey (generateKeypair cr r))"
  using assms by (simp add: publicKeyFromPrivate_def generateKeypair_def crypto_ok_def clamp_idem Let_def)

section \<open>What a proof of work proves\<close>

text \<open>A digest read as a number, most significant byte first.\<close>

definition be_value :: "bytes \<Rightarrow> nat" where
  "be_value bs = foldl (\<lambda>a b. 256 * a + unat b) 0 bs"

lemma be_value_foldl: "foldl (\<lambda>a b. 256 * a + unat (b :: u8)) a bs = a * 256 ^ length bs + be_value bs"
proof (induction bs arbitrary: a)
  case (Cons b bs)
  from Cons.IH [of "256 * a + unat b"] Cons.IH [of "unat b"] show ?case
    by (simp add: be_value_def algebra_simps)
qed (simp add: be_value_def)

lemma be_value_append: "be_value (xs @ ys) = be_value xs * 256 ^ length ys + be_value ys"
  using be_value_foldl [of "be_value xs" ys] by (simp add: be_value_def)

lemma be_value_Cons: "be_value (b # bs) = unat b * 256 ^ length bs + be_value bs"
  using be_value_foldl [of "unat b" bs] by (simp add: be_value_def)

lemma be_value_Nil [simp]: "be_value [] = 0"
  by (simp add: be_value_def)

lemma be_value_less: "be_value bs < 256 ^ length bs"
proof (induction bs)
  case (Cons b bs)
  have "unat b * 256 ^ length bs + be_value bs < (unat b + 1) * 256 ^ length bs" using Cons.IH by simp
  also have "unat b + 1 \<le> 256" using unsigned_less [of b, where ?'a = nat] by simp
  then have "(unat b + 1) * 256 ^ length bs \<le> 256 * 256 ^ length bs" by (rule mult_right_mono) simp
  finally show ?case by (simp add: be_value_Cons)
qed simp

lemma be_value_eq_0: "be_value bs = 0 \<longleftrightarrow> (\<forall>b\<in>set bs. b = 0)"
  by (induction bs) (auto simp: be_value_Cons unat_eq_0)

text \<open>Splitting off the high part.\<close>

lemma high_part_less:
  assumes "(r :: nat) < m" and "0 < c"
  shows "q * m + r < c * m \<longleftrightarrow> q < c"
proof
  assume "q < c"
  then have "q * m + m \<le> c * m" by (metis Suc_leI mult_Suc add.commute mult_le_mono1)
  with assms(1) show "q * m + r < c * m" by linarith
next
  assume "q * m + r < c * m"
  then have "q * m < c * m" by linarith
  then show "q < c" by simp
qed

lemma mask_zero:
  fixes b :: u8
  assumes "k \<le> 8"
  shows "b AND (push_bit k 0xff AND 0xff) = 0 \<longleftrightarrow> unat b < 2 ^ k"
proof -
  have ff: "(0xff :: u8) = mask 8" by (simp add: mask_eq_exp_minus_1)
  have "b AND (push_bit k 0xff AND 0xff) = 0 \<longleftrightarrow> (\<forall>n<8. k \<le> n \<longrightarrow> \<not> bit b n)"
    unfolding ff by (auto simp: bit_eq_iff bit_simps)
  also have "\<dots> \<longleftrightarrow> take_bit k b = b"
    by (auto simp: bit_eq_iff bit_simps)
  also have "\<dots> \<longleftrightarrow> unat b < 2 ^ k"
  proof -
    have "take_bit k b = b \<longleftrightarrow> take_bit k (unat b) = unat b" by (simp add: word_unat_eq_iff unsigned_take_bit_eq)
    then show ?thesis by (simp add: take_bit_nat_eq_self_iff)
  qed
  finally show ?thesis .
qed

lemma leading_zero_bytes:
  assumes "full \<le> length d"
  shows "list_all (\<lambda>i. byte_at d i = Some 0) [0..<full] \<longleftrightarrow> be_value (take full d) = 0"
proof -
  have "(\<forall>b\<in>set (take full d). b = 0) \<longleftrightarrow> (\<forall>i<full. d ! i = 0)"
    using assms by (auto simp: all_set_conv_all_nth)
  then show ?thesis using assms by (auto simp: be_value_eq_0 byte_at_def list_all_iff)
qed

lemma leading_zero_bits:
  assumes "bits \<le> 8 * length d"
  shows "hasLeadingZeroBits d bits \<longleftrightarrow> be_value d < 2 ^ (8 * length d - bits)"
proof -
  define full rem where fr: "full = bits div 8" "rem = bits mod 8"
  have bits: "bits = 8 * full + rem" "rem < 8" by (simp_all add: fr)
  have le: "full \<le> length d" using assms bits by linarith
  have d: "be_value d = be_value (take full d) * 256 ^ (length d - full) + be_value (drop full d)"
    using be_value_append [of "take full d" "drop full d"] by simp
  have zero: "list_all (\<lambda>i. byte_at d i = Some 0) [0..<full] \<longleftrightarrow> be_value (take full d) = 0"
    by (rule leading_zero_bytes [OF le])
  show ?thesis
  proof (cases "rem = 0")
    case True
    then have "8 * length d - bits = 8 * (length d - full)" using bits by simp
    then have p: "(2 :: nat) ^ (8 * length d - bits) = 256 ^ (length d - full)"
      by (simp add: power_mult)
    have "be_value d < 1 * 256 ^ (length d - full) \<longleftrightarrow> be_value (take full d) < 1"
      unfolding d using be_value_less [of "drop full d"] by (intro high_part_less) simp_all
    then show ?thesis using True zero by (simp add: hasLeadingZeroBits_def fr [symmetric] p)
  next
    case False
    then have "full < length d" using assms bits by linarith
    then obtain b rest where r: "drop full d = b # rest" "b = d ! full" "length rest = length d - full - 1"
      by (metis Cons_nth_drop_Suc length_drop Suc_diff_Suc diff_Suc_eq_diff_pred diff_Suc_1 length_Cons list.sel(3))
    have len: "length d - full = Suc (length rest)" using r(3) \<open>full < length d\<close> by simp
    have "8 * length d - bits = (8 - rem) + 8 * length rest" using bits len le by linarith
    then have p: "(2 :: nat) ^ (8 * length d - bits) = 2 ^ (8 - rem) * 256 ^ length rest"
      by (simp add: power_add power_mult)
    have v: "be_value d = (be_value (take full d) * 256 + unat b) * 256 ^ length rest + be_value rest"
      using d by (simp add: r(1) len be_value_Cons algebra_simps)
    have "be_value d < 2 ^ (8 - rem) * 256 ^ length rest \<longleftrightarrow> be_value (take full d) * 256 + unat b < 2 ^ (8 - rem)"
      unfolding v using be_value_less [of rest] by (intro high_part_less) simp_all
    also have "\<dots> \<longleftrightarrow> be_value (take full d) = 0 \<and> unat b < 2 ^ (8 - rem)"
    proof -
      have "(2 :: nat) ^ (8 - rem) \<le> 2 ^ 8" by (intro power_increasing) simp_all
      then show ?thesis by (cases "be_value (take full d)") auto
    qed
    finally have "be_value d < 2 ^ (8 * length d - bits) \<longleftrightarrow> be_value (take full d) = 0 \<and> unat b < 2 ^ (8 - rem)"
      unfolding p .
    moreover have "byte_at d full = Some b" using \<open>full < length d\<close> r(2) by (simp add: byte_at_def)
    ultimately show ?thesis
      using False zero mask_zero [of "8 - rem" b] by (simp add: hasLeadingZeroBits_def fr [symmetric])
  qed
qed

text \<open>The search returns the first nonce that is accepted, and returns if there is one.\<close>

lemma solvePoW_returns:
  assumes "verifyPoW cr k (show_nat n) bits" and "start \<le> n"
  shows "\<exists>m. solvePoW cr k bits start = Some (show_nat m) \<and> start \<le> m \<and> m \<le> n
    \<and> verifyPoW cr k (show_nat m) bits \<and> (\<forall>i. start \<le> i \<longrightarrow> i < m \<longrightarrow> \<not> verifyPoW cr k (show_nat i) bits)"
  using assms(2)
proof (induction start rule: inc_induct)
  case base
  then show ?case using assms(1)
    by (subst solvePoW.simps) (auto simp: verifyPoW_def Let_def intro!: exI [of _ n])
next
  case (step i)
  show ?case
  proof (cases "verifyPoW cr k (show_nat i) bits")
    case True
    then show ?thesis using step.hyps
      by (subst solvePoW.simps) (auto simp: verifyPoW_def Let_def intro!: exI [of _ i])
  next
    case False
    then have "solvePoW cr k bits i = solvePoW cr k bits (Suc i)"
      by (subst solvePoW.simps) (simp add: verifyPoW_def Let_def)
    with step.IH False show ?thesis by (metis Suc_leD Suc_leI le_neq_implies_less)
  qed
qed

lemma solvePoW_verified:
  assumes "solvePoW cr k bits start = Some nonce"
  shows "verifyPoW cr k nonce bits"
proof (rule solvePoW.raw_induct [OF _ assms, where P = "\<lambda>cr k bits i y. verifyPoW cr k y bits"])
  fix search cr' k' bits' i y
  assume "\<And>cr k bits i y. search cr k bits i = Some y \<Longrightarrow> verifyPoW cr k y bits"
    and "(let nonce = show_nat i in if hasLeadingZeroBits (powHash cr' k' nonce) bits' then Some nonce
          else search cr' k' bits' (i + 1)) = Some y"
  then show "verifyPoW cr' k' y bits'" by (fastforce simp: verifyPoW_def Let_def split: if_splits)
qed

section \<open>Payment codes\<close>

definition paymentCode :: "crypto \<Rightarrow> string \<Rightarrow> string option" where
  "paymentCode cr publicKeyB64 =
     (case cr_b64_decode cr publicKeyB64 of
        None \<Rightarrow> None
      | Some raw \<Rightarrow> if length raw \<noteq> 32 then None else Some (cr_b58_encode cr (take 20 (cr_sha256 cr raw))))"

definition paymentMemo :: "crypto \<Rightarrow> string \<Rightarrow> string option" where
  "paymentMemo cr publicKeyB64 = map_option (\<lambda>c. MEMO_PREFIX @ c) (paymentCode cr publicKeyB64)"

definition client_isValidPaymentCode :: "crypto \<Rightarrow> string \<Rightarrow> bool" where
  "client_isValidPaymentCode cr code =
     (if length code < 20 \<or> 40 < length code then False
      else (case cr_b58_decode cr code of None \<Rightarrow> False | Some b \<Rightarrow> length b = 20))"

definition appAccountToken :: "crypto \<Rightarrow> string \<Rightarrow> string" where
  "appAccountToken cr code =
     (let digest = cr_sha256 cr (utf8 (APP_ACCOUNT_DOMAIN @ code));
          b0 = slice 0 16 digest;
          b1 = b0[6 := (b0 ! 6 AND 0x0f) OR 0x40];
          b = b1[8 := (b1 ! 8 AND 0x3f) OR 0x80];
          hex = concat (map hex_byte b)
      in slice 0 8 hex @ ''-'' @ slice 8 12 hex @ ''-'' @ slice 12 16 hex @ ''-'' @ slice 16 20 hex @ ''-'' @ drop 20 hex)"

section \<open>Wallet links\<close>

datatype wallet_scheme = Zel | Flux_uri | Ssp

definition WALLET_SCHEMES :: "wallet_scheme list" where
  "WALLET_SCHEMES = [Zel, Flux_uri, Ssp]"

definition scheme_slug :: "wallet_scheme \<Rightarrow> string" where
  "scheme_slug w = (case w of Zel \<Rightarrow> ''zel'' | Flux_uri \<Rightarrow> ''flux'' | Ssp \<Rightarrow> ''ssp'')"

text \<open>\<open>encodeURIComponent\<close>: letters, digits and eight marks stand for themselves, every other
  byte of the UTF-8 text is \<open>%XX\<close>.\<close>

definition uri_plain :: "char \<Rightarrow> bool" where
  "uri_plain c \<longleftrightarrow> is_digit c \<or> is_lower c \<or> is_upper c
     \<or> c \<in> {CHR ''-'', CHR ''_'', CHR ''.'', CHR ''!'', CHR ''~'', CHR ''*'', CHR 0x27, CHR ''('', CHR '')''}"

definition uri_char :: "char \<Rightarrow> string" where
  "uri_char c = (if uri_plain c then [c]
                 else concat (map (\<lambda>b. CHR ''%'' # upper_str (hex_byte b)) (utf8_char c)))"

definition encodeURIComponent :: "string \<Rightarrow> string" where
  "encodeURIComponent s = concat (map uri_char s)"

definition walletDeepLink :: "(rat \<Rightarrow> string) \<Rightarrow> string \<Rightarrow> rat \<Rightarrow> string \<Rightarrow> wallet_scheme \<Rightarrow> string" where
  "walletDeepLink numstr address priceFlux memo scheme =
     (let amount = numstr priceFlux
      in if scheme = Zel
         then ''zel:?'' @ join ''&''
                [''action=pay'', ''coin=flux'', ''address='' @ encodeURIComponent address,
                 ''amount='' @ encodeURIComponent amount, ''message='' @ encodeURIComponent memo]
         else scheme_slug scheme @ '':'' @ address @ ''?amount='' @ encodeURIComponent amount
                @ ''&message='' @ encodeURIComponent memo)"

definition walletDeepLinks :: "(rat \<Rightarrow> string) \<Rightarrow> string \<Rightarrow> rat \<Rightarrow> string \<Rightarrow> (wallet_scheme \<times> string) list" where
  "walletDeepLinks numstr address priceFlux memo =
     map (\<lambda>scheme. (scheme, walletDeepLink numstr address priceFlux memo scheme)) WALLET_SCHEMES"

section \<open>Recovery keys\<close>

definition RECOVERY_KEY_PREFIX :: string where "RECOVERY_KEY_PREFIX = ''CVPN''"
definition KEY_VERSION :: u8 where "KEY_VERSION = 1"
definition KEY_BYTES :: nat where "KEY_BYTES = 32"
definition CHECKSUM_BYTES :: nat where "CHECKSUM_BYTES = 4"
definition GROUP :: nat where "GROUP = 5"

text \<open>The reasons, and any other exception.\<close>

datatype recovery_error = Bad_format | Bad_checksum | Bad_version | Threw

definition checksum :: "crypto \<Rightarrow> bytes \<Rightarrow> bytes" where
  "checksum cr payload = take CHECKSUM_BYTES (cr_sha256 cr payload)"

fun groups_of :: "nat \<Rightarrow> string \<Rightarrow> string list" where
  "groups_of n s = (if n = 0 \<or> s = [] then [] else take n s # groups_of n (drop n s))"

definition encodeRecoveryKey :: "crypto \<Rightarrow> string \<Rightarrow> string option" where
  "encodeRecoveryKey cr privateKeyB64 =
     (case cr_b64_decode cr privateKeyB64 of
        None \<Rightarrow> None
      | Some key \<Rightarrow>
          if length key \<noteq> KEY_BYTES then None
          else (let payload = KEY_VERSION # key;
                    body = payload @ checksum cr payload;
                    encoded = cr_b58_encode cr body
                in Some (join ''-'' (RECOVERY_KEY_PREFIX # groups_of GROUP encoded))))"

text \<open>What is left of the input before it is decoded.\<close>

definition strip_recovery :: "string \<Rightarrow> string" where
  "strip_recovery input =
     (let s = filter (\<lambda>c. \<not> is_space c) input;
          s' = (if upper_str (take (length RECOVERY_KEY_PREFIX) s) = RECOVERY_KEY_PREFIX
                then drop (length RECOVERY_KEY_PREFIX) s else s)
      in filter (\<lambda>c. c \<noteq> CHR ''-'') s')"

definition decodeRecoveryKey :: "crypto \<Rightarrow> string \<Rightarrow> recovery_error + keypair" where
  "decodeRecoveryKey cr input =
     (case cr_b58_decode cr (strip_recovery input) of
        None \<Rightarrow> Inl Bad_format
      | Some body \<Rightarrow>
          if length body \<noteq> 1 + KEY_BYTES + CHECKSUM_BYTES then Inl Bad_format
          else (let payload = take (1 + KEY_BYTES) body;
                    expected = checksum cr payload;
                    given = drop (1 + KEY_BYTES) body
                in if \<not> list_all (\<lambda>i. byte_at given i = Some (expected ! i)) [0..<length expected] then Inl Bad_checksum
                   else if hd payload \<noteq> KEY_VERSION then Inl Bad_version
                   else (let privateKey = cr_b64_encode cr (drop 1 payload)
                         in case publicKeyFromPrivate cr privateKey of
                              None \<Rightarrow> Inl Threw
                            | Some publicKey \<Rightarrow> Inr \<lparr>kp_publicKey = publicKey, kp_privateKey = privateKey\<rparr>)))"

section \<open>Both sides agree on a code\<close>

lemma client_code_check: "client_isValidPaymentCode cr = isValidPaymentCode (cr_b58_decode cr)"
  by (rule ext) (simp add: client_isValidPaymentCode_def isValidPaymentCode_def)

lemma client_account_token: "appAccountToken cr = uuidForCode (cr_sha256 cr)"
  by (rule ext) (simp add: appAccountToken_def uuidForCode_def uuid_of_hex_def slice_def Let_def)

text \<open>The code of a key is one the bridge accepts, when twenty bytes take 20 to 40 characters.\<close>

lemma paymentCode_valid:
  assumes "crypto_ok cr" and "paymentCode cr k = Some c" and "20 \<le> length c" and "length c \<le> 40"
  shows "isValidPaymentCode (cr_b58_decode cr) c"
  using assms by (auto simp: paymentCode_def isValidPaymentCode_def crypto_ok_def split: option.splits if_splits)

section \<open>Recovery keys restore the identity\<close>

declare groups_of.simps [simp del]

lemma groups_step: "0 < n \<Longrightarrow> s \<noteq> [] \<Longrightarrow> groups_of n s = take n s # groups_of n (drop n s)"
  and groups_Nil: "groups_of n [] = []"
  by (subst groups_of.simps, simp)+

lemma groups_concat: "0 < n \<Longrightarrow> concat (groups_of n s) = s"
proof (induction n s rule: groups_of.induct)
  case (1 n s)
  then show ?case by (cases "s = []") (simp_all add: groups_Nil groups_step)
qed

lemma groups_mem: "w \<in> set (groups_of n s) \<Longrightarrow> 0 < n \<Longrightarrow> set w \<subseteq> set s"
  by (metis UN_upper groups_concat set_concat)

lemma filter_dashes_join: "filter (\<lambda>c. c \<noteq> CHR ''-'') (join ''-'' ws) = filter (\<lambda>c. c \<noteq> CHR ''-'') (concat ws)"
  by (induction "''-''" ws rule: join.induct) auto

lemma strip_recovery_printed:
  assumes "\<forall>c\<in>set e. is_digit c \<or> is_lower c \<or> is_upper c"
  shows "strip_recovery (join ''-'' (RECOVERY_KEY_PREFIX # groups_of GROUP e)) = e"
proof (cases "e = []")
  case True
  have "strip_recovery ''CVPN'' = []" by code_simp
  with True show ?thesis by (simp add: groups_Nil RECOVERY_KEY_PREFIX_def)
next
  case False
  let ?gs = "groups_of GROUP e"
  have plain: "\<not> is_space c \<and> c \<noteq> CHR ''-''" if "c \<in> set e" for c
    using assms that by (auto simp: is_digit_def is_lower_def is_upper_def is_space_def)
  have "?gs \<noteq> []" using False by (simp add: GROUP_def groups_step)
  then have j: "join ''-'' (RECOVERY_KEY_PREFIX # ?gs) = ''CVPN-'' @ join ''-'' ?gs"
    by (cases ?gs) (auto simp: RECOVERY_KEY_PREFIX_def)
  have cat: "concat ?gs = e" by (rule groups_concat) (simp add: GROUP_def)
  have "set (join ''-'' ?gs) \<subseteq> set e \<union> {CHR ''-''}"
    using set_join [of "''-''" ?gs] groups_mem [of _ GROUP e] by (force simp: GROUP_def)
  then have sp: "filter (\<lambda>c. \<not> is_space c) (join ''-'' ?gs) = join ''-'' ?gs"
    using plain by (intro filter_True) (auto simp: is_space_def)
  have pre: "filter (\<lambda>c. \<not> is_space c) (''CVPN-'' @ s) = ''CVPN-'' @ filter (\<lambda>c. \<not> is_space c) s" for s
    by (simp add: is_space_def)
  have up: "upper_str ''CVPN'' = ''CVPN''" by code_simp
  have "filter (\<lambda>c. c \<noteq> CHR ''-'') e = e" using plain by (intro filter_True) auto
  then show ?thesis
    unfolding j strip_recovery_def Let_def pre sp
    by (simp add: RECOVERY_KEY_PREFIX_def up [simplified] filter_dashes_join cat)
qed

lemma length_checksum: "crypto_ok cr \<Longrightarrow> length (checksum cr p) = 4"
  by (simp add: checksum_def crypto_ok_def CHECKSUM_BYTES_def)

lemma same_bytes:
  assumes "length xs = length ys"
  shows "list_all (\<lambda>i. byte_at xs i = Some (ys ! i)) [0..<length ys] \<longleftrightarrow> xs = ys"
  using assms by (auto simp: list_all_iff byte_at_def intro: nth_equalityI)

text \<open>What \<open>decodeRecoveryKey\<close> accepts: a version, a key and their checksum.\<close>

lemma decode_body:
  assumes "crypto_ok cr" and "cr_b58_decode cr (strip_recovery input) = Some body" and "length body = 37"
  shows "decodeRecoveryKey cr input
    = (let payload = take 33 body; key = drop 1 payload
       in if drop 33 body \<noteq> checksum cr payload then Inl Bad_checksum
          else if hd payload \<noteq> KEY_VERSION then Inl Bad_version
          else Inr \<lparr>kp_publicKey = cr_b64_encode cr (cr_x25519_public cr (clamp key)), kp_privateKey = cr_b64_encode cr key\<rparr>)"
proof -
  have "length (drop 33 body) = length (checksum cr (take 33 body))"
    using assms by (simp add: length_checksum)
  from same_bytes [OF this] show ?thesis using assms
    by (simp add: decodeRecoveryKey_def KEY_BYTES_def CHECKSUM_BYTES_def publicKeyFromPrivate_def crypto_ok_def Let_def)
qed

lemma recovery_roundtrip:
  assumes "crypto_ok cr" and "cr_b64_decode cr s = Some key" and "length key = 32"
  shows "\<exists>r. encodeRecoveryKey cr s = Some r
    \<and> decodeRecoveryKey cr r = Inr \<lparr>kp_publicKey = cr_b64_encode cr (cr_x25519_public cr (clamp key)),
                                   kp_privateKey = cr_b64_encode cr key\<rparr>"
proof -
  let ?payload = "KEY_VERSION # key"
  let ?body = "?payload @ checksum cr ?payload"
  let ?r = "join ''-'' (RECOVERY_KEY_PREFIX # groups_of GROUP (cr_b58_encode cr ?body))"
  have "strip_recovery ?r = cr_b58_encode cr ?body"
    using assms(1) by (intro strip_recovery_printed) (auto simp: crypto_ok_def)
  then have d: "cr_b58_decode cr (strip_recovery ?r) = Some ?body" using assms(1) by (simp add: crypto_ok_def)
  have l: "length ?body = 37" using assms by (simp add: length_checksum)
  have t: "take 33 ?body = ?payload" "drop 33 ?body = checksum cr ?payload" using assms(3) by simp_all
  have "encodeRecoveryKey cr s = Some ?r" using assms by (simp add: encodeRecoveryKey_def KEY_BYTES_def Let_def)
  moreover have "decodeRecoveryKey cr ?r = Inr \<lparr>kp_publicKey = cr_b64_encode cr (cr_x25519_public cr (clamp key)),
      kp_privateKey = cr_b64_encode cr key\<rparr>"
    unfolding decode_body [OF assms(1) d l] t by (simp add: Let_def)
  ultimately show ?thesis by blast
qed

text \<open>What is accepted is what a device printed: the restored key prints the same characters.\<close>

lemma recovery_accepted:
  assumes "crypto_ok cr" and "decodeRecoveryKey cr input = Inr kp"
  shows "\<exists>r. encodeRecoveryKey cr (kp_privateKey kp) = Some r \<and> strip_recovery r = strip_recovery input"
proof -
  obtain body where b: "cr_b58_decode cr (strip_recovery input) = Some body" "length body = 37"
    using assms(2) by (auto simp: decodeRecoveryKey_def KEY_BYTES_def CHECKSUM_BYTES_def split: option.splits if_splits)
  let ?payload = "take 33 body" and ?key = "drop 1 (take 33 body)"
  have c: "drop 33 body = checksum cr ?payload" "hd ?payload = KEY_VERSION" "kp_privateKey kp = cr_b64_encode cr ?key"
    using assms(2) unfolding decode_body [OF assms(1) b] by (auto simp: Let_def split: if_splits)
  have p: "KEY_VERSION # ?key = ?payload" using b(2) c(2) by (cases body) (auto simp: take_Cons')
  then have body: "(KEY_VERSION # ?key) @ checksum cr (KEY_VERSION # ?key) = body" unfolding p c(1) [symmetric] by simp
  let ?r = "join ''-'' (RECOVERY_KEY_PREFIX # groups_of GROUP (cr_b58_encode cr body))"
  have "cr_b64_decode cr (kp_privateKey kp) = Some ?key" using assms(1) by (simp add: c(3) crypto_ok_def)
  moreover have "length ?key = 32" using b(2) by simp
  ultimately have "encodeRecoveryKey cr (kp_privateKey kp) = Some ?r"
    unfolding encodeRecoveryKey_def by (simp add: KEY_BYTES_def Let_def body [simplified])
  moreover have "strip_recovery ?r = cr_b58_encode cr body"
    using assms(1) by (intro strip_recovery_printed) (auto simp: crypto_ok_def)
  moreover have "strip_recovery input = cr_b58_encode cr body" using assms(1) b(1) by (simp add: crypto_ok_def)
  ultimately show ?thesis by auto
qed

section \<open>One colon in a wallet link\<close>

lemma upper_hex_no_colon: "is_hex_digit c \<Longrightarrow> to_upper c \<noteq> CHR '':''"
proof -
  assume h: "is_hex_digit c"
  have "(of_char (to_upper c) :: nat) \<noteq> 58"
    using h by (auto simp: is_hex_digit_def is_digit_def to_upper_def is_lower_def)
  then show ?thesis by auto
qed

lemma uri_no_colon: "CHR '':'' \<notin> set (encodeURIComponent s)"
proof -
  have b: "CHR '':'' \<notin> set (upper_str (hex_byte x))" for x
  proof
    assume "CHR '':'' \<in> set (upper_str (hex_byte x))"
    then obtain c where "c \<in> set (hex_byte x)" "to_upper c = CHR '':''" by auto
    then show False using upper_hex_no_colon hex_byte_hex by blast
  qed
  have "CHR '':'' \<notin> set (uri_char c)" for c
    using b by (auto simp: uri_char_def uri_plain_def is_digit_def is_lower_def is_upper_def)
  then show ?thesis by (auto simp: encodeURIComponent_def)
qed

lemma wallet_link_one_colon:
  assumes "scheme \<noteq> Zel \<Longrightarrow> CHR '':'' \<notin> set address"
  shows "filter (\<lambda>c. c = CHR '':'') (walletDeepLink numstr address price memo scheme) = '':''"
proof -
  have f: "filter (\<lambda>c. c = CHR '':'') (encodeURIComponent s) = []" for s
    using uri_no_colon [of s] by (auto simp: filter_empty_conv)
  show ?thesis
  proof (cases "scheme = Zel")
    case True
    then show ?thesis by (simp add: walletDeepLink_def f Let_def)
  next
    case False
    then have "filter (\<lambda>c. c = CHR '':'') address = []" using assms by (auto simp: filter_empty_conv)
    with False show ?thesis by (cases scheme) (simp_all add: walletDeepLink_def scheme_slug_def f Let_def)
  qed
qed

end
