(* ===== verification/Gateways.thy ===== *)
theory Gateways
  imports ClientKeys
begin

text \<open>
  Finding gateways and talking to them (clients/core-ts/src/http.ts, discovery.ts, enroll.ts,
  probe.ts, quality.ts, confhealth.ts). A request is a parameter: \<open>None\<close> where \<open>fetch\<close> or the
  reading of its answer rejects, else the answer, whose body \<open>parse\<close> (\<open>JSON.parse\<close> and the
  type the caller asserts) reads. Numbers are exact rationals.
\<close>

section \<open>Signed answers\<close>

datatype 'a api_envelope = Envelope_error string string string | Envelope_data 'a

record http_answer =
  ha_ok :: bool
  ha_bytes :: bytes
  ha_signature :: "string option"
  ha_signPubKey :: "string option"

record 'a signed_result =
  sg_data :: 'a
  sg_signPubKey :: "string option"
  sg_verified :: bool

text \<open>An \<open>ApiError\<close> carries the code, the slug and the message of the envelope.\<close>

datatype fetch_error =
    Api_error string string string
  | Unverified string
  | Timed_out string
  | Failed_fetch

definition fetchSigned_body ::
  "crypto \<Rightarrow> (bytes \<Rightarrow> 'a api_envelope option) \<Rightarrow> string \<Rightarrow> http_answer option \<Rightarrow> string option \<Rightarrow>
   fetch_error + 'a signed_result" where
  "fetchSigned_body cr parse url answer pinnedSignPubKey =
     (case answer of
        None \<Rightarrow> Inl Failed_fetch
      | Some res \<Rightarrow>
          (case parse (ha_bytes res) of
             None \<Rightarrow> Inl Failed_fetch
           | Some (Envelope_error code name message) \<Rightarrow> Inl (Api_error code name message)
           | Some (Envelope_data data) \<Rightarrow>
               (let signature = ha_signature res;
                    signPubKey = (case pinnedSignPubKey of Some k \<Rightarrow> Some k | None \<Rightarrow> ha_signPubKey res);
                    verified = (if truthy signature \<and> truthy signPubKey
                                then verifySignedResponse cr (ha_bytes res) (the signature) (the signPubKey)
                                else False)
                in if \<not> verified then Inl (Unverified url)
                   else Inr \<lparr>sg_data = data, sg_signPubKey = signPubKey, sg_verified = verified\<rparr>)))"

text \<open>Whatever fails after the deadline has aborted the request is reported as a timeout.\<close>

definition fetchSigned ::
  "crypto \<Rightarrow> (bytes \<Rightarrow> 'a api_envelope option) \<Rightarrow> string \<Rightarrow> http_answer option \<Rightarrow> bool \<Rightarrow> string option \<Rightarrow>
   fetch_error + 'a signed_result" where
  "fetchSigned cr parse url answer aborted pinned =
     (case fetchSigned_body cr parse url answer pinned of
        Inr r \<Rightarrow> Inr r
      | Inl e \<Rightarrow> if aborted then Inl (Timed_out url) else Inl e)"

section \<open>Discovery\<close>

definition after_prefix :: "string \<Rightarrow> string \<Rightarrow> string" where
  "after_prefix p s = (if starts_with p s then drop (length p) s else s)"

definition specToCountryCode :: "string \<Rightarrow> string" where
  "specToCountryCode spec =
     upper_str (if starts_with ''cumulusvpn'' spec then after_prefix ''tls'' (after_prefix ''cumulusvpn'' spec) else spec)"

definition reportedCountry :: "string option \<Rightarrow> string" where
  "reportedCountry country =
     (let cc = upper_str (trim (the_default [] country))
      in if length cc = 2 \<and> list_all is_upper cc then cc else [])"

definition stripPort :: "string \<Rightarrow> string" where
  "stripPort ip =
     (let trimmed = trim ip
      in if CHR '':'' \<in> set trimmed \<and> length (split_on CHR '':'' trimmed) = 2
         then before CHR '':'' trimmed else trimmed)"

text \<open>The entries of a location index, \<open>None\<close> when the request or its parsing fails or there are none.\<close>

definition fetchLocation :: "string list option \<Rightarrow> string list" where
  "fetchLocation entries =
     (case entries of None \<Rightarrow> [] | Some es \<Rightarrow> filter (\<lambda>ip. 0 < length ip) (map stripPort es))"

definition location_urls :: "string \<Rightarrow> string list \<Rightarrow> string list" where
  "location_urls spec nodes =
     (''https://api.runonflux.io/apps/location/'' @ spec)
       # map (\<lambda>node. ''http://'' @ node @ '':16127/apps/location/'' @ spec) nodes"

definition control_url :: "string \<Rightarrow> string" where
  "control_url ip = ''http://'' @ ip @ '':'' @ show_int CONTROL_PORT"

text \<open>A map in insertion order; \<open>if (!has(k)) set(k, v)\<close>.\<close>

definition set_if_absent :: "string \<Rightarrow> string \<Rightarrow> (string \<times> string) list \<Rightarrow> (string \<times> string) list" where
  "set_if_absent k v m = (if has_key fst k m then m else m @ [(k, v)])"

text \<open>The specs, in the order their look-ups finish, each with the answers of its URLs.\<close>

definition ip_countries :: "(string \<times> string list option list) list \<Rightarrow> (string \<times> string) list" where
  "ip_countries arrivals =
     fold (\<lambda>(spec, answers) m.
         fold (\<lambda>ip m. set_if_absent ip (specToCountryCode spec) m) (concat (map fetchLocation answers)) m)
       arrivals []"

definition probe ::
  "crypto \<Rightarrow> (bytes \<Rightarrow> info_response api_envelope option) \<Rightarrow> (string \<Rightarrow> http_answer option \<times> bool) \<Rightarrow> string \<Rightarrow>
   gateway_info option" where
  "probe cr parse fetch ip =
     (let controlUrl = control_url ip;
          (answer, aborted) = fetch (controlUrl @ ''/v1/info'')
      in case fetchSigned cr parse (controlUrl @ ''/v1/info'') answer aborted None of
           Inl _ \<Rightarrow> None
         | Inr r \<Rightarrow> Some (info_response.extend (info_response.truncate (sg_data r)) (gateway_info.fields ip controlUrl)))"

definition discoverGateways ::
  "crypto \<Rightarrow> (bytes \<Rightarrow> info_response api_envelope option) \<Rightarrow> (string \<Rightarrow> http_answer option \<times> bool) \<Rightarrow>
   (string \<times> string list option list) list \<Rightarrow> gateway_info list" where
  "discoverGateways cr parse fetch arrivals =
     (let ipCountry = ip_countries arrivals;
          probed = List.map_filter (\<lambda>(ip, _). probe cr parse fetch ip) ipCountry;
          gateways = map (\<lambda>g. g\<lparr>ir_country :=
              the (or_else (Some (reportedCountry (Some (ir_country g))))
                     (or_else (map_of ipCountry (gw_ip g)) (Some [])))\<rparr>) probed
      in sort_key (\<lambda>g. (ir_country g, ir_load g)) gateways)"

section \<open>The signed directory\<close>

text \<open>\<open>leaf\<close> is \<open>JSON.stringify\<close> on a null, a boolean, a number or a string.\<close>

fun canonicalJson :: "(json \<Rightarrow> string) \<Rightarrow> json \<Rightarrow> string" where
  "canonicalJson leaf (J_arr vs) = ''['' @ join '','' (map (canonicalJson leaf) vs) @ '']''"
| "canonicalJson leaf (J_obj kvs) =
     ''{'' @ join '',''
       (map (\<lambda>(k, t). leaf (J_str k) @ '':'' @ t)
         (sort_key fst (map (\<lambda>kv. (fst kv, canonicalJson leaf (snd kv))) kvs))) @ ''}''"
| "canonicalJson leaf v = leaf v"

text \<open>Assigning to \<open>__proto__\<close> makes no property of the copy, so that field is left out too.\<close>

definition unsigned_field :: "string \<times> json \<Rightarrow> bool" where
  "unsigned_field kv \<longleftrightarrow> \<not> (fst kv = ''sig'' \<or> fst kv = ''sign_pubkey'' \<or> starts_with ''//'' (fst kv)
     \<or> fst kv = ''__proto__'')"

text \<open>The fields of the directory and its \<open>sig\<close>; \<open>encode\<close> is \<open>TextEncoder\<close>.\<close>

definition directoryVerify :: "crypto \<Rightarrow> (json \<Rightarrow> string) \<Rightarrow> (string \<times> json) list \<Rightarrow> string \<Rightarrow> bool" where
  "directoryVerify cr leaf directory publicKeyB64 =
     (let message = utf8 (canonicalJson leaf (J_obj (filter unsigned_field directory)))
      in case map_of directory ''sig'' of
           Some (J_str sig) \<Rightarrow>
             (case (cr_b64_decode cr sig, cr_b64_decode cr publicKeyB64) of
                (Some s, Some k) \<Rightarrow> the_default False (cr_ed25519_verify cr s message k)
              | _ \<Rightarrow> False)
         | _ \<Rightarrow> False)"

section \<open>Enrolling\<close>

record enroll_request =
  eq_url :: string
  eq_pubkey :: string
  eq_pow_nonce :: string

text \<open>\<open>solve\<close> is the solver's answer. The result is the request sent and what came of it.\<close>

definition enroll ::
  "crypto \<Rightarrow> (bytes \<Rightarrow> 'a api_envelope option) \<Rightarrow> (string \<Rightarrow> nat \<Rightarrow> string) \<Rightarrow>
   (enroll_request \<Rightarrow> http_answer option \<times> bool) \<Rightarrow> string \<Rightarrow> string \<Rightarrow> nat option \<Rightarrow> string option \<Rightarrow>
   enroll_request \<times> (fetch_error + 'a)" where
  "enroll cr parse solve fetch gatewayIp publicKeyB64 powBits signPubKey =
     (let bits = the_default POW_BITS powBits;
          req = \<lparr>eq_url = control_url gatewayIp @ ''/v1/enroll'', eq_pubkey = publicKeyB64,
                 eq_pow_nonce = solve publicKeyB64 bits\<rparr>;
          (answer, aborted) = fetch req
      in (req, map_sum id sg_data (fetchSigned cr parse (eq_url req) answer aborted signPubKey)))"

definition gateway_status ::
  "crypto \<Rightarrow> (bytes \<Rightarrow> 'a api_envelope option) \<Rightarrow> (string \<Rightarrow> http_answer option \<times> bool) \<Rightarrow> string \<Rightarrow> string \<Rightarrow>
   string option \<Rightarrow> fetch_error + 'a" where
  "gateway_status cr parse fetch gatewayIp publicKeyB64 signPubKey =
     (let path = control_url gatewayIp @ ''/v1/status/'' @ encodeURIComponent publicKeyB64;
          (answer, aborted) = fetch path
      in map_sum id sg_data (fetchSigned cr parse path answer aborted signPubKey))"

section \<open>Quality and latency\<close>

datatype quality_tone = Excellent | Good | Fair | Busy

definition tone_label :: "quality_tone \<Rightarrow> string" where
  "tone_label t = (case t of Excellent \<Rightarrow> ''Excellent'' | Good \<Rightarrow> ''Good'' | Fair \<Rightarrow> ''Fair'' | Busy \<Rightarrow> ''Busy'')"

record gateway_quality =
  gq_tone :: quality_tone
  gq_label :: string
  gq_loadPct :: int
  gq_score :: int

definition latency_score :: "rat option \<Rightarrow> rat" where
  "latency_score latencyMs =
     (case latencyMs of
        None \<Rightarrow> 1 / 2
      | Some ms \<Rightarrow> if ms \<le> 60 then 1 else if 400 \<le> ms then 0 else 1 - (ms - 60) / 340)"

definition gatewayQuality :: "rat option \<Rightarrow> rat \<Rightarrow> gateway_quality" where
  "gatewayQuality latencyMs load =
     (let l = min 1 (max 0 load);
          loadPct = math_round (l * 100);
          loadScore = 1 - l;
          latScore = latency_score latencyMs;
          score = math_round ((3 / 5 * loadScore + 2 / 5 * latScore) * 100);
          tone = (if 17 / 20 \<le> l then Busy else if 78 \<le> score then Excellent
                  else if 55 \<le> score then Good else Fair)
      in \<lparr>gq_tone = tone, gq_label = tone_label tone, gq_loadPct = loadPct, gq_score = score\<rparr>)"

record ping_result =
  pr_rttMs :: "rat option"
  pr_jitterMs :: "int option"
  pr_loss :: rat

definition ping_samples :: "int option \<Rightarrow> int" where
  "ping_samples samples = max 1 (the_default 4 samples)"

text \<open>The samples of one probe: the round trip of one that succeeded, \<open>None\<close> for a failure.\<close>

definition summarise_pings :: "rat option list \<Rightarrow> ping_result" where
  "summarise_pings outcomes =
     (let rtts = List.map_filter id outcomes;
          loss = of_nat (length (filter (\<lambda>x. x = None) outcomes)) / of_nat (length outcomes)
      in if rtts = [] then \<lparr>pr_rttMs = None, pr_jitterMs = None, pr_loss = loss\<rparr>
         else (let median = sort rtts ! (length rtts div 2);
                   mean = sum_list rtts / of_nat (length rtts);
                   jitter = sum_list (map (\<lambda>b. \<bar>b - mean\<bar>) rtts) / of_nat (length rtts)
               in \<lparr>pr_rttMs = Some median, pr_jitterMs = Some (math_round jitter), pr_loss = loss\<rparr>))"

definition pingGateway :: "(nat \<Rightarrow> rat option) \<Rightarrow> int option \<Rightarrow> ping_result" where
  "pingGateway sample samples = summarise_pings (map sample [0..<nat (ping_samples samples)])"

section \<open>Issued configurations\<close>

datatype conf_health = Conf_ok | Conf_replaced | Conf_unreachable | Conf_unknown

definition checkIssuedConfig ::
  "crypto \<Rightarrow> (bytes \<Rightarrow> info_response api_envelope option) \<Rightarrow> (string \<Rightarrow> http_answer option \<times> bool) \<Rightarrow>
   (string \<times> string) option \<Rightarrow> conf_health" where
  "checkIssuedConfig cr parse fetch ref =
     (case ref of
        None \<Rightarrow> Conf_unknown
      | Some (ip, serverPubKey) \<Rightarrow>
          if ip = [] \<or> serverPubKey = [] then Conf_unknown
          else (let url = control_url ip @ ''/v1/info''; (answer, aborted) = fetch url
                in case fetchSigned cr parse url answer aborted None of
                     Inl _ \<Rightarrow> Conf_unreachable
                   | Inr r \<Rightarrow> if ir_server_pubkey (sg_data r) = serverPubKey then Conf_ok else Conf_replaced))"

section \<open>What an accepted answer is\<close>

lemma fetchSigned_Inr:
  assumes "fetchSigned cr parse url answer aborted pinned = Inr r"
  obtains res sig key s k where "answer = Some res" "parse (ha_bytes res) = Some (Envelope_data (sg_data r))"
    "ha_signature res = Some sig" "sg_signPubKey r = Some key" "pinned = None \<or> pinned = Some key"
    "cr_b64_decode cr sig = Some s" "cr_b64_decode cr key = Some k"
    "cr_ed25519_verify cr s (ha_bytes res) k = Some True"
  using assms that
  by (auto simp: fetchSigned_def fetchSigned_body_def verifySignedResponse_def truthy_def Let_def
      split: if_splits sum.splits option.splits api_envelope.splits)

lemma probe_Some:
  assumes "probe cr parse fetch ip = Some g"
  shows "gw_ip g = ip" and "gw_controlUrl g = control_url ip"
    and "\<exists>res sig key s k. fst (fetch (control_url ip @ ''/v1/info'')) = Some res
      \<and> parse (ha_bytes res) = Some (Envelope_data (info_response.truncate g))
      \<and> ha_signature res = Some sig \<and> ha_signPubKey res = Some key
      \<and> cr_b64_decode cr sig = Some s \<and> cr_b64_decode cr key = Some k
      \<and> cr_ed25519_verify cr s (ha_bytes res) k = Some True"
proof -
  obtain answer aborted where f: "fetch (control_url ip @ ''/v1/info'') = (answer, aborted)" by fastforce
  obtain r where r: "fetchSigned cr parse (control_url ip @ ''/v1/info'') answer aborted None = Inr r"
    "g = info_response.extend (info_response.truncate (sg_data r)) (gateway_info.fields ip (control_url ip))"
    using assms f by (auto simp: probe_def Let_def split: sum.splits)
  show "gw_ip g = ip" "gw_controlUrl g = control_url ip"
    by (simp_all add: r(2) info_response.defs gateway_info.defs)
  have g: "info_response.truncate g = sg_data r"
    by (cases "sg_data r") (simp add: r(2) info_response.defs gateway_info.defs)
  show "\<exists>res sig key s k. fst (fetch (control_url ip @ ''/v1/info'')) = Some res
      \<and> parse (ha_bytes res) = Some (Envelope_data (info_response.truncate g))
      \<and> ha_signature res = Some sig \<and> ha_signPubKey res = Some key
      \<and> cr_b64_decode cr sig = Some s \<and> cr_b64_decode cr key = Some k
      \<and> cr_ed25519_verify cr s (ha_bytes res) k = Some True"
    using r(1) unfolding g f fst_conv
    by (auto simp: fetchSigned_def fetchSigned_body_def verifySignedResponse_def truthy_def Let_def
        split: if_splits sum.splits option.splits api_envelope.splits)
qed

section \<open>The list of gateways\<close>

lemma set_if_absent_unique: "unique_key fst m \<Longrightarrow> unique_key fst (set_if_absent k v m)"
  by (simp add: set_if_absent_def unique_key_append1)

lemma ip_countries_unique: "unique_key fst (ip_countries arrivals)"
proof -
  have inner: "unique_key fst (fold (\<lambda>ip m. set_if_absent ip cc m) ips m)" if "unique_key fst m" for cc ips m
    using that by (induction ips arbitrary: m) (auto simp: set_if_absent_unique)
  have "unique_key fst (fold (\<lambda>(spec, answers) m.
      fold (\<lambda>ip m. set_if_absent ip (specToCountryCode spec) m) (concat (map fetchLocation answers)) m) arrivals m)"
    if "unique_key fst m" for m
    using that by (induction arrivals arbitrary: m) (auto simp: inner)
  then show ?thesis by (simp add: ip_countries_def)
qed

definition listed_country :: "(string \<times> string) list \<Rightarrow> gateway_info \<Rightarrow> string" where
  "listed_country m g = the (or_else (Some (reportedCountry (Some (ir_country g)))) (or_else (map_of m (gw_ip g)) (Some [])))"

lemma discover_eq:
  "discoverGateways cr parse fetch arrivals
    = sort_key (\<lambda>g. (ir_country g, ir_load g))
        (map (\<lambda>g. g\<lparr>ir_country := listed_country (ip_countries arrivals) g\<rparr>)
          (List.map_filter (\<lambda>(ip, _). probe cr parse fetch ip) (ip_countries arrivals)))"
  by (simp add: discoverGateways_def listed_country_def Let_def)

lemma discovered_verified:
  assumes "g \<in> set (discoverGateways cr parse fetch arrivals)"
  shows "\<exists>g0. probe cr parse fetch (gw_ip g) = Some g0 \<and> gw_ip g \<in> fst ` set (ip_countries arrivals)
    \<and> g = g0\<lparr>ir_country := listed_country (ip_countries arrivals) g0\<rparr>"
proof -
  obtain g0 ip cc where g0: "(ip, cc) \<in> set (ip_countries arrivals)" "probe cr parse fetch ip = Some g0"
    "g = g0\<lparr>ir_country := listed_country (ip_countries arrivals) g0\<rparr>"
    using assms by (auto simp: discover_eq List.map_filter_def split: prod.splits)
  then have "gw_ip g = ip" using probe_Some(1) by simp
  with g0 show ?thesis by force
qed

lemma distinct_map_filter_inv:
  assumes "distinct (map f xs)" and "\<And>x y. x \<in> set xs \<Longrightarrow> g x = Some y \<Longrightarrow> h y = f x"
  shows "distinct (map h (List.map_filter g xs))"
proof -
  have *: "map h (List.map_filter g xs) = map f (filter (\<lambda>x. g x \<noteq> None) xs)"
    using assms(2) by (induction xs) (auto simp: List.map_filter_simps split: option.split)
  show ?thesis unfolding * using assms(1) by (simp add: distinct_map_filter)
qed

lemma distinct_map_sort: "distinct (map f (sort_key k xs)) \<longleftrightarrow> distinct (map f xs)"
  by (simp add: distinct_map distinct_sort)

lemma discovered_once: "distinct (map gw_ip (discoverGateways cr parse fetch arrivals))"
proof -
  let ?probed = "List.map_filter (\<lambda>(ip, _). probe cr parse fetch ip) (ip_countries arrivals)"
  have "distinct (map gw_ip ?probed)"
    using ip_countries_unique [of arrivals] probe_Some(1)
    by (intro distinct_map_filter_inv [where f = fst]) (auto simp: unique_key_def)
  then have "distinct (map gw_ip (map (\<lambda>g. g\<lparr>ir_country := listed_country (ip_countries arrivals) g\<rparr>) ?probed))"
    by (simp add: comp_def)
  then show ?thesis
    unfolding discover_eq distinct_map_sort .
qed

section \<open>The canonical form ignores the order of fields\<close>

lemma sort_key_unique:
  fixes f :: "'a \<Rightarrow> 'b :: linorder"
  assumes "distinct (map f xs)" and "distinct (map f ys)" and "set xs = set ys"
  shows "sort_key f xs = sort_key f ys"
proof (rule map_sorted_distinct_set_unique [of f])
  show "inj_on f (set (sort_key f xs) \<union> set (sort_key f ys))" using assms by (simp add: distinct_map)
  show "sorted (map f (sort_key f xs))" "sorted (map f (sort_key f ys))" by simp_all
  show "distinct (map f (sort_key f xs))" "distinct (map f (sort_key f ys))" using assms by (simp_all add: distinct_map distinct_sort)
  show "set (sort_key f xs) = set (sort_key f ys)" using assms by simp
qed

lemma canonicalJson_order:
  assumes "distinct (map fst kvs)" and "distinct (map fst kvs')" and "set kvs = set kvs'"
  shows "canonicalJson leaf (J_obj kvs) = canonicalJson leaf (J_obj kvs')"
proof -
  let ?m = "map (\<lambda>kv. (fst kv, canonicalJson leaf (snd kv)))"
  have "sort_key fst (?m kvs) = sort_key fst (?m kvs')"
    using assms by (intro sort_key_unique) (simp_all add: comp_def)
  then show ?thesis by simp
qed

text \<open>Only the signed fields matter: the signature, the key that made it and comments do not.\<close>

lemma directory_order:
  assumes "distinct (map fst d)" and "distinct (map fst d')"
    and "set (filter unsigned_field d) = set (filter unsigned_field d')" and "map_of d ''sig'' = map_of d' ''sig''"
  shows "directoryVerify cr leaf d k = directoryVerify cr leaf d' k"
proof -
  have "distinct (map fst (filter unsigned_field d))" "distinct (map fst (filter unsigned_field d'))"
    using assms(1,2) by (simp_all add: distinct_map_filter)
  from canonicalJson_order [OF this assms(3)] show ?thesis
    unfolding directoryVerify_def assms(4) by (simp only: Let_def)
qed

section \<open>The rating\<close>

lemma latency_score_bounds: "0 \<le> latency_score x" "latency_score x \<le> 1"
  by (auto simp: latency_score_def field_simps split: option.split)

lemma latency_score_antimono: "a \<le> b \<Longrightarrow> latency_score (Some b) \<le> latency_score (Some a)"
  by (auto simp: latency_score_def field_simps)

definition clamp_load :: "rat \<Rightarrow> rat" where
  "clamp_load load = min 1 (max 0 load)"

lemma quality_fields:
  "gq_score (gatewayQuality x load) = math_round ((3 / 5 * (1 - clamp_load load) + 2 / 5 * latency_score x) * 100)"
  "gq_loadPct (gatewayQuality x load) = math_round (clamp_load load * 100)"
  "gq_tone (gatewayQuality x load) = Busy \<longleftrightarrow> 17 / 20 \<le> load"
  by (auto simp: gatewayQuality_def clamp_load_def Let_def field_simps min_def max_def)

lemma quality_bounds:
  "0 \<le> gq_score (gatewayQuality x load) \<and> gq_score (gatewayQuality x load) \<le> 100"
  "0 \<le> gq_loadPct (gatewayQuality x load) \<and> gq_loadPct (gatewayQuality x load) \<le> 100"
proof -
  have l: "0 \<le> clamp_load load" "clamp_load load \<le> 1" by (simp_all add: clamp_load_def)
  show "0 \<le> gq_score (gatewayQuality x load) \<and> gq_score (gatewayQuality x load) \<le> 100"
    unfolding quality_fields using l latency_score_bounds [of x]
    by (intro math_round_bounds [of 0 _ 100, simplified]) (auto simp: field_simps)
  show "0 \<le> gq_loadPct (gatewayQuality x load) \<and> gq_loadPct (gatewayQuality x load) \<le> 100"
    unfolding quality_fields using l by (intro math_round_bounds [of 0 _ 100, simplified]) (auto simp: field_simps)
qed

text \<open>A node that is less loaded and nearer is not rated worse.\<close>

lemma quality_mono:
  assumes "load \<le> load'" and "ms \<le> ms'"
  shows "gq_score (gatewayQuality (Some ms') load') \<le> gq_score (gatewayQuality (Some ms) load)"
proof -
  have "clamp_load load \<le> clamp_load load'" using assms(1) by (auto simp: clamp_load_def)
  with latency_score_antimono [OF assms(2)] show ?thesis
    unfolding quality_fields by (intro math_round_mono) (auto simp: field_simps)
qed

end
