(* ===== verification/Dates.thy ===== *)
theory Dates
  imports JsValue
begin

text \<open>
  Reading an ISO-8601 date back, as \<open>Date.parse\<close> does, and the proof that it undoes
  \<^const>\<open>toISOString\<close>: the bridge ends a refusal with a date and the client parses it.
\<close>

section \<open>The day of a date\<close>

definition day_of_civil :: "int \<Rightarrow> int \<Rightarrow> int \<Rightarrow> int" where
  "day_of_civil y m d =
     (let y' = (if m \<le> 2 then y - 1 else y);
          era = y' div 400;
          yoe = y' mod 400;
          mp = (if 2 < m then m - 3 else m + 9);
          doy = (153 * mp + 2) div 5 + d - 1;
          doe = yoe * 365 + yoe div 4 - yoe div 100 + doy
      in era * 146097 + doe - 719468)"

lemma div_bounds: "0 < (k :: int) \<Longrightarrow> k * (a div k) \<le> a \<and> a < k * (a div k) + k"
proof -
  assume "0 < k"
  then have "0 \<le> a mod k" "a mod k < k" by simp_all
  moreover have "a = k * (a div k) + a mod k" by simp
  ultimately show ?thesis by linarith
qed

text \<open>The year of the era and the day of its year.\<close>

lemma year_of_era:
  fixes doe :: int
  assumes "0 \<le> doe" and "doe < 146097"
  defines "yoe \<equiv> (doe - doe div 1460 + doe div 36524 - doe div 146096) div 365"
  shows "0 \<le> yoe" and "yoe < 400"
    and "0 \<le> doe - (365 * yoe + yoe div 4 - yoe div 100)" and "doe - (365 * yoe + yoe div 4 - yoe div 100) \<le> 365"
proof -
  define a b c where abc: "a = doe div 1460" "b = doe div 36524" "c = doe div 146096"
  define q p where qp: "q = yoe div 4" "p = yoe div 100"
  have ba: "1460 * a \<le> doe" "doe < 1460 * a + 1460" using div_bounds [of 1460 doe] by (auto simp: abc)
  have bb: "36524 * b \<le> doe" "doe < 36524 * b + 36524" using div_bounds [of 36524 doe] by (auto simp: abc)
  have bc: "146096 * c \<le> doe" "doe < 146096 * c + 146096" using div_bounds [of 146096 doe] by (auto simp: abc)
  have bn: "365 * yoe \<le> doe - a + b - c" "doe - a + b - c < 365 * yoe + 365"
    using div_bounds [of 365 "doe - a + b - c"] by (auto simp: yoe_def abc)
  have bq: "4 * q \<le> yoe" "yoe < 4 * q + 4" "100 * p \<le> yoe" "yoe < 100 * p + 100"
    using div_bounds [of 4 yoe] div_bounds [of 100 yoe] by (auto simp: qp)
  have "0 \<le> a" "0 \<le> c" "c \<le> 1" "0 \<le> b" "b \<le> 4" using assms(1,2) ba bb bc by linarith+
  have "100 \<le> a \<or> doe < 146000" using ba by linarith
  moreover have "doe - a + b - c < 146000"
  proof (cases "doe < 146000")
    case True
    have "b \<le> a" using ba bb \<open>0 \<le> b\<close> by linarith
    with True show ?thesis using \<open>0 \<le> c\<close> by linarith
  next
    case False
    then show ?thesis using calculation ba bb bc assms(2) \<open>0 \<le> c\<close> \<open>b \<le> 4\<close> by linarith
  qed
  ultimately show "yoe < 400" using bn by linarith
  show "0 \<le> yoe" using bn ba bb bc assms(1,2) \<open>b \<le> 4\<close> \<open>c \<le> 1\<close> by linarith
  have pb: "p = b - c"
  proof (cases "b = 4")
    case True
    then have "doe = 146096" "c = 1" using bb bc assms(2) \<open>c \<le> 1\<close> by linarith+
    then have "a = 100" using ba by linarith
    with True \<open>doe = 146096\<close> \<open>c = 1\<close> have "yoe = 399" using bn by linarith
    with True \<open>c = 1\<close> show ?thesis using bq by linarith
  next
    case False
    then have "b \<le> 3" using \<open>b \<le> 4\<close> by linarith
    then have "c = 0" using bb bc \<open>0 \<le> c\<close> by linarith
    have "36500 * b \<le> doe - a + b - c" "doe - a + b - c < 36500 * b + 36500"
      using ba bb \<open>b \<le> 3\<close> \<open>0 \<le> b\<close> \<open>c = 0\<close> by linarith+
    then have "100 * b \<le> yoe" "yoe < 100 * b + 100" using bn by linarith+
    then show ?thesis using bq \<open>c = 0\<close> by linarith
  qed
  have "a \<le> q + 1" using ba bn bq \<open>yoe < 400\<close> \<open>c \<le> 1\<close> \<open>0 \<le> b\<close> by linarith
  moreover have "q \<le> a"
  proof (rule ccontr)
    assume "\<not> ?thesis"
    then have "q \<le> p" using ba bn bq pb by linarith
    moreover have "25 * p \<le> q" "0 \<le> p" using bq \<open>0 \<le> yoe\<close> by linarith+
    ultimately show False using \<open>\<not> q \<le> a\<close> \<open>0 \<le> a\<close> by linarith
  qed
  ultimately show "0 \<le> doe - (365 * yoe + yoe div 4 - yoe div 100)" "doe - (365 * yoe + yoe div 4 - yoe div 100) \<le> 365"
    unfolding qp [symmetric] using bn pb by linarith+
qed

lemma civil_roundtrip:
  assumes "civil_of_day z = (y, m, d)"
  shows "day_of_civil y m d = z" and "1 \<le> m" and "m \<le> 12" and "1 \<le> d" and "d \<le> 31"
proof -
  define era doe where e: "era = (z + 719468) div 146097" "doe = (z + 719468) mod 146097"
  define yoe where yoe: "yoe = (doe - doe div 1460 + doe div 36524 - doe div 146096) div 365"
  define doy where doy: "doy = doe - (365 * yoe + yoe div 4 - yoe div 100)"
  define mp where mp: "mp = (5 * doy + 2) div 153"
  have doe: "0 \<le> doe" "doe < 146097" by (simp_all add: e)
  note yr = year_of_era [OF doe, folded yoe, folded doy]
  have bm: "153 * mp \<le> 5 * doy + 2" "5 * doy + 2 < 153 * mp + 153"
    using div_bounds [of 153 "5 * doy + 2"] by (auto simp: mp)
  then have mp12: "0 \<le> mp" "mp \<le> 11" using yr(3,4) by linarith+
  define w where w: "w = (153 * mp + 2) div 5"
  have bw: "5 * w \<le> 153 * mp + 2" "153 * mp + 2 < 5 * w + 5"
    using div_bounds [of 5 "153 * mp + 2"] by (auto simp: w)
  have m: "m = (if mp < 10 then mp + 3 else mp - 9)" and d: "d = doy - w + 1"
    and y: "y = yoe + era * 400 + (if m \<le> 2 then 1 else 0)"
  proof -
    have "civil_of_day z = (let m = (if mp < 10 then mp + 3 else mp - 9)
        in (yoe + era * 400 + (if m \<le> 2 then 1 else 0), m, doy - w + 1))"
      unfolding civil_of_day_def Let_def w mp doy yoe e by (rule refl)
    with assms show "m = (if mp < 10 then mp + 3 else mp - 9)" "d = doy - w + 1"
      "y = yoe + era * 400 + (if m \<le> 2 then 1 else 0)" unfolding Let_def by force+
  qed
  show "1 \<le> m" "m \<le> 12" "1 \<le> d" "d \<le> 31" using mp12 bm bw by (auto simp: m d)
  have mp': "(if 2 < m then m - 3 else m + 9) = mp" using mp12 by (auto simp: m)
  have y': "(if m \<le> 2 then y - 1 else y) = yoe + era * 400" by (simp add: y)
  have "(yoe + era * 400) div 400 = era" "(yoe + era * 400) mod 400 = yoe" using yr(1,2) by simp_all
  then have "day_of_civil y m d = era * 146097 + (yoe * 365 + yoe div 4 - yoe div 100 + (w + d - 1)) - 719468"
    unfolding day_of_civil_def Let_def mp' y' w [symmetric] by simp
  also have "\<dots> = era * 146097 + doe - 719468" by (simp add: d doy)
  also have "\<dots> = z" using mult_div_mod_eq [of 146097 "z + 719468"] by (simp add: e)
  finally show "day_of_civil y m d = z" .
qed

section \<open>Reading a date\<close>

text \<open>The shape \<open>\d{4}-\d{2}-\d{2}T\d{2}:\d{2}:\d{2}(\.\d+)?Z\<close>.\<close>

definition digits_at :: "nat \<Rightarrow> nat \<Rightarrow> string \<Rightarrow> bool" where
  "digits_at i n s \<longleftrightarrow> list_all is_digit (take n (drop i s))"

definition iso_fraction :: "string \<Rightarrow> string option" where
  "iso_fraction r =
     (if r = ''Z'' then Some []
      else if 3 \<le> length r \<and> hd r = CHR ''.'' \<and> last r = CHR ''Z'' \<and> list_all is_digit (butlast (tl r))
      then Some (butlast (tl r)) else None)"

definition iso_shape :: "string \<Rightarrow> bool" where
  "iso_shape s \<longleftrightarrow> 20 \<le> length s
     \<and> digits_at 0 4 s \<and> s ! 4 = CHR ''-'' \<and> digits_at 5 2 s \<and> s ! 7 = CHR ''-'' \<and> digits_at 8 2 s
     \<and> s ! 10 = CHR ''T'' \<and> digits_at 11 2 s \<and> s ! 13 = CHR '':'' \<and> digits_at 14 2 s \<and> s ! 16 = CHR '':''
     \<and> digits_at 17 2 s \<and> iso_fraction (drop 19 s) \<noteq> None"

definition field :: "nat \<Rightarrow> nat \<Rightarrow> string \<Rightarrow> int" where
  "field i n s = int (read_nat (take n (drop i s)))"

text \<open>\<open>Date.parse\<close> of such a text: the first three digits of the fraction are the milliseconds.\<close>

definition parseDate :: "string \<Rightarrow> millis option" where
  "parseDate s =
     (let m = field 5 2 s; d = field 8 2 s; h = field 11 2 s; mi = field 14 2 s; sec = field 17 2 s;
          ms = int (read_nat (take 3 (the (iso_fraction (drop 19 s)) @ ''000'')))
      in if 1 \<le> m \<and> m \<le> 12 \<and> 1 \<le> d \<and> d \<le> 31 \<and> mi \<le> 59 \<and> sec \<le> 59
            \<and> (h \<le> 23 \<or> h = 24 \<and> mi = 0 \<and> sec = 0 \<and> ms = 0)
         then Some (day_of_civil (field 0 4 s) m d * 86400000 + h * 3600000 + mi * 60000 + sec * 1000 + ms)
         else None)"

text \<open>The first match of the shape that reaches the end of the text.\<close>

fun iso_suffix :: "string \<Rightarrow> string option" where
  "iso_suffix [] = None"
| "iso_suffix (c # s) = (if iso_shape (c # s) then Some (c # s) else iso_suffix s)"

section \<open>The date of a message\<close>

lemma read_replicate_zero: "read_nat (replicate k CHR ''0'' @ s) = read_nat s"
  by (induction k) (simp_all add: read_base_def digit_value_def is_digit_def)

lemma pad0_digits:
  assumes "0 \<le> i" and "nat i < 10 ^ n" and "0 < n"
  shows "length (pad0 n i) = n" and "list_all is_digit (pad0 n i)" and "read_nat (pad0 n i) = nat i"
proof -
  have "length (show_nat (nat i)) \<le> n" using assms(2,3) by (intro show_base_length) simp_all
  then show "length (pad0 n i) = n" by (simp add: pad0_def Let_def)
  have "is_digit CHR ''0''" by (simp add: is_digit_def)
  then show "list_all is_digit (pad0 n i)"
    by (auto simp: pad0_def Let_def list_all_iff show_nat_is_digit in_set_replicate)
  show "read_nat (pad0 n i) = nat i" by (simp add: pad0_def Let_def read_replicate_zero read_show_base)
qed

lemma two_digits:
  assumes "0 \<le> i" and "i < 100"
  obtains a b where "pad0 2 i = [a, b]" "is_digit a" "is_digit b" "int (read_nat [a, b]) = i"
proof -
  have n: "nat i < 10 ^ 2" using assms by simp
  note p = pad0_digits [OF assms(1) n]
  obtain a b where "pad0 2 i = [a, b]" using p(1) by (auto simp: length_Suc_conv numeral_2_eq_2)
  with p assms(1) show ?thesis by (intro that [of a b]) auto
qed

lemma three_digits:
  assumes "0 \<le> i" and "i < 1000"
  obtains a b c where "pad0 3 i = [a, b, c]" "list_all is_digit [a, b, c]" "int (read_nat [a, b, c]) = i"
proof -
  have n: "nat i < 10 ^ 3" using assms by simp
  note p = pad0_digits [OF assms(1) n]
  obtain a b c where "pad0 3 i = [a, b, c]" using p(1) by (auto simp: length_Suc_conv numeral_3_eq_3)
  with p assms(1) show ?thesis by (intro that [of a b c]) auto
qed

lemma four_digits:
  assumes "0 \<le> i" and "i < 10000"
  obtains a b c d where "pad0 4 i = [a, b, c, d]" "list_all is_digit [a, b, c, d]" "int (read_nat [a, b, c, d]) = i"
proof -
  have n: "nat i < 10 ^ 4" using assms by simp
  note p = pad0_digits [OF assms(1) n]
  have "length (pad0 4 i) = Suc (Suc (Suc (Suc 0)))" using p(1) by simp
  then obtain a b c d where "pad0 4 i = [a, b, c, d]" by (auto simp: length_Suc_conv)
  with p assms(1) show ?thesis by (intro that [of a b c d]) auto
qed

text \<open>Behind its \<open>T\<close> a date has no other.\<close>

lemma is_digit_not_mark [simp]: "is_digit CHR ''T'' = False" "is_digit CHR ''-'' = False"
  by (simp_all add: is_digit_def)

lemma digits_at_nth: "digits_at i n s \<Longrightarrow> i \<le> j \<Longrightarrow> j < i + n \<Longrightarrow> j < length s \<Longrightarrow> is_digit (s ! j)"
proof -
  assume h: "digits_at i n s" "i \<le> j" "j < i + n" "j < length s"
  then have "s ! j = take n (drop i s) ! (j - i)" "j - i < length (take n (drop i s))" by auto
  then have "s ! j \<in> set (take n (drop i s))" by (metis nth_mem)
  then show ?thesis using h(1) by (auto simp: digits_at_def list_all_iff)
qed

lemma iso_fraction_chars: "iso_fraction r = Some f \<Longrightarrow> CHR ''T'' \<notin> set r"
proof (cases "r = ''Z''")
  case False
  assume "iso_fraction r = Some f"
  with False have h: "3 \<le> length r" "hd r = CHR ''.''" "last r = CHR ''Z''" "list_all is_digit (butlast (tl r))"
    by (auto simp: iso_fraction_def split: if_splits)
  obtain c r' where r: "r = c # r'" "r' \<noteq> []" using h(1) by (cases r; cases "tl r") auto
  then have c: "c = CHR ''.''" and z: "last r' = CHR ''Z''" using h(2,3) by auto
  have e: "r' = butlast r' @ [CHR ''Z'']" using append_butlast_last_id [OF r(2)] unfolding z by (rule sym)
  have "CHR ''T'' \<notin> set (butlast r')" using h(4) r(1) by (auto simp: list_all_iff)
  moreover have "set r' = set (butlast r') \<union> {CHR ''Z''}" by (subst e) simp
  ultimately show ?thesis using r(1) c by simp
qed simp

lemma shape_one_T:
  assumes "iso_shape s" and "11 \<le> i" and "i < length s"
  shows "s ! i \<noteq> CHR ''T''"
proof (cases "i < 19")
  case True
  with assms(2) consider "i = 11 \<or> i = 12" | "i = 13" | "i = 14 \<or> i = 15" | "i = 16" | "i = 17 \<or> i = 18" by linarith
  then show ?thesis
  proof cases
    case 1
    then have "is_digit (s ! i)" using assms(1,3) by (intro digits_at_nth [of 11 2 s]) (auto simp: iso_shape_def)
    then show ?thesis by auto
  next
    case 3
    then have "is_digit (s ! i)" using assms(1,3) by (intro digits_at_nth [of 14 2 s]) (auto simp: iso_shape_def)
    then show ?thesis by auto
  next
    case 5
    then have "is_digit (s ! i)" using assms(1,3) by (intro digits_at_nth [of 17 2 s]) (auto simp: iso_shape_def)
    then show ?thesis by auto
  qed (use assms(1) in \<open>auto simp: iso_shape_def\<close>)
next
  case False
  then have "s ! i = drop 19 s ! (i - 19)" "i - 19 < length (drop 19 s)" using assms(3) by auto
  then have "s ! i \<in> set (drop 19 s)" by (metis nth_mem)
  moreover obtain f where "iso_fraction (drop 19 s) = Some f" using assms(1) by (auto simp: iso_shape_def)
  ultimately show ?thesis using iso_fraction_chars by metis
qed

text \<open>The date the bridge prints has the shape, and is read as the time it was printed from.\<close>

definition four_digit_year :: "millis \<Rightarrow> bool" where
  "four_digit_year ms \<longleftrightarrow> (case civil_of_day (ms div 86400000) of (y, _) \<Rightarrow> 0 \<le> y \<and> y \<le> 9999)"

lemma iso_parts:
  assumes "four_digit_year ms"
  shows "iso_shape (toISOString ms) \<and> parseDate (toISOString ms) = Some ms
    \<and> 20 \<le> length (toISOString ms) \<and> toISOString ms ! 10 = CHR ''T''"
proof -
  obtain y m d where c: "civil_of_day (ms div 86400000) = (y, m, d)" by (metis prod_cases3)
  then have y: "0 \<le> y" "y \<le> 9999" using assms by (auto simp: four_digit_year_def)
  note civ = civil_roundtrip [OF c]
  define t where "t = ms mod 86400000"
  have t: "0 \<le> t" "t < 86400000" by (simp_all add: t_def)
  define h mi sec f where parts: "h = t div 3600000" "mi = t div 60000 mod 60" "sec = t div 1000 mod 60" "f = t mod 1000"
  have h: "0 \<le> h" "h < 24" using t by (simp_all add: parts div_less_iff_less_mult pos_imp_zdiv_nonneg_iff)
  have r: "0 \<le> mi" "mi < 60" "0 \<le> sec" "sec < 60" "0 \<le> f" "f < 1000" by (simp_all add: parts)
  have sum: "h * 3600000 + mi * 60000 + sec * 1000 + f = t"
  proof -
    have "t div 3600000 = t div 60000 div 60" "t div 60000 = t div 1000 div 60"
      using zdiv_zmult2_eq [of 60 t 60000] zdiv_zmult2_eq [of 60 t 1000] by simp_all
    then have "t div 60000 = 60 * h + mi" "t div 1000 = 60 * (t div 60000) + sec" "t = 1000 * (t div 1000) + f"
      using mult_div_mod_eq [of 60 "t div 60000"] mult_div_mod_eq [of 60 "t div 1000"] mult_div_mod_eq [of 1000 t]
      unfolding parts by metis+
    then show ?thesis by linarith
  qed
  have y': "y < 10000" using y(2) by simp
  obtain y1 y2 y3 y4 where Y: "pad0 4 y = [y1, y2, y3, y4]" "list_all is_digit [y1, y2, y3, y4]"
    "int (read_nat [y1, y2, y3, y4]) = y" using four_digits [OF y(1) y'] by metis
  obtain m1 m2 where M: "pad0 2 m = [m1, m2]" "is_digit m1" "is_digit m2" "int (read_nat [m1, m2]) = m"
    using two_digits [of m] civ(2,3) by auto
  obtain d1 d2 where D: "pad0 2 d = [d1, d2]" "is_digit d1" "is_digit d2" "int (read_nat [d1, d2]) = d"
    using two_digits [of d] civ(4,5) by auto
  obtain h1 h2 where H: "pad0 2 h = [h1, h2]" "is_digit h1" "is_digit h2" "int (read_nat [h1, h2]) = h"
    using two_digits [of h] h by auto
  obtain i1 i2 where I: "pad0 2 mi = [i1, i2]" "is_digit i1" "is_digit i2" "int (read_nat [i1, i2]) = mi"
    using two_digits [of mi] r by auto
  obtain s1 s2 where S: "pad0 2 sec = [s1, s2]" "is_digit s1" "is_digit s2" "int (read_nat [s1, s2]) = sec"
    using two_digits [of sec] r by auto
  obtain f1 f2 f3 where F: "pad0 3 f = [f1, f2, f3]" "list_all is_digit [f1, f2, f3]" "int (read_nat [f1, f2, f3]) = f"
    using three_digits [OF r(5,6)] by metis
  have iso: "toISOString ms = [y1, y2, y3, y4, CHR ''-'', m1, m2, CHR ''-'', d1, d2, CHR ''T'', h1, h2, CHR '':'',
      i1, i2, CHR '':'', s1, s2, CHR ''.'', f1, f2, f3, CHR ''Z'']"
    unfolding toISOString_def c t_def [symmetric] Let_def prod.case parts [symmetric] M D H I S F(1)
    using y by (simp add: iso_year_def Y(1))
  have fr: "iso_fraction [CHR ''.'', f1, f2, f3, CHR ''Z''] = Some [f1, f2, f3]"
    using F(2) by (simp add: iso_fraction_def)
  have "iso_shape (toISOString ms)"
    using Y(2) M D H I S fr unfolding iso by (simp add: iso_shape_def digits_at_def)
  moreover have "parseDate (toISOString ms) = Some ms"
  proof -
    have "day_of_civil y m d * 86400000 + h * 3600000 + mi * 60000 + sec * 1000 + f = ms"
    proof -
      have "ms = 86400000 * (ms div 86400000) + t" unfolding t_def by simp
      then show ?thesis using civ(1) sum by linarith
    qed
    then show ?thesis
      using civ h r fr unfolding iso
      by (simp add: parseDate_def field_def Y(3) M(4) D(4) H(4) I(4) S(4) F(3) Let_def)
  qed
  ultimately show ?thesis unfolding iso by simp
qed

lemma iso_suffix_behind:
  assumes "iso_shape s" and "s ! 10 = CHR ''T''"
  shows "iso_suffix (p @ s) = Some s"
proof (induction p)
  case Nil
  then show ?case using assms(1) by (cases s) (auto simp: iso_shape_def)
next
  case (Cons c p)
  have "11 \<le> length (c # p) + 10" "length (c # p) + 10 < length ((c # p) @ s)" using assms(1) by (simp_all add: iso_shape_def)
  moreover have "((c # p) @ s) ! (length (c # p) + 10) = CHR ''T''" using assms(2) by (simp add: nth_append)
  ultimately have "\<not> iso_shape ((c # p) @ s)" using shape_one_T by blast
  then show ?case using Cons.IH by simp
qed

lemma dated_message:
  assumes "four_digit_year ms"
  shows "iso_suffix (p @ toISOString ms) = Some (toISOString ms)" and "parseDate (toISOString ms) = Some ms"
  using iso_parts [OF assms] iso_suffix_behind by blast+

end
