(* ===== verification/BridgeClient.thy ===== *)
theory BridgeClient
  imports Gateways Dates
begin

text \<open>
  The client of the payments bridge (clients/core-ts/src/bridge.ts). \<open>fetch\<close> is given the
  address and the JSON body of a POST, and yields the status of the answer, its body, \<open>None\<close>
  where it is not JSON or the request rejects, and whether the deadline has aborted it. The
  body of an error is taken to be of the type the source declares.
\<close>

section \<open>Requests\<close>

definition DEFAULT_BRIDGE_URL :: string where
  "DEFAULT_BRIDGE_URL = ''https://pay.cumulusvpn.com''"

datatype bridge_error =
    Bridge_api string string string
  | Bridge_unexpected string int
  | Bridge_timed_out string
  | Bridge_failed

type_synonym bridge_fetch = "string \<Rightarrow> json option \<Rightarrow> (int \<times> json) option \<times> bool"

definition text_field :: "string \<Rightarrow> json option \<Rightarrow> string" where
  "text_field k j = (case Option.bind j (jget k) of Some (J_str s) \<Rightarrow> s | _ \<Rightarrow> [])"

definition read_envelope :: "string \<Rightarrow> (int \<times> json) option \<Rightarrow> bridge_error + json" where
  "read_envelope path answer =
     (case answer of
        None \<Rightarrow> Inl Bridge_failed
      | Some (status, parsed) \<Rightarrow>
          if parsed = J_null then Inl Bridge_failed
          else if jget ''status'' parsed = Some (J_str ''error'') then
            (case jget ''data'' parsed of
               None \<Rightarrow> Inl Bridge_failed
             | Some J_null \<Rightarrow> Inl Bridge_failed
             | Some d \<Rightarrow> Inl (Bridge_api (text_field ''code'' (Some d)) (text_field ''name'' (Some d)) (text_field ''message'' (Some d))))
          else (case (jget ''status'' parsed = Some (J_str ''success''), jget ''data'' parsed) of
                  (True, Some d) \<Rightarrow> Inr d
                | _ \<Rightarrow> Inl (Bridge_unexpected path status)))"

definition bridgeFetch :: "bridge_fetch \<Rightarrow> string option \<Rightarrow> string \<Rightarrow> json option \<Rightarrow> bridge_error + json" where
  "bridgeFetch fetch baseUrl path body =
     (let (answer, aborted) = fetch (the_default DEFAULT_BRIDGE_URL baseUrl @ path) body
      in case read_envelope path answer of
           Inr d \<Rightarrow> Inr d
         | Inl e \<Rightarrow> if aborted then Inl (Bridge_timed_out path) else Inl e)"

section \<open>The calls\<close>

definition plan_text :: "bool \<Rightarrow> string" where
  "plan_text annual = (if annual then ''annual'' else ''monthly'')"

definition createStripeCheckout where
  "createStripeCheckout fetch baseUrl code annual voucher =
     bridgeFetch fetch baseUrl ''/v1/stripe/checkout''
       (Some (jobj [(''payment_code'', Some (J_str code)), (''plan'', Some (J_str (plan_text annual))),
                    (''voucher'', map_option J_str voucher)]))"

definition openBillingPortal where
  "openBillingPortal fetch baseUrl code sessionId =
     bridgeFetch fetch baseUrl ''/v1/stripe/portal''
       (Some (jobj [(''payment_code'', Some (J_str code)), (''session_id'', Some (J_str sessionId))]))"

definition redeemVoucher where
  "redeemVoucher fetch baseUrl code voucher =
     bridgeFetch fetch baseUrl ''/v1/voucher/redeem''
       (Some (jobj [(''payment_code'', Some (J_str code)), (''code'', Some (J_str voucher))]))"

definition verifyApplePurchase where
  "verifyApplePurchase fetch baseUrl code signedTransaction =
     bridgeFetch fetch baseUrl ''/v1/apple/verify''
       (Some (jobj [(''payment_code'', Some (J_str code)), (''signed_transaction'', Some (J_str signedTransaction))]))"

definition verifyGooglePurchase where
  "verifyGooglePurchase fetch baseUrl code purchaseToken =
     bridgeFetch fetch baseUrl ''/v1/google/verify''
       (Some (jobj [(''payment_code'', Some (J_str code)), (''purchase_token'', Some (J_str purchaseToken))]))"

text \<open>\<open>transfer\<close> is sent only when it is \<open>true\<close>.\<close>

definition transfer_field :: "bool option \<Rightarrow> json option" where
  "transfer_field transfer = (if transfer = Some True then Some (J_bool True) else None)"

definition claimGooglePurchase where
  "claimGooglePurchase fetch baseUrl code purchaseToken transfer =
     bridgeFetch fetch baseUrl ''/v1/google/claim''
       (Some (jobj [(''payment_code'', Some (J_str code)), (''purchase_token'', Some (J_str purchaseToken)),
                    (''transfer'', transfer_field transfer)]))"

definition claimApplePurchase where
  "claimApplePurchase fetch baseUrl code signedTransaction transfer =
     bridgeFetch fetch baseUrl ''/v1/apple/claim''
       (Some (jobj [(''payment_code'', Some (J_str code)), (''signed_transaction'', Some (J_str signedTransaction)),
                    (''transfer'', transfer_field transfer)]))"

definition transferStripeSubscription where
  "transferStripeSubscription fetch baseUrl sessionId code =
     bridgeFetch fetch baseUrl ''/v1/stripe/transfer''
       (Some (jobj [(''session_id'', Some (J_str sessionId)), (''payment_code'', Some (J_str code))]))"

definition paymentStatus where
  "paymentStatus fetch baseUrl code =
     bridgeFetch fetch baseUrl (''/v1/payment/'' @ encodeURIComponent code @ ''/status'') None"

definition client_transferAvailableAt :: "bridge_error \<Rightarrow> millis option" where
  "client_transferAvailableAt err =
     (case err of
        Bridge_api code slug message \<Rightarrow>
          if slug \<noteq> ''transfer_too_soon'' then None else Option.bind (iso_suffix message) parseDate
      | _ \<Rightarrow> None)"

section \<open>Reading what the bridge writes\<close>

lemma read_error:
  "read_envelope path (Some (status,
      J_obj [(''status'', J_str ''error''),
        (''data'', J_obj [(''code'', J_str c), (''name'', J_str n), (''message'', J_str m)])]))
    = Inl (Bridge_api c n m)"
  by (simp add: read_envelope_def text_field_def)

lemma read_success:
  "read_envelope path (Some (status, J_obj [(''status'', J_str ''success''), (''data'', d)])) = Inr d"
  by (simp add: read_envelope_def)

lemma too_soon_date:
  "four_digit_year ms \<Longrightarrow> client_transferAvailableAt (Bridge_api c ''transfer_too_soon'' (p @ toISOString ms)) = Some ms"
  by (simp add: client_transferAvailableAt_def dated_message)

end
