(* ===== verification/Network.thy ===== *)
theory Network
  imports ServerSafety BridgeClient
begin

text \<open>
  The client and the bridge joined: the routes a device uses with the schemas their bodies must
  match (the \<open>app.post\<close> registrations of bridge/src/server.ts), and the answer as it crosses the
  network. What the stores answer, whether the rate limiter refuses a path and the text of a
  refusal are parameters. The requests are the ones the client sends, whose fields are strings
  and booleans.
\<close>

section \<open>Routes and their schemas\<close>

record parties =
  pt_limited :: "string \<Rightarrow> bool"
  pt_refusal :: "string \<Rightarrow> string"
  pt_checkout :: "checkout_request \<Rightarrow> exn + checkout_session"
  pt_stripe :: stripe_api
  pt_portal :: "string \<Rightarrow> exn + string"
  pt_apple :: "string \<Rightarrow> apple_txn option \<times> bool"
  pt_google :: "string \<Rightarrow> exn + google_sub"
  pt_param :: "string \<Rightarrow> string"

text \<open>\<open>{ type: 'string', minLength: lo, maxLength: hi }\<close>, required.\<close>

definition text_of :: "string \<Rightarrow> nat \<Rightarrow> nat \<Rightarrow> json \<Rightarrow> string option" where
  "text_of k lo hi body =
     (case jget k body of
        Some (J_str s) \<Rightarrow> if lo \<le> length s \<and> length s \<le> hi then Some s else None
      | _ \<Rightarrow> None)"

text \<open>The same for a property that may be absent: \<open>None\<close> where the body is refused.\<close>

definition optional_text_of :: "string \<Rightarrow> nat \<Rightarrow> nat \<Rightarrow> json \<Rightarrow> string option option" where
  "optional_text_of k lo hi body =
     (if jget k body = None then Some None else map_option Some (text_of k lo hi body))"

definition optional_bool_of :: "string \<Rightarrow> json \<Rightarrow> bool option option" where
  "optional_bool_of k body =
     (case jget k body of None \<Rightarrow> Some None | Some (J_bool b) \<Rightarrow> Some (Some b) | _ \<Rightarrow> None)"

definition plan_of :: "json \<Rightarrow> plan option" where
  "plan_of body =
     (if jget ''plan'' body = Some (J_str ''monthly'') then Some Monthly
      else if jget ''plan'' body = Some (J_str ''annual'') then Some Annual else None)"

definition code_of :: "json \<Rightarrow> string option" where
  "code_of body = text_of ''payment_code'' 20 40 body"

definition redeem_schema :: "json \<Rightarrow> request option" where
  "redeem_schema body =
     (case (code_of body, text_of ''code'' 4 40 body) of
        (Some payment_code, Some code) \<Rightarrow> Some (R_redeem payment_code code)
      | _ \<Rightarrow> None)"

definition checkout_schema :: "parties \<Rightarrow> json \<Rightarrow> request option" where
  "checkout_schema pt body =
     (case (code_of body, plan_of body, optional_text_of ''voucher'' 4 40 body) of
        (Some payment_code, Some plan, Some voucher) \<Rightarrow> Some (R_checkout (pt_checkout pt) payment_code plan voucher)
      | _ \<Rightarrow> None)"

definition portal_schema :: "parties \<Rightarrow> json \<Rightarrow> request option" where
  "portal_schema pt body =
     (case (code_of body, text_of ''session_id'' 10 200 body) of
        (Some payment_code, Some session_id) \<Rightarrow> Some (R_portal (pt_stripe pt) (pt_portal pt) payment_code session_id)
      | _ \<Rightarrow> None)"

definition transfer_schema :: "parties \<Rightarrow> json \<Rightarrow> request option" where
  "transfer_schema pt body =
     (case (code_of body, text_of ''session_id'' 10 200 body) of
        (Some payment_code, Some session_id) \<Rightarrow> Some (R_transfer (pt_stripe pt) payment_code session_id)
      | _ \<Rightarrow> None)"

definition apple_verify_schema :: "parties \<Rightarrow> json \<Rightarrow> request option" where
  "apple_verify_schema pt body =
     (case (code_of body, text_of ''signed_transaction'' 100 100000 body) of
        (Some payment_code, Some jws) \<Rightarrow> Some (R_apple_verify (pt_apple pt jws) payment_code)
      | _ \<Rightarrow> None)"

definition apple_claim_schema :: "parties \<Rightarrow> json \<Rightarrow> request option" where
  "apple_claim_schema pt body =
     (case (code_of body, text_of ''signed_transaction'' 100 100000 body, optional_bool_of ''transfer'' body) of
        (Some payment_code, Some jws, Some transfer) \<Rightarrow> Some (R_apple_claim (pt_apple pt jws) payment_code transfer)
      | _ \<Rightarrow> None)"

definition google_verify_schema :: "parties \<Rightarrow> json \<Rightarrow> request option" where
  "google_verify_schema pt body =
     (case (code_of body, text_of ''purchase_token'' 20 4000 body) of
        (Some payment_code, Some token) \<Rightarrow> Some (R_google_verify (pt_google pt token) payment_code token)
      | _ \<Rightarrow> None)"

definition google_claim_schema :: "parties \<Rightarrow> json \<Rightarrow> request option" where
  "google_claim_schema pt body =
     (case (code_of body, text_of ''purchase_token'' 20 4000 body, optional_bool_of ''transfer'' body) of
        (Some payment_code, Some token, Some transfer) \<Rightarrow> Some (R_google_claim (pt_google pt token) payment_code token transfer)
      | _ \<Rightarrow> None)"

text \<open>The routes that take a JSON body from a device; those of a rail exist when it is configured.\<close>

definition post_routes :: "parties \<Rightarrow> config \<Rightarrow> (string \<times> (json \<Rightarrow> request option)) list" where
  "post_routes pt cfg =
     (''/v1/voucher/redeem'', redeem_schema)
     # (if cf_stripe cfg \<noteq> None
        then [(''/v1/stripe/checkout'', checkout_schema pt), (''/v1/stripe/portal'', portal_schema pt),
              (''/v1/stripe/transfer'', transfer_schema pt)] else [])
     @ (if cf_apple cfg \<noteq> None
        then [(''/v1/apple/verify'', apple_verify_schema pt), (''/v1/apple/claim'', apple_claim_schema pt)] else [])
     @ (if cf_google cfg \<noteq> None
        then [(''/v1/google/verify'', google_verify_schema pt), (''/v1/google/claim'', google_claim_schema pt)] else [])"

text \<open>What the server does of a request: a limit, no route, a refused body, or the handler.\<close>

definition post :: "deps \<Rightarrow> parties \<Rightarrow> millis \<Rightarrow> string \<Rightarrow> json \<Rightarrow> server \<Rightarrow> reply \<times> server" where
  "post d pt ms path body sv =
     (case map_of (post_routes pt (d_cfg d)) path of
        None \<Rightarrow> (No_route, sv)
      | Some schema \<Rightarrow>
          if pt_limited pt path then (error_handler Rate_limited, sv)
          else (case schema body of
                  None \<Rightarrow> (error_handler (Invalid_request (pt_refusal pt path)), sv)
                | Some r \<Rightarrow> answer d ms r sv))"

definition STATUS_PREFIX :: string where "STATUS_PREFIX = ''/v1/payment/''"
definition STATUS_SUFFIX :: string where "STATUS_SUFFIX = ''/status''"

text \<open>\<open>GET /v1/payment/:code/status\<close>; \<open>pt_param\<close> is the router's decoding of a path segment.\<close>

definition get :: "deps \<Rightarrow> parties \<Rightarrow> millis \<Rightarrow> string \<Rightarrow> server \<Rightarrow> reply \<times> server" where
  "get d pt ms path sv =
     (let segment = take (length path - length STATUS_PREFIX - length STATUS_SUFFIX) (drop (length STATUS_PREFIX) path)
      in if path = STATUS_PREFIX @ segment @ STATUS_SUFFIX \<and> segment \<noteq> [] \<and> CHR ''/'' \<notin> set segment
         then (if pt_limited pt path then (error_handler Rate_limited, sv)
               else answer d ms (R_status (pt_param pt segment)) sv)
         else if path = ''/v1/health''
         then (if pt_limited pt path then (error_handler Rate_limited, sv) else answer d ms R_health sv)
         else (No_route, sv))"

section \<open>The wire\<close>

text \<open>The body of the framework's own 404 is JSON, and no envelope.\<close>

definition wire :: "reply \<Rightarrow> int \<times> json" where
  "wire r =
     (case r of
        Reply status body \<Rightarrow> (int status, body)
      | No_route \<Rightarrow> (404, J_obj [(''error'', J_str ''Not Found''), (''statusCode'', jint 404)]))"

definition network :: "deps \<Rightarrow> parties \<Rightarrow> millis \<Rightarrow> string option \<Rightarrow> server \<Rightarrow> bridge_fetch" where
  "network d pt ms baseUrl sv url body =
     (let path = drop (length (the_default DEFAULT_BRIDGE_URL baseUrl)) url
      in (Some (wire (fst (case body of
            Some b \<Rightarrow> post d pt ms path b sv | None \<Rightarrow> get d pt ms path sv))), False))"

section \<open>What the client makes of an answer\<close>

definition received :: "string \<Rightarrow> reply \<Rightarrow> bridge_error + json" where
  "received path r = read_envelope path (Some (wire r))"

lemma received_ok [simp]: "received path (Reply st (ok_body v)) = Inr v"
  by (simp add: received_def wire_def ok_body_def read_success)

lemma received_err [simp]: "received path (Reply st (err_body c n m)) = Inl (Bridge_api (show_nat c) n m)"
  by (simp add: received_def wire_def err_body_def read_error)

lemma received_no_route [simp]: "received path No_route = Inl (Bridge_unexpected path 404)"
  by (simp add: received_def wire_def read_envelope_def)

lemma network_post:
  "bridgeFetch (network d pt ms baseUrl sv) baseUrl path (Some body) = received path (fst (post d pt ms path body sv))"
  by (simp add: bridgeFetch_def network_def received_def Let_def split: sum.split)

lemma network_get:
  "bridgeFetch (network d pt ms baseUrl sv) baseUrl path None = received path (fst (get d pt ms path sv))"
  by (simp add: bridgeFetch_def network_def received_def Let_def split: sum.split)

section \<open>Redeeming over the network\<close>

definition granted :: "int \<Rightarrow> json" where
  "granted days = jobj [(''type'', jstr ''grant_days''), (''days'', jnum days), (''state'', jstr ''pending'')]"

lemma granted_inj [simp]: "granted a = granted b \<longleftrightarrow> a = b"
  by (simp add: granted_def jobj_def jint_def List.map_filter_simps)

text \<open>The state after the bridge has served a redemption the client sent.\<close>

definition redeem_body :: "string \<Rightarrow> string \<Rightarrow> json" where
  "redeem_body code voucher = jobj [(''payment_code'', Some (J_str code)), (''code'', Some (J_str voucher))]"

lemma redeem_body_get [simp]:
  "jget ''payment_code'' (redeem_body code voucher) = Some (J_str code)"
  "jget ''code'' (redeem_body code voucher) = Some (J_str voucher)"
  by (simp_all add: redeem_body_def jobj_def List.map_filter_simps)

lemma redeem_over_network:
  "redeemVoucher (network d pt ms baseUrl sv) baseUrl code voucher
    = received ''/v1/voucher/redeem'' (fst (post d pt ms ''/v1/voucher/redeem'' (redeem_body code voucher) sv))"
  unfolding redeemVoucher_def redeem_body_def [symmetric] by (rule network_post)

text \<open>A redemption reaches the handler, or changes nothing and is answered with an error.\<close>

lemma post_redeem_cases:
  "(snd (post d pt ms ''/v1/voucher/redeem'' (redeem_body code voucher) sv) = sv
      \<and> (\<exists>e. received path (fst (post d pt ms ''/v1/voucher/redeem'' (redeem_body code voucher) sv)) = Inl e))
   \<or> post d pt ms ''/v1/voucher/redeem'' (redeem_body code voucher) sv = answer d ms (R_redeem code voucher) sv"
  by (auto simp: post_def post_routes_def redeem_schema_def code_of_def text_of_def error_handler_def split: option.split)

lemma redeem_granted_changes:
  assumes inv: "voucher_inv (sv_db sv)" and run: "voucher_redeem d ms payment_code code sv = (send_ok
      [(''type'', jstr ''grant_days''), (''days'', jnum n), (''state'', jstr ''pending'')], sv')"
  shows "sv_db sv' \<noteq> sv_db sv"
proof -
  let ?pz = "cf_priceZats (d_cfg d)"
  obtain v rid s' where g: "redeemGrant ?pz (now_s ms) v payment_code (sv_db sv) = (Inr rid, s')"
    "sv_db sv' = s'"
    using run
    by (auto simp: voucher_redeem_def with_db_def send_err_def send_ok_def ok_body_def err_body_def bad_code_reply_def
        badRequest_def spent_reply_def redeem_error_reply_def jobj_def List.map_filter_simps
        split: if_splits option.splits prod.splits sum.splits exn.splits)
  have "redeemed (v_id v) s' = Suc (redeemed (v_id v) (sv_db sv))"
    using redeem_effect(2) [OF inv g(1), of "v_id v"] by simp
  then show ?thesis using g(2) by auto
qed

text \<open>What a device is told of a redemption is what the bridge has done.\<close>

lemma redeem_told:
  assumes inv: "voucher_inv (sv_db sv)"
    and told: "told = redeemVoucher (network d pt ms baseUrl sv) baseUrl code voucher"
    and after: "s' = sv_db (snd (post d pt ms ''/v1/voucher/redeem'' (redeem_body code voucher) sv))"
  shows "(s' = sv_db sv \<and> (\<forall>n. told \<noteq> Inr (granted n)))
   \<or> (\<exists>v\<in>set (db_vouchers (sv_db sv)). told = Inr (granted (v_value v))
        \<and> normalizeCode voucher = Some (v_code v) \<and> redeemable (now_s ms) v
        \<and> voucher_entries s' = voucher_entries (sv_db sv) @ [(voucher_event_key (v_id v) code, v_value v)])"
proof (cases "post d pt ms ''/v1/voucher/redeem'' (redeem_body code voucher) sv = answer d ms (R_redeem code voucher) sv")
  case False
  then have "s' = sv_db sv" "\<exists>e. told = Inl e"
    using post_redeem_cases [of d pt ms code voucher sv "''/v1/voucher/redeem''"]
    unfolding told after redeem_over_network by auto
  then show ?thesis by auto
next
  case True
  obtain r sv' where run: "voucher_redeem d ms code voucher sv = (r, sv')" by fastforce
  have s': "s' = sv_db sv'" using True run by (simp add: after answer_def split: sum.split)
  have t: "told = received ''/v1/voucher/redeem'' (case r of Inl e \<Rightarrow> error_handler (Thrown e) | Inr x \<Rightarrow> x)"
    unfolding told redeem_over_network True using run by (simp add: answer_def split: sum.split)
  show ?thesis
  proof (cases "sv_db sv' = sv_db sv")
    case False
    from redeem_route_pays [OF inv run False] obtain v where v: "v \<in> set (db_vouchers (sv_db sv))"
      "normalizeCode voucher = Some (v_code v)" "redeemable (now_s ms) v"
      "r = send_ok [(''type'', jstr ''grant_days''), (''days'', jnum (v_value v)), (''state'', jstr ''pending'')]"
      "voucher_entries (sv_db sv') = voucher_entries (sv_db sv) @ [(voucher_event_key (v_id v) code, v_value v)]"
      by metis
    then have "told = Inr (granted (v_value v))" by (simp add: t send_ok_def granted_def)
    with v s' show ?thesis by blast
  next
    case same: True
    have "told \<noteq> Inr (granted n)" for n
    proof
      assume g: "told = Inr (granted n)"
      have "r = send_ok [(''type'', jstr ''grant_days''), (''days'', jnum n), (''state'', jstr ''pending'')]"
        using g run unfolding t
        by (auto simp: voucher_redeem_def with_db_def send_err_def send_ok_def bad_code_reply_def badRequest_def
            spent_reply_def redeem_error_reply_def error_handler_def granted_def jobj_def List.map_filter_simps
            split: if_splits option.splits prod.splits sum.splits exn.splits)
      with redeem_granted_changes [OF inv, of d ms code voucher n sv'] run same show False by simp
    qed
    with same s' show ?thesis by blast
  qed
qed

section \<open>When a claim is too soon\<close>

text \<open>The date the client reads is the one the bridge compares against.\<close>

lemma too_soon_message:
  "four_digit_year (a * 1000) \<Longrightarrow>
    client_transferAvailableAt (Bridge_api c ''transfer_too_soon'' (tooSoonMessage a)) = Some (a * 1000)"
  unfolding tooSoonMessage_def by (rule too_soon_date)

lemma too_soon_read:
  assumes "four_digit_year (a * 1000)"
  shows "\<exists>e. received path (case sendClaim (claim_refused ''transfer_too_soon'' (Some a)) extra of
        Inl x \<Rightarrow> error_handler (Thrown x) | Inr r \<Rightarrow> r) = Inl e
    \<and> client_transferAvailableAt e = Some (a * 1000)"
  using assms by (simp add: sendClaim_def claim_refused_def send_err_def too_soon_message)

definition google_claim_body :: "string \<Rightarrow> string \<Rightarrow> bool option \<Rightarrow> json" where
  "google_claim_body code token transfer =
     jobj [(''payment_code'', Some (J_str code)), (''purchase_token'', Some (J_str token)),
           (''transfer'', transfer_field transfer)]"

lemma google_claim_schema_body:
  "google_claim_schema pt (google_claim_body code token transfer)
    = (if 20 \<le> length code \<and> length code \<le> 40 \<and> 20 \<le> length token \<and> length token \<le> 4000
       then Some (R_google_claim (pt_google pt token) code token (if transfer = Some True then Some True else None))
       else None)"
  by (auto simp: google_claim_schema_def google_claim_body_def jobj_def List.map_filter_simps transfer_field_def
      code_of_def text_of_def optional_bool_of_def)

lemma google_claim_over_network:
  assumes "cf_google (d_cfg d) = Some c" and "\<not> pt_limited pt ''/v1/google/claim''"
    and "20 \<le> length code" and "length code \<le> 40" and "20 \<le> length token" and "length token \<le> 4000"
  shows "claimGooglePurchase (network d pt ms baseUrl sv) baseUrl code token transfer
    = received ''/v1/google/claim'' (fst (answer d ms
        (R_google_claim (pt_google pt token) code token (if transfer = Some True then Some True else None)) sv))"
proof -
  have "map_of (post_routes pt (d_cfg d)) ''/v1/google/claim'' = Some (google_claim_schema pt)"
    using assms(1) by (simp add: post_routes_def map_add_def split: option.split)
  then have "post d pt ms ''/v1/google/claim'' (google_claim_body code token transfer) sv
      = answer d ms (R_google_claim (pt_google pt token) code token (if transfer = Some True then Some True else None)) sv"
    using assms by (simp add: post_def google_claim_schema_body)
  then show ?thesis
    unfolding claimGooglePurchase_def google_claim_body_def [symmetric] by (simp add: network_post)
qed

lemma google_too_soon:
  assumes "fetched = Inr sub" and "inactiveReason sub = None" and "periodFacts cfg sub = Inr facts"
    and "isValidPaymentCode (re_b58 env) code"
    and "owner_of Google token s = Some o'" and "o' \<noteq> []" and "o' \<noteq> code"
    and "transferAvailableAt (moved_at Google token s) (now_s ms) = Some a"
  shows "claimPurchase env cfg ms fetched code token True s = (Inr (claim_refused ''transfer_too_soon'' (Some a)), s)"
proof -
  obtain k where "get_sub Google token s = Some k" "s_payment_code k = o'"
    using assms(5) by (auto simp: owner_of_def)
  with assms show ?thesis by (simp add: claimPurchase_def moved_at_def or_else_def truthy_def)
qed

lemma google_too_soon_told:
  assumes "cf_google (d_cfg d) = Some c" and "\<not> pt_limited pt ''/v1/google/claim''"
    and "20 \<le> length token" and "length token \<le> 4000" and "valid_code d code"
    and "pt_google pt token = Inr sub" and "inactiveReason sub = None" and "periodFacts (go_rail c) sub = Inr facts"
    and "owner_of Google token (sv_db sv) = Some o'" and "o' \<noteq> []" and "o' \<noteq> code"
    and "transferAvailableAt (moved_at Google token (sv_db sv)) (now_s ms) = Some a"
    and "four_digit_year (a * 1000)"
  shows "\<exists>e. claimGooglePurchase (network d pt ms baseUrl sv) baseUrl code token (Some True) = Inl e
    \<and> client_transferAvailableAt e = Some (a * 1000)"
proof -
  have len: "20 \<le> length code" "length code \<le> 40"
    using assms(5) by (auto simp: isValidPaymentCode_def split: if_splits)
  have "isValidPaymentCode (re_b58 (rail_env_of d)) code" using assms(5) by (simp add: rail_env_of_def)
  note refused = google_too_soon [OF assms(6-8) this assms(9-12)]
  have "fst (answer d ms (R_google_claim (pt_google pt token) code token (Some True)) sv)
      = (case sendClaim (claim_refused ''transfer_too_soon'' (Some a)) [] of
           Inl x \<Rightarrow> error_handler (Thrown x) | Inr r \<Rightarrow> r)"
    using assms(1,5) refused
    by (simp add: answer_def behind_def google_claim_def reply_with_def with_db_def split: sum.split)
  with too_soon_read [OF assms(13), of "''/v1/google/claim''" "[]"] show ?thesis
    unfolding google_claim_over_network [OF assms(1,2) len assms(3,4)] by simp
qed

end
