(* ===== verification/AppProperties.thy ===== *)
theory AppProperties
  imports RailProperties Multihop Network
begin

text \<open>
  The properties of the client core beyond the split-tunnel policy, each with an instance at a
  concrete input: the routes, the gateways that are discovered, the recovery key and the proof
  of work, and the client and the bridge joined by the network.
\<close>

section \<open>An example library\<close>

text \<open>
  Two letters for a byte stand for both encodings, and a digest that depends on the last byte
  for the hash. Signatures verify when they begin with the key.
\<close>

definition letters_of_byte :: "u8 \<Rightarrow> string" where
  "letters_of_byte b = [char_of (65 + unat b div 16), char_of (65 + unat b mod 16)]"

fun letters_decode :: "string \<Rightarrow> bytes" where
  "letters_decode (a # b # s) = word_of_nat ((of_char a - 65) * 16 + (of_char b - 65)) # letters_decode s"
| "letters_decode _ = []"

definition letters_encode :: "bytes \<Rightarrow> string" where
  "letters_encode bs = concat (map letters_of_byte bs)"

definition letters_read :: "string \<Rightarrow> bytes option" where
  "letters_read s = (let bs = letters_decode s in if letters_encode bs = s then Some bs else None)"

definition ex_crypto :: crypto where
  "ex_crypto = \<lparr>cr_sha256 = (\<lambda>bs. replicate 32 (if bs \<noteq> [] \<and> last bs = 55 then 0 else 255)),
     cr_b58_encode = letters_encode, cr_b58_decode = letters_read, cr_b64_encode = letters_encode,
     cr_b64_decode = letters_read, cr_x25519_public = (\<lambda>k. k),
     cr_ed25519_verify = (\<lambda>sig msg key. Some (take 1 sig = take 1 key))\<rparr>"

lemma high_nibble: "unat (b :: u8) div 16 < 16"
  using unsigned_less [of b, where ?'a = nat] by (simp add: less_mult_imp_div_less)

lemma letters_decode_encode [simp]: "letters_decode (letters_encode bs) = bs"
proof (induction bs)
  case (Cons b bs)
  have "word_of_nat (unat b div 16 * 16 + unat b mod 16) = b" "65 + unat b div 16 < 256" "65 + unat b mod 16 < 256"
    using high_nibble [of b] mod_less_divisor [of 16 "unat b"] by simp_all
  with Cons.IH show ?case
    by (simp add: letters_encode_def letters_of_byte_def)
qed (simp add: letters_encode_def)

lemma letter_is_upper: "n < 16 \<Longrightarrow> is_upper (char_of (65 + n :: nat))"
  by (simp add: is_upper_def)

lemma letters_are_upper: "c \<in> set (letters_encode bs) \<Longrightarrow> is_upper c"
  using high_nibble by (auto simp: letters_encode_def letters_of_byte_def letter_is_upper)

lemma ex_crypto_ok: "crypto_ok ex_crypto"
  by (auto simp: crypto_ok_def ex_crypto_def letters_read_def Let_def letters_are_upper split: if_splits)

section \<open>Gateways\<close>

definition ex_info :: "string \<Rightarrow> rat \<Rightarrow> info_response" where
  "ex_info cc load = \<lparr>ir_country = cc, ir_region = [], ir_city = [], ir_load = load, ir_capacity = 100,
     ir_version = ''1'', ir_min_client_version = ''1'', ir_build_commit = None, ir_peers_persisted = None,
     ir_server_pubkey = ''k'', ir_sign_pubkey = ''k'', ir_transports = None\<rparr>"

definition ex_gateway :: "string \<Rightarrow> string \<Rightarrow> rat \<Rightarrow> gateway_info" where
  "ex_gateway ip cc load = info_response.extend (ex_info cc load) (gateway_info.fields ip (''http://'' @ ip @ '':51821''))"

text \<open>An answer signed with the key it carries, by the example library.\<close>

definition ex_fetch :: "string \<Rightarrow> http_answer option \<times> bool" where
  "ex_fetch url = (if url = ''http://10.0.0.1:51821/v1/info''
     then Some \<lparr>ha_ok = True, ha_bytes = [], ha_signature = Some ''BBCC'', ha_signPubKey = Some ''BBDD''\<rparr>
     else None, False)"

definition ex_parse :: "bytes \<Rightarrow> info_response api_envelope option" where
  "ex_parse bs = Some (Envelope_data (ex_info ''DE'' (1 / 2)))"

definition ex_arrivals :: "(string \<times> string list option list) list" where
  "ex_arrivals = [(''cumulusvpn'', [Some [''10.0.0.1:16127'', ''10.0.0.2''], None, Some [''10.0.0.1'']])]"

lemma control_port: "show_int CONTROL_PORT = ''51821''"
  by (simp add: CONTROL_PORT_def show_int_def show_base.simps digit_char_def char_of_def bit_iff_odd)

lemma ex_countries: "ip_countries ex_arrivals = [(''10.0.0.1'', []), (''10.0.0.2'', [])]"
  and ex_country: "reportedCountry (Some ''DE'') = ''DE''"
  and ex_signature: "letters_read ''BBCC'' = Some [0x11, 0x22]" "letters_read ''BBDD'' = Some [0x11, 0x33]"
  by code_simp+

lemma ex_discovery: "discoverGateways ex_crypto ex_parse ex_fetch ex_arrivals = [ex_gateway ''10.0.0.1'' ''DE'' (1 / 2)]"
  by (simp add: discoverGateways_def ex_countries List.map_filter_simps probe_def control_url_def control_port
      ex_fetch_def fetchSigned_def fetchSigned_body_def ex_parse_def verifySignedResponse_def truthy_def
      ex_signature ex_crypto_def ex_gateway_def ex_info_def info_response.defs gateway_info.defs ex_country or_else_def)

text \<open>
  C20. Every gateway in the list a client discovers has answered with a body whose signature
  verifies under the key it came with, and what is listed is what that body says, up to the
  country; no address is listed twice.
\<close>

theorem discovered_gateways_are_signed:
  assumes "g \<in> set (discoverGateways cr reader fetch arrivals)"
  shows "distinct (map gw_ip (discoverGateways cr reader fetch arrivals))
    \<and> (\<exists>res sig key s k info. fst (fetch (control_url (gw_ip g) @ ''/v1/info'')) = Some res
        \<and> ha_signature res = Some sig \<and> ha_signPubKey res = Some key
        \<and> cr_b64_decode cr sig = Some s \<and> cr_b64_decode cr key = Some k
        \<and> cr_ed25519_verify cr s (ha_bytes res) k = Some True
        \<and> reader (ha_bytes res) = Some (Envelope_data info)
        \<and> info_response.truncate g = info\<lparr>ir_country := ir_country g\<rparr>)"
proof -
  obtain g0 where g0: "probe cr reader fetch (gw_ip g) = Some g0"
    "g = g0\<lparr>ir_country := listed_country (ip_countries arrivals) g0\<rparr>"
    using discovered_verified [OF assms] by blast
  have "info_response.truncate g = (info_response.truncate g0)\<lparr>ir_country := ir_country g\<rparr>"
    by (subst g0(2)) (simp add: info_response.defs g0(2))
  with probe_Some(3) [OF g0(1)] discovered_once show ?thesis by fast
qed

theorem discovered_gateways_are_signed_witness:
  "\<exists>g s k. discoverGateways ex_crypto ex_parse ex_fetch ex_arrivals = [g] \<and> gw_ip g = ''10.0.0.1''
    \<and> cr_ed25519_verify ex_crypto s [] k = Some True"
proof -
  have "ex_gateway ''10.0.0.1'' ''DE'' (1 / 2) \<in> set (discoverGateways ex_crypto ex_parse ex_fetch ex_arrivals)"
    by (simp add: ex_discovery)
  from discovered_gateways_are_signed [OF this] show ?thesis
    unfolding ex_discovery
    by (auto simp: ex_gateway_def ex_fetch_def info_response.defs gateway_info.defs ex_info_def split: if_splits)
qed

section \<open>Routes\<close>

definition ex_opts :: select_opts where
  "ex_opts = \<lparr>so_entryCountry = None, so_exitCountry = None, so_entryIps = None, so_exitIps = None, so_requireDistinctSubnet = True\<rparr>"

definition ex_gateways :: "gateway_info list" where
  "ex_gateways = [ex_gateway ''10.0.0.1'' ''DE'' (1 / 2), ex_gateway ''10.0.1.2'' ''FR'' (1 / 4), ex_gateway ''10.0.0.3'' ''DE'' (3 / 4)]"

lemma ex_hops: "map_sum id (\<lambda>(a, b). (gw_ip a, map_option gw_ip b))
    (selectHops ex_gateways Multihop_cross_jurisdiction ex_opts) = Inr (''10.0.1.2'', Some ''10.0.0.1'')"
  by code_simp

text \<open>
  C30. Choosing two hops fails only when no pair of gateways meets the style and the options.
  Otherwise it picks two different gateways that do, in one country or in two as asked: no pair
  has an entry that comes before in the order of load, country and address, and none with this
  entry has an exit that does.
\<close>

theorem best_route_is_selected:
  assumes "style \<noteq> Single"
  shows "(\<exists>e. selectHops gws style opts = Inl e) \<and> (\<forall>a\<in>set gws. \<forall>b\<in>set gws. \<not> (in_entry_pool opts a \<and> exit_ok style opts a b))
    \<or> (\<exists>a\<in>set gws. \<exists>b\<in>set gws. selectHops gws style opts = Inr (a, Some b)
        \<and> in_entry_pool opts a \<and> exit_ok style opts a b \<and> gw_ip a \<noteq> gw_ip b
        \<and> (ir_country a = ir_country b \<longleftrightarrow> style = Multihop_same_country)
        \<and> (\<forall>a'\<in>set gws. \<forall>b'\<in>set gws. in_entry_pool opts a' \<and> exit_ok style opts a' b' \<longrightarrow> load_key a \<le> load_key a')
        \<and> (\<forall>b'\<in>set gws. exit_ok style opts a b' \<longrightarrow> load_key b \<le> load_key b'))"
proof (cases "selectHops gws style opts")
  case (Inl e)
  with selectHops_multi [OF assms, of gws opts] show ?thesis by (auto simp: route_ok_def)
next
  case (Inr h)
  obtain a x where "h = (a, x)" by fastforce
  then obtain b where h: "selectHops gws style opts = Inr (a, Some b)"
    using selectHops_multi [OF assms, of gws opts] Inr by (cases x) auto
  have ok: "route_ok gws style opts a b"
    and least: "\<forall>a' b'. route_ok gws style opts a' b' \<longrightarrow> load_key a \<le> load_key a'"
      "\<forall>b'. route_ok gws style opts a b' \<longrightarrow> load_key b \<le> load_key b'"
    using selectHops_multi [OF assms, of gws opts] h by auto
  have "ir_country a = ir_country b \<longleftrightarrow> style = Multihop_same_country"
    using route_ok_distinct(2,3) [OF ok] assms by (cases style) auto
  then show ?thesis
    using ok least route_ok_distinct(1) [OF ok] h unfolding route_ok_def
    by (intro disjI2 bexI [of _ a] bexI [of _ b]) auto
qed

theorem best_route_is_selected_witness:
  "\<exists>a b. selectHops ex_gateways Multihop_cross_jurisdiction ex_opts = Inr (a, Some b)
    \<and> gw_ip a = ''10.0.1.2'' \<and> gw_ip b = ''10.0.0.1'' \<and> ir_country a \<noteq> ir_country b
    \<and> exit_ok Multihop_cross_jurisdiction ex_opts a b"
  using best_route_is_selected [of Multihop_cross_jurisdiction ex_gateways ex_opts] ex_hops by auto

section \<open>Recovery keys and proofs of work\<close>

text \<open>
  C39. The recovery key of a generated identity restores exactly that identity, and any text
  that is accepted as one, with whatever spaces, dashes and prefix, is what the restored
  identity prints as its recovery key.
\<close>

theorem recovery_key_restores_identity:
  assumes "crypto_ok cr" and "length seed = 32"
  shows "(\<exists>r. encodeRecoveryKey cr (kp_privateKey (generateKeypair cr seed)) = Some r
      \<and> decodeRecoveryKey cr r = Inr (generateKeypair cr seed))
    \<and> (\<forall>input kp. decodeRecoveryKey cr input = Inr kp \<longrightarrow>
        (\<exists>r. encodeRecoveryKey cr (kp_privateKey kp) = Some r \<and> strip_recovery r = strip_recovery input))"
proof
  have dec: "cr_b64_decode cr (kp_privateKey (generateKeypair cr seed)) = Some (clamp seed)"
    using assms(1) by (simp add: generateKeypair_def crypto_ok_def Let_def)
  have len: "length (clamp seed) = 32" using assms(2) by simp
  from recovery_roundtrip [OF assms(1) dec len]
  show "\<exists>r. encodeRecoveryKey cr (kp_privateKey (generateKeypair cr seed)) = Some r
      \<and> decodeRecoveryKey cr r = Inr (generateKeypair cr seed)"
    by (simp add: generateKeypair_def clamp_idem Let_def)
qed (use recovery_accepted [OF assms(1)] in blast)

theorem recovery_key_restores_identity_witness:
  "\<exists>r. encodeRecoveryKey ex_crypto (kp_privateKey (generateKeypair ex_crypto (replicate 32 255))) = Some r
    \<and> decodeRecoveryKey ex_crypto r = Inr (generateKeypair ex_crypto (replicate 32 255))"
  using recovery_key_restores_identity [OF ex_crypto_ok, of "replicate 32 255"] by simp

text \<open>
  C40. The search for a proof of work ends as soon as some number from its start on is a proof:
  it returns the first one, which the verifier accepts. A proof of so many bits is a nonce whose
  digest, as a number of 256 bits, is below two to the power of what is left of them.
\<close>

theorem proof_of_work_is_found:
  assumes "\<forall>x. length (cr_sha256 cr x) = 32" and "bits \<le> 256"
    and "start \<le> n" and "be_value (powHash cr key (show_nat n)) < 2 ^ (256 - bits)"
  shows "\<exists>m. solvePoW cr key bits start = Some (show_nat m) \<and> start \<le> m \<and> m \<le> n
    \<and> verifyPoW cr key (show_nat m) bits \<and> be_value (powHash cr key (show_nat m)) < 2 ^ (256 - bits)
    \<and> (\<forall>i. start \<le> i \<longrightarrow> i < m \<longrightarrow> 2 ^ (256 - bits) \<le> be_value (powHash cr key (show_nat i)))"
proof -
  have ok: "verifyPoW cr key (show_nat i) bits \<longleftrightarrow> be_value (powHash cr key (show_nat i)) < 2 ^ (256 - bits)" for i
    using leading_zero_bits [of bits "powHash cr key (show_nat i)"] assms(1,2)
    by (simp add: verifyPoW_def powHash_def)
  from solvePoW_returns [OF _ assms(3), of cr key bits] assms(4) show ?thesis
    unfolding ok not_less by blast
qed

theorem proof_of_work_is_found_witness:
  "\<exists>m. solvePoW ex_crypto ''AB'' 20 3 = Some (show_nat m) \<and> 3 \<le> m \<and> m \<le> 7 \<and> verifyPoW ex_crypto ''AB'' (show_nat m) 20"
proof -
  have "be_value (powHash ex_crypto ''AB'' (show_nat 7)) = 0" by code_simp
  with proof_of_work_is_found [of ex_crypto 20 3 7 "''AB''"] show ?thesis
    by (auto simp: ex_crypto_def)
qed

section \<open>The client and the bridge\<close>


text \<open>A Google subscription of another device, moved at second 2000.\<close>

definition ex_token :: string where "ex_token = ''purchase-token-000001''"

definition ex_live :: google_sub where
  "ex_live = \<lparr>gs_subscriptionState = Some ''SUBSCRIPTION_STATE_ACTIVE'', gs_ackPending = False,
     gs_obfuscatedAccountId = None,
     gs_lineItems = [\<lparr>li_basePlanId = Some ''premium-monthly'', li_latestSuccessfulOrderId = Some ''GPA.1'', li_productId = None, li_expiryMs = None\<rparr>],
     gs_latestOrderId = None, gs_testPurchase = False\<rparr>"

definition ex_server_owned :: server where
  "ex_server_owned = new_server\<lparr>sv_db := empty_db\<lparr>db_subs :=
     [\<lparr>s_rail = Google, s_external_id = ex_token, s_payment_code = ''aaaaaaaaaaaaaaaaaaaaaa'', s_plan = Monthly,
       s_status = Active, s_created_at = 1000, s_updated_at = 2000, s_stripe_customer_id = None,
       s_transferred_at = Some 2000, s_apple_expires_ms = None, s_apple_sandbox = None\<rparr>]\<rparr>\<rparr>"

definition ex_parties :: parties where
  "ex_parties = \<lparr>pt_limited = (\<lambda>_. False), pt_refusal = (\<lambda>_. []), pt_checkout = (\<lambda>_. Inl Sqlite_constraint),
     pt_stripe = ex_api, pt_portal = (\<lambda>_. Inl Sqlite_constraint), pt_apple = (\<lambda>_. (None, False)),
     pt_google = (\<lambda>_. Inr ex_live), pt_param = (\<lambda>s. s)\<rparr>"

lemma ex_owned_facts:
  "owner_of Google ex_token (sv_db ex_server_owned) = Some ''aaaaaaaaaaaaaaaaaaaaaa''"
  "transferAvailableAt (moved_at Google ex_token (sv_db ex_server_owned)) (now_s 3000000) = Some 2594000"
  "inactiveReason ex_live = None" "four_digit_year (2594000 * 1000)"
  "isl (periodFacts (go_rail (the (cf_google ex_config))) ex_live) = False"
  by code_simp+

text \<open>
  C38. When a device asks to move a live Google subscription that another device owns, less
  than thirty days after its last move, the error it gets over the network reads, to the
  client, as the very moment from which the bridge allows the move: it lies ahead, and a claim
  at it is not refused as too soon.
\<close>

theorem too_soon_date_is_exact:
  assumes "cf_google (d_cfg d) = Some c" and "\<not> pt_limited pt ''/v1/google/claim''"
    and "20 \<le> length token" and "length token \<le> 4000" and "isValidPaymentCode (d_b58 d) code"
    and "pt_google pt token = Inr sub" and "inactiveReason sub = None" and "periodFacts (go_rail c) sub = Inr facts"
    and "owner_of Google token (sv_db sv) = Some o'" and "o' \<noteq> []" and "o' \<noteq> code"
    and "transferAvailableAt (moved_at Google token (sv_db sv)) (now_s ms) = Some a"
    and "four_digit_year (a * 1000)"
  shows "\<exists>e. claimGooglePurchase (network d pt ms baseUrl sv) baseUrl code token (Some True) = Inl e
    \<and> client_transferAvailableAt e = Some (a * 1000) \<and> now_s ms < a
    \<and> transferAvailableAt (moved_at Google token (sv_db sv)) a = None"
  using google_too_soon_told [OF assms, of baseUrl] transferAvailableAt_Some [OF assms(12)] by blast

theorem too_soon_date_is_exact_witness:
  "\<exists>e. claimGooglePurchase (network ex_deps ex_parties 3000000 None ex_server_owned) None ex_code ex_token (Some True) = Inl e
    \<and> client_transferAvailableAt e = Some 2594000000"
proof -
  obtain facts where f: "periodFacts (go_rail (the (cf_google ex_config))) ex_live = Inr facts"
    using ex_owned_facts(5) by (cases "periodFacts (go_rail (the (cf_google ex_config))) ex_live") auto
  have c: "cf_google (d_cfg ex_deps) = Some (the (cf_google ex_config))" "d_b58 ex_deps = (\<lambda>_. Some (replicate 20 0))"
    by (simp_all add: ex_deps_def ex_config_def)
  have "isValidPaymentCode (d_b58 ex_deps) ex_code" "ex_code \<noteq> ''aaaaaaaaaaaaaaaaaaaaaa''"
    by (simp_all add: c isValidPaymentCode_def ex_code_def)
  with too_soon_date_is_exact [OF c(1) _ _ _ _ _ ex_owned_facts(3) f ex_owned_facts(1) _ _ ex_owned_facts(2,4),
      of ex_parties ex_code None]
  show ?thesis by (auto simp: ex_parties_def ex_token_def)
qed

end
