(* ===== verification/Desktop.thy ===== *)
theory Desktop
  imports Multihop Gateways
begin

text \<open>
  The desktop client below its session: the bridge to the native tunnel, the local storage, the
  country names, and the change of identity (clients/desktop/src/lib/tauri.ts, storage.ts,
  directory.ts and identity.ts), in the shipped app, where the native side is there. Its answers
  are parameters, as are \<open>JSON.parse\<close> (\<open>None\<close> where it throws), \<open>JSON.stringify\<close> and the
  names of regions. Flags are lists of code points; a message outside Latin-1 is a constructor.
\<close>

section \<open>The native tunnel\<close>

datatype tunnel_state = T_down | T_connecting | T_up | T_error

record tunnel_status =
  ts_state :: tunnel_state
  ts_endpoint :: "string option"
  ts_assignedIp :: "string option"
  ts_country :: "string option"
  ts_rxBytes :: int
  ts_txBytes :: int
  ts_lastHandshake :: "seconds option"
  ts_error :: "string option"
  ts_dnsWarning :: "string option"

record tls_args =
  tl_serverAddr :: string
  tl_sni :: string

record split_args =
  sa_bypassRoutes :: "string list"
  sa_tunnelRoutes :: "string list"

record connect_args =
  ca_country :: string
  ca_wgConfig :: string
  ca_endpoint :: string
  ca_assignedIp :: string
  ca_killSwitch :: bool
  ca_tls :: "tls_args option"
  ca_split :: "split_args option"

record multihop_connect_args =
  mca_entryCountry :: string
  mca_exitCountry :: string
  mca_outer :: string
  mca_inner :: string
  mca_entryEndpoint :: string
  mca_exitEndpoint :: string
  mca_innerMtu :: int
  mca_assignedIp :: string
  mca_killSwitch :: bool
  mca_split :: "split_args option"

definition DOWN :: tunnel_status where
  "DOWN = \<lparr>ts_state = T_down, ts_endpoint = None, ts_assignedIp = None, ts_country = None, ts_rxBytes = 0,
     ts_txBytes = 0, ts_lastHandshake = None, ts_error = None, ts_dnsWarning = None\<rparr>"

text \<open>What is passed to \<open>invoke\<close>.\<close>

definition jroutes :: "string list option \<Rightarrow> json" where
  "jroutes rs = jnullable (\<lambda>xs. J_arr (map J_str xs)) rs"

definition connect_invoke :: "connect_args \<Rightarrow> json" where
  "connect_invoke a =
     J_obj [(''country'', J_str (ca_country a)), (''wgConfig'', J_str (ca_wgConfig a)),
       (''endpoint'', J_str (ca_endpoint a)), (''assignedIp'', J_str (ca_assignedIp a)),
       (''killSwitch'', J_bool (ca_killSwitch a)),
       (''tlsServerAddr'', jnullable J_str (map_option tl_serverAddr (ca_tls a))),
       (''tlsSni'', jnullable J_str (map_option tl_sni (ca_tls a))),
       (''bypassRoutes'', jroutes (map_option sa_bypassRoutes (ca_split a))),
       (''tunnelRoutes'', jroutes (map_option sa_tunnelRoutes (ca_split a)))]"

definition connectMultihop_invoke :: "multihop_connect_args \<Rightarrow> json" where
  "connectMultihop_invoke a =
     J_obj [(''entryCountry'', J_str (mca_entryCountry a)), (''exitCountry'', J_str (mca_exitCountry a)),
       (''outer'', J_str (mca_outer a)), (''inner'', J_str (mca_inner a)),
       (''entryEndpoint'', J_str (mca_entryEndpoint a)), (''exitEndpoint'', J_str (mca_exitEndpoint a)),
       (''innerMtu'', jint (mca_innerMtu a)), (''assignedIp'', J_str (mca_assignedIp a)),
       (''killSwitch'', J_bool (mca_killSwitch a)),
       (''bypassRoutes'', jroutes (map_option sa_bypassRoutes (mca_split a))),
       (''tunnelRoutes'', jroutes (map_option sa_tunnelRoutes (mca_split a)))]"

datatype helper_registration =
    Not_needed | Enabled | Elevated
  | Requires_approval | Not_registered | Helper_not_found
  | Service_not_installed | Service_not_running | Service_denied

definition helperReady :: "helper_registration \<Rightarrow> bool" where
  "helperReady state \<longleftrightarrow> state = Enabled \<or> state = Not_needed \<or> state = Elevated"

text \<open>The answer is \<open>None\<close> where \<open>invoke\<close> throws.\<close>

definition helperRegistration :: "helper_registration option \<Rightarrow> helper_registration" where
  "helperRegistration answer = the_default Not_registered answer"

definition helperReachable :: "bool option \<Rightarrow> bool" where
  "helperReachable answer = the_default False answer"

section \<open>Local storage\<close>

text \<open>
  \<open>None\<close> where the storage is not available. The second store is that of the session, the flag
  says whether \<open>setItem\<close> succeeds.
\<close>

record local_store =
  lo_local :: "(string \<rightharpoonup> string) option"
  lo_session :: "(string \<rightharpoonup> string) option"
  lo_writable :: bool

definition KEYPAIR_KEY :: string where "KEYPAIR_KEY = ''cvpn.keypair.v1''"
definition COUNTRY_KEY :: string where "COUNTRY_KEY = ''cvpn.country.v1''"
definition SPLIT_KEY :: string where "SPLIT_KEY = ''cvpn.split.v1''"
definition DNS_KEY :: string where "DNS_KEY = ''cvpn.dns.v1''"

definition safeGet :: "string \<Rightarrow> local_store \<Rightarrow> string option" where
  "safeGet key st = Option.bind (lo_local st) (\<lambda>m. m key)"

definition safeSet :: "string \<Rightarrow> string \<Rightarrow> local_store \<Rightarrow> local_store" where
  "safeSet key v st =
     (if lo_writable st then st\<lparr>lo_local := map_option (\<lambda>m. m(key \<mapsto> v)) (lo_local st)\<rparr> else st)"

definition keypair_json :: "keypair \<Rightarrow> json" where
  "keypair_json kp = J_obj [(''publicKey'', J_str (kp_publicKey kp)), (''privateKey'', J_str (kp_privateKey kp))]"

definition saveKeypair :: "(json \<Rightarrow> string) \<Rightarrow> keypair \<Rightarrow> local_store \<Rightarrow> local_store" where
  "saveKeypair stringify kp st = safeSet KEYPAIR_KEY (stringify (keypair_json kp)) st"

text \<open>The stored pair, when it is one.\<close>

definition read_keypair :: "json \<Rightarrow> keypair option" where
  "read_keypair parsed =
     (case (jget ''publicKey'' parsed, jget ''privateKey'' parsed) of
        (Some (J_str pub), Some (J_str priv)) \<Rightarrow>
          if 0 < length pub \<and> 0 < length priv then Some \<lparr>kp_publicKey = pub, kp_privateKey = priv\<rparr> else None
      | _ \<Rightarrow> None)"

definition loadOrCreateKeypair ::
  "crypto \<Rightarrow> (string \<Rightarrow> json option) \<Rightarrow> (json \<Rightarrow> string) \<Rightarrow> bytes \<Rightarrow> local_store \<Rightarrow> keypair \<times> local_store" where
  "loadOrCreateKeypair cr parseJson stringify randomSecretKey st =
     (let raw = safeGet KEYPAIR_KEY st
      in case (if truthy raw then Option.bind (parseJson (the raw)) read_keypair else None) of
           Some kp \<Rightarrow> (kp, st)
         | None \<Rightarrow> (let fresh = generateKeypair cr randomSecretKey in (fresh, saveKeypair stringify fresh st)))"

definition loadSelectedCountry :: "local_store \<Rightarrow> string option" where
  "loadSelectedCountry st = safeGet COUNTRY_KEY st"

definition saveSelectedCountry :: "string \<Rightarrow> local_store \<Rightarrow> local_store" where
  "saveSelectedCountry code st = safeSet COUNTRY_KEY code st"

definition loadSplitPolicy :: "(string \<Rightarrow> json option) \<Rightarrow> local_store \<Rightarrow> split_policy" where
  "loadSplitPolicy parseJson st =
     (let raw = safeGet SPLIT_KEY st
      in if \<not> truthy raw then EMPTY_POLICY
         else (case parseJson (the raw) of None \<Rightarrow> EMPTY_POLICY | Some v \<Rightarrow> sanitizeSplitPolicy v))"

definition loadDnsChoice :: "local_store \<Rightarrow> dns_choice" where
  "loadDnsChoice st = parseDnsChoice (map_option J_str (safeGet DNS_KEY st))"

definition saveDnsChoice :: "dns_choice \<Rightarrow> local_store \<Rightarrow> local_store" where
  "saveDnsChoice choice st = safeSet DNS_KEY (dns_slug choice) st"

definition saveSplitPolicy :: "(json \<Rightarrow> string) \<Rightarrow> split_policy \<Rightarrow> local_store \<Rightarrow> local_store" where
  "saveSplitPolicy stringify policy st = safeSet SPLIT_KEY (stringify (policy_json policy)) st"

section \<open>Countries\<close>

record country_meta =
  cm_code :: string
  cm_name :: string
  cm_flag :: "int list"

definition NO_FLAG :: "int list" where
  "NO_FLAG = [0x1f3f3, 0xfe0f]"

definition flagEmoji :: "string \<Rightarrow> int list" where
  "flagEmoji code =
     (if length code = 2 \<and> list_all (\<lambda>c. is_lower c \<or> is_upper c) code
      then map (\<lambda>c. 0x1f1e6 + of_char c - 65) (upper_str code)
      else NO_FLAG)"

text \<open>\<open>region_name\<close> is \<open>Intl.DisplayNames.of\<close>: \<open>None\<close> where it throws or names nothing.\<close>

definition countryMeta :: "(string \<Rightarrow> string option) \<Rightarrow> string \<Rightarrow> country_meta" where
  "countryMeta region_name code =
     (let iso = (if upper_str code = ''UK'' then ''GB'' else upper_str code);
          name = region_name iso
      in if \<not> truthy name \<or> name = Some iso \<or> str_includes ''unknown'' (lower_str (the name))
         then \<lparr>cm_code = code, cm_name = code, cm_flag = NO_FLAG\<rparr>
         else \<lparr>cm_code = code, cm_name = the name, cm_flag = flagEmoji iso\<rparr>)"

definition UPGRADE_URL :: string where
  "UPGRADE_URL = ''https://vpn.cumulusvpn.com/#/upgrade''"

definition upgradeUrl :: "string \<Rightarrow> string" where
  "upgradeUrl code = (if code = [] then UPGRADE_URL else UPGRADE_URL @ ''?code='' @ encodeURIComponent code)"

section \<open>Changing the identity\<close>

definition SAVED_KEY :: string where "SAVED_KEY = ''cvpn.recovery.saved.v1''"
definition NUDGE_DISMISSED_KEY :: string where "NUDGE_DISMISSED_KEY = ''cvpn.recoverynudge.dismissed.v1''"
definition RESTORED_KEY :: string where "RESTORED_KEY = ''cvpn.identity.restored.v1''"

definition codeOf :: "crypto \<Rightarrow> keypair \<Rightarrow> string" where
  "codeOf cr kp = the_default [] (paymentCode cr (kp_publicKey kp))"

definition recoveryKeyFor :: "crypto \<Rightarrow> keypair \<Rightarrow> string" where
  "recoveryKeyFor cr kp = the_default [] (encodeRecoveryKey cr (kp_privateKey kp))"

datatype restore_refusal = Has_a_typo | Newer_key | Not_a_recovery_key | Already_this_identity

definition checkRestore :: "crypto \<Rightarrow> string \<Rightarrow> keypair \<Rightarrow> restore_refusal + keypair \<times> string" where
  "checkRestore cr input current =
     (case decodeRecoveryKey cr input of
        Inl e \<Rightarrow> Inl (if e = Bad_checksum then Has_a_typo else if e = Bad_version then Newer_key else Not_a_recovery_key)
      | Inr kp \<Rightarrow>
          if kp_privateKey kp = kp_privateKey current then Inl Already_this_identity
          else Inr (kp, codeOf cr kp))"

definition session_set :: "string \<Rightarrow> string \<Rightarrow> local_store \<Rightarrow> local_store" where
  "session_set key v st =
     (if lo_writable st then st\<lparr>lo_session := map_option (\<lambda>m. m(key \<mapsto> v)) (lo_session st)\<rparr> else st)"

definition session_get :: "string \<Rightarrow> local_store \<Rightarrow> string option" where
  "session_get key st = Option.bind (lo_session st) (\<lambda>m. m key)"

definition recoveryKeySaved :: "string \<Rightarrow> local_store \<Rightarrow> bool" where
  "recoveryKeySaved code st \<longleftrightarrow> code \<noteq> [] \<and> safeGet SAVED_KEY st = Some code"

definition markRecoveryKeySaved :: "string \<Rightarrow> local_store \<Rightarrow> local_store" where
  "markRecoveryKeySaved code st = (if code = [] then st else safeSet SAVED_KEY code st)"

definition nudgeDismissed :: "local_store \<Rightarrow> bool" where
  "nudgeDismissed st \<longleftrightarrow> session_get NUDGE_DISMISSED_KEY st = Some ''1''"

definition dismissNudge :: "local_store \<Rightarrow> local_store" where
  "dismissNudge st = session_set NUDGE_DISMISSED_KEY ''1'' st"

definition wasRestored :: "local_store \<Rightarrow> bool" where
  "wasRestored st \<longleftrightarrow> session_get RESTORED_KEY st = Some ''1''"

definition clearRestored :: "local_store \<Rightarrow> local_store" where
  "clearRestored st = st\<lparr>lo_session := map_option (\<lambda>m. m(RESTORED_KEY := None)) (lo_session st)\<rparr>"

text \<open>What is asked of the native side and the window, in order.\<close>

datatype identity_call = Asked_status | Asked_disconnect | Reloaded

definition switchIdentity ::
  "crypto \<Rightarrow> (json \<Rightarrow> string) \<Rightarrow> tunnel_state option \<Rightarrow> tunnel_state option \<Rightarrow> keypair \<Rightarrow> local_store \<Rightarrow>
   bool \<times> identity_call list \<times> local_store" where
  "switchIdentity cr stringify status disconnect next st =
     (let live = (case status of None \<Rightarrow> False | Some x \<Rightarrow> x \<noteq> T_down);
          calls = Asked_status # (if live then [Asked_disconnect] else [])
      in if live \<and> disconnect \<noteq> Some T_down then (False, calls, st)
         else (True, calls @ [Reloaded],
               session_set RESTORED_KEY ''1'' (markRecoveryKeySaved (codeOf cr next) (saveKeypair stringify next st))))"

section \<open>What is stored comes back\<close>

lemma get_set: "lo_writable st \<Longrightarrow> lo_local st \<noteq> None \<Longrightarrow> safeGet k (safeSet k' v st) = (if k = k' then Some v else safeGet k st)"
  by (auto simp: safeGet_def safeSet_def)

lemma set_keeps [simp]:
  "lo_writable (safeSet k v st) = lo_writable st" "lo_session (safeSet k v st) = lo_session st"
  "lo_local (safeSet k v st) = None \<longleftrightarrow> lo_local st = None"
  by (simp_all add: safeSet_def)

lemma read_keypair_json:
  "kp_publicKey kp \<noteq> [] \<Longrightarrow> kp_privateKey kp \<noteq> [] \<Longrightarrow> read_keypair (keypair_json kp) = Some kp"
  by (simp add: read_keypair_def keypair_json_def)

text \<open>An identity that has been stored is the one every later start loads.\<close>

lemma saved_keypair_loads:
  assumes "parseJson (stringify (keypair_json kp)) = Some (keypair_json kp)" and "stringify (keypair_json kp) \<noteq> []"
    and "kp_publicKey kp \<noteq> []" and "kp_privateKey kp \<noteq> []"
    and "safeGet KEYPAIR_KEY st = Some (stringify (keypair_json kp))"
  shows "loadOrCreateKeypair cr parseJson stringify r st = (kp, st)"
  using assms by (simp add: loadOrCreateKeypair_def truthy_def read_keypair_json Let_def)

text \<open>The second start on a writable storage loads what the first one created.\<close>

lemma created_keypair_loads:
  assumes "\<And>v. parseJson (stringify v) = Some v" and "\<And>v. stringify v \<noteq> []"
    and "lo_writable st" and "lo_local st \<noteq> None"
    and "kp_publicKey (generateKeypair cr r) \<noteq> []" and "kp_privateKey (generateKeypair cr r) \<noteq> []"
    and "loadOrCreateKeypair cr parseJson stringify r st = (kp, st')"
  shows "loadOrCreateKeypair cr parseJson stringify r' st' = (kp, st')"
proof (cases "if truthy (safeGet KEYPAIR_KEY st) then Option.bind (parseJson (the (safeGet KEYPAIR_KEY st))) read_keypair else None")
  case (Some k)
  then show ?thesis using assms(7) by (auto simp: loadOrCreateKeypair_def Let_def)
next
  case None
  then have "kp = generateKeypair cr r" "st' = saveKeypair stringify kp st"
    using assms(7) by (simp_all add: loadOrCreateKeypair_def Let_def split: if_splits)
  then show ?thesis
    using assms by (intro saved_keypair_loads) (simp_all add: saveKeypair_def get_set)
qed

text \<open>The setting of the DNS comes back as it was stored.\<close>

lemma dns_choice_roundtrip:
  "lo_writable st \<Longrightarrow> lo_local st \<noteq> None \<Longrightarrow> loadDnsChoice (saveDnsChoice c st) = c"
  by (simp add: loadDnsChoice_def saveDnsChoice_def get_set parse_dns_slug)

section \<open>The identity changes only over a tunnel that is down\<close>

lemma switch_identity_safe:
  assumes "switchIdentity cr stringify status disconnect next st = (done, calls, st')"
  shows "done \<longleftrightarrow> Reloaded \<in> set calls"
    and "\<not> done \<Longrightarrow> st' = st"
    and "done \<Longrightarrow> status = None \<or> status = Some T_down \<or> disconnect = Some T_down \<and> Asked_disconnect \<in> set calls"
    and "Asked_disconnect \<in> set calls \<Longrightarrow> status \<noteq> None \<and> status \<noteq> Some T_down"
  using assms by (auto simp: switchIdentity_def Let_def split: if_splits option.splits)

lemma switch_identity_loads:
  assumes "switchIdentity cr stringify status disconnect next st = (True, calls, st')"
    and "\<And>v. parseJson (stringify v) = Some v" and "\<And>v. stringify v \<noteq> []"
    and "lo_writable st" and "lo_local st \<noteq> None" and "kp_publicKey next \<noteq> []" and "kp_privateKey next \<noteq> []"
  shows "loadOrCreateKeypair cr parseJson stringify r st' = (next, st')"
proof -
  have "st' = session_set RESTORED_KEY ''1'' (markRecoveryKeySaved (codeOf cr next) (saveKeypair stringify next st))"
    using assms(1) by (auto simp: switchIdentity_def Let_def split: if_splits)
  then have "safeGet KEYPAIR_KEY st' = Some (stringify (keypair_json next))"
    using assms(4,5)
    by (auto simp: session_set_def markRecoveryKeySaved_def saveKeypair_def safeGet_def safeSet_def KEYPAIR_KEY_def SAVED_KEY_def)
  with assms show ?thesis by (intro saved_keypair_loads) simp_all
qed

end
