(* ===== verification/Session.thy ===== *)
theory Session
  imports Desktop "HOL-Library.AList"
begin

text \<open>
  The session of the desktop client (clients/desktop/src/lib/session.ts): the list of countries,
  and bringing a tunnel up, by the first transport of the chain that answers, or over two hops.
  What an operation asks of the outside is a trace of calls. The answers of gateways and of the
  native tunnel, the abort signal and the clock are parameters, given where the code reads them;
  \<open>collate\<close> gives the sort key of \<open>localeCompare\<close>. The end of a wait for a handshake depends on
  the clock, so an operation is partial.
\<close>

section \<open>Countries\<close>

record seed_gateway =
  sd_ip :: string
  sd_country :: string
  sd_sign_pubkey :: string

record directory =
  di_payment_address :: string
  di_price_flux :: rat
  di_specs :: "string list"
  di_seed_gateways :: "seed_gateway list"

record country_option =
  op_code :: string
  op_name :: string
  op_flag :: "int list"
  op_gatewayIp :: string
  op_city :: string
  op_load :: rat
  op_signPubKey :: string
  op_transports :: "transport list option"

definition least_loaded :: "gateway_info \<Rightarrow> (string \<times> gateway_info) list \<Rightarrow> (string \<times> gateway_info) list" where
  "least_loaded g best =
     (case map_of best (ir_country g) of
        None \<Rightarrow> AList.update (ir_country g) g best
      | Some current \<Rightarrow> if ir_load g < ir_load current then AList.update (ir_country g) g best else best)"

definition country_row :: "(string \<Rightarrow> string option) \<Rightarrow> gateway_info \<Rightarrow> country_option" where
  "country_row region_name g =
     (let meta = countryMeta region_name (ir_country g)
      in \<lparr>op_code = ir_country g, op_name = cm_name meta, op_flag = cm_flag meta, op_gatewayIp = gw_ip g,
          op_city = ir_city g, op_load = ir_load g, op_signPubKey = ir_sign_pubkey g,
          op_transports = ir_transports g\<rparr>)"

definition toCountryOptions ::
  "(string \<Rightarrow> string option) \<Rightarrow> (string \<Rightarrow> string) \<Rightarrow> gateway_info list \<Rightarrow> country_option list" where
  "toCountryOptions region_name collate gateways =
     sort_key (\<lambda>r. collate (op_name r)) (map (\<lambda>(_, g). country_row region_name g) (fold least_loaded gateways []))"

text \<open>The rows of the directory, for a browser and for a start without a network.\<close>

definition directory_row :: "(string \<Rightarrow> string option) \<Rightarrow> string \<Rightarrow> string \<Rightarrow> string \<Rightarrow> rat \<Rightarrow> string \<Rightarrow> country_option" where
  "directory_row region_name code ip city load signPubKey =
     (let meta = countryMeta region_name code
      in \<lparr>op_code = code, op_name = cm_name meta, op_flag = cm_flag meta, op_gatewayIp = ip, op_city = city,
          op_load = load, op_signPubKey = signPubKey, op_transports = None\<rparr>)"

definition discoverFleetAndCountries ::
  "(string \<Rightarrow> string option) \<Rightarrow> (string \<Rightarrow> string) \<Rightarrow> bool \<Rightarrow> directory \<Rightarrow> gateway_info list \<Rightarrow>
   country_option list \<times> gateway_info list" where
  "discoverFleetAndCountries region_name collate isTauri dir gateways =
     (if 0 < length gateways then (toCountryOptions region_name collate gateways, gateways)
      else if \<not> isTauri then
        (sort_key (\<lambda>r. collate (op_name r))
          (map (\<lambda>spec. directory_row region_name (specToCountryCode spec) ''10.0.0.1'' ''demo'' (1 / 5) []) (di_specs dir)), [])
      else
        (sort_key (\<lambda>r. collate (op_name r))
          (map (\<lambda>seed. directory_row region_name (sd_country seed) (sd_ip seed) [] 0 (sd_sign_pubkey seed))
            (filter (\<lambda>seed. sd_ip seed \<noteq> ''0.0.0.0'') (di_seed_gateways dir))), []))"

section \<open>Asking the gateway\<close>

record status_response =
  st_tier :: tier
  st_paid_until :: string
  st_bytes_used :: rat

text \<open>The world of one operation.\<close>

record desktop_env =
  de_crypto :: crypto
  de_isTauri :: bool
  de_directory :: directory
  de_numstr :: "rat \<Rightarrow> string"
  de_readStatus :: "bytes \<Rightarrow> status_response api_envelope option"
  de_readEnroll :: "bytes \<Rightarrow> enroll_response api_envelope option"
  de_fetch :: "string \<Rightarrow> http_answer option \<times> bool"
  de_fetchEnroll :: "enroll_request \<Rightarrow> http_answer option \<times> bool"
  de_solve :: "string \<Rightarrow> nat \<Rightarrow> string"
  de_policy :: split_policy
  de_dns :: dns_choice
  de_userAgent :: string

text \<open>The transports this build can dial.\<close>

definition DESKTOP_TRANSPORTS :: "string list" where
  "DESKTOP_TRANSPORTS = [''wg'', ''awg'', ''wg-tls'']"

definition pin :: "string \<Rightarrow> string option" where
  "pin signPubKey = (if signPubKey = [] then None else Some signPubKey)"

text \<open>The answer, and the enrolment that was sent for it, if any.\<close>

definition enrollOrMock ::
  "desktop_env \<Rightarrow> string \<Rightarrow> string \<Rightarrow> string option \<Rightarrow> enroll_request list \<times> (fetch_error + enroll_response)" where
  "enrollOrMock w gatewayIp publicKey signPubKey =
     (if de_isTauri w then
        (let (req, r) = enroll (de_crypto w) (de_readEnroll w) (de_solve w) (de_fetchEnroll w) gatewayIp publicKey None signPubKey
         in ([req], r))
      else ([], Inr \<lparr>er_server_pubkey = ''2YOz4coIWsUlxKe3TNGFZqri7gX0nDJECrJ8olPG/AA='',
              er_endpoint = gatewayIp @ '':51820'', er_assigned_ip = ''10.8.0.2'', er_dns = ''1.1.1.1'',
              er_payment_address = di_payment_address (de_directory w), er_payment_memo = ''CVPN1:demo'',
              er_price_flux = di_price_flux (de_directory w)\<rparr>))"

definition fetchEntitlement :: "desktop_env \<Rightarrow> string \<Rightarrow> string \<Rightarrow> string \<Rightarrow> fetch_error + status_response" where
  "fetchEntitlement w gatewayIp publicKey signPubKey =
     gateway_status (de_crypto w) (de_readStatus w) (de_fetch w) gatewayIp publicKey (pin signPubKey)"

definition resolveGatewayTier ::
  "desktop_env \<Rightarrow> string \<Rightarrow> string \<Rightarrow> transport list option \<Rightarrow> string \<Rightarrow> tier \<Rightarrow> tier" where
  "resolveGatewayTier w gatewayIp signPubKey transports publicKey cached =
     (if \<not> hasPremiumTransport transports \<or> \<not> de_isTauri w then cached
      else (case gateway_status (de_crypto w) (de_readStatus w) (de_fetch w) gatewayIp publicKey (pin signPubKey) of
              Inr s \<Rightarrow> st_tier s
            | Inl _ \<Rightarrow> cached))"

section \<open>Waiting for the tunnel\<close>

definition PROBE_MS :: millis where "PROBE_MS = 6000"
definition PROBE_INTERVAL_MS :: millis where "PROBE_INTERVAL_MS = 400"

text \<open>What one turn of the loop reads: the signal, the status (\<open>None\<close> where it throws), the clock.\<close>

record turn =
  tu_aborted :: bool
  tu_status :: "tunnel_status option"
  tu_now :: millis

definition tunnel_answers :: "tunnel_status \<Rightarrow> bool" where
  "tunnel_answers s \<longleftrightarrow> ts_lastHandshake s \<noteq> None \<or> 0 < ts_rxBytes s"

partial_function (option) probe_loop :: "(nat \<Rightarrow> turn) \<Rightarrow> millis \<Rightarrow> nat \<Rightarrow> tunnel_status option option" where
  "probe_loop turns deadline i =
     (if tu_aborted (turns i) then Some None
      else case tu_status (turns i) of
        None \<Rightarrow> Some None
      | Some s \<Rightarrow>
          if tunnel_answers s then Some (Some s)
          else if ts_state s = T_error \<or> ts_state s = T_down then Some None
          else if deadline \<le> tu_now (turns i) then Some None
          else probe_loop turns deadline (Suc i))"

definition probeTunnelUp :: "(nat \<Rightarrow> turn) \<Rightarrow> millis \<Rightarrow> millis \<Rightarrow> tunnel_status option option" where
  "probeTunnelUp turns now budgetMs = probe_loop turns (now + budgetMs) 0"

definition isTransportLevelFailure :: "string \<Rightarrow> bool" where
  "isTransportLevelFailure message = str_includes ''tls bridge'' message"

section \<open>The split of a session\<close>

definition desktopPlatform :: "string \<Rightarrow> string" where
  "desktopPlatform ua =
     (if str_includes ''Mac'' ua then ''macos'' else if str_includes ''Win'' ua then ''windows'' else ''linux'')"

definition splitForSession :: "desktop_env \<Rightarrow> tier \<Rightarrow> bool \<Rightarrow> string list \<Rightarrow> split_error + split_args option" where
  "splitForSession w gwTier killSwitch endpointIps =
     (if gwTier \<noteq> Premium then Inr None
      else case compileSplitPolicy (de_policy w)
             \<lparr>cc_platform = desktopPlatform (de_userAgent w), cc_supportsExcludeRoute = True, cc_endpointIps = endpointIps\<rparr> of
        Inl e \<Rightarrow> Inl e
      | Inr compiled \<Rightarrow>
          if co_isNoop compiled \<or> (killSwitch \<and> 0 < length (co_tunnelRoutes compiled)) then Inr None
          else Inr (Some \<lparr>sa_bypassRoutes = co_bypassRoutes compiled, sa_tunnelRoutes = co_tunnelRoutes compiled\<rparr>))"

section \<open>One hop\<close>

datatype session_call =
    Enrolled enroll_request
  | Attempt transport nat nat
  | Connect connect_args
  | Connect_multihop multihop_connect_args
  | Disconnect

datatype session_error =
    Transport_refused transport_error
  | Enroll_failed fetch_error
  | Policy_error split_error
  | Connect_cancelled
  | Connect_failed string
  | Could_not_connect "string list" "string option"
  | No_route string
  | No_exit_hop

record establish_result =
  rs_gatewayIp :: string
  rs_enroll :: enroll_response
  rs_tunnel :: tunnel_status
  rs_transport :: transport
  rs_splitApplied :: bool

text \<open>
  What one attempt meets: the signal before it, the message of a \<open>connect\<close> that throws, the
  time and the turns of the wait, and the signal after it.
\<close>

record attempt_env =
  ae_abortedBefore :: bool
  ae_connectError :: "string option"
  ae_now :: millis
  ae_turns :: "nat \<Rightarrow> turn"
  ae_abortedAfter :: bool

definition attempt_args ::
  "desktop_env \<Rightarrow> country_option \<Rightarrow> keypair \<Rightarrow> bool \<Rightarrow> enroll_response \<Rightarrow> split_args option \<Rightarrow> transport \<Rightarrow> connect_args" where
  "attempt_args w country keypair killSwitch reply split t =
     (let endpoint = applyTransportToEndpoint (de_numstr w) (er_endpoint reply) t;
          sni = Option.bind (tp_params t) (\<lambda>ps. map_of ps ''sni'')
      in \<lparr>ca_country = op_code country,
          ca_wgConfig = buildWgConfig \<lparr>wp_privateKey = kp_privateKey keypair, wp_assignedIp = er_assigned_ip reply,
            wp_dns = dnsServersFor (de_dns w) (er_dns reply), wp_serverPubKey = er_server_pubkey reply,
            wp_endpoint = endpoint, wp_obfs = obfsForTransport t, wp_split = None\<rparr>,
          ca_endpoint = endpoint, ca_assignedIp = er_assigned_ip reply, ca_killSwitch = killSwitch,
          ca_tls = (if tp_type t = ''wg-tls''
                    then Some \<lparr>tl_serverAddr = endpoint, tl_sni = (if truthy sni then the sni else op_gatewayIp country)\<rparr>
                    else None),
          ca_split = split\<rparr>)"

text \<open>The loop over the chain: \<open>dial\<close> are the arguments of a transport.\<close>

fun sweep ::
  "(transport \<Rightarrow> connect_args) \<Rightarrow> (nat \<Rightarrow> attempt_env) \<Rightarrow> nat \<Rightarrow> nat \<Rightarrow> string option \<Rightarrow> transport list \<Rightarrow>
   (session_call list \<times> ((string option + session_error) + transport \<times> tunnel_status)) option" where
  "sweep dial ae n i lastError [] = Some ([], Inl (Inl lastError))"
| "sweep dial ae n i lastError (t # ts) =
     (if ae_abortedBefore (ae i) then Some ([], Inl (Inr Connect_cancelled))
      else
        (let tried = [Attempt t i n, Connect (dial t)]
         in case ae_connectError (ae i) of
              Some message \<Rightarrow>
                if \<not> isTransportLevelFailure message then Some (tried, Inl (Inr (Connect_failed message)))
                else map_option (map_prod ((@) tried) id) (sweep dial ae n (Suc i) (Some message) ts)
            | None \<Rightarrow>
                (case probeTunnelUp (ae_turns (ae i)) (ae_now (ae i)) PROBE_MS of
                   None \<Rightarrow> None
                 | Some up \<Rightarrow>
                     if ae_abortedAfter (ae i) then Some (tried, Inl (Inr Connect_cancelled))
                     else (case up of
                       Some s \<Rightarrow> Some (tried, Inr (t, s))
                     | None \<Rightarrow>
                         map_option (map_prod ((@) tried) id)
                           (sweep dial ae n (Suc i) (Some (tp_type t @ '': no handshake'')) ts)))))"

definition establish ::
  "desktop_env \<Rightarrow> (nat \<Rightarrow> attempt_env) \<Rightarrow> country_option \<Rightarrow> keypair \<Rightarrow> bool \<Rightarrow> transport_mode \<Rightarrow> tier \<Rightarrow>
   (session_call list \<times> (session_error + establish_result)) option" where
  "establish w ae country keypair killSwitch mode tier =
     (let gwTier = resolveGatewayTier w (op_gatewayIp country) (op_signPubKey country) (op_transports country)
                     (kp_publicKey keypair) tier;
          chain = transportFallbackChain (op_transports country) mode DESKTOP_TRANSPORTS gwTier
      in case (if length chain = 0 then map_sum id (\<lambda>_. ()) (requireTransport (op_transports country) mode DESKTOP_TRANSPORTS gwTier)
               else Inr ()) of
           Inl e \<Rightarrow> Some ([], Inl (Transport_refused e))
         | Inr _ \<Rightarrow>
             (let (sent, reply) = enrollOrMock w (op_gatewayIp country) (kp_publicKey keypair) (pin (op_signPubKey country));
                  enrolled = map Enrolled sent
              in case reply of
                   Inl e \<Rightarrow> Some (enrolled, Inl (Enroll_failed e))
                 | Inr reply \<Rightarrow>
                     (case splitForSession w gwTier killSwitch [op_gatewayIp country] of
                        Inl e \<Rightarrow> Some (enrolled, Inl (Policy_error e))
                      | Inr split \<Rightarrow>
                          map_option (\<lambda>(calls, r).
                              case r of
                                Inr (t, up) \<Rightarrow>
                                  (enrolled @ calls, Inr \<lparr>rs_gatewayIp = op_gatewayIp country, rs_enroll = reply,
                                     rs_tunnel = up, rs_transport = t, rs_splitApplied = (split \<noteq> None)\<rparr>)
                              | Inl (Inr e) \<Rightarrow> (enrolled @ calls, Inl e)
                              | Inl (Inl lastError) \<Rightarrow>
                                  (enrolled @ calls @ [Disconnect], Inl (Could_not_connect (map tp_type chain) lastError)))
                            (sweep (attempt_args w country keypair killSwitch reply split) ae (length chain) 0 None chain))))"

section \<open>Two hops\<close>

record multihop_result =
  mr_entryGatewayIp :: string
  mr_exitGatewayIp :: string
  mr_exitSignPubKey :: string
  mr_entryEnroll :: enroll_response
  mr_exitEnroll :: enroll_response
  mr_tunnel :: tunnel_status
  mr_splitApplied :: bool

definition toGatewayInfo :: "country_option \<Rightarrow> gateway_info" where
  "toGatewayInfo country =
     info_response.extend
       \<lparr>ir_country = op_code country, ir_region = [], ir_city = op_city country, ir_load = op_load country,
        ir_capacity = 0, ir_version = [], ir_min_client_version = [], ir_build_commit = None,
        ir_peers_persisted = None, ir_server_pubkey = [], ir_sign_pubkey = op_signPubKey country, ir_transports = None\<rparr>
       (gateway_info.fields (op_gatewayIp country) (''http://'' @ op_gatewayIp country @ '':51821''))"

definition hop_opts :: "route_style \<Rightarrow> country_option \<Rightarrow> country_option \<Rightarrow> select_opts" where
  "hop_opts style entryCountry exitCountry =
     \<lparr>so_entryCountry = Some (op_code entryCountry),
      so_exitCountry = (if style = Multihop_same_country then None else Some (op_code exitCountry)),
      so_entryIps = None, so_exitIps = None, so_requireDistinctSubnet = False\<rparr>"

text \<open>The entry hop speaks AmneziaWG in the stealth mode, and the plain protocol otherwise.\<close>

definition entry_transport ::
  "desktop_env \<Rightarrow> gateway_info \<Rightarrow> string \<Rightarrow> transport_mode \<Rightarrow> tier \<Rightarrow> transport_error + transport option" where
  "entry_transport w entry publicKey mode tier =
     (if mode = Stealth
      then map_sum id Some (requireTransport (ir_transports entry) Stealth [''awg'']
             (resolveGatewayTier w (gw_ip entry) (ir_sign_pubkey entry) (ir_transports entry) publicKey tier))
      else Inr None)"

definition establishMultihop ::
  "desktop_env \<Rightarrow> (multihop_connect_args \<Rightarrow> string + tunnel_status) \<Rightarrow> gateway_info list \<Rightarrow> country_option \<Rightarrow>
   country_option \<Rightarrow> route_style \<Rightarrow> keypair \<Rightarrow> bool \<Rightarrow> transport_mode \<Rightarrow> tier \<Rightarrow>
   session_call list \<times> (session_error + multihop_result)" where
  "establishMultihop w connect fleet entryCountry exitCountry style keypair killSwitch mode tier =
     (let candidates = (if 0 < length fleet then fleet else [toGatewayInfo entryCountry, toGatewayInfo exitCountry])
      in case selectHops candidates style (hop_opts style entryCountry exitCountry) of
           Inl e \<Rightarrow> ([], Inl (No_route e))
         | Inr (entry, None) \<Rightarrow> ([], Inl No_exit_hop)
         | Inr (entry, Some exit) \<Rightarrow>
             (case entry_transport w entry (kp_publicKey keypair) mode tier of
                Inl e \<Rightarrow> ([], Inl (Transport_refused e))
              | Inr entryTransport \<Rightarrow>
                  (let (sent1, r1) = enrollOrMock w (gw_ip entry) (kp_publicKey keypair) (pin (ir_sign_pubkey entry));
                       (sent2, r2) = enrollOrMock w (gw_ip exit) (kp_publicKey keypair) (pin (ir_sign_pubkey exit))
                   in case r1 of
                        Inl e \<Rightarrow> (map Enrolled sent1, Inl (Enroll_failed e))
                      | Inr entryReply \<Rightarrow>
                          (case r2 of
                             Inl e \<Rightarrow> (map Enrolled (sent1 @ sent2), Inl (Enroll_failed e))
                           | Inr exitReply \<Rightarrow>
                               (let cfg = buildMultihopConfig (de_numstr w)
                                      \<lparr>ma_privateKey = kp_privateKey keypair, ma_entry = entryReply, ma_exit = exitReply,
                                       ma_entryTransport = entryTransport, ma_split = None,
                                       ma_dns = Some (dnsServersFor (de_dns w) (er_dns exitReply))\<rparr>
                                in case splitForSession w tier killSwitch [gw_ip entry, gw_ip exit] of
                                     Inl e \<Rightarrow> (map Enrolled (sent1 @ sent2), Inl (Policy_error e))
                                   | Inr split \<Rightarrow>
                                       (let args = \<lparr>mca_entryCountry = ir_country entry, mca_exitCountry = ir_country exit,
                                              mca_outer = mc_outer cfg, mca_inner = mc_inner cfg,
                                              mca_entryEndpoint = mc_entryEndpoint cfg, mca_exitEndpoint = mc_exitEndpoint cfg,
                                              mca_innerMtu = mc_innerMtu cfg, mca_assignedIp = er_assigned_ip exitReply,
                                              mca_killSwitch = killSwitch, mca_split = split\<rparr>;
                                            calls = map Enrolled (sent1 @ sent2) @ [Connect_multihop args]
                                        in case connect args of
                                             Inl m \<Rightarrow> (calls, Inl (Connect_failed m))
                                           | Inr s \<Rightarrow> (calls, Inr
                                               \<lparr>mr_entryGatewayIp = gw_ip entry, mr_exitGatewayIp = gw_ip exit,
                                                mr_exitSignPubKey = ir_sign_pubkey exit, mr_entryEnroll = entryReply,
                                                mr_exitEnroll = exitReply, mr_tunnel = s,
                                                mr_splitApplied = (split \<noteq> None)\<rparr>)))))))"

section \<open>One row for a country\<close>

text \<open>What the loop keeps: one gateway of each country it has seen, the least loaded.\<close>

definition best_of :: "gateway_info list \<Rightarrow> (string \<times> gateway_info) list \<Rightarrow> bool" where
  "best_of gs best \<longleftrightarrow> distinct (map fst best)
     \<and> (\<forall>g\<in>set gs. map_of best (ir_country g) \<noteq> None)
     \<and> (\<forall>c g. map_of best c = Some g \<longrightarrow>
          g \<in> set gs \<and> ir_country g = c \<and> (\<forall>g'\<in>set gs. ir_country g' = c \<longrightarrow> ir_load g \<le> ir_load g'))"

lemma best_of_step:
  assumes "best_of gs best"
  shows "best_of (gs @ [g]) (least_loaded g best)"
proof (cases "map_of best (ir_country g)")
  case None
  with assms have "\<forall>g'\<in>set gs. ir_country g' \<noteq> ir_country g" by (force simp: best_of_def)
  with assms None show ?thesis
    by (auto simp: best_of_def least_loaded_def update_conv distinct_update)
next
  case (Some cur)
  with assms have cur: "cur \<in> set gs" "ir_country cur = ir_country g"
    "\<forall>g'\<in>set gs. ir_country g' = ir_country g \<longrightarrow> ir_load cur \<le> ir_load g'" by (auto simp: best_of_def)
  show ?thesis
  proof (cases "ir_load g < ir_load cur")
    case True
    with cur(3) have "\<forall>g'\<in>set gs. ir_country g' = ir_country g \<longrightarrow> ir_load g \<le> ir_load g'" by (meson less_imp_le order_trans)
    with assms True Some show ?thesis
      by (auto simp: best_of_def least_loaded_def update_conv distinct_update)
  next
    case False
    with assms Some cur show ?thesis
      by (auto simp: best_of_def least_loaded_def simp del: map_of_eq_Some_iff)
  qed
qed

lemma best_of_fold: "best_of gs (fold least_loaded gs [])"
proof (induction gs rule: rev_induct)
  case Nil
  then show ?case by (simp add: best_of_def)
next
  case (snoc g gs)
  then show ?case using best_of_step by simp
qed

lemma country_row_simps [simp]:
  "op_code (country_row rn g) = ir_country g" "op_gatewayIp (country_row rn g) = gw_ip g"
  "op_load (country_row rn g) = ir_load g" "op_signPubKey (country_row rn g) = ir_sign_pubkey g"
  "op_transports (country_row rn g) = ir_transports g"
  by (simp_all add: country_row_def Let_def)

lemma country_rows:
  fixes gateways :: "gateway_info list" and rn :: "string \<Rightarrow> string option" and collate :: "string \<Rightarrow> string"
  defines "rows \<equiv> toCountryOptions rn collate gateways"
  shows "distinct (map op_code rows)" and "op_code ` set rows = ir_country ` set gateways"
    and "r \<in> set rows \<Longrightarrow> \<exists>g\<in>set gateways. r = country_row rn g
      \<and> (\<forall>g'\<in>set gateways. ir_country g' = ir_country g \<longrightarrow> ir_load g \<le> ir_load g')"
proof -
  let ?best = "fold least_loaded gateways []"
  have b: "best_of gateways ?best" by (rule best_of_fold)
  then have key: "ir_country g = c" if "(c, g) \<in> set ?best" for c g
    using that by (auto simp: best_of_def)
  have set_rows: "set rows = (\<lambda>(_, g). country_row rn g) ` set ?best" by (simp add: rows_def toCountryOptions_def)
  have codes: "map op_code (map (\<lambda>(_, g). country_row rn g) ?best) = map fst ?best"
    using key by (auto simp: case_prod_unfold)
  have "distinct (map op_code (map (\<lambda>(_, g). country_row rn g) ?best))"
    unfolding codes using b by (simp add: best_of_def)
  then show "distinct (map op_code rows)" unfolding rows_def toCountryOptions_def distinct_map_sort .
  have mem: "map_of ?best c = Some g \<longleftrightarrow> (c, g) \<in> set ?best" for c g
    using b by (simp add: best_of_def)
  show row: "\<exists>g\<in>set gateways. r = country_row rn g
      \<and> (\<forall>g'\<in>set gateways. ir_country g' = ir_country g \<longrightarrow> ir_load g \<le> ir_load g')" if "r \<in> set rows" for r
  proof -
    obtain c g where "(c, g) \<in> set ?best" "r = country_row rn g" using \<open>r \<in> set rows\<close> by (auto simp: set_rows)
    with b mem [of c g] show ?thesis by (auto simp: best_of_def)
  qed
  show "op_code ` set rows = ir_country ` set gateways"
  proof
    show "op_code ` set rows \<subseteq> ir_country ` set gateways" using row by fastforce
    show "ir_country ` set gateways \<subseteq> op_code ` set rows"
    proof
      fix c assume "c \<in> ir_country ` set gateways"
      then obtain g where "map_of ?best c = Some g" using b by (fastforce simp: best_of_def)
      then have "(c, g) \<in> set ?best" by (rule map_of_SomeD)
      with key [OF this] show "c \<in> op_code ` set rows" by (force simp: set_rows)
    qed
  qed
qed

section \<open>The wait ends\<close>

lemma probe_answers:
  assumes "probeTunnelUp turns now budget = Some (Some s)"
  shows "tunnel_answers s"
proof -
  have "\<forall>s. up = Some s \<longrightarrow> tunnel_answers s" if "probe_loop turns deadline i = Some up" for turns deadline i up
  proof (rule probe_loop.raw_induct [OF _ that, where P = "\<lambda>ts d i up. \<forall>s. up = Some s \<longrightarrow> tunnel_answers s"])
    fix loop turns deadline i up
    assume "\<And>turns deadline i up. loop turns deadline i = Some up \<Longrightarrow> \<forall>s. up = Some s \<longrightarrow> tunnel_answers s"
      and "(if tu_aborted (turns i) then Some None
            else case tu_status (turns i) of None \<Rightarrow> Some None
              | Some s \<Rightarrow> if tunnel_answers s then Some (Some s)
                  else if ts_state s = T_error \<or> ts_state s = T_down then Some None
                  else if deadline \<le> tu_now (turns i) then Some None else loop turns deadline (Suc i)) = Some up"
    then show "\<forall>s. up = Some s \<longrightarrow> tunnel_answers s"
      by (auto split: if_splits option.splits)
  qed
  from this [OF assms [unfolded probeTunnelUp_def]] show ?thesis by simp
qed

text \<open>Each turn but the first comes after a wait of the interval.\<close>

definition clock_runs :: "millis \<Rightarrow> (nat \<Rightarrow> turn) \<Rightarrow> bool" where
  "clock_runs now turns \<longleftrightarrow> (\<forall>i. now + PROBE_INTERVAL_MS * int i \<le> tu_now (turns i))"

lemma probe_loop_ends:
  assumes "i \<le> j" and "deadline \<le> tu_now (turns j)"
  shows "\<exists>up. probe_loop turns deadline i = Some up"
  using assms(1)
proof (induction i rule: inc_induct)
  case base
  then show ?case using assms(2) by (subst probe_loop.simps) (simp split: option.split)
next
  case (step i)
  then show ?case by (subst probe_loop.simps) (simp split: option.split)
qed

lemma probe_ends:
  assumes "clock_runs now turns"
  shows "\<exists>up. probeTunnelUp turns now PROBE_MS = Some up"
  using assms unfolding probeTunnelUp_def
  by (intro probe_loop_ends [of _ 15]) (auto simp: clock_runs_def PROBE_MS_def PROBE_INTERVAL_MS_def dest: spec [of _ 15])

section \<open>What a sweep does\<close>

fun tries :: "(transport \<Rightarrow> connect_args) \<Rightarrow> nat \<Rightarrow> nat \<Rightarrow> transport list \<Rightarrow> session_call list" where
  "tries dial n i [] = []"
| "tries dial n i (t # ts) = Attempt t i n # Connect (dial t) # tries dial n (Suc i) ts"

lemma tries_calls:
  "Disconnect \<notin> set (tries dial n i ts)"
  "Connect a \<in> set (tries dial n i ts) \<longleftrightarrow> a \<in> dial ` set ts"
  "Enrolled q \<notin> set (tries dial n i ts)"
  by (induction ts arbitrary: i) auto

text \<open>
  The transports are tried in the order of the chain, none left out, and the sweep ends at the
  first that answers, at the first failure that is not the transport's, or when it is cancelled.
\<close>

definition sweep_spec ::
  "(transport \<Rightarrow> connect_args) \<Rightarrow> (nat \<Rightarrow> attempt_env) \<Rightarrow> nat \<Rightarrow> nat \<Rightarrow> transport list \<Rightarrow> session_call list \<Rightarrow>
   (string option + session_error) + transport \<times> tunnel_status \<Rightarrow> bool" where
  "sweep_spec dial ae n i ts calls r \<longleftrightarrow>
     (\<exists>k\<le>length ts. calls = tries dial n i (take k ts)
        \<and> (\<forall>j<k. \<not> ae_abortedBefore (ae (i + j)))
        \<and> (case r of
             Inl (Inl e) \<Rightarrow> k = length ts
           | Inl (Inr e) \<Rightarrow> e = Connect_cancelled \<or> (\<exists>m. e = Connect_failed m \<and> \<not> isTransportLevelFailure m)
           | Inr (t, s) \<Rightarrow> 0 < k \<and> t = ts ! (k - 1) \<and> tunnel_answers s
               \<and> \<not> ae_abortedAfter (ae (i + k - 1)) \<and> ae_connectError (ae (i + k - 1)) = None))"

lemma sweep_spec_Cons:
  assumes "sweep_spec dial ae n (Suc i) ts calls r" and "\<not> ae_abortedBefore (ae i)"
  shows "sweep_spec dial ae n i (t # ts) ([Attempt t i n, Connect (dial t)] @ calls) r"
proof -
  obtain k where k: "k \<le> length ts" "calls = tries dial n (Suc i) (take k ts)"
    "\<forall>j<k. \<not> ae_abortedBefore (ae (Suc i + j))"
    and r: "case r of
             Inl (Inl e) \<Rightarrow> k = length ts
           | Inl (Inr e) \<Rightarrow> e = Connect_cancelled \<or> (\<exists>m. e = Connect_failed m \<and> \<not> isTransportLevelFailure m)
           | Inr (t, s) \<Rightarrow> 0 < k \<and> t = ts ! (k - 1) \<and> tunnel_answers s
               \<and> \<not> ae_abortedAfter (ae (Suc i + k - 1)) \<and> ae_connectError (ae (Suc i + k - 1)) = None"
    using assms(1) by (auto simp: sweep_spec_def)
  have "\<not> ae_abortedBefore (ae (i + j))" if "j < Suc k" for j
    using assms(2) k(3) that by (cases j) auto
  with k r show ?thesis unfolding sweep_spec_def
    by (intro exI [of _ "Suc k"]) (auto split: sum.splits prod.splits simp: nth_Cons')
qed

lemma sweep_meets_spec:
  "sweep dial ae n i e ts = Some (calls, r) \<Longrightarrow> sweep_spec dial ae n i ts calls r"
proof (induction dial ae n i e ts arbitrary: calls r rule: sweep.induct)
  case (1 dial ae n i e)
  then show ?case by (auto simp: sweep_spec_def)
next
  case (2 dial ae n i e t ts)
  have stop: "sweep_spec dial ae n i (t # ts) [Attempt t i n, Connect (dial t)] r"
    if "\<not> ae_abortedBefore (ae i)" "case r of Inl (Inl x) \<Rightarrow> False
        | Inl (Inr x) \<Rightarrow> x = Connect_cancelled \<or> (\<exists>m. x = Connect_failed m \<and> \<not> isTransportLevelFailure m)
        | Inr (t', s) \<Rightarrow> t' = t \<and> tunnel_answers s \<and> \<not> ae_abortedAfter (ae i) \<and> ae_connectError (ae i) = None"
    using that unfolding sweep_spec_def
    by (intro exI [of _ 1]) (auto split: sum.splits prod.splits)
  show ?case
  proof (cases "ae_abortedBefore (ae i)")
    case True
    with 2 show ?thesis by (auto simp: sweep_spec_def)
  next
    case False
    have go: "sweep_spec dial ae n i (t # ts) ([Attempt t i n, Connect (dial t)] @ cs) r"
      if "sweep_spec dial ae n (Suc i) ts cs r" for cs using that False by (rule sweep_spec_Cons)
    show ?thesis
    proof (cases "ae_connectError (ae i)")
      case (Some m)
      with 2 False stop go show ?thesis by (auto simp: Let_def split: if_splits)
    next
      case None
      with 2(3) False obtain up where up: "probeTunnelUp (ae_turns (ae i)) (ae_now (ae i)) PROBE_MS = Some up"
        by (auto simp: Let_def split: option.splits)
      with 2 False None stop go probe_answers [of "ae_turns (ae i)" "ae_now (ae i)" PROBE_MS]
      show ?thesis by (auto simp: Let_def split: if_splits option.splits)
    qed
  qed
qed

lemma sweep_ends:
  assumes "\<And>j. clock_runs (ae_now (ae j)) (ae_turns (ae j))"
  shows "sweep dial ae n i e ts \<noteq> None"
proof (induction ts arbitrary: i e)
  case (Cons t ts)
  obtain up where "probeTunnelUp (ae_turns (ae i)) (ae_now (ae i)) PROBE_MS = Some up" using probe_ends [OF assms] by blast
  moreover have "sweep dial ae n (Suc i) e' ts \<noteq> None" for e' by (rule Cons.IH)
  ultimately show ?case by (simp add: Let_def del: not_None_eq split: option.split)
qed simp

section \<open>What bringing a tunnel up does\<close>

definition gateway_tier :: "desktop_env \<Rightarrow> country_option \<Rightarrow> keypair \<Rightarrow> tier \<Rightarrow> tier" where
  "gateway_tier w country keypair tier =
     resolveGatewayTier w (op_gatewayIp country) (op_signPubKey country) (op_transports country) (kp_publicKey keypair) tier"

definition session_chain :: "desktop_env \<Rightarrow> country_option \<Rightarrow> keypair \<Rightarrow> transport_mode \<Rightarrow> tier \<Rightarrow> transport list" where
  "session_chain w country keypair mode tier =
     transportFallbackChain (op_transports country) mode DESKTOP_TRANSPORTS (gateway_tier w country keypair tier)"

lemma enrollOrMock_once: "enrollOrMock w ip k p = (sent, r) \<Longrightarrow> length sent \<le> 1"
  by (auto simp: enrollOrMock_def split: if_splits prod.splits)

text \<open>
  The trace of a session: an enrolment, then the attempts of a beginning of the chain; a
  teardown only behind the whole chain, when no transport has answered.
\<close>

lemma establish_shape:
  assumes "establish w ae country keypair killSwitch mode tier = Some (calls, r)"
  obtains sent k reply split where
    "calls = map Enrolled sent @ tries (attempt_args w country keypair killSwitch reply split)
        (length (session_chain w country keypair mode tier)) 0 (take k (session_chain w country keypair mode tier))
      @ (if \<exists>ts e. r = Inl (Could_not_connect ts e) then [Disconnect] else [])"
    and "length sent \<le> 1" and "k \<le> length (session_chain w country keypair mode tier)"
    and "0 < k \<Longrightarrow> splitForSession w (gateway_tier w country keypair tier) killSwitch [op_gatewayIp country] = Inr split"
    and "\<And>ts e. r = Inl (Could_not_connect ts e) \<Longrightarrow> k = length (session_chain w country keypair mode tier)"
    and "\<And>res. r = Inr res \<Longrightarrow> 0 < k \<and> rs_transport res = session_chain w country keypair mode tier ! (k - 1)
        \<and> tunnel_answers (rs_tunnel res) \<and> (rs_splitApplied res \<longleftrightarrow> split \<noteq> None) \<and> rs_enroll res = reply
        \<and> \<not> ae_abortedAfter (ae (k - 1))"
    and "\<forall>j<k. \<not> ae_abortedBefore (ae j)"
proof -
  let ?chain = "session_chain w country keypair mode tier"
  let ?tier = "gateway_tier w country keypair tier"
  note main = that
  obtain sent x where en: "enrollOrMock w (op_gatewayIp country) (kp_publicKey keypair) (pin (op_signPubKey country)) = (sent, x)"
    by fastforce
  note defs = establish_def gateway_tier_def [symmetric] session_chain_def [symmetric]
  have early: thesis if "calls = map Enrolled sent'" "length sent' \<le> 1" "r = Inl e" "\<And>ts l. e \<noteq> Could_not_connect ts l" for sent' e
    using that by (intro main [where sent = sent' and k = 0]) auto
  show thesis
  proof (cases "if length ?chain = 0 then map_sum id (\<lambda>_. ()) (requireTransport (op_transports country) mode DESKTOP_TRANSPORTS ?tier) else Inr ()")
    case (Inl e)
    with assms show thesis by (intro early [of "[]" "Transport_refused e"]) (auto simp: defs Let_def)
  next
    case go: (Inr u)
    show thesis
    proof (cases x)
      case (Inl e)
      with assms go en enrollOrMock_once [OF en] show thesis
        by (intro early [of sent "Enroll_failed e"]) (auto simp: defs Let_def)
    next
      case reply: (Inr reply)
      show thesis
      proof (cases "splitForSession w ?tier killSwitch [op_gatewayIp country]")
        case (Inl e)
        with assms go en reply enrollOrMock_once [OF en] show thesis
          by (intro early [of sent "Policy_error e"]) (auto simp: defs Let_def)
      next
        case split: (Inr split)
        let ?dial = "attempt_args w country keypair killSwitch reply split"
        from assms go en reply split obtain cs y where sw: "sweep ?dial ae (length ?chain) 0 None ?chain = Some (cs, y)"
          and out: "(case y of
                Inr (t, up) \<Rightarrow> (map Enrolled sent @ cs, Inr \<lparr>rs_gatewayIp = op_gatewayIp country, rs_enroll = reply,
                    rs_tunnel = up, rs_transport = t, rs_splitApplied = (split \<noteq> None)\<rparr>)
              | Inl (Inr e) \<Rightarrow> (map Enrolled sent @ cs, Inl e)
              | Inl (Inl l) \<Rightarrow> (map Enrolled sent @ cs @ [Disconnect], Inl (Could_not_connect (map tp_type ?chain) l)))
            = (calls, r)"
          by (auto simp: defs Let_def simp del: not_None_eq)
        obtain k where k: "k \<le> length ?chain" "cs = tries ?dial (length ?chain) 0 (take k ?chain)"
          "\<forall>j<k. \<not> ae_abortedBefore (ae j)"
          and y: "case y of Inl (Inl e) \<Rightarrow> k = length ?chain
             | Inl (Inr e) \<Rightarrow> e = Connect_cancelled \<or> (\<exists>m. e = Connect_failed m \<and> \<not> isTransportLevelFailure m)
             | Inr (t, s) \<Rightarrow> 0 < k \<and> t = ?chain ! (k - 1) \<and> tunnel_answers s
                 \<and> \<not> ae_abortedAfter (ae (k - 1)) \<and> ae_connectError (ae (k - 1)) = None"
          using sweep_meets_spec [OF sw] unfolding sweep_spec_def add_0 by blast
        show thesis
          using k y out split enrollOrMock_once [OF en]
          by (intro main [where sent = sent and k = k and reply = reply and split = split]) (auto split: sum.splits prod.splits)
      qed
    qed
  qed
qed

lemma establish_ends:
  assumes "\<And>j. clock_runs (ae_now (ae j)) (ae_turns (ae j))"
  shows "establish w ae country keypair killSwitch mode tier \<noteq> None"
  using sweep_ends [of ae, OF assms]
  by (simp add: establish_def Let_def del: not_None_eq split: sum.split prod.split)

definition enrolments :: "session_call list \<Rightarrow> nat" where
  "enrolments calls = length (filter (\<lambda>c. case c of Enrolled _ \<Rightarrow> True | _ \<Rightarrow> False) calls)"

lemma enrolments_simps [simp]:
  "enrolments [] = 0" "enrolments (xs @ ys) = enrolments xs + enrolments ys"
  "enrolments (map Enrolled qs) = length qs" "enrolments (tries dial n i ts) = 0" "enrolments [Disconnect] = 0"
proof -
  show "enrolments (map Enrolled qs) = length qs" by (induction qs) (auto simp: enrolments_def)
  show "enrolments (tries dial n i ts) = 0" by (induction ts arbitrary: i) (auto simp: enrolments_def)
qed (simp_all add: enrolments_def)

text \<open>A transport that is tried is one the gateway advertises, the mode prefers and the tier allows.\<close>

lemma chain_usable:
  assumes "t \<in> set (session_chain w country keypair mode tier)"
  shows "t \<in> set (advertisedOrLegacy (op_transports country))"
    and "usable_transport mode DESKTOP_TRANSPORTS (gateway_tier w country keypair tier) t"
    and "mode = Stealth \<Longrightarrow> tp_type t \<noteq> ''wg''"
  using assms by (auto simp: session_chain_def set_chain usable_transport_def PREFERENCE_def)

lemma split_premium: "splitForSession w gwTier killSwitch ips = Inr (Some a) \<Longrightarrow>
    gwTier = Premium \<and> (killSwitch \<longrightarrow> sa_tunnelRoutes a = [])"
  by (auto simp: splitForSession_def split: if_splits sum.splits)

lemma attempt_args_simps [simp]:
  "ca_split (attempt_args w country keypair killSwitch reply split t) = split"
  "ca_killSwitch (attempt_args w country keypair killSwitch reply split t) = killSwitch"
  "ca_endpoint (attempt_args w country keypair killSwitch reply split t)
    = stripEndpointPort (er_endpoint reply) @ '':'' @ de_numstr w (tp_port t)"
  by (simp_all add: attempt_args_def applyTransportToEndpoint_def Let_def)

lemma establish_safe:
  assumes run: "establish w ae country keypair killSwitch mode tier = Some (calls, r)"
  shows "enrolments calls \<le> 1"
    and "Connect a \<in> set calls \<Longrightarrow> \<exists>t reply split. a = attempt_args w country keypair killSwitch reply split t
        \<and> t \<in> set (session_chain w country keypair mode tier)
        \<and> splitForSession w (gateway_tier w country keypair tier) killSwitch [op_gatewayIp country] = Inr split"
    and "Disconnect \<in> set calls \<longleftrightarrow> (\<exists>ts e. r = Inl (Could_not_connect ts e))"
    and "r = Inr res \<Longrightarrow> tunnel_answers (rs_tunnel res)
        \<and> (\<exists>a reply split. last calls = Connect a \<and> a = attempt_args w country keypair killSwitch reply split (rs_transport res)
             \<and> rs_enroll res = reply \<and> (rs_splitApplied res \<longleftrightarrow> ca_split a \<noteq> None))"
proof -
  let ?chain = "session_chain w country keypair mode tier"
  obtain sent k reply split where sh:
    "calls = map Enrolled sent @ tries (attempt_args w country keypair killSwitch reply split) (length ?chain) 0 (take k ?chain)
      @ (if \<exists>ts e. r = Inl (Could_not_connect ts e) then [Disconnect] else [])"
    "length sent \<le> 1" "k \<le> length ?chain"
    "0 < k \<Longrightarrow> splitForSession w (gateway_tier w country keypair tier) killSwitch [op_gatewayIp country] = Inr split"
    "\<And>ts e. r = Inl (Could_not_connect ts e) \<Longrightarrow> k = length ?chain"
    "\<And>res. r = Inr res \<Longrightarrow> 0 < k \<and> rs_transport res = ?chain ! (k - 1) \<and> tunnel_answers (rs_tunnel res)
        \<and> (rs_splitApplied res \<longleftrightarrow> split \<noteq> None) \<and> rs_enroll res = reply \<and> \<not> ae_abortedAfter (ae (k - 1))"
    "\<forall>j<k. \<not> ae_abortedBefore (ae j)"
    by (rule establish_shape [OF run]) (rule that; simp)
  show "enrolments calls \<le> 1" using sh(2) by (simp add: sh(1))
  show "Disconnect \<in> set calls \<longleftrightarrow> (\<exists>ts e. r = Inl (Could_not_connect ts e))"
    by (auto simp: sh(1) tries_calls)
  show "\<exists>t reply split. a = attempt_args w country keypair killSwitch reply split t \<and> t \<in> set ?chain
        \<and> splitForSession w (gateway_tier w country keypair tier) killSwitch [op_gatewayIp country] = Inr split"
    if "Connect a \<in> set calls"
  proof -
    from that have "a \<in> attempt_args w country keypair killSwitch reply split ` set (take k ?chain)"
      by (auto simp: sh(1) tries_calls split: if_splits)
    then show ?thesis using sh(4) by (cases k) (auto dest: in_set_takeD)
  qed
  show "tunnel_answers (rs_tunnel res)
        \<and> (\<exists>a reply split. last calls = Connect a \<and> a = attempt_args w country keypair killSwitch reply split (rs_transport res)
             \<and> rs_enroll res = reply \<and> (rs_splitApplied res \<longleftrightarrow> ca_split a \<noteq> None))" if "r = Inr res"
  proof -
    have ne: "tries d n i ts = [] \<longleftrightarrow> ts = []" for d n i ts by (cases ts) auto
    have "last (tries d n i ts) = Connect (d (last ts))" if "ts \<noteq> []" for d n i ts
      using that by (induction ts arbitrary: i) (auto simp: ne)
    moreover have tk: "take k ?chain \<noteq> []" using sh(3) sh(6) [OF that] by auto
    moreover have "last (take k ?chain) = rs_transport res"
      using sh(3) sh(6) [OF that] by (simp add: last_conv_nth [OF tk])
    ultimately show ?thesis using sh(6) [OF that] that by (auto simp: sh(1) ne)
  qed
qed

section \<open>The split of a session\<close>

abbreviation session_ctx :: "desktop_env \<Rightarrow> string list \<Rightarrow> compile_ctx" where
  "session_ctx w ips \<equiv> \<lparr>cc_platform = desktopPlatform (de_userAgent w), cc_supportsExcludeRoute = True, cc_endpointIps = ips\<rparr>"

lemma split_never_fails:
  assumes "policy_wf (de_policy w)"
  shows "\<exists>a. splitForSession w gwTier killSwitch ips = Inr a"
  using compile_total [OF assms, of "session_ctx w ips"] by (auto simp: splitForSession_def split: sum.split)

text \<open>What is bypassed is what an exclude policy and the LAN ask for, and no gateway of the session but by the LAN.\<close>

lemma split_exclude:
  assumes "policy_wf (de_policy w)" and "po_mode (de_policy w) \<noteq> Include"
    and "splitForSession w gwTier killSwitch ips = Inr (Some a)"
  shows "routes f (sa_bypassRoutes a) = bypass_area f (de_policy w) (session_ctx w ips)"
    and "routes f (sa_tunnelRoutes a) = {}"
    and "ep \<in> set ips \<Longrightarrow> parseCidr ep = Some e \<Longrightarrow> c_net e \<in> routes (c_family e) (sa_bypassRoutes a)
      \<Longrightarrow> c_net e \<in> lan_routes (c_family e) (de_policy w)"
proof -
  obtain co where co: "compileSplitPolicy (de_policy w) (session_ctx w ips) = Inr co" "\<not> co_isNoop co"
    "a = \<lparr>sa_bypassRoutes = co_bypassRoutes co, sa_tunnelRoutes = co_tunnelRoutes co\<rparr>"
    using assms(3) by (auto simp: splitForSession_def split: if_splits sum.splits)
  have "po_mode (de_policy w) = Exclude \<or> po_mode (de_policy w) = Off \<and> po_lanBypass (de_policy w)"
    using assms(2) co(1,2) by (cases "po_mode (de_policy w)") (auto simp: compileSplitPolicy_def NOOP_SPLIT_def split: if_splits)
  from compile_exclude_exact [OF assms(1) this, of "session_ctx w ips"] co
  have exact: "routes f (sa_bypassRoutes a) = bypass_area f (de_policy w) (session_ctx w ips)" "routes f (sa_tunnelRoutes a) = {}" for f
    by auto
  show "routes f (sa_bypassRoutes a) = bypass_area f (de_policy w) (session_ctx w ips)" "routes f (sa_tunnelRoutes a) = {}"
    by (rule exact)+
  show "c_net e \<in> lan_routes (c_family e) (de_policy w)"
    if "ep \<in> set ips" "parseCidr ep = Some e" "c_net e \<in> routes (c_family e) (sa_bypassRoutes a)"
    using that(3) endpoint_kept_out [of ep "session_ctx w ips" e "de_policy w"] that(1,2)
    by (auto simp: exact bypass_area_def split: if_splits)
qed

section \<open>What two hops are\<close>

lemma hops_of_route:
  assumes "selectHops gws style opts = Inr (a, Some b)"
  shows "style \<noteq> Single \<and> route_ok gws style opts a b"
proof -
  have "style \<noteq> Single" using assms selectHops_single [of gws opts] by (cases style) auto
  with selectHops_multi [OF this, of gws opts] assms show ?thesis by auto
qed

lemma establishMultihop_safe:
  assumes run: "establishMultihop w connect fleet entryCountry exitCountry style keypair killSwitch mode tier = (calls, r)"
    and "Connect_multihop a \<in> set calls"
  obtains gws entry exit split where
    "gws = (if 0 < length fleet then fleet else [toGatewayInfo entryCountry, toGatewayInfo exitCountry])"
    and "entry \<in> set gws" and "exit \<in> set gws" and "gw_ip entry \<noteq> gw_ip exit"
    and "style = Multihop_same_country \<and> ir_country entry = ir_country exit
       \<or> style = Multihop_cross_jurisdiction \<and> ir_country entry \<noteq> ir_country exit"
    and "mca_entryCountry a = ir_country entry" and "mca_exitCountry a = ir_country exit"
    and "mca_killSwitch a = killSwitch" and "mca_split a = split"
    and "splitForSession w tier killSwitch [gw_ip entry, gw_ip exit] = Inr split"
    and "mode = Stealth \<Longrightarrow> \<exists>t\<in>set (advertisedOrLegacy (ir_transports entry)). tp_type t = ''awg''
       \<and> entry_transport w entry (kp_publicKey keypair) mode tier = Inr (Some t)"
proof -
  let ?gws = "if 0 < length fleet then fleet else [toGatewayInfo entryCountry, toGatewayInfo exitCountry]"
  note defs = establishMultihop_def Let_def
  obtain entry x where h: "selectHops ?gws style (hop_opts style entryCountry exitCountry) = Inr (entry, x)"
    using assms by (auto simp: defs split: sum.splits)
  then obtain exit where x: "x = Some exit"
    using assms by (cases x) (auto simp: defs)
  note hops = h [unfolded x]
  obtain et where et: "entry_transport w entry (kp_publicKey keypair) mode tier = Inr et"
    using assms hops by (auto simp: defs split: sum.splits)
  obtain sent1 r1 sent2 r2 where en: "enrollOrMock w (gw_ip entry) (kp_publicKey keypair) (pin (ir_sign_pubkey entry)) = (sent1, r1)"
    "enrollOrMock w (gw_ip exit) (kp_publicKey keypair) (pin (ir_sign_pubkey exit)) = (sent2, r2)" by fastforce
  obtain e1 e2 where replies: "r1 = Inr e1" "r2 = Inr e2"
    using assms hops et en by (cases r1; cases r2) (auto simp: defs)
  obtain split where split: "splitForSession w tier killSwitch [gw_ip entry, gw_ip exit] = Inr split"
    using assms hops et en replies by (auto simp: defs split: sum.splits)
  have a: "mca_entryCountry a = ir_country entry" "mca_exitCountry a = ir_country exit" "mca_killSwitch a = killSwitch" "mca_split a = split"
    using assms hops et en replies split by (auto simp: defs split: sum.splits)
  from hops_of_route [OF hops] have style: "style \<noteq> Single" and ok: "route_ok ?gws style (hop_opts style entryCountry exitCountry) entry exit"
    by blast+
  note d = route_ok_distinct [OF ok]
  have "entry \<in> set ?gws" "exit \<in> set ?gws" using ok by (simp_all add: route_ok_def)
  moreover have "style = Multihop_same_country \<and> ir_country entry = ir_country exit
       \<or> style = Multihop_cross_jurisdiction \<and> ir_country entry \<noteq> ir_country exit"
    using d(2,3) style by (cases style) auto
  moreover have "\<exists>t\<in>set (advertisedOrLegacy (ir_transports entry)). tp_type t = ''awg''
       \<and> entry_transport w entry (kp_publicKey keypair) mode tier = Inr (Some t)" if "mode = Stealth"
  proof -
    note stealth = that
    obtain t where t: "et = Some t" "requireTransport (ir_transports entry) Stealth [''awg'']
        (resolveGatewayTier w (gw_ip entry) (ir_sign_pubkey entry) (ir_transports entry) (kp_publicKey keypair) tier) = Inr t"
      using et stealth by (cases "requireTransport (ir_transports entry) Stealth [''awg'']
        (resolveGatewayTier w (gw_ip entry) (ir_sign_pubkey entry) (ir_transports entry) (kp_publicKey keypair) tier)") (auto simp: entry_transport_def)
    from select_Some(1,2) [OF t(2) [unfolded require_Inr]] et t(1) show ?thesis by (auto simp: usable_transport_def)
  qed
  ultimately show thesis using that [OF refl _ _ d(1)] a split by metis
qed

end
