(* ===== verification/Connection.thy ===== *)
theory Connection
  imports Session
begin

text \<open>
  The hook around which the window of the desktop client is built
  (clients/desktop/src/hooks/useConnection.ts), as a transition system. A state holds the state
  and the references of the hook, the operations in flight, the pending timer of a reconnect and
  what has been asked of the native tunnel. An event is an action of the user, a timer that
  fires, or the end of something that was awaited; behind it run the effects whose dependencies
  it has changed. Two values that are equal count as the same dependency.
\<close>

section \<open>State\<close>

datatype phase = Loading | Idle | Connecting | Connected | Failed

record entitlement =
  en_tier :: tier
  en_paidUntil :: string
  en_bytesUsed :: rat

text \<open>An operation in flight: over one hop, with the number of its signal, or over two, which has none.\<close>

datatype operation = Single_hop nat | Two_hops nat

text \<open>What is asked of the session, in order.\<close>

datatype hook_call =
    Call_establish nat country_option bool transport_mode tier
  | Call_multihop nat country_option country_option route_style bool transport_mode tier
  | Call_teardown

record conn =
  cn_phase :: phase
  cn_countries :: "country_option list"
  cn_fleet :: "gateway_info list"
  cn_selected :: "country_option option"
  cn_exit :: "country_option option"
  cn_tunnel :: tunnel_status
  cn_entitlement :: "entitlement option"
  cn_splitActive :: bool
  cn_tier :: tier
  cn_sweep :: "nat option"
  cn_error :: "string option"
  cn_multihop :: bool
  cn_routeStyle :: route_style
  cn_transportMode :: transport_mode
  cn_killSwitch :: bool
  cn_autoConnect :: bool
  cn_autoConnected :: bool
  cn_connectedSince :: "millis option"
  cn_wasConnected :: bool
  cn_attempts :: nat
  cn_helperState :: helper_registration
  cn_favorites :: "string list"
  cn_timer :: "millis option"
  cn_running :: "operation list"
  cn_aborted :: "nat list"
  cn_fresh :: nat
  cn_teardowns :: nat
  cn_polls :: nat
  cn_calls :: "hook_call list"
  cn_store :: local_store

text \<open>The delays of a reconnect, in milliseconds.\<close>

definition RECONNECT_DELAYS_MS :: "millis list" where
  "RECONNECT_DELAYS_MS = [5000, 10000, 20000, 40000, 60000, 60000]"

definition reattachPhase :: "tunnel_status \<Rightarrow> phase option" where
  "reattachPhase status =
     (case ts_state status of
        T_up \<Rightarrow> Some Connected | T_connecting \<Rightarrow> Some Connected | T_error \<Rightarrow> Some Failed | T_down \<Rightarrow> None)"

definition dnsWarningOf :: "phase \<Rightarrow> tunnel_status \<Rightarrow> string option" where
  "dnsWarningOf phase tunnel = (if phase = Connected then ts_dnsWarning tunnel else None)"

definition setting :: "string \<Rightarrow> local_store \<Rightarrow> string option" where
  "setting key st = safeGet key st"

definition hook_init :: "local_store \<Rightarrow> conn" where
  "hook_init st =
     \<lparr>cn_phase = Loading, cn_countries = [], cn_fleet = [], cn_selected = None, cn_exit = None, cn_tunnel = DOWN,
      cn_entitlement = None, cn_splitActive = False, cn_tier = Free, cn_sweep = None, cn_error = None,
      cn_multihop = False, cn_routeStyle = Multihop_same_country,
      cn_transportMode = (if setting ''cvpn.transportMode'' st = Some ''stealth'' then Stealth else Auto),
      cn_killSwitch = (setting ''cvpn.killSwitch'' st \<noteq> Some ''0''),
      cn_autoConnect = (setting ''cvpn.autoConnect'' st = Some ''1''),
      cn_autoConnected = False, cn_connectedSince = None, cn_wasConnected = False, cn_attempts = 0,
      cn_helperState = Not_needed,
      cn_favorites = filter (\<lambda>c. c \<noteq> []) (split_on CHR '','' (the_default [] (setting ''cvpn.favorites'' st))),
      cn_timer = None, cn_running = [], cn_aborted = [], cn_fresh = 0, cn_teardowns = 0, cn_polls = 0,
      cn_calls = [], cn_store = st\<rparr>"

section \<open>What the user does\<close>

definition find_code :: "string \<Rightarrow> country_option list \<Rightarrow> country_option option" where
  "find_code code cs = find (\<lambda>c. op_code c = code) cs"

definition hook_select :: "string \<Rightarrow> conn \<Rightarrow> conn" where
  "hook_select code s =
     (case find_code code (cn_countries s) of
        None \<Rightarrow> s
      | Some next \<Rightarrow> s\<lparr>cn_selected := Some next, cn_store := saveSelectedCountry code (cn_store s)\<rparr>)"

definition selectExit :: "string \<Rightarrow> conn \<Rightarrow> conn" where
  "selectExit code s =
     (case find_code code (cn_countries s) of None \<Rightarrow> s | Some next \<Rightarrow> s\<lparr>cn_exit := Some next\<rparr>)"

definition mode_text :: "transport_mode \<Rightarrow> string" where
  "mode_text m = (case m of Auto \<Rightarrow> ''auto'' | Speed \<Rightarrow> ''speed'' | Stealth \<Rightarrow> ''stealth'')"

definition setTransportMode :: "transport_mode \<Rightarrow> conn \<Rightarrow> conn" where
  "setTransportMode mode s =
     s\<lparr>cn_transportMode := mode, cn_store := safeSet ''cvpn.transportMode'' (mode_text mode) (cn_store s)\<rparr>"

definition setKillSwitch :: "bool \<Rightarrow> conn \<Rightarrow> conn" where
  "setKillSwitch on s =
     s\<lparr>cn_killSwitch := on, cn_store := safeSet ''cvpn.killSwitch'' (if on then ''1'' else ''0'') (cn_store s)\<rparr>"

definition setAutoConnect :: "bool \<Rightarrow> conn \<Rightarrow> conn" where
  "setAutoConnect on s =
     s\<lparr>cn_autoConnect := on, cn_store := safeSet ''cvpn.autoConnect'' (if on then ''1'' else ''0'') (cn_store s)\<rparr>"

definition toggleFavorite :: "string \<Rightarrow> conn \<Rightarrow> conn" where
  "toggleFavorite code s =
     (let next = (if code \<in> set (cn_favorites s) then filter (\<lambda>c. c \<noteq> code) (cn_favorites s)
                  else cn_favorites s @ [code])
      in s\<lparr>cn_favorites := next, cn_store := safeSet ''cvpn.favorites'' (join '','' next) (cn_store s)\<rparr>)"

definition abort_sweep :: "conn \<Rightarrow> conn" where
  "abort_sweep s = s\<lparr>cn_aborted := (case cn_sweep s of None \<Rightarrow> [] | Some i \<Rightarrow> [i]) @ cn_aborted s\<rparr>"

definition hook_connect :: "conn \<Rightarrow> conn" where
  "hook_connect s =
     (case cn_selected s of
        None \<Rightarrow> s
      | Some entry \<Rightarrow>
          if cn_phase s = Connecting then s
          else if cn_multihop s \<and> cn_routeStyle s = Multihop_cross_jurisdiction \<and> cn_exit s = None
          then s\<lparr>cn_error := Some ''Pick an exit location for cross-jurisdiction multi-hop.''\<rparr>
          else
            (let s1 = abort_sweep (s\<lparr>cn_error := None, cn_phase := Connecting\<rparr>);
                 i = cn_fresh s;
                 s2 = s1\<lparr>cn_sweep := Some i, cn_fresh := Suc i,
                         cn_tunnel := (cn_tunnel s)\<lparr>ts_state := T_connecting, ts_country := Some (op_code entry)\<rparr>\<rparr>
             in if cn_multihop s
                then s2\<lparr>cn_running := Two_hops i # cn_running s, cn_calls := cn_calls s @
                       [Call_multihop i entry (the_default entry (cn_exit s)) (cn_routeStyle s) (cn_killSwitch s)
                          (cn_transportMode s) (cn_tier s)]\<rparr>
                else s2\<lparr>cn_running := Single_hop i # cn_running s, cn_calls := cn_calls s @
                       [Call_establish i entry (cn_killSwitch s) (cn_transportMode s) (cn_tier s)]\<rparr>))"

definition hook_disconnect :: "conn \<Rightarrow> conn" where
  "hook_disconnect s =
     (abort_sweep s)\<lparr>cn_sweep := None, cn_wasConnected := False, cn_teardowns := Suc (cn_teardowns s),
       cn_calls := cn_calls s @ [Call_teardown]\<rparr>"


section \<open>What is awaited\<close>

text \<open>A session that outlived the app is shown as what it is.\<close>

definition reattach :: "tunnel_status \<Rightarrow> conn \<Rightarrow> conn" where
  "reattach live s =
     (case reattachPhase live of
        None \<Rightarrow> s
      | Some to \<Rightarrow>
          s\<lparr>cn_autoConnected := True, cn_wasConnected := True, cn_tunnel := live,
            cn_error := (if to = Failed then Some (the_default ''connection lost'' (ts_error live)) else cn_error s),
            cn_phase := to\<rparr>)"

definition pick_country :: "string option \<Rightarrow> string option \<Rightarrow> country_option list \<Rightarrow> country_option option" where
  "pick_country live remembered rows =
     (case Option.bind live (\<lambda>c. find_code c rows) of
        Some r \<Rightarrow> Some r
      | None \<Rightarrow>
          (case Option.bind remembered (\<lambda>c. find_code c rows) of
             Some r \<Rightarrow> Some r
           | None \<Rightarrow> (case rows of [] \<Rightarrow> None | r # _ \<Rightarrow> Some r)))"

text \<open>The first effect: the status of the native side, \<open>None\<close> where it throws, then the fleet.\<close>

definition bootstrapped ::
  "tunnel_status option \<Rightarrow> string + country_option list \<times> gateway_info list \<Rightarrow> conn \<Rightarrow> conn" where
  "bootstrapped status found s =
     (let live = (case status of None \<Rightarrow> None | Some x \<Rightarrow> if reattachPhase x = None then None else Some x)
      in case found of
           Inl m \<Rightarrow>
             (case live of
                Some x \<Rightarrow> reattach x s
              | None \<Rightarrow> s\<lparr>cn_error := Some m, cn_phase := Failed\<rparr>)
         | Inr (rows, fleet) \<Rightarrow>
             (let pick = pick_country (Option.bind live ts_country) (loadSelectedCountry (cn_store s)) rows;
                  s1 = s\<lparr>cn_fleet := fleet, cn_countries := rows, cn_selected := pick,
                         cn_exit := find (\<lambda>c. Some (op_code c) \<noteq> map_option op_code pick) rows\<rparr>
              in case live of Some x \<Rightarrow> reattach x s1 | None \<Rightarrow> s1\<lparr>cn_phase := Idle\<rparr>))"

definition refreshed :: "string + country_option list \<times> gateway_info list \<Rightarrow> conn \<Rightarrow> conn" where
  "refreshed found s =
     (case found of
        Inl m \<Rightarrow> s\<lparr>cn_error := Some m\<rparr>
      | Inr (rows, fleet) \<Rightarrow> s\<lparr>cn_fleet := fleet, cn_countries := rows\<rparr>)"

text \<open>An entitlement that was polled, \<open>None\<close> where the poll failed.\<close>

definition entitled :: "status_response option \<Rightarrow> conn \<Rightarrow> conn" where
  "entitled answer s =
     (case answer of
        None \<Rightarrow> s
      | Some e \<Rightarrow> s\<lparr>cn_entitlement := Some \<lparr>en_tier = st_tier e, en_paidUntil = st_paid_until e, en_bytesUsed = st_bytes_used e\<rparr>,
                    cn_tier := st_tier e\<rparr>)"

text \<open>The end of an operation: its tunnel and whether a split was applied, or the message of what it threw.\<close>

definition finished :: "operation \<Rightarrow> string + tunnel_status \<times> bool \<Rightarrow> conn \<Rightarrow> conn" where
  "finished op result s =
     (let s1 = s\<lparr>cn_running := remove1 op (cn_running s)\<rparr>
      in case result of
           Inr (tunnel, split) \<Rightarrow> s1\<lparr>cn_tunnel := tunnel, cn_splitActive := split, cn_phase := Connected\<rparr>
         | Inl m \<Rightarrow> s1\<lparr>cn_error := Some m, cn_tunnel := DOWN\<lparr>ts_state := T_error, ts_error := Some m\<rparr>, cn_phase := Failed\<rparr>)"

definition torn_down :: "string + tunnel_status \<Rightarrow> conn \<Rightarrow> conn" where
  "torn_down result s =
     (let s1 = (case result of Inr t \<Rightarrow> s\<lparr>cn_tunnel := t\<rparr> | Inl m \<Rightarrow> s\<lparr>cn_error := Some m\<rparr>)
      in s1\<lparr>cn_splitActive := False, cn_phase := Idle, cn_teardowns := cn_teardowns s - 1\<rparr>)"

text \<open>A status that was polled, \<open>None\<close> where it throws.\<close>

definition polled :: "tunnel_status option \<Rightarrow> conn \<Rightarrow> conn" where
  "polled answer s =
     (let s1 = s\<lparr>cn_polls := cn_polls s - 1\<rparr>
      in case answer of
           None \<Rightarrow> s1
         | Some x \<Rightarrow>
             if ts_state x = T_error \<or> ts_state x = T_down
             then s1\<lparr>cn_tunnel := x, cn_error := Some (the_default ''connection lost'' (ts_error x)), cn_phase := Failed\<rparr>
             else s1\<lparr>cn_tunnel := x\<rparr>)"

section \<open>Effects\<close>

text \<open>The dependencies of \<open>connect\<close>, which stands for them in the lists of the effects.\<close>

definition connect_deps where
  "connect_deps s = (cn_selected s, cn_exit s, cn_multihop s, cn_routeStyle s, cn_phase s, cn_killSwitch s, cn_transportMode s)"

definition phase_effect :: "millis \<Rightarrow> conn \<Rightarrow> conn" where
  "phase_effect now s =
     (if cn_phase s = Connected
      then s\<lparr>cn_wasConnected := True, cn_attempts := 0, cn_connectedSince := Some (the_default now (cn_connectedSince s))\<rparr>
      else if cn_phase s = Idle then s\<lparr>cn_connectedSince := None\<rparr>
      else s)"

text \<open>With the clearing of the timer that the effect before it had set.\<close>

definition reconnect_effect :: "conn \<Rightarrow> conn" where
  "reconnect_effect s =
     (let s1 = s\<lparr>cn_timer := None\<rparr>
      in if cn_phase s \<noteq> Failed \<or> \<not> cn_wasConnected s then s1
         else if length RECONNECT_DELAYS_MS \<le> cn_attempts s then s1\<lparr>cn_wasConnected := False\<rparr>
         else s1\<lparr>cn_attempts := Suc (cn_attempts s), cn_connectedSince := None,
                 cn_timer := Some (RECONNECT_DELAYS_MS ! cn_attempts s)\<rparr>)"

definition auto_effect :: "conn \<Rightarrow> conn" where
  "auto_effect s =
     (if cn_autoConnect s \<and> \<not> cn_autoConnected s \<and> cn_phase s = Idle \<and> cn_selected s \<noteq> None
      then hook_connect (s\<lparr>cn_autoConnected := True\<rparr>) else s)"

text \<open>One pass over the effects after a render; then another, for what the first has changed.\<close>

definition effects :: "millis \<Rightarrow> conn \<Rightarrow> conn \<Rightarrow> conn" where
  "effects now old s =
     (let s1 = (if cn_phase s \<noteq> cn_phase old then phase_effect now s else s);
          s2 = (if connect_deps s \<noteq> connect_deps old then reconnect_effect s1 else s1)
      in if connect_deps s \<noteq> connect_deps old \<or> cn_autoConnect s \<noteq> cn_autoConnect old then auto_effect s2 else s2)"

definition commit :: "millis \<Rightarrow> conn \<Rightarrow> conn \<Rightarrow> conn" where
  "commit now old s = (let s1 = effects now old s in effects now s s1)"

section \<open>Steps\<close>

datatype hook_event =
    E_bootstrapped "tunnel_status option" "string + country_option list \<times> gateway_info list"
  | E_refreshed "string + country_option list \<times> gateway_info list"
  | E_select string
  | E_select_exit string
  | E_multihop bool
  | E_route_style route_style
  | E_transport_mode transport_mode
  | E_kill_switch bool
  | E_auto_connect bool
  | E_favorite string
  | E_entitled "status_response option"
  | E_helper helper_registration
  | E_connect
  | E_disconnect
  | E_timer
  | E_finished operation "string + tunnel_status \<times> bool"
  | E_torn_down "string + tunnel_status"
  | E_poll
  | E_polled "tunnel_status option"

fun hook_apply :: "hook_event \<Rightarrow> conn \<Rightarrow> conn" where
  "hook_apply (E_bootstrapped status found) s = bootstrapped status found s"
| "hook_apply (E_refreshed found) s = refreshed found s"
| "hook_apply (E_select code) s = hook_select code s"
| "hook_apply (E_select_exit code) s = selectExit code s"
| "hook_apply (E_multihop on) s = s\<lparr>cn_multihop := on\<rparr>"
| "hook_apply (E_route_style style) s = s\<lparr>cn_routeStyle := style\<rparr>"
| "hook_apply (E_transport_mode mode) s = setTransportMode mode s"
| "hook_apply (E_kill_switch on) s = setKillSwitch on s"
| "hook_apply (E_auto_connect on) s = setAutoConnect on s"
| "hook_apply (E_favorite code) s = toggleFavorite code s"
| "hook_apply (E_entitled answer) s = entitled answer s"
| "hook_apply (E_helper state) s = s\<lparr>cn_helperState := state\<rparr>"
| "hook_apply E_connect s = hook_connect s"
| "hook_apply E_disconnect s = hook_disconnect s"
| "hook_apply E_timer s = hook_connect (s\<lparr>cn_timer := None\<rparr>)"
| "hook_apply (E_finished op result) s = finished op result s"
| "hook_apply (E_torn_down result) s = torn_down result s"
| "hook_apply E_poll s = s\<lparr>cn_polls := Suc (cn_polls s)\<rparr>"
| "hook_apply (E_polled answer) s = polled answer s"

text \<open>
  When an event may come. An operation over one hop whose signal was aborted ends with an error,
  as \<open>establish\<close> reads the signal right before it returns. The buttons are those of App.tsx.
\<close>

fun hook_enabled :: "hook_event \<Rightarrow> conn \<Rightarrow> bool" where
  "hook_enabled (E_bootstrapped status found) s \<longleftrightarrow> cn_phase s = Loading"
| "hook_enabled E_connect s \<longleftrightarrow> cn_phase s = Idle \<or> cn_phase s = Failed"
| "hook_enabled E_disconnect s \<longleftrightarrow> cn_phase s = Connected \<or> cn_phase s = Connecting"
| "hook_enabled E_timer s \<longleftrightarrow> cn_timer s \<noteq> None"
| "hook_enabled (E_finished op result) s \<longleftrightarrow> op \<in> set (cn_running s)
     \<and> (case (op, result) of (Single_hop i, Inr _) \<Rightarrow> i \<notin> set (cn_aborted s) | _ \<Rightarrow> True)"
| "hook_enabled (E_torn_down result) s \<longleftrightarrow> 0 < cn_teardowns s"
| "hook_enabled E_poll s \<longleftrightarrow> cn_phase s = Connected"
| "hook_enabled (E_polled answer) s \<longleftrightarrow> 0 < cn_polls s"
| "hook_enabled (E_multihop on) s \<longleftrightarrow> cn_phase s \<noteq> Connected \<and> cn_phase s \<noteq> Connecting"
| "hook_enabled (E_route_style style) s \<longleftrightarrow> style \<noteq> Single \<and> cn_phase s \<noteq> Connected \<and> cn_phase s \<noteq> Connecting"
| "hook_enabled _ s \<longleftrightarrow> True"

inductive hook_step :: "conn \<Rightarrow> conn \<Rightarrow> bool" where
  step: "hook_enabled e s \<Longrightarrow> hook_step s (commit now s (hook_apply e s))"

inductive hook_reachable :: "local_store \<Rightarrow> conn \<Rightarrow> bool" where
  start: "hook_reachable st (hook_init st)"
| next_step: "hook_reachable st s \<Longrightarrow> hook_step s s' \<Longrightarrow> hook_reachable st s'"

text \<open>A run of events with their times, \<open>None\<close> when one of them cannot come.\<close>

fun hook_run :: "(millis \<times> hook_event) list \<Rightarrow> conn \<Rightarrow> conn option" where
  "hook_run [] s = Some s"
| "hook_run ((now, e) # es) s = (if hook_enabled e s then hook_run es (commit now s (hook_apply e s)) else None)"

lemma run_append: "hook_run (xs @ ys) s = Option.bind (hook_run xs s) (hook_run ys)"
  by (induction xs s rule: hook_run.induct) auto

lemma run_reachable: "hook_reachable st s \<Longrightarrow> hook_run es s = Some s' \<Longrightarrow> hook_reachable st s'"
  by (induction es s rule: hook_run.induct) (auto split: if_splits intro: hook_reachable.next_step hook_step.step)

section \<open>What connecting and the effects leave alone\<close>

lemma hook_connect_cases:
  obtains (nothing) "hook_connect s = s"
  | (unset) "hook_connect s = s\<lparr>cn_error := Some ''Pick an exit location for cross-jurisdiction multi-hop.''\<rparr>"
  | (started) entry op call where "cn_phase s \<noteq> Connecting" "cn_selected s = Some entry"
      "op = Single_hop (cn_fresh s) \<or> cn_multihop s \<and> op = Two_hops (cn_fresh s)"
      "hook_connect s = s\<lparr>cn_error := None, cn_phase := Connecting,
         cn_aborted := (case cn_sweep s of None \<Rightarrow> [] | Some i \<Rightarrow> [i]) @ cn_aborted s,
         cn_sweep := Some (cn_fresh s), cn_fresh := Suc (cn_fresh s),
         cn_tunnel := (cn_tunnel s)\<lparr>ts_state := T_connecting, ts_country := Some (op_code entry)\<rparr>,
         cn_running := op # cn_running s, cn_calls := cn_calls s @ [call]\<rparr>"
proof (cases "cn_selected s")
  case None
  then show thesis by (intro that(1)) (simp add: hook_connect_def)
next
  case (Some entry)
  consider "cn_phase s = Connecting"
    | "cn_phase s \<noteq> Connecting" "cn_multihop s \<and> cn_routeStyle s = Multihop_cross_jurisdiction \<and> cn_exit s = None"
    | "cn_phase s \<noteq> Connecting" "\<not> (cn_multihop s \<and> cn_routeStyle s = Multihop_cross_jurisdiction \<and> cn_exit s = None)"
    by blast
  then show thesis
  proof cases
    case 1
    with Some show thesis by (intro that(1)) (simp add: hook_connect_def)
  next
    case 2
    with Some show thesis by (intro that(2)) (simp add: hook_connect_def)
  next
    case 3
    show thesis
    proof (cases "cn_multihop s")
      case True
      with 3 Some show thesis
        by (intro that(3) [of entry "Two_hops (cn_fresh s)" "Call_multihop (cn_fresh s) entry (the_default entry (cn_exit s))
            (cn_routeStyle s) (cn_killSwitch s) (cn_transportMode s) (cn_tier s)"])
          (auto simp: hook_connect_def abort_sweep_def Let_def)
    next
      case False
      with 3 Some show thesis
        by (intro that(3) [of entry "Single_hop (cn_fresh s)" "Call_establish (cn_fresh s) entry
            (cn_killSwitch s) (cn_transportMode s) (cn_tier s)"])
          (simp_all add: hook_connect_def abort_sweep_def Let_def)
    qed
  qed
qed

lemma phase_effect_keeps [simp]:
  "cn_phase (phase_effect now s) = cn_phase s" "connect_deps (phase_effect now s) = connect_deps s"
  "cn_running (phase_effect now s) = cn_running s" "cn_aborted (phase_effect now s) = cn_aborted s"
  "cn_sweep (phase_effect now s) = cn_sweep s" "cn_fresh (phase_effect now s) = cn_fresh s"
  "cn_timer (phase_effect now s) = cn_timer s" "cn_calls (phase_effect now s) = cn_calls s"
  "cn_autoConnect (phase_effect now s) = cn_autoConnect s" "cn_autoConnected (phase_effect now s) = cn_autoConnected s"
  "cn_selected (phase_effect now s) = cn_selected s"
  by (simp_all add: phase_effect_def connect_deps_def)

lemma reconnect_effect_keeps [simp]:
  "cn_phase (reconnect_effect s) = cn_phase s" "connect_deps (reconnect_effect s) = connect_deps s"
  "cn_running (reconnect_effect s) = cn_running s" "cn_aborted (reconnect_effect s) = cn_aborted s"
  "cn_sweep (reconnect_effect s) = cn_sweep s" "cn_fresh (reconnect_effect s) = cn_fresh s"
  "cn_calls (reconnect_effect s) = cn_calls s"
  "cn_autoConnect (reconnect_effect s) = cn_autoConnect s" "cn_autoConnected (reconnect_effect s) = cn_autoConnected s"
  "cn_selected (reconnect_effect s) = cn_selected s"
  by (simp_all add: reconnect_effect_def connect_deps_def Let_def)

section \<open>One live sweep, and a bounded number of reconnects\<close>

text \<open>
  The signals of the sweeps in flight: all have been numbered, and one that has not been aborted
  is the current one.
\<close>

definition sweeps_ok :: "conn \<Rightarrow> bool" where
  "sweeps_ok s \<longleftrightarrow>
     (\<forall>i. Single_hop i \<in> set (cn_running s) \<longrightarrow> i < cn_fresh s \<and> (i \<in> set (cn_aborted s) \<or> cn_sweep s = Some i))
     \<and> (\<forall>i\<in>set (cn_aborted s). i < cn_fresh s) \<and> (\<forall>i. cn_sweep s = Some i \<longrightarrow> i < cn_fresh s)"

lemma sweeps_ok_cong:
  "cn_running s' = cn_running s \<Longrightarrow> cn_aborted s' = cn_aborted s \<Longrightarrow> cn_sweep s' = cn_sweep s \<Longrightarrow> cn_fresh s' = cn_fresh s
    \<Longrightarrow> sweeps_ok s' \<longleftrightarrow> sweeps_ok s"
  by (simp add: sweeps_ok_def)

lemma sweeps_connect:
  assumes ok: "sweeps_ok s"
  shows "sweeps_ok (hook_connect s)"
proof (cases s rule: hook_connect_cases)
  case (started entry op call)
  then show ?thesis using ok by (cases "cn_sweep s") (auto simp: sweeps_ok_def less_Suc_eq)
qed (use ok in \<open>auto simp: sweeps_ok_def\<close>)

lemma sweeps_effects: "sweeps_ok s \<Longrightarrow> sweeps_ok (effects now old s)"
proof -
  have cong: "sweeps_ok (s\<lparr>cn_autoConnected := b\<rparr>) \<longleftrightarrow> sweeps_ok s" "sweeps_ok (phase_effect now s) \<longleftrightarrow> sweeps_ok s"
    "sweeps_ok (reconnect_effect s) \<longleftrightarrow> sweeps_ok s" for s b
    by (rule sweeps_ok_cong; simp)+
  have auto_ok: "sweeps_ok s \<Longrightarrow> sweeps_ok (auto_effect s)" for s
    by (simp add: auto_effect_def sweeps_connect cong)
  assume "sweeps_ok s"
  then show ?thesis by (auto simp: effects_def Let_def cong intro!: auto_ok)
qed

lemma sweeps_apply: "sweeps_ok s \<Longrightarrow> sweeps_ok (hook_apply e s)"
proof (cases e)
  case (E_finished op result)
  assume "sweeps_ok s"
  then show ?thesis unfolding E_finished
    by (auto simp: finished_def sweeps_ok_def Let_def split: sum.split dest: notin_set_remove1)
next
  case E_disconnect
  assume "sweeps_ok s"
  then show ?thesis unfolding E_disconnect
    by (auto simp: hook_disconnect_def abort_sweep_def sweeps_ok_def split: option.splits)
next
  case E_connect
  then show "sweeps_ok s \<Longrightarrow> ?thesis" by (simp add: sweeps_connect)
next
  case E_timer
  assume "sweeps_ok s"
  then have "sweeps_ok (s\<lparr>cn_timer := None\<rparr>)" by (simp add: sweeps_ok_def)
  then show ?thesis unfolding E_timer by (simp add: sweeps_connect)
qed (auto simp: sweeps_ok_def bootstrapped_def reattach_def refreshed_def hook_select_def selectExit_def
    setTransportMode_def setKillSwitch_def setAutoConnect_def toggleFavorite_def entitled_def torn_down_def polled_def Let_def
    split: option.splits sum.splits)

lemma sweeps_reachable: "hook_reachable st s \<Longrightarrow> sweeps_ok s"
proof (induction rule: hook_reachable.induct)
  case start
  then show ?case by (simp add: sweeps_ok_def hook_init_def)
next
  case (next_step s s')
  then show ?case by (auto simp: commit_def Let_def elim!: hook_step.cases intro!: sweeps_effects sweeps_apply)
qed

end
