(* ===== verification/Reconnect.thy ===== *)
theory Reconnect
  imports Connection
begin

text \<open>
  What the hook of the desktop client guarantees over every run of its events: the timer of a
  reconnect follows the delays, at most six are spent on a drop, a drop that can be repaired has
  a timer pending, and a disconnect is not undone by what was in flight. The last section has
  the runs in which the hook does otherwise.
\<close>

section \<open>Reconnects\<close>

text \<open>Whether \<open>connect\<close> would ask for a session, outside a phase of connecting.\<close>

definition can_connect :: "conn \<Rightarrow> bool" where
  "can_connect s \<longleftrightarrow> cn_selected s \<noteq> None
     \<and> \<not> (cn_multihop s \<and> cn_routeStyle s = Multihop_cross_jurisdiction \<and> cn_exit s = None)"

definition waiting_ok :: "conn \<Rightarrow> bool" where
  "waiting_ok s \<longleftrightarrow>
     (\<forall>d. cn_timer s = Some d \<longrightarrow> cn_phase s = Failed \<and> cn_wasConnected s
        \<and> (\<exists>k<length RECONNECT_DELAYS_MS. cn_attempts s = Suc k \<and> d = RECONNECT_DELAYS_MS ! k))
     \<and> cn_attempts s \<le> length RECONNECT_DELAYS_MS
     \<and> (cn_phase s = Failed \<and> cn_wasConnected s \<and> can_connect s \<longrightarrow> cn_timer s \<noteq> None)
     \<and> (cn_phase s = Connected \<longrightarrow> cn_attempts s = 0 \<and> (cn_wasConnected s \<or> 0 < cn_teardowns s))"

text \<open>What an event leaves for the effects: all of it, unless a dependency has changed.\<close>

definition waiting_weak :: "conn \<Rightarrow> conn \<Rightarrow> bool" where
  "waiting_weak s u \<longleftrightarrow>
     (if connect_deps u = connect_deps s then waiting_ok u
      else cn_attempts u \<le> length RECONNECT_DELAYS_MS
        \<and> (cn_phase u = Connected \<and> cn_phase s = Connected
             \<longrightarrow> cn_attempts u = 0 \<and> (cn_wasConnected u \<or> 0 < cn_teardowns u)))"

lemma hook_connect_starts:
  "can_connect s \<Longrightarrow> cn_phase s \<noteq> Connecting \<Longrightarrow> cn_phase (hook_connect s) = Connecting"
  by (auto simp: hook_connect_def abort_sweep_def can_connect_def Let_def)

lemma hook_connect_keeps [simp]:
  "cn_timer (hook_connect s) = cn_timer s" "cn_attempts (hook_connect s) = cn_attempts s"
  "cn_autoConnect (hook_connect s) = cn_autoConnect s" "cn_wasConnected (hook_connect s) = cn_wasConnected s"
  by (cases s rule: hook_connect_cases; simp)+

lemma waiting_connect:
  assumes "waiting_ok s" "cn_timer s = None" shows "waiting_ok (hook_connect s)"
  by (cases s rule: hook_connect_cases) (use assms in \<open>auto simp: waiting_ok_def can_connect_def\<close>)

lemma deps_phase: "connect_deps u = connect_deps s \<Longrightarrow> cn_phase u = cn_phase s"
  by (simp add: connect_deps_def)

lemma deps_can: "connect_deps u = connect_deps s \<Longrightarrow> can_connect u \<longleftrightarrow> can_connect s"
  by (auto simp: connect_deps_def can_connect_def)

lemma waiting_phase_effect:
  assumes "waiting_weak s u" "connect_deps u \<noteq> connect_deps s"
    and x: "x = (if cn_phase u \<noteq> cn_phase s then phase_effect now u else u)"
  shows "cn_attempts x \<le> length RECONNECT_DELAYS_MS"
    and "cn_phase x = Connected \<Longrightarrow> cn_attempts x = 0 \<and> (cn_wasConnected x \<or> 0 < cn_teardowns x)"
  using assms(1,2) unfolding x by (simp_all add: waiting_weak_def phase_effect_def split: if_splits)

lemma waiting_reconnect_effect:
  assumes "cn_attempts x \<le> length RECONNECT_DELAYS_MS"
    and "cn_phase x = Connected \<Longrightarrow> cn_attempts x = 0 \<and> (cn_wasConnected x \<or> 0 < cn_teardowns x)"
  shows "waiting_ok (reconnect_effect x)"
proof (cases "cn_phase x = Failed \<and> cn_wasConnected x")
  case True
  then show ?thesis using assms(1) by (cases "length RECONNECT_DELAYS_MS \<le> cn_attempts x")
    (simp_all add: waiting_ok_def reconnect_effect_def Let_def)
next
  case False
  then show ?thesis using assms by (auto simp: waiting_ok_def reconnect_effect_def Let_def)
qed

lemma waiting_auto_effect:
  assumes "waiting_ok x" shows "waiting_ok (auto_effect x)"
proof (cases "cn_phase x = Idle")
  case True
  have "waiting_ok (x\<lparr>cn_autoConnected := True\<rparr>)" using assms by (simp add: waiting_ok_def can_connect_def)
  then have "waiting_ok (hook_connect (x\<lparr>cn_autoConnected := True\<rparr>))"
    by (rule waiting_connect) (use assms True in \<open>cases "cn_timer x"; simp add: waiting_ok_def\<close>)
  then show ?thesis using assms by (simp add: auto_effect_def)
qed (use assms in \<open>simp add: auto_effect_def\<close>)

lemma waiting_effects:
  assumes weak: "waiting_weak s u" shows "waiting_ok (effects now s u)"
proof (cases "connect_deps u = connect_deps s")
  case True
  then have "waiting_ok u" using weak by (simp add: waiting_weak_def)
  then show ?thesis using True deps_phase [OF True] by (simp add: effects_def waiting_auto_effect)
next
  case False
  have "waiting_ok (reconnect_effect (if cn_phase u \<noteq> cn_phase s then phase_effect now u else u))"
    by (rule waiting_reconnect_effect [OF waiting_phase_effect [OF weak False refl]])
  then show ?thesis using False by (simp add: effects_def Let_def waiting_auto_effect del: reconnect_effect_keeps phase_effect_keeps)
qed

lemma waiting_weakI: "waiting_ok u \<Longrightarrow> waiting_weak s u"
  by (auto simp: waiting_weak_def waiting_ok_def)

lemma waiting_commit: "waiting_weak s u \<Longrightarrow> waiting_ok (commit now s u)"
  by (simp add: commit_def Let_def waiting_effects waiting_weakI)

text \<open>The settings and the answers that say nothing of the phase keep it as it is.\<close>

lemma waiting_settings:
  assumes "waiting_ok s" "cn_phase u = cn_phase s" "cn_timer u = cn_timer s" "cn_wasConnected u = cn_wasConnected s"
    "cn_attempts u = cn_attempts s" "cn_teardowns u = cn_teardowns s"
  shows "waiting_weak s u"
  using assms deps_can [of u s] by (auto simp: waiting_weak_def waiting_ok_def)

lemma waiting_apply:
  assumes ok: "waiting_ok s" and en: "hook_enabled e s"
  shows "waiting_weak s (hook_apply e s)"
proof (cases e)
  case (E_bootstrapped status found)
  then show ?thesis using ok en
    by (cases "cn_timer s") (auto simp: waiting_weak_def waiting_ok_def bootstrapped_def reattach_def connect_deps_def reattachPhase_def Let_def
        split: option.splits sum.splits tunnel_state.splits)
next
  case E_connect
  have "waiting_weak s (hook_connect s)"
  proof (cases s rule: hook_connect_cases)
    case nothing
    then show ?thesis using ok by (simp add: waiting_weakI)
  next
    case unset
    then show ?thesis by (simp, intro waiting_settings [OF ok]) simp_all
  next
    case (started entry op call)
    then show ?thesis using ok by (simp add: waiting_weak_def connect_deps_def waiting_ok_def)
  qed
  then show ?thesis unfolding E_connect by simp
next
  case E_timer
  let ?u = "s\<lparr>cn_timer := None\<rparr>"
  have failed: "cn_phase s = Failed" using ok en unfolding E_timer by (auto simp: waiting_ok_def)
  have "waiting_weak s (hook_connect ?u)"
  proof (cases "can_connect s")
    case True
    then have "cn_phase (hook_connect ?u) = Connecting" using failed by (intro hook_connect_starts) (auto simp: can_connect_def)
    moreover have "cn_attempts (hook_connect ?u) = cn_attempts s"
      by (cases ?u rule: hook_connect_cases) auto
    ultimately show ?thesis using ok failed by (auto simp: waiting_weak_def waiting_ok_def dest: deps_phase)
  next
    case False
    then have "waiting_ok ?u" using ok by (auto simp: waiting_ok_def can_connect_def)
    then show ?thesis by (intro waiting_weakI waiting_connect) auto
  qed
  then show ?thesis unfolding E_timer by simp
next
  case E_disconnect
  then show ?thesis using ok en
    by (cases "cn_timer s") (auto simp: waiting_weak_def waiting_ok_def hook_disconnect_def abort_sweep_def)
next
  case (E_finished op result)
  then show ?thesis using ok
    by (cases result) (auto simp: waiting_weak_def waiting_ok_def finished_def connect_deps_def can_connect_def Let_def)
next
  case (E_torn_down result)
  then show ?thesis using ok
    by (cases result) (auto simp: waiting_weak_def waiting_ok_def torn_down_def connect_deps_def can_connect_def Let_def)
next
  case (E_polled answer)
  then show ?thesis using ok
    by (auto simp: waiting_weak_def waiting_ok_def polled_def connect_deps_def can_connect_def Let_def split: option.split)
qed (auto intro!: waiting_settings [OF ok] simp: refreshed_def hook_select_def selectExit_def
    setTransportMode_def setKillSwitch_def setAutoConnect_def toggleFavorite_def entitled_def Let_def
    split: option.splits sum.splits)

lemma waiting_reachable: "hook_reachable st s \<Longrightarrow> waiting_ok s"
proof (induction rule: hook_reachable.induct)
  case start
  then show ?case by (simp add: waiting_ok_def hook_init_def)
next
  case (next_step s s')
  then show ?case by (auto elim!: hook_step.cases intro!: waiting_commit waiting_apply)
qed

text \<open>
  A drop that the poll of the status shows is repaired: the timer of the shortest delay is set,
  and when it fires a session is asked for.
\<close>

definition starts :: "hook_call \<Rightarrow> bool" where
  "starts c \<longleftrightarrow> c \<noteq> Call_teardown"

lemma drop_sets_timer:
  fixes now :: millis
  assumes reach: "hook_reachable st s" and up: "cn_phase s = Connected" "cn_teardowns s = 0"
    and x: "ts_state x = T_error \<or> ts_state x = T_down" and can: "can_connect s"
  defines "u \<equiv> commit now s (hook_apply (E_polled (Some x)) s)"
  shows "cn_phase u = Failed" "cn_wasConnected u" "cn_timer u = Some 5000" "can_connect u" "cn_attempts u = 1"
proof -
  have w: "cn_wasConnected s" "cn_attempts s = 0" using waiting_reachable [OF reach] up by (auto simp: waiting_ok_def)
  have p: "polled (Some x) s = s\<lparr>cn_polls := cn_polls s - 1, cn_tunnel := x,
      cn_error := Some (the_default ''connection lost'' (ts_error x)), cn_phase := Failed\<rparr>"
    using x by (auto simp: polled_def Let_def)
  have u: "u = (polled (Some x) s)\<lparr>cn_attempts := 1, cn_connectedSince := None, cn_timer := Some 5000\<rparr>"
    unfolding u_def commit_def hook_apply.simps p using up(1) w
    by (simp add: effects_def connect_deps_def phase_effect_def reconnect_effect_def auto_effect_def RECONNECT_DELAYS_MS_def Let_def)
  show "cn_phase u = Failed" "cn_wasConnected u" "cn_timer u = Some 5000" "can_connect u" "cn_attempts u = 1"
    using w can by (simp_all add: u p can_connect_def)
qed

lemma effects_unchanged: "connect_deps s = connect_deps old \<Longrightarrow> cn_autoConnect s = cn_autoConnect old \<Longrightarrow> effects now old s = s"
  using deps_phase [of s old] by (simp add: effects_def)

lemma timer_connects:
  fixes now :: millis
  assumes "cn_phase s = Failed" "can_connect s"
  defines "u \<equiv> commit now s (hook_apply E_timer s)"
  shows "cn_phase u = Connecting" "\<exists>c. starts c \<and> cn_calls u = cn_calls s @ [c]"
    "cn_attempts u = cn_attempts s" "cn_timer u = None"
proof -
  let ?v = "hook_connect (s\<lparr>cn_timer := None\<rparr>)"
  have v: "cn_phase ?v = Connecting" "cn_autoConnect ?v = cn_autoConnect s" "cn_attempts ?v = cn_attempts s"
    using assms(1,2) hook_connect_starts [of "s\<lparr>cn_timer := None\<rparr>"] by (auto simp: can_connect_def)
  have calls: "\<exists>c. starts c \<and> cn_calls ?v = cn_calls s @ [c]"
    using assms(1,2) by (auto simp: starts_def can_connect_def hook_connect_def abort_sweep_def Let_def)
  have ne: "connect_deps ?v \<noteq> connect_deps s" using v(1) assms(1) deps_phase by fastforce
  have e1: "effects now s ?v = ?v\<lparr>cn_timer := None\<rparr>"
    using ne v(1) assms(1) by (simp add: effects_def phase_effect_def reconnect_effect_def auto_effect_def Let_def)
  have "u = ?v\<lparr>cn_timer := None\<rparr>"
    unfolding u_def commit_def hook_apply.simps e1 Let_def by (rule effects_unchanged) (simp_all add: connect_deps_def)
  then show "cn_phase u = Connecting" "\<exists>c. starts c \<and> cn_calls u = cn_calls s @ [c]"
    "cn_attempts u = cn_attempts s" "cn_timer u = None" using v calls by simp_all
qed

section \<open>A bounded number of attempts\<close>

text \<open>
  The reconnects a state can still make on its own: what is left of the delays, and the one
  whose timer is pending.
\<close>

definition attempts_left :: "conn \<Rightarrow> nat" where
  "attempts_left s = length RECONNECT_DELAYS_MS - cn_attempts s + (if cn_timer s = None then 0 else 1)"

text \<open>Events of a client that is left alone and whose gateways do not answer.\<close>

definition fruitless :: "hook_event \<Rightarrow> bool" where
  "fruitless e \<longleftrightarrow> (case e of E_finished op (Inr _) \<Rightarrow> False | E_bootstrapped _ _ \<Rightarrow> False | _ \<Rightarrow> True)"

lemma left_connect: "attempts_left (hook_connect s) = attempts_left s"
  by (simp add: attempts_left_def)

lemma left_auto_effect: "attempts_left (auto_effect s) = attempts_left s"
  by (simp add: auto_effect_def left_connect) (simp add: attempts_left_def)

lemma connect_not_connected: "cn_phase (hook_connect s) = Connected \<Longrightarrow> cn_phase s = Connected"
  by (cases s rule: hook_connect_cases) auto

lemma left_reconnect_effect: "attempts_left (reconnect_effect s) \<le> attempts_left s"
  by (auto simp: reconnect_effect_def attempts_left_def Let_def)

lemma left_effects:
  assumes "cn_phase s = Connected \<Longrightarrow> cn_phase old = Connected"
  shows "attempts_left (effects now old s) \<le> attempts_left s"
proof -
  let ?s1 = "if cn_phase s \<noteq> cn_phase old then phase_effect now s else s"
  have "attempts_left ?s1 = attempts_left s" using assms by (auto simp: phase_effect_def attempts_left_def)
  then have "attempts_left (if connect_deps s \<noteq> connect_deps old then reconnect_effect ?s1 else ?s1) \<le> attempts_left s"
    using left_reconnect_effect [of ?s1] by simp
  then show ?thesis
    by (cases "connect_deps s \<noteq> connect_deps old \<or> cn_autoConnect s \<noteq> cn_autoConnect old")
      (simp_all add: effects_def left_auto_effect Let_def split: if_splits)
qed

lemma effects_not_connected: "cn_phase (effects now old s) = Connected \<Longrightarrow> cn_phase s = Connected"
  by (auto simp: effects_def auto_effect_def Let_def split: if_splits dest!: connect_not_connected)

lemma left_commit:
  assumes "cn_phase u = Connected \<Longrightarrow> cn_phase s = Connected"
  shows "attempts_left (commit now s u) \<le> attempts_left u"
  using left_effects [of u s now, OF assms] left_effects [of "effects now s u" u now] effects_not_connected [of now s u]
  by (auto simp: commit_def Let_def)

lemma apply_not_connected:
  "fruitless e \<Longrightarrow> hook_enabled e s \<Longrightarrow> cn_phase (hook_apply e s) = Connected \<Longrightarrow> cn_phase s = Connected"
  by (cases e) (auto simp: fruitless_def hook_disconnect_def abort_sweep_def refreshed_def hook_select_def selectExit_def
      setTransportMode_def setKillSwitch_def setAutoConnect_def toggleFavorite_def entitled_def finished_def torn_down_def
      polled_def Let_def split: option.splits sum.splits if_splits dest!: connect_not_connected)

lemma left_apply:
  assumes "hook_enabled e s" "fruitless e"
  shows "attempts_left (hook_apply e s) + (if e = E_timer then 1 else 0) = attempts_left s"
  using assms by (cases e) (auto simp: fruitless_def left_connect hook_disconnect_def abort_sweep_def refreshed_def hook_select_def selectExit_def
      setTransportMode_def setKillSwitch_def setAutoConnect_def toggleFavorite_def entitled_def finished_def torn_down_def
      polled_def Let_def attempts_left_def split: option.splits sum.splits)

lemma timers_bounded:
  "hook_run es s = Some s' \<Longrightarrow> \<forall>(t, e)\<in>set es. fruitless e
    \<Longrightarrow> length (filter (\<lambda>(t, e). e = E_timer) es) + attempts_left s' \<le> attempts_left s"
proof (induction es s rule: hook_run.induct)
  case (2 now e es s)
  then have en: "hook_enabled e s" and f: "fruitless e"
    and run: "hook_run es (commit now s (hook_apply e s)) = Some s'" by (auto split: if_splits)
  have "length (filter (\<lambda>(t, e). e = E_timer) es) + attempts_left s' \<le> attempts_left (commit now s (hook_apply e s))"
    using "2.IH" [OF en run] "2.prems"(2) by auto
  also have "\<dots> \<le> attempts_left (hook_apply e s)" by (rule left_commit) (rule apply_not_connected [OF f en])
  finally show ?case using left_apply [OF en f] by (auto split: if_splits)
qed simp

lemma left_at_most: "waiting_ok s \<Longrightarrow> attempts_left s \<le> length RECONNECT_DELAYS_MS"
  by (auto simp: attempts_left_def waiting_ok_def)

section \<open>A disconnect sticks\<close>

text \<open>
  What holds from a disconnect on: no timer, nothing in flight that could end in a tunnel, and no
  automatic connect left.
\<close>

definition at_rest :: "conn \<Rightarrow> bool" where
  "at_rest s \<longleftrightarrow> cn_timer s = None \<and> \<not> cn_wasConnected s \<and> (cn_autoConnect s \<longrightarrow> cn_autoConnected s)
     \<and> (\<forall>op\<in>set (cn_running s). \<exists>i\<in>set (cn_aborted s). op = Single_hop i)
     \<and> cn_phase s \<noteq> Loading \<and> (cn_phase s = Connected \<or> cn_phase s = Connecting \<longrightarrow> 0 < cn_teardowns s)"

text \<open>The events in which the user does not ask for a tunnel.\<close>

definition unasked :: "hook_event \<Rightarrow> bool" where
  "unasked e \<longleftrightarrow> e \<noteq> E_connect \<and> e \<noteq> E_auto_connect True"

definition asked :: "conn \<Rightarrow> hook_call list" where
  "asked s = filter starts (cn_calls s)"

lemma rest_effects:
  assumes "at_rest s" "cn_phase s = Connected \<Longrightarrow> cn_phase old = Connected"
  shows "at_rest (effects now old s) \<and> cn_calls (effects now old s) = cn_calls s
    \<and> (cn_phase (effects now old s) = cn_phase s)"
  using assms by (auto simp: effects_def phase_effect_def reconnect_effect_def auto_effect_def at_rest_def Let_def)

lemma rest_commit:
  assumes "at_rest u" "cn_phase u = Connected \<Longrightarrow> cn_phase s = Connected"
  shows "at_rest (commit now s u) \<and> cn_calls (commit now s u) = cn_calls u"
  using rest_effects [OF assms, of now] rest_effects [of "effects now s u" u now] by (simp add: commit_def Let_def)

lemma rest_apply:
  assumes "at_rest s" "hook_enabled e s" "unasked e"
  shows "at_rest (hook_apply e s) \<and> asked (hook_apply e s) = asked s
    \<and> (cn_phase (hook_apply e s) = Connected \<longrightarrow> cn_phase s = Connected)"
proof (cases e)
  case (E_finished op result)
  then obtain i m where "op = Single_hop i" "i \<in> set (cn_aborted s)" "result = Inl m"
    using assms by (cases result) (fastforce simp: at_rest_def)+
  then show ?thesis using assms E_finished by (auto simp: at_rest_def asked_def finished_def Let_def dest: notin_set_remove1)
qed (use assms in \<open>auto simp: at_rest_def asked_def unasked_def starts_def hook_disconnect_def abort_sweep_def refreshed_def hook_select_def selectExit_def
    setTransportMode_def setKillSwitch_def setAutoConnect_def toggleFavorite_def entitled_def torn_down_def polled_def Let_def
    split: option.splits sum.splits if_splits\<close>)

lemma rest_run:
  "hook_run es s = Some s' \<Longrightarrow> at_rest s \<Longrightarrow> \<forall>(t, e)\<in>set es. unasked e \<Longrightarrow> at_rest s' \<and> asked s' = asked s"
proof (induction es s rule: hook_run.induct)
  case (2 now e es s)
  then have en: "hook_enabled e s" and f: "unasked e"
    and run: "hook_run es (commit now s (hook_apply e s)) = Some s'" by (auto split: if_splits)
  note a = rest_apply [OF "2.prems"(2) en f]
  then have "at_rest (commit now s (hook_apply e s))" "asked (commit now s (hook_apply e s)) = asked s"
    using rest_commit [of "hook_apply e s" s now] by (auto simp: asked_def)
  then show ?case using "2.IH" [OF en run] "2.prems"(3) by auto
qed simp

lemma disconnect_rests:
  assumes "hook_reachable st s" "hook_enabled E_disconnect s"
    and "\<And>i. Two_hops i \<notin> set (cn_running s)" "cn_autoConnect s \<Longrightarrow> cn_autoConnected s"
  shows "at_rest (hook_disconnect s) \<and> asked (hook_disconnect s) = asked s"
proof -
  have "cn_timer s = None" using waiting_reachable [OF assms(1)] assms(2) by (cases "cn_timer s") (auto simp: waiting_ok_def)
  moreover have "\<exists>i\<in>set (cn_aborted (hook_disconnect s)). op = Single_hop i" if "op \<in> set (cn_running s)" for op
    using sweeps_reachable [OF assms(1)] assms(3) that
    by (cases op) (auto simp: sweeps_ok_def hook_disconnect_def abort_sweep_def)
  ultimately show ?thesis using assms(2,4)
    by (auto simp: at_rest_def asked_def starts_def hook_disconnect_def abort_sweep_def)
qed

lemma disconnect_run:
  assumes "hook_reachable st s" "\<And>i. Two_hops i \<notin> set (cn_running s)" "cn_autoConnect s \<Longrightarrow> cn_autoConnected s"
    and "hook_run ((now, E_disconnect) # es) s = Some s'" "\<forall>(t, e)\<in>set es. unasked e"
  shows "at_rest s' \<and> asked s' = asked s"
proof -
  have en: "hook_enabled E_disconnect s" and run: "hook_run es (commit now s (hook_disconnect s)) = Some s'"
    using assms(4) by (auto split: if_splits)
  have "at_rest (commit now s (hook_disconnect s)) \<and> asked (commit now s (hook_disconnect s)) = asked s"
    using disconnect_rests [OF assms(1) en assms(2,3)] rest_commit [of "hook_disconnect s" s now]
    by (auto simp: asked_def hook_disconnect_def abort_sweep_def)
  then show ?thesis using rest_run [OF run _ assms(5)] by auto
qed

end
