(* ===== verification/DesktopProperties.thy ===== *)
theory DesktopProperties
  imports AppProperties Reconnect
begin

text \<open>
  The properties of the desktop client: connecting over one hop, disconnecting, and coming back
  after a drop, with the runs in which the hook does not do what its comments say.
\<close>

section \<open>Connecting\<close>

definition ex_location :: "string \<Rightarrow> country_option" where
  "ex_location cc = \<lparr>op_code = cc, op_name = cc, op_flag = [], op_gatewayIp = ''10.0.0.1'', op_city = [], op_load = 0,
     op_signPubKey = [], op_transports = None\<rparr>"

definition ex_desktop :: desktop_env where
  "ex_desktop = \<lparr>de_crypto = ex_crypto, de_isTauri = False,
     de_directory = \<lparr>di_payment_address = ''t1'', di_price_flux = 1, di_specs = [], di_seed_gateways = []\<rparr>,
     de_numstr = (\<lambda>_. ''51820''), de_readStatus = (\<lambda>_. None), de_readEnroll = (\<lambda>_. None), de_fetch = (\<lambda>_. (None, False)),
     de_fetchEnroll = (\<lambda>_. (None, False)), de_solve = (\<lambda>_ _. []), de_policy = EMPTY_POLICY, de_dns = Cloudflare,
     de_userAgent = ''Linux''\<rparr>"

definition ex_up :: tunnel_status where
  "ex_up = DOWN\<lparr>ts_state := T_up, ts_rxBytes := 92\<rparr>"

text \<open>An attempt whose tunnel answers at the second look.\<close>

definition ex_attempt :: "nat \<Rightarrow> attempt_env" where
  "ex_attempt j = \<lparr>ae_abortedBefore = False, ae_connectError = None, ae_now = 0,
     ae_turns = (\<lambda>i. \<lparr>tu_aborted = False, tu_status = Some (if i = 0 then DOWN\<lparr>ts_state := T_connecting\<rparr> else ex_up),
       tu_now = PROBE_INTERVAL_MS * int i\<rparr>), ae_abortedAfter = False\<rparr>"

definition ex_keypair :: keypair where
  "ex_keypair = \<lparr>kp_publicKey = ''pub'', kp_privateKey = ''priv''\<rparr>"

text \<open>
  C13. Where the clock of each wait runs, connecting over one hop comes to an end. By then at
  most one enrolment has been sent; every tunnel that was brought up had the kill switch the user
  chose, the port of a transport that the gateway advertises and the tier allows, never plain
  WireGuard in the stealth mode, and a split only on the premium tier and, under the kill switch,
  only of bypassed routes. A success is a tunnel that answers, over the last transport that was
  brought up; and the tunnel is torn down exactly when every transport of the chain has failed.
\<close>

theorem connecting_is_safe:
  assumes "\<And>j. clock_runs (ae_now (ae j)) (ae_turns (ae j))"
  shows "\<exists>calls r. establish w ae country keypair killSwitch mode tier = Some (calls, r)
    \<and> length (filter (\<lambda>c. case c of Enrolled _ \<Rightarrow> True | _ \<Rightarrow> False) calls) \<le> 1
    \<and> (\<forall>a. Connect a \<in> set calls \<longrightarrow> ca_killSwitch a = killSwitch
        \<and> (\<exists>t (reply :: enroll_response). t \<in> set (advertisedOrLegacy (op_transports country)) \<and> (mode = Stealth \<longrightarrow> tp_type t \<noteq> ''wg'')
            \<and> tierAllows t (resolveGatewayTier w (op_gatewayIp country) (op_signPubKey country) (op_transports country)
                 (kp_publicKey keypair) tier)
            \<and> ca_endpoint a = stripEndpointPort (er_endpoint reply) @ '':'' @ de_numstr w (tp_port t))
        \<and> (\<forall>sp. ca_split a = Some sp \<longrightarrow>
             resolveGatewayTier w (op_gatewayIp country) (op_signPubKey country) (op_transports country)
               (kp_publicKey keypair) tier = Premium \<and> (killSwitch \<longrightarrow> sa_tunnelRoutes sp = [])))
    \<and> (Disconnect \<in> set calls \<longleftrightarrow> (\<exists>ts e. r = Inl (Could_not_connect ts e)))
    \<and> (\<forall>res. r = Inr res \<longrightarrow> tunnel_answers (rs_tunnel res) \<and> (\<exists>a. last calls = Connect a
        \<and> ca_endpoint a = stripEndpointPort (er_endpoint (rs_enroll res)) @ '':'' @ de_numstr w (tp_port (rs_transport res))))"
proof -
  obtain calls r where run: "establish w ae country keypair killSwitch mode tier = Some (calls, r)"
    using establish_ends [where ae = ae and w = w, OF assms] by (metis not_None_eq surj_pair)
  note safe = establish_safe [OF run]
  have dialled: "ca_killSwitch a = killSwitch
      \<and> (\<exists>t (reply :: enroll_response). t \<in> set (advertisedOrLegacy (op_transports country)) \<and> (mode = Stealth \<longrightarrow> tp_type t \<noteq> ''wg'')
          \<and> tierAllows t (gateway_tier w country keypair tier)
          \<and> ca_endpoint a = stripEndpointPort (er_endpoint reply) @ '':'' @ de_numstr w (tp_port t))
      \<and> (\<forall>sp. ca_split a = Some sp \<longrightarrow> gateway_tier w country keypair tier = Premium \<and> (killSwitch \<longrightarrow> sa_tunnelRoutes sp = []))"
    if call: "Connect a \<in> set calls" for a
  proof -
    obtain t reply split where a: "a = attempt_args w country keypair killSwitch reply split t"
      "t \<in> set (session_chain w country keypair mode tier)"
      "splitForSession w (gateway_tier w country keypair tier) killSwitch [op_gatewayIp country] = Inr split"
      using safe(2) [OF call] by blast
    note t = chain_usable [OF a(2)]
    have "\<forall>sp. split = Some sp \<longrightarrow> gateway_tier w country keypair tier = Premium \<and> (killSwitch \<longrightarrow> sa_tunnelRoutes sp = [])"
      using a(3) split_premium by blast
    then show ?thesis unfolding a(1) attempt_args_simps using t
      by (intro conjI exI [of _ t]) (auto simp: usable_transport_def intro!: exI [of _ reply])
  qed
  show ?thesis using run safe(1,3,4) dialled
    by (fastforce simp: enrolments_def gateway_tier_def)
qed

theorem connecting_is_safe_witness:
  "\<exists>calls r. establish ex_desktop ex_attempt (ex_location ''NL'') ex_keypair True Auto Free = Some (calls, r)
    \<and> length (filter (\<lambda>c. case c of Enrolled _ \<Rightarrow> True | _ \<Rightarrow> False) calls) \<le> 1"
proof -
  have "clock_runs (ae_now (ex_attempt j)) (ae_turns (ex_attempt j))" for j
    by (simp add: clock_runs_def ex_attempt_def)
  from connecting_is_safe [where ae = ex_attempt and w = ex_desktop and country = "ex_location ''NL''" and keypair = ex_keypair
      and killSwitch = True and mode = Auto and tier = Free, OF this]
  show ?thesis by blast
qed

text \<open>The example ends in a tunnel.\<close>

lemma ex_connects: "map_option (map_sum (\<lambda>_. ()) rs_tunnel \<circ> snd) (establish ex_desktop ex_attempt (ex_location ''NL'') ex_keypair True Auto Free)
    = Some (Inr ex_up)"
proof -
  have "probeTunnelUp (ae_turns (ex_attempt 0)) (ae_now (ex_attempt 0)) PROBE_MS = Some (Some ex_up)"
    unfolding probeTunnelUp_def
    by (subst probe_loop.simps, subst probe_loop.simps)
      (simp add: ex_attempt_def ex_up_def tunnel_answers_def DOWN_def PROBE_MS_def PROBE_INTERVAL_MS_def)
  moreover have "transportFallbackChain None Auto DESKTOP_TRANSPORTS Free = [\<lparr>tp_type = ''wg'', tp_port = of_int WG_PORT, tp_params = None\<rparr>]"
    by code_simp
  moreover have "ae_abortedBefore (ex_attempt 0) = False" "ae_connectError (ex_attempt 0) = None" "ae_abortedAfter (ex_attempt 0) = False"
    by (simp_all add: ex_attempt_def)
  ultimately show ?thesis
    by (simp add: establish_def ex_location_def ex_desktop_def resolveGatewayTier_def enrollOrMock_def splitForSession_def Let_def)
qed

section \<open>Two hops\<close>

text \<open>
  C4. When the desktop client brings up a tunnel over two hops, both are gateways it has
  discovered, at different addresses, in one country or in two as the style asks; the kill switch
  is the one the user chose, a split is applied only on the premium tier and under the kill
  switch only for bypassed routes; and in the stealth mode the entry advertises AmneziaWG.
\<close>

theorem two_hops_are_as_chosen:
  assumes "establishMultihop w connect fleet entryCountry exitCountry style keypair killSwitch mode tier = (calls, r)"
    and "Connect_multihop a \<in> set calls" and "fleet \<noteq> []"
  shows "\<exists>entry\<in>set fleet. \<exists>exit\<in>set fleet. gw_ip entry \<noteq> gw_ip exit
    \<and> mca_entryCountry a = ir_country entry \<and> mca_exitCountry a = ir_country exit
    \<and> (style = Multihop_same_country \<and> ir_country entry = ir_country exit
       \<or> style = Multihop_cross_jurisdiction \<and> ir_country entry \<noteq> ir_country exit)
    \<and> mca_killSwitch a = killSwitch
    \<and> (\<forall>sp. mca_split a = Some sp \<longrightarrow> tier = Premium \<and> (killSwitch \<longrightarrow> sa_tunnelRoutes sp = []))
    \<and> (mode = Stealth \<longrightarrow> (\<exists>t\<in>set (advertisedOrLegacy (ir_transports entry)). tp_type t = ''awg''))"
proof -
  obtain gws entry exit split where h: "gws = (if 0 < length fleet then fleet else [toGatewayInfo entryCountry, toGatewayInfo exitCountry])"
    "entry \<in> set gws" "exit \<in> set gws" "gw_ip entry \<noteq> gw_ip exit"
    "style = Multihop_same_country \<and> ir_country entry = ir_country exit
       \<or> style = Multihop_cross_jurisdiction \<and> ir_country entry \<noteq> ir_country exit"
    "mca_entryCountry a = ir_country entry" "mca_exitCountry a = ir_country exit"
    "mca_killSwitch a = killSwitch" "mca_split a = split"
    "splitForSession w tier killSwitch [gw_ip entry, gw_ip exit] = Inr split"
    "mode = Stealth \<Longrightarrow> \<exists>t\<in>set (advertisedOrLegacy (ir_transports entry)). tp_type t = ''awg''
       \<and> entry_transport w entry (kp_publicKey keypair) mode tier = Inr (Some t)"
    by (rule establishMultihop_safe [OF assms(1,2)]) (rule that; simp)
  have gws: "gws = fleet" using h(1) assms(3) by simp
  have "\<forall>sp. split = Some sp \<longrightarrow> tier = Premium \<and> (killSwitch \<longrightarrow> sa_tunnelRoutes sp = [])"
    using h(10) split_premium by blast
  with h(2-9,11) show ?thesis unfolding gws by (intro bexI [of _ entry] bexI [of _ exit]) auto
qed

lemma ex_chain: "\<exists>a. Connect_multihop a \<in> set (fst (establishMultihop ex_desktop (\<lambda>_. Inr ex_up) ex_gateways (ex_location ''FR'') (ex_location ''DE'')
    Multihop_cross_jurisdiction ex_keypair True Auto Free)) \<and> mca_entryCountry a = ''FR''"
proof -
  have "selectHops ex_gateways Multihop_cross_jurisdiction (hop_opts Multihop_cross_jurisdiction (ex_location ''FR'') (ex_location ''DE''))
    = Inr (ex_gateway ''10.0.1.2'' ''FR'' (1 / 4), Some (ex_gateway ''10.0.0.1'' ''DE'' (1 / 2)))"
    by code_simp
  moreover have "0 < length ex_gateways" "ir_country (ex_gateway ip cc load) = cc" for ip cc load
    by (simp_all add: ex_gateways_def ex_gateway_def ex_info_def info_response.defs gateway_info.defs)
  ultimately show ?thesis
    by (simp add: establishMultihop_def entry_transport_def enrollOrMock_def splitForSession_def ex_desktop_def Let_def)
qed

theorem two_hops_are_as_chosen_witness:
  "\<exists>entry\<in>set ex_gateways. \<exists>exit\<in>set ex_gateways. gw_ip entry \<noteq> gw_ip exit \<and> ir_country entry = ''FR''"
proof -
  let ?run = "establishMultihop ex_desktop (\<lambda>_. Inr ex_up) ex_gateways (ex_location ''FR'') (ex_location ''DE'')
    Multihop_cross_jurisdiction ex_keypair True Auto Free"
  obtain a where a: "Connect_multihop a \<in> set (fst ?run)" "mca_entryCountry a = ''FR''" using ex_chain by blast
  have "ex_gateways \<noteq> []" by (simp add: ex_gateways_def)
  from two_hops_are_as_chosen [OF surjective_pairing a(1) this] a(2) show ?thesis by auto
qed

section \<open>Disconnecting\<close>

definition ex_store :: local_store where
  "ex_store = \<lparr>lo_local = Some Map.empty, lo_session = Some Map.empty, lo_writable = True\<rparr>"

text \<open>The events of a connect over one hop, from the launch of the app.\<close>

definition ex_launch :: "(millis \<times> hook_event) list" where
  "ex_launch = [(0, E_bootstrapped (Some DOWN) (Inr ([ex_location ''NL'', ex_location ''DE''], []))), (1, E_connect)]"

definition ex_hour :: "(millis \<times> hook_event) list" where
  "ex_hour = ex_launch @ [(2, E_finished (Single_hop 0) (Inr (ex_up, False)))]"

text \<open>What of a state the examples look at.\<close>

definition looks :: "conn \<Rightarrow> phase \<times> string option \<times> millis option \<times> nat \<times> nat \<times> bool" where
  "looks s = (cn_phase s, cn_error s, cn_timer s, length (filter (\<lambda>c. c \<noteq> Call_teardown) (cn_calls s)), cn_attempts s, cn_wasConnected s)"

definition after_events :: "(millis \<times> hook_event) list \<Rightarrow> conn" where
  "after_events es = the (hook_run es (hook_init ex_store))"

lemma ex_runs: "hook_run ex_hour (hook_init ex_store) \<noteq> None" "looks (after_events ex_hour) = (Connected, None, None, 1, 0, True)"
  by code_simp+

text \<open>
  C21. A disconnect over which no connect over two hops is in flight, and after which no
  automatic connect is left, sticks: whatever events follow, short of the user asking for a
  tunnel again, no session is asked for, no timer of a reconnect is pending, no operation that is
  still in flight can end in a tunnel, and once the teardowns have ended the client shows no
  connection.
\<close>

theorem disconnect_sticks:
  assumes "hook_reachable st s" and "\<And>i. Two_hops i \<notin> set (cn_running s)" and "cn_autoConnect s \<Longrightarrow> cn_autoConnected s"
    and "hook_run ((now, E_disconnect) # es) s = Some s'"
    and "\<And>t e. (t, e) \<in> set es \<Longrightarrow> e \<noteq> E_connect \<and> e \<noteq> E_auto_connect True"
  shows "filter (\<lambda>c. c \<noteq> Call_teardown) (cn_calls s') = filter (\<lambda>c. c \<noteq> Call_teardown) (cn_calls s)
    \<and> \<not> hook_enabled E_timer s'
    \<and> (\<forall>op t. \<not> hook_enabled (E_finished op (Inr t)) s')
    \<and> (cn_teardowns s' = 0 \<longrightarrow> cn_phase s' = Idle \<or> cn_phase s' = Failed)"
proof -
  have rest: "at_rest s'" "asked s' = asked s"
    using disconnect_run [OF assms(1-4)] assms(5) by (auto simp: unasked_def)
  have "\<not> hook_enabled (E_finished op (Inr t)) s'" for op t
    using rest(1) by (fastforce simp: at_rest_def)
  moreover have "cn_teardowns s' = 0 \<Longrightarrow> cn_phase s' = Idle \<or> cn_phase s' = Failed"
    using rest(1) by (cases "cn_phase s'") (simp_all add: at_rest_def)
  moreover have "starts = (\<lambda>c. c \<noteq> Call_teardown)" by (simp add: fun_eq_iff starts_def)
  ultimately show ?thesis using rest by (simp add: asked_def at_rest_def)
qed

lemma after_reachable: "hook_run es (hook_init ex_store) \<noteq> None \<Longrightarrow> hook_reachable ex_store (after_events es)"
  by (auto simp: after_events_def intro: run_reachable hook_reachable.start)

lemma ex_disconnect: "cn_running (after_events ex_launch) = [Single_hop 0]" "\<not> cn_autoConnect (after_events ex_launch)"
    "hook_run ex_launch (hook_init ex_store) \<noteq> None"
    "hook_run ((2, E_disconnect) # [(3, E_finished (Single_hop 0) (Inl ''connect cancelled'')), (4, E_torn_down (Inr DOWN))])
       (after_events ex_launch) \<noteq> None"
  by code_simp+

theorem disconnect_sticks_witness:
  "\<exists>s'. hook_run ((2, E_disconnect) # [(3, E_finished (Single_hop 0) (Inl ''connect cancelled'')), (4, E_torn_down (Inr DOWN))])
      (after_events ex_launch) = Some s' \<and> \<not> hook_enabled E_timer s'"
proof -
  obtain s' where run: "hook_run ((2, E_disconnect) # [(3, E_finished (Single_hop 0) (Inl ''connect cancelled'')), (4, E_torn_down (Inr DOWN))])
      (after_events ex_launch) = Some s'" using ex_disconnect(4) by blast
  have "Two_hops i \<notin> set (cn_running (after_events ex_launch))" for i by (simp add: ex_disconnect(1))
  moreover have "cn_autoConnect (after_events ex_launch) \<Longrightarrow> cn_autoConnected (after_events ex_launch)" using ex_disconnect(2) by blast
  ultimately have "\<not> hook_enabled E_timer s'"
    using disconnect_sticks [OF after_reachable [OF ex_disconnect(3)] _ _ run] by auto
  with run show ?thesis by blast
qed

section \<open>Reconnecting\<close>


lemma ex_session_state: "hook_run ex_hour (hook_init ex_store) \<noteq> None" "cn_phase (after_events ex_hour) = Connected"
    "cn_teardowns (after_events ex_hour) = 0" "cn_selected (after_events ex_hour) \<noteq> None" "\<not> cn_multihop (after_events ex_hour)"
  by code_simp+


text \<open>
  C19. Left alone, the client gives up: in a run in which no operation succeeds, the timers of
  reconnects fire at most as often as there are delays, and no more often than the attempts that
  were left when it began.
\<close>

theorem reconnects_are_bounded:
  assumes "hook_reachable st s" and "hook_run es s = Some s'"
    and "\<And>t op x. (t, E_finished op (Inr x)) \<notin> set es" and "\<And>t x y. (t, E_bootstrapped x y) \<notin> set es"
  shows "length (filter (\<lambda>(t, e). e = E_timer) es) \<le> length RECONNECT_DELAYS_MS - cn_attempts s + (if cn_timer s = None then 0 else 1)
    \<and> length (filter (\<lambda>(t, e). e = E_timer) es) \<le> 6"
proof -
  have "\<forall>(t, e)\<in>set es. fruitless e"
    using assms(3,4) by (auto simp: fruitless_def split: hook_event.split sum.split)
  from timers_bounded [OF assms(2) this] have "length (filter (\<lambda>(t, e). e = E_timer) es) \<le> attempts_left s" by simp
  moreover have "attempts_left s \<le> 6"
    using left_at_most [OF waiting_reachable [OF assms(1)]] by (simp add: RECONNECT_DELAYS_MS_def)
  ultimately show ?thesis by (simp add: attempts_left_def)
qed

text \<open>A tunnel that drops and whose reconnects all fail: after the sixth the client stops.\<close>

definition ex_retry :: "nat \<Rightarrow> (millis \<times> hook_event) list" where
  "ex_retry i = [(10, E_timer), (11, E_finished (Single_hop i) (Inl ''no answer''))]"

definition ex_outage :: "(millis \<times> hook_event) list" where
  "ex_outage = [(3, E_poll), (4, E_polled (Some DOWN))] @ concat (map ex_retry [1..<7])"

lemma ex_outage_run: "hook_run ex_outage (after_events ex_hour) \<noteq> None"
    "length (filter (\<lambda>(t, e). e = E_timer) ex_outage) = 6"
    "looks (the (hook_run ex_outage (after_events ex_hour))) = (Failed, Some ''no answer'', None, 7, 6, False)"
  by code_simp+

theorem reconnects_are_bounded_witness:
  "\<exists>s'. hook_run ex_outage (after_events ex_hour) = Some s' \<and> length (filter (\<lambda>(t, e). e = E_timer) ex_outage) \<le> 6"
proof -
  obtain s' where run: "hook_run ex_outage (after_events ex_hour) = Some s'" using ex_outage_run(1) by blast
  have "(t, E_finished op (Inr x)) \<notin> set ex_outage" "(t, E_bootstrapped y z) \<notin> set ex_outage" for t op x y z
    by (auto simp: ex_outage_def ex_retry_def)
  from reconnects_are_bounded [OF after_reachable [OF ex_session_state(1)] run this] run show ?thesis by blast
qed

section \<open>Where the hook does otherwise\<close>

text \<open>
  A connect over two hops has no signal: a disconnect during it is undone when it ends, and the
  client shows a connection that the user has given up.
\<close>

definition ex_cancelled_chain :: "(millis \<times> hook_event) list" where
  "ex_cancelled_chain = [(0, E_bootstrapped (Some DOWN) (Inr ([ex_location ''NL'', ex_location ''DE''], []))), (1, E_multihop True), (2, E_connect),
     (3, E_disconnect), (4, E_torn_down (Inr DOWN)), (5, E_finished (Two_hops 0) (Inr (ex_up, False)))]"

lemma chain_outlives_disconnect:
  "hook_run ex_cancelled_chain (hook_init ex_store) \<noteq> None \<and> cn_phase (after_events ex_cancelled_chain) = Connected
    \<and> cn_tunnel (after_events ex_cancelled_chain) = ex_up \<and> cn_teardowns (after_events ex_cancelled_chain) = 0"
  by code_simp

text \<open>
  Auto-connect that is switched on during a session is taken for that of a launch: the next
  disconnect connects again at once.
\<close>

definition ex_late_auto :: "(millis \<times> hook_event) list" where
  "ex_late_auto = ex_hour @ [(3, E_auto_connect True), (4, E_disconnect), (5, E_torn_down (Inr DOWN))]"

lemma late_auto_connect_reconnects:
  "hook_run ex_late_auto (hook_init ex_store) \<noteq> None \<and> cn_phase (after_events ex_late_auto) = Connecting
    \<and> length (filter (\<lambda>c. c \<noteq> Call_teardown) (cn_calls (after_events ex_late_auto))) = 2"
  by code_simp

text \<open>
  Each change of a setting while the client waits for a reconnect counts as an attempt: after six
  of them it gives up, with none made.
\<close>

definition ex_settings :: "(millis \<times> hook_event) list" where
  "ex_settings = ex_hour @ [(3, E_poll), (4, E_polled (Some DOWN))]
     @ concat (replicate 3 [(5, E_kill_switch False), (5, E_kill_switch True)])"

lemma settings_burn_reconnects:
  "hook_run ex_settings (hook_init ex_store) \<noteq> None
    \<and> looks (after_events ex_settings) = (Failed, Some ''connection lost'', None, 1, 6, False)"
  by code_simp

text \<open>A connect over one hop that the user gives up ends in an error when its teardown is the faster.\<close>

definition ex_cancelled :: "(millis \<times> hook_event) list" where
  "ex_cancelled = ex_launch @ [(2, E_disconnect), (3, E_torn_down (Inr DOWN)), (4, E_finished (Single_hop 0) (Inl ''connect cancelled''))]"

lemma cancelled_connect_shows_error:
  "hook_run ex_cancelled (hook_init ex_store) \<noteq> None
    \<and> looks (after_events ex_cancelled) = (Failed, Some ''connect cancelled'', None, 1, 0, False)"
  by code_simp

text \<open>
  A session that is found dropped at a launch where the fleet cannot be listed has no country to
  connect to: the timer fires once, does nothing, and no other is set.
\<close>

definition ex_relaunch :: "(millis \<times> hook_event) list" where
  "ex_relaunch = [(0, E_bootstrapped (Some (DOWN\<lparr>ts_state := T_error\<rparr>)) (Inl ''offline'')), (5000, E_timer),
     (6000, E_refreshed (Inr ([ex_location ''NL''], [])))]"

lemma relaunch_without_fleet_stops:
  "hook_run ex_relaunch (hook_init ex_store) \<noteq> None
    \<and> looks (after_events ex_relaunch) = (Failed, Some ''connection lost'', None, 0, 1, True)"
  by code_simp

end
