(* ===== verification/Backup.thy ===== *)
theory Backup
  imports ClientKeys
begin

text \<open>
  The identity of a phone across uninstalls (clients/mobile/src/state/identity.ts and
  native/CumulusIdentity.ts). A place is one store of the native side, as it behaves during one
  operation: whether it exists on the device, whether it answers a read, what it holds, and what
  becomes of a write. The key storage of the app is the identity it holds, if any.
\<close>

section \<open>Places\<close>

datatype backup_where = Cloud | Device | Nowhere

text \<open>
  \<open>pl_save\<close> is what a write answers, \<open>None\<close> where it rejects, and whether the secret has been
  stored: a write that rejects may have stored it.
\<close>

record place =
  pl_exists :: bool
  pl_reads :: bool
  pl_value :: "string option"
  pl_save :: "backup_where option \<times> bool"
  pl_remove :: bool

datatype slot = Unknown_slot | Unavailable_slot | Empty_slot | Held_slot keypair

record backup_status =
  bs_where :: "backup_where option"
  bs_other :: "string option"

definition BACKUP_OFF :: backup_status where
  "BACKUP_OFF = \<lparr>bs_where = None, bs_other = None\<rparr>"

text \<open>The read of a place: \<open>None\<close> where it rejects, and inside it \<open>None\<close> where there is no backup.\<close>

definition place_load :: "place \<Rightarrow> string option option option" where
  "place_load p =
     (if \<not> pl_exists p then Some None
      else if \<not> pl_reads p then None
      else Some (Some (if pl_value p = Some [] then None else pl_value p)))"

definition place_save :: "string \<Rightarrow> place \<Rightarrow> backup_where option \<times> place" where
  "place_save secret p =
     (if \<not> pl_exists p then (Some Nowhere, p)
      else (fst (pl_save p), if snd (pl_save p) then p\<lparr>pl_value := Some secret\<rparr> else p))"

definition place_remove :: "place \<Rightarrow> place" where
  "place_remove p = (if pl_exists p \<and> pl_remove p then p\<lparr>pl_value := None\<rparr> else p)"

definition parse_backup :: "crypto \<Rightarrow> string \<Rightarrow> keypair option" where
  "parse_backup cr v = (case decodeRecoveryKey cr v of Inl e \<Rightarrow> None | Inr kp \<Rightarrow> Some kp)"

definition backup_codeOf :: "crypto \<Rightarrow> keypair \<Rightarrow> string option" where
  "backup_codeOf cr kp = paymentCode cr (kp_publicKey kp)"

definition readSlot :: "crypto \<Rightarrow> place \<Rightarrow> slot" where
  "readSlot cr port =
     (case place_load port of
        None \<Rightarrow> Unknown_slot
      | Some None \<Rightarrow> Unavailable_slot
      | Some (Some v) \<Rightarrow>
          (case Option.bind v (parse_backup cr) of None \<Rightarrow> Empty_slot | Some kp \<Rightarrow> Held_slot kp))"

definition readSlots :: "crypto \<Rightarrow> place list \<Rightarrow> slot list" where
  "readSlots cr backups = map (readSlot cr) backups"

fun firstHeld :: "slot list \<Rightarrow> keypair option" where
  "firstHeld [] = None"
| "firstHeld (s # ss) = (case s of Held_slot kp \<Rightarrow> Some kp | _ \<Rightarrow> firstHeld ss)"

definition write_place :: "crypto \<Rightarrow> place \<Rightarrow> keypair \<Rightarrow> backup_where option \<times> place" where
  "write_place cr port kp =
     (case encodeRecoveryKey cr (kp_privateKey kp) of None \<Rightarrow> (None, port) | Some r \<Rightarrow> place_save r port)"

definition whereOf :: "slot list \<Rightarrow> backup_where option list \<Rightarrow> backup_where option" where
  "whereOf slots saved =
     (case find (\<lambda>w. w = Some Cloud \<or> w = Some Device) saved of
        Some w \<Rightarrow> w
      | None \<Rightarrow>
          if list_all (\<lambda>(s, w). s = Unavailable_slot \<or> w = Some Nowhere) (zip slots saved) then Some Nowhere else None)"

section \<open>Writing\<close>

text \<open>
  The loop of \<open>writeAll\<close>: the code of the first identity that is in the way, what the writes
  answered, and the places; the answer is \<open>None\<close> where \<open>codeOf\<close> throws.
\<close>

fun write_slots ::
  "crypto \<Rightarrow> keypair \<Rightarrow> string list \<Rightarrow> (slot \<times> place) list \<Rightarrow>
   (string option \<times> backup_where option list) option \<times> place list" where
  "write_slots cr kp allowed [] = (Some (None, []), [])"
| "write_slots cr kp allowed ((s, p) # rest) =
     (let written = (let (w, p') = write_place cr p kp; (r, ps) = write_slots cr kp allowed rest
                     in (map_option (\<lambda>(other, saved). (other, w # saved)) r, p' # ps));
          kept = (\<lambda>c. let (r, ps) = write_slots cr kp allowed rest
                     in (map_option (\<lambda>(other, saved). (if c = None then other else c, None # saved)) r, p # ps))
      in case s of
           Held_slot k \<Rightarrow>
             (case backup_codeOf cr k of
                None \<Rightarrow> (None, p # map snd rest)
              | Some c \<Rightarrow> if c \<in> set allowed then written else kept (Some c))
         | Empty_slot \<Rightarrow> written
         | _ \<Rightarrow> kept None)"

definition writeAll ::
  "crypto \<Rightarrow> keypair \<Rightarrow> place list \<Rightarrow> slot list \<Rightarrow> string list \<Rightarrow> backup_status option \<times> place list" where
  "writeAll cr kp backups slots replacing =
     (case backup_codeOf cr kp of
        None \<Rightarrow> (None, backups)
      | Some c \<Rightarrow>
          (let (r, ps) = write_slots cr kp (c # replacing) (zip slots backups)
           in (map_option (\<lambda>(other, saved).
                 if other \<noteq> None \<and> other \<noteq> Some [] then \<lparr>bs_where = None, bs_other = other\<rparr>
                 else \<lparr>bs_where = whereOf slots saved, bs_other = None\<rparr>) r, ps)))"

definition readBackedUp :: "crypto \<Rightarrow> place list \<Rightarrow> string option \<Rightarrow> keypair option" where
  "readBackedUp cr backups code =
     firstHeld (filter (\<lambda>s. case s of Held_slot kp \<Rightarrow> code = None \<or> backup_codeOf cr kp = code | _ \<Rightarrow> False)
       (readSlots cr backups))"

definition replaceBackup :: "crypto \<Rightarrow> keypair \<Rightarrow> place list \<Rightarrow> string list \<Rightarrow> backup_status option \<times> place list" where
  "replaceBackup cr kp backups replacing = writeAll cr kp backups (readSlots cr backups) replacing"

definition differs :: "keypair \<Rightarrow> slot \<Rightarrow> bool" where
  "differs kp s = (case s of Held_slot k \<Rightarrow> kp_privateKey k \<noteq> kp_privateKey kp | _ \<Rightarrow> False)"

definition syncBackup :: "crypto \<Rightarrow> keypair \<Rightarrow> place list \<Rightarrow> backup_status option \<times> place list" where
  "syncBackup cr kp backups =
     (let slots = readSlots cr backups
      in case firstHeld (filter (differs kp) slots) of
           None \<Rightarrow> writeAll cr kp backups slots []
         | Some k \<Rightarrow>
             (let backedUp = the_default k (firstHeld slots)
              in (map_option (\<lambda>c. \<lparr>bs_where = None, bs_other = Some c\<rparr>) (backup_codeOf cr k),
                  map (\<lambda>(s, p). if s = Empty_slot then snd (write_place cr p backedUp) else p) (zip slots backups))))"

definition removeBackup :: "place list \<Rightarrow> place list" where
  "removeBackup backups = map place_remove backups"

record resolved_identity =
  ri_keypair :: keypair
  ri_restored :: bool
  ri_backup :: "backup_status option"

text \<open>The identity, the key storage and the places; \<open>seed\<close> is what a new key is drawn from.\<close>

definition resolveIdentity ::
  "crypto \<Rightarrow> bytes \<Rightarrow> keypair option \<Rightarrow> place list \<Rightarrow> bool \<Rightarrow> resolved_identity \<times> keypair option \<times> place list" where
  "resolveIdentity cr seed stored backups backupEnabled =
     (let synced = (\<lambda>kp. if backupEnabled then syncBackup cr kp backups else (Some BACKUP_OFF, backups))
      in case stored of
           Some kp \<Rightarrow> (let (b, ps) = synced kp
                      in (\<lparr>ri_keypair = kp, ri_restored = False, ri_backup = b\<rparr>, stored, ps))
         | None \<Rightarrow>
             (let slots = (if backupEnabled then readSlots cr backups else [])
              in case firstHeld slots of
                   Some kp \<Rightarrow> (let (b, ps) = syncBackup cr kp backups
                              in (\<lparr>ri_keypair = kp, ri_restored = True, ri_backup = b\<rparr>, Some kp, ps))
                 | None \<Rightarrow>
                     (let fresh = generateKeypair cr seed;
                          (b, ps) = (if backupEnabled \<and> Unknown_slot \<notin> set slots then syncBackup cr fresh backups
                                     else (Some BACKUP_OFF, backups))
                      in (\<lparr>ri_keypair = fresh, ri_restored = False, ri_backup = b\<rparr>, Some fresh, ps))))"

section \<open>What a place holds\<close>

text \<open>The identity a place holds, whether or not it can be read just now.\<close>

definition holds :: "crypto \<Rightarrow> place \<Rightarrow> keypair option" where
  "holds cr p = (if pl_exists p \<and> pl_value p \<noteq> Some [] then Option.bind (pl_value p) (parse_backup cr) else None)"

lemma readSlot_Held: "readSlot cr p = Held_slot kp \<Longrightarrow> holds cr p = Some kp \<and> pl_reads p"
  by (auto simp: readSlot_def place_load_def holds_def split: if_splits option.splits)

lemma readSlot_holds: "holds cr p = Some kp \<Longrightarrow> readSlot cr p = (if pl_reads p then Held_slot kp else Unknown_slot)"
  by (auto simp: readSlot_def place_load_def holds_def split: option.splits if_splits)

text \<open>An identity that its recovery key gives back.\<close>

definition recoverable :: "crypto \<Rightarrow> keypair \<Rightarrow> bool" where
  "recoverable cr kp \<longleftrightarrow> (\<exists>r. encodeRecoveryKey cr (kp_privateKey kp) = Some r \<and> parse_backup cr r = Some kp)"

lemma generated_recoverable: "crypto_ok cr \<Longrightarrow> length seed = 32 \<Longrightarrow> recoverable cr (generateKeypair cr seed)"
  using recovery_roundtrip [of cr "kp_privateKey (generateKeypair cr seed)" "clamp seed"]
  by (auto simp: recoverable_def parse_backup_def generateKeypair_def crypto_ok_def clamp_idem Let_def)

lemma encoded_not_Nil: "encodeRecoveryKey cr s = Some r \<Longrightarrow> r \<noteq> []"
  by (auto simp: encodeRecoveryKey_def RECOVERY_KEY_PREFIX_def Let_def join_eq_Nil split: option.splits if_splits)

lemma parsed_recoverable:
  assumes ok: "crypto_ok cr" and "parse_backup cr v = Some kp" shows "recoverable cr kp"
proof -
  have d: "decodeRecoveryKey cr v = Inr kp" using assms(2) by (auto simp: parse_backup_def split: sum.splits)
  then obtain body where b: "cr_b58_decode cr (strip_recovery v) = Some body" "length body = 37"
    by (auto simp: decodeRecoveryKey_def KEY_BYTES_def CHECKSUM_BYTES_def split: option.splits if_splits)
  let ?key = "drop 1 (take 33 body)"
  have kp: "kp = \<lparr>kp_publicKey = cr_b64_encode cr (cr_x25519_public cr (clamp ?key)), kp_privateKey = cr_b64_encode cr ?key\<rparr>"
    using d unfolding decode_body [OF ok b] by (auto simp: Let_def split: if_splits)
  have "cr_b64_decode cr (kp_privateKey kp) = Some ?key" "length ?key = 32" using ok b(2) by (simp_all add: kp crypto_ok_def)
  from recovery_roundtrip [OF ok this] show ?thesis by (auto simp: recoverable_def parse_backup_def kp)
qed

section \<open>No copy of another identity is overwritten\<close>

lemma write_keeps_shape: "length (snd (write_slots cr kp allowed sps)) = length sps"
  by (induction sps) (auto simp: Let_def split: slot.split option.split prod.split)

lemma write_slots_nth:
  assumes "i < length sps"
  shows "snd (write_slots cr kp allowed sps) ! i = snd (sps ! i)
    \<or> snd (write_slots cr kp allowed sps) ! i = snd (write_place cr (snd (sps ! i)) kp)
      \<and> (fst (sps ! i) = Empty_slot \<or> (\<exists>k. fst (sps ! i) = Held_slot k \<and> (\<exists>c\<in>set allowed. backup_codeOf cr k = Some c)))"
  using assms
proof (induction sps arbitrary: i)
  case (Cons sp sps)
  obtain s p where sp: "sp = (s, p)" by fastforce
  show ?case
  proof (cases i)
    case 0
    then show ?thesis by (auto simp: sp Let_def split: slot.split option.split prod.split)
  next
    case (Suc j)
    have t: "snd (write_slots cr kp allowed ((s, p) # sps)) ! Suc j = snd (sps ! j)
      \<or> snd (write_slots cr kp allowed ((s, p) # sps)) ! Suc j = snd (write_slots cr kp allowed sps) ! j"
      using Cons.prems Suc by (auto simp: Let_def split: slot.split option.split prod.split)
    show ?thesis using Cons.IH [of j] Cons.prems t by (auto simp: sp Suc)
  qed
qed simp

text \<open>
  After an operation a place is what it was, or holds the identity that was written, where the
  place could be read and held nothing or an identity that may be replaced.
\<close>

definition spared :: "crypto \<Rightarrow> place list \<Rightarrow> place list \<Rightarrow> (keypair \<Rightarrow> bool) \<Rightarrow> keypair \<Rightarrow> bool" where
  "spared cr ps ps' may kp \<longleftrightarrow> length ps' = length ps \<and>
     (\<forall>i<length ps. ps' ! i = ps ! i
        \<or> pl_reads (ps ! i) \<and> (\<forall>k. holds cr (ps ! i) = Some k \<longrightarrow> may k) \<and> ps' ! i = snd (write_place cr (ps ! i) kp))"

lemma spared_refl [simp]: "spared cr ps ps may kp"
  by (simp add: spared_def)

lemma readSlots_simps [simp]: "length (readSlots cr ps) = length ps" "i < length ps \<Longrightarrow> readSlots cr ps ! i = readSlot cr (ps ! i)"
  by (simp_all add: readSlots_def)

lemma readSlot_Empty: "readSlot cr p = Empty_slot \<Longrightarrow> pl_reads p \<and> holds cr p = None"
  by (auto simp: readSlot_def place_load_def holds_def split: if_splits option.splits)

lemma writeAll_spares:
  "spared cr ps (snd (writeAll cr kp ps (readSlots cr ps) replacing))
     (\<lambda>k. \<exists>c. backup_codeOf cr k = Some c \<and> (backup_codeOf cr kp = Some c \<or> c \<in> set replacing)) kp"
proof (cases "backup_codeOf cr kp")
  case (Some c)
  let ?sps = "zip (readSlots cr ps) ps"
  have "spared cr ps (snd (write_slots cr kp (c # replacing) ?sps))
      (\<lambda>k. \<exists>c. backup_codeOf cr k = Some c \<and> (backup_codeOf cr kp = Some c \<or> c \<in> set replacing)) kp"
    unfolding spared_def
  proof (intro conjI allI impI)
    fix i assume i: "i < length ps"
    show "snd (write_slots cr kp (c # replacing) ?sps) ! i = ps ! i
      \<or> pl_reads (ps ! i) \<and> (\<forall>k. holds cr (ps ! i) = Some k \<longrightarrow>
            (\<exists>c. backup_codeOf cr k = Some c \<and> (backup_codeOf cr kp = Some c \<or> c \<in> set replacing)))
        \<and> snd (write_slots cr kp (c # replacing) ?sps) ! i = snd (write_place cr (ps ! i) kp)"
      using write_slots_nth [of i ?sps cr kp "c # replacing"] i Some
      by (auto dest!: readSlot_Empty readSlot_Held)
  qed (simp add: write_keeps_shape)
  then show ?thesis by (auto simp: writeAll_def Some split: prod.split)
qed (simp add: writeAll_def)

lemma firstHeld_Some: "firstHeld ss = Some k \<Longrightarrow> Held_slot k \<in> set ss"
  by (induction ss) (auto split: slot.splits)

lemma firstHeld_None: "firstHeld ss = None \<longleftrightarrow> (\<forall>k. Held_slot k \<notin> set ss)"
  by (induction ss) (auto split: slot.splits)

lemma spared_mono: "spared cr ps ps' may kp \<Longrightarrow> (\<And>i k. i < length ps \<Longrightarrow> pl_reads (ps ! i) \<Longrightarrow> holds cr (ps ! i) = Some k
    \<Longrightarrow> may k \<Longrightarrow> may' k) \<Longrightarrow> spared cr ps ps' may' kp"
  unfolding spared_def by blast

lemma sync_spares:
  "\<exists>w. spared cr ps (snd (syncBackup cr kp ps)) (\<lambda>k. kp_privateKey k = kp_privateKey kp) w
    \<and> (w = kp \<or> firstHeld (readSlots cr ps) = Some w)"
proof (cases "firstHeld (filter (differs kp) (readSlots cr ps))")
  case None
  then have same: "Held_slot k \<in> set (readSlots cr ps) \<Longrightarrow> kp_privateKey k = kp_privateKey kp" for k
    by (auto simp: firstHeld_None differs_def)
  have "spared cr ps (snd (syncBackup cr kp ps)) (\<lambda>k. kp_privateKey k = kp_privateKey kp) kp"
    unfolding syncBackup_def Let_def None option.case
  proof (rule spared_mono [OF writeAll_spares])
    fix i k assume "i < length ps" "pl_reads (ps ! i)" "holds cr (ps ! i) = Some k"
    then have "readSlots cr ps ! i = Held_slot k" by (simp add: readSlot_holds)
    with \<open>i < length ps\<close> show "kp_privateKey k = kp_privateKey kp"
      by (metis same nth_mem readSlots_simps(1))
  qed
  then show ?thesis by blast
next
  case (Some k)
  let ?w = "the_default k (firstHeld (readSlots cr ps))"
  have "Held_slot k \<in> set (readSlots cr ps)" using firstHeld_Some [OF Some] by auto
  then have "firstHeld (readSlots cr ps) = Some ?w"
    using firstHeld_None [of "readSlots cr ps"] by (cases "firstHeld (readSlots cr ps)") auto
  moreover have "spared cr ps (snd (syncBackup cr kp ps)) (\<lambda>k. kp_privateKey k = kp_privateKey kp) ?w"
    unfolding spared_def by (auto simp: syncBackup_def Some Let_def dest: readSlot_Empty)
  ultimately show ?thesis by blast
qed

text \<open>An operation spares a place that could not be read, and one that holds another identity.\<close>

lemma sparedD:
  assumes "spared cr ps ps' may kp" "i < length ps" and "\<not> pl_reads (ps ! i) \<or> (\<exists>k. holds cr (ps ! i) = Some k \<and> \<not> may k)"
  shows "ps' ! i = ps ! i"
  using assms unfolding spared_def by blast

section \<open>The identity comes back\<close>

lemma recoverable_unique:
  "recoverable cr a \<Longrightarrow> recoverable cr b \<Longrightarrow> kp_privateKey a = kp_privateKey b \<Longrightarrow> a = b"
  by (auto simp: recoverable_def)

lemma holds_recoverable: "crypto_ok cr \<Longrightarrow> holds cr p = Some k \<Longrightarrow> recoverable cr k"
  by (auto simp: holds_def intro: parsed_recoverable split: if_splits bind_splits)

lemma written_holds:
  assumes "recoverable cr kp" "pl_exists p" "snd (pl_save p)"
  shows "holds cr (snd (write_place cr p kp)) = Some kp" "pl_reads (snd (write_place cr p kp)) = pl_reads p"
  using assms by (auto simp: recoverable_def write_place_def place_save_def holds_def dest: encoded_not_Nil)

text \<open>With nothing in the way every place that can be written is.\<close>

lemma write_slots_all:
  assumes "\<And>s p. (s, p) \<in> set sps \<Longrightarrow> s = Empty_slot \<or> s = Unavailable_slot"
  shows "snd (write_slots cr kp allowed sps) = map (\<lambda>(s, p). if s = Empty_slot then snd (write_place cr p kp) else p) sps"
  using assms
proof (induction sps)
  case (Cons sp sps)
  obtain s p where sp: "sp = (s, p)" by fastforce
  have "s = Empty_slot \<or> s = Unavailable_slot" using Cons.prems sp by auto
  moreover have "snd (write_slots cr kp allowed sps) = map (\<lambda>(s, p). if s = Empty_slot then snd (write_place cr p kp) else p) sps"
    using Cons by auto
  ultimately show ?case by (auto simp: sp Let_def split: prod.split)
qed simp

lemma fresh_identity_written:
  assumes code: "backup_codeOf cr kp \<noteq> None"
    and empty: "\<And>p. p \<in> set ps \<Longrightarrow> holds cr p = None \<and> (pl_exists p \<longrightarrow> pl_reads p)"
  shows "snd (syncBackup cr kp ps) = map (\<lambda>p. if pl_exists p then snd (write_place cr p kp) else p) ps"
proof -
  have slot: "readSlot cr p = (if pl_exists p then Empty_slot else Unavailable_slot)" if "p \<in> set ps" for p
    using empty [OF that] by (auto simp: readSlot_def place_load_def holds_def split: option.split if_splits)
  have "firstHeld (filter (differs kp) (readSlots cr ps)) = None"
    by (auto simp: firstHeld_None readSlots_def slot)
  moreover have "snd (write_slots cr kp (c # []) (zip (readSlots cr ps) ps))
      = map (\<lambda>p. if pl_exists p then snd (write_place cr p kp) else p) ps" for c
    by (subst write_slots_all) (auto simp: readSlots_def zip_map1 zip_same_conv_map slot split: if_splits)
  ultimately show ?thesis using code by (auto simp: syncBackup_def writeAll_def Let_def case_prod_unfold)
qed

lemma resolve_spares:
  assumes "resolveIdentity cr seed stored ps enabled = (r, stored', ps')"
  shows "stored' = Some (ri_keypair r)" "stored \<noteq> None \<Longrightarrow> stored = Some (ri_keypair r)"
    "enabled \<or> ps' = ps" "ps' = ps \<or> ps' = snd (syncBackup cr (ri_keypair r) ps)"
    "ri_restored r \<Longrightarrow> stored = None \<and> firstHeld (readSlots cr ps) = Some (ri_keypair r)"
    "\<lbrakk>stored = None; \<not> ri_restored r; enabled; ps' \<noteq> ps\<rbrakk> \<Longrightarrow> Unknown_slot \<notin> set (readSlots cr ps)"
  using assms by (auto simp: resolveIdentity_def Let_def split: option.splits prod.splits if_splits)

lemma generated_has_code:
  assumes "crypto_ok cr" "\<And>k. length (cr_x25519_public cr k) = 32"
  shows "backup_codeOf cr (generateKeypair cr seed) \<noteq> None"
  using assms by (simp add: backup_codeOf_def paymentCode_def generateKeypair_def crypto_ok_def Let_def)

lemma firstHeld_all_same:
  assumes "\<And>k. Held_slot k \<in> set ss \<Longrightarrow> k = kp" "Held_slot kp \<in> set ss"
  shows "firstHeld ss = Some kp"
proof (cases "firstHeld ss")
  case None
  then show ?thesis using assms(2) by (simp add: firstHeld_None)
next
  case (Some k)
  then show ?thesis using assms(1) [OF firstHeld_Some] by auto
qed

text \<open>
  A first launch with a place that takes the backup, and a launch after the app has been deleted
  and installed again: the identity is the same.
\<close>

lemma reinstall_restores:
  assumes ok: "crypto_ok cr" "\<And>k. length (cr_x25519_public cr k) = 32" "length seed = 32"
    and empty: "\<And>p. p \<in> set ps \<Longrightarrow> holds cr p = None \<and> (pl_exists p \<longrightarrow> pl_reads p)"
    and took: "p \<in> set ps" "pl_exists p" "snd (pl_save p)"
    and first: "resolveIdentity cr seed None ps True = (r, stored, ps')"
  shows "ri_keypair (fst (resolveIdentity cr seed' None ps' True)) = ri_keypair r
    \<and> ri_restored (fst (resolveIdentity cr seed' None ps' True))"
proof -
  let ?kp = "generateKeypair cr seed"
  have slot: "readSlot cr q = (if pl_exists q then Empty_slot else Unavailable_slot)" if "q \<in> set ps" for q
    using empty [OF that] by (auto simp: readSlot_def place_load_def holds_def split: option.split if_splits)
  then have none: "firstHeld (readSlots cr ps) = None" "Unknown_slot \<notin> set (readSlots cr ps)"
    by (auto simp: firstHeld_None readSlots_def split: if_splits)
  have r: "ri_keypair r = ?kp" and ps': "ps' = snd (syncBackup cr ?kp ps)"
    using first by (auto simp: resolveIdentity_def none Let_def split: prod.splits)
  have written: "ps' = map (\<lambda>p. if pl_exists p then snd (write_place cr p ?kp) else p) ps"
    unfolding ps' by (rule fresh_identity_written [OF generated_has_code [OF ok(1,2)] empty])
  have rec: "recoverable cr ?kp" by (rule generated_recoverable [OF ok(1,3)])
  have "k = ?kp" if "Held_slot k \<in> set (readSlots cr ps')" for k
  proof -
    obtain q where q: "q \<in> set ps" "readSlot cr (if pl_exists q then snd (write_place cr q ?kp) else q) = Held_slot k"
      using \<open>Held_slot k \<in> set (readSlots cr ps')\<close> by (auto simp: written readSlots_def)
    then have "pl_exists q" "snd (pl_save q)" using slot [OF q(1)]
      by (auto simp: write_place_def place_save_def split: if_splits option.splits)
    with readSlot_Held [OF q(2)] written_holds(1) [OF rec, of q] show ?thesis by simp
  qed
  moreover have "Held_slot ?kp \<in> set (readSlots cr ps')"
  proof -
    have "readSlot cr (snd (write_place cr p ?kp)) = Held_slot ?kp"
      using written_holds [OF rec took(2,3)] empty [OF took(1)] took(2) by (simp add: readSlot_holds)
    with took show ?thesis by (force simp: written readSlots_def)
  qed
  ultimately have "firstHeld (readSlots cr ps') = Some ?kp" by (rule firstHeld_all_same)
  then show ?thesis by (simp add: resolveIdentity_def r Let_def split: prod.split)
qed

end
