(* ===== verification/Relay.thy ===== *)
theory Relay
  imports ClientKeys
begin

text \<open>
  How a request to a gateway is carried through the tunnel extension of a phone
  (clients/mobile/src/lib/gatewayFetch.ts): base64 and UTF-8, written out because the phone has
  neither. A text is the list of its code points, without lone surrogates.
\<close>

section \<open>Base64\<close>

definition ALPHABET :: string where
  "ALPHABET = ''ABCDEFGHIJKLMNOPQRSTUVWXYZabcdefghijklmnopqrstuvwxyz0123456789+/''"

definition sextet :: "nat \<Rightarrow> char" where
  "sextet n = ALPHABET ! (n mod 64)"

fun bytesToBase64 :: "bytes \<Rightarrow> string" where
  "bytesToBase64 [] = []"
| "bytesToBase64 [a] = (let n = unat a * 65536 in [sextet (n div 262144), sextet (n div 4096), CHR ''='', CHR ''=''])"
| "bytesToBase64 [a, b] =
     (let n = unat a * 65536 + unat b * 256
      in [sextet (n div 262144), sextet (n div 4096), sextet (n div 64), CHR ''=''])"
| "bytesToBase64 (a # b # c # rest) =
     (let n = unat a * 65536 + unat b * 256 + unat c
      in sextet (n div 262144) # sextet (n div 4096) # sextet (n div 64) # sextet n # bytesToBase64 rest)"

fun position :: "char \<Rightarrow> string \<Rightarrow> nat" where
  "position c [] = 0"
| "position c (d # ds) = (if c = d then 0 else Suc (position c ds))"

text \<open>
  The loop: \<open>bits\<close> bits are waiting in \<open>value\<close>, which the code keeps in 32 bits; the bits above
  those that are waiting never leave it.
\<close>

fun base64_loop :: "nat \<Rightarrow> nat \<Rightarrow> string \<Rightarrow> bytes" where
  "base64_loop bits v [] = []"
| "base64_loop bits v (ch # chs) =
     (let v' = (v * 64 + position ch ALPHABET) mod 4294967296; bits' = bits + 6
      in if 8 \<le> bits' then word_of_nat (v' div 2 ^ (bits' - 8) mod 256) # base64_loop (bits' - 8) v' chs
         else base64_loop bits' v' chs)"

definition base64ToBytes :: "string \<Rightarrow> bytes" where
  "base64ToBytes text = base64_loop 0 0 (filter (\<lambda>c. c \<in> set ALPHABET) text)"

section \<open>UTF-8\<close>

definition utf8_char :: "nat \<Rightarrow> nat list" where
  "utf8_char cp =
     (if cp < 0x80 then [cp]
      else if cp < 0x800 then [0xc0 + cp div 64, 0x80 + cp mod 64]
      else if cp < 0x10000 then [0xe0 + cp div 4096, 0x80 + cp div 64 mod 64, 0x80 + cp mod 64]
      else [0xf0 + cp div 262144, 0x80 + cp div 4096 mod 64, 0x80 + cp div 64 mod 64, 0x80 + cp mod 64])"

definition utf8Encode :: "nat list \<Rightarrow> nat list" where
  "utf8Encode cps = concat (map utf8_char cps)"

definition utf8_length :: "nat \<Rightarrow> nat" where
  "utf8_length b = (if b < 0x80 then 1 else if b div 32 = 6 then 2 else if b div 16 = 14 then 3 else if b div 8 = 30 then 4 else 0)"

text \<open>\<open>None\<close> where \<open>fromCodePoint\<close> throws.\<close>

function utf8Decode :: "nat list \<Rightarrow> nat list option" where
  "utf8Decode bs =
     (case bs of [] \<Rightarrow> Some []
      | b # rest \<Rightarrow>
          (let len = utf8_length b
           in if len = 0 \<or> length bs < len then map_option ((#) 0xfffd) (utf8Decode rest)
              else (let cp = fold (\<lambda>x cp. cp * 64 + x mod 64) (take (len - 1) rest) (if len = 1 then b else b mod 2 ^ (7 - len))
                    in if 0x10ffff < cp then None else map_option ((#) cp) (utf8Decode (drop (len - 1) rest)))))"
  by auto
termination by (relation "measure length") auto

declare utf8Decode.simps [simp del]

section \<open>What is encoded is decoded\<close>

lemma utf8_step: "utf8_length b \<noteq> 0 \<Longrightarrow> length xs = utf8_length b - 1
    \<Longrightarrow> fold (\<lambda>x cp. cp * 64 + x mod 64) xs (if utf8_length b = 1 then b else b mod 2 ^ (7 - utf8_length b)) = cp
    \<Longrightarrow> cp < 0x110000 \<Longrightarrow> utf8Decode (b # xs @ ys) = map_option ((#) cp) (utf8Decode ys)"
  by (subst utf8Decode.simps) (simp add: Let_def)

lemma low_six: "(0x80 + x mod 64) mod 64 = (x :: nat) mod 64"
  by (simp add: mod_add_eq [of "0x80" 64 "x mod 64", symmetric])

lemma lead_bits:
  "d < 16 \<Longrightarrow> (0xe0 + d) mod 16 = (d :: nat)" "d < 8 \<Longrightarrow> (0xf0 + d) mod 8 = d" "d < 32 \<Longrightarrow> (0xc0 + d) mod 32 = d"
  by (simp_all add: mod_add_eq [of _ _ d, symmetric])

lemma cp_parts: "(cp :: nat) div 4096 = cp div 64 div 64" "cp div 262144 = cp div 64 div 64 div 64" "cp div 4096 mod 64 = cp div 64 div 64 mod 64"
  by (simp_all add: div_mult2_eq [symmetric])

lemma utf8_char_decode: "cp < 0x110000 \<Longrightarrow> utf8Decode (utf8_char cp @ ys) = map_option ((#) cp) (utf8Decode ys)"
proof -
  assume cp: "cp < 0x110000"
  consider "cp < 0x80" | "0x80 \<le> cp" "cp < 0x800" | "0x800 \<le> cp" "cp < 0x10000" | "0x10000 \<le> cp" by linarith
  then show ?thesis
  proof cases
    case 1
    then show ?thesis using utf8_step [of cp "[]" cp ys] by (simp add: utf8_char_def utf8_length_def)
  next
    case 2
    then have "cp div 64 < 32" by (simp add: less_mult_imp_div_less)
    then have "utf8_length (0xc0 + cp div 64) = 2" by (auto simp: utf8_length_def)
    moreover have "(0xc0 + cp div 64) mod 32 * 64 + (0x80 + cp mod 64) mod 64 = cp"
    proof -
      have "cp div 64 < 32" using 2 by simp
      then show ?thesis by (simp only: low_six lead_bits div_mult_mod_eq)
    qed
    ultimately show ?thesis using 2 utf8_step [of "0xc0 + cp div 64" "[0x80 + cp mod 64]" cp ys] by (simp add: utf8_char_def)
  next
    case 3
    then have "cp div 4096 < 16" by (simp add: less_mult_imp_div_less)
    then have "utf8_length (0xe0 + cp div 4096) = 3" by (auto simp: utf8_length_def)
    moreover have "((0xe0 + cp div 4096) mod 16 * 64 + (0x80 + cp div 64 mod 64) mod 64) * 64 + (0x80 + cp mod 64) mod 64 = cp"
    proof -
      have "cp div 4096 < 16" using 3 by simp
      then show ?thesis by (simp only: low_six lead_bits) (simp only: cp_parts div_mult_mod_eq)
    qed
    ultimately show ?thesis using 3 utf8_step [of "0xe0 + cp div 4096" "[0x80 + cp div 64 mod 64, 0x80 + cp mod 64]" cp ys]
      by (simp add: utf8_char_def)
  next
    case 4
    have "cp div 262144 < 8" using cp by (simp add: less_mult_imp_div_less)
    then have "utf8_length (0xf0 + cp div 262144) = 4" by (auto simp: utf8_length_def)
    moreover have "(((0xf0 + cp div 262144) mod 8 * 64 + (0x80 + cp div 4096 mod 64) mod 64) * 64 + (0x80 + cp div 64 mod 64) mod 64) * 64
        + (0x80 + cp mod 64) mod 64 = cp"
    proof -
      have "cp div 262144 < 8" using cp by simp
      then show ?thesis by (simp only: low_six lead_bits) (simp only: cp_parts div_mult_mod_eq)
    qed
    ultimately show ?thesis using 4 cp
        utf8_step [of "0xf0 + cp div 262144" "[0x80 + cp div 4096 mod 64, 0x80 + cp div 64 mod 64, 0x80 + cp mod 64]" cp ys]
      by (simp add: utf8_char_def)
  qed
qed

lemma utf8_roundtrip: "\<forall>cp\<in>set cps. cp < 0x110000 \<Longrightarrow> utf8Decode (utf8Encode cps) = Some cps"
proof (induction cps)
  case Nil
  then show ?case by (subst utf8Decode.simps) (simp add: utf8Encode_def)
next
  case (Cons cp cps)
  then show ?case by (simp add: utf8Encode_def utf8_char_decode)
qed

lemma utf8_bytes:
  assumes "\<forall>cp\<in>set cps. cp < 0x110000" "b \<in> set (utf8Encode cps)" shows "b < 256"
proof -
  obtain cp where "cp \<in> set cps" "b \<in> set (utf8_char cp)" using assms(2) by (auto simp: utf8Encode_def)
  moreover from this have "cp < 0x110000" using assms(1) by blast
  moreover have "x mod 64 < 64" for x :: nat by simp
  moreover have "cp div 64 < 32 \<or> \<not> cp < 0x800" "cp div 4096 < 16 \<or> \<not> cp < 0x10000" "cp div 262144 < 8"
    using \<open>cp < 0x110000\<close> by (auto simp: less_mult_imp_div_less)
  ultimately show ?thesis
    by (auto simp: utf8_char_def split: if_splits intro: order_less_trans [of _ "0x80 + 64"])
qed

text \<open>The comment of \<open>utf8Decode\<close> promises a replacement character for every malformed sequence.\<close>

lemma malformed_text_throws: "utf8Decode [0xf7, 0xbf, 0xbf, 0xbf] = None"
  by (subst utf8Decode.simps) (simp add: utf8_length_def Let_def)

lemma position_alphabet: "position (sextet n) ALPHABET = n mod 64"
proof -
  have "list_all (\<lambda>k. position (ALPHABET ! k) ALPHABET = k) [0..<64]" by code_simp
  then show ?thesis by (simp add: sextet_def list_all_iff)
qed

lemma sextet_in: "sextet n \<in> set ALPHABET"
proof -
  have "length ALPHABET = 64" by (simp add: ALPHABET_def)
  then show ?thesis by (simp add: sextet_def)
qed

text \<open>Only the bits that are waiting matter.\<close>

lemma loop_mod: "bits < 8 \<Longrightarrow> base64_loop bits (v mod 2 ^ bits) cs = base64_loop bits v cs"
proof (induction cs arbitrary: bits v)
  case (Cons c cs)
  let ?k = "position c ALPHABET"
  have m: "(v mod 2 ^ bits * 64 + ?k) mod 2 ^ (bits + 6) = (v * 64 + ?k) mod 2 ^ (bits + 6)"
  proof -
    have "v mod 2 ^ bits * 64 = (v * 64) mod 2 ^ (bits + 6)" by (simp add: power_add mod_mult_mult2)
    then show ?thesis by (simp add: mod_simps)
  qed
  have cut: "x mod 4294967296 mod 2 ^ (bits + 6) = x mod 2 ^ (bits + 6)" for x :: nat
  proof -
    have "(2::nat) ^ (bits + 6) dvd 2 ^ 32" by (rule le_imp_power_dvd) (use Cons.prems in simp)
    then show ?thesis by (simp add: mod_mod_cancel)
  qed
  have out: "x div 2 ^ (bits + 6 - 8) mod 256 = x mod 2 ^ (bits + 6) div 2 ^ (bits + 6 - 8)" if "8 \<le> bits + 6" for x :: nat
  proof -
    have "(2::nat) ^ (bits + 6) = 2 ^ (bits + 6 - 8) * 256" using that power_add [of "2::nat" "bits + 6 - 8" 8] by (simp add: add.commute)
    then show ?thesis by (simp add: mod_mult2_eq)
  qed
  have low: "x mod 2 ^ (bits + 6 - 8) = x mod 2 ^ (bits + 6) mod 2 ^ (bits + 6 - 8)" for x :: nat
    by (simp add: mod_mod_cancel le_imp_power_dvd)
  let ?a = "(v mod 2 ^ bits * 64 + ?k) mod 4294967296" and ?b = "(v * 64 + ?k) mod 4294967296"
  have ab: "?a mod 2 ^ (bits + 6) = ?b mod 2 ^ (bits + 6)" by (simp only: cut m)
  show ?case
  proof (cases "8 \<le> bits + 6")
    case True
    have "base64_loop (bits + 6 - 8) ?a cs = base64_loop (bits + 6 - 8) ?b cs"
    proof -
      have "bits + 6 - 8 < 8" using Cons.prems by simp
      note ih = Cons.IH [OF this]
      have "?a mod 2 ^ (bits + 6 - 8) = ?b mod 2 ^ (bits + 6 - 8)" using low [of ?a] low [of ?b] ab by (simp only:)
      then show ?thesis using ih [of ?a] ih [of ?b] by (simp only:)
    qed
    moreover have "?a div 2 ^ (bits + 6 - 8) mod 256 = ?b div 2 ^ (bits + 6 - 8) mod 256"
      by (simp only: out [OF True] ab)
    ultimately show ?thesis using True by (simp only: base64_loop.simps Let_def if_True)
  next
    case False
    have "base64_loop (bits + 6) ?a cs = base64_loop (bits + 6) ?b cs"
    proof -
      have "bits + 6 < 8" using False by simp
      note ih = Cons.IH [OF this]
      show ?thesis using ih [of ?a] ih [of ?b] ab by (simp only:)
    qed
    with False show ?thesis by (simp only: base64_loop.simps Let_def if_False)
  qed
qed simp

lemma loop_chars:
  assumes k: "position c ALPHABET = k" "k < 64"
  shows "base64_loop 0 0 (c # cs) = base64_loop 6 k cs"
    and "v < 64 \<Longrightarrow> base64_loop 6 v (c # cs) = word_of_nat ((v * 64 + k) div 16) # base64_loop 4 (k mod 16) cs"
    and "v < 16 \<Longrightarrow> base64_loop 4 v (c # cs) = word_of_nat ((v * 64 + k) div 4) # base64_loop 2 (k mod 4) cs"
    and "v < 4 \<Longrightarrow> base64_loop 2 v (c # cs) = word_of_nat (v * 64 + k) # base64_loop 0 0 cs"
proof -
  show "base64_loop 0 0 (c # cs) = base64_loop 6 k cs" using k by simp
  have step: "base64_loop bits v (c # cs) = word_of_nat ((v * 64 + k) div 2 ^ (bits - 2)) # base64_loop (bits - 2) (k mod 2 ^ (bits - 2)) cs"
    if b: "8 \<le> bits + 6" "bits < 8" and small: "(v * 64 + k) div 2 ^ (bits - 2) < 256" "v * 64 + k < 4294967296"
      and low: "(v * 64 + k) mod 2 ^ (bits - 2) = k mod 2 ^ (bits - 2)" for bits v
  proof -
    have "base64_loop (bits - 2) (v * 64 + k) cs = base64_loop (bits - 2) (k mod 2 ^ (bits - 2)) cs"
      using loop_mod [of "bits - 2" "v * 64 + k" cs] b low by simp
    moreover have "bits + 6 - 8 = bits - 2" by simp
    ultimately show ?thesis
      using b(1) small by (simp only: base64_loop.simps Let_def k(1) mod_less if_True)
  qed
  show "base64_loop 6 v (c # cs) = word_of_nat ((v * 64 + k) div 16) # base64_loop 4 (k mod 16) cs" if "v < 64"
  proof -
    have "(v * 64 + k) div 16 < 256" by (rule less_mult_imp_div_less) (use that k in simp)
    moreover have "(v * 64 + k) mod 16 = k mod 16" using mod_mult_self3 [of "v * 4" 16 k] by (simp add: mult.commute)
    ultimately show ?thesis using step [of 6 v] that k(2) by simp
  qed
  show "base64_loop 4 v (c # cs) = word_of_nat ((v * 64 + k) div 4) # base64_loop 2 (k mod 4) cs" if "v < 16"
  proof -
    have "(v * 64 + k) div 4 < 256" by (rule less_mult_imp_div_less) (use that k in simp)
    moreover have "(v * 64 + k) mod 4 = k mod 4" using mod_mult_self3 [of "v * 16" 4 k] by (simp add: mult.commute)
    ultimately show ?thesis using step [of 4 v] that k(2) by simp
  qed
  show "base64_loop 2 v (c # cs) = word_of_nat (v * 64 + k) # base64_loop 0 0 cs" if "v < 4"
    using step [of 2 v] that k(2) by simp
qed

declare base64_loop.simps(2) [simp del]

lemma loop_sextets:
  "base64_loop 0 0 (sextet n # cs) = base64_loop 6 (n mod 64) cs"
  "v < 64 \<Longrightarrow> base64_loop 6 v (sextet n # cs) = word_of_nat ((v * 64 + n mod 64) div 16) # base64_loop 4 (n mod 64 mod 16) cs"
  "v < 16 \<Longrightarrow> base64_loop 4 v (sextet n # cs) = word_of_nat ((v * 64 + n mod 64) div 4) # base64_loop 2 (n mod 64 mod 4) cs"
  "v < 4 \<Longrightarrow> base64_loop 2 v (sextet n # cs) = word_of_nat (v * 64 + n mod 64) # base64_loop 0 0 cs"
  by (rule loop_chars [OF position_alphabet]; simp)+

text \<open>The bytes that four, three and two sextets carry.\<close>

lemma mod_mult_div: "0 < a \<Longrightarrow> x mod (a * b) div a = x div a mod (b :: nat)"
  by (simp add: mod_mult2_eq)

lemma sextet_bytes:
  "(n div 262144 mod 64 * 64 + n div 4096 mod 64) div 16 = n div 65536 mod (256 :: nat)"
  "(n div 4096 mod 64 mod 16 * 64 + n div 64 mod 64) div 4 = n div 256 mod (256 :: nat)"
  "n div 64 mod 64 mod 4 * 64 + n mod 64 = n mod (256 :: nat)"
proof -
  have join: "x div 64 mod m * 64 + x mod 64 = x mod (64 * m)" for x m :: nat by (simp add: mod_mult2_eq)
  have cut: "x mod 64 mod 16 = x mod 16" "x mod 64 mod 4 = x mod 4" for x :: nat by (simp_all add: mod_mod_cancel)
  have d: "n div 262144 = n div 4096 div 64" "n div 4096 = n div 64 div 64" "n div 65536 = n div 4096 div 16" "n div 256 = n div 64 div 4"
    by (simp_all only: div_mult2_eq [symmetric]) simp_all
  show "(n div 262144 mod 64 * 64 + n div 4096 mod 64) div 16 = n div 65536 mod 256"
    using mod_mult_div [of 16 "n div 4096" 256] by (simp only: d(1,3) join) simp
  show "(n div 4096 mod 64 mod 16 * 64 + n div 64 mod 64) div 4 = n div 256 mod 256"
    using mod_mult_div [of 4 "n div 64" 256] by (simp only: d(2,4) cut join) simp
  show "n div 64 mod 64 mod 4 * 64 + n mod 64 = n mod 256" by (simp only: cut join) simp
qed

lemma loop_groups:
  "base64_loop 0 0 (sextet (n div 262144) # sextet (n div 4096) # sextet (n div 64) # sextet n # cs)
    = word_of_nat (n div 65536 mod 256) # word_of_nat (n div 256 mod 256) # word_of_nat (n mod 256) # base64_loop 0 0 cs"
  "base64_loop 0 0 [sextet (n div 262144), sextet (n div 4096), sextet (n div 64)]
    = [word_of_nat (n div 65536 mod 256), word_of_nat (n div 256 mod 256)]"
  "base64_loop 0 0 [sextet (n div 262144), sextet (n div 4096)] = [word_of_nat (n div 65536 mod 256)]"
  by (simp_all add: loop_sextets sextet_bytes del: of_nat_add of_nat_mult of_nat_mod)

lemma base64_roundtrip: "base64ToBytes (bytesToBase64 bs) = bs"
proof -
  have eq: "CHR ''='' \<notin> set ALPHABET" by (simp add: ALPHABET_def)
  have byte: "unat (x :: u8) < 256" for x using unsigned_less [of x, where ?'a = nat] by simp
  have parts: "(unat a * 65536 + unat b * 256 + unat c) div 65536 mod 256 = unat a"
    "(unat a * 65536 + unat b * 256 + unat c) div 256 mod 256 = unat b"
    "(unat a * 65536 + unat b * 256 + unat c) mod 256 = unat c" for a b c :: u8
  proof -
    let ?n = "unat a * 65536 + unat b * 256 + unat c"
    have n: "?n = (unat a * 256 + unat b) * 256 + unat c" by simp
    have q: "?n div 256 = unat a * 256 + unat b" unfolding n using byte [of c] by simp
    show "?n mod 256 = unat c" unfolding n by (simp only: mod_mult_self3 mod_less [OF byte])
    show "?n div 256 mod 256 = unat b" unfolding q by (simp only: mod_mult_self3 mod_less [OF byte])
    have "?n div 65536 = ?n div 256 div 256" by (simp only: div_mult2_eq [symmetric]) simp
    then show "?n div 65536 mod 256 = unat a" unfolding q using byte [of a] byte [of b] by simp
  qed
  have "base64_loop 0 0 (filter (\<lambda>c. c \<in> set ALPHABET) (bytesToBase64 bs)) = bs"
  proof (induction bs rule: bytesToBase64.induct)
    case (2 a)
    show ?case using parts(1) [of a 0 0] by (simp only: bytesToBase64.simps Let_def filter.simps sextet_in eq if_True if_False loop_groups) simp
  next
    case (3 a b)
    show ?case using parts(1,2) [of a b 0] by (simp only: bytesToBase64.simps Let_def filter.simps sextet_in eq if_True if_False loop_groups) simp
  next
    case (4 a b c rest)
    then show ?case using parts [of a b c]
      by (simp only: bytesToBase64.simps Let_def filter.simps sextet_in if_True loop_groups) simp
  qed simp
  then show ?thesis by (simp add: base64ToBytes_def)
qed

section \<open>Carrying a request\<close>

text \<open>The answer of the native relay, and what a caller of \<open>fetch\<close> gets to see.\<close>

record relay_response =
  rr_status :: int
  rr_headers :: "(string \<times> string) list"
  rr_body :: string

record fetched =
  fe_status :: int
  fe_ok :: bool
  fe_headers :: "(string \<times> string) list"
  fe_bytes :: bytes

definition utf8_bytes_of :: "nat list \<Rightarrow> bytes" where
  "utf8_bytes_of text = map word_of_nat (utf8Encode text)"

text \<open>\<open>None\<close> where the call rejects: it was aborted before it began, or the relay rejected.\<close>

definition relayFetch ::
  "(string \<Rightarrow> string \<Rightarrow> (string \<times> string) list \<Rightarrow> string option \<Rightarrow> relay_response option) \<Rightarrow>
   string \<Rightarrow> string option \<Rightarrow> (string \<times> string) list \<Rightarrow> nat list option \<Rightarrow> bool \<Rightarrow> fetched option" where
  "relayFetch relay url method headers body aborted =
     (if aborted then None
      else map_option (\<lambda>res.
             \<lparr>fe_status = rr_status res, fe_ok = (200 \<le> rr_status res \<and> rr_status res < 300),
              fe_headers = map (\<lambda>(k, v). (lower_str k, v)) (rr_headers res), fe_bytes = base64ToBytes (rr_body res)\<rparr>)
           (relay url (the_default ''GET'' method) headers (map_option (\<lambda>t. bytesToBase64 (utf8_bytes_of t)) body)))"

text \<open>\<open>headers.get\<close>: a later entry of the map replaces an earlier one.\<close>

definition fetched_header :: "string \<Rightarrow> fetched \<Rightarrow> string option" where
  "fetched_header name r = map_of (rev (fe_headers r)) (lower_str name)"

definition fetched_text :: "fetched \<Rightarrow> nat list option" where
  "fetched_text r = utf8Decode (map unat (fe_bytes r))"

text \<open>The native side: it undoes the base64 of the body, makes the request, and puts the answer in base64.\<close>

definition native_relay ::
  "(string \<Rightarrow> string \<Rightarrow> (string \<times> string) list \<Rightarrow> bytes option \<Rightarrow> (int \<times> (string \<times> string) list \<times> bytes) option) \<Rightarrow>
   string \<Rightarrow> string \<Rightarrow> (string \<times> string) list \<Rightarrow> string option \<Rightarrow> relay_response option" where
  "native_relay http url method headers body =
     map_option (\<lambda>(status, hs, bytes). \<lparr>rr_status = status, rr_headers = hs, rr_body = bytesToBase64 bytes\<rparr>)
       (http url method headers (map_option base64ToBytes body))"

lemma unat_utf8_bytes: "\<forall>cp\<in>set cps. cp < 0x110000 \<Longrightarrow> map unat (utf8_bytes_of cps) = utf8Encode cps"
  using utf8_bytes [of cps] by (auto simp: utf8_bytes_of_def unat_of_nat intro!: map_idI)

lemma relay_carries:
  "relayFetch (native_relay http) url method headers body False
    = map_option (\<lambda>(status, hs, bytes). \<lparr>fe_status = status, fe_ok = (200 \<le> status \<and> status < 300),
        fe_headers = map (\<lambda>(k, v). (lower_str k, v)) hs, fe_bytes = bytes\<rparr>)
      (http url (the_default ''GET'' method) headers (map_option utf8_bytes_of body))"
  by (cases body)
    (auto simp: relayFetch_def native_relay_def base64_roundtrip option.map_comp comp_def intro!: arg_cong2 [where f = map_option])

end
