(* ===== verification/Fleet.thy ===== *)
theory Fleet
  imports Gateways "HOL-Library.AList" "HOL-Library.Multiset"
begin

text \<open>
  The list of servers on a phone (clients/mobile/src/lib/gateways.ts), what the store of the app
  says of features (lib/flags.ts) and when it asks for the recovery key to be saved
  (lib/transferNotice.ts). Latencies are those that have been measured, by address. A city is
  written in the code units of JavaScript.
\<close>

section \<open>Rows\<close>

datatype latency_band = Good_band | Ok_band | Slow_band

record country =
  co_id :: string
  co_code :: string
  co_flag :: "int list"
  co_name :: string
  co_city :: string
  co_nodeCount :: nat
  co_best :: gateway_info
  co_ips :: "string list"
  co_latencyMs :: "rat option"

definition COUNTRY_NAMES :: "(string \<times> string) list" where
  "COUNTRY_NAMES =
     [(''US'', ''United States''), (''CA'', ''Canada''), (''DE'', ''Germany''), (''NL'', ''Netherlands''),
      (''FR'', ''France''), (''GB'', ''United Kingdom''), (''CZ'', ''Czechia''), (''PL'', ''Poland''),
      (''SG'', ''Singapore''), (''JP'', ''Japan''), (''AU'', ''Australia''), (''BR'', ''Brazil''),
      (''ES'', ''Spain''), (''IT'', ''Italy''), (''SE'', ''Sweden''), (''CH'', ''Switzerland''), (''AT'', ''Austria''),
      (''FI'', ''Finland''), (''MX'', ''Mexico''), (''KR'', ''South Korea''), (''IN'', ''India''), (''ZA'', ''South Africa''),
      (''RU'', ''Russia''), (''MY'', ''Malaysia''), (''HK'', ''Hong Kong''), (''AE'', ''United Arab Emirates'')]"

definition COUNTRY_CITIES :: "(string \<times> string) list" where
  "COUNTRY_CITIES =
     [(''US'', ''Multiple cities''), (''CA'', ''Toronto''), (''DE'', ''Frankfurt''), (''NL'', ''Amsterdam''),
      (''FR'', ''Paris''), (''GB'', ''London''), (''CZ'', ''Prague''), (''PL'', ''Warsaw''), (''SG'', ''Singapore''),
      (''JP'', ''Tokyo''), (''AU'', ''Sydney''), (''BR'', ''S'' @ [CHR 0xe3] @ ''o Paulo''), (''ES'', ''Madrid''),
      (''IT'', ''Milan''), (''SE'', ''Stockholm''), (''CH'', ''Z'' @ [CHR 0xfc] @ ''rich''), (''AT'', ''Vienna''),
      (''FI'', ''Helsinki''), (''MX'', ''Mexico City''), (''KR'', ''Seoul''), (''IN'', ''Mumbai''),
      (''ZA'', ''Johannesburg''), (''RU'', ''Moscow''), (''MY'', ''Kuala Lumpur''), (''HK'', ''Hong Kong''), (''AE'', ''Dubai'')]"

definition localityOf :: "string \<Rightarrow> string \<Rightarrow> string" where
  "localityOf cityFromGateway code =
     (let c = trim cityFromGateway in if c \<noteq> [] then c else the_default [] (map_of COUNTRY_CITIES code))"

definition name_of :: "string \<Rightarrow> string" where
  "name_of code = the_default code (map_of COUNTRY_NAMES code)"

definition phone_flagEmoji :: "string \<Rightarrow> int list" where
  "phone_flagEmoji code =
     (let cc = upper_str (trim code)
      in if length cc \<noteq> 2 \<or> \<not> list_all is_upper cc then [0x1f3f3, 0xfe0f]
         else map (\<lambda>c. 0x1f1e6 + (of_char c - 65)) cc)"

record route_endpoint =
  re_code :: string
  re_flag :: "int list"
  re_name :: string
  re_city :: string
  re_ip :: string
  re_controlUrl :: string

definition routeEndpoint :: "gateway_info \<Rightarrow> route_endpoint" where
  "routeEndpoint gw =
     \<lparr>re_code = ir_country gw, re_flag = phone_flagEmoji (ir_country gw), re_name = name_of (ir_country gw),
      re_city = localityOf (ir_city gw) (ir_country gw), re_ip = gw_ip gw, re_controlUrl = gw_controlUrl gw\<rparr>"

definition latencyBand :: "rat option \<Rightarrow> latency_band" where
  "latencyBand ms =
     (case ms of None \<Rightarrow> Slow_band | Some x \<Rightarrow> if 180 \<le> x then Slow_band else if x < 60 then Good_band else Ok_band)"

text \<open>The loop keeps the best so far, \<open>None\<close> and a score of -1 at its start.\<close>

definition node_score :: "(string \<rightharpoonup> rat) \<Rightarrow> gateway_info \<Rightarrow> int" where
  "node_score latencyByIp gw = gq_score (gatewayQuality (latencyByIp (gw_ip gw)) (ir_load gw))"

definition better :: "(string \<rightharpoonup> rat) \<Rightarrow> gateway_info \<Rightarrow> gateway_info option \<times> int \<Rightarrow> gateway_info option \<times> int" where
  "better latencyByIp gw b = (if snd b < node_score latencyByIp gw then (Some gw, node_score latencyByIp gw) else b)"

definition bestOf :: "gateway_info list \<Rightarrow> (string \<rightharpoonup> rat) \<Rightarrow> gateway_info option" where
  "bestOf list latencyByIp =
     (let measured = filter (\<lambda>gw. latencyByIp (gw_ip gw) \<noteq> None) list
      in fst (fold (better latencyByIp) (if 0 < length measured then measured else list) (None, -1)))"

text \<open>A map from keys to lists, in the order in which its keys were first set.\<close>

definition add_to :: "('a \<Rightarrow> string) \<Rightarrow> 'a \<Rightarrow> (string \<times> 'a list) list \<Rightarrow> (string \<times> 'a list) list" where
  "add_to key x m = AList.update (key x) (the_default [] (map_of m (key x)) @ [x]) m"

definition grouped :: "('a \<Rightarrow> string) \<Rightarrow> 'a list \<Rightarrow> (string \<times> 'a list) list" where
  "grouped key xs = fold (add_to key) xs []"

text \<open>Nearest first, those that were not measured last; then by name, then by city.\<close>

definition latency_rank :: "country \<Rightarrow> bool \<times> rat" where
  "latency_rank c = (co_latencyMs c = None, the_default 0 (co_latencyMs c))"

definition sortByNearest :: "country list \<Rightarrow> country list" where
  "sortByNearest rows = sort_key latency_rank (sort_key co_name (sort_key co_city rows))"

definition country_of :: "string \<Rightarrow> string \<Rightarrow> gateway_info list \<Rightarrow> gateway_info \<Rightarrow> (string \<rightharpoonup> rat) \<Rightarrow> country" where
  "country_of key code list best latencyByIp =
     \<lparr>co_id = key, co_code = code, co_flag = phone_flagEmoji code, co_name = name_of code,
      co_city = localityOf (ir_city best) code, co_nodeCount = length list, co_best = best, co_ips = map gw_ip list,
      co_latencyMs = latencyByIp (gw_ip best)\<rparr>"

definition groupByCountry :: "gateway_info list \<Rightarrow> (string \<rightharpoonup> rat) \<Rightarrow> country list" where
  "groupByCountry gateways latencyByIp =
     sortByNearest (List.map_filter (\<lambda>(code, list).
         map_option (\<lambda>best. country_of code code list best latencyByIp) (bestOf list latencyByIp))
       (grouped ir_country gateways))"

definition location_key :: "gateway_info \<Rightarrow> string" where
  "location_key gw =
     (let city = localityOf (ir_city gw) (ir_country gw)
      in if city \<noteq> [] then ir_country gw @ '':'' @ city else ir_country gw)"

definition groupByLocation :: "gateway_info list \<Rightarrow> (string \<rightharpoonup> rat) \<Rightarrow> country list" where
  "groupByLocation gateways latencyByIp =
     sortByNearest (List.map_filter (\<lambda>(key, list).
         map_option (\<lambda>best. country_of key (ir_country best) list best latencyByIp) (bestOf list latencyByIp))
       (grouped location_key gateways))"

section \<open>The price the fleet asks\<close>

text \<open>\<open>quote\<close> is the price of a gateway, where it states a finite number.\<close>

definition count_vote :: "rat \<Rightarrow> (rat \<times> nat) list \<Rightarrow> (rat \<times> nat) list" where
  "count_vote p votes = AList.update p (the_default 0 (map_of votes p) + 1) votes"

definition leading :: "rat \<times> nat \<Rightarrow> rat option \<times> nat \<Rightarrow> rat option \<times> nat" where
  "leading v b =
     (if snd b < snd v \<or> (snd v = snd b \<and> fst b \<noteq> None \<and> the (fst b) < fst v) then (Some (fst v), snd v) else b)"

definition fleet_quotes :: "(gateway_info \<Rightarrow> rat option) \<Rightarrow> gateway_info list \<Rightarrow> rat list" where
  "fleet_quotes quote gateways = filter (\<lambda>p. 0 < p) (List.map_filter quote gateways)"

definition fleetPriceFlux :: "(gateway_info \<Rightarrow> rat option) \<Rightarrow> gateway_info list \<Rightarrow> rat option" where
  "fleetPriceFlux quote gateways =
     fst (fold leading
       (fold count_vote (fleet_quotes quote gateways) []) (None, 0))"

section \<open>Features\<close>

record flags =
  fl_inAppUpgrade :: bool
  fl_iapPurchase :: bool
  fl_voucherRedeem :: bool
  fl_webPayLink :: bool
  fl_transferNotice :: bool

definition DEFAULT_FLAGS :: flags where
  "DEFAULT_FLAGS = \<lparr>fl_inAppUpgrade = False, fl_iapPurchase = False, fl_voucherRedeem = False, fl_webPayLink = False,
     fl_transferNotice = False\<rparr>"

definition platformFlag :: "json \<Rightarrow> string \<Rightarrow> string \<Rightarrow> bool" where
  "platformFlag v key os \<longleftrightarrow>
     (case jget key v of Some node \<Rightarrow> jget os node = Some (J_bool True) | None \<Rightarrow> False)"

definition resolveFlags :: "json \<Rightarrow> string \<Rightarrow> flags" where
  "resolveFlags v os =
     \<lparr>fl_inAppUpgrade = platformFlag v ''inAppUpgrade'' os, fl_iapPurchase = platformFlag v ''iapPurchase'' os,
      fl_voucherRedeem = platformFlag v ''voucherRedeem'' os, fl_webPayLink = platformFlag v ''webPayLink'' os,
      fl_transferNotice = platformFlag v ''transferNotice'' os\<rparr>"

text \<open>The answer: whether it is a success, and its JSON, \<open>None\<close> where either throws.\<close>

definition fetchFlags :: "(bool \<times> json option) option \<Rightarrow> string \<Rightarrow> flags" where
  "fetchFlags answer os =
     (case answer of Some (True, Some v) \<Rightarrow> resolveFlags v os | _ \<Rightarrow> DEFAULT_FLAGS)"

text \<open>The hook that keeps the flags (state/useFlags.ts): what it holds after a fetch it has started.\<close>

definition flags_loaded :: "bool \<Rightarrow> (bool \<times> json option) option \<Rightarrow> string \<Rightarrow> flags \<Rightarrow> flags" where
  "flags_loaded alive answer os cur = (if alive then fetchFlags answer os else cur)"

text \<open>A fetch that fails turns every feature off, also those that were on.\<close>

lemma failed_fetch_turns_off: "flags_loaded True None os cur = DEFAULT_FLAGS"
  by (simp add: flags_loaded_def fetchFlags_def)

text \<open>\<open>parse_date\<close> is \<open>Date.parse\<close>, \<open>None\<close> for no number.\<close>

definition shouldShowTransferNotice ::
  "(string \<Rightarrow> millis option) \<Rightarrow> bool \<Rightarrow> tier \<Rightarrow> string option \<Rightarrow> bool option \<Rightarrow> millis \<Rightarrow> bool" where
  "shouldShowTransferNotice parse_date enabled tier paidUntil already now \<longleftrightarrow>
     enabled \<and> already = Some False \<and> tier = Premium
     \<and> (case paidUntil of None \<Rightarrow> True
        | Some t \<Rightarrow> (case parse_date t of None \<Rightarrow> True | Some u \<Rightarrow> now < u))"

section \<open>The best node of a row\<close>

lemma better_fold:
  assumes "fold (better lat) gs (b, s) = (b', s')"
  shows "(b', s') = (b, s) \<or> (\<exists>g\<in>set gs. b' = Some g \<and> s' = node_score lat g)" and "s \<le> s'" and "\<forall>g\<in>set gs. node_score lat g \<le> s'"
proof -
  have "((b', s') = (b, s) \<or> (\<exists>g\<in>set gs. b' = Some g \<and> s' = node_score lat g)) \<and> s \<le> s' \<and> (\<forall>g\<in>set gs. node_score lat g \<le> s')"
    using assms
  proof (induction gs arbitrary: b s)
    case (Cons g gs)
    show ?case using Cons.IH [of "fst (better lat g (b, s))" "snd (better lat g (b, s))"] Cons.prems
      by (auto simp: better_def split: if_splits)
  qed simp
  then show "(b', s') = (b, s) \<or> (\<exists>g\<in>set gs. b' = Some g \<and> s' = node_score lat g)" "s \<le> s'" "\<forall>g\<in>set gs. node_score lat g \<le> s'"
    by blast+
qed

lemma node_score_nonneg: "0 \<le> node_score lat g"
proof -
  have "0 \<le> latency_score x" for x by (auto simp: latency_score_def field_simps split: option.split)
  then have "(0 :: rat) \<le> (3 / 5 * (1 - min 1 (max 0 (ir_load g))) + 2 / 5 * latency_score (lat (gw_ip g))) * 100" by simp
  then have "math_round 0 \<le> math_round ((3 / 5 * (1 - min 1 (max 0 (ir_load g))) + 2 / 5 * latency_score (lat (gw_ip g))) * 100)"
    by (rule math_round_mono)
  then show ?thesis using math_round_of_int [of 0]
    by (simp only: node_score_def gatewayQuality_def Let_def gateway_quality.select_convs of_int_0)
qed

text \<open>A row has a best node; one with a reading beats one without, and then the score decides.\<close>

lemma bestOf_best:
  assumes "list \<noteq> []"
  obtains g where "bestOf list lat = Some g" and "g \<in> set list"
    and "\<And>x. x \<in> set list \<Longrightarrow> lat (gw_ip x) \<noteq> None \<Longrightarrow> lat (gw_ip g) \<noteq> None \<and> node_score lat x \<le> node_score lat g"
    and "\<And>x. x \<in> set list \<Longrightarrow> lat (gw_ip g) = None \<Longrightarrow> node_score lat x \<le> node_score lat g"
proof -
  let ?m = "filter (\<lambda>gw. lat (gw_ip gw) \<noteq> None) list"
  let ?pool = "if 0 < length ?m then ?m else list"
  obtain b s where r: "fold (better lat) ?pool (None, -1) = (b, s)" by fastforce
  obtain x where x: "x \<in> set ?pool" 
  proof (cases "?m = []")
    case True
    then show ?thesis using assms that [of "hd list"] by simp
  next
    case False
    then show ?thesis using that [of "hd ?m"] hd_in_set [OF False] by (simp only: length_greater_0_conv not_False_eq_True if_True)
  qed
  note f = better_fold [OF r]
  have "s \<noteq> -1" using f(3) x node_score_nonneg [of lat x] by force
  then obtain g where g: "g \<in> set ?pool" "b = Some g" "s = node_score lat g" using f(1) by auto
  show thesis
  proof (rule that)
    show "bestOf list lat = Some g" using r g(2) by (simp only: bestOf_def Let_def length_greater_0_conv fst_conv)
    show "g \<in> set list" using g(1) by (auto split: if_splits)
    show "lat (gw_ip g) \<noteq> None \<and> node_score lat y \<le> node_score lat g" if "y \<in> set list" "lat (gw_ip y) \<noteq> None" for y
    proof -
      have y: "y \<in> set ?m" using that by simp
      then have "?m \<noteq> []" by (metis empty_iff list.set(1))
      then have p: "?pool = ?m" by simp
      show ?thesis using f(3) g y unfolding p by auto
    qed
    show "node_score lat y \<le> node_score lat g" if "y \<in> set list" "lat (gw_ip g) = None" for y
      using that f(3) g by (auto split: if_splits)
  qed
qed

section \<open>Every gateway is in one row\<close>

definition row_groups :: "('a \<Rightarrow> string) \<Rightarrow> 'a list \<Rightarrow> (string \<times> 'a list) list \<Rightarrow> bool" where
  "row_groups key ys m \<longleftrightarrow> distinct (map fst m) \<and> (\<forall>(k, xs)\<in>set m. xs = filter (\<lambda>x. key x = k) ys \<and> xs \<noteq> [])
     \<and> (\<forall>y\<in>set ys. key y \<in> fst ` set m)"

lemma row_groups_step:
  assumes "row_groups key ys m"
  shows "row_groups key (ys @ [y]) (add_to key y m)"
proof -
  note g = assms [unfolded row_groups_def]
  have d: "distinct (map fst (add_to key y m))" using g by (simp add: add_to_def distinct_update)
  have mo: "map_of (add_to key y m) = (map_of m)(key y \<mapsto> the_default [] (map_of m (key y)) @ [y])"
    by (simp add: add_to_def update_conv')
  have in_m: "xs = filter (\<lambda>x. key x = k) ys \<and> xs \<noteq> []" if "map_of m k = Some xs" for k xs
    using bspec [OF conjunct1 [OF conjunct2 [OF g]] map_of_SomeD [OF that]] unfolding prod.case .
  have old: "the_default [] (map_of m (key y)) = filter (\<lambda>x. key x = key y) ys"
  proof (cases "map_of m (key y)")
    case None
    then have "key y \<notin> fst ` set m" by (simp add: map_of_eq_None_iff)
    then have "key x \<noteq> key y" if "x \<in> set ys" for x
      using g that by metis
    then show ?thesis using None by (simp add: filter_empty_conv)
  next
    case (Some xs)
    then show ?thesis using in_m [OF Some] by simp
  qed
  have "xs = filter (\<lambda>x. key x = k) (ys @ [y]) \<and> xs \<noteq> []" if "(k, xs) \<in> set (add_to key y m)" for k xs
  proof -
    have m: "map_of (add_to key y m) k = Some xs" using that d by simp
    show ?thesis
    proof (cases "k = key y")
      case True
      then show ?thesis using m by (auto simp: mo old)
    next
      case False
      then have "map_of m k = Some xs" using m by (simp add: mo)
      then show ?thesis using in_m False by auto
    qed
  qed
  moreover have "fst ` set (add_to key y m) = insert (key y) (fst ` set m)" by (simp add: add_to_def dom_update)
  ultimately show ?thesis using d g unfolding row_groups_def by auto
qed

lemma grouped_row_groups: "row_groups key xs (grouped key xs)"
proof (induction xs rule: rev_induct)
  case Nil
  show ?case by (simp add: grouped_def row_groups_def)
next
  case (snoc x xs)
  from row_groups_step [OF this, of x] show ?case by (simp add: grouped_def)
qed

text \<open>What both pickers show of the gateways that share a key.\<close>

definition row_ok :: "(gateway_info \<Rightarrow> string) \<Rightarrow> gateway_info list \<Rightarrow> (string \<rightharpoonup> rat) \<Rightarrow> country \<Rightarrow> bool" where
  "row_ok key gws lat row \<longleftrightarrow>
     co_ips row = map gw_ip (filter (\<lambda>g. key g = co_id row) gws) \<and> co_nodeCount row = length (co_ips row)
     \<and> co_best row \<in> set gws \<and> key (co_best row) = co_id row \<and> co_latencyMs row = lat (gw_ip (co_best row))
     \<and> (\<forall>g\<in>set gws. key g = co_id row \<longrightarrow>
          (lat (gw_ip g) \<noteq> None \<longrightarrow> co_latencyMs row \<noteq> None)
          \<and> ((lat (gw_ip g) = None \<longrightarrow> co_latencyMs row = None) \<longrightarrow> node_score lat g \<le> node_score lat (co_best row)))"

lemma mset_sortByNearest [simp]: "mset (sortByNearest rows) = mset rows"
  by (simp add: sortByNearest_def)

lemma map_filter_total:
  "(\<And>x. x \<in> set xs \<Longrightarrow> f x = Some (h x)) \<Longrightarrow> List.map_filter f xs = map h xs"
  by (induction xs) (simp_all add: map_filter_simps)

lemma rows_of_groups:
  assumes mk: "\<And>k list best. co_id (mk k list best) = k \<and> co_ips (mk k list best) = map gw_ip list \<and> co_best (mk k list best) = best
      \<and> co_nodeCount (mk k list best) = length list \<and> co_latencyMs (mk k list best) = lat (gw_ip best)"
    and rows: "rows = sortByNearest (List.map_filter (\<lambda>(k, list). map_option (mk k list) (bestOf list lat)) (grouped key gws))"
  shows "distinct (map co_id rows)" and "row \<in> set rows \<Longrightarrow> row_ok key gws lat row"
    and "g \<in> set gws \<Longrightarrow> \<exists>row\<in>set rows. co_id row = key g" and "sorted (map latency_rank rows)"
proof -
  let ?m = "grouped key gws"
  note g = grouped_row_groups [of key gws, unfolded row_groups_def]
  have in_m: "list = filter (\<lambda>x. key x = k) gws \<and> list \<noteq> []" if "(k, list) \<in> set ?m" for k list
    using bspec [OF conjunct1 [OF conjunct2 [OF g]] that] unfolding prod.case .
  have best: "\<exists>b. bestOf list lat = Some b" if "(k, list) \<in> set ?m" for k list
    using bestOf_best [OF conjunct2 [OF in_m [OF that]], of lat] by metis
  have r: "mset rows = mset (map (\<lambda>(k, list). mk k list (the (bestOf list lat))) ?m)"
    unfolding rows mset_sortByNearest
  proof (rule arg_cong [where f = mset])
    show "List.map_filter (\<lambda>(k, list). map_option (mk k list) (bestOf list lat)) ?m
        = map (\<lambda>(k, list). mk k list (the (bestOf list lat))) ?m"
      using best by (intro map_filter_total) fastforce
  qed
  have "mset (map co_id rows) = mset (map fst ?m)"
    unfolding mset_map r by (simp add: multiset.map_comp comp_def mk split_def)
  then show "distinct (map co_id rows)" using conjunct1 [OF g] by (metis mset_eq_imp_distinct_iff)
  have set_r: "set rows = (\<lambda>(k, list). mk k list (the (bestOf list lat))) ` set ?m"
    using arg_cong [OF r, of set_mset] by simp
  show "row_ok key gws lat row" if row: "row \<in> set rows"
  proof -
    obtain k list where k: "(k, list) \<in> set ?m" "row = mk k list (the (bestOf list lat))" using row set_r by auto
    note l = in_m [OF k(1)]
    obtain b where b: "bestOf list lat = Some b" "b \<in> set list"
      "\<And>x. x \<in> set list \<Longrightarrow> lat (gw_ip x) \<noteq> None \<Longrightarrow> lat (gw_ip b) \<noteq> None \<and> node_score lat x \<le> node_score lat b"
      "\<And>x. x \<in> set list \<Longrightarrow> lat (gw_ip b) = None \<Longrightarrow> node_score lat x \<le> node_score lat b"
      using bestOf_best [OF conjunct2 [OF l], of lat] by metis
    have of_row: "co_id row = k" "co_ips row = map gw_ip list" "co_best row = b" "co_nodeCount row = length list"
      "co_latencyMs row = lat (gw_ip b)" using k(2) mk b(1) by simp_all
    have mem: "x \<in> set list \<longleftrightarrow> x \<in> set gws \<and> key x = k" for x using conjunct1 [OF l] by simp
    have "co_ips row = map gw_ip (filter (\<lambda>g. key g = co_id row) gws)" using of_row conjunct1 [OF l] by simp
    moreover have "co_nodeCount row = length (co_ips row)" "co_latencyMs row = lat (gw_ip (co_best row))" using of_row by simp_all
    moreover have "co_best row \<in> set gws" "key (co_best row) = co_id row" using b(2) mem of_row by simp_all
    moreover have "\<forall>x\<in>set gws. key x = co_id row \<longrightarrow> (lat (gw_ip x) \<noteq> None \<longrightarrow> co_latencyMs row \<noteq> None)
        \<and> ((lat (gw_ip x) = None \<longrightarrow> co_latencyMs row = None) \<longrightarrow> node_score lat x \<le> node_score lat (co_best row))"
    proof (intro ballI impI)
      fix x assume x: "x \<in> set gws" "key x = co_id row"
      have "x \<in> set list" using x(1) trans [OF x(2) of_row(1)] mem by blast
      then show "(lat (gw_ip x) \<noteq> None \<longrightarrow> co_latencyMs row \<noteq> None)
          \<and> ((lat (gw_ip x) = None \<longrightarrow> co_latencyMs row = None) \<longrightarrow> node_score lat x \<le> node_score lat (co_best row))"
        using b(3,4) [of x] unfolding of_row(3,5) by blast
    qed
    ultimately show ?thesis unfolding row_ok_def by (intro conjI)
  qed
  show "\<exists>row\<in>set rows. co_id row = key g" if gw: "g \<in> set gws"
  proof -
    obtain list where "(key g, list) \<in> set ?m" using bspec [OF conjunct2 [OF conjunct2 [OF g]] gw] by auto
    then show ?thesis unfolding set_r using mk by force
  qed
  show "sorted (map latency_rank rows)" by (simp add: rows sortByNearest_def sorted_sort_key)
qed

lemma rows_by_location:
  shows "distinct (map co_id (groupByLocation gws lat))"
    and "row \<in> set (groupByLocation gws lat) \<Longrightarrow> row_ok location_key gws lat row"
    and "g \<in> set gws \<Longrightarrow> \<exists>row\<in>set (groupByLocation gws lat). co_id row = location_key g"
    and "sorted (map latency_rank (groupByLocation gws lat))"
proof -
  let ?mk = "\<lambda>key list best. country_of key (ir_country best) list best lat"
  have mk: "co_id (?mk k list best) = k \<and> co_ips (?mk k list best) = map gw_ip list \<and> co_best (?mk k list best) = best
      \<and> co_nodeCount (?mk k list best) = length list \<and> co_latencyMs (?mk k list best) = lat (gw_ip best)" for k list best
    by (simp add: country_of_def)
  have "groupByLocation gws lat = sortByNearest (List.map_filter (\<lambda>(k, list). map_option (?mk k list) (bestOf list lat))
      (grouped location_key gws))" by (simp add: groupByLocation_def)
  note rows = rows_of_groups [of ?mk lat, OF mk this]
  show "distinct (map co_id (groupByLocation gws lat))" "sorted (map latency_rank (groupByLocation gws lat))"
    by (rule rows(1), rule rows(4))
  show "row_ok location_key gws lat row" if "row \<in> set (groupByLocation gws lat)" by (rule rows(2) [OF that])
  show "\<exists>row\<in>set (groupByLocation gws lat). co_id row = location_key g" if "g \<in> set gws" by (rule rows(3) [OF that])
qed

section \<open>The price is that of the majority\<close>

lemma votes_counted:
  "map_of (fold count_vote ps []) = (\<lambda>q. if q \<in> set ps then Some (count_list ps q) else None)
    \<and> distinct (map fst (fold count_vote ps []))"
proof (induction ps rule: rev_induct)
  case (snoc p ps)
  let ?m = "fold count_vote ps []"
  have m: "map_of (fold count_vote (ps @ [p]) []) = (map_of ?m)(p \<mapsto> the_default 0 (map_of ?m p) + 1)"
    by (simp add: count_vote_def update_conv')
  have "map_of (fold count_vote (ps @ [p]) []) q = (if q \<in> set (ps @ [p]) then Some (count_list (ps @ [p]) q) else None)" for q
    unfolding m using snoc by (cases "q = p") (simp_all add: count_list_0_iff)
  moreover have "distinct (map fst (fold count_vote (ps @ [p]) []))"
    using snoc by (simp only: fold_append fold_simps o_apply count_vote_def [of p] distinct_update)
  ultimately show ?case by blast
qed simp

lemma leading_fold:
  assumes "\<forall>v\<in>set vs. 0 < snd v"
  shows "fold leading vs (None, 0) = (None, 0) \<and> vs = []
    \<or> (\<exists>v\<in>set vs. fold leading vs (None, 0) = (Some (fst v), snd v)
        \<and> (\<forall>u\<in>set vs. snd u < snd v \<or> snd u = snd v \<and> fst u \<le> fst v))"
  using assms
proof (induction vs rule: rev_induct)
  case (snoc w vs)
  then consider "fold leading vs (None, 0) = (None, 0)" "vs = []"
    | v where "v \<in> set vs" "fold leading vs (None, 0) = (Some (fst v), snd v)"
        "\<forall>u\<in>set vs. snd u < snd v \<or> snd u = snd v \<and> fst u \<le> fst v" by auto
  then show ?case
  proof cases
    case 1
    then show ?thesis using snoc.prems by (simp add: leading_def)
  next
    case 2
    show ?thesis
    proof (cases "snd v < snd w \<or> snd w = snd v \<and> fst v < fst w")
      case True
      then have "fold leading (vs @ [w]) (None, 0) = (Some (fst w), snd w)" using 2(2) by (auto simp: leading_def)
      moreover have "snd u < snd w \<or> snd u = snd w \<and> fst u \<le> fst w" if "u \<in> set (vs @ [w])" for u
        using that 2(3) True by fastforce
      ultimately show ?thesis by (intro disjI2 bexI [of _ w]) auto
    next
      case False
      then have "fold leading (vs @ [w]) (None, 0) = (Some (fst v), snd v)" using 2(2) by (simp add: leading_def)
      moreover have "snd u < snd v \<or> snd u = snd v \<and> fst u \<le> fst v" if "u \<in> set (vs @ [w])" for u
        using that 2(3) False by fastforce
      ultimately show ?thesis using 2(1) by (intro disjI2 bexI [of _ v]) auto
    qed
  qed
qed simp

lemma majority_price:
  shows "fleetPriceFlux quote gateways = None \<longleftrightarrow> fleet_quotes quote gateways = []"
    and "fleetPriceFlux quote gateways = Some p \<Longrightarrow> p \<in> set (fleet_quotes quote gateways)
      \<and> (\<forall>q\<in>set (fleet_quotes quote gateways). count_list (fleet_quotes quote gateways) q < count_list (fleet_quotes quote gateways) p
          \<or> count_list (fleet_quotes quote gateways) q = count_list (fleet_quotes quote gateways) p \<and> q \<le> p)"
proof -
  let ?ps = "fleet_quotes quote gateways"
  let ?vs = "fold count_vote ?ps []"
  note v = votes_counted [of ?ps]
  have mem: "(q, n) \<in> set ?vs \<longleftrightarrow> q \<in> set ?ps \<and> n = count_list ?ps q" for q n
  proof -
    have "(q, n) \<in> set ?vs \<longleftrightarrow> map_of ?vs q = Some n" using conjunct2 [OF v] by simp
    then show ?thesis unfolding conjunct1 [OF v] by auto
  qed
  have pos: "\<forall>v\<in>set ?vs. 0 < snd v" using mem by (auto simp: count_list_0_iff intro!: gr0I)
  have f: "fleetPriceFlux quote gateways = fst (fold leading ?vs (None, 0))" by (simp add: fleetPriceFlux_def)
  have nil: "?vs = [] \<longleftrightarrow> ?ps = []"

  proof
    assume "?vs = []"
    then have "(q, n) \<notin> set ?vs" for q n by simp
    then show "?ps = []" using mem by (metis list.set_intros(1) neq_Nil_conv)
  qed simp
  note l = leading_fold [OF pos]
  show "fleetPriceFlux quote gateways = None \<longleftrightarrow> ?ps = []" using l nil by (auto simp: f)
  show "p \<in> set ?ps \<and> (\<forall>q\<in>set ?ps. count_list ?ps q < count_list ?ps p \<or> count_list ?ps q = count_list ?ps p \<and> q \<le> p)"
    if price: "fleetPriceFlux quote gateways = Some p"
  proof -
    obtain v where v: "v \<in> set ?vs" "fst v = p" "\<forall>u\<in>set ?vs. snd u < snd v \<or> snd u = snd v \<and> fst u \<le> fst v"
      using l price [unfolded f] by (metis fst_conv option.distinct(1) option.inject)
    have n: "p \<in> set ?ps" "snd v = count_list ?ps p" using v(1,2) mem [of p "snd v"] by auto
    have "count_list ?ps q < count_list ?ps p \<or> count_list ?ps q = count_list ?ps p \<and> q \<le> p" if "q \<in> set ?ps" for q
      using bspec [OF v(3), of "(q, count_list ?ps q)"] mem [of q] that n(2) v(2) by simp
    then show ?thesis using n(1) by blast
  qed
qed

end
