(* ===== verification/Iap.thy ===== *)
theory Iap
  imports Network
begin

text \<open>
  Subscriptions from the store of a phone (clients/mobile/src/lib/iap.ts) and the hook that walks
  a purchase through them (clients/mobile/src/state/useIap.ts). The store, its products and its
  purchases are react-native-iap: what it answers is a parameter, as are a claim at the bridge,
  which runs on a state of its own, and the text of an exception. The calls of
  \<open>finishTransaction\<close>, which acknowledge a purchase, are recorded in their order.
\<close>

section \<open>Prices\<close>

definition IOS_SKU_MONTHLY :: string where "IOS_SKU_MONTHLY = ''cvpn.premium.monthly''"
definition IOS_SKU_ANNUAL :: string where "IOS_SKU_ANNUAL = ''cvpn.premium.annual''"
definition ANDROID_SKU :: string where "ANDROID_SKU = ''premium''"
definition ANDROID_BASE_PLAN_MONTHLY :: string where "ANDROID_BASE_PLAN_MONTHLY = ''premium-monthly''"
definition ANDROID_BASE_PLAN_ANNUAL :: string where "ANDROID_BASE_PLAN_ANNUAL = ''premium-annual''"

definition iosSkus :: "string list" where
  "iosSkus = [IOS_SKU_MONTHLY, IOS_SKU_ANNUAL]"

definition skusForPlatform :: "bool \<Rightarrow> string list" where
  "skusForPlatform ios = (if ios then iosSkus else [ANDROID_SKU])"

text \<open>\<open>Math.round\<close> of the saving.\<close>

definition annualSaving :: "rat option \<Rightarrow> rat option \<Rightarrow> int option" where
  "annualSaving monthly annual =
     (case (monthly, annual) of
        (Some m, Some a) \<Rightarrow>
          if \<not> 0 < m \<or> \<not> 0 < a then None
          else (let pct = math_round ((1 - a / (12 * m)) * 100) in if 0 < pct then Some pct else None)
      | _ \<Rightarrow> None)"

record pricing_phase =
  pp_formattedPrice :: string
  pp_priceAmountMicros :: string

record store_offer =
  of_basePlan :: "string option"
  of_token :: "string option"
  of_phases :: "pricing_phase list option"

record store_product =
  pd_id :: string
  pd_displayPrice :: string
  pd_price :: "rat option"
  pd_offers :: "store_offer list option"

record iap_prices =
  ip_monthly :: "string option"
  ip_annual :: "string option"
  ip_saving :: "int option"

text \<open>The last product of an id is the one a \<open>Map\<close> of the list keeps.\<close>

definition product_by_id :: "store_product list \<Rightarrow> string \<Rightarrow> store_product option" where
  "product_by_id ps i = find (\<lambda>p. pd_id p = i) (rev ps)"

definition androidOffers :: "store_product option \<Rightarrow> store_offer list option" where
  "androidOffers product = Option.bind product pd_offers"

definition offer_of :: "store_product option \<Rightarrow> string \<Rightarrow> store_offer option" where
  "offer_of product basePlanId =
     Option.bind (androidOffers product) (find (\<lambda>x. of_basePlan x = Some basePlanId))"

definition androidOfferToken :: "store_product option \<Rightarrow> string \<Rightarrow> string option" where
  "androidOfferToken product basePlanId = Option.bind (offer_of product basePlanId) of_token"

definition recurring_phase :: "store_product option \<Rightarrow> string \<Rightarrow> pricing_phase option" where
  "recurring_phase product basePlanId =
     Option.bind (Option.bind (offer_of product basePlanId) of_phases)
       (\<lambda>ps. if ps = [] then None else Some (last ps))"

definition android_amount :: "store_product option \<Rightarrow> string \<Rightarrow> rat option" where
  "android_amount product basePlanId =
     (case map_option (\<lambda>p. js_number (pp_priceAmountMicros p)) (recurring_phase product basePlanId) of
        Some (Fin micros) \<Rightarrow> if 0 < micros then Some (micros / 1000000) else None
      | _ \<Rightarrow> None)"

definition resolveAndroidPrices :: "store_product option \<Rightarrow> iap_prices" where
  "resolveAndroidPrices product =
     \<lparr>ip_monthly = map_option pp_formattedPrice (recurring_phase product ANDROID_BASE_PLAN_MONTHLY),
      ip_annual = map_option pp_formattedPrice (recurring_phase product ANDROID_BASE_PLAN_ANNUAL),
      ip_saving = annualSaving (android_amount product ANDROID_BASE_PLAN_MONTHLY)
                    (android_amount product ANDROID_BASE_PLAN_ANNUAL)\<rparr>"

definition session_prices :: "bool \<Rightarrow> store_product list \<Rightarrow> iap_prices" where
  "session_prices ios ps =
     (if ios then
        \<lparr>ip_monthly = map_option pd_displayPrice (product_by_id ps IOS_SKU_MONTHLY),
         ip_annual = map_option pd_displayPrice (product_by_id ps IOS_SKU_ANNUAL),
         ip_saving = annualSaving (Option.bind (product_by_id ps IOS_SKU_MONTHLY) pd_price)
                       (Option.bind (product_by_id ps IOS_SKU_ANNUAL) pd_price)\<rparr>
      else resolveAndroidPrices (product_by_id ps ANDROID_SKU))"

text \<open>What the purchase sheet is opened for; \<open>account\<close> is \<open>appAccountToken\<close>. \<open>Inl\<close> throws.\<close>

datatype sheet =
    Sheet_ios string string
  | Sheet_android string string string

definition open_sheet ::
  "bool \<Rightarrow> (string \<Rightarrow> string) \<Rightarrow> store_product option \<Rightarrow> bool \<Rightarrow> string \<Rightarrow> string + sheet" where
  "open_sheet ios account product annual payCode =
     (if ios then Inr (Sheet_ios (if annual then IOS_SKU_ANNUAL else IOS_SKU_MONTHLY) (account payCode))
      else
        (let basePlan = (if annual then ANDROID_BASE_PLAN_ANNUAL else ANDROID_BASE_PLAN_MONTHLY)
         in case androidOfferToken product basePlan of
              None \<Rightarrow> Inl (''no Play offer available for base plan '' @ basePlan)
            | Some token \<Rightarrow>
                if token = [] then Inl (''no Play offer available for base plan '' @ basePlan)
                else Inr (Sheet_android ANDROID_SKU payCode token)))"

section \<open>Claiming what the store holds\<close>

datatype purchase_state = Store_purchased | Store_pending | Store_unknown

record purchase =
  pu_productId :: string
  pu_state :: purchase_state
  pu_token :: "string option"
  pu_autoRenewing :: bool

record verify_result =
  vr_ok :: bool
  vr_pending :: bool
  vr_elsewhere :: bool

datatype iap_error = Claim_failed bridge_error | Finish_failed

text \<open>
  A claim sends a code, a token and whether to move the purchase, and answers on the next state
  of whatever is behind it. \<open>finish\<close> tells whether the store takes an acknowledgement.
\<close>

type_synonym 'b claim = "string \<Rightarrow> string \<Rightarrow> bool \<Rightarrow> 'b \<Rightarrow> (bridge_error + json) \<times> 'b"

definition owned_elsewhere :: "bridge_error \<Rightarrow> bool" where
  "owned_elsewhere e \<longleftrightarrow> (case e of Bridge_api c slug m \<Rightarrow> slug = ''owned_by_other_device'' | _ \<Rightarrow> False)"

definition accepted_in :: "json \<Rightarrow> bool" where
  "accepted_in res \<longleftrightarrow> json_truthy (jget ''accepted'' res)"

definition verifyAndFinish ::
  "'b claim \<Rightarrow> (purchase \<Rightarrow> bool) \<Rightarrow> string \<Rightarrow> bool \<Rightarrow> purchase \<Rightarrow> 'b \<times> purchase list \<Rightarrow>
   (iap_error + verify_result) \<times> 'b \<times> purchase list" where
  "verifyAndFinish claim finish code transfer p w =
     (if pu_state p = Store_pending then (Inr \<lparr>vr_ok = False, vr_pending = True, vr_elsewhere = False\<rparr>, w)
      else case pu_token p of
        None \<Rightarrow> (Inr \<lparr>vr_ok = False, vr_pending = False, vr_elsewhere = False\<rparr>, w)
      | Some token \<Rightarrow>
          if token = [] then (Inr \<lparr>vr_ok = False, vr_pending = False, vr_elsewhere = False\<rparr>, w)
          else (case claim code token transfer (fst w) of
            (Inl e, b) \<Rightarrow>
              if owned_elsewhere e then (Inr \<lparr>vr_ok = False, vr_pending = False, vr_elsewhere = True\<rparr>, b, snd w)
              else (Inl (Claim_failed e), b, snd w)
          | (Inr res, b) \<Rightarrow>
              if \<not> accepted_in res then (Inr \<lparr>vr_ok = False, vr_pending = False, vr_elsewhere = False\<rparr>, b, snd w)
              else if finish p then (Inr \<lparr>vr_ok = True, vr_pending = False, vr_elsewhere = False\<rparr>, b, snd w @ [p])
              else (Inl Finish_failed, b, snd w @ [p])))"

definition isOurSubscription :: "purchase \<Rightarrow> bool" where
  "isOurSubscription p \<longleftrightarrow> pu_productId p = ANDROID_SKU \<or> pu_productId p \<in> set iosSkus"

datatype store_sub = Sub_renewing | Sub_cancelled | Sub_none

record reconcile_result =
  rc_any :: bool
  rc_elsewhere :: "purchase list"
  rc_holds :: bool
  rc_autoRenewing :: bool

fun reconcile_loop ::
  "'b claim \<Rightarrow> (purchase \<Rightarrow> bool) \<Rightarrow> string \<Rightarrow> purchase list \<Rightarrow> bool \<times> purchase list \<Rightarrow> 'b \<times> purchase list \<Rightarrow>
   (bool \<times> purchase list) \<times> 'b \<times> purchase list" where
  "reconcile_loop claim finish code [] acc w = (acc, w)"
| "reconcile_loop claim finish code (p # ps) (any, elsewhere) w =
     (case verifyAndFinish claim finish code False p w of
        (Inl e, w') \<Rightarrow> reconcile_loop claim finish code ps (any, elsewhere) w'
      | (Inr r, w') \<Rightarrow>
          reconcile_loop claim finish code ps
            (any \<or> vr_ok r, if vr_elsewhere r then elsewhere @ [p] else elsewhere) w')"

definition holdings :: "purchase list \<Rightarrow> store_sub" where
  "holdings held =
     (let ours = filter isOurSubscription held
      in if length ours = 0 then Sub_none else if list_ex pu_autoRenewing ours then Sub_renewing else Sub_cancelled)"

definition reconcile ::
  "'b claim \<Rightarrow> (purchase \<Rightarrow> bool) \<Rightarrow> string \<Rightarrow> purchase list \<Rightarrow> 'b \<times> purchase list \<Rightarrow>
   reconcile_result \<times> 'b \<times> purchase list" where
  "reconcile claim finish code held w =
     (let ours = filter isOurSubscription held;
          ((any, elsewhere), w') = reconcile_loop claim finish code held (False, []) w
      in (\<lparr>rc_any = any, rc_elsewhere = elsewhere, rc_holds = (0 < length ours),
           rc_autoRenewing = list_ex pu_autoRenewing ours\<rparr>, w'))"

fun iap_transfer ::
  "'b claim \<Rightarrow> (purchase \<Rightarrow> bool) \<Rightarrow> string \<Rightarrow> purchase list \<Rightarrow> bool \<Rightarrow> 'b \<times> purchase list \<Rightarrow>
   (iap_error + bool) \<times> 'b \<times> purchase list" where
  "iap_transfer claim finish code [] any w = (Inr any, w)"
| "iap_transfer claim finish code (p # ps) any w =
     (case verifyAndFinish claim finish code True p w of
        (Inl e, w') \<Rightarrow> (Inl e, w')
      | (Inr r, w') \<Rightarrow> iap_transfer claim finish code ps (any \<or> vr_ok r) w')"

text \<open>The listeners of a session, as the callback that is called, if any.\<close>

datatype callback = On_verified | On_pending | On_cancelled | On_error string

definition COULD_NOT_VERIFY :: string where
  "COULD_NOT_VERIFY = ''Purchase could not be verified. It will be retried automatically.''"

definition COULD_NOT_REACH :: string where
  "COULD_NOT_REACH = ''Could not reach the activation service. Your purchase is safe; we will retry.''"

definition purchase_updated :: "iap_error + verify_result \<Rightarrow> callback option" where
  "purchase_updated r =
     (case r of
        Inl e \<Rightarrow> Some (On_error COULD_NOT_REACH)
      | Inr v \<Rightarrow>
          if vr_pending v then Some On_pending
          else if vr_ok v then Some On_verified
          else if vr_elsewhere v then None
          else Some (On_error COULD_NOT_VERIFY))"

definition purchase_failed :: "string \<Rightarrow> string \<Rightarrow> callback" where
  "purchase_failed code message =
     (if code = ''user-cancelled'' \<or> code = ''user-error'' then On_cancelled else On_error message)"

section \<open>The hook\<close>

datatype iap_phase = P_idle | P_purchasing | P_verifying | P_pending_store | P_activating | P_done | P_error

text \<open>What is shown; \<open>Note\<close> carries the text of a callback or of a refused move.\<close>

datatype iap_note = Store_unavailable | Snag | No_subscription | Not_moved | Note string

record iap =
  ia_ready :: bool
  ia_phase :: iap_phase
  ia_error :: "iap_note option"
  ia_storeSub :: "store_sub option"
  ia_offer :: bool
  ia_elsewhere :: "purchase list"

definition iap_init :: iap where
  "iap_init = \<lparr>ia_ready = False, ia_phase = P_idle, ia_error = None, ia_storeSub = None, ia_offer = False, ia_elsewhere = []\<rparr>"

definition applyReconcile :: "reconcile_result \<Rightarrow> iap \<Rightarrow> iap" where
  "applyReconcile r s =
     s\<lparr>ia_elsewhere := rc_elsewhere r, ia_offer := (\<not> rc_any r \<and> 0 < length (rc_elsewhere r)),
       ia_phase := (if rc_any r then P_activating else ia_phase s)\<rparr>"

definition called_back :: "callback \<Rightarrow> iap \<Rightarrow> iap" where
  "called_back c s =
     (case c of
        On_verified \<Rightarrow> s\<lparr>ia_storeSub := Some Sub_renewing, ia_phase := P_activating\<rparr>
      | On_pending \<Rightarrow> s\<lparr>ia_phase := P_pending_store\<rparr>
      | On_cancelled \<Rightarrow>
          s\<lparr>ia_phase := (if ia_phase s = P_purchasing \<or> ia_phase s = P_verifying then P_idle else ia_phase s)\<rparr>
      | On_error m \<Rightarrow> s\<lparr>ia_error := Some (Note m), ia_phase := P_error\<rparr>)"

definition transfer_message :: "(iap_error \<Rightarrow> string) \<Rightarrow> iap_error \<Rightarrow> string" where
  "transfer_message message_of e =
     (case (case e of Claim_failed b \<Rightarrow> client_transferAvailableAt b | Finish_failed \<Rightarrow> None) of
        Some t \<Rightarrow> ''This subscription moved recently. It can move again on '' @ take 10 (toISOString t) @ ''.''
      | None \<Rightarrow> message_of e)"

datatype iap_event =
    I_remembered "store_sub option"
  | I_ready
  | I_holdings store_sub
  | I_reconciled reconcile_result
  | I_store_unavailable
  | I_called callback
  | I_premium
  | I_snag
  | I_purchase
  | I_sheet bool
  | I_restore
  | I_restored "reconcile_result option"
  | I_transfer
  | I_transferred "iap_error + bool"
  | I_dismiss

fun iap_apply :: "(iap_error \<Rightarrow> string) \<Rightarrow> iap_event \<Rightarrow> iap \<Rightarrow> iap" where
  "iap_apply msg (I_remembered st) s =
     (case st of None \<Rightarrow> s | Some x \<Rightarrow> s\<lparr>ia_storeSub := Some (the_default x (ia_storeSub s))\<rparr>)"
| "iap_apply msg I_ready s = s\<lparr>ia_ready := True\<rparr>"
| "iap_apply msg (I_holdings st) s = s\<lparr>ia_storeSub := Some st\<rparr>"
| "iap_apply msg (I_reconciled r) s = applyReconcile r s"
| "iap_apply msg I_store_unavailable s = s\<lparr>ia_error := Some Store_unavailable\<rparr>"
| "iap_apply msg (I_called c) s = called_back c s"
| "iap_apply msg I_premium s = s\<lparr>ia_phase := (if ia_phase s = P_activating then P_done else ia_phase s)\<rparr>"
| "iap_apply msg I_snag s =
     (if ia_phase s = P_activating
      then s\<lparr>ia_error := Some Snag\<rparr> else s)"
| "iap_apply msg I_purchase s = (if \<not> ia_ready s then s else s\<lparr>ia_error := None, ia_phase := P_purchasing\<rparr>)"
| "iap_apply msg (I_sheet opened) s =
     s\<lparr>ia_phase := (if ia_phase s = P_purchasing then if opened then P_verifying else P_idle else ia_phase s)\<rparr>"
| "iap_apply msg I_restore s = (if \<not> ia_ready s then s else s\<lparr>ia_error := None\<rparr>)"
| "iap_apply msg (I_restored r) s =
     (case r of
        None \<Rightarrow> s\<lparr>ia_error := Some Store_unavailable\<rparr>
      | Some x \<Rightarrow>
          (if \<not> rc_any x \<and> length (rc_elsewhere x) = 0
           then (applyReconcile x s)\<lparr>ia_error := Some No_subscription\<rparr>
           else applyReconcile x s))"
| "iap_apply msg I_transfer s = (if \<not> ia_ready s \<or> length (ia_elsewhere s) = 0 then s else s\<lparr>ia_error := None\<rparr>)"
| "iap_apply msg (I_transferred r) s =
     (case r of
        Inr any \<Rightarrow>
          (if any then s\<lparr>ia_offer := False, ia_elsewhere := [], ia_phase := P_activating\<rparr>
           else s\<lparr>ia_offer := False, ia_error := Some Not_moved\<rparr>)
      | Inl e \<Rightarrow> s\<lparr>ia_error := Some (Note (transfer_message msg e))\<rparr>)"
| "iap_apply msg I_dismiss s = s\<lparr>ia_offer := False\<rparr>"

definition iap_run :: "(iap_error \<Rightarrow> string) \<Rightarrow> iap_event list \<Rightarrow> iap \<Rightarrow> iap" where
  "iap_run msg es s = fold (iap_apply msg) es s"

section \<open>What is acknowledged\<close>

text \<open>A purchase is acknowledged when its claim was accepted, and not otherwise.\<close>

lemma verifyAndFinish_cases:
  assumes "verifyAndFinish claim finish code tr p (b, fin) = (r, b', fin')"
  shows "(b' = b \<and> fin' = fin \<and> (\<forall>v. r = Inr v \<longrightarrow> \<not> vr_ok v \<and> \<not> vr_elsewhere v))
    \<or> (\<exists>t a. pu_token p = Some t \<and> claim code t tr b = (a, b')
        \<and> (\<forall>v. r = Inr v \<longrightarrow> vr_elsewhere v \<longrightarrow> (\<exists>e. a = Inl e \<and> owned_elsewhere e))
        \<and> (fin' = fin \<and> (\<forall>v. r = Inr v \<longrightarrow> \<not> vr_ok v)
            \<or> fin' = fin @ [p] \<and> (\<exists>res. a = Inr res \<and> accepted_in res) \<and> (\<forall>v. r = Inr v \<longrightarrow> \<not> vr_elsewhere v)))"
  using assms by (auto simp: verifyAndFinish_def split: if_splits option.splits prod.splits sum.splits)

text \<open>
  What the session relies on in a bridge: an accepted claim leaves the purchase with the code, a
  claim refused as another identity's leaves it with that one, and a claim that moves nothing
  changes the state in an order \<open>later\<close> in which neither is undone.
\<close>

locale claim_service =
  fixes claim :: "'b claim" and code :: string
    and owned :: "'b \<Rightarrow> string \<Rightarrow> bool" and others :: "'b \<Rightarrow> string \<Rightarrow> bool"
    and later :: "'b \<Rightarrow> 'b \<Rightarrow> bool"
  assumes later_refl: "later b b" and later_trans: "later b b1 \<Longrightarrow> later b1 b' \<Longrightarrow> later b b'"
    and later_owned: "later b b' \<Longrightarrow> owned b t \<Longrightarrow> owned b' t"
    and later_others: "later b b' \<Longrightarrow> others b t \<Longrightarrow> others b' t"
    and claim_later: "claim code t False b = (a, b') \<Longrightarrow> later b b'"
    and claim_owned: "claim code t tr b = (Inr v, b') \<Longrightarrow> accepted_in v \<Longrightarrow> owned b' t"
    and claim_others: "claim code t tr b = (Inl e, b') \<Longrightarrow> owned_elsewhere e \<Longrightarrow> others b' t"
begin

definition mine :: "'b \<Rightarrow> purchase \<Rightarrow> bool" where
  "mine b p \<longleftrightarrow> (\<exists>t. pu_token p = Some t \<and> owned b t)"

definition theirs :: "'b \<Rightarrow> purchase \<Rightarrow> bool" where
  "theirs b p \<longleftrightarrow> (\<exists>t. pu_token p = Some t \<and> others b t)"

lemma later_mine: "later b b' \<Longrightarrow> mine b p \<Longrightarrow> mine b' p"
  unfolding mine_def using later_owned by blast

lemma later_theirs: "later b b' \<Longrightarrow> theirs b p \<Longrightarrow> theirs b' p"
  unfolding theirs_def using later_others by blast

lemma verify_told:
  assumes v: "verifyAndFinish claim finish code tr p (b, fin) = (r, b', fin')"
  shows "\<not> tr \<Longrightarrow> later b b'"
    and "fin' = fin \<and> (\<forall>v. r = Inr v \<longrightarrow> \<not> vr_ok v) \<or> fin' = fin @ [p] \<and> mine b' p"
    and "\<And>v. r = Inr v \<Longrightarrow> vr_elsewhere v \<Longrightarrow> fin' = fin \<and> theirs b' p"
proof -
  note cases = verifyAndFinish_cases [OF v]
  show "later b b'" if "\<not> tr" using cases
  proof (elim disjE exE conjE)
    fix t a
    assume "claim code t tr b = (a, b')"
    with that show "later b b'" "later b b'" by (simp_all add: claim_later)
  qed (simp add: later_refl)
  show "fin' = fin \<and> (\<forall>v. r = Inr v \<longrightarrow> \<not> vr_ok v) \<or> fin' = fin @ [p] \<and> mine b' p"
    using cases
  proof (elim disjE exE conjE)
    fix t a res
    assume "pu_token p = Some t" "claim code t tr b = (a, b')" "fin' = fin @ [p]" "a = Inr res" "accepted_in res"
    with claim_owned [of t tr b res b'] show ?thesis by (simp add: mine_def)
  qed auto
  show "fin' = fin \<and> theirs b' p" if "r = Inr v" "vr_elsewhere v" for v
    using cases
  proof (elim disjE exE conjE)
    fix t a
    assume t: "pu_token p = Some t" "claim code t tr b = (a, b')"
      and "\<forall>v. r = Inr v \<longrightarrow> vr_elsewhere v \<longrightarrow> (\<exists>e. a = Inl e \<and> owned_elsewhere e)" and fin: "fin' = fin"
    with that obtain e where "a = Inl e" "owned_elsewhere e" by blast
    with claim_others [of t tr b e b'] t fin show ?thesis by (simp add: theirs_def)
  qed (use that in auto)
qed

text \<open>What is acknowledged is the code's, what is reported elsewhere another's.\<close>

lemma loop_told:
  assumes "reconcile_loop claim finish code ps acc (b, fin) = (acc', b', fin')"
    and "\<forall>p\<in>set fin. mine b p" and "\<forall>p\<in>set (snd acc). theirs b p" and "fst acc \<longrightarrow> fin \<noteq> []"
  shows "later b b' \<and> (\<forall>p\<in>set fin'. mine b' p) \<and> (\<forall>p\<in>set (snd acc'). theirs b' p) \<and> (fst acc' \<longrightarrow> fin' \<noteq> [])"
  using assms
proof (induction ps arbitrary: acc b fin)
  case Nil
  then show ?case by (simp add: later_refl)
next
  case (Cons p ps)
  obtain any el where acc: "acc = (any, el)" by (cases acc)
  obtain r b1 fin1 where v: "verifyAndFinish claim finish code False p (b, fin) = (r, b1, fin1)" by (metis prod_cases3)
  note one = verify_told [OF v]
  have keep: "\<forall>p\<in>set fin. mine b1 p" "\<forall>p\<in>set el. theirs b1 p"
    using Cons.prems(2,3) later_mine later_theirs one(1) acc by auto
  have fin1: "\<forall>p\<in>set fin1. mine b1 p" "fin \<noteq> [] \<longrightarrow> fin1 \<noteq> []" using one(2) keep(1) by auto
  define acc1 where "acc1 = (case r of Inl e \<Rightarrow> (any, el)
    | Inr x \<Rightarrow> (any \<or> vr_ok x, if vr_elsewhere x then el @ [p] else el))"
  have rest: "reconcile_loop claim finish code ps acc1 (b1, fin1) = (acc', b', fin')"
    using Cons.prems(1) by (cases r) (simp_all add: acc v acc1_def)
  have "\<forall>p\<in>set (snd acc1). theirs b1 p" using keep(2) one(3) by (auto simp: acc1_def split: sum.splits)
  moreover have "fst acc1 \<longrightarrow> fin1 \<noteq> []"
    using Cons.prems(4) fin1(2) one(2) by (auto simp: acc acc1_def split: sum.splits)
  ultimately have "later b1 b' \<and> (\<forall>p\<in>set fin'. mine b' p) \<and> (\<forall>p\<in>set (snd acc'). theirs b' p) \<and> (fst acc' \<longrightarrow> fin' \<noteq> [])"
    by (intro Cons.IH [OF rest fin1(1)])
  then show ?case using one(1) later_trans by blast
qed

lemma restore_told:
  assumes "reconcile claim finish code ps (b, []) = (r, b', fin)"
  shows "later b b' \<and> (\<forall>p\<in>set fin. mine b' p) \<and> (\<forall>p\<in>set (rc_elsewhere r). theirs b' p) \<and> (rc_any r \<longrightarrow> fin \<noteq> [])"
proof -
  obtain any el b1 fin1 where l: "reconcile_loop claim finish code ps (False, []) (b, []) = ((any, el), b1, fin1)"
    by (metis prod_cases3 prod.exhaust)
  then have "b1 = b'" "fin1 = fin" "rc_any r = any" "rc_elsewhere r = el"
    using assms by (auto simp: reconcile_def Let_def)
  with loop_told [OF l] show ?thesis by simp
qed

text \<open>A deliberate move acknowledges nothing else.\<close>

lemma move_told:
  assumes "verifyAndFinish claim finish code True p (b, []) = (r, b', fin)"
  shows "\<forall>q\<in>set fin. q = p \<and> mine b' q"
  using verify_told(2) [OF assms] by auto

end

section \<open>The bridge behind a claim\<close>

text \<open>
  The claims of a phone at a bridge that serves no one else meanwhile: the n-th at the time
  \<open>clock n\<close>, with what becomes of its request and of its answer on the way.
\<close>

datatype delivery = Delivered | Request_lost | Answer_lost

definition device_claim ::
  "deps \<Rightarrow> parties \<Rightarrow> (nat \<Rightarrow> millis) \<Rightarrow> (nat \<Rightarrow> delivery) \<Rightarrow> (nat \<times> server) claim" where
  "device_claim d pt clock way code token tr w =
     (case w of (n, sv) \<Rightarrow>
        if way n = Request_lost then (Inl Bridge_failed, Suc n, sv)
        else (if way n = Answer_lost then Inl Bridge_failed
              else claimGooglePurchase (network d pt (clock n) None sv) None code token (Some tr),
              Suc n, snd (post d pt (clock n) ''/v1/google/claim'' (google_claim_body code token (Some tr)) sv)))"

definition other_owner :: "parties \<Rightarrow> string \<Rightarrow> string \<Rightarrow> db \<Rightarrow> bool" where
  "other_owner pt code token s \<longleftrightarrow>
     (\<exists>sub. pt_google pt token = Inr sub \<and> claim_owner sub token s \<noteq> None \<and> claim_owner sub token s \<noteq> Some code)"

text \<open>What a claim that moves nothing leaves of the owners, whatever comes of it.\<close>

lemma claim_keeps_owner:
  assumes "owner_of Google t s = Some o'" and "o' \<noteq> []"
  shows "owner_of Google t (snd (claimPurchase env cfg ms fetched code token False s)) = Some o'"
  using claim_cases [of env cfg ms fetched code token False s]
proof (elim disjE exE conjE)
  fix sub facts
  assume eq: "claimPurchase env cfg ms fetched code token False s
      = (case google_settle env cfg ms code token sub facts s of
           (Inl e, s') \<Rightarrow> (Inl e, s') | (Inr v, s') \<Rightarrow> (Inr (to_claim v), s'))"
    and own: "claim_owner sub token s \<in> {None, Some code}"
  have "snd (claimPurchase env cfg ms fetched code token False s) = snd (google_settle env cfg ms code token sub facts s)"
    unfolding eq by (auto split: prod.splits sum.splits)
  moreover have "o' = code" if "t = token"
    using own that assms by (auto simp: claim_owner_def or_else_def)
  ultimately show ?thesis using assms(1) by auto
qed (use assms in auto)

lemma claim_keeps_others:
  assumes "other_owner pt code t s"
  shows "other_owner pt code t (snd (claimPurchase env cfg ms (pt_google pt token) code token False s))"
  using claim_cases [of env cfg ms "pt_google pt token" code token False s]
proof (elim disjE exE conjE)
  fix sub facts
  assume eq: "claimPurchase env cfg ms (pt_google pt token) code token False s
      = (case google_settle env cfg ms code token sub facts s of
           (Inl e, s') \<Rightarrow> (Inl e, s') | (Inr v, s') \<Rightarrow> (Inr (to_claim v), s'))"
    and own: "pt_google pt token = Inr sub" "claim_owner sub token s \<in> {None, Some code}"
  have "snd (claimPurchase env cfg ms (pt_google pt token) code token False s)
      = snd (google_settle env cfg ms code token sub facts s)"
    unfolding eq by (auto split: prod.splits sum.splits)
  moreover have "t \<noteq> token" using own assms by (auto simp: other_owner_def)
  ultimately show ?thesis using assms by (auto simp: other_owner_def claim_owner_def)
qed (use assms in auto)

text \<open>Why a claim is refused as another device's.\<close>

lemma reasons_not_elsewhere:
  "inactiveReason sub = Some r \<Longrightarrow> r \<noteq> ''owned_by_other_device''"
  "periodFacts cfg sub = Inl r \<Longrightarrow> r \<noteq> ''owned_by_other_device''"
  by (auto simp: inactiveReason_def periodFacts_def Let_def split: if_splits option.splits)

lemma claim_elsewhere:
  assumes "claimPurchase env cfg ms (pt_google pt token) code token tr s = (Inr c, s')"
    and "\<not> c_accepted c" and "c_reason c = ''owned_by_other_device''"
  shows "other_owner pt code token s" and "s' = s"
proof -
  have "vo_accepted v" if "google_settle env cfg ms code token sub facts s = (Inr v, s1)" for sub facts v s1
    using that settle_accepts by (metis fst_conv)
  with assms show "other_owner pt code token s"
    by (auto simp: claimPurchase_def claim_refused_def claim_moved_def to_claim_def other_owner_def claim_owner_def owner_of_def Let_def
        dest: reasons_not_elsewhere split: if_splits sum.splits option.splits prod.splits)
  show "s' = s" using assms(1,2) by (rule claim_refused_unchanged)
qed

text \<open>What the answer to a claim tells of the rail's outcome.\<close>

lemma claim_posted:
  assumes "post d pt ms ''/v1/google/claim'' (google_claim_body code token (Some tr)) sv = (reply, sv')"
  shows "(sv_db sv' = sv_db sv \<and> (\<exists>e. received path reply = Inl e \<and> \<not> owned_elsewhere e))
    \<or> (\<exists>c a s'. cf_google (d_cfg d) = Some c
        \<and> claimPurchase (rail_env_of d) (go_rail c) ms (pt_google pt token) code token tr (sv_db sv) = (a, s')
        \<and> sv_db sv' = s'
        \<and> (\<forall>v. received path reply = Inr v \<longrightarrow> accepted_in v \<longrightarrow> (\<exists>x. a = Inr x \<and> c_accepted x))
        \<and> (\<forall>e. received path reply = Inl e \<longrightarrow> owned_elsewhere e \<longrightarrow>
             (\<exists>x. a = Inr x \<and> \<not> c_accepted x \<and> c_reason x = ''owned_by_other_device'')))"
proof -
  let ?q = "if tr then Some True else None"
  let ?cl = "\<lambda>c. claimPurchase (rail_env_of d) (go_rail c) ms (pt_google pt token) code token tr (sv_db sv)"
  have q: "(?q = Some True) = tr" by simp
  show ?thesis
  proof (cases "\<exists>c. cf_google (d_cfg d) = Some c \<and> \<not> pt_limited pt ''/v1/google/claim'' \<and> valid_code d code
      \<and> google_claim_schema pt (google_claim_body code token (Some tr)) = Some (R_google_claim (pt_google pt token) code token ?q)")
    case False
    then have "sv' = sv \<and> (\<exists>e. received path reply = Inl e \<and> \<not> owned_elsewhere e)"
      using assms by (auto simp: post_def post_routes_def answer_def behind_def google_claim_def bad_code_reply_def badRequest_def
          send_err_def error_handler_def owned_elsewhere_def google_claim_schema_body map_add_def
          split: if_splits option.splits)
    then show ?thesis by simp
  next
    case True
    then obtain c where c: "cf_google (d_cfg d) = Some c" "\<not> pt_limited pt ''/v1/google/claim''" "valid_code d code"
      "google_claim_schema pt (google_claim_body code token (Some tr)) = Some (R_google_claim (pt_google pt token) code token ?q)" by blast
    then have "map_of (post_routes pt (d_cfg d)) ''/v1/google/claim'' = Some (google_claim_schema pt)"
      by (simp add: post_routes_def map_add_def split: option.split)
    with c assms have run: "answer d ms (R_google_claim (pt_google pt token) code token ?q) sv = (reply, sv')"
      by (simp add: post_def)
    obtain a s' where cl: "?cl c = (a, s')" by fastforce
    have db: "sv_db sv' = s'" and reply: "reply = (case (case a of Inl e \<Rightarrow> Inl e | Inr x \<Rightarrow> sendClaim x []) of
          Inl e \<Rightarrow> error_handler (Thrown e) | Inr x \<Rightarrow> x)"
      using run c(1,3) cl q
      by (auto simp: answer_def behind_def google_claim_def reply_with_def with_db_def split: sum.splits)
    have "\<exists>x. a = Inr x \<and> c_accepted x" if "received path reply = Inr v" "accepted_in v" for v
      using that unfolding reply by (cases a) (auto simp: sendClaim_def send_err_def error_handler_def split: if_splits)
    moreover have "\<exists>x. a = Inr x \<and> \<not> c_accepted x \<and> c_reason x = ''owned_by_other_device''"
      if "received path reply = Inl e" "owned_elsewhere e" for e
      using that unfolding reply
      by (cases a) (auto simp: sendClaim_def send_err_def send_ok_def error_handler_def owned_elsewhere_def split: if_splits)
    ultimately show ?thesis using c(1) cl db by blast
  qed
qed

lemma device_claim_cases:
  assumes "device_claim d pt clock way code token tr (n, sv) = (a, n', sv')"
  shows "(sv_db sv' = sv_db sv \<and> (\<exists>e. a = Inl e \<and> \<not> owned_elsewhere e))
    \<or> (\<exists>cfg ms x s'. claimPurchase (rail_env_of d) cfg ms (pt_google pt token) code token tr (sv_db sv) = (x, s')
        \<and> sv_db sv' = s'
        \<and> (\<forall>v. a = Inr v \<longrightarrow> accepted_in v \<longrightarrow> (\<exists>c. x = Inr c \<and> c_accepted c))
        \<and> (\<forall>e. a = Inl e \<longrightarrow> owned_elsewhere e \<longrightarrow>
             (\<exists>c. x = Inr c \<and> \<not> c_accepted c \<and> c_reason c = ''owned_by_other_device'')))"
proof -
  obtain reply sv1 where p: "post d pt (clock n) ''/v1/google/claim'' (google_claim_body code token (Some tr)) sv = (reply, sv1)"
    by fastforce
  have over: "claimGooglePurchase (network d pt (clock n) None sv) None code token (Some tr) = received ''/v1/google/claim'' reply"
    unfolding claimGooglePurchase_def google_claim_body_def [symmetric] by (simp add: network_post p)
  have lost: "\<not> owned_elsewhere Bridge_failed" by (simp add: owned_elsewhere_def)
  have "a = Inl Bridge_failed \<and> sv' = sv \<or> (a = Inl Bridge_failed \<or> a = received ''/v1/google/claim'' reply) \<and> sv' = sv1"
    using assms unfolding device_claim_def by (auto simp: over p split: if_splits)
  then show ?thesis
  proof (elim disjE conjE)
    assume "a = received ''/v1/google/claim'' reply" "sv' = sv1"
    with claim_posted [OF p, of "''/v1/google/claim''"] show ?thesis by blast
  next
    assume "a = Inl Bridge_failed" "sv' = sv1"
    with claim_posted [OF p, of "''/v1/google/claim''"] lost show ?thesis by auto
  qed (use lost in auto)
qed

lemma claimed_owner:
  assumes "device_claim d pt clock way code token tr (n, sv) = (Inr v, n', sv')" and "accepted_in v"
  shows "owner_of Google token (sv_db sv') = Some code" and "code \<noteq> []"
proof -
  obtain cfg ms c s' where "claimPurchase (rail_env_of d) cfg ms (pt_google pt token) code token tr (sv_db sv) = (Inr c, s')"
    "c_accepted c" "sv_db sv' = s'"
    using device_claim_cases [OF assms(1)] assms(2) by auto
  from claim_accepted [OF this(1,2)] this(3) show "owner_of Google token (sv_db sv') = Some code" "code \<noteq> []"
    by (auto simp: isValidPaymentCode_def)
qed

text \<open>The claims of a restore: \<open>b\<close> becomes \<open>b'\<close> with no owner changed but by a claim of none.\<close>

definition restores :: "parties \<Rightarrow> string \<Rightarrow> nat \<times> server \<Rightarrow> nat \<times> server \<Rightarrow> bool" where
  "restores pt code b b' \<longleftrightarrow>
     (\<forall>t o'. owner_of Google t (sv_db (snd b)) = Some o' \<longrightarrow> o' \<noteq> [] \<longrightarrow> owner_of Google t (sv_db (snd b')) = Some o')
     \<and> (\<forall>t. other_owner pt code t (sv_db (snd b)) \<longrightarrow> other_owner pt code t (sv_db (snd b')))"

lemma restores_refl [simp]: "restores pt code b b"
  by (simp add: restores_def)

lemma restores_trans: "restores pt code a b \<Longrightarrow> restores pt code b c \<Longrightarrow> restores pt code a c"
  by (simp add: restores_def)

lemma device_claim_restores:
  assumes "device_claim d pt clock way code token False b = (a, b')" shows "restores pt code b b'"
proof -
  obtain n sv n' sv' where b: "b = (n, sv)" "b' = (n', sv')" by (cases b; cases b') auto
  from device_claim_cases [OF assms [unfolded b]] show ?thesis unfolding b restores_def snd_conv
  proof (elim disjE exE conjE)
    fix cfg ms x s'
    assume "claimPurchase (rail_env_of d) cfg ms (pt_google pt token) code token False (sv_db sv) = (x, s')" "sv_db sv' = s'"
    then have "sv_db sv' = snd (claimPurchase (rail_env_of d) cfg ms (pt_google pt token) code token False (sv_db sv))" by simp
    then show "(\<forall>t o'. owner_of Google t (sv_db sv) = Some o' \<longrightarrow> o' \<noteq> [] \<longrightarrow> owner_of Google t (sv_db sv') = Some o')
        \<and> (\<forall>t. other_owner pt code t (sv_db sv) \<longrightarrow> other_owner pt code t (sv_db sv'))"
      by (simp add: claim_keeps_owner claim_keeps_others)
  qed simp
qed

lemma device_claim_elsewhere:
  assumes "device_claim d pt clock way code token tr b = (Inl e, b')" and "owned_elsewhere e"
  shows "other_owner pt code token (sv_db (snd b'))"
proof -
  obtain n sv n' sv' where b: "b = (n, sv)" "b' = (n', sv')" by (cases b; cases b') auto
  from device_claim_cases [OF assms(1) [unfolded b]] assms(2)
  obtain cfg ms c s' where "claimPurchase (rail_env_of d) cfg ms (pt_google pt token) code token tr (sv_db sv) = (Inr c, s')"
    "\<not> c_accepted c" "c_reason c = ''owned_by_other_device''" "sv_db sv' = s'" by auto
  with claim_elsewhere [OF this(1-3)] show ?thesis by (simp add: b)
qed

text \<open>The bridge's Google rail over the network is such a service.\<close>

interpretation google_service: claim_service "device_claim d pt clock way" code
    "\<lambda>b t. code \<noteq> [] \<and> owner_of Google t (sv_db (snd b)) = Some code" "\<lambda>b t. other_owner pt code t (sv_db (snd b))"
    "restores pt code" for d pt clock way code
proof unfold_locales
  fix t tr b v b'
  assume "device_claim d pt clock way code t tr b = (Inr v, b')" "accepted_in v"
  with claimed_owner [of d pt clock way code t tr "fst b" "snd b" v "fst b'" "snd b'"]
  show "code \<noteq> [] \<and> owner_of Google t (sv_db (snd b')) = Some code" by simp
qed (auto simp: restores_def device_claim_restores device_claim_elsewhere dest: device_claim_restores)

section \<open>A move that fails half-way\<close>

text \<open>
  When the move of a later purchase is refused, the one before it has moved and is acknowledged,
  but the caller is told that the move failed and keeps both on offer.
\<close>

lemma half_moved:
  assumes "verifyAndFinish claim finish code True p (b, fin) = (Inr \<lparr>vr_ok = True, vr_pending = False, vr_elsewhere = False\<rparr>, b1, fin @ [p])"
    and "verifyAndFinish claim finish code True q (b1, fin @ [p]) = (Inl e, b2, fin @ [p])"
  shows "iap_transfer claim finish code [p, q] False (b, fin) = (Inl e, b2, fin @ [p])"
  using assms by simp

lemma half_moved_shown:
  "ia_phase (iap_apply msg (I_transferred (Inl e)) s) = ia_phase s" "ia_elsewhere (iap_apply msg (I_transferred (Inl e)) s) = ia_elsewhere s"
  by simp_all

section \<open>The phases\<close>

text \<open>
  A purchase whose receipt turns out to be another identity's calls nothing back: the sheet has
  been opened, and the hook stays in the phase that disables the button.
\<close>

lemma elsewhere_says_nothing: "purchase_updated (Inr \<lparr>vr_ok = False, vr_pending = False, vr_elsewhere = True\<rparr>) = None"
  by (simp add: purchase_updated_def)

definition settles :: "iap_event \<Rightarrow> bool" where
  "settles e \<longleftrightarrow> (case e of I_called c \<Rightarrow> True | I_reconciled r \<Rightarrow> rc_any r
     | I_restored (Some r) \<Rightarrow> rc_any r | I_transferred (Inr any) \<Rightarrow> any | I_purchase \<Rightarrow> True | _ \<Rightarrow> False)"

lemma stuck_verifying:
  "ia_phase s = P_verifying \<Longrightarrow> \<forall>e\<in>set es. \<not> settles e \<Longrightarrow> ia_phase (iap_run msg es s) = P_verifying"
proof (induction es arbitrary: s)
  case (Cons e es)
  have "ia_phase (iap_apply msg e s) = P_verifying"
    using Cons.prems by (cases e) (auto simp: settles_def applyReconcile_def split: option.splits sum.splits)
  then show ?case using Cons by (simp add: iap_run_def)
qed (simp add: iap_run_def)

text \<open>The hook shows an activation, or what follows it, only behind an accepted receipt.\<close>

definition accepts :: "iap_event \<Rightarrow> bool" where
  "accepts e \<longleftrightarrow> (case e of I_called c \<Rightarrow> c = On_verified | I_reconciled r \<Rightarrow> rc_any r
     | I_restored (Some r) \<Rightarrow> rc_any r | I_transferred (Inr any) \<Rightarrow> any | _ \<Rightarrow> False)"

lemma activated_behind_receipt:
  "ia_phase s \<notin> {P_activating, P_done} \<Longrightarrow> \<forall>e\<in>set es. \<not> accepts e \<Longrightarrow> ia_phase (iap_run msg es s) \<notin> {P_activating, P_done}"
proof (induction es arbitrary: s)
  case (Cons e es)
  have "ia_phase (iap_apply msg e s) \<notin> {P_activating, P_done}"
    using Cons.prems
    by (cases e) (auto simp: accepts_def applyReconcile_def called_back_def split: option.splits sum.splits callback.splits)
  then show ?case using Cons by (simp add: iap_run_def)
qed (simp add: iap_run_def)

section \<open>Prices\<close>

text \<open>A saving that is shown is of the two prices, to the nearest percent, and less than all.\<close>

lemma annualSaving_shown:
  assumes "annualSaving (Some m) (Some a) = Some pct"
  shows "0 < pct" "pct \<le> 100" "a < 12 * m" "\<bar>of_int pct - (1 - a / (12 * m)) * 100\<bar> \<le> 1 / 2"
proof -
  define q where "q = a / (12 * m)"
  from assms have m: "0 < m" "0 < a" and pct: "pct = \<lfloor>(1 - q) * 100 + 1 / 2\<rfloor>" "0 < pct"
    by (auto simp: annualSaving_def math_round_def q_def Let_def split: if_splits)
  have "of_int pct \<le> (1 - q) * 100 + 1 / 2" "(1 - q) * 100 + 1 / 2 < of_int pct + 1" unfolding pct(1) by linarith+
  then have x: "of_int pct \<le> 100 - 100 * q + 1 / 2" "100 - 100 * q + 1 / 2 < of_int pct + 1" by (simp_all add: algebra_simps)
  have q: "0 < q" using m by (simp add: q_def)
  show "0 < pct" by (rule pct(2))
  have "(1::rat) \<le> of_int pct" using pct(2) by simp
  then have "q < 1" using x(1) by linarith
  then show "a < 12 * m" using m by (simp add: q_def divide_simps)
  have "of_int pct < (101::rat)" using x(1) q by linarith
  then show "pct \<le> 100" by linarith
  show "\<bar>of_int pct - (1 - a / (12 * m)) * 100\<bar> \<le> 1 / 2" unfolding q_def [symmetric] abs_le_iff using x by (simp add: algebra_simps)
qed

end
