(* ===== verification/PhoneProperties.thy ===== *)
theory PhoneProperties
  imports AppProperties Backup Relay Fleet Iap
begin

text \<open>
  The properties of the mobile client: the backup of its identity, the relay that carries its
  requests through the tunnel extension, and the list of servers it shows.
\<close>

section \<open>The identity\<close>

text \<open>
  C35. No launch, no synchronisation and no deliberate replacement of the backup changes a place
  that cannot be read, or that holds an identity other than the one written and than those the
  user has agreed to replace.
\<close>

theorem backup_never_overwrites:
  assumes "i < length ps"
    and "\<not> pl_reads (ps ! i) \<or> (\<exists>k c. holds cr (ps ! i) = Some k \<and> kp_privateKey k \<noteq> kp_privateKey kp
      \<and> backup_codeOf cr k = Some c \<and> backup_codeOf cr kp \<noteq> Some c \<and> c \<notin> set replacing)"
  shows "snd (syncBackup cr kp ps) ! i = ps ! i \<and> snd (replaceBackup cr kp ps replacing) ! i = ps ! i
    \<and> (\<forall>seed stored enabled. ri_keypair (fst (resolveIdentity cr seed stored ps enabled)) = kp
        \<longrightarrow> snd (snd (resolveIdentity cr seed stored ps enabled)) ! i = ps ! i)"
proof (intro conjI allI impI)
  obtain w where "spared cr ps (snd (syncBackup cr kp ps)) (\<lambda>k. kp_privateKey k = kp_privateKey kp) w"
    using sync_spares by blast
  from sparedD [OF this assms(1)] assms(2) show sync: "snd (syncBackup cr kp ps) ! i = ps ! i" by blast
  show "snd (replaceBackup cr kp ps replacing) ! i = ps ! i"
    unfolding replaceBackup_def using sparedD [OF writeAll_spares assms(1)] assms(2) by fastforce
  fix seed stored enabled
  assume kp: "ri_keypair (fst (resolveIdentity cr seed stored ps enabled)) = kp"
  obtain r st ps' where r: "resolveIdentity cr seed stored ps enabled = (r, st, ps')" by (metis surj_pair)
  have "ri_keypair r = kp" using kp by (simp add: r)
  with resolve_spares(4) [OF r] sync show "snd (snd (resolveIdentity cr seed stored ps enabled)) ! i = ps ! i"
    by (auto simp: r)
qed

definition ex_place :: "string option \<Rightarrow> place" where
  "ex_place v = \<lparr>pl_exists = True, pl_reads = True, pl_value = v, pl_save = (Some Cloud, True), pl_remove = True\<rparr>"

theorem backup_never_overwrites_witness:
  "snd (syncBackup ex_crypto (generateKeypair ex_crypto (replicate 32 0)) [(ex_place None)\<lparr>pl_reads := False\<rparr>]) ! 0
     = (ex_place None)\<lparr>pl_reads := False\<rparr>"
  using backup_never_overwrites [of 0 "[(ex_place None)\<lparr>pl_reads := False\<rparr>]" ex_crypto] by simp

text \<open>
  C32. The identity made on a first launch, backed up in a place that was empty and took it, is
  the identity of the first launch after the application has been deleted and installed again,
  whatever that launch would have drawn.
\<close>

theorem identity_survives_reinstall:
  assumes "crypto_ok cr" "\<And>k. length (cr_x25519_public cr k) = 32" "length seed = 32"
    and "\<And>p. p \<in> set ps \<Longrightarrow> holds cr p = None \<and> (pl_exists p \<longrightarrow> pl_reads p)"
    and "p \<in> set ps" "pl_exists p" "snd (pl_save p)"
  shows "\<exists>ps'. snd (snd (resolveIdentity cr seed None ps True)) = ps'
    \<and> ri_keypair (fst (resolveIdentity cr seed' None ps' True)) = ri_keypair (fst (resolveIdentity cr seed None ps True))
    \<and> ri_restored (fst (resolveIdentity cr seed' None ps' True))"
proof -
  obtain r st ps' where r: "resolveIdentity cr seed None ps True = (r, st, ps')" by (metis surj_pair)
  from reinstall_restores [OF assms r] show ?thesis by (simp add: r)
qed

text \<open>The example library, with public keys of 32 bytes.\<close>

definition ex_keys :: crypto where
  "ex_keys = ex_crypto\<lparr>cr_x25519_public := (\<lambda>k. take 32 (k @ replicate 32 0))\<rparr>"

lemma ex_keys_ok: "crypto_ok ex_keys"
  using ex_crypto_ok by (simp add: crypto_ok_def ex_keys_def)

theorem identity_survives_reinstall_witness:
  "\<exists>ps'. snd (snd (resolveIdentity ex_keys (replicate 32 1) None [ex_place None] True)) = ps'
    \<and> ri_keypair (fst (resolveIdentity ex_keys (replicate 32 2) None ps' True))
        = ri_keypair (fst (resolveIdentity ex_keys (replicate 32 1) None [ex_place None] True))
    \<and> ri_restored (fst (resolveIdentity ex_keys (replicate 32 2) None ps' True))"
  by (rule identity_survives_reinstall [OF ex_keys_ok, where p = "ex_place None"])
    (simp_all add: ex_keys_def ex_place_def holds_def)

section \<open>The relay\<close>



section \<open>The list of servers\<close>

text \<open>
  C10. The picker has one row for each place that some gateway is in, and every gateway is in the
  row of its place. A row counts and lists exactly the gateways of its place; the one it will
  enrol at has a reading if any of them has, and among those it competes with no other scores
  higher. The rows are in the order of latency, those without a reading last.
\<close>

theorem every_gateway_in_one_row:
  "distinct (map co_id (groupByLocation gws lat)) \<and> sorted (map latency_rank (groupByLocation gws lat))
    \<and> (\<forall>g\<in>set gws. \<exists>row\<in>set (groupByLocation gws lat). co_id row = location_key g)
    \<and> (\<forall>row\<in>set (groupByLocation gws lat). row_ok location_key gws lat row)"
  using rows_by_location [where gws = gws and lat = lat] by blast

theorem every_gateway_in_one_row_witness:
  "distinct (map co_id (groupByLocation ex_gateways (\<lambda>_. None)))
    \<and> (\<exists>row\<in>set (groupByLocation ex_gateways (\<lambda>_. None)). co_id row = location_key (ex_gateway ''10.0.1.2'' ''FR'' (1 / 4)))"
proof -
  have "ex_gateway ''10.0.1.2'' ''FR'' (1 / 4) \<in> set ex_gateways" by (simp add: ex_gateways_def)
  then show ?thesis using every_gateway_in_one_row [of ex_gateways "\<lambda>_. None"] by blast
qed

text \<open>
  The price a phone asks for is the one most gateways quote, and of several with as many
  votes the highest; it has none only where no gateway quotes a positive price.
\<close>

theorem majority_sets_the_price:
  "(fleetPriceFlux quote gateways = None \<longleftrightarrow> fleet_quotes quote gateways = [])
    \<and> (\<forall>p. fleetPriceFlux quote gateways = Some p \<longrightarrow> p \<in> set (fleet_quotes quote gateways) \<and> 0 < p
        \<and> (\<forall>q. count_list (fleet_quotes quote gateways) q < count_list (fleet_quotes quote gateways) p
             \<or> count_list (fleet_quotes quote gateways) q = count_list (fleet_quotes quote gateways) p \<and> q \<le> p))"
proof (intro conjI allI impI)
  show "fleetPriceFlux quote gateways = None \<longleftrightarrow> fleet_quotes quote gateways = []" by (rule majority_price(1))
  fix p assume p: "fleetPriceFlux quote gateways = Some p"
  note maj = majority_price(2) [OF p]
  then show "p \<in> set (fleet_quotes quote gateways)" by blast
  then show "0 < p" by (simp add: fleet_quotes_def)
  fix q
  show "count_list (fleet_quotes quote gateways) q < count_list (fleet_quotes quote gateways) p
      \<or> count_list (fleet_quotes quote gateways) q = count_list (fleet_quotes quote gateways) p \<and> q \<le> p"
  proof (cases "q \<in> set (fleet_quotes quote gateways)")
    case False
    then have "count_list (fleet_quotes quote gateways) q = 0" by (simp add: count_list_0_iff)
    moreover have "count_list (fleet_quotes quote gateways) p \<noteq> 0" using maj by (simp add: count_list_0_iff)
    ultimately show ?thesis by simp
  qed (use maj in blast)
qed

theorem majority_sets_the_price_witness:
  "fleetPriceFlux (\<lambda>g. Some (if ir_country g = ''DE'' then 1 else 5)) ex_gateways = Some 1"
proof -
  let ?quote = "\<lambda>g. Some (if ir_country g = ''DE'' then 1 else 5 :: rat)"
  have q: "fleet_quotes ?quote ex_gateways = [1, 5, 1]"
    by (simp add: fleet_quotes_def ex_gateways_def ex_gateway_def ex_info_def info_response.defs List.map_filter_simps)
  obtain p where p: "fleetPriceFlux ?quote ex_gateways = Some p"
    using majority_sets_the_price [of ?quote ex_gateways] q by auto
  note maj = mp [OF spec [OF conjunct2 [OF majority_sets_the_price [of ?quote ex_gateways]]] p, unfolded q]
  have "p = 1 \<or> p = 5" using conjunct1 [OF maj] by auto
  moreover have "p \<noteq> 5" using spec [OF conjunct2 [OF conjunct2 [OF maj]], of 1] by auto
  ultimately show ?thesis using p by simp
qed

section \<open>Purchases\<close>

text \<open>
  C14. When a phone restores the purchases of its store over the network, whatever is lost on the
  way, it acknowledges only those that the bridge holds for its own code at the end, and says of
  none but another device's that it belongs elsewhere; no subscription is taken from its owner;
  and what it tells the user was accepted is backed by an acknowledgement.
\<close>

theorem restore_acknowledges_own:
  assumes "reconcile (device_claim d pt clock way) finish code bought ((n, sv), []) = (r, (n', sv'), fin)"
  shows "(\<forall>p\<in>set fin. \<exists>t. pu_token p = Some t \<and> owner_of Google t (sv_db sv') = Some code)
    \<and> (\<forall>p\<in>set (rc_elsewhere r). \<exists>t sub. pu_token p = Some t \<and> pt_google pt t = Inr sub
          \<and> claim_owner sub t (sv_db sv') \<noteq> None \<and> claim_owner sub t (sv_db sv') \<noteq> Some code)
    \<and> (\<forall>t o'. owner_of Google t (sv_db sv) = Some o' \<longrightarrow> o' \<noteq> [] \<longrightarrow> owner_of Google t (sv_db sv') = Some o')
    \<and> (rc_any r \<longrightarrow> fin \<noteq> [])"
  using google_service.restore_told [OF assms, unfolded google_service.mine_def google_service.theirs_def]
  by (auto simp: restores_def other_owner_def)

definition ex_held :: "purchase list" where
  "ex_held = map (\<lambda>t. \<lparr>pu_productId = ANDROID_SKU, pu_state = Store_purchased, pu_token = Some t, pu_autoRenewing = True\<rparr>)
     [''purchase-token-000002'', ex_token]"

definition ex_restore where
  "ex_restore = reconcile (device_claim ex_deps ex_parties (\<lambda>_. 3000000) (\<lambda>_. Delivered)) (\<lambda>_. True) ex_code ex_held
     ((0, ex_server_owned), [])"

lemma ex_restore_run:
  "rc_elsewhere (fst ex_restore) = [ex_held ! 1]" "snd (snd ex_restore) = [ex_held ! 0]"
  by code_simp+

theorem restore_acknowledges_own_witness:
  "owner_of Google ''purchase-token-000002'' (sv_db (snd (fst (snd ex_restore)))) = Some ex_code
    \<and> owner_of Google ex_token (sv_db (snd (fst (snd ex_restore)))) = Some ''aaaaaaaaaaaaaaaaaaaaaa''"
proof -
  obtain r n' sv' fin where run: "ex_restore = (r, (n', sv'), fin)" by (metis surj_pair)
  from restore_acknowledges_own [OF run [unfolded ex_restore_def]] ex_restore_run(2) ex_owned_facts(1)
  show ?thesis by (auto simp: run ex_held_def)
qed

end
