(* ===== verification/Phone.thy ===== *)
theory Phone
  imports Fleet Session
begin

text \<open>
  The parts of a session of the mobile client (clients/mobile/src/state/useVpn.ts and
  lib/pow.ts): the configuration that is handed to the native side, the server that is dialled,
  the waits for a handshake and for a teardown, and what a route over two hops is made of. A
  status is what the native module reports (native/CumulusTunnel.ts).
\<close>

section \<open>The native side\<close>

datatype tunnel_phase = V_disconnected | V_connecting | V_connected | V_reasserting | V_disconnecting | V_error

record native_status =
  ns_state :: tunnel_phase
  ns_rxBytes :: rat
  ns_txBytes :: rat
  ns_lastHandshake :: rat
  ns_error :: "string option"
  ns_held :: bool

datatype native_call =
    Start string string bool
  | Start_multihop string string string bool
  | Stop
  | Hold

definition solvePowFast :: "(string \<Rightarrow> nat \<Rightarrow> string) \<Rightarrow> (string \<Rightarrow> nat \<Rightarrow> string option) option \<Rightarrow> string \<Rightarrow> nat \<Rightarrow> string" where
  "solvePowFast slow native publicKeyB64 bits =
     (case Option.bind native (\<lambda>f. f publicKeyB64 bits) of Some nonce \<Rightarrow> nonce | None \<Rightarrow> slow publicKeyB64 bits)"

section \<open>The configuration of a session\<close>

text \<open>\<open>ios\<close> tells the two platforms apart.\<close>

definition phone_splitForSession ::
  "bool \<Rightarrow> split_policy \<Rightarrow> tier \<Rightarrow> bool \<Rightarrow> string list \<Rightarrow> split_error + compiled_split option" where
  "phone_splitForSession ios policy tier killSwitch endpointIps =
     (if tier \<noteq> Premium \<or> (killSwitch \<and> ios) then Inr None
      else (case compileSplitPolicy policy
              \<lparr>cc_platform = (if ios then ''ios'' else ''android''), cc_supportsExcludeRoute = False, cc_endpointIps = endpointIps\<rparr> of
              Inl e \<Rightarrow> Inl e
            | Inr compiled \<Rightarrow> Inr (if co_isNoop compiled then None else Some compiled)))"

definition isMultihop :: "route_style \<Rightarrow> bool" where
  "isMultihop style \<longleftrightarrow> style \<noteq> Single"

definition PHONE_TRANSPORTS :: "string list" where
  "PHONE_TRANSPORTS = [''wg'', ''awg'', ''wg-tls'']"

definition singleHopConfig ::
  "(rat \<Rightarrow> string) \<Rightarrow> string \<Rightarrow> enroll_response \<Rightarrow> transport \<Rightarrow> dns_choice \<Rightarrow> compiled_split option \<Rightarrow> string \<Rightarrow> string" where
  "singleHopConfig numstr privateKey enrollment transport dnsChoice split gatewayIp =
     (let wgConfig = buildWgConfig \<lparr>wp_privateKey = privateKey, wp_assignedIp = er_assigned_ip enrollment,
            wp_dns = dnsServersFor dnsChoice (er_dns enrollment), wp_serverPubKey = er_server_pubkey enrollment,
            wp_endpoint = applyTransportToEndpoint numstr (er_endpoint enrollment) transport,
            wp_obfs = obfsForTransport transport, wp_split = split\<rparr>;
          sni = Option.bind (tp_params transport) (\<lambda>ps. map_of ps ''sni'')
      in if tp_type transport = ''wg-tls''
         then wgConfig @ [CHR 0x0a] @ ''CVPN_TLS_SNI = '' @ (if truthy sni then the sni else gatewayIp) @ [CHR 0x0a]
         else wgConfig)"

definition multihopConfigs ::
  "(rat \<Rightarrow> string) \<Rightarrow> string \<Rightarrow> enroll_response \<Rightarrow> enroll_response \<Rightarrow> dns_choice \<Rightarrow> transport option \<Rightarrow>
   compiled_split option \<Rightarrow> multihop_config" where
  "multihopConfigs numstr privateKey entry exit dnsChoice entryTransport split =
     buildMultihopConfig numstr
       \<lparr>ma_privateKey = privateKey, ma_entry = entry, ma_exit = exit, ma_entryTransport = entryTransport,
        ma_split = split, ma_dns = Some (dnsServersFor dnsChoice (er_dns exit))\<rparr>"

section \<open>Picks\<close>

text \<open>A pick is a country or a city in it: its code, and whether two picks fit a style.\<close>

definition hopCc :: "string option \<Rightarrow> string option" where
  "hopCc key = (if truthy key then Some (takeWhile (\<lambda>c. c \<noteq> CHR '':'') (the key)) else None)"

definition hopsConflict :: "route_style \<Rightarrow> string option \<Rightarrow> string option \<Rightarrow> bool" where
  "hopsConflict style a b \<longleftrightarrow>
     truthy a \<and> truthy b
     \<and> (style = Multihop_same_country \<and> a \<noteq> b \<or> style = Multihop_cross_jurisdiction \<and> a = b)"

definition find_row :: "string option \<Rightarrow> country list \<Rightarrow> country list \<Rightarrow> country option" where
  "find_row key locations countries =
     (case find (\<lambda>l. Some (co_id l) = key) locations of
        Some l \<Rightarrow> Some l
      | None \<Rightarrow> find (\<lambda>c. Some (co_code c) = key) countries)"

text \<open>The servers that failed lately, with the time until which they are avoided.\<close>

type_synonym avoided = "(string \<times> millis) list"

definition AVOID_MS :: millis where "AVOID_MS = 90000"

definition avoid_until :: "millis \<Rightarrow> string option \<Rightarrow> avoided \<Rightarrow> avoided" where
  "avoid_until now ip avoid = (if truthy ip then AList.update (the ip) (now + AVOID_MS) avoid else avoid)"

definition free_of :: "millis \<Rightarrow> avoided \<Rightarrow> gateway_info list \<Rightarrow> gateway_info list" where
  "free_of now avoid gs = filter (\<lambda>g. the_default 0 (map_of avoid (gw_ip g)) \<le> now) gs"

definition city_pinned :: "country \<Rightarrow> bool" where
  "city_pinned location \<longleftrightarrow> CHR '':'' \<in> set (co_id location)"

definition in_city :: "country \<Rightarrow> gateway_info list \<Rightarrow> gateway_info list" where
  "in_city location gs =
     (if \<not> city_pinned location then []
      else filter (\<lambda>g. ir_country g = co_code location \<and> localityOf (ir_city g) (ir_country g) = co_city location) gs)"

definition pickGateway :: "millis \<Rightarrow> avoided \<Rightarrow> gateway_info list \<Rightarrow> country \<Rightarrow> gateway_info" where
  "pickGateway now avoid gateways location =
     (let inCity = free_of now avoid (in_city location gateways);
          inCountry = free_of now avoid (filter (\<lambda>g. ir_country g = co_code location) gateways)
      in if 0 < length inCity then hd (sort_key ir_load inCity)
         else if 0 < length inCountry then hd (sort_key ir_load inCountry)
         else co_best location)"

definition availableGateways :: "millis \<Rightarrow> avoided \<Rightarrow> gateway_info list \<Rightarrow> gateway_info list" where
  "availableGateways now avoid gateways =
     (let free = free_of now avoid gateways in if 0 < length free then free else gateways)"

text \<open>The country an automatic entry is taken from.\<close>

definition auto_entry :: "route_style \<Rightarrow> string option \<Rightarrow> country list \<Rightarrow> string option" where
  "auto_entry style exitCc countries =
     (if style = Multihop_same_country
      then (case exitCc of Some c \<Rightarrow> Some c | None \<Rightarrow> map_option co_code (find (\<lambda>c. 2 \<le> co_nodeCount c) countries))
      else map_option co_code (find (\<lambda>c. Some (co_code c) \<noteq> exitCc) countries))"

section \<open>The clock of a tunnel\<close>

definition HANDSHAKE_DEAD_SEC :: int where "HANDSHAKE_DEAD_SEC = 200"

definition isTunnelDead :: "millis \<Rightarrow> native_status \<Rightarrow> bool" where
  "isTunnelDead now s \<longleftrightarrow>
     ns_state s = V_connected \<and> 0 < ns_lastHandshake s
     \<and> of_int HANDSHAKE_DEAD_SEC < of_int (now div 1000) - ns_lastHandshake s"

definition PHONE_PROBE_MS :: millis where "PHONE_PROBE_MS = 9000"
definition PHONE_PROBE_INTERVAL_MS :: millis where "PHONE_PROBE_INTERVAL_MS = 500"
definition PROBE_SETTLE_MS :: millis where "PROBE_SETTLE_MS = 3000"
definition TEARDOWN_MS :: millis where "TEARDOWN_MS = 4000"

datatype probe_result = Probe_up | Probe_dead | Probe_gone

text \<open>What a turn of a loop reads: the status, \<open>None\<close> where it throws, and the clock after it.\<close>

record look =
  lk_status :: "native_status option"
  lk_now :: millis

definition handshaken :: "native_status \<Rightarrow> bool" where
  "handshaken s \<longleftrightarrow> 0 < ns_lastHandshake s \<or> 0 < ns_rxBytes s"

definition looks_live :: "native_status \<Rightarrow> bool" where
  "looks_live s \<longleftrightarrow> ns_state s = V_connecting \<or> ns_state s = V_connected \<or> ns_state s = V_reasserting"

partial_function (option) phone_probe_loop :: "(nat \<Rightarrow> look) \<Rightarrow> millis \<Rightarrow> millis \<Rightarrow> bool \<Rightarrow> nat \<Rightarrow> probe_result option" where
  "phone_probe_loop looks started deadline sawLive i =
     (let s = lk_status (looks i);
          live = (sawLive \<or> (case s of Some x \<Rightarrow> looks_live x | None \<Rightarrow> False));
          settled = (live \<or> PROBE_SETTLE_MS < lk_now (looks i) - started)
      in if (case s of Some x \<Rightarrow> handshaken x | None \<Rightarrow> False) then Some Probe_up
         else if settled \<and> (case s of Some x \<Rightarrow> ns_state x = V_error \<or> ns_state x = V_disconnected | None \<Rightarrow> False)
         then Some Probe_gone
         else if deadline \<le> lk_now (looks i) then Some Probe_dead
         else phone_probe_loop looks started deadline live (Suc i))"

definition probeHandshake :: "(nat \<Rightarrow> look) \<Rightarrow> millis \<Rightarrow> millis \<Rightarrow> probe_result option" where
  "probeHandshake looks started budgetMs = phone_probe_loop looks started (started + budgetMs) False 0"

text \<open>The wait after a stop: the number of turns it takes.\<close>

partial_function (option) teardown_loop :: "(nat \<Rightarrow> look) \<Rightarrow> millis \<Rightarrow> millis \<Rightarrow> nat \<Rightarrow> nat option" where
  "teardown_loop looks deadline now i =
     (if deadline \<le> now then Some i
      else (case lk_status (looks i) of
              None \<Rightarrow> Some i
            | Some s \<Rightarrow> if ns_state s = V_disconnected \<or> ns_state s = V_error then Some i
                        else teardown_loop looks deadline (lk_now (looks i)) (Suc i)))"

definition teardownAttempt :: "(nat \<Rightarrow> look) \<Rightarrow> millis \<Rightarrow> nat option" where
  "teardownAttempt looks now = teardown_loop looks (now + TEARDOWN_MS) now 0"

text \<open>The budget of a whole connect, over the three transports of this build.\<close>

definition connect_budget :: millis where
  "connect_budget = max 40000 (15000 + int (length PHONE_TRANSPORTS) * (PHONE_PROBE_MS + PROBE_SETTLE_MS + TEARDOWN_MS))"

section \<open>The tier of a gateway\<close>

definition phone_gateway_tier ::
  "crypto \<Rightarrow> (bytes \<Rightarrow> status_response api_envelope option) \<Rightarrow> (string \<Rightarrow> http_answer option \<times> bool) \<Rightarrow> gateway_info \<Rightarrow>
   string \<Rightarrow> tier \<Rightarrow> tier" where
  "phone_gateway_tier cr readStatus fetch gw publicKey cached =
     (if \<not> hasPremiumTransport (ir_transports gw) then cached
      else (case gateway_status cr readStatus fetch (gw_ip gw) publicKey (pin (ir_sign_pubkey gw)) of
              Inr s \<Rightarrow> st_tier s
            | Inl _ \<Rightarrow> cached))"

text \<open>The polled tier, from the answers of up to three gateways, \<open>None\<close> where one fails.\<close>

definition tier_sample :: "string option \<Rightarrow> gateway_info list \<Rightarrow> gateway_info list" where
  "tier_sample activeIp gateways = take 3 (filter (\<lambda>g. Some (gw_ip g) \<noteq> activeIp) gateways)"

definition polled_tier :: "status_response option list \<Rightarrow> (tier \<times> string option) option" where
  "polled_tier results =
     (case find (\<lambda>r. map_option st_tier r = Some Premium) results of
        Some (Some r) \<Rightarrow> Some (Premium, Some (st_paid_until r))
      | _ \<Rightarrow> if list_ex (\<lambda>r. r \<noteq> None) results then Some (Free, None) else None)"

section \<open>Two hops\<close>

datatype vpn_error =
    Native_error string
  | Permission_required
  | Hops_conflict route_style
  | No_gateways
  | None_connected "string list"
  | Blocked_message
  | Timed_out
  | Refused_transport transport_error
  | Bad_policy split_error
  | No_city_route bool
  | No_distinct_route
  | No_such_route string
  | Needs_exit

definition hops_wanted ::
  "string option \<Rightarrow> string option \<Rightarrow> string list option \<Rightarrow> string list option \<Rightarrow> bool \<Rightarrow> select_opts" where
  "hops_wanted entryCountry exitCountry entryIps exitIps requireDistinctSubnet =
     \<lparr>so_entryCountry = (if truthy entryCountry then entryCountry else None),
      so_exitCountry = (if truthy exitCountry then exitCountry else None),
      so_entryIps = entryIps, so_exitIps = exitIps, so_requireDistinctSubnet = requireDistinctSubnet\<rparr>"

definition phone_hops ::
  "route_style \<Rightarrow> gateway_info list \<Rightarrow> string option \<Rightarrow> string option \<Rightarrow> string list option \<Rightarrow> string list option \<Rightarrow>
   bool \<Rightarrow> vpn_error + gateway_info \<times> gateway_info" where
  "phone_hops style gateways entryCountry exitCountry entryIps exitIps requireDistinctSubnet =
     (case selectHops gateways style (hops_wanted entryCountry exitCountry entryIps exitIps requireDistinctSubnet) of
        Inl m \<Rightarrow>
          if entryIps \<noteq> None \<or> exitIps \<noteq> None then Inl (No_city_route requireDistinctSubnet)
          else if requireDistinctSubnet then Inl No_distinct_route
          else Inl (No_such_route m)
      | Inr (entry, None) \<Rightarrow> Inl Needs_exit
      | Inr (entry, Some exit) \<Rightarrow> Inr (entry, exit))"

definition phone_entry_transport :: "transport_mode \<Rightarrow> gateway_info \<Rightarrow> tier \<Rightarrow> vpn_error + transport option" where
  "phone_entry_transport mode entry gwTier =
     (if mode = Stealth
      then map_sum Refused_transport Some (requireTransport (ir_transports entry) Stealth [''awg''] gwTier)
      else Inr None)"

text \<open>What the system shows of the tunnel. The arrow between two hops, which is no Latin character, is a parameter.\<close>

definition route_label :: "string \<Rightarrow> bool \<Rightarrow> bool \<Rightarrow> gateway_info \<Rightarrow> gateway_info \<Rightarrow> string" where
  "route_label arrow ios notifDetails entry exit =
     (if \<not> ios then
        (if notifDetails
         then localityOf (ir_city entry) (ir_country entry) @ '' '' @ ir_country entry @ '' '' @ arrow @ '' ''
                @ localityOf (ir_city exit) (ir_country exit) @ '' '' @ ir_country exit
         else [])
      else ir_country entry @ '' '' @ arrow @ '' '' @ ir_country exit)"

definition tunnel_name :: "bool \<Rightarrow> bool \<Rightarrow> country \<Rightarrow> gateway_info \<Rightarrow> string" where
  "tunnel_name ios notifDetails target gw =
     (if \<not> ios then
        (if notifDetails then co_name target @ '' '' @ [CHR 0xb7] @ '' '' @ localityOf (ir_city gw) (ir_country gw) else [])
      else co_name target)"

section \<open>The waits\<close>

text \<open>A wait for a handshake ends with the first turn behind its deadline, at the latest.\<close>

lemma phone_loop_ends:
  assumes "i \<le> j" and "deadline \<le> lk_now (looks j)"
  shows "\<exists>r. phone_probe_loop looks started deadline sawLive i = Some r"
  using assms(1)
proof (induction i arbitrary: sawLive rule: inc_induct)
  case base
  then show ?case using assms(2) by (subst phone_probe_loop.simps) (simp add: Let_def)
next
  case (step i)
  then show ?case by (subst phone_probe_loop.simps) (simp add: Let_def)
qed

lemma handshake_wait_ends:
  assumes "\<And>i. started + PHONE_PROBE_INTERVAL_MS * int i \<le> lk_now (looks i)"
  shows "\<exists>r. probeHandshake looks started PHONE_PROBE_MS = Some r"
  unfolding probeHandshake_def
  by (rule phone_loop_ends [of _ 18]) (use assms [of 18] in \<open>simp_all add: PHONE_PROBE_MS_def PHONE_PROBE_INTERVAL_MS_def\<close>)

text \<open>
  A transport is up only behind a sign of the other side, and is given up as gone only when the
  tunnel ended after it had been seen to start, or after the time it is given to settle.
\<close>

definition found_by :: "(nat \<Rightarrow> look) \<Rightarrow> millis \<Rightarrow> millis \<Rightarrow> bool \<Rightarrow> nat \<Rightarrow> probe_result \<Rightarrow> bool" where
  "found_by looks started deadline sawLive i r \<longleftrightarrow>
     (case r of
        Probe_up \<Rightarrow> (\<exists>j\<ge>i. \<exists>x. lk_status (looks j) = Some x \<and> handshaken x)
      | Probe_gone \<Rightarrow> (\<exists>j\<ge>i. \<exists>x. lk_status (looks j) = Some x \<and> ns_state x \<in> {V_error, V_disconnected}
          \<and> (sawLive \<or> PROBE_SETTLE_MS < lk_now (looks j) - started
              \<or> (\<exists>k\<in>{i..j}. \<exists>y. lk_status (looks k) = Some y \<and> looks_live y)))
      | Probe_dead \<Rightarrow> (\<exists>j\<ge>i. deadline \<le> lk_now (looks j)))"

lemma found_later:
  assumes "found_by looks started deadline live (Suc i) r"
    and "live \<Longrightarrow> sawLive \<or> (\<exists>y. lk_status (looks i) = Some y \<and> looks_live y)"
  shows "found_by looks started deadline sawLive i r"
proof (cases r)
  case Probe_gone
  with assms(1) obtain j x where j: "Suc i \<le> j" "lk_status (looks j) = Some x" "ns_state x \<in> {V_error, V_disconnected}"
    "live \<or> PROBE_SETTLE_MS < lk_now (looks j) - started \<or> (\<exists>k\<in>{Suc i..j}. \<exists>y. lk_status (looks k) = Some y \<and> looks_live y)"
    by (auto simp: found_by_def)
  then have "sawLive \<or> PROBE_SETTLE_MS < lk_now (looks j) - started \<or> (\<exists>k\<in>{i..j}. \<exists>y. lk_status (looks k) = Some y \<and> looks_live y)"
    using assms(2) by fastforce
  with j Probe_gone show ?thesis unfolding found_by_def by (auto intro!: exI [of _ j])
qed (use assms(1) in \<open>auto simp: found_by_def dest: Suc_leD\<close>)

lemma phone_loop_found:
  assumes "phone_probe_loop looks started deadline sawLive i = Some r"
  shows "found_by looks started deadline sawLive i r"
proof (rule phone_probe_loop.raw_induct [OF _ assms, where P = found_by])
  fix loop and looks :: "nat \<Rightarrow> look" and started deadline sawLive i r
  define live where "live \<longleftrightarrow> sawLive \<or> (case lk_status (looks i) of Some x \<Rightarrow> looks_live x | None \<Rightarrow> False)"
  have live: "sawLive \<or> (\<exists>y. lk_status (looks i) = Some y \<and> looks_live y)" if live
    using that by (auto simp: live_def split: option.splits)
  assume IH: "\<And>looks started deadline sawLive i r.
      loop looks started deadline sawLive i = Some r \<Longrightarrow> found_by looks started deadline sawLive i r"
    and body: "(let s = lk_status (looks i); live = sawLive \<or> (case s of Some x \<Rightarrow> looks_live x | None \<Rightarrow> False);
          settled = live \<or> PROBE_SETTLE_MS < lk_now (looks i) - started
        in if case s of Some x \<Rightarrow> handshaken x | None \<Rightarrow> False then Some Probe_up
           else if settled \<and> (case s of Some x \<Rightarrow> ns_state x = V_error \<or> ns_state x = V_disconnected | None \<Rightarrow> False)
           then Some Probe_gone
           else if deadline \<le> lk_now (looks i) then Some Probe_dead
           else loop looks started deadline live (Suc i)) = Some r"
  have ways: "A \<and> x = v \<or> B \<and> y = v \<or> C \<and> z = v \<or> w = v"
    if "(if A then x else if B then y else if C then z else w) = v" for A B C and x y z w v :: "probe_result option"
    using that by presburger
  from ways [OF body [unfolded Let_def, folded live_def]] consider
      "r = Probe_up" "case lk_status (looks i) of Some x \<Rightarrow> handshaken x | None \<Rightarrow> False"
    | "r = Probe_gone" "live \<or> PROBE_SETTLE_MS < lk_now (looks i) - started"
        "case lk_status (looks i) of Some x \<Rightarrow> ns_state x = V_error \<or> ns_state x = V_disconnected | None \<Rightarrow> False"
    | "r = Probe_dead" "deadline \<le> lk_now (looks i)"
    | "loop looks started deadline live (Suc i) = Some r"
    by blast
  then show "found_by looks started deadline sawLive i r"
  proof cases
    case 1
    then show ?thesis by (auto simp: found_by_def split: option.splits)
  next
    case 2
    then obtain x where x: "lk_status (looks i) = Some x" "ns_state x \<in> {V_error, V_disconnected}"
      by (auto split: option.splits)
    have "sawLive \<or> PROBE_SETTLE_MS < lk_now (looks i) - started \<or> (\<exists>k\<in>{i..i}. \<exists>y. lk_status (looks k) = Some y \<and> looks_live y)"
      using live 2(2) by auto
    with x have "\<exists>j\<ge>i. \<exists>x. lk_status (looks j) = Some x \<and> ns_state x \<in> {V_error, V_disconnected}
        \<and> (sawLive \<or> PROBE_SETTLE_MS < lk_now (looks j) - started
            \<or> (\<exists>k\<in>{i..j}. \<exists>y. lk_status (looks k) = Some y \<and> looks_live y))" by blast
    then show ?thesis using 2(1) unfolding found_by_def by simp
  next
    case 3
    then show ?thesis by (auto simp: found_by_def)
  next
    case 4
    show ?thesis using IH [OF 4] live by (rule found_later)
  qed
qed

lemma handshake_wait_found:
  assumes "probeHandshake looks started budget = Some r"
  shows "found_by looks started (started + budget) False 0 r"
  using phone_loop_found [OF assms [unfolded probeHandshake_def]] .

lemma teardown_loop_ends:
  assumes "i \<le> j" and "deadline \<le> lk_now (looks j)"
  shows "\<exists>n. teardown_loop looks deadline now i = Some n"
  using assms(1)
proof (induction i arbitrary: now rule: inc_induct)
  case base
  have "teardown_loop looks deadline (lk_now (looks j)) (Suc j) = Some (Suc j)"
    using assms(2) by (subst teardown_loop.simps) simp
  then show ?case by (subst teardown_loop.simps) (simp split: option.split)
next
  case (step i)
  then show ?case by (subst teardown_loop.simps) (simp split: option.split)
qed

text \<open>The turns of a teardown are 250 ms apart.\<close>

lemma teardown_ends:
  assumes "\<And>i. now + 250 * int i \<le> lk_now (looks i)"
  shows "\<exists>n. teardownAttempt looks now = Some n"
  unfolding teardownAttempt_def
  by (rule teardown_loop_ends [of _ 16]) (use assms [of 16] in \<open>simp_all add: TEARDOWN_MS_def\<close>)

text \<open>What the watchdog of a connect allows.\<close>

lemma connect_budget_eq: "connect_budget = 63000"
  by (simp add: connect_budget_def PHONE_TRANSPORTS_def PHONE_PROBE_MS_def PROBE_SETTLE_MS_def TEARDOWN_MS_def)

end
