(* ===== verification/Vpn.thy ===== *)
theory Vpn
  imports Phone
begin

text \<open>
  The hook around which the mobile client is built (clients/mobile/src/state/useVpn.ts), as a
  transition system. A state holds the state and the references of the hook, the connects in
  flight with the point at which each is awaited, the pending timers and what has been asked of
  the native side. An event is an action of the user, a report of the native side, a timer that
  fires, or the end of something that was awaited; behind it run the effects whose dependencies
  it has changed. Two values that are equal count as the same dependency, except the lists of
  servers, which are new whenever they are set.
\<close>

section \<open>State\<close>

text \<open>What a connect has captured when it was called.\<close>

record vpn_settings =
  se_keypair :: keypair
  se_countries :: "country list"
  se_locations :: "country list"
  se_selectedCode :: "string option"
  se_routeStyle :: route_style
  se_transportMode :: transport_mode
  se_entry :: "country option"
  se_exit :: "country option"
  se_killSwitch :: bool
  se_nodeDiversity :: bool
  se_notifDetails :: bool
  se_relayed :: bool

text \<open>The loop over the transports: those left, the one that is tried first among them.\<close>

record dial =
  dl_target :: country
  dl_gw :: gateway_info
  dl_chain :: "transport list"
  dl_left :: "transport list"
  dl_reply :: enroll_response
  dl_split :: "compiled_split option"
  dl_dns :: dns_choice

datatype point =
    At_prepare
  | At_permission
  | At_notify
  | At_tier country gateway_info
  | At_enroll country gateway_info tier "transport list"
  | At_policy country gateway_info tier "transport list" enroll_response
  | At_start dial
  | At_probe dial
  | At_hold dial
  | At_teardown dial
  | At_fail_hold
  | At_fail_stop vpn_error
  | At_route_tier gateway_info gateway_info tier
  | At_enroll_both gateway_info gateway_info "transport option" tier
  | At_policy_both gateway_info gateway_info "transport option" tier enroll_response enroll_response
  | At_start_both gateway_info gateway_info bool

record vpn_sweep =
  sw_gen :: nat
  sw_set :: vpn_settings
  sw_at :: point

record vpn =
  vp_keypair :: "keypair option"
  vp_countries :: "country list"
  vp_locations :: "country list"
  vp_lists :: nat
  vp_selectedCode :: "string option"
  vp_state :: tunnel_phase
  vp_tier :: tier
  vp_booting :: bool
  vp_error :: "vpn_error option"
  vp_enrollment :: "enroll_response option"
  vp_routeStyle :: route_style
  vp_transportMode :: transport_mode
  vp_entryCode :: "string option"
  vp_exitCode :: "string option"
  vp_killSwitch :: bool
  vp_nodeDiversity :: bool
  vp_notifDetails :: bool
  vp_autoConnect :: bool
  vp_connectedSince :: "millis option"
  vp_splitActive :: bool
  vp_activeEntry :: "route_endpoint option"
  vp_activeExit :: "route_endpoint option"
  vp_blocked :: bool
  vp_switchTick :: nat
  vp_handledTick :: nat
  vp_autoConnected :: bool
  vp_wantConnected :: bool
  vp_wasConnected :: bool
  vp_sessionUp :: bool
  vp_held :: bool
  vp_killSwitchRef :: bool
  vp_retries :: nat
  vp_stale :: bool
  vp_notifAsked :: bool
  vp_gatewayIp :: "string option"
  vp_gateways :: "gateway_info list"
  vp_avoid :: avoided
  vp_connecting :: bool
  vp_gen :: nat
  vp_sweeps :: "vpn_sweep list"
  vp_asking :: "nat list"
  vp_holds :: nat
  vp_stops :: "bool list"
  vp_watchdog :: "millis option"
  vp_stopTimer :: bool
  vp_retryTimer :: "millis option"
  vp_reconnectTimer :: bool
  vp_calls :: "native_call list"

definition vpn_init :: vpn where
  "vpn_init =
     \<lparr>vp_keypair = None, vp_countries = [], vp_locations = [], vp_lists = 0, vp_selectedCode = None,
      vp_state = V_disconnected, vp_tier = Free, vp_booting = True, vp_error = None, vp_enrollment = None,
      vp_routeStyle = Single, vp_transportMode = Auto, vp_entryCode = None, vp_exitCode = None,
      vp_killSwitch = False, vp_nodeDiversity = False, vp_notifDetails = True, vp_autoConnect = False,
      vp_connectedSince = None, vp_splitActive = False, vp_activeEntry = None, vp_activeExit = None,
      vp_blocked = False, vp_switchTick = 0, vp_handledTick = 0, vp_autoConnected = False, vp_wantConnected = False,
      vp_wasConnected = False, vp_sessionUp = False, vp_held = False, vp_killSwitchRef = False, vp_retries = 0,
      vp_stale = False, vp_notifAsked = False, vp_gatewayIp = None, vp_gateways = [], vp_avoid = [],
      vp_connecting = False, vp_gen = 0, vp_sweeps = [], vp_asking = [], vp_holds = 0, vp_stops = [],
      vp_watchdog = None, vp_stopTimer = False, vp_retryTimer = None, vp_reconnectTimer = False, vp_calls = []\<rparr>"

text \<open>The platform, the decimals of a number, and the arrow between two hops.\<close>

record phone_env =
  pe_ios :: bool
  pe_numstr :: "rat \<Rightarrow> string"
  pe_arrow :: string

definition native :: "native_call \<Rightarrow> vpn \<Rightarrow> vpn" where
  "native c s = s\<lparr>vp_calls := vp_calls s @ [c]\<rparr>"

definition avoid_ip :: "millis \<Rightarrow> string option \<Rightarrow> vpn \<Rightarrow> vpn" where
  "avoid_ip now ip s = s\<lparr>vp_avoid := avoid_until now ip (vp_avoid s)\<rparr>"

section \<open>Connecting\<close>

definition captured :: "phone_env \<Rightarrow> keypair \<Rightarrow> vpn \<Rightarrow> vpn_settings" where
  "captured env kp s =
     \<lparr>se_keypair = kp, se_countries = vp_countries s, se_locations = vp_locations s,
      se_selectedCode = vp_selectedCode s, se_routeStyle = vp_routeStyle s, se_transportMode = vp_transportMode s,
      se_entry = find_row (vp_entryCode s) (vp_locations s) (vp_countries s),
      se_exit = find_row (vp_exitCode s) (vp_locations s) (vp_countries s),
      se_killSwitch = vp_killSwitch s, se_nodeDiversity = vp_nodeDiversity s, se_notifDetails = vp_notifDetails s,
      se_relayed = (vp_held s \<and> pe_ios env)\<rparr>"

definition vpn_connect :: "phone_env \<Rightarrow> vpn \<Rightarrow> vpn" where
  "vpn_connect env s =
     (case vp_keypair s of
        None \<Rightarrow> s
      | Some kp \<Rightarrow>
          s\<lparr>vp_gen := Suc (vp_gen s), vp_wantConnected := True, vp_error := None, vp_state := V_connecting,
            vp_connecting := True, vp_wasConnected := False,
            vp_sweeps := vp_sweeps s @ [\<lparr>sw_gen = Suc (vp_gen s), sw_set = captured env kp s, sw_at = At_prepare\<rparr>]\<rparr>)"

definition cancelled :: "vpn_sweep \<Rightarrow> vpn \<Rightarrow> bool" where
  "cancelled sw s \<longleftrightarrow> vp_gen s \<noteq> sw_gen sw"

definition holding :: "vpn_sweep \<Rightarrow> vpn \<Rightarrow> bool" where
  "holding sw s \<longleftrightarrow> se_killSwitch (sw_set sw) \<and> vp_sessionUp s"

definition await :: "vpn_sweep \<Rightarrow> point \<Rightarrow> vpn \<Rightarrow> vpn" where
  "await sw p s = s\<lparr>vp_sweeps := map (\<lambda>x. if sw_gen x = sw_gen sw then x\<lparr>sw_at := p\<rparr> else x) (vp_sweeps s)\<rparr>"

text \<open>The end of a connect, with its \<open>finally\<close>.\<close>

definition returned :: "vpn_sweep \<Rightarrow> vpn \<Rightarrow> vpn" where
  "returned sw s =
     (let s1 = s\<lparr>vp_sweeps := filter (\<lambda>x. sw_gen x \<noteq> sw_gen sw) (vp_sweeps s)\<rparr>
      in if cancelled sw s then s1 else s1\<lparr>vp_connecting := False\<rparr>)"

definition failHeld :: "vpn \<Rightarrow> vpn" where
  "failHeld s = s\<lparr>vp_connecting := False, vp_state := V_error, vp_blocked := True, vp_error := Some Blocked_message\<rparr>"

definition failed :: "vpn_error \<Rightarrow> vpn \<Rightarrow> vpn" where
  "failed e s = s\<lparr>vp_connecting := False, vp_state := V_error, vp_error := Some e\<rparr>"

text \<open>The \<open>catch\<close> of a connect.\<close>

definition thrown :: "vpn_sweep \<Rightarrow> vpn_error \<Rightarrow> vpn \<Rightarrow> vpn" where
  "thrown sw e s =
     (if cancelled sw s then returned sw s
      else if holding sw s then await sw At_fail_hold (native Hold (s\<lparr>vp_held := True\<rparr>))
      else if vp_sessionUp s then await sw (At_fail_stop e) (native Stop s)
      else returned sw (failed e s))"

definition releaseAttempt :: "vpn_sweep \<Rightarrow> dial \<Rightarrow> vpn \<Rightarrow> vpn" where
  "releaseAttempt sw d s =
     (if holding sw s then await sw (At_hold d) (native Hold (s\<lparr>vp_held := True\<rparr>))
      else await sw (At_teardown d) (native Stop s))"

definition start_of :: "phone_env \<Rightarrow> vpn_settings \<Rightarrow> dial \<Rightarrow> transport \<Rightarrow> native_call" where
  "start_of env se d t =
     Start (singleHopConfig (pe_numstr env) (kp_privateKey (se_keypair se)) (dl_reply d) t (dl_dns d) (dl_split d) (gw_ip (dl_gw d)))
       (tunnel_name (pe_ios env) (se_notifDetails se) (dl_target d) (dl_gw d)) (se_killSwitch se)"

text \<open>The head of the loop, and what follows it when no transport is left.\<close>

definition next_transport :: "phone_env \<Rightarrow> millis \<Rightarrow> vpn_sweep \<Rightarrow> dial \<Rightarrow> vpn \<Rightarrow> vpn" where
  "next_transport env now sw d s =
     (case dl_left d of
        [] \<Rightarrow>
          (let s1 = avoid_ip now (Some (gw_ip (dl_gw d))) s
           in returned sw (if holding sw s1 then failHeld s1 else failed (None_connected (map tp_type (dl_chain d))) s1))
      | t # _ \<Rightarrow>
          if cancelled sw s then returned sw s
          else await sw (At_start d) (native (start_of env (sw_set sw) d t) s))"

definition city_ips :: "country option \<Rightarrow> string list option" where
  "city_ips row = (case row of None \<Rightarrow> None | Some r \<Rightarrow> if city_pinned r then Some (co_ips r) else None)"

definition enter_route :: "millis \<Rightarrow> vpn_sweep \<Rightarrow> vpn \<Rightarrow> vpn" where
  "enter_route now sw s =
     (let se = sw_set sw;
          exitCc = map_option co_code (se_exit se);
          entryCc = (case se_entry se of
                       Some e \<Rightarrow> Some (co_code e)
                     | None \<Rightarrow> auto_entry (se_routeStyle se) exitCc (se_countries se))
      in if se_entry se \<noteq> None \<and> se_exit se \<noteq> None
            \<and> hopsConflict (se_routeStyle se) (map_option co_code (se_entry se)) exitCc
         then thrown sw (Hops_conflict (se_routeStyle se)) s
         else (case phone_hops (se_routeStyle se) (availableGateways now (vp_avoid s) (vp_gateways s)) entryCc exitCc
                      (city_ips (se_entry se)) (city_ips (se_exit se)) (se_nodeDiversity se) of
                 Inl e \<Rightarrow> thrown sw e s
               | Inr (entry, exit) \<Rightarrow>
                   if se_transportMode se = Stealth then await sw (At_route_tier entry exit (vp_tier s)) s
                   else await sw (At_enroll_both entry exit None (vp_tier s)) s))"

definition target_of :: "vpn_settings \<Rightarrow> country option" where
  "target_of se =
     (case find_row (se_selectedCode se) (se_locations se) (se_countries se) of
        Some r \<Rightarrow> Some r
      | None \<Rightarrow> (case se_locations se of [] \<Rightarrow> None | l # _ \<Rightarrow> Some l))"

definition enter :: "millis \<Rightarrow> vpn_sweep \<Rightarrow> vpn \<Rightarrow> vpn" where
  "enter now sw s =
     (if isMultihop (se_routeStyle (sw_set sw)) then enter_route now sw s
      else (case target_of (sw_set sw) of
              None \<Rightarrow> returned sw (s\<lparr>vp_state := V_error, vp_error := Some No_gateways\<rparr>)
            | Some target \<Rightarrow>
                (let gw = pickGateway now (vp_avoid s) (vp_gateways s) target
                 in await sw (At_tier target gw) (s\<lparr>vp_gatewayIp := Some (gw_ip gw)\<rparr>))))"

definition ask_notify :: "phone_env \<Rightarrow> millis \<Rightarrow> vpn_sweep \<Rightarrow> vpn \<Rightarrow> vpn" where
  "ask_notify env now sw s =
     (if \<not> pe_ios env \<and> \<not> vp_notifAsked s then await sw At_notify (s\<lparr>vp_notifAsked := True\<rparr>) else enter now sw s)"

text \<open>What an awaited call yields; a message stands for one that throws.\<close>

datatype outcome =
    O_prepared "string + bool"
  | O_permission "string + bool"
  | O_notified
  | O_tier tier
  | O_enrolled "string + enroll_response"
  | O_policy "string + split_policy \<times> dns_choice"
  | O_started bool
  | O_probed probe_result
  | O_held
  | O_torn_down
  | O_enrolled_both "string + enroll_response \<times> enroll_response"
  | O_started_both "string + unit"

definition connected_over :: "millis \<Rightarrow> vpn_sweep \<Rightarrow> dial \<Rightarrow> vpn \<Rightarrow> vpn" where
  "connected_over now sw d s =
     returned sw
       (s\<lparr>vp_sessionUp := True, vp_held := False, vp_blocked := False, vp_retries := 0, vp_connecting := False,
          vp_state := V_connected, vp_splitActive := (dl_split d \<noteq> None),
          vp_connectedSince := Some (the_default now (vp_connectedSince s))\<rparr>)"

definition rest_of :: "dial \<Rightarrow> dial" where
  "rest_of d = d\<lparr>dl_left := tl (dl_left d)\<rparr>"

text \<open>The steps, one for each point at which a connect is awaited.\<close>

definition prepared :: "phone_env \<Rightarrow> millis \<Rightarrow> vpn_sweep \<Rightarrow> string + bool \<Rightarrow> vpn \<Rightarrow> vpn" where
  "prepared env now sw r s =
     (case r of
        Inl m \<Rightarrow> thrown sw (Native_error m) s
      | Inr ready \<Rightarrow> if ready then ask_notify env now sw s else await sw At_permission s)"

definition permitted :: "phone_env \<Rightarrow> millis \<Rightarrow> vpn_sweep \<Rightarrow> string + bool \<Rightarrow> vpn \<Rightarrow> vpn" where
  "permitted env now sw r s =
     (case r of
        Inl m \<Rightarrow> returned sw (s\<lparr>vp_state := V_error, vp_error := Some (Native_error m)\<rparr>)
      | Inr granted \<Rightarrow>
          if granted then ask_notify env now sw s
          else returned sw (s\<lparr>vp_state := V_error, vp_error := Some Permission_required\<rparr>))"

definition negotiated :: "vpn_sweep \<Rightarrow> country \<Rightarrow> gateway_info \<Rightarrow> tier \<Rightarrow> vpn \<Rightarrow> vpn" where
  "negotiated sw target gw gwTier s =
     (let mode = se_transportMode (sw_set sw);
          chain = transportFallbackChain (ir_transports gw) mode PHONE_TRANSPORTS gwTier
      in case (if length chain = 0 then map_sum id (\<lambda>_. ()) (requireTransport (ir_transports gw) mode PHONE_TRANSPORTS gwTier)
               else Inr ()) of
           Inl e \<Rightarrow> thrown sw (Refused_transport e) s
         | Inr _ \<Rightarrow> await sw (At_enroll target gw gwTier chain) s)"

definition enrolled_at ::
  "millis \<Rightarrow> vpn_sweep \<Rightarrow> country \<Rightarrow> gateway_info \<Rightarrow> tier \<Rightarrow> transport list \<Rightarrow> string + enroll_response \<Rightarrow> vpn \<Rightarrow> vpn" where
  "enrolled_at now sw target gw gwTier chain r s =
     (case r of
        Inl m \<Rightarrow> thrown sw (Native_error m) (avoid_ip now (Some (gw_ip gw)) s)
      | Inr reply \<Rightarrow>
          await sw (At_policy target gw gwTier chain reply)
            (s\<lparr>vp_enrollment := Some reply, vp_activeEntry := Some (routeEndpoint gw), vp_activeExit := None\<rparr>))"

definition compiled_for ::
  "phone_env \<Rightarrow> millis \<Rightarrow> vpn_sweep \<Rightarrow> country \<Rightarrow> gateway_info \<Rightarrow> tier \<Rightarrow> transport list \<Rightarrow> enroll_response \<Rightarrow>
   string + split_policy \<times> dns_choice \<Rightarrow> vpn \<Rightarrow> vpn" where
  "compiled_for env now sw target gw gwTier chain reply r s =
     (case r of
        Inl m \<Rightarrow> thrown sw (Native_error m) s
      | Inr (policy, dns) \<Rightarrow>
          (case phone_splitForSession (pe_ios env) policy gwTier (se_killSwitch (sw_set sw)) [gw_ip gw] of
             Inl e \<Rightarrow> thrown sw (Bad_policy e) s
           | Inr split \<Rightarrow>
               next_transport env now sw
                 \<lparr>dl_target = target, dl_gw = gw, dl_chain = chain, dl_left = chain, dl_reply = reply,
                  dl_split = split, dl_dns = dns\<rparr> s))"

definition started :: "vpn_sweep \<Rightarrow> dial \<Rightarrow> bool \<Rightarrow> vpn \<Rightarrow> vpn" where
  "started sw d ok s =
     (if ok then await sw (At_probe d) s
      else if cancelled sw s then returned sw s
      else releaseAttempt sw (rest_of d) s)"

definition probed :: "millis \<Rightarrow> vpn_sweep \<Rightarrow> dial \<Rightarrow> probe_result \<Rightarrow> vpn \<Rightarrow> vpn" where
  "probed now sw d p s =
     (if cancelled sw s then returned sw (s\<lparr>vp_sessionUp := True\<rparr>)
      else if p = Probe_up then connected_over now sw d s
      else releaseAttempt sw (rest_of d) (s\<lparr>vp_sessionUp := True\<rparr>))"

definition entry_tier_known :: "vpn_sweep \<Rightarrow> gateway_info \<Rightarrow> gateway_info \<Rightarrow> tier \<Rightarrow> tier \<Rightarrow> vpn \<Rightarrow> vpn" where
  "entry_tier_known sw entry exit tier gwTier s =
     (case phone_entry_transport Stealth entry gwTier of
        Inl e \<Rightarrow> thrown sw e s
      | Inr t \<Rightarrow> await sw (At_enroll_both entry exit t tier) s)"

definition enrolled_both ::
  "vpn_sweep \<Rightarrow> gateway_info \<Rightarrow> gateway_info \<Rightarrow> transport option \<Rightarrow> tier \<Rightarrow>
   string + enroll_response \<times> enroll_response \<Rightarrow> vpn \<Rightarrow> vpn" where
  "enrolled_both sw entry exit t tier r s =
     (case r of
        Inl m \<Rightarrow> thrown sw (Native_error m) s
      | Inr (a, b) \<Rightarrow>
          await sw (At_policy_both entry exit t tier a b)
            (s\<lparr>vp_gatewayIp := Some (gw_ip entry), vp_enrollment := Some a\<rparr>))"

definition start_both_of ::
  "phone_env \<Rightarrow> vpn_settings \<Rightarrow> gateway_info \<Rightarrow> gateway_info \<Rightarrow> transport option \<Rightarrow> enroll_response \<Rightarrow>
   enroll_response \<Rightarrow> dns_choice \<Rightarrow> compiled_split option \<Rightarrow> native_call" where
  "start_both_of env se entry exit t a b dns split =
     (let mh = multihopConfigs (pe_numstr env) (kp_privateKey (se_keypair se)) a b dns t split
      in Start_multihop (mc_outer mh) (mc_inner mh)
           (route_label (pe_arrow env) (pe_ios env) (se_notifDetails se) entry exit) (se_killSwitch se))"

definition compiled_both ::
  "phone_env \<Rightarrow> vpn_sweep \<Rightarrow> gateway_info \<Rightarrow> gateway_info \<Rightarrow> transport option \<Rightarrow> tier \<Rightarrow> enroll_response \<Rightarrow>
   enroll_response \<Rightarrow> string + split_policy \<times> dns_choice \<Rightarrow> vpn \<Rightarrow> vpn" where
  "compiled_both env sw entry exit t tier a b r s =
     (case r of
        Inl m \<Rightarrow> thrown sw (Native_error m) s
      | Inr (policy, dns) \<Rightarrow>
          (case phone_splitForSession (pe_ios env) policy tier (se_killSwitch (sw_set sw)) [gw_ip entry, gw_ip exit] of
             Inl e \<Rightarrow> thrown sw (Bad_policy e) s
           | Inr split \<Rightarrow>
               await sw (At_start_both entry exit (split \<noteq> None))
                 (native (start_both_of env (sw_set sw) entry exit t a b dns split) s)))"

definition started_both :: "vpn_sweep \<Rightarrow> gateway_info \<Rightarrow> gateway_info \<Rightarrow> bool \<Rightarrow> string + unit \<Rightarrow> vpn \<Rightarrow> vpn" where
  "started_both sw entry exit split r s =
     (case r of
        Inl m \<Rightarrow> thrown sw (Native_error m) s
      | Inr _ \<Rightarrow>
          returned sw
            (s\<lparr>vp_sessionUp := True, vp_held := False, vp_blocked := False, vp_retries := 0, vp_connecting := False,
               vp_asking := sw_gen sw # vp_asking s, vp_splitActive := split,
               vp_activeEntry := Some (routeEndpoint entry), vp_activeExit := Some (routeEndpoint exit)\<rparr>))"

text \<open>\<open>None\<close> where the outcome is not that of the call that is awaited.\<close>

definition sweep_step :: "phone_env \<Rightarrow> millis \<Rightarrow> vpn_sweep \<Rightarrow> outcome \<Rightarrow> vpn \<Rightarrow> vpn option" where
  "sweep_step env now sw out s =
     (case sw_at sw of
        At_prepare \<Rightarrow> (case out of O_prepared r \<Rightarrow> Some (prepared env now sw r s) | _ \<Rightarrow> None)
      | At_permission \<Rightarrow> (case out of O_permission r \<Rightarrow> Some (permitted env now sw r s) | _ \<Rightarrow> None)
      | At_notify \<Rightarrow> (case out of O_notified \<Rightarrow> Some (enter now sw s) | _ \<Rightarrow> None)
      | At_tier target gw \<Rightarrow> (case out of O_tier t \<Rightarrow> Some (negotiated sw target gw t s) | _ \<Rightarrow> None)
      | At_enroll target gw t chain \<Rightarrow>
          (case out of O_enrolled r \<Rightarrow> Some (enrolled_at now sw target gw t chain r s) | _ \<Rightarrow> None)
      | At_policy target gw t chain reply \<Rightarrow>
          (case out of O_policy r \<Rightarrow> Some (compiled_for env now sw target gw t chain reply r s) | _ \<Rightarrow> None)
      | At_start d \<Rightarrow> (case out of O_started ok \<Rightarrow> Some (started sw d ok s) | _ \<Rightarrow> None)
      | At_probe d \<Rightarrow> (case out of O_probed p \<Rightarrow> Some (probed now sw d p s) | _ \<Rightarrow> None)
      | At_hold d \<Rightarrow> (case out of O_held \<Rightarrow> Some (next_transport env now sw d s) | _ \<Rightarrow> None)
      | At_teardown d \<Rightarrow>
          (case out of O_torn_down \<Rightarrow> Some (next_transport env now sw d (s\<lparr>vp_sessionUp := False\<rparr>)) | _ \<Rightarrow> None)
      | At_fail_hold \<Rightarrow> (case out of O_held \<Rightarrow> Some (returned sw (failHeld s)) | _ \<Rightarrow> None)
      | At_fail_stop e \<Rightarrow>
          (case out of O_torn_down \<Rightarrow> Some (returned sw (failed e (s\<lparr>vp_sessionUp := False\<rparr>))) | _ \<Rightarrow> None)
      | At_route_tier entry exit tier \<Rightarrow>
          (case out of O_tier t \<Rightarrow> Some (entry_tier_known sw entry exit tier t s) | _ \<Rightarrow> None)
      | At_enroll_both entry exit t tier \<Rightarrow>
          (case out of O_enrolled_both r \<Rightarrow> Some (enrolled_both sw entry exit t tier r s) | _ \<Rightarrow> None)
      | At_policy_both entry exit t tier a b \<Rightarrow>
          (case out of O_policy r \<Rightarrow> Some (compiled_both env sw entry exit t tier a b r s) | _ \<Rightarrow> None)
      | At_start_both entry exit split \<Rightarrow>
          (case out of O_started_both r \<Rightarrow> Some (started_both sw entry exit split r s) | _ \<Rightarrow> None))"

section \<open>The rest of the hook\<close>

text \<open>The only path that lowers the kill switch; \<open>again\<close> tells whether its caller connects behind it.\<close>

definition stopSession :: "bool \<Rightarrow> vpn \<Rightarrow> vpn" where
  "stopSession again s =
     native Stop
       (s\<lparr>vp_gen := Suc (vp_gen s), vp_connecting := False, vp_wantConnected := False, vp_wasConnected := False,
          vp_state := V_disconnecting, vp_activeEntry := None, vp_activeExit := None, vp_avoid := [],
          vp_gatewayIp := None, vp_sessionUp := False, vp_held := False, vp_retries := 0, vp_blocked := False,
          vp_stops := vp_stops s @ [again]\<rparr>)"

definition vpn_reconnect :: "phone_env \<Rightarrow> vpn \<Rightarrow> vpn" where
  "vpn_reconnect env s =
     (if vp_state s \<noteq> V_connected \<and> vp_state s \<noteq> V_connecting \<and> \<not> vp_held s then s else vpn_connect env s)"

text \<open>A report of the native side.\<close>

definition reported :: "millis \<Rightarrow> native_status \<Rightarrow> vpn \<Rightarrow> vpn" where
  "reported now x s =
     (if vp_connecting s then s
      else
        (let s1 = s\<lparr>vp_state := ns_state x\<rparr>;
             s2 = (if ns_held x then s1\<lparr>vp_sessionUp := True, vp_held := True, vp_blocked := True\<rparr>
                   else if ns_state x = V_disconnected
                   then s1\<lparr>vp_sessionUp := False, vp_held := False, vp_blocked := False\<rparr>
                   else s1)
         in if ns_state x = V_connected then s2\<lparr>vp_connectedSince := Some (the_default now (vp_connectedSince s))\<rparr>
            else if ns_state x = V_disconnected \<or> ns_state x = V_error
            then s2\<lparr>vp_connectedSince := None, vp_splitActive := False\<rparr>
            else s2))"

text \<open>The status that is read once at launch, and the route that was stored with it.\<close>

definition adopted :: "millis \<Rightarrow> native_status \<Rightarrow> vpn \<Rightarrow> vpn" where
  "adopted now x s =
     (if ns_held x then
        s\<lparr>vp_sessionUp := True, vp_held := True, vp_wantConnected := True, vp_blocked := True,
          vp_state := (if vp_state s = V_disconnected then V_error else vp_state s), vp_error := Some Blocked_message\<rparr>
      else if ns_state x = V_connected then
        s\<lparr>vp_sessionUp := True, vp_state := (if vp_state s = V_disconnected then V_connected else vp_state s),
          vp_connectedSince := Some (the_default now (vp_connectedSince s))\<rparr>
      else s)"

definition adopted_route :: "route_endpoint \<Rightarrow> route_endpoint option \<Rightarrow> vpn \<Rightarrow> vpn" where
  "adopted_route entry exit s =
     s\<lparr>vp_activeEntry := Some (the_default entry (vp_activeEntry s)),
       vp_activeExit := (case vp_activeExit s of Some x \<Rightarrow> Some x | None \<Rightarrow> exit)\<rparr>"

text \<open>The poll while connected: the part that looks for a tunnel that is dead.\<close>

definition vpn_polled :: "millis \<Rightarrow> native_status \<Rightarrow> vpn \<Rightarrow> vpn" where
  "vpn_polled now x s =
     (if \<not> vp_stale s \<and> isTunnelDead now x then
        (if vp_killSwitchRef s
         then native Hold (avoid_ip now (vp_gatewayIp s) (s\<lparr>vp_stale := True, vp_holds := Suc (vp_holds s)\<rparr>))
         else native Stop (s\<lparr>vp_stale := True\<rparr>))
      else s)"

definition dead_held :: "phone_env \<Rightarrow> vpn \<Rightarrow> vpn" where
  "dead_held env s = vpn_connect env (s\<lparr>vp_holds := vp_holds s - 1, vp_held := True\<rparr>)"

definition watchdog_fired :: "vpn \<Rightarrow> vpn" where
  "watchdog_fired s =
     (let s1 = s\<lparr>vp_watchdog := None, vp_gen := Suc (vp_gen s), vp_connecting := False, vp_state := V_error\<rparr>
      in if vp_killSwitchRef s \<and> vp_sessionUp s
         then native Hold (s1\<lparr>vp_held := True, vp_blocked := True, vp_error := Some Blocked_message\<rparr>)
         else native Stop (s1\<lparr>vp_error := Some Timed_out\<rparr>))"

definition retry_fired :: "phone_env \<Rightarrow> millis \<Rightarrow> vpn \<Rightarrow> vpn" where
  "retry_fired env now s =
     vpn_connect env (avoid_ip now (vp_gatewayIp s) (s\<lparr>vp_retryTimer := None, vp_retries := Suc (vp_retries s)\<rparr>))"

text \<open>The answer to the status that is asked for behind a route over two hops.\<close>

definition asked_status :: "millis \<Rightarrow> nat \<Rightarrow> native_status \<Rightarrow> vpn \<Rightarrow> vpn" where
  "asked_status now gen x s =
     (let s1 = s\<lparr>vp_asking := remove1 gen (vp_asking s)\<rparr>
      in if vp_gen s = gen \<and> ns_state x = V_connected \<and> \<not> ns_held x
         then s1\<lparr>vp_state := V_connected, vp_connectedSince := Some (the_default now (vp_connectedSince s))\<rparr>
         else s1)"

text \<open>The end of a stop, with the message of one that throws.\<close>

definition stopped :: "phone_env \<Rightarrow> string option \<Rightarrow> vpn \<Rightarrow> vpn" where
  "stopped env m s =
     (let s1 = s\<lparr>vp_stops := tl (vp_stops s),
                 vp_error := (case m of Some x \<Rightarrow> Some (Native_error x) | None \<Rightarrow> vp_error s)\<rparr>
      in if hd (vp_stops s) then vpn_connect env (s1\<lparr>vp_wantConnected := True\<rparr>) else s1)"

text \<open>What the settings change; each is stored behind it.\<close>

definition vpn_setRouteStyle :: "route_style \<Rightarrow> vpn \<Rightarrow> vpn" where
  "vpn_setRouteStyle style s =
     s\<lparr>vp_routeStyle := style,
       vp_exitCode := (if hopsConflict style (hopCc (vp_entryCode s)) (hopCc (vp_exitCode s)) then None else vp_exitCode s)\<rparr>"

definition selectEntryCountry :: "string option \<Rightarrow> vpn \<Rightarrow> vpn" where
  "selectEntryCountry key s =
     s\<lparr>vp_entryCode := key,
       vp_exitCode := (if hopsConflict (vp_routeStyle s) (hopCc key) (hopCc (vp_exitCode s)) then None else vp_exitCode s)\<rparr>"

definition selectExitCountry :: "string option \<Rightarrow> vpn \<Rightarrow> vpn" where
  "selectExitCountry key s =
     s\<lparr>vp_exitCode := key,
       vp_entryCode := (if hopsConflict (vp_routeStyle s) (hopCc (vp_entryCode s)) (hopCc key) then None else vp_entryCode s)\<rparr>"

definition killSwitch_saved :: "bool \<Rightarrow> vpn \<Rightarrow> vpn" where
  "killSwitch_saved enabled s = (if \<not> enabled \<and> vp_held s then stopSession True s else s)"

definition listed :: "gateway_info list \<Rightarrow> (string \<rightharpoonup> rat) \<Rightarrow> vpn \<Rightarrow> vpn" where
  "listed gws lat s =
     s\<lparr>vp_countries := groupByCountry gws lat, vp_locations := groupByLocation gws lat, vp_lists := Suc (vp_lists s)\<rparr>"

text \<open>The identity is replaced: what follows the disconnect and the store.\<close>

definition replaced :: "keypair \<Rightarrow> vpn \<Rightarrow> vpn" where
  "replaced kp s = s\<lparr>vp_enrollment := None, vp_tier := Free, vp_keypair := Some kp\<rparr>"

text \<open>The preferences that are loaded at launch.\<close>

record vpn_prefs =
  pr_selectedCode :: "string option"
  pr_routeStyle :: route_style
  pr_transportMode :: transport_mode
  pr_entryCode :: "string option"
  pr_exitCode :: "string option"
  pr_killSwitch :: bool
  pr_nodeDiversity :: bool
  pr_notifDetails :: bool
  pr_autoConnect :: bool

definition restored :: "vpn_prefs \<Rightarrow> vpn \<Rightarrow> vpn" where
  "restored p s =
     s\<lparr>vp_selectedCode := pr_selectedCode p, vp_routeStyle := pr_routeStyle p, vp_transportMode := pr_transportMode p,
       vp_entryCode := pr_entryCode p, vp_exitCode := pr_exitCode p, vp_killSwitch := pr_killSwitch p,
       vp_nodeDiversity := pr_nodeDiversity p, vp_notifDetails := pr_notifDetails p, vp_autoConnect := pr_autoConnect p\<rparr>"

section \<open>Effects\<close>

text \<open>The dependencies of \<open>connect\<close>, which stands for them in the lists of the effects.\<close>

definition vpn_deps where
  "vpn_deps s = (vp_keypair s, vp_lists s, vp_selectedCode s, vp_routeStyle s, vp_transportMode s, vp_entryCode s,
     vp_exitCode s, vp_killSwitch s, vp_nodeDiversity s, vp_notifDetails s)"

text \<open>The effects of the state: the poll, and the two watchdogs.\<close>

definition state_effects :: "millis \<Rightarrow> vpn \<Rightarrow> vpn" where
  "state_effects now s =
     s\<lparr>vp_stale := (vp_state s = V_connected \<and> vp_stale s),
       vp_watchdog := (if vp_state s = V_connecting then Some (now + connect_budget) else None),
       vp_stopTimer := (vp_state s = V_disconnecting)\<rparr>"

definition switch_effect :: "phone_env \<Rightarrow> vpn \<Rightarrow> vpn \<Rightarrow> vpn" where
  "switch_effect env r s =
     (if vp_switchTick r = vp_handledTick s then s
      else
        (let s1 = s\<lparr>vp_handledTick := vp_switchTick r\<rparr>
         in if vp_state r = V_connected \<or> vp_state r = V_connecting \<or> vp_held s then vpn_connect env s1 else s1))"

definition RETRY_CAP_MS :: millis where "RETRY_CAP_MS = 60000"

definition blocked_effect :: "vpn \<Rightarrow> vpn \<Rightarrow> vpn" where
  "blocked_effect r s =
     s\<lparr>vp_retryTimer :=
         (if vp_blocked r \<and> vp_state r = V_error then Some (min RETRY_CAP_MS (10000 * 2 ^ vp_retries s)) else None)\<rparr>"

text \<open>With the clearing of the timer that the effect before it had set.\<close>

definition drop_effect :: "millis \<Rightarrow> vpn \<Rightarrow> vpn \<Rightarrow> vpn" where
  "drop_effect now r s =
     (if vp_state r = V_connected then s\<lparr>vp_reconnectTimer := False, vp_wasConnected := True\<rparr>
      else if vp_state r = V_disconnected \<and> vp_wantConnected s \<and> vp_wasConnected s
      then avoid_ip now (vp_gatewayIp s) (s\<lparr>vp_wasConnected := False, vp_reconnectTimer := True\<rparr>)
      else s\<lparr>vp_reconnectTimer := False\<rparr>)"

definition launch_effect :: "phone_env \<Rightarrow> vpn \<Rightarrow> vpn \<Rightarrow> vpn" where
  "launch_effect env r s =
     (if vp_autoConnect r \<and> \<not> vp_autoConnected s \<and> \<not> vp_booting r \<and> vp_keypair r \<noteq> None
         \<and> vp_state r = V_disconnected \<and> 0 < length (vp_countries r)
      then vpn_connect env (s\<lparr>vp_autoConnected := True\<rparr>) else s)"

text \<open>
  One pass over the effects after a render: \<open>r\<close> is what was rendered, \<open>old\<close> what was rendered
  before it.
\<close>

definition vpn_effects :: "phone_env \<Rightarrow> millis \<Rightarrow> vpn \<Rightarrow> vpn \<Rightarrow> vpn" where
  "vpn_effects env now old r =
     (let state_changed = (vp_state r \<noteq> vp_state old);
          connect_changed = (vpn_deps r \<noteq> vpn_deps old);
          s1 = (if state_changed then state_effects now r else r);
          s2 = (if state_changed \<or> connect_changed \<or> vp_switchTick r \<noteq> vp_switchTick old then switch_effect env r s1 else s1);
          s3 = (if vp_killSwitch r \<noteq> vp_killSwitch old then s2\<lparr>vp_killSwitchRef := vp_killSwitch r\<rparr> else s2);
          s4 = (if state_changed \<or> vp_blocked r \<noteq> vp_blocked old then blocked_effect r s3 else s3);
          s5 = (if state_changed \<or> connect_changed then drop_effect now r s4 else s4)
      in if state_changed \<or> connect_changed \<or> vp_autoConnect r \<noteq> vp_autoConnect old \<or> vp_booting r \<noteq> vp_booting old
         then launch_effect env r s5 else s5)"

text \<open>A second pass for what the first has set.\<close>

definition vpn_commit :: "phone_env \<Rightarrow> millis \<Rightarrow> vpn \<Rightarrow> vpn \<Rightarrow> vpn" where
  "vpn_commit env now old s = (let s1 = vpn_effects env now old s in vpn_effects env now s s1)"

section \<open>Events\<close>

datatype vpn_event =
    V_key keypair
  | V_restored vpn_prefs
  | V_fleet "gateway_info list" "string \<rightharpoonup> rat"
  | V_measured "gateway_info list" "string \<rightharpoonup> rat"
  | V_refreshing
  | V_booted "string option"
  | V_status native_status
  | V_adopted native_status
  | V_adopted_route route_endpoint "route_endpoint option"
  | V_polled native_status
  | V_dead_held
  | V_watchdog
  | V_stop_timeout
  | V_retry
  | V_reconnect_timer
  | V_tier tier
  | V_connect
  | V_disconnect
  | V_reconnect
  | V_select "string option"
  | V_style route_style
  | V_mode transport_mode
  | V_entry "string option"
  | V_exit "string option"
  | V_route_changed
  | V_kill_switch bool
  | V_kill_switch_saved bool
  | V_diversity bool
  | V_details bool
  | V_auto bool
  | V_replaced keypair
  | V_stopped "string option"
  | V_sweep nat outcome
  | V_asked nat native_status

definition sweep_of :: "nat \<Rightarrow> vpn \<Rightarrow> vpn_sweep option" where
  "sweep_of gen s = find (\<lambda>x. sw_gen x = gen) (vp_sweeps s)"

definition sweep_event :: "phone_env \<Rightarrow> millis \<Rightarrow> nat \<Rightarrow> outcome \<Rightarrow> vpn \<Rightarrow> vpn option" where
  "sweep_event env now gen out s = Option.bind (sweep_of gen s) (\<lambda>sw. sweep_step env now sw out s)"

fun vpn_apply :: "phone_env \<Rightarrow> millis \<Rightarrow> vpn_event \<Rightarrow> vpn \<Rightarrow> vpn" where
  "vpn_apply env now (V_key kp) s = s\<lparr>vp_keypair := Some kp\<rparr>"
| "vpn_apply env now (V_restored p) s = restored p s"
| "vpn_apply env now (V_fleet gws lat) s = listed gws lat (s\<lparr>vp_gateways := gws\<rparr>)"
| "vpn_apply env now (V_measured gws lat) s = listed gws lat s"
| "vpn_apply env now V_refreshing s = s\<lparr>vp_error := None\<rparr>"
| "vpn_apply env now (V_booted m) s =
     s\<lparr>vp_booting := False, vp_error := (case m of Some x \<Rightarrow> Some (Native_error x) | None \<Rightarrow> vp_error s)\<rparr>"
| "vpn_apply env now (V_status x) s = reported now x s"
| "vpn_apply env now (V_adopted x) s = adopted now x s"
| "vpn_apply env now (V_adopted_route entry exit) s = adopted_route entry exit s"
| "vpn_apply env now (V_polled x) s = vpn_polled now x s"
| "vpn_apply env now V_dead_held s = dead_held env s"
| "vpn_apply env now V_watchdog s = watchdog_fired s"
| "vpn_apply env now V_stop_timeout s = s\<lparr>vp_stopTimer := False, vp_state := V_disconnected\<rparr>"
| "vpn_apply env now V_retry s = retry_fired env now s"
| "vpn_apply env now V_reconnect_timer s = vpn_connect env (s\<lparr>vp_reconnectTimer := False\<rparr>)"
| "vpn_apply env now (V_tier t) s = s\<lparr>vp_tier := t\<rparr>"
| "vpn_apply env now V_connect s = vpn_connect env s"
| "vpn_apply env now V_disconnect s = stopSession False s"
| "vpn_apply env now V_reconnect s = vpn_reconnect env s"
| "vpn_apply env now (V_select key) s = s\<lparr>vp_selectedCode := key\<rparr>"
| "vpn_apply env now (V_style style) s = vpn_setRouteStyle style s"
| "vpn_apply env now (V_mode mode) s = s\<lparr>vp_transportMode := mode\<rparr>"
| "vpn_apply env now (V_entry key) s = selectEntryCountry key s"
| "vpn_apply env now (V_exit key) s = selectExitCountry key s"
| "vpn_apply env now V_route_changed s = s\<lparr>vp_switchTick := Suc (vp_switchTick s)\<rparr>"
| "vpn_apply env now (V_kill_switch on) s = s\<lparr>vp_killSwitch := on, vp_killSwitchRef := on\<rparr>"
| "vpn_apply env now (V_kill_switch_saved on) s = killSwitch_saved on s"
| "vpn_apply env now (V_diversity on) s = s\<lparr>vp_nodeDiversity := on\<rparr>"
| "vpn_apply env now (V_details on) s = s\<lparr>vp_notifDetails := on\<rparr>"
| "vpn_apply env now (V_auto on) s = s\<lparr>vp_autoConnect := on\<rparr>"
| "vpn_apply env now (V_replaced kp) s = replaced kp s"
| "vpn_apply env now (V_stopped m) s = stopped env m s"
| "vpn_apply env now (V_sweep gen out) s = the_default s (sweep_event env now gen out s)"
| "vpn_apply env now (V_asked gen x) s = asked_status now gen x s"

fun vpn_enabled :: "phone_env \<Rightarrow> millis \<Rightarrow> vpn_event \<Rightarrow> vpn \<Rightarrow> bool" where
  "vpn_enabled env now (V_polled x) s \<longleftrightarrow> vp_state s = V_connected"
| "vpn_enabled env now V_dead_held s \<longleftrightarrow> 0 < vp_holds s"
| "vpn_enabled env now V_watchdog s \<longleftrightarrow> (case vp_watchdog s of Some t \<Rightarrow> t \<le> now | None \<Rightarrow> False)"
| "vpn_enabled env now V_stop_timeout s \<longleftrightarrow> vp_stopTimer s"
| "vpn_enabled env now V_retry s \<longleftrightarrow> vp_retryTimer s \<noteq> None"
| "vpn_enabled env now V_reconnect_timer s \<longleftrightarrow> vp_reconnectTimer s"
| "vpn_enabled env now (V_stopped m) s \<longleftrightarrow> vp_stops s \<noteq> []"
| "vpn_enabled env now (V_sweep gen out) s \<longleftrightarrow> sweep_event env now gen out s \<noteq> None"
| "vpn_enabled env now (V_asked gen x) s \<longleftrightarrow> gen \<in> set (vp_asking s)"
| "vpn_enabled env now _ s \<longleftrightarrow> True"

text \<open>A run of events with their times, \<open>None\<close> when one of them cannot come.\<close>

fun vpn_run :: "phone_env \<Rightarrow> (millis \<times> vpn_event) list \<Rightarrow> vpn \<Rightarrow> vpn option" where
  "vpn_run env [] s = Some s"
| "vpn_run env ((now, e) # es) s =
     (if vpn_enabled env now e s then vpn_run env es (vpn_commit env now s (vpn_apply env now e s)) else None)"

inductive vpn_step :: "phone_env \<Rightarrow> vpn \<Rightarrow> vpn \<Rightarrow> bool" for env where
  step: "vpn_enabled env now e s \<Longrightarrow> vpn_step env s (vpn_commit env now s (vpn_apply env now e s))"

inductive_cases vpn_stepE: "vpn_step env s s'"

lemma vpn_run_append: "vpn_run env (xs @ ys) s = Option.bind (vpn_run env xs s) (vpn_run env ys)"
  by (induction env xs s rule: vpn_run.induct) auto

lemma vpn_run_steps: "vpn_run env es s = Some s' \<Longrightarrow> (vpn_step env)\<^sup>*\<^sup>* s s'"
proof (induction env es s rule: vpn_run.induct)
  case (2 env now e es s)
  then show ?case by (auto split: if_splits intro: converse_rtranclp_into_rtranclp vpn_step.step)
qed simp

text \<open>What an event and the effects behind it keep, a run of such events keeps.\<close>

locale vpn_invariant =
  fixes inv :: "vpn \<Rightarrow> bool" and allowed :: "vpn_event \<Rightarrow> bool"
  assumes event_keeps: "inv s \<Longrightarrow> allowed e \<Longrightarrow> vpn_enabled env now e s \<Longrightarrow>
    inv (vpn_commit env now s (vpn_apply env now e s))"
begin

lemma run_keeps: "inv s \<Longrightarrow> vpn_run env es s = Some s' \<Longrightarrow> \<forall>(t, e)\<in>set es. allowed e \<Longrightarrow> inv s'"
proof (induction env es s rule: vpn_run.induct)
  case (2 env now e es s)
  then show ?case by (auto split: if_splits intro: event_keeps)
qed simp

end

end
