(* ===== verification/VpnInv.thy ===== *)
theory VpnInv
  imports Vpn
begin

text \<open>
  What the hook of the mobile client keeps: the kill switch, once a session is up; the timers
  that bring it out of every wait; and a disconnect.
\<close>

section \<open>The kill switch\<close>

text \<open>
  A session is up under the kill switch, no connect in flight was called without it, and none is
  waiting for a tunnel it tears down. What the hook has asked of the native side since a moment
  holds no stop.
\<close>

definition keeps_session :: "point \<Rightarrow> bool" where
  "keeps_session p \<longleftrightarrow> (case p of At_teardown d \<Rightarrow> False | At_fail_stop e \<Rightarrow> False | _ \<Rightarrow> True)"

definition secured :: "vpn \<Rightarrow> bool" where
  "secured s \<longleftrightarrow> vp_killSwitch s \<and> vp_killSwitchRef s \<and> vp_sessionUp s
     \<and> (\<forall>sw\<in>set (vp_sweeps s). se_killSwitch (sw_set sw) \<and> keeps_session (sw_at sw))"

definition unstopped :: "native_call list \<Rightarrow> vpn \<Rightarrow> bool" where
  "unstopped cs0 s \<longleftrightarrow> secured s \<and> (\<exists>cs. vp_calls s = cs0 @ cs \<and> Stop \<notin> set cs)"

lemma unstopped_fields [simp]:
  "unstopped c (s\<lparr>vp_keypair := a1\<rparr>) = unstopped c s"
  "unstopped c (s\<lparr>vp_countries := a2\<rparr>) = unstopped c s"
  "unstopped c (s\<lparr>vp_locations := a3\<rparr>) = unstopped c s"
  "unstopped c (s\<lparr>vp_lists := a4\<rparr>) = unstopped c s"
  "unstopped c (s\<lparr>vp_selectedCode := a5\<rparr>) = unstopped c s"
  "unstopped c (s\<lparr>vp_state := a6\<rparr>) = unstopped c s"
  "unstopped c (s\<lparr>vp_tier := a7\<rparr>) = unstopped c s"
  "unstopped c (s\<lparr>vp_booting := a8\<rparr>) = unstopped c s"
  "unstopped c (s\<lparr>vp_error := a9\<rparr>) = unstopped c s"
  "unstopped c (s\<lparr>vp_enrollment := a10\<rparr>) = unstopped c s"
  "unstopped c (s\<lparr>vp_routeStyle := a11\<rparr>) = unstopped c s"
  "unstopped c (s\<lparr>vp_transportMode := a12\<rparr>) = unstopped c s"
  "unstopped c (s\<lparr>vp_entryCode := a13\<rparr>) = unstopped c s"
  "unstopped c (s\<lparr>vp_exitCode := a14\<rparr>) = unstopped c s"
  "unstopped c (s\<lparr>vp_nodeDiversity := a15\<rparr>) = unstopped c s"
  "unstopped c (s\<lparr>vp_notifDetails := a16\<rparr>) = unstopped c s"
  "unstopped c (s\<lparr>vp_autoConnect := a17\<rparr>) = unstopped c s"
  "unstopped c (s\<lparr>vp_connectedSince := a18\<rparr>) = unstopped c s"
  "unstopped c (s\<lparr>vp_splitActive := a19\<rparr>) = unstopped c s"
  "unstopped c (s\<lparr>vp_activeEntry := a20\<rparr>) = unstopped c s"
  "unstopped c (s\<lparr>vp_activeExit := a21\<rparr>) = unstopped c s"
  "unstopped c (s\<lparr>vp_blocked := a22\<rparr>) = unstopped c s"
  "unstopped c (s\<lparr>vp_switchTick := a23\<rparr>) = unstopped c s"
  "unstopped c (s\<lparr>vp_handledTick := a24\<rparr>) = unstopped c s"
  "unstopped c (s\<lparr>vp_autoConnected := a25\<rparr>) = unstopped c s"
  "unstopped c (s\<lparr>vp_wantConnected := a26\<rparr>) = unstopped c s"
  "unstopped c (s\<lparr>vp_wasConnected := a27\<rparr>) = unstopped c s"
  "unstopped c (s\<lparr>vp_held := a28\<rparr>) = unstopped c s"
  "unstopped c (s\<lparr>vp_retries := a29\<rparr>) = unstopped c s"
  "unstopped c (s\<lparr>vp_stale := a30\<rparr>) = unstopped c s"
  "unstopped c (s\<lparr>vp_notifAsked := a31\<rparr>) = unstopped c s"
  "unstopped c (s\<lparr>vp_gatewayIp := a32\<rparr>) = unstopped c s"
  "unstopped c (s\<lparr>vp_gateways := a33\<rparr>) = unstopped c s"
  "unstopped c (s\<lparr>vp_avoid := a34\<rparr>) = unstopped c s"
  "unstopped c (s\<lparr>vp_connecting := a35\<rparr>) = unstopped c s"
  "unstopped c (s\<lparr>vp_gen := a36\<rparr>) = unstopped c s"
  "unstopped c (s\<lparr>vp_asking := a37\<rparr>) = unstopped c s"
  "unstopped c (s\<lparr>vp_holds := a38\<rparr>) = unstopped c s"
  "unstopped c (s\<lparr>vp_stops := a39\<rparr>) = unstopped c s"
  "unstopped c (s\<lparr>vp_watchdog := a40\<rparr>) = unstopped c s"
  "unstopped c (s\<lparr>vp_stopTimer := a41\<rparr>) = unstopped c s"
  "unstopped c (s\<lparr>vp_retryTimer := a42\<rparr>) = unstopped c s"
  "unstopped c (s\<lparr>vp_reconnectTimer := a43\<rparr>) = unstopped c s"
  by (simp_all add: unstopped_def secured_def)

lemma unstopped_up: "unstopped c s \<Longrightarrow> unstopped c (s\<lparr>vp_sessionUp := True\<rparr>)"
  by (simp add: unstopped_def secured_def)

lemma unstopped_native: "unstopped c s \<Longrightarrow> call \<noteq> Stop \<Longrightarrow> unstopped c (native call s)"
  by (auto simp: unstopped_def secured_def native_def)

lemma unstopped_avoid [simp]: "unstopped c (avoid_ip now ip s) = unstopped c s"
  by (simp add: avoid_ip_def)

lemma unstopped_await: "unstopped c s \<Longrightarrow> keeps_session p \<Longrightarrow> unstopped c (await sw p s)"
  by (auto simp: unstopped_def secured_def await_def)

lemma unstopped_returned: "unstopped c s \<Longrightarrow> unstopped c (returned sw s)"
  by (auto simp: unstopped_def secured_def returned_def Let_def)

lemma unstopped_failHeld: "unstopped c (failHeld s) = unstopped c s"
  by (simp add: failHeld_def)

lemma unstopped_holding: "unstopped c s \<Longrightarrow> se_killSwitch (sw_set sw) \<Longrightarrow> holding sw s"
  by (simp add: unstopped_def secured_def holding_def)

lemma unstopped_connect: "unstopped c s \<Longrightarrow> unstopped c (vpn_connect env s)"
  by (auto simp: unstopped_def secured_def vpn_connect_def captured_def keeps_session_def split: option.split)

lemma unstopped_thrown: "unstopped c s \<Longrightarrow> se_killSwitch (sw_set sw) \<Longrightarrow> unstopped c (thrown sw e s)"
  using unstopped_holding [of c s sw]
  by (auto simp: thrown_def keeps_session_def intro!: unstopped_returned unstopped_await unstopped_native)

lemma unstopped_release: "unstopped c s \<Longrightarrow> se_killSwitch (sw_set sw) \<Longrightarrow> unstopped c (releaseAttempt sw d s)"
  using unstopped_holding [of c s sw]
  by (auto simp: releaseAttempt_def keeps_session_def intro!: unstopped_await unstopped_native)

lemma start_not_stop [simp]: "start_of env se d t \<noteq> Stop" "start_both_of env se entry exit u a b dns split \<noteq> Stop"
  by (simp_all add: start_of_def start_both_of_def Let_def)

lemma unstopped_next:
  assumes "unstopped c s" "se_killSwitch (sw_set sw)" shows "unstopped c (next_transport env now sw d s)"
  using assms unstopped_holding [of c "avoid_ip now (Some (gw_ip (dl_gw d))) s" sw]
  by (auto simp: next_transport_def keeps_session_def unstopped_failHeld Let_def split: list.split
      intro!: unstopped_returned unstopped_await unstopped_native)

lemma unstopped_enter: "unstopped c s \<Longrightarrow> se_killSwitch (sw_set sw) \<Longrightarrow> unstopped c (enter now sw s)"
  by (auto simp: enter_def enter_route_def keeps_session_def Let_def split: option.split sum.split
      intro!: unstopped_returned unstopped_await unstopped_thrown)

lemma unstopped_ask: "unstopped c s \<Longrightarrow> se_killSwitch (sw_set sw) \<Longrightarrow> unstopped c (ask_notify env now sw s)"
  by (auto simp: ask_notify_def keeps_session_def intro!: unstopped_await unstopped_enter)

lemmas unstopped_intros = unstopped_returned unstopped_await unstopped_native unstopped_thrown unstopped_release
  unstopped_next unstopped_enter unstopped_ask unstopped_connect unstopped_up

lemma unstopped_step:
  assumes u: "unstopped c s" and sw: "se_killSwitch (sw_set sw)" "keeps_session (sw_at sw)"
    and step: "sweep_step env now sw out s = Some s'"
  shows "unstopped c s'"
proof (cases "sw_at sw")
  case At_prepare
  then show ?thesis using step u sw by (auto simp: sweep_step_def prepared_def keeps_session_def split: outcome.splits sum.splits if_splits
        intro!: unstopped_intros)
next
  case At_permission
  then show ?thesis using step u sw by (auto simp: sweep_step_def permitted_def split: outcome.splits sum.splits if_splits
        intro!: unstopped_intros)
next
  case At_notify
  then show ?thesis using step u sw by (auto simp: sweep_step_def split: outcome.splits intro!: unstopped_intros)
next
  case At_tier
  then show ?thesis using step u sw by (auto simp: sweep_step_def negotiated_def keeps_session_def Let_def
        split: outcome.splits sum.splits if_splits intro!: unstopped_intros)
next
  case At_enroll
  then show ?thesis using step u sw by (auto simp: sweep_step_def enrolled_at_def keeps_session_def
        split: outcome.splits sum.splits intro!: unstopped_intros)
next
  case At_policy
  then show ?thesis using step u sw by (auto simp: sweep_step_def compiled_for_def
        split: outcome.splits sum.splits prod.splits intro!: unstopped_intros)
next
  case At_start
  then show ?thesis using step u sw by (auto simp: sweep_step_def started_def keeps_session_def
        split: outcome.splits if_splits intro!: unstopped_intros)
next
  case At_probe
  then show ?thesis using step u sw by (auto simp: sweep_step_def probed_def connected_over_def
        split: outcome.splits if_splits intro!: unstopped_intros)
next
  case At_hold
  then show ?thesis using step u sw by (auto simp: sweep_step_def split: outcome.splits intro!: unstopped_intros)
next
  case At_teardown
  then show ?thesis using sw by (simp add: keeps_session_def)
next
  case At_fail_hold
  then show ?thesis using step u sw by (auto simp: sweep_step_def unstopped_failHeld split: outcome.splits intro!: unstopped_intros)
next
  case At_fail_stop
  then show ?thesis using sw by (simp add: keeps_session_def)
next
  case At_route_tier
  then show ?thesis using step u sw by (auto simp: sweep_step_def entry_tier_known_def keeps_session_def
        split: outcome.splits sum.splits intro!: unstopped_intros)
next
  case At_enroll_both
  then show ?thesis using step u sw by (auto simp: sweep_step_def enrolled_both_def keeps_session_def
        split: outcome.splits sum.splits intro!: unstopped_intros)
next
  case At_policy_both
  then show ?thesis using step u sw by (auto simp: sweep_step_def compiled_both_def keeps_session_def
        split: outcome.splits sum.splits prod.splits intro!: unstopped_intros)
next
  case At_start_both
  then show ?thesis using step u sw by (auto simp: sweep_step_def started_both_def
        split: outcome.splits sum.splits intro!: unstopped_intros)
qed

lemma sweep_of_mem: "sweep_of gen s = Some sw \<Longrightarrow> sw \<in> set (vp_sweeps s)"
  by (simp add: sweep_of_def find_Some_mem)

text \<open>What every effect keeps the effects keep. They ask for no stop.\<close>

lemma effects_keep:
  assumes "P r" "P (state_effects now r)" "\<And>s. P s \<Longrightarrow> P (switch_effect env r s)"
    "\<And>s. P s \<Longrightarrow> P (s\<lparr>vp_killSwitchRef := vp_killSwitch r\<rparr>)" "\<And>s. P s \<Longrightarrow> P (blocked_effect r s)"
    "\<And>s. P s \<Longrightarrow> P (drop_effect now r s)" "\<And>s. P s \<Longrightarrow> P (launch_effect env r s)"
  shows "P (vpn_effects env now old r)"
proof -
  have keep: "(P s \<Longrightarrow> P (f s)) \<Longrightarrow> P s \<Longrightarrow> P (if b then f s else s)" for b f s by simp
  have "P (if b then state_effects now r else r)" for b using assms(1,2) by simp
  then show ?thesis unfolding vpn_effects_def Let_def
    by (intro keep [of _ "launch_effect env r"] keep [of _ "drop_effect now r"] keep [of _ "blocked_effect r"]
        keep [of _ "\<lambda>s. s\<lparr>vp_killSwitchRef := vp_killSwitch r\<rparr>"] keep [of _ "switch_effect env r"] assms(3-7))
qed

lemma unstopped_effects:
  assumes u: "unstopped c r" shows "unstopped c (vpn_effects env now old r)"
proof (rule effects_keep [where P = "unstopped c"])
  show "unstopped c (s\<lparr>vp_killSwitchRef := vp_killSwitch r\<rparr>)" if "unstopped c s" for s
    using u that by (simp add: unstopped_def secured_def)
qed (use u in \<open>auto simp: state_effects_def switch_effect_def blocked_effect_def drop_effect_def launch_effect_def Let_def
    intro!: unstopped_connect\<close>)

lemma unstopped_commit: "unstopped c s \<Longrightarrow> unstopped c (vpn_commit env now old s)"
  by (simp add: vpn_commit_def Let_def unstopped_effects)

text \<open>The events that lower the kill switch, or tell that the session is gone.\<close>

fun lowers :: "vpn_event \<Rightarrow> bool" where
  "lowers V_disconnect \<longleftrightarrow> True"
| "lowers (V_kill_switch on) \<longleftrightarrow> \<not> on"
| "lowers (V_kill_switch_saved on) \<longleftrightarrow> \<not> on"
| "lowers (V_restored p) \<longleftrightarrow> \<not> pr_killSwitch p"
| "lowers (V_status x) \<longleftrightarrow> ns_state x = V_disconnected \<and> \<not> ns_held x"
| "lowers _ \<longleftrightarrow> False"

lemma unstopped_apply:
  assumes u: "unstopped c s" and "\<not> lowers e"
  shows "unstopped c (vpn_apply env now e s)"
proof (cases e)
  case (V_restored p)
  then show ?thesis using assms by (simp add: restored_def unstopped_def secured_def)
next
  case (V_status x)
  then show ?thesis using assms by (auto simp: reported_def Let_def intro!: unstopped_up)
next
  case (V_adopted x)
  then show ?thesis using u by (auto simp: adopted_def intro!: unstopped_up)
next
  case (V_polled x)
  have "vp_killSwitchRef s" using u by (simp add: unstopped_def secured_def)
  then show ?thesis using u V_polled by (auto simp: vpn_polled_def intro!: unstopped_native)
next
  case V_watchdog
  have "vp_killSwitchRef s" "vp_sessionUp s" using u by (simp_all add: unstopped_def secured_def)
  then show ?thesis using u V_watchdog by (auto simp: watchdog_fired_def Let_def intro!: unstopped_native)
next
  case (V_kill_switch on)
  then show ?thesis using assms by (simp add: unstopped_def secured_def)
next
  case (V_kill_switch_saved on)
  then show ?thesis using assms by (simp add: killSwitch_saved_def)
next
  case (V_sweep gen out)
  show ?thesis
  proof (cases "sweep_event env now gen out s")
    case None
    then show ?thesis using u V_sweep by simp
  next
    case (Some s')
    then obtain sw where sw: "sweep_of gen s = Some sw" "sweep_step env now sw out s = Some s'"
      by (auto simp: sweep_event_def split: bind_splits)
    then have "se_killSwitch (sw_set sw)" "keeps_session (sw_at sw)"
      using u sweep_of_mem by (auto simp: unstopped_def secured_def)
    from unstopped_step [OF u this sw(2)] show ?thesis using V_sweep Some by simp
  qed
qed (use assms in \<open>auto simp: listed_def adopted_route_def dead_held_def retry_fired_def vpn_reconnect_def vpn_setRouteStyle_def
    selectEntryCountry_def selectExitCountry_def replaced_def stopped_def asked_status_def Let_def
    intro!: unstopped_connect\<close>)

interpretation unstopped: vpn_invariant "unstopped c" "\<lambda>e. \<not> lowers e" for c
  by unfold_locales (rule unstopped_commit [OF unstopped_apply])

lemmas unstopped_run = unstopped.run_keeps

section \<open>The timers\<close>

text \<open>What only the effects and the timers themselves change.\<close>

definition clocks where
  "clocks s = (vp_keypair s, vp_switchTick s, vp_handledTick s, vp_watchdog s, vp_stopTimer s, vp_retryTimer s)"

lemma clocks_simps [simp]:
  "clocks (native c s) = clocks s" "clocks (avoid_ip now ip s) = clocks s" "clocks (await sw p s) = clocks s"
  "clocks (returned sw s) = clocks s" "clocks (failHeld s) = clocks s" "clocks (failed e s) = clocks s"
  "clocks (vpn_connect env s) = clocks s"
  by (simp_all add: clocks_def native_def avoid_ip_def await_def returned_def failHeld_def failed_def vpn_connect_def Let_def
      split: option.split)

lemma clocks_fields [simp]:
  "clocks (s\<lparr>vp_held := b\<rparr>) = clocks s" "clocks (s\<lparr>vp_sessionUp := b\<rparr>) = clocks s" "clocks (s\<lparr>vp_state := p\<rparr>) = clocks s"
  "clocks (s\<lparr>vp_error := e\<rparr>) = clocks s" "clocks (s\<lparr>vp_gatewayIp := ip\<rparr>) = clocks s" "clocks (s\<lparr>vp_notifAsked := b\<rparr>) = clocks s"
  "clocks (s\<lparr>vp_enrollment := r\<rparr>) = clocks s" "clocks (s\<lparr>vp_activeEntry := ep\<rparr>) = clocks s" "clocks (s\<lparr>vp_activeExit := ep\<rparr>) = clocks s"
  "clocks (s\<lparr>vp_blocked := b\<rparr>) = clocks s" "clocks (s\<lparr>vp_retries := n\<rparr>) = clocks s" "clocks (s\<lparr>vp_connecting := b\<rparr>) = clocks s"
  "clocks (s\<lparr>vp_asking := gs\<rparr>) = clocks s" "clocks (s\<lparr>vp_splitActive := b\<rparr>) = clocks s" "clocks (s\<lparr>vp_connectedSince := since\<rparr>) = clocks s"
  "clocks (s\<lparr>vp_wantConnected := b\<rparr>) = clocks s" "clocks (s\<lparr>vp_holds := n\<rparr>) = clocks s" "clocks (s\<lparr>vp_stale := b\<rparr>) = clocks s"
  "clocks (s\<lparr>vp_gateways := gws\<rparr>) = clocks s" "clocks (s\<lparr>vp_booting := b\<rparr>) = clocks s" "clocks (s\<lparr>vp_reconnectTimer := b\<rparr>) = clocks s"
  "clocks (s\<lparr>vp_tier := t\<rparr>) = clocks s" "clocks (s\<lparr>vp_selectedCode := code\<rparr>) = clocks s" "clocks (s\<lparr>vp_transportMode := m\<rparr>) = clocks s"
  "clocks (s\<lparr>vp_killSwitch := b\<rparr>) = clocks s" "clocks (s\<lparr>vp_killSwitchRef := b\<rparr>) = clocks s" "clocks (s\<lparr>vp_nodeDiversity := b\<rparr>) = clocks s"
  "clocks (s\<lparr>vp_notifDetails := b\<rparr>) = clocks s" "clocks (s\<lparr>vp_autoConnect := b\<rparr>) = clocks s"
  "clocks (s\<lparr>vp_stops := bs\<rparr>) = clocks s" "clocks (s\<lparr>vp_autoConnected := b\<rparr>) = clocks s" "clocks (s\<lparr>vp_wasConnected := b\<rparr>) = clocks s"
  by (simp_all add: clocks_def)

lemma clocks_ops [simp]:
  "clocks (thrown sw e s) = clocks s" "clocks (releaseAttempt sw d s) = clocks s" "clocks (next_transport env now sw d s) = clocks s"
  "clocks (enter now sw s) = clocks s" "clocks (ask_notify env now sw s) = clocks s" "clocks (connected_over now sw d s) = clocks s"
proof -
  show thrown: "clocks (thrown sw e s) = clocks s" for e s by (simp add: thrown_def)
  show "clocks (releaseAttempt sw d s) = clocks s" by (simp add: releaseAttempt_def)
  show "clocks (next_transport env now sw d s) = clocks s" by (simp add: next_transport_def Let_def split: list.split)
  show enter: "clocks (enter now sw s) = clocks s" for s
    by (simp add: enter_def enter_route_def thrown Let_def split: option.split sum.split prod.split)
  show "clocks (ask_notify env now sw s) = clocks s" by (simp add: ask_notify_def enter)
  show "clocks (connected_over now sw d s) = clocks s" by (simp add: connected_over_def)
qed

lemma clocks_step: "sweep_step env now sw out s = Some s' \<Longrightarrow> clocks s' = clocks s"
proof (cases "sw_at sw")
qed (auto simp: sweep_step_def prepared_def permitted_def negotiated_def enrolled_at_def compiled_for_def started_def probed_def
    entry_tier_known_def enrolled_both_def compiled_both_def started_both_def Let_def
    split: outcome.splits sum.splits if_splits prod.splits)

text \<open>
  With a key, a wait has its timer: a connect and a disconnect are watched, and a session that is
  blocked is retried, within a minute.
\<close>

definition timed :: "vpn \<Rightarrow> bool" where
  "timed s \<longleftrightarrow> vp_keypair s \<noteq> None \<and> vp_switchTick s = vp_handledTick s
     \<and> (vp_watchdog s \<noteq> None \<longleftrightarrow> vp_state s = V_connecting) \<and> (vp_stopTimer s \<longleftrightarrow> vp_state s = V_disconnecting)
     \<and> (vp_retryTimer s \<noteq> None \<longleftrightarrow> vp_blocked s \<and> vp_state s = V_error)
     \<and> (\<forall>d. vp_retryTimer s = Some d \<longrightarrow> 10000 \<le> d \<and> d \<le> RETRY_CAP_MS)"

text \<open>What a handler may do to it before the effects run.\<close>

definition nearly_timed :: "vpn \<Rightarrow> vpn \<Rightarrow> bool" where
  "nearly_timed old s \<longleftrightarrow> vp_keypair s \<noteq> None \<and> vp_handledTick s = vp_handledTick old
     \<and> (vp_state s = vp_state old \<longrightarrow> vp_watchdog s = vp_watchdog old \<and> vp_stopTimer s = vp_stopTimer old
          \<and> (vp_blocked s = vp_blocked old \<longrightarrow> vp_retryTimer s = vp_retryTimer old))
     \<and> (\<forall>d. vp_retryTimer s = Some d \<longrightarrow> 10000 \<le> d \<and> d \<le> RETRY_CAP_MS)"

lemma connect_keeps [simp]:
  "vp_keypair (vpn_connect env s) = vp_keypair s" "vp_switchTick (vpn_connect env s) = vp_switchTick s"
  "vp_handledTick (vpn_connect env s) = vp_handledTick s" "vp_watchdog (vpn_connect env s) = vp_watchdog s"
  "vp_stopTimer (vpn_connect env s) = vp_stopTimer s" "vp_retryTimer (vpn_connect env s) = vp_retryTimer s"
  "vp_blocked (vpn_connect env s) = vp_blocked s" "vp_autoConnect (vpn_connect env s) = vp_autoConnect s"
  "vp_booting (vpn_connect env s) = vp_booting s" "vpn_deps (vpn_connect env s) = vpn_deps s"
  "vp_killSwitch (vpn_connect env s) = vp_killSwitch s" "vp_retries (vpn_connect env s) = vp_retries s"
  by (simp_all add: vpn_connect_def vpn_deps_def split: option.split)

lemma connect_state: "vp_keypair s \<noteq> None \<Longrightarrow> vp_state (vpn_connect env s) = V_connecting"
  by (auto simp: vpn_connect_def)

text \<open>The parts of a pass that bear on the timers.\<close>

lemma effects_parts:
  "vp_keypair (vpn_effects env now old r) = vp_keypair r" "vp_switchTick (vpn_effects env now old r) = vp_switchTick r"
  "vp_blocked (vpn_effects env now old r) = vp_blocked r" "vpn_deps (vpn_effects env now old r) = vpn_deps r"
  "vp_autoConnect (vpn_effects env now old r) = vp_autoConnect r" "vp_booting (vpn_effects env now old r) = vp_booting r"
  by (rule effects_keep [where P = "\<lambda>s. vp_keypair s = vp_keypair r"]
        effects_keep [where P = "\<lambda>s. vp_switchTick s = vp_switchTick r"] effects_keep [where P = "\<lambda>s. vp_blocked s = vp_blocked r"]
        effects_keep [where P = "\<lambda>s. vpn_deps s = vpn_deps r"] effects_keep [where P = "\<lambda>s. vp_autoConnect s = vp_autoConnect r"]
        effects_keep [where P = "\<lambda>s. vp_booting s = vp_booting r"];
      simp add: state_effects_def switch_effect_def blocked_effect_def drop_effect_def launch_effect_def avoid_ip_def
        vpn_deps_def vpn_connect_def Let_def split: option.split)+

lemma retry_delay: "10000 \<le> min RETRY_CAP_MS (10000 * 2 ^ n)" "min RETRY_CAP_MS (10000 * 2 ^ n) \<le> RETRY_CAP_MS"
proof -
  have "(1 :: int) \<le> 2 ^ n" by simp
  then show "10000 \<le> min RETRY_CAP_MS (10000 * 2 ^ n)" by (simp add: RETRY_CAP_MS_def)
  show "min RETRY_CAP_MS (10000 * 2 ^ n) \<le> RETRY_CAP_MS" by simp
qed

definition armed :: "vpn \<Rightarrow> vpn \<Rightarrow> bool" where
  "armed r s \<longleftrightarrow> (vp_watchdog s \<noteq> None \<longleftrightarrow> vp_state r = V_connecting) \<and> (vp_stopTimer s \<longleftrightarrow> vp_state r = V_disconnecting)
     \<and> (vp_retryTimer s \<noteq> None \<longleftrightarrow> vp_blocked r \<and> vp_state r = V_error)
     \<and> (\<forall>d. vp_retryTimer s = Some d \<longrightarrow> 10000 \<le> d \<and> d \<le> RETRY_CAP_MS)"

lemma effect_timers:
  "vp_watchdog (switch_effect env r s) = vp_watchdog s" "vp_watchdog (blocked_effect r s) = vp_watchdog s"
  "vp_watchdog (drop_effect now r s) = vp_watchdog s" "vp_watchdog (launch_effect env r s) = vp_watchdog s"
  "vp_stopTimer (switch_effect env r s) = vp_stopTimer s" "vp_stopTimer (blocked_effect r s) = vp_stopTimer s"
  "vp_stopTimer (drop_effect now r s) = vp_stopTimer s" "vp_stopTimer (launch_effect env r s) = vp_stopTimer s"
  "vp_retryTimer (switch_effect env r s) = vp_retryTimer s" "vp_retryTimer (state_effects now s) = vp_retryTimer s"
  "vp_retryTimer (drop_effect now r s) = vp_retryTimer s" "vp_retryTimer (launch_effect env r s) = vp_retryTimer s"
  by (simp_all add: state_effects_def switch_effect_def blocked_effect_def drop_effect_def launch_effect_def avoid_ip_def Let_def)

lemma timers_after:
  "vp_watchdog (vpn_effects env now old r) = vp_watchdog (if vp_state r \<noteq> vp_state old then state_effects now r else r)"
  "vp_stopTimer (vpn_effects env now old r) = vp_stopTimer (if vp_state r \<noteq> vp_state old then state_effects now r else r)"
  "vp_retryTimer (vpn_effects env now old r)
     = (if vp_state r \<noteq> vp_state old \<or> vp_blocked r \<noteq> vp_blocked old
        then if vp_blocked r \<and> vp_state r = V_error then Some (min RETRY_CAP_MS (10000 * 2 ^ vp_retries r)) else None
        else vp_retryTimer r)"
proof -
  show "vp_watchdog (vpn_effects env now old r) = vp_watchdog (if vp_state r \<noteq> vp_state old then state_effects now r else r)"
    "vp_stopTimer (vpn_effects env now old r) = vp_stopTimer (if vp_state r \<noteq> vp_state old then state_effects now r else r)"
    by (simp_all add: vpn_effects_def Let_def effect_timers)
  have b: "vp_retryTimer (blocked_effect r s) = (if vp_blocked r \<and> vp_state r = V_error
      then Some (min RETRY_CAP_MS (10000 * 2 ^ vp_retries s)) else None)" for s
    by (simp add: blocked_effect_def)
  have "vp_retries (switch_effect env r s) = vp_retries s" "vp_retries (state_effects now s) = vp_retries s" for s
    by (simp_all add: switch_effect_def state_effects_def Let_def)
  then show "vp_retryTimer (vpn_effects env now old r)
     = (if vp_state r \<noteq> vp_state old \<or> vp_blocked r \<noteq> vp_blocked old
        then if vp_blocked r \<and> vp_state r = V_error then Some (min RETRY_CAP_MS (10000 * 2 ^ vp_retries r)) else None
        else vp_retryTimer r)"
    by (simp add: vpn_effects_def Let_def effect_timers b)
qed

lemma armed_effects:
  assumes same: "vp_state r = vp_state old \<Longrightarrow> (vp_watchdog r \<noteq> None \<longleftrightarrow> vp_state r = V_connecting)
        \<and> (vp_stopTimer r \<longleftrightarrow> vp_state r = V_disconnecting)"
    and blocked: "vp_state r = vp_state old \<Longrightarrow> vp_blocked r = vp_blocked old
        \<Longrightarrow> (vp_retryTimer r \<noteq> None \<longleftrightarrow> vp_blocked r \<and> vp_state r = V_error)"
    and delays: "\<forall>d. vp_retryTimer r = Some d \<longrightarrow> 10000 \<le> d \<and> d \<le> RETRY_CAP_MS"
  shows "armed r (vpn_effects env now old r)"
proof -
  show ?thesis using same blocked delays retry_delay [of "vp_retries r"]
    unfolding armed_def timers_after by (auto simp: state_effects_def split: if_splits)
qed

lemma handled_effects:
  assumes "vp_switchTick old = vp_handledTick r"
  shows "vp_handledTick (vpn_effects env now old r) = vp_switchTick r"
proof -
  have sw: "vp_handledTick (switch_effect env r s) = vp_switchTick r" for s by (simp add: switch_effect_def Let_def)
  have "vp_handledTick (blocked_effect r s) = vp_handledTick s" "vp_handledTick (drop_effect now r s) = vp_handledTick s"
    "vp_handledTick (launch_effect env r s) = vp_handledTick s" for s
    by (simp_all add: blocked_effect_def drop_effect_def launch_effect_def avoid_ip_def)
  then show ?thesis using assms by (simp add: vpn_effects_def Let_def sw)
qed

text \<open>A pass leaves the state or connects, and the second pass connects no more.\<close>

lemma effects_state:
  assumes "vp_keypair r \<noteq> None"
  shows "vp_state (vpn_effects env now old r) = vp_state r \<or> vp_state (vpn_effects env now old r) = V_connecting"
  by (rule effects_keep [where P = "\<lambda>s. (vp_state s = vp_state r \<or> vp_state s = V_connecting)"])
    (use assms in \<open>auto simp: state_effects_def switch_effect_def blocked_effect_def drop_effect_def launch_effect_def avoid_ip_def
       vpn_connect_def Let_def split: option.split\<close>)

lemma second_pass_state:
  assumes "vp_switchTick r = vp_handledTick r" "vpn_deps r = vpn_deps old" "vp_autoConnect r = vp_autoConnect old"
    "vp_booting r = vp_booting old" "vp_state r = vp_state old \<or> vp_state r = V_connecting"
  shows "vp_state (vpn_effects env now old r) = vp_state r"
proof -
  have sw: "vp_handledTick s = vp_handledTick r \<Longrightarrow> switch_effect env r s = s" for s using assms(1) by (simp add: switch_effect_def)
  have la: "vp_state r = V_connecting \<Longrightarrow> launch_effect env r s = s" for s by (simp add: launch_effect_def)
  have "vp_state (blocked_effect r s) = vp_state s" "vp_state (drop_effect now r s) = vp_state s"
    "vp_state (state_effects now s) = vp_state s" "vp_handledTick (state_effects now s) = vp_handledTick s" for s
    by (simp_all add: blocked_effect_def drop_effect_def state_effects_def avoid_ip_def)
  then show ?thesis using assms(2-5) by (auto simp: vpn_effects_def Let_def sw la)
qed

lemma timed_commit:
  assumes old: "timed old" and s: "nearly_timed old s"
  shows "timed (vpn_commit env now old s)"
proof -
  let ?s1 = "vpn_effects env now old s" and ?s2 = "vpn_effects env now s (vpn_effects env now old s)"
  have key: "vp_keypair s \<noteq> None" using s by (simp add: nearly_timed_def)
  have a1: "armed s ?s1"
    by (rule armed_effects) (use old s in \<open>auto simp: timed_def nearly_timed_def\<close>)
  have h1: "vp_handledTick ?s1 = vp_switchTick ?s1"
    using handled_effects [of old s env now] old s by (simp add: timed_def nearly_timed_def effects_parts)
  have st: "vp_state ?s1 = vp_state s \<or> vp_state ?s1 = V_connecting" by (rule effects_state [OF key])
  have "armed ?s1 ?s2"
    by (rule armed_effects) (use a1 in \<open>auto simp: armed_def effects_parts\<close>)
  moreover have "vp_state ?s2 = vp_state ?s1" by (rule second_pass_state) (use h1 st in \<open>simp_all add: effects_parts\<close>)
  moreover have "vp_handledTick ?s2 = vp_switchTick ?s2"
    using handled_effects [of s ?s1 env now] h1 by (simp add: effects_parts)
  ultimately show ?thesis using key unfolding timed_def vpn_commit_def Let_def armed_def by (simp add: effects_parts)
qed

text \<open>What a handler does to a hook whose waits have their timers.\<close>

lemma nearly_clocks:
  assumes "timed s" "clocks u = clocks s" shows "nearly_timed s u"
  using assms unfolding timed_def nearly_timed_def clocks_def by auto

lemma clocks_stop [simp]: "clocks (stopSession again s) = clocks s"
  by (simp add: stopSession_def) (simp add: clocks_def)

lemma clocks_settings [simp]:
  "clocks (vpn_reconnect env s) = clocks s" "clocks (reported now x s) = clocks s" "clocks (adopted now x s) = clocks s"
  "clocks (adopted_route entry exit s) = clocks s" "clocks (vpn_polled now x s) = clocks s" "clocks (dead_held env s) = clocks s"
  "clocks (asked_status now gen x s) = clocks s" "clocks (stopped env m s) = clocks s" "clocks (vpn_setRouteStyle style s) = clocks s"
  "clocks (selectEntryCountry key s) = clocks s" "clocks (selectExitCountry key s) = clocks s"
  "clocks (killSwitch_saved on s) = clocks s" "clocks (listed gws lat s) = clocks s" "clocks (restored p s) = clocks s"
  by (simp_all add: vpn_reconnect_def reported_def adopted_def vpn_polled_def dead_held_def asked_status_def stopped_def
      killSwitch_saved_def Let_def)
    (simp_all add: clocks_def adopted_route_def vpn_setRouteStyle_def selectEntryCountry_def selectExitCountry_def listed_def
      restored_def)

lemma nearly_apply:
  assumes t: "timed s" and on: "vpn_enabled env now e s"
  shows "nearly_timed s (vpn_apply env now e s)"
proof (cases e)
  case V_watchdog
  then have "vp_state s = V_connecting" using assms by (auto simp: timed_def split: option.splits)
  then show ?thesis using t V_watchdog by (auto simp: timed_def nearly_timed_def watchdog_fired_def native_def Let_def)
next
  case V_stop_timeout
  then have "vp_state s = V_disconnecting" using assms by (simp add: timed_def)
  then show ?thesis using t V_stop_timeout by (auto simp: timed_def nearly_timed_def)
next
  case V_retry
  then have "vp_state s = V_error" "vp_keypair s \<noteq> None" using assms by (auto simp: timed_def)
  then show ?thesis using t V_retry
    by (auto simp: timed_def nearly_timed_def retry_fired_def avoid_ip_def vpn_connect_def)
next
  case (V_sweep gen out)
  show ?thesis
  proof (cases "sweep_event env now gen out s")
    case (Some s')
    then have "clocks s' = clocks s" by (auto simp: sweep_event_def split: bind_splits dest: clocks_step)
    then show ?thesis using nearly_clocks [OF t] V_sweep Some by simp
  qed (use V_sweep on in simp)
next
  case (V_key kp)
  then show ?thesis using t by (auto simp: timed_def nearly_timed_def)
next
  case (V_replaced kp)
  then show ?thesis using t by (auto simp: timed_def nearly_timed_def replaced_def)
next
  case V_route_changed
  then show ?thesis using t by (auto simp: timed_def nearly_timed_def)
qed (use nearly_clocks [OF t] in auto)

interpretation timed: vpn_invariant timed "\<lambda>_. True"
  by unfold_locales (rule timed_commit [OF _ nearly_apply])

lemma timed_run: "timed s \<Longrightarrow> vpn_run env es s = Some s' \<Longrightarrow> timed s'"
  by (rule timed.run_keeps) simp_all

lemma timed_launch: "timed (vpn_commit env now vpn_init (vpn_apply env now (V_key kp) vpn_init))"
  by (simp add: timed_def vpn_commit_def vpn_effects_def Let_def vpn_init_def vpn_deps_def switch_effect_def drop_effect_def
      launch_effect_def)

text \<open>The firing of each timer ends its wait.\<close>

lemma watchdog_ends:
  assumes "timed s" "vp_watchdog s = Some t" "t \<le> now"
  shows "vp_state (vpn_commit env now s (vpn_apply env now V_watchdog s)) = V_error"
proof -
  let ?u = "watchdog_fired s" and ?s1 = "vpn_effects env now s (watchdog_fired s)"
  have e: "vpn_enabled env now V_watchdog s" using assms by simp
  have u: "vp_state ?u = V_error" "vp_switchTick ?u = vp_handledTick ?u" "vp_keypair ?u = vp_keypair s"
    "vp_autoConnect ?u = vp_autoConnect s" "vp_booting ?u = vp_booting s" "vpn_deps ?u = vpn_deps s"
    using assms(1) by (simp_all add: watchdog_fired_def native_def timed_def vpn_deps_def Let_def)
  have pass: "vp_state (vpn_effects env now old v) = vp_state v"
    if "vp_state v = V_error" "vp_switchTick v = vp_handledTick v" for old v
  proof -
    have "vp_handledTick w = vp_handledTick v \<Longrightarrow> switch_effect env v w = w" for w using that by (simp add: switch_effect_def)
    moreover have "launch_effect env v w = w" for w using that by (simp add: launch_effect_def)
    moreover have "vp_state (blocked_effect v w) = vp_state w" "vp_state (drop_effect now v w) = vp_state w"
      "vp_state (state_effects now w) = vp_state w" "vp_handledTick (state_effects now w) = vp_handledTick w" for w
      by (simp_all add: blocked_effect_def drop_effect_def state_effects_def avoid_ip_def)
    ultimately show ?thesis by (simp add: vpn_effects_def Let_def)
  qed
  have s1: "vp_state ?s1 = V_error" using pass [OF u(1,2)] u(1) by simp
  have h: "vp_handledTick ?s1 = vp_switchTick ?s1"
    using handled_effects [of s ?u env now] assms(1) u(2) by (simp add: effects_parts timed_def watchdog_fired_def native_def Let_def)
  show ?thesis using pass [OF s1 h [symmetric], of ?u] s1 by (simp add: vpn_commit_def Let_def)
qed

lemma stop_wait_ends:
  assumes "timed s" "vp_state s = V_disconnecting"
  shows "vp_state (vpn_commit env now s (vpn_apply env now V_stop_timeout s)) \<noteq> V_disconnecting"
proof -
  let ?u = "vpn_apply env now V_stop_timeout s"
  have "vp_keypair ?u \<noteq> None" using assms(1) by (simp add: timed_def)
  from effects_state [OF this, of env now s] have "vp_state (vpn_effects env now s ?u) \<in> {V_disconnected, V_connecting}" by auto
  then show ?thesis using effects_state [of "vpn_effects env now s ?u" env now ?u] assms(1)
    by (auto simp: vpn_commit_def Let_def effects_parts timed_def)
qed

lemma retry_connects:
  assumes "timed s" "vp_retryTimer s \<noteq> None"
  shows "vp_state (vpn_commit env now s (vpn_apply env now V_retry s)) = V_connecting"
proof -
  have key: "vp_keypair (retry_fired env now s) \<noteq> None" "vp_state (retry_fired env now s) = V_connecting"
    using assms(1) by (auto simp: retry_fired_def timed_def avoid_ip_def intro!: connect_state)
  then have "vp_state (vpn_effects env now s (retry_fired env now s)) = V_connecting"
    using effects_state [OF key(1)] by metis
  then show ?thesis using effects_state [of "vpn_effects env now s (retry_fired env now s)" env now "retry_fired env now s"] key
    by (auto simp: vpn_commit_def Let_def effects_parts)
qed

section \<open>A disconnect\<close>

text \<open>
  The connects in flight are no newer than the last one, and one that has chosen its transports
  has chosen some.
\<close>

definition chained :: "point \<Rightarrow> bool" where
  "chained p \<longleftrightarrow> (case p of At_enroll _ _ _ chain \<Rightarrow> chain \<noteq> [] | At_policy _ _ _ chain _ \<Rightarrow> chain \<noteq> [] | _ \<Rightarrow> True)"

definition dated :: "vpn \<Rightarrow> bool" where
  "dated s \<longleftrightarrow> (\<forall>sw\<in>set (vp_sweeps s). sw_gen sw \<le> vp_gen s \<and> chained (sw_at sw)) \<and> (\<forall>g\<in>set (vp_asking s). g \<le> vp_gen s)"

definition flights where "flights s = (vp_gen s, vp_sweeps s, vp_asking s)"

lemma dated_flights: "flights s = flights u \<Longrightarrow> dated s = dated u"
  by (simp add: flights_def dated_def)

lemma flights_ops [simp]:
  "flights (native c s) = flights s" "flights (avoid_ip now ip s) = flights s" "flights (failHeld s) = flights s"
  "flights (failed e s) = flights s" "flights (vpn_polled now x s) = flights s" "flights (adopted now x s) = flights s"
  "flights (adopted_route entry exit s) = flights s" "flights (reported now x s) = flights s"
  "flights (vpn_setRouteStyle style s) = flights s" "flights (selectEntryCountry key s) = flights s"
  "flights (selectExitCountry key s) = flights s" "flights (listed gws lat s) = flights s" "flights (restored p s) = flights s"
  "flights (replaced kp s) = flights s" "flights (state_effects now s) = flights s" "flights (blocked_effect r s) = flights s"
  "flights (drop_effect now r s) = flights s"
  by (simp_all add: flights_def native_def avoid_ip_def failHeld_def failed_def vpn_polled_def adopted_def adopted_route_def
      reported_def vpn_setRouteStyle_def selectEntryCountry_def selectExitCountry_def listed_def restored_def replaced_def
      state_effects_def blocked_effect_def drop_effect_def Let_def)

lemmas dated_ops [simp] = flights_ops [THEN dated_flights]

lemma dated_await: "dated s \<Longrightarrow> chained p \<Longrightarrow> dated (await sw p s)"
  by (auto simp: dated_def await_def)

lemma dated_returned: "dated s \<Longrightarrow> dated (returned sw s)"
  by (auto simp: dated_def returned_def Let_def)

lemma dated_connect: "dated s \<Longrightarrow> dated (vpn_connect env s)"
  by (force simp: dated_def vpn_connect_def chained_def split: option.split)

lemma dated_fields [simp]:
  "dated (s\<lparr>vp_held := b\<rparr>) = dated s" "dated (s\<lparr>vp_sessionUp := b\<rparr>) = dated s" "dated (s\<lparr>vp_state := p\<rparr>) = dated s"
  "dated (s\<lparr>vp_error := e\<rparr>) = dated s" "dated (s\<lparr>vp_gatewayIp := ip\<rparr>) = dated s" "dated (s\<lparr>vp_notifAsked := b\<rparr>) = dated s"
  "dated (s\<lparr>vp_enrollment := r\<rparr>) = dated s" "dated (s\<lparr>vp_activeEntry := ep\<rparr>) = dated s" "dated (s\<lparr>vp_activeExit := ep\<rparr>) = dated s"
  "dated (s\<lparr>vp_blocked := b\<rparr>) = dated s" "dated (s\<lparr>vp_retries := n\<rparr>) = dated s" "dated (s\<lparr>vp_connecting := b\<rparr>) = dated s"
  "dated (s\<lparr>vp_splitActive := b\<rparr>) = dated s" "dated (s\<lparr>vp_connectedSince := since\<rparr>) = dated s"
  "dated (s\<lparr>vp_wantConnected := b\<rparr>) = dated s" "dated (s\<lparr>vp_holds := n\<rparr>) = dated s" "dated (s\<lparr>vp_stale := b\<rparr>) = dated s"
  "dated (s\<lparr>vp_stops := bs\<rparr>) = dated s" "dated (s\<lparr>vp_autoConnected := b\<rparr>) = dated s" "dated (s\<lparr>vp_wasConnected := b\<rparr>) = dated s"
  "dated (s\<lparr>vp_gateways := gws\<rparr>) = dated s" "dated (s\<lparr>vp_booting := b\<rparr>) = dated s" "dated (s\<lparr>vp_reconnectTimer := b\<rparr>) = dated s"
  "dated (s\<lparr>vp_tier := t\<rparr>) = dated s" "dated (s\<lparr>vp_selectedCode := code\<rparr>) = dated s" "dated (s\<lparr>vp_transportMode := m\<rparr>) = dated s"
  "dated (s\<lparr>vp_killSwitch := b\<rparr>) = dated s" "dated (s\<lparr>vp_killSwitchRef := b\<rparr>) = dated s" "dated (s\<lparr>vp_nodeDiversity := b\<rparr>) = dated s"
  "dated (s\<lparr>vp_notifDetails := b\<rparr>) = dated s" "dated (s\<lparr>vp_autoConnect := b\<rparr>) = dated s" "dated (s\<lparr>vp_keypair := k\<rparr>) = dated s"
  "dated (s\<lparr>vp_retryTimer := tm\<rparr>) = dated s" "dated (s\<lparr>vp_stopTimer := b\<rparr>) = dated s" "dated (s\<lparr>vp_switchTick := n\<rparr>) = dated s"
  "dated (s\<lparr>vp_handledTick := n\<rparr>) = dated s" "dated (s\<lparr>vp_avoid := av\<rparr>) = dated s"
  by (simp_all add: dated_def)

lemma dated_thrown: "dated s \<Longrightarrow> dated (thrown sw e s)"
  by (auto simp: thrown_def chained_def intro!: dated_returned dated_await)

lemma dated_release: "dated s \<Longrightarrow> dated (releaseAttempt sw d s)"
  by (auto simp: releaseAttempt_def chained_def intro!: dated_await)

lemma dated_next: "dated s \<Longrightarrow> dated (next_transport env now sw d s)"
  by (auto simp: next_transport_def chained_def Let_def split: list.split intro!: dated_returned dated_await)

lemma dated_enter: "dated s \<Longrightarrow> dated (enter now sw s)"
  by (auto simp: enter_def enter_route_def chained_def Let_def split: option.split sum.split
      intro!: dated_returned dated_await dated_thrown)

lemma dated_ask: "dated s \<Longrightarrow> dated (ask_notify env now sw s)"
  by (auto simp: ask_notify_def chained_def intro!: dated_await dated_enter)

lemmas dated_intros = dated_returned dated_await dated_thrown dated_release dated_next dated_enter dated_ask dated_connect

lemma empty_chain:
  "transportFallbackChain ts mode implemented tier = [] \<Longrightarrow> map_sum id h (requireTransport ts mode implemented tier) \<noteq> Inr x"
  by (simp add: requireTransport_def selectTransport_def)

lemma dated_step:
  assumes "dated s" "sw \<in> set (vp_sweeps s)" and step: "sweep_step env now sw out s = Some s'"
  shows "dated s'"
proof -
  have asks: "dated (s\<lparr>vp_asking := sw_gen sw # vp_asking s\<rparr>)" using assms(1,2) by (auto simp: dated_def)
  have ended: "dated (s\<lparr>vp_sessionUp := True, vp_held := False, vp_blocked := False, vp_retries := 0,
      vp_connecting := False, vp_asking := sw_gen sw # vp_asking s\<rparr>)"
    using asks by (simp add: dated_def)
  have chain: "chained (sw_at sw)" using assms(1,2) by (simp add: dated_def)
  show ?thesis
  proof (cases "sw_at sw")
  qed (use step assms(1) chain ended in \<open>auto simp: sweep_step_def prepared_def permitted_def
      negotiated_def enrolled_at_def compiled_for_def started_def probed_def connected_over_def entry_tier_known_def
      enrolled_both_def compiled_both_def started_both_def chained_def Let_def
      split: outcome.splits sum.splits if_splits prod.splits intro!: dated_intros dest: empty_chain\<close>)
qed

lemma dated_stop: "dated s \<Longrightarrow> dated (stopSession again s)"
  by (force simp: dated_def stopSession_def native_def)

lemma dated_apply: "dated s \<Longrightarrow> dated (vpn_apply env now e s)"
proof (cases e)
  case (V_sweep gen out)
  assume "dated s"
  show ?thesis
  proof (cases "sweep_event env now gen out s")
    case (Some s')
    then show ?thesis using V_sweep \<open>dated s\<close>
      by (auto simp: sweep_event_def split: bind_splits intro: dated_step sweep_of_mem)
  qed (use V_sweep \<open>dated s\<close> in simp)
next
  case V_watchdog
  assume "dated s"
  then show ?thesis using V_watchdog by (force simp: dated_def watchdog_fired_def native_def Let_def)
next
  case (V_asked gen x)
  assume "dated s"
  then show ?thesis using V_asked by (auto simp: dated_def asked_status_def Let_def dest: notin_set_remove1 set_remove1_subset [THEN subsetD])
qed (auto simp: dead_held_def retry_fired_def vpn_reconnect_def killSwitch_saved_def stopped_def Let_def
    intro!: dated_connect dated_stop)

lemma dated_commit: "dated s \<Longrightarrow> dated (vpn_commit env now old s)"
proof -
  have "dated r \<Longrightarrow> dated (vpn_effects env now old r)" for old r
    by (rule effects_keep [where P = dated])
      (auto simp: switch_effect_def launch_effect_def Let_def intro!: dated_connect)
  then show "dated s \<Longrightarrow> dated (vpn_commit env now old s)" by (simp add: vpn_commit_def Let_def)
qed

interpretation dated: vpn_invariant dated "\<lambda>_. True"
  by unfold_locales (rule dated_commit [OF dated_apply])

lemma dated_run: "dated s \<Longrightarrow> vpn_run env es s = Some s' \<Longrightarrow> dated s'"
  by (rule dated.run_keeps) simp_all

lemma clocks_handled: "clocks u = clocks s \<Longrightarrow> vp_handledTick u = vp_handledTick s"
  by (simp add: clocks_def)

lemma handled_apply: "vp_handledTick (vpn_apply env now e s) = vp_handledTick s"
proof (cases e)
  case (V_sweep gen out)
  then show ?thesis
    by (cases "sweep_event env now gen out s")
      (auto simp: sweep_event_def split: bind_splits dest: clocks_step intro: clocks_handled)
qed (auto simp: watchdog_fired_def native_def retry_fired_def avoid_ip_def replaced_def Let_def intro: clocks_handled)

lemma handled_event:
  assumes "vp_switchTick s = vp_handledTick s"
  shows "vp_switchTick (vpn_commit env now s (vpn_apply env now e s)) = vp_handledTick (vpn_commit env now s (vpn_apply env now e s))"
proof -
  let ?u = "vpn_apply env now e s"
  have "vp_switchTick s = vp_handledTick ?u" using assms handled_apply [of env now e s] by simp
  then have "vp_handledTick (vpn_effects env now s ?u) = vp_switchTick (vpn_effects env now s ?u)"
    using handled_effects [of s ?u] by (simp add: effects_parts)
  then show ?thesis
    using handled_effects [of ?u "vpn_effects env now s ?u"] by (simp add: vpn_commit_def Let_def effects_parts)
qed

interpretation handled: vpn_invariant "\<lambda>s. vp_switchTick s = vp_handledTick s" "\<lambda>_. True"
  by unfold_locales (rule handled_event)

lemma handled_run:
  "vp_switchTick s = vp_handledTick s \<Longrightarrow> vpn_run env es s = Some s' \<Longrightarrow> vp_switchTick s' = vp_handledTick s'"
  by (rule handled.run_keeps) simp_all

text \<open>The points of a connect over one hop up to the end of its wait for a handshake.\<close>

definition before_answer :: "point \<Rightarrow> bool" where
  "before_answer p \<longleftrightarrow>
     (case p of
        At_prepare \<Rightarrow> True | At_permission \<Rightarrow> True | At_notify \<Rightarrow> True | At_tier _ _ \<Rightarrow> True | At_enroll _ _ _ chain \<Rightarrow> chain \<noteq> []
      | At_policy _ _ _ chain _ \<Rightarrow> chain \<noteq> [] | At_start _ \<Rightarrow> True | At_probe _ \<Rightarrow> True | _ \<Rightarrow> False)"

definition outdated :: "nat \<Rightarrow> vpn_sweep \<Rightarrow> bool" where
  "outdated gen sw \<longleftrightarrow> sw_gen sw < gen \<and> \<not> isMultihop (se_routeStyle (sw_set sw)) \<and> before_answer (sw_at sw)"

text \<open>Nothing is wanted, nothing is pending, and what is in flight is outdated; \<open>cs\<close> has been asked so far.\<close>

definition resting :: "native_call list \<Rightarrow> vpn \<Rightarrow> bool" where
  "resting cs s \<longleftrightarrow> vp_calls s = cs \<and> \<not> vp_wantConnected s \<and> \<not> vp_held s \<and> \<not> vp_blocked s \<and> vp_holds s = 0
     \<and> True \<notin> set (vp_stops s) \<and> vp_retryTimer s = None \<and> \<not> vp_reconnectTimer s \<and> vp_watchdog s = None
     \<and> (vp_autoConnected s \<or> \<not> vp_autoConnect s) \<and> vp_switchTick s = vp_handledTick s
     \<and> vp_state s \<noteq> V_connected \<and> vp_state s \<noteq> V_connecting
     \<and> (\<forall>sw\<in>set (vp_sweeps s). outdated (vp_gen s) sw) \<and> (\<forall>g\<in>set (vp_asking s). g < vp_gen s)"

lemma resting_fields [simp]:
  "resting cs (s\<lparr>vp_keypair := a1\<rparr>) = resting cs s" "resting cs (s\<lparr>vp_tier := a2\<rparr>) = resting cs s"
  "resting cs (s\<lparr>vp_booting := a3\<rparr>) = resting cs s" "resting cs (s\<lparr>vp_error := a4\<rparr>) = resting cs s"
  "resting cs (s\<lparr>vp_enrollment := a5\<rparr>) = resting cs s" "resting cs (s\<lparr>vp_selectedCode := a6\<rparr>) = resting cs s"
  "resting cs (s\<lparr>vp_transportMode := a7\<rparr>) = resting cs s" "resting cs (s\<lparr>vp_routeStyle := a8\<rparr>) = resting cs s"
  "resting cs (s\<lparr>vp_entryCode := a9\<rparr>) = resting cs s" "resting cs (s\<lparr>vp_exitCode := a10\<rparr>) = resting cs s"
  "resting cs (s\<lparr>vp_killSwitch := a11\<rparr>) = resting cs s" "resting cs (s\<lparr>vp_killSwitchRef := a12\<rparr>) = resting cs s"
  "resting cs (s\<lparr>vp_nodeDiversity := a13\<rparr>) = resting cs s" "resting cs (s\<lparr>vp_notifDetails := a14\<rparr>) = resting cs s"
  "resting cs (s\<lparr>vp_connectedSince := a15\<rparr>) = resting cs s" "resting cs (s\<lparr>vp_splitActive := a16\<rparr>) = resting cs s"
  "resting cs (s\<lparr>vp_activeEntry := a17\<rparr>) = resting cs s" "resting cs (s\<lparr>vp_activeExit := a18\<rparr>) = resting cs s"
  "resting cs (s\<lparr>vp_sessionUp := a19\<rparr>) = resting cs s" "resting cs (s\<lparr>vp_gatewayIp := a20\<rparr>) = resting cs s"
  "resting cs (s\<lparr>vp_gateways := a21\<rparr>) = resting cs s" "resting cs (s\<lparr>vp_avoid := a22\<rparr>) = resting cs s"
  "resting cs (s\<lparr>vp_notifAsked := a23\<rparr>) = resting cs s" "resting cs (s\<lparr>vp_countries := a24\<rparr>) = resting cs s"
  "resting cs (s\<lparr>vp_locations := a25\<rparr>) = resting cs s" "resting cs (s\<lparr>vp_lists := a26\<rparr>) = resting cs s"
  "resting cs (s\<lparr>vp_connecting := a27\<rparr>) = resting cs s" "resting cs (s\<lparr>vp_stale := a28\<rparr>) = resting cs s"
  "resting cs (s\<lparr>vp_stopTimer := a29\<rparr>) = resting cs s" "resting cs (s\<lparr>vp_wasConnected := a30\<rparr>) = resting cs s"
  by (simp_all add: resting_def)

lemma resting_state: "resting cs s \<Longrightarrow> p \<noteq> V_connected \<Longrightarrow> p \<noteq> V_connecting \<Longrightarrow> resting cs (s\<lparr>vp_state := p\<rparr>)"
  by (simp add: resting_def)

lemma resting_avoid [simp]: "resting cs (avoid_ip now ip s) = resting cs s"
  by (simp add: avoid_ip_def)

lemma resting_returned: "resting cs s \<Longrightarrow> resting cs (returned sw s)"
  by (auto simp: resting_def returned_def Let_def)

lemma resting_await: "resting cs s \<Longrightarrow> before_answer p \<Longrightarrow> resting cs (await sw p s)"
  by (auto simp: resting_def await_def outdated_def)

lemma outdated_cancelled: "resting cs s \<Longrightarrow> sw \<in> set (vp_sweeps s) \<Longrightarrow> vp_gen s \<noteq> sw_gen sw"
  by (auto simp: resting_def outdated_def)

lemma resting_thrown: "resting cs s \<Longrightarrow> vp_gen s \<noteq> sw_gen sw \<Longrightarrow> resting cs (thrown sw e s)"
  by (simp add: thrown_def cancelled_def resting_returned)

lemma resting_enter:
  "resting cs s \<Longrightarrow> \<not> isMultihop (se_routeStyle (sw_set sw)) \<Longrightarrow> resting cs (enter now sw s)"
  by (auto simp: enter_def before_answer_def Let_def split: option.split intro!: resting_returned resting_await resting_state)

lemma resting_ask:
  "resting cs s \<Longrightarrow> \<not> isMultihop (se_routeStyle (sw_set sw)) \<Longrightarrow> resting cs (ask_notify env now sw s)"
  by (auto simp: ask_notify_def before_answer_def intro!: resting_await resting_enter)

text \<open>An outdated connect that still has a transport to try ends at the head of the loop.\<close>

lemma resting_next:
  assumes "resting cs s" "vp_gen s \<noteq> sw_gen sw" "dl_left d \<noteq> []"
  shows "resting cs (next_transport env now sw d s)"
  using assms by (cases "dl_left d") (auto simp: next_transport_def cancelled_def intro: resting_returned)

lemmas resting_intros = resting_returned resting_await resting_thrown resting_enter resting_ask resting_state

lemma resting_step:
  assumes rest: "resting cs s" and sw: "sw \<in> set (vp_sweeps s)" and step: "sweep_step env now sw out s = Some s'"
  shows "resting cs s'"
proof -
  have old: "vp_gen s \<noteq> sw_gen sw" and o: "\<not> isMultihop (se_routeStyle (sw_set sw))" "before_answer (sw_at sw)"
    using outdated_cancelled [OF rest sw] rest sw by (auto simp: resting_def outdated_def)
  have gens [simp]: "vp_gen (avoid_ip now ip s) = vp_gen s" for now ip by (simp add: avoid_ip_def)
  show ?thesis
  proof (cases "sw_at sw")
  qed (use step rest old o in \<open>auto simp: sweep_step_def prepared_def permitted_def
      negotiated_def enrolled_at_def compiled_for_def started_def probed_def before_answer_def cancelled_def Let_def
      split: outcome.splits sum.splits if_splits prod.splits intro!: resting_intros resting_next dest: empty_chain\<close>)
qed

lemma resting_effects:
  assumes that: "resting cs r" shows "resting cs (vpn_effects env now old r)"
proof (rule effects_keep [where P = "\<lambda>s. resting cs s \<and> vp_autoConnect s = vp_autoConnect r \<and> vp_switchTick s = vp_switchTick r", THEN conjunct1])
qed (use that in \<open>auto simp: resting_def state_effects_def switch_effect_def blocked_effect_def drop_effect_def launch_effect_def\<close>)

lemma resting_commit: "resting cs s \<Longrightarrow> resting cs (vpn_commit env now old s)"
  by (simp add: vpn_commit_def Let_def resting_effects)

text \<open>The events by which the user, or the native side, asks for a tunnel.\<close>

fun calls_for :: "vpn_event \<Rightarrow> bool" where
  "calls_for V_connect \<longleftrightarrow> True"
| "calls_for V_reconnect \<longleftrightarrow> True"
| "calls_for V_route_changed \<longleftrightarrow> True"
| "calls_for (V_restored p) \<longleftrightarrow> True"
| "calls_for (V_auto on) \<longleftrightarrow> on"
| "calls_for (V_adopted x) \<longleftrightarrow> True"
| "calls_for V_disconnect \<longleftrightarrow> True"
| "calls_for (V_status x) \<longleftrightarrow> ns_held x \<or> ns_state x = V_connected \<or> ns_state x = V_connecting"
| "calls_for _ \<longleftrightarrow> False"

lemma resting_apply:
  assumes rest: "resting cs s" and e: "\<not> calls_for e" "vpn_enabled env now e s"
  shows "resting cs (vpn_apply env now e s)"
proof (cases e)
  case (V_sweep gen out)
  show ?thesis
  proof (cases "sweep_event env now gen out s")
    case (Some s')
    then show ?thesis using V_sweep rest
      by (auto simp: sweep_event_def split: bind_splits intro: resting_step sweep_of_mem)
  qed (use V_sweep rest in simp)
next
  case (V_asked gen x)
  then show ?thesis using rest e by (auto simp: asked_status_def resting_def Let_def dest: set_remove1_subset [THEN subsetD])
next
  case (V_stopped m)
  have "vp_stops s \<noteq> []" using e V_stopped by simp
  then have "\<not> hd (vp_stops s)" "set (tl (vp_stops s)) \<subseteq> set (vp_stops s)"
    using rest by (cases "vp_stops s"; auto simp: resting_def)+
  then show ?thesis using rest V_stopped by (auto simp: stopped_def resting_def Let_def)
next
  case (V_polled x)
  then show ?thesis using rest e by (simp add: resting_def)
next
  case V_dead_held
  then show ?thesis using rest e by (simp add: resting_def)
next
  case V_watchdog
  then show ?thesis using rest e by (simp add: resting_def)
next
  case V_retry
  then show ?thesis using rest e by (simp add: resting_def)
next
  case V_reconnect_timer
  then show ?thesis using rest e by (simp add: resting_def)
next
  case (V_status x)
  then show ?thesis using rest e by (auto simp: reported_def resting_def Let_def)
next
  case (V_auto on)
  then show ?thesis using rest e by (simp add: resting_def)
next
  case (V_kill_switch_saved on)
  then show ?thesis using rest by (simp add: killSwitch_saved_def resting_def)
next
  case V_stop_timeout
  then show ?thesis using rest by (simp add: resting_state)
qed (use rest e in \<open>simp_all add: listed_def adopted_route_def vpn_setRouteStyle_def selectEntryCountry_def selectExitCountry_def
    replaced_def\<close>)

interpretation resting: vpn_invariant "resting cs" "\<lambda>e. \<not> calls_for e" for cs
  by unfold_locales (rule resting_commit [OF resting_apply])

lemmas resting_run = resting.run_keeps

text \<open>A disconnect brings the hook to rest, when what is in flight is over one hop and has no answer.\<close>

lemma disconnect_rests_phone:
  assumes "dated s" "vp_switchTick s = vp_handledTick s" "vp_autoConnected s \<or> \<not> vp_autoConnect s"
    and "vp_holds s = 0" "True \<notin> set (vp_stops s)"
    and "\<forall>sw\<in>set (vp_sweeps s). \<not> isMultihop (se_routeStyle (sw_set sw)) \<and> before_answer (sw_at sw)"
    and state: "vp_state s \<noteq> V_disconnecting"
  shows "resting (vp_calls s @ [Stop]) (vpn_commit env now s (vpn_apply env now V_disconnect s))"
proof -
  let ?u = "stopSession False s"
  have u: "vp_state ?u = V_disconnecting" "vp_switchTick ?u = vp_handledTick ?u" "vp_killSwitch ?u = vp_killSwitch s"
    using assms(2) by (simp_all add: stopSession_def native_def)
  have "\<forall>sw\<in>set (vp_sweeps s). outdated (Suc (vp_gen s)) sw" "\<forall>g\<in>set (vp_asking s). g < Suc (vp_gen s)"
    using assms(1,6) by (auto simp: dated_def outdated_def le_imp_less_Suc)
  then have "resting (vp_calls s @ [Stop]) (drop_effect now ?u (blocked_effect ?u (state_effects now ?u)))"
    using assms(2-5) by (simp add: resting_def stopSession_def native_def state_effects_def blocked_effect_def drop_effect_def)
  moreover have "switch_effect env ?u (state_effects now ?u) = state_effects now ?u"
    using u(2) by (simp add: switch_effect_def state_effects_def)
  moreover have "launch_effect env ?u w = w" for w using u(1) by (simp add: launch_effect_def)
  ultimately have "resting (vp_calls s @ [Stop]) (vpn_effects env now s ?u)"
    using state u by (simp add: vpn_effects_def Let_def)
  from resting_effects [OF this] show ?thesis by (simp add: vpn_commit_def Let_def)
qed

end
