(* ===== verification/VpnRuns.thy ===== *)
theory VpnRuns
  imports VpnInv
begin

text \<open>
  Runs of the hook of the mobile client from concrete states, evaluated: those to which the
  properties are applied, and those in which the hook does not do what its comments say.
\<close>

section \<open>Examples\<close>

definition ex_phone :: phone_env where
  "ex_phone = \<lparr>pe_ios = True, pe_numstr = (\<lambda>_. ''51820''), pe_arrow = ''>''\<rparr>"

definition ex_key :: keypair where
  "ex_key = \<lparr>kp_publicKey = ''pub'', kp_privateKey = ''priv''\<rparr>"

definition ex_status :: "tunnel_phase \<Rightarrow> rat \<Rightarrow> native_status" where
  "ex_status p handshake =
     \<lparr>ns_state = p, ns_rxBytes = 0, ns_txBytes = 0, ns_lastHandshake = handshake, ns_error = None, ns_held = False\<rparr>"

text \<open>A session under the kill switch, as a connect leaves it.\<close>

definition ex_session_up :: vpn where
  "ex_session_up = vpn_init\<lparr>vp_keypair := Some ex_key, vp_booting := False, vp_killSwitch := True, vp_killSwitchRef := True,
     vp_wantConnected := True, vp_sessionUp := True, vp_state := V_connected, vp_wasConnected := True,
     vp_connectedSince := Some 0, vp_gatewayIp := Some ''10.0.0.1'', vp_autoConnected := True, vp_gen := 1\<rparr>"

definition ended :: "vpn option \<Rightarrow> vpn" where
  "ended r = the_default vpn_init r"

lemmas run_simps = vpn_commit_def vpn_effects_def vpn_deps_def state_effects_def switch_effect_def blocked_effect_def
  drop_effect_def launch_effect_def vpn_connect_def captured_def native_def avoid_ip_def Let_def

text \<open>The tunnel is found dead, and the hook holds it and connects again.\<close>

definition ex_dead :: "(millis \<times> vpn_event) list" where
  "ex_dead = [(300000, V_polled (ex_status V_connected 1)), (300001, V_dead_held), (300002, V_sweep 2 (O_prepared (Inr True)))]"

lemma ex_dead_run: "vpn_run ex_phone ex_dead ex_session_up \<noteq> None"
  "vp_calls (ended (vpn_run ex_phone ex_dead ex_session_up)) = [Hold]"
  by (simp_all add: ended_def ex_dead_def ex_session_up_def ex_status_def vpn_init_def vpn_polled_def isTunnelDead_def
      HANDSHAKE_DEAD_SEC_def dead_held_def sweep_event_def sweep_of_def sweep_step_def prepared_def ask_notify_def ex_phone_def
      enter_def isMultihop_def target_of_def find_row_def returned_def cancelled_def run_simps)

section \<open>Where the hook does otherwise\<close>

text \<open>What a connect that was called from a state has captured, and a connect that waits at a point.\<close>

definition ex_captured :: vpn_settings where
  "ex_captured = captured ex_phone ex_key vpn_init"

definition ex_waiting :: "point \<Rightarrow> vpn" where
  "ex_waiting p = vpn_init\<lparr>vp_keypair := Some ex_key, vp_booting := False, vp_wantConnected := True, vp_state := V_connecting,
     vp_connecting := True, vp_gen := 1, vp_sweeps := [\<lparr>sw_gen = 1, sw_set = ex_captured, sw_at = p\<rparr>]\<rparr>"

lemmas step_simps = sweep_event_def sweep_of_def sweep_step_def returned_def cancelled_def await_def stopSession_def stopped_def
  ex_status_def ex_phone_def vpn_init_def run_simps

text \<open>
  Nothing of a connect over two hops looks whether it was cancelled: the tunnel that the user
  has disconnected is started behind the stop, and is shown once it is up.
\<close>

lemma disconnected_route_starts:
  assumes "phone_splitForSession True policy tier False [gw_ip entry, gw_ip exit] = Inr split"
  shows "\<exists>c. vp_calls (ended (vpn_run ex_phone [(10, V_disconnect), (12, V_stopped None),
      (20, V_sweep 1 (O_enrolled_both (Inr (a, b)))), (21, V_sweep 1 (O_policy (Inr (policy, dns))))]
      (ex_waiting (At_enroll_both entry exit t tier)))) = [Stop, c] \<and> c \<noteq> Stop \<and> c \<noteq> Hold"
    "vp_state (ended (vpn_run ex_phone [(10, V_disconnect), (12, V_stopped None), (15, V_status (ex_status V_disconnected 0)),
      (20, V_sweep 1 (O_enrolled_both (Inr (a, b)))), (21, V_sweep 1 (O_policy (Inr (policy, dns)))),
      (22, V_sweep 1 (O_started_both (Inr ()))), (25, V_status (ex_status V_connected 0))]
      (ex_waiting (At_enroll_both entry exit t tier)))) = V_connected"
  using assms
  by (simp_all add: ended_def ex_waiting_def ex_captured_def enrolled_both_def compiled_both_def start_both_of_def started_both_def
      reported_def step_simps)

text \<open>
  A disconnect while a connect that failed holds the session: the connect ends in the held
  state, whose retry connects ten seconds later.
\<close>

definition ex_fail_held :: "(millis \<times> vpn_event) list" where
  "ex_fail_held = [(10, V_reconnect), (11, V_sweep 2 (O_prepared (Inl ''failed''))), (12, V_disconnect),
     (13, V_sweep 2 O_held), (14, V_stopped None), (10013, V_retry)]"

lemma disconnected_hold_retries:
  "vpn_run ex_phone ex_fail_held ex_session_up \<noteq> None"
  "vp_state (ended (vpn_run ex_phone ex_fail_held ex_session_up)) = V_connecting"
  "vp_wantConnected (ended (vpn_run ex_phone ex_fail_held ex_session_up))"
  by (simp_all add: ended_def ex_fail_held_def ex_session_up_def vpn_reconnect_def prepared_def thrown_def holding_def failHeld_def
      retry_fired_def RETRY_CAP_MS_def step_simps)

text \<open>A disconnect while a dead tunnel is being held: the connect that follows is not called off.\<close>

definition ex_dead_disconnected :: "(millis \<times> vpn_event) list" where
  "ex_dead_disconnected = [(300000, V_polled (ex_status V_connected 1)), (300001, V_disconnect), (300002, V_dead_held)]"

lemma disconnected_failover_connects:
  "vpn_run ex_phone ex_dead_disconnected ex_session_up \<noteq> None"
  "vp_state (ended (vpn_run ex_phone ex_dead_disconnected ex_session_up)) = V_connecting"
  "vp_wantConnected (ended (vpn_run ex_phone ex_dead_disconnected ex_session_up))"
  by (simp_all add: ended_def ex_dead_disconnected_def ex_session_up_def vpn_polled_def isTunnelDead_def HANDSHAKE_DEAD_SEC_def
      dead_held_def step_simps)

text \<open>
  A connect that is cancelled in its wait for a handshake leaves the mark of a session behind,
  after the native side has said that there is none.
\<close>

lemma cancelled_probe_marks_session:
  "vp_sessionUp (ended (vpn_run ex_phone [(10, V_disconnect), (12, V_stopped None), (13, V_status (ex_status V_disconnected 0)),
     (14, V_sweep 1 (O_probed Probe_gone))] (ex_waiting (At_probe d))))"
  "vp_state (ended (vpn_run ex_phone [(10, V_disconnect), (12, V_stopped None), (13, V_status (ex_status V_disconnected 0)),
     (14, V_sweep 1 (O_probed Probe_gone))] (ex_waiting (At_probe d)))) = V_disconnected"
  by (simp_all add: ended_def ex_waiting_def ex_captured_def probed_def reported_def step_simps)

text \<open>
  A list of servers that arrives while the reconnect of a drop is pending clears its timer, and
  nothing sets it again.
\<close>

lemma refresh_loses_reconnect:
  "vp_reconnectTimer (ended (vpn_run ex_phone [(10, V_status (ex_status V_disconnected 0))] ex_session_up))"
  "\<not> vp_reconnectTimer (ended (vpn_run ex_phone [(10, V_status (ex_status V_disconnected 0)), (20, V_measured [] lat)] ex_session_up))"
  "vp_wantConnected (ended (vpn_run ex_phone [(10, V_status (ex_status V_disconnected 0)), (20, V_measured [] lat)] ex_session_up))"
  by (simp_all add: ended_def ex_session_up_def reported_def listed_def groupByCountry_def groupByLocation_def step_simps)

text \<open>Without a list of servers a dead tunnel is held, and neither shown as blocked nor retried.\<close>

lemma held_without_retry:
  "vp_held (ended (vpn_run ex_phone ex_dead ex_session_up))" "vp_state (ended (vpn_run ex_phone ex_dead ex_session_up)) = V_error"
  "\<not> vp_blocked (ended (vpn_run ex_phone ex_dead ex_session_up))" "vp_retryTimer (ended (vpn_run ex_phone ex_dead ex_session_up)) = None"
  by (simp_all add: ended_def ex_dead_def ex_session_up_def vpn_polled_def isTunnelDead_def HANDSHAKE_DEAD_SEC_def dead_held_def
      prepared_def ask_notify_def enter_def isMultihop_def target_of_def find_row_def step_simps)

text \<open>
  The end of a connect whose last transport is torn down does not look whether it was cancelled,
  and shows an error over the connect that has taken its place.
\<close>

lemma old_connect_ends_new:
  assumes "dl_left d = []"
  shows "vp_state (ended (vpn_run ex_phone [(10, V_disconnect), (12, V_stopped None), (13, V_connect),
      (14, V_sweep 1 O_torn_down)] (ex_waiting (At_teardown d)))) = V_error"
    "\<exists>sw. vp_sweeps (ended (vpn_run ex_phone [(10, V_disconnect), (12, V_stopped None), (13, V_connect),
      (14, V_sweep 1 O_torn_down)] (ex_waiting (At_teardown d)))) = [sw] \<and> sw_gen sw = 3"
  using assms
  by (simp_all add: ended_def ex_waiting_def ex_captured_def next_transport_def holding_def failed_def step_simps)

end
