(* ===== verification/VpnProperties.thy ===== *)
theory VpnProperties
  imports AppProperties VpnRuns
begin

text \<open>
  The properties of the hook of the mobile client: the kill switch, the waits and a disconnect.
  The states of the instances are those of VpnRuns.
\<close>

section \<open>The kill switch\<close>

text \<open>
  C29. Once a session is up with the kill switch on, and no connect in flight was called without
  it or is tearing a tunnel down, the hook asks the native side for no stop, whatever happens
  and in whichever order, until the user disconnects or turns the kill switch off, or the native
  side reports that the session is gone: a dead tunnel, a failed connect, a change of the route
  and the watchdogs hold the session or replace its route.
\<close>

theorem kill_switch_is_kept:
  assumes "vp_killSwitch s" "vp_killSwitchRef s" "vp_sessionUp s"
    and "\<forall>sw\<in>set (vp_sweeps s). se_killSwitch (sw_set sw) \<and> keeps_session (sw_at sw)"
    and "vpn_run env es s = Some s'" and "\<forall>(t, e)\<in>set es. \<not> lowers e"
  shows "vp_sessionUp s' \<and> vp_killSwitch s' \<and> (\<exists>cs. vp_calls s' = vp_calls s @ cs \<and> Stop \<notin> set cs)"
proof -
  have "unstopped (vp_calls s) s" using assms(1-4) by (simp add: unstopped_def secured_def)
  from unstopped_run [OF this assms(5,6)] show ?thesis by (auto simp: unstopped_def secured_def)
qed

theorem kill_switch_is_kept_witness:
  "vp_sessionUp (ended (vpn_run ex_phone ex_dead ex_session_up))
    \<and> (\<exists>cs. vp_calls (ended (vpn_run ex_phone ex_dead ex_session_up)) = vp_calls ex_session_up @ cs \<and> Stop \<notin> set cs)"
proof -
  obtain s' where run: "vpn_run ex_phone ex_dead ex_session_up = Some s'" using ex_dead_run(1) by blast
  have "vp_killSwitch ex_session_up" "vp_killSwitchRef ex_session_up" "vp_sessionUp ex_session_up" "vp_sweeps ex_session_up = []"
    by (simp_all add: ex_session_up_def vpn_init_def)
  moreover have "\<forall>(t, e)\<in>set ex_dead. \<not> lowers e" by (simp add: ex_dead_def)
  ultimately show ?thesis using kill_switch_is_kept [OF _ _ _ _ run] run by (simp add: ended_def)
qed

section \<open>No wait is for ever\<close>





section \<open>Disconnecting\<close>






end
