(* ===== verification/PhoneStore.thy ===== *)
theory PhoneStore
  imports Vpn Iap
begin

text \<open>
  What a phone keeps between two launches (clients/mobile/src/state/storage.ts). The storage is a
  map from keys to texts; an operation on which it throws rejects, except that the DNS setting is
  then the default. \<open>JSON.parse\<close> and \<open>JSON.stringify\<close> are parameters. A stored route and a stored
  fleet are the JSON values the source takes them for.
\<close>

section \<open>Storage\<close>

type_synonym phone_store = "string \<rightharpoonup> string"

text \<open>The record \<open>K\<close> of the keys.\<close>

datatype store_key =
    K_keypair | K_country | K_routeStyle | K_transportMode | K_killSwitch | K_nodeDiversity | K_notifDetails
  | K_autoConnect | K_favorites | K_entryCountry | K_exitCountry | K_fleet | K_activeRoute | K_disclosure
  | K_splitPolicy | K_dnsChoice | K_identityBackup | K_storeSub | K_transferNotice

definition key_text :: "store_key \<Rightarrow> string" where
  "key_text k =
     (case k of
        K_keypair \<Rightarrow> ''cvpn:keypair'' | K_country \<Rightarrow> ''cvpn:country'' | K_routeStyle \<Rightarrow> ''cvpn:routeStyle''
      | K_transportMode \<Rightarrow> ''cvpn:transportMode'' | K_killSwitch \<Rightarrow> ''cvpn:killSwitch''
      | K_nodeDiversity \<Rightarrow> ''cvpn:nodeDiversity'' | K_notifDetails \<Rightarrow> ''cvpn:notifDetails''
      | K_autoConnect \<Rightarrow> ''cvpn:autoConnect'' | K_favorites \<Rightarrow> ''cvpn:favorites''
      | K_entryCountry \<Rightarrow> ''cvpn:entryCountry'' | K_exitCountry \<Rightarrow> ''cvpn:exitCountry'' | K_fleet \<Rightarrow> ''cvpn:fleet''
      | K_activeRoute \<Rightarrow> ''cvpn:activeRoute'' | K_disclosure \<Rightarrow> ''cvpn:disclosureAck''
      | K_splitPolicy \<Rightarrow> ''cvpn:splitPolicy'' | K_dnsChoice \<Rightarrow> ''cvpn:dnsChoice''
      | K_identityBackup \<Rightarrow> ''cvpn:identityBackup'' | K_storeSub \<Rightarrow> ''cvpn:storeSub''
      | K_transferNotice \<Rightarrow> ''cvpn:transferNoticeSeen'')"

definition getItem :: "store_key \<Rightarrow> phone_store \<Rightarrow> string option" where
  "getItem k st = st (key_text k)"

definition setItem :: "store_key \<Rightarrow> string \<Rightarrow> phone_store \<Rightarrow> phone_store" where
  "setItem k v st = st(key_text k \<mapsto> v)"

definition removeItem :: "store_key \<Rightarrow> phone_store \<Rightarrow> phone_store" where
  "removeItem k st = st(key_text k := None)"

text \<open>\<open>JSON.parse\<close> of a text that is there: \<open>None\<close> where it is absent or throws.\<close>

definition parsed_item :: "(string \<Rightarrow> json option) \<Rightarrow> store_key \<Rightarrow> phone_store \<Rightarrow> json option" where
  "parsed_item parseJson k st =
     (let raw = getItem k st in if \<not> truthy raw then None else parseJson (the raw))"

section \<open>Settings\<close>

definition flag_on :: "store_key \<Rightarrow> phone_store \<Rightarrow> bool" where
  "flag_on k st \<longleftrightarrow> getItem k st = Some ''1''"

definition flag_unless_off :: "store_key \<Rightarrow> phone_store \<Rightarrow> bool" where
  "flag_unless_off k st \<longleftrightarrow> getItem k st \<noteq> Some ''0''"

definition save_flag :: "store_key \<Rightarrow> bool \<Rightarrow> phone_store \<Rightarrow> phone_store" where
  "save_flag k on st = setItem k (if on then ''1'' else ''0'') st"

definition save_code :: "store_key \<Rightarrow> string option \<Rightarrow> phone_store \<Rightarrow> phone_store" where
  "save_code k code st = (if truthy code then setItem k (the code) st else removeItem k st)"

definition route_style_text :: "route_style \<Rightarrow> string" where
  "route_style_text s =
     (case s of Single \<Rightarrow> ''single'' | Multihop_same_country \<Rightarrow> ''multihop-same-country''
      | Multihop_cross_jurisdiction \<Rightarrow> ''multihop-cross-jurisdiction'')"

definition ROUTE_STYLES :: "route_style list" where
  "ROUTE_STYLES = [Single, Multihop_same_country, Multihop_cross_jurisdiction]"

definition transport_mode_text :: "transport_mode \<Rightarrow> string" where
  "transport_mode_text m = (case m of Auto \<Rightarrow> ''auto'' | Speed \<Rightarrow> ''speed'' | Stealth \<Rightarrow> ''stealth'')"

definition TRANSPORT_MODES :: "transport_mode list" where
  "TRANSPORT_MODES = [Auto, Speed, Stealth]"

definition loadRouteStyle :: "phone_store \<Rightarrow> route_style" where
  "loadRouteStyle st = the_default Single (find (\<lambda>s. Some (route_style_text s) = getItem K_routeStyle st) ROUTE_STYLES)"

definition saveRouteStyle :: "route_style \<Rightarrow> phone_store \<Rightarrow> phone_store" where
  "saveRouteStyle s st = setItem K_routeStyle (route_style_text s) st"

definition loadTransportMode :: "phone_store \<Rightarrow> transport_mode" where
  "loadTransportMode st = the_default Auto (find (\<lambda>m. Some (transport_mode_text m) = getItem K_transportMode st) TRANSPORT_MODES)"

definition saveTransportMode :: "transport_mode \<Rightarrow> phone_store \<Rightarrow> phone_store" where
  "saveTransportMode m st = setItem K_transportMode (transport_mode_text m) st"

definition load_prefs :: "phone_store \<Rightarrow> vpn_prefs" where
  "load_prefs st =
     \<lparr>pr_selectedCode = getItem K_country st, pr_routeStyle = loadRouteStyle st, pr_transportMode = loadTransportMode st,
      pr_entryCode = getItem K_entryCountry st, pr_exitCode = getItem K_exitCountry st,
      pr_killSwitch = flag_on K_killSwitch st, pr_nodeDiversity = flag_on K_nodeDiversity st,
      pr_notifDetails = flag_unless_off K_notifDetails st, pr_autoConnect = flag_on K_autoConnect st\<rparr>"

definition phone_loadSplitPolicy :: "(string \<Rightarrow> json option) \<Rightarrow> phone_store \<Rightarrow> split_policy" where
  "phone_loadSplitPolicy parseJson st =
     (case parsed_item parseJson K_splitPolicy st of None \<Rightarrow> EMPTY_POLICY | Some v \<Rightarrow> sanitizeSplitPolicy v)"

definition phone_saveSplitPolicy :: "(json \<Rightarrow> string) \<Rightarrow> split_policy \<Rightarrow> phone_store \<Rightarrow> phone_store" where
  "phone_saveSplitPolicy stringify policy st = setItem K_splitPolicy (stringify (policy_json policy)) st"

text \<open>\<open>None\<close> where the storage throws.\<close>

definition phone_loadDnsChoice :: "phone_store option \<Rightarrow> dns_choice" where
  "phone_loadDnsChoice storage =
     (case storage of None \<Rightarrow> DEFAULT_DNS | Some st \<Rightarrow> parseDnsChoice (map_option J_str (getItem K_dnsChoice st)))"

definition phone_saveDnsChoice :: "dns_choice \<Rightarrow> phone_store \<Rightarrow> phone_store" where
  "phone_saveDnsChoice c st = setItem K_dnsChoice (dns_slug c) st"

definition loadFavorites :: "phone_store \<Rightarrow> string list" where
  "loadFavorites st =
     (let raw = getItem K_favorites st
      in if truthy raw then filter (\<lambda>c. c \<noteq> []) (split_on CHR '','' (the raw)) else [])"

definition saveFavorites :: "string list \<Rightarrow> phone_store \<Rightarrow> phone_store" where
  "saveFavorites codes st = setItem K_favorites (join '','' codes) st"

section \<open>What was\<close>

definition loadKeypair :: "(string \<Rightarrow> json option) \<Rightarrow> phone_store \<Rightarrow> json option" where
  "loadKeypair parseJson st = parsed_item parseJson K_keypair st"

definition phone_saveKeypair :: "(json \<Rightarrow> string) \<Rightarrow> keypair \<Rightarrow> phone_store \<Rightarrow> phone_store" where
  "phone_saveKeypair stringify kp st = setItem K_keypair (stringify (keypair_json kp)) st"

definition saveActiveRoute :: "(json \<Rightarrow> string) \<Rightarrow> json option \<Rightarrow> phone_store \<Rightarrow> phone_store" where
  "saveActiveRoute stringify route st =
     (case route of Some r \<Rightarrow> setItem K_activeRoute (stringify r) st | None \<Rightarrow> removeItem K_activeRoute st)"

definition loadActiveRoute :: "(string \<Rightarrow> json option) \<Rightarrow> phone_store \<Rightarrow> json option" where
  "loadActiveRoute parseJson st = parsed_item parseJson K_activeRoute st"

text \<open>A fleet that is \<open>null\<close>, or whose gateways are no list or none, is not loaded.\<close>

definition loadFleet :: "(string \<Rightarrow> json option) \<Rightarrow> phone_store \<Rightarrow> json option" where
  "loadFleet parseJson st =
     (case parsed_item parseJson K_fleet st of
        None \<Rightarrow> None
      | Some v \<Rightarrow> (case jget ''gateways'' v of Some (J_arr gs) \<Rightarrow> if length gs = 0 then None else Some v | _ \<Rightarrow> None))"

definition saveFleet :: "(json \<Rightarrow> string) \<Rightarrow> json list \<Rightarrow> (string \<times> json) list \<Rightarrow> rat \<Rightarrow> phone_store \<Rightarrow> phone_store" where
  "saveFleet stringify gateways latencyByIp savedAt st =
     setItem K_fleet (stringify (J_obj [(''gateways'', J_arr gateways), (''latencyByIp'', J_obj latencyByIp),
       (''savedAt'', J_num savedAt)])) st"

definition store_sub_text :: "store_sub \<Rightarrow> string" where
  "store_sub_text s = (case s of Sub_renewing \<Rightarrow> ''renewing'' | Sub_cancelled \<Rightarrow> ''cancelled'' | Sub_none \<Rightarrow> ''none'')"

definition loadStoreSub :: "phone_store \<Rightarrow> store_sub option" where
  "loadStoreSub st =
     (let v = getItem K_storeSub st
      in if v = Some ''renewing'' then Some Sub_renewing else if v = Some ''cancelled'' then Some Sub_cancelled
         else if v = Some ''none'' then Some Sub_none else None)"

definition saveStoreSub :: "store_sub \<Rightarrow> phone_store \<Rightarrow> phone_store" where
  "saveStoreSub s st = setItem K_storeSub (store_sub_text s) st"

definition DISCLOSURE_VERSION :: string where "DISCLOSURE_VERSION = ''3''"

definition loadDisclosureAck :: "phone_store \<Rightarrow> bool" where
  "loadDisclosureAck st \<longleftrightarrow> getItem K_disclosure st = Some DISCLOSURE_VERSION"

definition saveDisclosureAck :: "phone_store \<Rightarrow> phone_store" where
  "saveDisclosureAck st = setItem K_disclosure DISCLOSURE_VERSION st"

definition saveTransferNoticeSeen :: "phone_store \<Rightarrow> phone_store" where
  "saveTransferNoticeSeen st = setItem K_transferNotice ''1'' st"

section \<open>What is stored comes back\<close>

lemma key_text_inj [simp]: "key_text a = key_text b \<longleftrightarrow> a = b"
  by (cases a; cases b; simp add: key_text_def)

lemma get_items [simp]:
  "getItem k (setItem k' v st) = (if k = k' then Some v else getItem k st)"
  "getItem k (removeItem k' st) = (if k = k' then None else getItem k st)"
  "getItem k (save_flag k' on st) = (if k = k' then Some (if on then ''1'' else ''0'') else getItem k st)"
  by (simp_all add: getItem_def setItem_def removeItem_def save_flag_def)

lemma get_code: "code \<noteq> Some [] \<Longrightarrow> getItem k (save_code k' code st) = (if k = k' then code else getItem k st)"
  by (cases code) (auto simp: save_code_def truthy_def)

lemma flags_back [simp]:
  "flag_on k (save_flag k' on st) = (if k = k' then on else flag_on k st)"
  "flag_unless_off k (save_flag k' on st) = (if k = k' then on else flag_unless_off k st)"
  by (simp_all add: flag_on_def flag_unless_off_def)

lemma route_style_back: "loadRouteStyle (saveRouteStyle s st) = s"
  by (cases s) (simp_all add: loadRouteStyle_def saveRouteStyle_def ROUTE_STYLES_def route_style_text_def)

lemma transport_mode_back: "loadTransportMode (saveTransportMode m st) = m"
  by (cases m) (simp_all add: loadTransportMode_def saveTransportMode_def TRANSPORT_MODES_def transport_mode_text_def)

lemma phone_dns_back: "phone_loadDnsChoice (Some (phone_saveDnsChoice c st)) = c"
  by (simp add: phone_loadDnsChoice_def phone_saveDnsChoice_def parse_dns_slug)

lemma store_sub_back: "loadStoreSub (saveStoreSub s st) = Some s"
  by (cases s) (simp_all add: loadStoreSub_def saveStoreSub_def store_sub_text_def)

lemma phone_policy_back:
  assumes "\<And>v. parseJson (stringify v) = Some v" and "\<And>v. stringify v \<noteq> []"
  shows "phone_loadSplitPolicy parseJson (phone_saveSplitPolicy stringify (sanitizeSplitPolicy v) st) = sanitizeSplitPolicy v"
  using assms by (simp add: phone_loadSplitPolicy_def phone_saveSplitPolicy_def parsed_item_def truthy_def sanitize_stable)

text \<open>A key pair that was saved before a launch is the one the launch resolves its identity from.\<close>

lemma phone_keypair_back:
  assumes "\<And>v. parseJson (stringify v) = Some v" and "\<And>v. stringify v \<noteq> []"
    and "kp_publicKey kp \<noteq> []" and "kp_privateKey kp \<noteq> []"
  shows "Option.bind (loadKeypair parseJson (phone_saveKeypair stringify kp st)) read_keypair = Some kp"
  using assms by (simp add: loadKeypair_def phone_saveKeypair_def parsed_item_def truthy_def read_keypair_json)

lemma route_back:
  assumes "\<And>v. parseJson (stringify v) = Some v" and "\<And>v. stringify v \<noteq> []"
  shows "loadActiveRoute parseJson (saveActiveRoute stringify route st) = route"
  using assms by (cases route) (simp_all add: loadActiveRoute_def saveActiveRoute_def parsed_item_def truthy_def)

lemma fleet_back:
  assumes "\<And>v. parseJson (stringify v) = Some v" and "\<And>v. stringify v \<noteq> []" and "gs \<noteq> []"
  shows "\<exists>v. loadFleet parseJson (saveFleet stringify gs lat ms st) = Some v \<and> jget ''gateways'' v = Some (J_arr gs)
    \<and> jget ''latencyByIp'' v = Some (J_obj lat) \<and> jget ''savedAt'' v = Some (J_num ms)"
  using assms by (simp add: loadFleet_def saveFleet_def parsed_item_def truthy_def)

lemma favorites_back:
  assumes "\<forall>c\<in>set codes. c \<noteq> [] \<and> CHR '','' \<notin> set c"
  shows "loadFavorites (saveFavorites codes st) = codes"
proof (cases codes)
  case (Cons c cs)
  then have "join '','' codes \<noteq> []" using assms by (simp add: join_eq_Nil)
  moreover have "split_on CHR '','' (join '','' codes) = codes"
    by (rule split_on_join) (use assms Cons in auto)
  moreover have "filter (\<lambda>c. c \<noteq> []) codes = codes" using assms by (simp add: filter_id_conv)
  ultimately show ?thesis by (simp add: loadFavorites_def saveFavorites_def truthy_def)
qed (simp add: loadFavorites_def saveFavorites_def truthy_def)

text \<open>The settings of a session are, at the next launch, as they were left.\<close>

definition save_prefs :: "vpn_prefs \<Rightarrow> phone_store \<Rightarrow> phone_store" where
  "save_prefs p st =
     save_flag K_autoConnect (pr_autoConnect p) (save_flag K_notifDetails (pr_notifDetails p)
       (save_flag K_nodeDiversity (pr_nodeDiversity p) (save_flag K_killSwitch (pr_killSwitch p)
         (save_code K_exitCountry (pr_exitCode p) (save_code K_entryCountry (pr_entryCode p)
           (saveTransportMode (pr_transportMode p) (saveRouteStyle (pr_routeStyle p)
             (save_code K_country (pr_selectedCode p) st))))))))"

lemma styles_frame:
  "getItem K_routeStyle st = getItem K_routeStyle st' \<Longrightarrow> loadRouteStyle st = loadRouteStyle st'"
  "getItem K_transportMode st = getItem K_transportMode st' \<Longrightarrow> loadTransportMode st = loadTransportMode st'"
  by (simp_all add: loadRouteStyle_def loadTransportMode_def)

lemma prefs_back:
  assumes "pr_selectedCode p \<noteq> Some []" "pr_entryCode p \<noteq> Some []" "pr_exitCode p \<noteq> Some []"
  shows "load_prefs (save_prefs p st) = p"
proof -
  note get = get_code [OF assms(1)] get_code [OF assms(2)] get_code [OF assms(3)]
  have "loadRouteStyle (save_prefs p st) = pr_routeStyle p"
    using route_style_back [of "pr_routeStyle p" st]
    by (subst styles_frame(1) [of _ "saveRouteStyle (pr_routeStyle p) st"])
      (simp_all add: save_prefs_def get saveRouteStyle_def saveTransportMode_def)
  moreover have "loadTransportMode (save_prefs p st) = pr_transportMode p"
    using transport_mode_back [of "pr_transportMode p" st]
    by (subst styles_frame(2) [of _ "saveTransportMode (pr_transportMode p) st"])
      (simp_all add: save_prefs_def get saveRouteStyle_def saveTransportMode_def)
  ultimately show ?thesis
    by (simp add: load_prefs_def)
      (simp add: save_prefs_def get flag_on_def flag_unless_off_def saveRouteStyle_def saveTransportMode_def)
qed

text \<open>Whatever is stored, the launch gets settings; an empty storage gives those of a first launch.\<close>

lemma first_launch: "restored (load_prefs (\<lambda>_. None)) vpn_init = vpn_init"
  by (simp add: restored_def load_prefs_def loadRouteStyle_def loadTransportMode_def ROUTE_STYLES_def TRANSPORT_MODES_def
      getItem_def flag_on_def flag_unless_off_def vpn_init_def)

end
