(* ===== verification/Web.thy ===== *)
theory Web
  imports Fleet Desktop BridgeClient Split
begin

text \<open>
  The logic behind the pages of the web client (clients/web/src): the picker of locations
  (lib/countries.ts, lib/gateways.ts), the path of a request through the site's worker
  (lib/gatewayFetch.ts), what a browser keeps (lib/keypair.ts, dnsChoice.ts, splitPolicy.ts,
  issuedConfig.ts, recoveryKey.ts), the code a visit pays for and the checkout sessions
  (pages/UpgradePage.tsx), the wait for a payment (hooks/usePaymentStatus.ts), and the issue of a
  configuration (pages/ConnectPage.tsx, components/MultihopSection.tsx, App.tsx). The storage is
  that of Desktop; a stored value is taken to be of the type the source declares, unless it is
  looked at.
\<close>

section \<open>The picker\<close>

text \<open>\<open>/^cumulusvpn(?:tls)?/\<close> off a spec.\<close>

definition web_specToCountryCode :: "string \<Rightarrow> string" where
  "web_specToCountryCode spec =
     upper_str (if starts_with ''cumulusvpn'' spec
       then (let rest = drop (length ''cumulusvpn'') spec in if starts_with ''tls'' rest then drop 3 rest else rest) else spec)"

definition flagOf :: "string \<Rightarrow> int list" where
  "flagOf cc =
     (let code = upper_str (trim cc)
      in if length code \<noteq> 2 \<or> \<not> list_all is_upper code then NO_FLAG
         else map (\<lambda>c. 0x1f1e6 + (of_char c - 65)) code)"

definition nameOf :: "(string \<Rightarrow> string option) \<Rightarrow> string \<Rightarrow> string" where
  "nameOf region_name cc = the_default (upper_str cc) (region_name (upper_str cc))"

definition WEB_CITY :: "(string \<times> string) list" where
  "WEB_CITY =
     [(''US'', ''Multiple cities''), (''CA'', ''Toronto''), (''DE'', ''Frankfurt''), (''NL'', ''Amsterdam''),
      (''FR'', ''Paris''), (''GB'', ''London''), (''CZ'', ''Prague''), (''PL'', ''Warsaw''), (''SG'', ''Singapore''),
      (''JP'', ''Tokyo''), (''AU'', ''Sydney''), (''BR'', ''S'' @ [CHR 0xe3] @ ''o Paulo''), (''ES'', ''Madrid''),
      (''IT'', ''Milan''), (''SE'', ''Stockholm''), (''CH'', ''Z'' @ [CHR 0xfc] @ ''rich''), (''AT'', ''Vienna''),
      (''FI'', ''Helsinki''), (''MX'', ''Mexico City''), (''KR'', ''Seoul''), (''IN'', ''Mumbai''),
      (''ZA'', ''Johannesburg'')]"

definition cityOf :: "string \<Rightarrow> string" where
  "cityOf cc = the_default [] (map_of WEB_CITY (upper_str cc))"

text \<open>The status of a row is whether it has a best gateway.\<close>

record web_option =
  wo_id :: string
  wo_cc :: string
  wo_spec :: string
  wo_name :: string
  wo_flag :: "int list"
  wo_city :: string
  wo_nodeCount :: nat
  wo_bestGateway :: "gateway_info option"
  wo_live :: bool

datatype web_health = Health_good | Health_fair | Health_busy | Health_unknown

definition healthOf :: "web_option \<Rightarrow> web_health" where
  "healthOf opt =
     (case wo_bestGateway opt of
        None \<Rightarrow> Health_unknown
      | Some g \<Rightarrow> if ir_load g < 34 / 100 then Health_good else if ir_load g < 67 / 100 then Health_fair else Health_busy)"

definition by_country :: "gateway_info list \<Rightarrow> (string \<times> gateway_info list) list" where
  "by_country gateways = grouped (\<lambda>g. upper_str (ir_country g)) gateways"

definition live_in :: "gateway_info list \<Rightarrow> string \<Rightarrow> gateway_info list" where
  "live_in gateways cc = sort_key ir_load (the_default [] (map_of (by_country gateways) cc))"

definition city_key :: "string \<Rightarrow> gateway_info \<Rightarrow> string" where
  "city_key cc gw =
     (let city = trim (if ir_city gw \<noteq> [] then ir_city gw else cityOf cc) in if city \<noteq> [] then city else cc)"

definition seed_row :: "(string \<Rightarrow> string option) \<Rightarrow> string \<Rightarrow> string \<Rightarrow> web_option" where
  "seed_row region_name spec cc =
     \<lparr>wo_id = cc, wo_cc = cc, wo_spec = spec, wo_name = nameOf region_name cc, wo_flag = flagOf cc, wo_city = cityOf cc,
      wo_nodeCount = 0, wo_bestGateway = None, wo_live = False\<rparr>"

definition live_row :: "(string \<Rightarrow> string option) \<Rightarrow> string \<Rightarrow> string \<Rightarrow> gateway_info list \<Rightarrow> web_option" where
  "live_row region_name spec cc bucket =
     (let best = hd bucket; city = (if ir_city best \<noteq> [] then ir_city best else cityOf cc)
      in \<lparr>wo_id = (if city \<noteq> [] then cc @ '':'' @ city else cc), wo_cc = cc, wo_spec = spec, wo_name = nameOf region_name cc,
          wo_flag = flagOf cc, wo_city = city, wo_nodeCount = length bucket, wo_bestGateway = Some best, wo_live = True\<rparr>)"

definition spec_rows :: "(string \<Rightarrow> string option) \<Rightarrow> gateway_info list \<Rightarrow> string \<Rightarrow> web_option list" where
  "spec_rows region_name gateways spec =
     (let cc = web_specToCountryCode spec; live = live_in gateways cc
      in if length live = 0 then [seed_row region_name spec cc]
         else map (\<lambda>(_, bucket). live_row region_name spec cc bucket)
                (filter (\<lambda>(_, bucket). bucket \<noteq> []) (grouped (city_key cc) live)))"

text \<open>One pass for each country, by its first spec.\<close>

fun fresh_specs :: "string list \<Rightarrow> string list \<Rightarrow> string list" where
  "fresh_specs seen [] = []"
| "fresh_specs seen (spec # specs) =
     (let cc = web_specToCountryCode spec
      in if cc \<in> set seen then fresh_specs seen specs else spec # fresh_specs (cc # seen) specs)"

text \<open>\<open>collate\<close> gives the sort key of \<open>localeCompare\<close>, which tells two names apart that differ.\<close>

definition buildCountryOptions ::
  "(string \<Rightarrow> string option) \<Rightarrow> (string \<Rightarrow> string) \<Rightarrow> string list \<Rightarrow> gateway_info list \<Rightarrow> web_option list" where
  "buildCountryOptions region_name collate specs gateways =
     (let options = concat (map (spec_rows region_name gateways) (fresh_specs [] specs));
          shown = (if list_ex wo_live options then filter wo_live options else options)
      in sort_key (\<lambda>r. collate (wo_name r)) (sort_key (\<lambda>r. collate (wo_city r)) shown))"

section \<open>Requests\<close>

text \<open>Through the site's own worker when a page on https may not make them.\<close>

definition proxied_url :: "string \<Rightarrow> string" where
  "proxied_url url = (if starts_with ''http://'' url then ''/gw/'' @ drop (length ''http://'') url else url)"

section \<open>What the browser keeps\<close>

definition web_saveKeypair :: "(json \<Rightarrow> string) \<Rightarrow> keypair \<Rightarrow> local_store \<Rightarrow> local_store" where
  "web_saveKeypair stringify kp st = safeSet KEYPAIR_KEY (stringify (keypair_json kp)) st"

definition web_read_keypair :: "json \<Rightarrow> keypair option" where
  "web_read_keypair parsed =
     (case (jget ''publicKey'' parsed, jget ''privateKey'' parsed) of
        (Some (J_str pub), Some (J_str priv)) \<Rightarrow> Some \<lparr>kp_publicKey = pub, kp_privateKey = priv\<rparr>
      | _ \<Rightarrow> None)"

definition regenerateKeypair :: "crypto \<Rightarrow> (json \<Rightarrow> string) \<Rightarrow> bytes \<Rightarrow> local_store \<Rightarrow> keypair \<times> local_store" where
  "regenerateKeypair cr stringify randomSecretKey st =
     (let kp = generateKeypair cr randomSecretKey in (kp, web_saveKeypair stringify kp st))"

definition web_loadOrCreateKeypair ::
  "crypto \<Rightarrow> (string \<Rightarrow> json option) \<Rightarrow> (json \<Rightarrow> string) \<Rightarrow> bytes \<Rightarrow> local_store \<Rightarrow> keypair \<times> local_store" where
  "web_loadOrCreateKeypair cr parseJson stringify randomSecretKey st =
     (let stored = safeGet KEYPAIR_KEY st
      in case (if truthy stored then Option.bind (parseJson (the stored)) web_read_keypair else None) of
           Some kp \<Rightarrow> (kp, st)
         | None \<Rightarrow> regenerateKeypair cr stringify randomSecretKey st)"

definition web_loadDnsChoice :: "local_store \<Rightarrow> dns_choice" where
  "web_loadDnsChoice st = parseDnsChoice (map_option J_str (safeGet DNS_KEY st))"

definition web_saveDnsChoice :: "dns_choice \<Rightarrow> local_store \<Rightarrow> local_store" where
  "web_saveDnsChoice choice st = safeSet DNS_KEY (dns_slug choice) st"

definition web_loadSplitPolicy :: "(string \<Rightarrow> json option) \<Rightarrow> local_store \<Rightarrow> split_policy" where
  "web_loadSplitPolicy parseJson st =
     (let stored = safeGet SPLIT_KEY st
      in case (if truthy stored then parseJson (the stored) else None) of
           None \<Rightarrow> EMPTY_POLICY | Some v \<Rightarrow> sanitizeSplitPolicy v)"

definition web_saveSplitPolicy :: "(json \<Rightarrow> string) \<Rightarrow> split_policy \<Rightarrow> local_store \<Rightarrow> local_store" where
  "web_saveSplitPolicy stringify policy st = safeSet SPLIT_KEY (stringify (policy_json policy)) st"

record issued_config =
  is_ip :: string
  is_serverPubKey :: string
  is_cc :: string
  is_issuedAt :: string

definition ISSUED_KEY :: string where "ISSUED_KEY = ''cvpn.issued.v1''"

definition issued_json :: "issued_config \<Rightarrow> json" where
  "issued_json r = J_obj [(''ip'', J_str (is_ip r)), (''serverPubKey'', J_str (is_serverPubKey r)),
     (''cc'', J_str (is_cc r)), (''issuedAt'', J_str (is_issuedAt r))]"

definition read_issued :: "json \<Rightarrow> issued_config option" where
  "read_issued parsed =
     (let ip = text_field ''ip'' (Some parsed); key = text_field ''serverPubKey'' (Some parsed)
      in if ip = [] \<or> key = [] then None
         else Some \<lparr>is_ip = ip, is_serverPubKey = key, is_cc = text_field ''cc'' (Some parsed),
                    is_issuedAt = text_field ''issuedAt'' (Some parsed)\<rparr>)"

definition loadIssuedConfig :: "(string \<Rightarrow> json option) \<Rightarrow> local_store \<Rightarrow> issued_config option" where
  "loadIssuedConfig parseJson st =
     (let raw = safeGet ISSUED_KEY st
      in if \<not> truthy raw then None else Option.bind (parseJson (the raw)) read_issued)"

definition saveIssuedConfig :: "(json \<Rightarrow> string) \<Rightarrow> issued_config \<Rightarrow> local_store \<Rightarrow> local_store" where
  "saveIssuedConfig stringify r st = safeSet ISSUED_KEY (stringify (issued_json r)) st"

definition safeRemove :: "string \<Rightarrow> local_store \<Rightarrow> local_store" where
  "safeRemove key st = st\<lparr>lo_local := map_option (\<lambda>m. m(key := None)) (lo_local st)\<rparr>"

definition clearIssuedConfig :: "local_store \<Rightarrow> local_store" where
  "clearIssuedConfig st = safeRemove ISSUED_KEY st"

datatype web_restore_error = Restore_format | Restore_checksum | Restore_version | Restore_same

definition web_checkRestore :: "crypto \<Rightarrow> string \<Rightarrow> keypair \<Rightarrow> web_restore_error + keypair \<times> string" where
  "web_checkRestore cr input current =
     (case decodeRecoveryKey cr input of
        Inl e \<Rightarrow> Inl (if e = Bad_checksum then Restore_checksum else if e = Bad_version then Restore_version else Restore_format)
      | Inr kp \<Rightarrow> if kp_privateKey kp = kp_privateKey current then Inl Restore_same else Inr (kp, codeOf cr kp))"

datatype nudge_context = Nudge_upgrade | Nudge_confirmed

definition nudge_key :: "nudge_context \<Rightarrow> string" where
  "nudge_key c = NUDGE_DISMISSED_KEY @ '':'' @ (case c of Nudge_upgrade \<Rightarrow> ''upgrade'' | Nudge_confirmed \<Rightarrow> ''confirmed'')"

definition web_nudgeDismissed :: "nudge_context \<Rightarrow> local_store \<Rightarrow> bool" where
  "web_nudgeDismissed c st \<longleftrightarrow> session_get (nudge_key c) st = Some ''1''"

definition web_dismissNudge :: "nudge_context \<Rightarrow> local_store \<Rightarrow> local_store" where
  "web_dismissNudge c st = session_set (nudge_key c) ''1'' st"

section \<open>The code a visit pays for\<close>

text \<open>The parameters of the address, as \<open>URLSearchParams.get\<close> gives them.\<close>

record url_params =
  up_code :: "string option"
  up_session :: "string option"
  up_canceled :: "string option"

definition OVERRIDE_KEY :: string where "OVERRIDE_KEY = ''cvpn.paycode.override.v1''"

definition resolveCode :: "crypto \<Rightarrow> url_params \<Rightarrow> string \<Rightarrow> local_store \<Rightarrow> string \<times> local_store" where
  "resolveCode cr params browserPub st =
     (let own = the_default [] (paymentCode cr browserPub)
      in if truthy (up_code params) then (the (up_code params), safeSet OVERRIDE_KEY (the (up_code params)) st)
         else if up_session params \<noteq> None \<or> up_canceled params \<noteq> None
         then (let stored = safeGet OVERRIDE_KEY st in (if truthy stored then the stored else own, st))
         else (own, safeRemove OVERRIDE_KEY st))"

text \<open>A code typed by hand: \<open>None\<close> where it is refused.\<close>

definition applyCode :: "crypto \<Rightarrow> string \<Rightarrow> local_store \<Rightarrow> (string \<times> local_store) option" where
  "applyCode cr input st =
     (let trimmed = trim input
      in if \<not> client_isValidPaymentCode cr trimmed then None else Some (trimmed, safeSet OVERRIDE_KEY trimmed st))"

section \<open>Checkout sessions\<close>

definition PORTAL_KEY :: string where "PORTAL_KEY = ''cvpn.payportal.sessions.v1''"

definition readPortalSessions :: "(string \<Rightarrow> json option) \<Rightarrow> local_store \<Rightarrow> (string \<times> json) list" where
  "readPortalSessions parseJson st =
     (case safeGet PORTAL_KEY st of
        None \<Rightarrow> []
      | Some raw \<Rightarrow> (case parseJson raw of Some (J_obj kvs) \<Rightarrow> kvs | _ \<Rightarrow> []))"

definition isCheckoutSessionId :: "string \<Rightarrow> bool" where
  "isCheckoutSessionId value \<longleftrightarrow> starts_with ''cs_'' value \<and> 10 \<le> length value \<and> length value \<le> 200"

definition rememberPortalSession ::
  "(string \<Rightarrow> json option) \<Rightarrow> (json \<Rightarrow> string) \<Rightarrow> string \<Rightarrow> string \<Rightarrow> local_store \<Rightarrow> local_store" where
  "rememberPortalSession parseJson stringify code sessionId st =
     safeSet PORTAL_KEY (stringify (J_obj (AList.update code (J_str sessionId) (readPortalSessions parseJson st)))) st"

text \<open>The session the page offers to manage; the left is the TypeError of \<open>startsWith\<close> on another value.\<close>

definition portalSession ::
  "(string \<Rightarrow> json option) \<Rightarrow> string option \<Rightarrow> string \<Rightarrow> local_store \<Rightarrow> unit + string option" where
  "portalSession parseJson session code st =
     (if session \<noteq> None \<and> isCheckoutSessionId (the session) then Inr session
      else (case (if code = [] then None else map_of (readPortalSessions parseJson st) code) of
              None \<Rightarrow> Inr None
            | Some (J_str stored) \<Rightarrow> Inr (if isCheckoutSessionId stored then Some stored else None)
            | Some _ \<Rightarrow> Inl ()))"

text \<open>What the page does of a session in its address.\<close>

definition session_seen ::
  "(string \<Rightarrow> json option) \<Rightarrow> (json \<Rightarrow> string) \<Rightarrow> string option \<Rightarrow> string \<Rightarrow> local_store \<Rightarrow> local_store" where
  "session_seen parseJson stringify session code st =
     (if session \<noteq> None \<and> code \<noteq> [] \<and> isCheckoutSessionId (the session)
      then rememberPortalSession parseJson stringify code (the session) st else st)"

section \<open>Waiting for a payment\<close>

datatype bridge_status = Pay_pending | Pay_broadcast | Pay_confirmed | Pay_failed

datatype activation_phase = Polling | Activation bridge_status

definition STARTED_KEY :: string where "STARTED_KEY = ''cvpn.paycheckout.started.v1''"
definition SKEW_S :: rat where "SKEW_S = 120"

definition checkoutStartedAt :: "local_store \<Rightarrow> rat" where
  "checkoutStartedAt st =
     (case safeGet STARTED_KEY st of
        None \<Rightarrow> 0
      | Some raw \<Rightarrow> (case js_number raw of Fin n \<Rightarrow> n | _ \<Rightarrow> 0))"

text \<open>
  A turn of the poll: the payments the bridge lists with the times they were made, \<open>None\<close> where
  the request fails. It tells the phase and whether another turn is due.
\<close>

type_synonym poll_answer = "(bridge_status \<times> rat) list option"

definition poll_turn :: "rat \<Rightarrow> poll_answer \<Rightarrow> activation_phase \<Rightarrow> activation_phase \<times> bool" where
  "poll_turn since answer phase =
     (case answer of
        None \<Rightarrow> (phase, True)
      | Some payments \<Rightarrow>
          (case find (\<lambda>p. since \<le> snd p) payments of
             None \<Rightarrow> (phase, True)
           | Some p \<Rightarrow> (Activation (fst p), fst p \<noteq> Pay_confirmed)))"

fun poll :: "rat \<Rightarrow> poll_answer list \<Rightarrow> activation_phase \<Rightarrow> activation_phase" where
  "poll since [] phase = phase"
| "poll since (a # as) phase =
     (case poll_turn since a phase of (phase', again) \<Rightarrow> if again then poll since as phase' else phase')"

section \<open>Issuing a configuration\<close>

datatype split_state = Split_none | Split_applied | Split_premium_required

datatype connect_error =
    No_gateway_in string
  | Rejected_by_gateway string string
  | Failed_otherwise "fetch_error option"

record config_result =
  cr_enroll :: enroll_response
  cr_cc :: string
  cr_compiledSplit :: "compiled_split option"
  cr_split :: split_state

text \<open>
  The page, with the identity that the application holds. A request that is under way has
  captured the identity, the location and the page, which is a new one when the identity changes
  or the user comes back from the upgrade.
\<close>

record web_request =
  wr_page :: nat
  wr_keypair :: keypair
  wr_gateway :: gateway_info
  wr_cc :: string

record web_app =
  wa_keypair :: keypair
  wa_store :: local_store
  wa_restored :: bool
  wa_page :: nat
  wa_busy :: bool
  wa_error :: "connect_error option"
  wa_result :: "config_result option"
  wa_requests :: "web_request list"

definition fresh_page :: "web_app \<Rightarrow> web_app" where
  "fresh_page s = s\<lparr>wa_page := Suc (wa_page s), wa_busy := False, wa_error := None, wa_result := None\<rparr>"

definition show_identity :: "keypair \<Rightarrow> web_app \<Rightarrow> web_app" where
  "show_identity kp s = (let s1 = s\<lparr>wa_keypair := kp\<rparr> in if kp_publicKey kp = kp_publicKey (wa_keypair s) then s1 else fresh_page s1)"

definition onRegenerate :: "crypto \<Rightarrow> (json \<Rightarrow> string) \<Rightarrow> bytes \<Rightarrow> web_app \<Rightarrow> web_app" where
  "onRegenerate cr stringify randomSecretKey s =
     (let (kp, st) = regenerateKeypair cr stringify randomSecretKey (clearIssuedConfig (wa_store s))
      in show_identity kp (s\<lparr>wa_store := st, wa_restored := False\<rparr>))"

definition onRestore :: "crypto \<Rightarrow> (json \<Rightarrow> string) \<Rightarrow> keypair \<Rightarrow> web_app \<Rightarrow> web_app" where
  "onRestore cr stringify kp s =
     show_identity kp (s\<lparr>wa_restored := True,
       wa_store := markRecoveryKeySaved (codeOf cr kp) (web_saveKeypair stringify kp (clearIssuedConfig (wa_store s)))\<rparr>)"

definition onSelect :: "web_app \<Rightarrow> web_app" where
  "onSelect s = s\<lparr>wa_result := None, wa_error := None\<rparr>"

definition onGenerate :: "web_option option \<Rightarrow> web_app \<Rightarrow> web_app" where
  "onGenerate selected s =
     (case (if wa_busy s then None else selected) of
        None \<Rightarrow> s
      | Some opt \<Rightarrow>
          (case wo_bestGateway opt of
             None \<Rightarrow> s\<lparr>wa_error := Some (No_gateway_in (wo_name opt))\<rparr>
           | Some gw \<Rightarrow>
               s\<lparr>wa_busy := True, wa_error := None,
                 wa_requests := wa_requests s @ [\<lparr>wr_page = wa_page s, wr_keypair = wa_keypair s, wr_gateway = gw, wr_cc = wo_cc opt\<rparr>]\<rparr>))"

definition refused_by :: "fetch_error \<Rightarrow> connect_error" where
  "refused_by e = (case e of Api_error c slug m \<Rightarrow> Rejected_by_gateway slug m | _ \<Rightarrow> Failed_otherwise (Some e))"

text \<open>The policy of a configuration, and what it is compiled to for a gateway.\<close>

definition web_split :: "split_policy \<Rightarrow> string \<Rightarrow> tier option \<Rightarrow> split_error + compiled_split option \<times> split_state" where
  "web_split policy ip tier =
     (case compileSplitPolicy policy \<lparr>cc_platform = ''linux'', cc_supportsExcludeRoute = False, cc_endpointIps = [ip]\<rparr> of
        Inl e \<Rightarrow> Inl e
      | Inr compiled \<Rightarrow>
          Inr (if co_isNoop compiled then (None, Split_none)
               else if the_default Free tier = Premium then (Some compiled, Split_applied)
               else (None, Split_premium_required)))"

text \<open>
  The end of a request: the answer to the enrolment, the tier the gateway tells, \<open>None\<close> where that
  fails, and the date. What is set on a page that has gone is lost; what is stored is not. The
  answers of a request come in one step, with the split policy of that moment.
\<close>

definition issued ::
  "(string \<Rightarrow> json option) \<Rightarrow> (json \<Rightarrow> string) \<Rightarrow> web_request \<Rightarrow> fetch_error + enroll_response \<Rightarrow> tier option \<Rightarrow> string \<Rightarrow>
   web_app \<Rightarrow> web_app" where
  "issued parseJson stringify r answer tier now s =
     (let here = (wr_page r = wa_page s);
          s0 = s\<lparr>wa_requests := remove1 r (wa_requests s), wa_busy := (wa_busy s \<and> \<not> here)\<rparr>;
          fail = (\<lambda>e. if here then s0\<lparr>wa_error := Some e\<rparr> else s0)
      in case answer of
           Inl e \<Rightarrow> fail (refused_by e)
         | Inr reply \<Rightarrow>
             (case web_split (web_loadSplitPolicy parseJson (wa_store s)) (gw_ip (wr_gateway r)) tier of
                Inl e \<Rightarrow> fail (Failed_otherwise None)
              | Inr (compiled, state) \<Rightarrow>
                  (let s1 = s0\<lparr>wa_store := saveIssuedConfig stringify
                        \<lparr>is_ip = gw_ip (wr_gateway r), is_serverPubKey = er_server_pubkey reply, is_cc = wr_cc r, is_issuedAt = now\<rparr>
                        (wa_store s)\<rparr>
                   in if here
                      then s1\<lparr>wa_result := Some \<lparr>cr_enroll = reply, cr_cc = wr_cc r, cr_compiledSplit = compiled, cr_split = state\<rparr>\<rparr>
                      else s1)))"

definition shown_config :: "dns_choice \<Rightarrow> keypair \<Rightarrow> config_result \<Rightarrow> string" where
  "shown_config dns kp r =
     buildWgConfig \<lparr>wp_privateKey = kp_privateKey kp, wp_assignedIp = er_assigned_ip (cr_enroll r),
       wp_dns = dnsServersFor dns (er_dns (cr_enroll r)), wp_serverPubKey = er_server_pubkey (cr_enroll r),
       wp_endpoint = er_endpoint (cr_enroll r), wp_obfs = None, wp_split = cr_compiledSplit r\<rparr>"

section \<open>Two hops\<close>

definition hopChoices :: "web_option list \<Rightarrow> (string \<times> string \<times> int list) list" where
  "hopChoices options =
     fold (\<lambda>r acc. if wo_cc r \<in> set (map fst acc) then acc else acc @ [(wo_cc r, wo_name r, wo_flag r)]) options []"

definition entry_pick :: "(string \<times> 'a) list \<Rightarrow> string \<Rightarrow> string" where
  "entry_pick choices entryCc =
     (if entryCc \<noteq> [] then entryCc else (case choices of [] \<Rightarrow> [] | c # _ \<Rightarrow> fst c))"

definition exit_pick :: "(string \<times> 'a) list \<Rightarrow> string \<Rightarrow> string \<Rightarrow> string" where
  "exit_pick choices entry exitCc =
     (if exitCc \<noteq> [] then exitCc
      else the_default [] (map_option fst (find (\<lambda>c. fst c \<noteq> entry) choices)))"

definition hop_style :: "string \<Rightarrow> string \<Rightarrow> route_style" where
  "hop_style entry exit =
     (if entry \<noteq> [] \<and> exit \<noteq> [] \<and> entry = exit then Multihop_same_country else Multihop_cross_jurisdiction)"

datatype web_hops = Hops_unset | Hops_no_exit | Hops_no_gateways | Hops_failed string | Hops gateway_info gateway_info

definition web_hops_of :: "gateway_info list \<Rightarrow> string \<Rightarrow> string \<Rightarrow> web_hops" where
  "web_hops_of gateways entry exit =
     (if entry = [] \<or> exit = [] then Hops_unset
      else (case selectHops gateways (hop_style entry exit)
                   \<lparr>so_entryCountry = Some entry, so_exitCountry = Some exit, so_entryIps = None, so_exitIps = None,
                    so_requireDistinctSubnet = False\<rparr> of
              Inl m \<Rightarrow> if length gateways = 0 \<and> starts_with ''selectHops:'' m then Hops_no_gateways else Hops_failed m
            | Inr (e, None) \<Rightarrow> Hops_no_exit
            | Inr (e, Some x) \<Rightarrow> Hops e x))"

section \<open>What the picker shows\<close>

lemma web_spec_is_core: "web_specToCountryCode spec = specToCountryCode spec"
  by (simp add: web_specToCountryCode_def specToCountryCode_def after_prefix_def Let_def numeral_eq_Suc)

lemma group_members: "(k, ys) \<in> set (grouped key xs) \<Longrightarrow> ys = filter (\<lambda>x. key x = k) xs \<and> ys \<noteq> []"
  using grouped_row_groups [of key xs] by (auto simp: row_groups_def)

lemma group_of: "x \<in> set xs \<Longrightarrow> (key x, filter (\<lambda>y. key y = key x) xs) \<in> set (grouped key xs)"
  using grouped_row_groups [of key xs] unfolding row_groups_def by force

lemma grouped_lookup: "the_default [] (map_of (grouped key xs) k) = filter (\<lambda>x. key x = k) xs"
proof (cases "map_of (grouped key xs) k")
  case None
  then have "k \<notin> fst ` set (grouped key xs)" by (simp add: map_of_eq_None_iff)
  then have "key x \<noteq> k" if "x \<in> set xs" for x using group_of [OF that, of key] by force
  then show ?thesis using None by (simp add: filter_empty_conv)
next
  case (Some ys)
  then show ?thesis using group_members [OF map_of_SomeD [OF Some]] by simp
qed

lemma live_in_country: "live_in gateways cc = sort_key ir_load (filter (\<lambda>g. upper_str (ir_country g) = cc) gateways)"
  by (simp add: live_in_def by_country_def grouped_lookup)

lemma bucket_least:
  assumes "(k, bucket) \<in> set (grouped key (sort_key ir_load xs))" and "g \<in> set bucket"
  shows "hd bucket \<in> set xs \<and> key (hd bucket) = k \<and> ir_load (hd bucket) \<le> ir_load g"
proof -
  note b = group_members [OF assms(1)]
  have "set bucket = {x \<in> set xs. key x = k}" using b by simp
  then have h: "hd bucket \<in> set xs \<and> key (hd bucket) = k" using hd_in_set [OF conjunct2 [OF b]] by blast
  have "sorted (map ir_load bucket)" using b by (simp add: sorted_filter)
  then have "ir_load (hd bucket) \<le> ir_load g" using assms(2) by (cases bucket) auto
  then show ?thesis using h by simp
qed

text \<open>A row of the picker that is live shows the least loaded of its gateways, and how many there are.\<close>

definition live_row_ok :: "gateway_info list \<Rightarrow> web_option \<Rightarrow> gateway_info \<Rightarrow> bool" where
  "live_row_ok gateways row best \<longleftrightarrow>
     (let same = filter (\<lambda>g. upper_str (ir_country g) = wo_cc row \<and> city_key (wo_cc row) g = city_key (wo_cc row) best) gateways
      in wo_bestGateway row = Some best \<and> best \<in> set same \<and> wo_nodeCount row = length same
         \<and> (\<forall>g\<in>set same. ir_load best \<le> ir_load g))"

lemma bucket_row_ok:
  assumes "(k, bucket) \<in> set (grouped (city_key cc) (live_in gateways cc))"
  shows "live_row_ok gateways (live_row region_name spec cc bucket) (hd bucket)"
proof -
  let ?in = "\<lambda>g. upper_str (ir_country g) = cc"
  note b = group_members [OF assms]
  have same: "mset bucket = mset (filter (\<lambda>g. ?in g \<and> city_key cc g = k) gateways)"
  proof -
    have "mset bucket = filter_mset (\<lambda>g. city_key cc g = k) (filter_mset ?in (mset gateways))"
      using b by (simp add: live_in_country)
    then show ?thesis by (simp add: filter_filter_mset conj_commute)
  qed
  then have len: "length bucket = length (filter (\<lambda>g. ?in g \<and> city_key cc g = k) gateways)" by (metis size_mset)
  have st: "set bucket = {g \<in> set gateways. ?in g \<and> city_key cc g = k}" using arg_cong [OF same, of set_mset] by auto
  have h: "hd bucket \<in> set bucket" by (rule hd_in_set [OF conjunct2 [OF b]])
  have least: "ir_load (hd bucket) \<le> ir_load g" if "g \<in> set bucket" for g
    using bucket_least [OF assms [unfolded live_in_country] that] by simp
  have k: "city_key cc (hd bucket) = k" using h st by simp
  show ?thesis using h st len least k by (auto simp: live_row_ok_def live_row_def Let_def)
qed

lemma row_of_spec:
  assumes "row \<in> set (spec_rows region_name gateways spec)"
  shows "wo_cc row = web_specToCountryCode spec \<and> (wo_live row \<longrightarrow> (\<exists>best. live_row_ok gateways row best))"
proof -
  let ?cc = "web_specToCountryCode spec"
  consider "row = seed_row region_name spec ?cc"
    | k bucket where "(k, bucket) \<in> set (grouped (city_key ?cc) (live_in gateways ?cc))"
        "row = live_row region_name spec ?cc bucket"
    using assms by (auto simp: spec_rows_def Let_def split: if_splits)
  then show ?thesis
  proof cases
    case 1
    then show ?thesis by (simp add: seed_row_def)
  next
    case 2
    have "wo_cc row = ?cc" using 2(2) by (simp add: live_row_def Let_def)
    then show ?thesis using bucket_row_ok [OF 2(1), of region_name spec] 2(2) by blast
  qed
qed

lemma shown_rows:
  "set (buildCountryOptions region_name collate specs gateways) =
     (let all = \<Union>(set ` spec_rows region_name gateways ` set (fresh_specs [] specs))
      in if \<exists>row\<in>all. wo_live row then {row \<in> all. wo_live row} else all)"
  by (auto simp: buildCountryOptions_def Let_def list_ex_iff)

lemma fresh_specs_sub: "set (fresh_specs seen specs) \<subseteq> set specs"
  by (induction seen specs rule: fresh_specs.induct) (auto simp: Let_def)

lemma fresh_specs_covers:
  "spec \<in> set specs \<Longrightarrow> web_specToCountryCode spec \<notin> set seen \<Longrightarrow>
     \<exists>s\<in>set (fresh_specs seen specs). web_specToCountryCode s = web_specToCountryCode spec"
proof (induction seen specs rule: fresh_specs.induct)
  case (2 seen s specs)
  then show ?case by (cases "web_specToCountryCode s = web_specToCountryCode spec") (auto simp: Let_def)
qed simp

theorem web_picker_rows:
  assumes "row \<in> set (buildCountryOptions region_name collate specs gateways)"
  shows "wo_cc row \<in> web_specToCountryCode ` set specs"
    and "wo_live row \<Longrightarrow> \<exists>best. live_row_ok gateways row best"
proof -
  obtain spec where "spec \<in> set (fresh_specs [] specs)" "row \<in> set (spec_rows region_name gateways spec)"
    using assms by (auto simp: shown_rows Let_def split: if_splits)
  then show "wo_cc row \<in> web_specToCountryCode ` set specs" "wo_live row \<Longrightarrow> \<exists>best. live_row_ok gateways row best"
    using row_of_spec [of row region_name gateways spec] fresh_specs_sub [of "[]" specs] by auto
qed

text \<open>No gateway of a country that the directory lists is out of the picker.\<close>

theorem web_picker_complete:
  assumes "spec \<in> set specs" and "g \<in> set gateways" and "upper_str (ir_country g) = web_specToCountryCode spec"
  shows "\<exists>row\<in>set (buildCountryOptions region_name collate specs gateways). wo_live row
    \<and> wo_cc row = upper_str (ir_country g)
    \<and> (\<exists>best. live_row_ok gateways row best \<and> city_key (wo_cc row) best = city_key (wo_cc row) g \<and> ir_load best \<le> ir_load g)"
proof -
  obtain s where s: "s \<in> set (fresh_specs [] specs)" "web_specToCountryCode s = web_specToCountryCode spec"
    using fresh_specs_covers [OF assms(1), of "[]"] by auto
  define cc where "cc = web_specToCountryCode s"
  have g: "g \<in> set (live_in gateways cc)" using assms s by (simp add: live_in_country cc_def)
  define bucket where "bucket = filter (\<lambda>y. city_key cc y = city_key cc g) (live_in gateways cc)"
  have b: "(city_key cc g, bucket) \<in> set (grouped (city_key cc) (live_in gateways cc))"
    unfolding bucket_def by (rule group_of [OF g])
  have gb: "g \<in> set bucket" using g by (simp add: bucket_def)
  define row where "row = live_row region_name s cc bucket"
  have "row \<in> set (spec_rows region_name gateways s)"
    using b gb g by (force simp: spec_rows_def Let_def row_def cc_def [symmetric])
  then have all: "row \<in> \<Union>(set ` spec_rows region_name gateways ` set (fresh_specs [] specs))" using s by auto
  have fields: "wo_live row" "wo_cc row = cc" by (simp_all add: row_def live_row_def Let_def)
  have "row \<in> set (buildCountryOptions region_name collate specs gateways)"
    using all fields unfolding shown_rows Let_def by auto
  moreover have "cc = upper_str (ir_country g)" using assms s by (simp add: cc_def)
  moreover have "live_row_ok gateways row (hd bucket)" unfolding row_def by (rule bucket_row_ok [OF b])
  ultimately show ?thesis
    using fields bucket_least [OF b [unfolded live_in_country] gb] by metis
qed

section \<open>What the browser keeps comes back\<close>

lemma removed [simp]:
  "safeGet k (safeRemove k' st) = (if k = k' then None else safeGet k st)"
  "lo_writable (safeRemove k' st) = lo_writable st" "lo_local (safeRemove k' st) = None \<longleftrightarrow> lo_local st = None"
  by (cases "lo_local st"; simp add: safeGet_def safeRemove_def)+

text \<open>A storage that takes what is written to it, and a text of JSON that is read back.\<close>

definition keeps :: "(string \<Rightarrow> json option) \<Rightarrow> (json \<Rightarrow> string) \<Rightarrow> local_store \<Rightarrow> bool" where
  "keeps parseJson stringify st \<longleftrightarrow>
     lo_writable st \<and> lo_local st \<noteq> None \<and> (\<forall>v. parseJson (stringify v) = Some v \<and> stringify v \<noteq> [])"

lemma keeps_local: "keeps p f st \<Longrightarrow> lo_writable st \<and> lo_local st \<noteq> None"
  and keeps_text: "keeps p f st \<Longrightarrow> p (f v) = Some v \<and> f v \<noteq> []"
  by (simp_all add: keeps_def)

lemma keeps_after [simp]: "keeps p f (safeSet k v st) = keeps p f st" "keeps p f (safeRemove k st) = keeps p f st"
  by (simp_all add: keeps_def)

theorem web_split_policy_returns:
  assumes "keeps parseJson stringify st" and "sanitizeSplitPolicy (policy_json policy) = policy"
  shows "web_loadSplitPolicy parseJson (web_saveSplitPolicy stringify policy st) = policy"
  using assms keeps_local [OF assms(1)] keeps_text [OF assms(1)]
  by (simp add: web_loadSplitPolicy_def web_saveSplitPolicy_def get_set truthy_def)

theorem issued_config_returns:
  assumes "keeps parseJson stringify st" and "is_ip r \<noteq> []" and "is_serverPubKey r \<noteq> []"
  shows "loadIssuedConfig parseJson (saveIssuedConfig stringify r st) = Some r"
    and "loadIssuedConfig parseJson (clearIssuedConfig st) = None"
  using assms keeps_local [OF assms(1)] keeps_text [OF assms(1)]
  by (simp_all add: loadIssuedConfig_def saveIssuedConfig_def clearIssuedConfig_def get_set truthy_def read_issued_def
      issued_json_def text_field_def Let_def)

theorem web_identity_returns:
  assumes "keeps parseJson stringify st" and "web_loadOrCreateKeypair cr parseJson stringify r st = (kp, st')"
  shows "web_loadOrCreateKeypair cr parseJson stringify r' st' = (kp, st')"
proof (cases "if truthy (safeGet KEYPAIR_KEY st) then Option.bind (parseJson (the (safeGet KEYPAIR_KEY st))) web_read_keypair else None")
  case (Some k)
  then show ?thesis using assms(2) by (auto simp: web_loadOrCreateKeypair_def Let_def)
next
  case None
  then have "st' = safeSet KEYPAIR_KEY (stringify (keypair_json kp)) st"
    using assms(2) by (auto simp: web_loadOrCreateKeypair_def regenerateKeypair_def web_saveKeypair_def Let_def)
  moreover have "web_read_keypair (keypair_json kp) = Some kp" by (simp add: web_read_keypair_def keypair_json_def)
  ultimately show ?thesis
    using keeps_local [OF assms(1)] keeps_text [OF assms(1)]
    by (simp add: web_loadOrCreateKeypair_def get_set truthy_def Let_def)
qed

section \<open>The code that is paid for\<close>

text \<open>The code of a hand-off is the one both returns from the checkout pay for, until a plain visit.\<close>

theorem handed_code_survives_checkout:
  assumes "lo_writable st" and "lo_local st \<noteq> None" and "resolveCode cr ps own st = (code, st1)" and "truthy (up_code ps)"
    and "\<not> truthy (up_code back)" and "up_session back \<noteq> None \<or> up_canceled back \<noteq> None"
  shows "resolveCode cr back own' st1 = (code, st1)"
  using assms by (auto simp: resolveCode_def get_set truthy_def Let_def split: option.splits)

theorem plain_visit_pays_own:
  assumes "\<not> truthy (up_code ps)" and "up_session ps = None" and "up_canceled ps = None"
    and "resolveCode cr ps own st = (code, st')"
    and "\<not> truthy (up_code later)"
  shows "code = the_default [] (paymentCode cr own)" and "fst (resolveCode cr later own st') = code"
  using assms by (auto simp: resolveCode_def truthy_def Let_def)

theorem typed_code_is_checked:
  "applyCode cr input st = Some (code, st') \<Longrightarrow> client_isValidPaymentCode cr code \<and> code = trim input"
  by (auto simp: applyCode_def Let_def split: if_splits)

section \<open>The session that manages a subscription\<close>

theorem session_is_kept:
  assumes "keeps parseJson stringify st" and "isCheckoutSessionId s" and "code \<noteq> []"
  shows "portalSession parseJson None code (session_seen parseJson stringify (Some s) code st) = Inr (Some s)"
  using assms keeps_local [OF assms(1)] keeps_text [OF assms(1)]
  by (simp add: portalSession_def session_seen_def rememberPortalSession_def readPortalSessions_def get_set update_conv')

text \<open>
  A link overwrites it. The check of the form says that it guards against this; any text of ten
  characters that begins with cs_ passes, and a link may name the code of the subscription too.
\<close>

theorem link_overwrites_session:
  assumes "keeps parseJson stringify st" and "code \<noteq> []" and "up_code ps = Some code"
    and "portalSession parseJson None code st = Inr (Some mine)"
  shows "fst (resolveCode cr ps own st) = code"
    and "portalSession parseJson None code
           (session_seen parseJson stringify (Some ''cs_xxxxxxx'') code (snd (resolveCode cr ps own st))) = Inr (Some ''cs_xxxxxxx'')"
proof -
  show "fst (resolveCode cr ps own st) = code" using assms by (simp add: resolveCode_def truthy_def Let_def)
  have "keeps parseJson stringify (snd (resolveCode cr ps own st))"
    using assms by (simp add: resolveCode_def truthy_def Let_def)
  then show "portalSession parseJson None code
      (session_seen parseJson stringify (Some ''cs_xxxxxxx'') code (snd (resolveCode cr ps own st))) = Inr (Some ''cs_xxxxxxx'')"
    by (rule session_is_kept) (simp_all add: assms isCheckoutSessionId_def starts_with_def)
qed

text \<open>A stored value that is no text is an exception of the page, not \<open>no subscription\<close>.\<close>

theorem mangled_session_throws:
  "safeGet PORTAL_KEY st = Some raw \<Longrightarrow> parseJson raw = Some (J_obj [(code, J_num n)]) \<Longrightarrow> code \<noteq> [] \<Longrightarrow>
     portalSession parseJson None code st = Inl ()"
  by (simp add: portalSession_def readPortalSessions_def)

section \<open>Waiting for a payment\<close>

text \<open>What the page shows is the state of a payment that this checkout may have made, and a confirmation stays.\<close>

lemma poll_turn_fresh:
  "poll_turn since answer phase = (Activation b, again) \<Longrightarrow> phase \<noteq> Activation b \<Longrightarrow>
     \<exists>ps at_time. answer = Some ps \<and> (b, at_time) \<in> set ps \<and> since \<le> at_time"
  by (auto simp: poll_turn_def split: option.splits if_splits dest!: find_Some_mem)

theorem poll_tells_fresh_payment:
  assumes "poll since answers Polling = Activation b"
  shows "\<exists>ps at_time. Some ps \<in> set answers \<and> (b, at_time) \<in> set ps \<and> since \<le> at_time"
proof -
  have "poll since answers phase = Activation b \<Longrightarrow> phase = Activation b
      \<or> (\<exists>ps at_time. Some ps \<in> set answers \<and> (b, at_time) \<in> set ps \<and> since \<le> at_time)" for phase
  proof (induction since answers phase rule: poll.induct)
    case (2 since a as phase)
    obtain phase' again where t: "poll_turn since a phase = (phase', again)" by (cases "poll_turn since a phase")
    show ?case
    proof (cases "phase' = Activation b \<and> phase \<noteq> Activation b")
      case True
      then show ?thesis using poll_turn_fresh [of since a phase b again] t by auto
    next
      case False
      then show ?thesis using 2 t by (cases again) auto
    qed
  qed simp
  then show ?thesis using assms by blast
qed

theorem poll_stops_at_confirmed:
  assumes "poll_turn since a phase = (Activation Pay_confirmed, False)"
  shows "poll since (a # later) phase = Activation Pay_confirmed"
  using assms by simp

lemma poll_goes_on: "snd (poll_turn since a phase) \<longleftrightarrow>
    (\<forall>ps p. a = Some ps \<longrightarrow> find (\<lambda>p. since \<le> snd p) ps = Some p \<longrightarrow> fst p \<noteq> Pay_confirmed)"
  by (auto simp: poll_turn_def split: option.splits)

section \<open>Issuing\<close>

text \<open>A request shows its outcome on its own page only; where it fails, the configuration on screen stays.\<close>

theorem issue_outcome:
  assumes "wr_page r = wa_page s"
  shows "wa_result (issued parseJson stringify r (Inl e) tier now s) = wa_result s"
    and "wa_store (issued parseJson stringify r (Inl e) tier now s) = wa_store s"
    and "wa_error (issued parseJson stringify r (Inl e) tier now s) = Some (refused_by e)"
    and "\<not> wa_busy (issued parseJson stringify r answer tier now s)"
  using assms by (auto simp: issued_def Let_def split: sum.splits)

theorem gone_page_is_silent:
  assumes "wr_page r \<noteq> wa_page s"
  shows "wa_result (issued parseJson stringify r answer tier now s) = wa_result s
    \<and> wa_error (issued parseJson stringify r answer tier now s) = wa_error s
    \<and> wa_busy (issued parseJson stringify r answer tier now s) = wa_busy s"
  using assms by (auto simp: issued_def Let_def split: sum.splits)

text \<open>Split routes are in a configuration only where the gateway that issues it says Premium.\<close>

theorem split_only_premium:
  assumes "web_split policy ip tier = Inr (compiled, state)"
  shows "compiled \<noteq> None \<longleftrightarrow> state = Split_applied" and "compiled \<noteq> None \<Longrightarrow> tier = Some Premium"
    and "state = Split_none \<longleftrightarrow>
      (\<exists>co. compileSplitPolicy policy \<lparr>cc_platform = ''linux'', cc_supportsExcludeRoute = False, cc_endpointIps = [ip]\<rparr> = Inr co \<and> co_isNoop co)"
  using assms by (cases tier; auto simp: web_split_def split: sum.splits if_splits option.splits)+

text \<open>A stored policy is always one that compiles, so that an enrolment that succeeded gives a configuration.\<close>

lemma stored_split_wf: "policy_wf (web_loadSplitPolicy parseJson st)"
proof -
  have "policy_wf EMPTY_POLICY" by (simp add: EMPTY_POLICY_def policy_wf_def)
  then show ?thesis by (simp add: web_loadSplitPolicy_def Let_def sanitize_wf split: option.splits)
qed

lemma web_split_total: "\<exists>x. web_split (web_loadSplitPolicy parseJson st) ip tier = Inr x"
  using compile_total [OF stored_split_wf, of parseJson st
      "\<lparr>cc_platform = ''linux'', cc_supportsExcludeRoute = False, cc_endpointIps = [ip]\<rparr>"]
  by (auto simp: web_split_def)

theorem enrolment_gives_config:
  assumes "wr_page r = wa_page s" and "keeps parseJson stringify (wa_store s)"
    and "gw_ip (wr_gateway r) \<noteq> []" and "er_server_pubkey reply \<noteq> []"
    and "s' = issued parseJson stringify r (Inr reply) tier now s"
  shows "\<exists>compiled state. wa_result s' = Some \<lparr>cr_enroll = reply, cr_cc = wr_cc r, cr_compiledSplit = compiled, cr_split = state\<rparr>
           \<and> (compiled \<noteq> None \<longrightarrow> tier = Some Premium)"
    and "loadIssuedConfig parseJson (wa_store s') =
      Some \<lparr>is_ip = gw_ip (wr_gateway r), is_serverPubKey = er_server_pubkey reply, is_cc = wr_cc r, is_issuedAt = now\<rparr>"
proof -
  obtain compiled state where w: "web_split (web_loadSplitPolicy parseJson (wa_store s)) (gw_ip (wr_gateway r)) tier = Inr (compiled, state)"
    using web_split_total [of parseJson "wa_store s" "gw_ip (wr_gateway r)" tier] by (metis prod.collapse)
  show "\<exists>compiled state. wa_result s' = Some \<lparr>cr_enroll = reply, cr_cc = wr_cc r, cr_compiledSplit = compiled, cr_split = state\<rparr>
      \<and> (compiled \<noteq> None \<longrightarrow> tier = Some Premium)"
    using assms(1,5) w split_only_premium(2) [OF w] by (simp add: issued_def Let_def)
  show "loadIssuedConfig parseJson (wa_store s') =
      Some \<lparr>is_ip = gw_ip (wr_gateway r), is_serverPubKey = er_server_pubkey reply, is_cc = wr_cc r, is_issuedAt = now\<rparr>"
    using assms(1,3,5) w by (simp add: issued_def Let_def issued_config_returns(1) [OF assms(2)] assms(4))
qed

text \<open>A new identity starts without a configuration and without a record of one.\<close>

theorem new_identity_is_clean:
  assumes "keeps parseJson stringify (wa_store s)" and "s' = onRegenerate cr stringify rand s"
    and "kp_publicKey (generateKeypair cr rand) \<noteq> kp_publicKey (wa_keypair s)"
  shows "wa_result s' = None" and "loadIssuedConfig parseJson (wa_store s') = None"
    and "web_loadOrCreateKeypair cr parseJson stringify rand' (wa_store s') = (wa_keypair s', wa_store s')"
proof -
  let ?kp = "generateKeypair cr rand" and ?st = "web_saveKeypair stringify (generateKeypair cr rand) (clearIssuedConfig (wa_store s))"
  have s': "wa_result s' = None" "wa_keypair s' = ?kp" "wa_store s' = ?st"
    using assms by (simp_all add: onRegenerate_def regenerateKeypair_def show_identity_def fresh_page_def Let_def)
  show "wa_result s' = None" by (rule s')
  show "loadIssuedConfig parseJson (wa_store s') = None"
    unfolding s' using keeps_local [OF assms(1)]
    by (simp add: web_saveKeypair_def clearIssuedConfig_def loadIssuedConfig_def get_set truthy_def ISSUED_KEY_def KEYPAIR_KEY_def)
  have "web_read_keypair (keypair_json ?kp) = Some ?kp" by (simp add: web_read_keypair_def keypair_json_def)
  then show "web_loadOrCreateKeypair cr parseJson stringify rand' (wa_store s') = (wa_keypair s', wa_store s')"
    unfolding s' using keeps_local [OF assms(1)] keeps_text [OF assms(1)]
    by (simp add: web_loadOrCreateKeypair_def web_saveKeypair_def clearIssuedConfig_def get_set truthy_def Let_def)
qed

text \<open>
  But a request that is under way when the key is replaced stores its record afterwards: the next
  visit checks the gateway of a configuration that the new identity never had.
\<close>

theorem late_issue_outlives_new_identity:
  assumes "keeps parseJson stringify (wa_store s)" and "s' = onRegenerate cr stringify rand s"
    and "kp_publicKey (generateKeypair cr rand) \<noteq> kp_publicKey (wa_keypair s)"
    and "wr_page r = wa_page s" and "wr_keypair r = wa_keypair s"
    and "gw_ip (wr_gateway r) \<noteq> []" and "er_server_pubkey reply \<noteq> []"
    and "s'' = issued parseJson stringify r (Inr reply) tier now s'"
  shows "wa_keypair s'' \<noteq> wr_keypair r" and "wa_result s'' = None"
    and "loadIssuedConfig parseJson (wa_store s'') =
      Some \<lparr>is_ip = gw_ip (wr_gateway r), is_serverPubKey = er_server_pubkey reply, is_cc = wr_cc r, is_issuedAt = now\<rparr>"
proof -
  have s': "wa_result s' = None" "wa_keypair s' = generateKeypair cr rand" "wa_page s' \<noteq> wr_page r"
    and st: "keeps parseJson stringify (wa_store s')"
    using assms by (simp_all add: onRegenerate_def regenerateKeypair_def show_identity_def fresh_page_def Let_def
        web_saveKeypair_def clearIssuedConfig_def)
  obtain compiled state where w: "web_split (web_loadSplitPolicy parseJson (wa_store s')) (gw_ip (wr_gateway r)) tier = Inr (compiled, state)"
    using web_split_total [of parseJson "wa_store s'" "gw_ip (wr_gateway r)" tier] by (metis prod.collapse)
  have gone: "wr_page r \<noteq> wa_page s'" using s' by simp
  have s'': "wa_keypair s'' = wa_keypair s'" "wa_result s'' = None"
    "wa_store s'' = saveIssuedConfig stringify
      \<lparr>is_ip = gw_ip (wr_gateway r), is_serverPubKey = er_server_pubkey reply, is_cc = wr_cc r, is_issuedAt = now\<rparr> (wa_store s')"
    using gone s'(1) w unfolding assms(8) by (simp_all add: issued_def Let_def)
  show "wa_keypair s'' \<noteq> wr_keypair r" using s'' s' assms(3,5) by auto
  show "wa_result s'' = None" by (rule s'')
  show "loadIssuedConfig parseJson (wa_store s'') =
      Some \<lparr>is_ip = gw_ip (wr_gateway r), is_serverPubKey = er_server_pubkey reply, is_cc = wr_cc r, is_issuedAt = now\<rparr>"
    unfolding s'' by (rule issued_config_returns(1) [OF st]) (simp_all add: assms)
qed

section \<open>The two hops that are offered\<close>

lemma hop_choices_from:
  assumes "distinct (map fst acc)"
  shows "distinct (map fst (fold (\<lambda>r acc. if wo_cc r \<in> set (map fst acc) then acc else acc @ [(wo_cc r, wo_name r, wo_flag r)]) options acc))
    \<and> set (map fst (fold (\<lambda>r acc. if wo_cc r \<in> set (map fst acc) then acc else acc @ [(wo_cc r, wo_name r, wo_flag r)]) options acc))
        = set (map fst acc) \<union> wo_cc ` set options"
  using assms
proof (induction options arbitrary: acc)
  case (Cons r options)
  show ?case
  proof (cases "wo_cc r \<in> set (map fst acc)")
    case True
    then show ?thesis using Cons.IH [OF Cons.prems] by auto
  next
    case False
    then have "distinct (map fst (acc @ [(wo_cc r, wo_name r, wo_flag r)]))" using Cons.prems by simp
    from Cons.IH [OF this] False show ?thesis by simp
  qed
qed simp

lemma hop_choices: "distinct (map fst (hopChoices options))" "set (map fst (hopChoices options)) = wo_cc ` set options"
  using hop_choices_from [of "[]" options] by (simp_all add: hopChoices_def)

text \<open>With two countries to choose from, the picks of a user who chose none are two of them.\<close>

theorem hop_defaults_differ:
  assumes "a \<in> set options" and "b \<in> set options" and "wo_cc a \<noteq> wo_cc b"
  defines "entry \<equiv> entry_pick (hopChoices options) []"
  shows "entry \<in> wo_cc ` set options" and "exit_pick (hopChoices options) entry [] \<in> wo_cc ` set options"
    and "exit_pick (hopChoices options) entry [] \<noteq> entry"
proof -
  let ?cs = "hopChoices options"
  note c = hop_choices(2) [of options]
  obtain x xs where cs: "?cs = x # xs" using c assms(1) by (cases ?cs) auto
  then have e: "entry = fst x" by (simp add: entry_def entry_pick_def)
  then show "entry \<in> wo_cc ` set options" using c cs by auto
  obtain d where d: "d \<in> set ?cs" "fst d \<noteq> entry"
  proof -
    have "wo_cc a \<in> fst ` set ?cs" "wo_cc b \<in> fst ` set ?cs" using c assms(1,2) by auto
    then obtain da db where "da \<in> set ?cs" "fst da = wo_cc a" "db \<in> set ?cs" "fst db = wo_cc b" by auto
    then show thesis using that [of da] that [of db] assms(3) by (cases "wo_cc a = entry") auto
  qed
  then have "find (\<lambda>c. fst c \<noteq> entry) ?cs \<noteq> None" unfolding find_None_iff by blast
  then obtain y where y: "find (\<lambda>c. fst c \<noteq> entry) ?cs = Some y" by blast
  from find_Some_mem [OF y] have y': "y \<in> set ?cs" "fst y \<noteq> entry" by auto
  then show "exit_pick ?cs entry [] \<in> wo_cc ` set options" using y c by (auto simp: exit_pick_def)
  show "exit_pick ?cs entry [] \<noteq> entry" using y y' by (simp add: exit_pick_def)
qed

theorem web_hops_are_two_gateways:
  assumes "web_hops_of gateways entry exit = Hops a b"
  shows "a \<in> set gateways" and "b \<in> set gateways" and "gw_ip a \<noteq> gw_ip b"
    and "(ir_country a = ir_country b) = (entry = exit)"
proof -
  let ?opts = "\<lparr>so_entryCountry = Some entry, so_exitCountry = Some exit, so_entryIps = None, so_exitIps = None,
    so_requireDistinctSubnet = False\<rparr>"
  have st: "hop_style entry exit \<noteq> Single" by (simp add: hop_style_def)
  have picked: "entry \<noteq> [] \<and> exit \<noteq> []" and sel: "selectHops gateways (hop_style entry exit) ?opts = Inr (a, Some b)"
    using assms by (auto simp: web_hops_of_def split: if_splits sum.splits prod.splits option.splits)
  have ok: "route_ok gateways (hop_style entry exit) ?opts a b"
    using selectHops_multi [OF st, of gateways ?opts] unfolding sel by simp
  then show "a \<in> set gateways" "b \<in> set gateways" by (simp_all add: route_ok_def)
  show "gw_ip a \<noteq> gw_ip b" by (rule route_ok_distinct(1) [OF ok])
  show "(ir_country a = ir_country b) = (entry = exit)"
    using route_ok_distinct(2,3) [OF ok] picked by (cases "entry = exit") (simp_all add: hop_style_def)
qed

end
