(* ===== verification/Spec2Isabelle.thy ===== *)
theory Spec2Isabelle
  imports ClientProperties DesktopProperties PhoneProperties VpnProperties PhoneStore Web
begin

text \<open>
  A verification library for CumulusVPN: the payments bridge (bridge/src), the core that every
  client shares (clients/core-ts/src), and what is built on it in the desktop client
  (clients/desktop/src) and the mobile client (clients/mobile/src).

  \<^bold>\<open>The program.\<close> A device has a WireGuard key, and its payment code is a digest of the public
  key. Whoever pays, by card, in a store, with a voucher or in FLUX, pays for a payment code. The
  bridge turns a verified payment into a row of its queue, and its two workers settle the queue
  on the Flux chain, from which the gateways read who has premium. A client discovers the
  gateways, picks one or two of them, enrols its key there, and hands a configuration to the
  native tunnel; while the tunnel is up it watches it, and repairs or holds it when it dies.

  \<^bold>\<open>Prelude.\<close> Prelude has tables (lists of rows with a key), on which the repositories are
  modelled, and the named collections of hints; JsString, JsValue and Dates have the operations
  of the source's language on strings, numbers, JSON values and dates.

  \<^bold>\<open>The bridge.\<close> Price (price.ts) is the schedule of prices; Db, PaymentsRepo,
  SubscriptionsRepo and Vouchers (db/) the schema, the repositories and the transaction of a
  redemption; Codes (codes.ts) and Grants (grants.ts) the funnel of every payment event, beside
  the days a gateway sells for it (gateway/internal/entitle); Transfers and Moves (transfers.ts)
  the rules by which a subscription changes its device. GoogleRail, AppleRail and StripeRail
  (rails/) are the handlers of the three rails, whose answers from the stores are parameters;
  Quiet shows what they leave alone. Flux (flux/) selects and builds a treasury spend, Workers
  (worker/, breaker.ts) has the two workers between their awaits, and Settlement interleaves
  them with each other, with webhooks, crashes and an adversarial chain, as an inductive step
  relation; Exclusive and Runs carry the statement that two payments never share a transaction
  and the run in which, on a stale view, they do. Config (config.ts) and Server (server.ts,
  envelope.ts) are the configuration and the HTTP surface; ServerInv and ServerSafety what any
  sequence of requests keeps.

  \<^bold>\<open>The core.\<close> IpText, Intervals and Split (split.ts) are split tunnelling, from the text of a
  prefix to the routes of a policy; Transport (types.ts, transport.ts, dns.ts, wgconfig.ts) and
  Multihop (multihop.ts) choose transports and hops and print configurations; ClientKeys
  (keys.ts, sign.ts, pow.ts, paymentCode.ts, recoveryKey.ts) has keys, codes and the proof of
  work over a record of cryptographic functions; Gateways (http.ts, discovery.ts, enroll.ts,
  probe.ts, quality.ts, confhealth.ts) finds and asks gateways; BridgeClient (bridge.ts) is the
  client of the bridge, and Network joins the two: a client's request through the server's
  schemas and handlers back to what the client reads.

  \<^bold>\<open>The desktop client.\<close> Desktop (lib/tauri.ts, storage.ts, directory.ts, identity.ts) and
  Session (lib/session.ts) are the operations, with a trace of what they ask of the outside;
  Connection (hooks/useConnection.ts) is the hook as a transition system over events and
  effects, and Reconnect what every run of it keeps.

  \<^bold>\<open>The mobile client.\<close> Backup (state/identity.ts) keeps the identity across uninstalls, Relay
  (lib/gatewayFetch.ts) carries requests through the tunnel extension, Fleet (lib/gateways.ts,
  flags.ts, transferNotice.ts) lists servers, PhoneStore (state/storage.ts) is what is kept
  between launches, and Iap (lib/iap.ts, state/useIap.ts) the purchases of the store and their
  claims at the bridge. Phone has the parts of a session, and Vpn the hook of
  state/useVpn.ts as a transition system in which a connect is a program with sixteen points at
  which it can be overtaken; VpnInv is what it keeps, VpnRuns the runs from concrete states.

  \<^bold>\<open>Conventions.\<close> A class or interface is a record, a union a datatype, an error an \<open>Inl\<close> or a
  \<open>None\<close>, a table a list of rows. Amounts and times are \<^typ>\<open>int\<close>, prices and measurements \<^typ>\<open>rat\<close>;
  a double is the rational it stands for, and JsValue has \<open>NaN\<close> and overflow where a value from
  outside can reach them. A function that awaits is cut at its awaits wherever another operation
  can run meanwhile: the workers, the Stripe rail, and the hooks. What is not under the
  directories above (SQLite, the stores and their SDKs, the chain's daemon and explorer,
  signing, hashing, \<open>JSON.parse\<close>, the native tunnels) is a parameter, or the environment of
  a step relation, with what is relied on as a named hypothesis.

  \<^bold>\<open>Interfaces.\<close> \<open>idempotent_queue\<close> is the contract of the payments table, \<open>binding_store\<close> that
  of the subscriptions table, \<open>period_transfer\<close> and \<open>limited_moves\<close> what the rails promise of
  a transfer, \<open>claim_service\<close> what the phone relies on in a bridge that it claims purchases
  from, and \<open>vpn_invariant\<close> what carries a property over the runs of a hook. Each is
  interpreted on the model's own definitions, in the theory that provides them.

  \<^bold>\<open>Bounds.\<close> There is no fuel: a recursion that is not structural has its measure. A loop of the
  source that may not end is a partial function to an option, \<open>None\<close> where it does not: the
  search of a proof of work and the draw of a voucher's characters, which end at the first try
  that fits (\<open>solvePoW_returns\<close>, \<open>randomChar_returns\<close>), and the waits for a handshake or a
  teardown, which end because the clock runs (\<open>probe_ends\<close>, \<open>handshake_wait_ends\<close>,
  \<open>teardown_ends\<close>).

  \<^bold>\<open>Properties.\<close> The claims C1 to C3 about settlement are below; BridgeProperties has the
  voucher store, the payouts and the configuration, RailProperties the three rails,
  ClientProperties the policies, AppProperties the rest of the core and the client joined with
  the bridge, DesktopProperties the desktop client, PhoneProperties and VpnProperties the mobile
  client. Beside each property with premises stands an instance at a concrete input. Some
  theories end with runs in which the program does not do what its comments say.

  \<^bold>\<open>Not modelled.\<close> The gateway (Go), but for the days it sells; the native sides (Rust, Swift,
  Kotlin); screens, pages and translations; the framework's conversion of request bodies, its
  rate limiter and CORS; log lines; of the hooks the counters, the live ping, favourites and the
  screenshot mode.
\<close>

section \<open>Settlement of payments\<close>

text \<open>
  C1. A confirmed payment has a transaction that was built for it and mined, that names its
  code in the memo, pays the payment address, and buys, at the price in force at the height
  it was mined at, at least the days of the payment.
\<close>

theorem confirmed_payment_is_settled:
  assumes "settle_reachable env view tip w" and "ids_distinct env w"
    and "wf_schedule (e_priceSchedule env)" and "in_zats (e_priceSchedule env)"
    and "r \<in> set (db_payments (w_db w))" and "p_status r = Confirmed"
  shows "\<exists>u h. (u, h) \<in> set (w_mined w) \<and> p_txid r = Some (tx_id env u)
    \<and> take 2 (x_outputs u) = [Pay (e_paymentAddress env) (first_pay u), Null_data (MEMO_PREFIX @ p_payment_code r)]
    \<and> p_days r \<le> gateway_days (first_pay u) (effective (e_priceSchedule env) h)"
proof -
  note inv = settle_reachable_inv [OF assms(1)]
  obtain u where u: "(p_id r, u) \<in> set (w_built w)" "u \<in> mined_txs w" "p_txid r = Some (tx_id env u)"
    using confirmed_mined [OF inv assms(2,5,6)] by blast
  then obtain h where h: "(u, h) \<in> set (w_mined w)" by (auto simp: mined_txs_def)
  obtain q where q: "q \<in> set (db_payments (w_db w))" "p_id q = p_id r"
    "pays_for env (p_days q) (p_payment_code q) u"
    "p_days q \<le> gateway_days (first_pay u) (effective (e_priceSchedule env) h)"
    using mined_covers [OF inv assms(3,4) u(1) h] by blast
  have "unique_key p_id (db_payments (w_db w))"
    using inv by (simp add: settle_inv_def core_inv_def db_wf_def payments_wf_def)
  then have "q = r" using q(1,2) assms(5) by (metis unique_keyD)
  with q u h show ?thesis
    using pays_for_first [OF q(3)] by (intro exI [of _ u] exI [of _ h]) (auto simp: pays_for_def)
qed

theorem confirmed_payment_is_settled_witness:
  "\<exists>u h. (u, h) \<in> set [(ex_tx ''ff'', 101), (ex_tx ''ee'', 102)] \<and> Some ''id-ee:0'' = Some (tx_id ex_env u)
    \<and> take 2 (x_outputs u) = [Pay ''t1payment'' (first_pay u), Null_data (MEMO_PREFIX @ ex_code)]
    \<and> 30 \<le> gateway_days (first_pay u) (effective [\<lparr>pe_from = 0, pe_flux = 1\<rparr>] h)"
proof -
  let ?r = "db_payments (ex_db4 ''ee'' 102) ! 1"
  have row: "?r \<in> set (db_payments (ex_db4 ''ee'' 102))" "p_status ?r = Confirmed"
    "p_txid ?r = Some ''id-ee:0''" "p_payment_code ?r = ex_code" "p_days ?r = 30"
    by code_simp+
  have sched: "wf_schedule (e_priceSchedule ex_env)" "in_zats (e_priceSchedule ex_env)"
    by (simp add: ex_env_def wf_schedule_def) code_simp
  from confirmed_payment_is_settled [OF ex_world_reachable ex_world_ids sched, of ?r] row show ?thesis
    by (simp add: ex_world_db) (simp add: ex_env_def ex_world_def world_at_def)
qed

text \<open>
  C2. However the workers, their crashes and the chain interleave, of all the transactions
  ever built for one payment at most one is mined: no payment is paid twice.
\<close>

theorem no_payment_paid_twice:
  assumes "settle_reachable env view tip w"
  shows "length (filter (\<lambda>(j, u). j = i \<and> u \<in> mined_txs w) (w_built w)) \<le> 1"
  using mined_once [OF settle_reachable_inv [OF assms], of i]
  by (simp add: txs_of_def filter_map comp_def case_prod_unfold conj_commute)

theorem no_payment_paid_twice_witness:
  "length (filter (\<lambda>(j, u). j = 2 \<and> u \<in> mined_txs ex_world) (w_built ex_world)) \<le> 1"
  by (rule no_payment_paid_twice [OF ex_world_reachable])

text \<open>
  C3. When the broadcaster builds on a current list of unspent outputs and transaction ids do
  not collide, two confirmed payments are never settled by the same transaction.
\<close>

theorem confirmed_payments_have_own_transactions:
  assumes "settle_reachable env fresh_view tip w" and "ids_distinct env w"
    and "r \<in> set (db_payments (w_db w))" and "p_status r = Confirmed"
    and "q \<in> set (db_payments (w_db w))" and "p_status q = Confirmed"
    and "p_id r \<noteq> p_id q"
  shows "p_txid r \<noteq> p_txid q"
  using assms by (rule confirmed_exclusive)

theorem confirmed_payments_have_own_transactions_witness:
  "p_txid (db_payments (ex_db4 ''ee'' 102) ! 0) \<noteq> p_txid (db_payments (ex_db4 ''ee'' 102) ! 1)"
proof -
  let ?r = "db_payments (ex_db4 ''ee'' 102) ! 0" and ?q = "db_payments (ex_db4 ''ee'' 102) ! 1"
  have "?r \<in> set (db_payments (ex_db4 ''ee'' 102))" "p_status ?r = Confirmed"
    "?q \<in> set (db_payments (ex_db4 ''ee'' 102))" "p_status ?q = Confirmed" "p_id ?r \<noteq> p_id ?q"
    by code_simp+
  then show ?thesis
    using confirmed_payments_have_own_transactions [OF ex_world_reachable ex_world_ids, of ?r ?q]
    by (simp add: ex_world_db)
qed

text \<open>
  Without that premise the statement fails although every server answers honestly: a run
  ends with two confirmed payments, one mined transaction and one transaction id for both.
  The second payment is settled without a transaction of its own.
\<close>

theorem stale_view_settles_two_payments:
  "\<exists>w r q. settle_reachable ex_env any_view 100 w \<and> ids_distinct ex_env w
     \<and> r \<in> set (db_payments (w_db w)) \<and> q \<in> set (db_payments (w_db w)) \<and> p_id r \<noteq> p_id q
     \<and> p_status r = Confirmed \<and> p_status q = Confirmed \<and> p_txid r = p_txid q
     \<and> length (w_mined w) = 1"
proof -
  obtain r q where ps: "db_payments (ex_db4 ''ff'' 101) = [r, q]" and rq: "p_id r = 1" "p_id q = 2"
    "p_status r = Confirmed" "p_status q = Confirmed" "p_txid r = p_txid q"
    using ex_outcomes(1) by (auto simp: map_eq_Cons_conv)
  show ?thesis
    by (rule exI, rule exI [of _ r], rule exI [of _ q], intro conjI, rule ex_run_stale, rule ex_ids_stale)
      (simp_all add: world_at_def ps rq)
qed

end
